(* ===== verification/SSPL_Prelude.thy ===== *)
theory SSPL_Prelude
  imports Main "HOL-Library.AList"
begin

text \<open>
  Shared ground of the development: the exceptions of the Python code as a datatype, a
  state-and-exception monad in which statements are sequenced, a small calculus for
  invariants of such programs, an interface (locale) for transition systems with an
  invariant, decimal printing of integers and the few string operations the sources use.
\<close>

named_theorems py_exec "equations that run the state-and-exception monad"
named_theorems keeps_rules "introduction rules for invariants of monadic programs"

section \<open>Exceptions and the state-and-exception monad\<close>

text \<open>
  The exception classes the modelled code raises, catches or lets pass. \<open>PyException\<close>
  stands for a plain \<^verbatim>\<open>raise Exception(...)\<close>.
\<close>

datatype py_exn =
    KeyError | AttributeError | TypeError | ValueError | IndexError | OSError
  | RecursionError | DBusException | GLibError | MessageBusError | EventMessageError
  | ThreadException | UnboundLocalError | PyException | OverflowError

type_synonym 'a res = "py_exn + 'a"

type_synonym ('s, 'a) proc = "'s \<Rightarrow> 'a res \<times> 's"

definition ret :: "'a \<Rightarrow> ('s, 'a) proc" where
  [py_exec]: "ret x s = (Inr x, s)"

definition raise :: "py_exn \<Rightarrow> ('s, 'a) proc" where
  [py_exec]: "raise e s = (Inl e, s)"

definition bindp :: "('s, 'a) proc \<Rightarrow> ('a \<Rightarrow> ('s, 'b) proc) \<Rightarrow> ('s, 'b) proc" where
  [py_exec]: "bindp m f s = (case m s of (Inl e, s') \<Rightarrow> (Inl e, s') | (Inr x, s') \<Rightarrow> f x s')"

definition seqp :: "('s, 'a) proc \<Rightarrow> ('s, 'b) proc \<Rightarrow> ('s, 'b) proc" where
  [py_exec]: "seqp m n s = (case m s of (Inl e, s') \<Rightarrow> (Inl e, s') | (Inr _, s') \<Rightarrow> n s')"

definition tryp :: "('s, 'a) proc \<Rightarrow> (py_exn \<Rightarrow> ('s, 'a) proc) \<Rightarrow> ('s, 'a) proc" where
  [py_exec]: "tryp m h s = (case m s of (Inl e, s') \<Rightarrow> h e s' | (Inr x, s') \<Rightarrow> (Inr x, s'))"

definition getp :: "('s \<Rightarrow> 'a) \<Rightarrow> ('s, 'a) proc" where
  [py_exec]: "getp f s = (Inr (f s), s)"

definition modp :: "('s \<Rightarrow> 's) \<Rightarrow> ('s, unit) proc" where
  [py_exec]: "modp f s = (Inr (), f s)"

definition liftp :: "'a res \<Rightarrow> ('s, 'a) proc" where
  [py_exec]: "liftp r s = (r, s)"

primrec forp :: "'x list \<Rightarrow> ('x \<Rightarrow> ('s, unit) proc) \<Rightarrow> ('s, unit) proc" where
  "forp [] f = ret ()"
| "forp (x # xs) f = seqp (f x) (forp xs f)"

text \<open>The body of a \<^verbatim>\<open>try\<close> whose handlers only log: every exception is swallowed.\<close>

definition swallow :: "('s, unit) proc \<Rightarrow> ('s, unit) proc" where
  [py_exec]: "swallow m s = (Inr (), snd (m s))"

text \<open>The result of a pure computation, bound the same way.\<close>

definition bindr :: "'a res \<Rightarrow> ('a \<Rightarrow> 'b res) \<Rightarrow> 'b res" where
  [py_exec]: "bindr r f = (case r of Inl e \<Rightarrow> Inl e | Inr x \<Rightarrow> f x)"

lemma bindr_simps [simp]: "bindr (Inl e) f = Inl e" "bindr (Inr x) f = f x"
  by (simp_all add: bindr_def)

lemma bindr_eq_Inr: "bindr r f = Inr y \<longleftrightarrow> (\<exists>x. r = Inr x \<and> f x = Inr y)"
  by (cases r) auto

lemma bindp_assoc: "bindp (bindp m f) g = bindp m (\<lambda>x. bindp (f x) g)"
  by (rule ext) (simp add: bindp_def split: prod.splits sum.splits)

lemma bindp_ret [simp]: "bindp (ret x) f = f x" "bindp m ret = m"
  by (auto simp: bindp_def ret_def fun_eq_iff split: prod.splits sum.splits)

lemma bindp_run: "m s = (Inr x, s') \<Longrightarrow> bindp m f s = f x s'"
  by (simp add: bindp_def)

lemma seqp_run: "m s = (Inr x, s') \<Longrightarrow> seqp m n s = n s'"
  by (simp add: seqp_def)

lemma bindp_liftp: "bindp (liftp (Inr x)) f = f x"
  by (simp add: fun_eq_iff bindp_def liftp_def)

lemma bindp_fail: "m s = (Inl e, s') \<Longrightarrow> bindp m f s = (Inl e, s')"
  by (simp add: bindp_def)

lemma forp_append: "forp (xs @ ys) f s = seqp (forp xs f) (forp ys f) s"
proof (induction xs arbitrary: s)
  case Nil
  show ?case by (simp add: seqp_def ret_def)
next
  case (Cons x xs)
  show ?case
    by (cases "f x s") (auto simp: seqp_def Cons.IH split: sum.splits)
qed

section \<open>Invariants of monadic programs\<close>

text \<open>
  \<open>keeps I m\<close>: whichever way \<open>m\<close> ends, by a value or by an exception, the invariant holds
  afterwards. The rules compose it along the structure of the program.
\<close>

definition keeps :: "('s \<Rightarrow> bool) \<Rightarrow> ('s, 'a) proc \<Rightarrow> bool" where
  "keeps I m \<longleftrightarrow> (\<forall>s. I s \<longrightarrow> I (snd (m s)))"

lemma keepsI: "(\<And>s. I s \<Longrightarrow> I (snd (m s))) \<Longrightarrow> keeps I m"
  by (simp add: keeps_def)

lemma keepsD: "keeps I m \<Longrightarrow> I s \<Longrightarrow> I (snd (m s))"
  by (simp add: keeps_def)

lemma keeps_ret [keeps_rules]: "keeps I (ret x)"
  by (simp add: keeps_def ret_def)

lemma keeps_raise [keeps_rules]: "keeps I (raise e)"
  by (simp add: keeps_def raise_def)

lemma keeps_getp [keeps_rules]: "keeps I (getp f)"
  by (simp add: keeps_def getp_def)

lemma keeps_liftp [keeps_rules]: "keeps I (liftp r)"
  by (simp add: keeps_def liftp_def)

lemma keeps_bindp [keeps_rules]:
  assumes "keeps I m" and "\<And>x. keeps I (f x)"
  shows "keeps I (bindp m f)"
proof (rule keepsI)
  fix s assume "I s"
  with assms(1) have "I (snd (m s))" by (rule keepsD)
  with assms(2) show "I (snd (bindp m f s))"
    by (auto simp: bindp_def keeps_def split: prod.splits sum.splits)
qed

lemma keeps_seqp [keeps_rules]:
  assumes "keeps I m" and "keeps I n"
  shows "keeps I (seqp m n)"
proof (rule keepsI)
  fix s assume "I s"
  with assms(1) have "I (snd (m s))" by (rule keepsD)
  with assms(2) show "I (snd (seqp m n s))"
    by (auto simp: seqp_def keeps_def split: prod.splits sum.splits)
qed

lemma keeps_tryp [keeps_rules]:
  assumes "keeps I m" and "\<And>e. keeps I (h e)"
  shows "keeps I (tryp m h)"
proof (rule keepsI)
  fix s assume "I s"
  with assms(1) have "I (snd (m s))" by (rule keepsD)
  with assms(2) show "I (snd (tryp m h s))"
    by (auto simp: tryp_def keeps_def split: prod.splits sum.splits)
qed

lemma keeps_swallow [keeps_rules]: "keeps I m \<Longrightarrow> keeps I (swallow m)"
  by (simp add: keeps_def swallow_def)

lemma keeps_forp [keeps_rules]: "(\<And>x. keeps I (f x)) \<Longrightarrow> keeps I (forp xs f)"
  by (induction xs) (auto intro: keeps_rules)

lemma keeps_if [keeps_rules]: "(b \<Longrightarrow> keeps I m) \<Longrightarrow> (\<not> b \<Longrightarrow> keeps I n) \<Longrightarrow> keeps I (if b then m else n)"
  by simp

lemma keeps_case_prod [keeps_rules]: "(\<And>a b. keeps I (f a b)) \<Longrightarrow> keeps I (case p of (a, b) \<Rightarrow> f a b)"
  by (cases p) simp

lemma keeps_case_option: "keeps I m \<Longrightarrow> (\<And>x. keeps I (f x)) \<Longrightarrow> keeps I (case p of None \<Rightarrow> m | Some x \<Rightarrow> f x)"
  by (cases p) simp_all

lemma keeps_modp: "(\<And>s. I s \<Longrightarrow> I (f s)) \<Longrightarrow> keeps I (modp f)"
  by (simp add: keeps_def modp_def)

section \<open>Transition systems with an invariant\<close>

text \<open>
  The interface every state machine of the development offers: initial states, steps, and
  an invariant that holds initially and is kept by every step. Reachability and the two
  facts a client needs are proved once here.
\<close>

locale invariant_system =
  fixes init :: "'s \<Rightarrow> bool"
    and step :: "'s \<Rightarrow> 's \<Rightarrow> bool"
    and inv :: "'s \<Rightarrow> bool"
  assumes inv_init: "init s \<Longrightarrow> inv s"
    and inv_step: "inv s \<Longrightarrow> step s t \<Longrightarrow> inv t"
begin

lemma inv_steps: "step\<^sup>*\<^sup>* s t \<Longrightarrow> inv s \<Longrightarrow> inv t"
  by (induction rule: rtranclp_induct) (auto intro: inv_step)

lemma inv_reachable: "init s \<Longrightarrow> step\<^sup>*\<^sup>* s t \<Longrightarrow> inv t"
  using inv_steps inv_init by blast

end

section \<open>Components that alert on a change of a remembered state\<close>

text \<open>
  Several components remember the last alert they raised for a resource (\<open>prev\<close>) and raise an
  alert only when the new state differs. A step either leaves the remembered state and the
  alerts alone, or appends one alert that differs from the remembered one and remembers it.
  Then no two consecutive alerts are equal.
\<close>

definition alert_step :: "'a option \<Rightarrow> 'a list \<Rightarrow> 'a option \<Rightarrow> 'a list \<Rightarrow> bool" where
  "alert_step p l p' l' \<longleftrightarrow> p' = p \<and> l' = l \<or> (\<exists>a. p \<noteq> Some a \<and> p' = Some a \<and> l' = l @ [a])"

locale alert_log =
  fixes inv :: "'s \<Rightarrow> bool"
    and step :: "'s \<Rightarrow> 's \<Rightarrow> bool"
    and prev :: "'s \<Rightarrow> 'a option"
    and raised :: "'s \<Rightarrow> 'a list"
  assumes step_inv: "inv s \<Longrightarrow> step s s' \<Longrightarrow> inv s'"
    and step_alert: "inv s \<Longrightarrow> step s s' \<Longrightarrow> alert_step (prev s) (raised s) (prev s') (raised s')"
begin

definition linked :: "'s \<Rightarrow> bool" where
  "linked s \<longleftrightarrow> raised s \<noteq> [] \<longrightarrow> prev s = Some (last (raised s))"

lemma linked_step:
  assumes "inv s" and "step s s'" and "linked s" and "successively (\<noteq>) (raised s)"
  shows "linked s' \<and> successively (\<noteq>) (raised s')"
  using step_alert [OF assms(1,2)] assms(3,4)
  by (auto simp: linked_def alert_step_def successively_append_iff)

lemma never_repeats:
  assumes "inv s" and "linked s" and "successively (\<noteq>) (raised s)" and "step\<^sup>*\<^sup>* s s'"
  shows "successively (\<noteq>) (raised s')"
proof -
  from assms(4) have "inv s' \<and> linked s' \<and> successively (\<noteq>) (raised s')"
    using assms(1-3) by (induction rule: rtranclp_induct) (auto dest: linked_step intro: step_inv)
  then show ?thesis by blast
qed

end

section \<open>Decimal numerals and strings\<close>

definition digit :: "nat \<Rightarrow> char" where
  "digit n = char_of (48 + n)"

fun str_nat :: "nat \<Rightarrow> string" where
  "str_nat n = (if n < 10 then [digit n] else str_nat (n div 10) @ [digit (n mod 10)])"

declare str_nat.simps [simp del]

definition nat_of_str :: "string \<Rightarrow> nat" where
  "nat_of_str cs = foldl (\<lambda>a c. 10 * a + (of_char c - 48)) 0 cs"

lemma of_char_digit: "n < 10 \<Longrightarrow> of_char (digit n) = 48 + n"
  by (simp add: digit_def)

lemma nat_of_str_snoc: "nat_of_str (cs @ [c]) = 10 * nat_of_str cs + (of_char c - 48)"
  by (simp add: nat_of_str_def)

lemma nat_of_str_nat [simp]: "nat_of_str (str_nat n) = n"
proof (induction n rule: str_nat.induct)
  case (1 n)
  show ?case
  proof (cases "n < 10")
    case True
    then show ?thesis by (simp add: str_nat.simps [of n] nat_of_str_def of_char_digit)
  next
    case False
    with "1.IH" have "nat_of_str (str_nat (n div 10)) = n div 10" by simp
    with False show ?thesis
      by (simp add: str_nat.simps [of n] nat_of_str_snoc of_char_digit)
  qed
qed

lemma str_nat_inj: "str_nat m = str_nat n \<longleftrightarrow> m = n"
  by (metis nat_of_str_nat)

lemma str_nat_digits: "c \<in> set (str_nat n) \<Longrightarrow> \<exists>k<10. c = digit k"
proof (induction n rule: str_nat.induct)
  case (1 n)
  show ?case
  proof (cases "n < 10")
    case True
    with "1.prems" show ?thesis by (auto simp: str_nat.simps [of n])
  next
    case False
    with "1.prems" have "c \<in> set (str_nat (n div 10)) \<or> c = digit (n mod 10)"
      by (auto simp: str_nat.simps [of n])
    then show ?thesis
      using "1.IH" False by (metis mod_less_divisor zero_less_numeral)
  qed
qed

definition str_int :: "int \<Rightarrow> string" where
  "str_int i = (if i < 0 then CHR ''-'' # str_nat (nat (- i)) else str_nat (nat i))"

lemma str_nat_no_minus: "CHR ''-'' \<notin> set (str_nat n)"
proof
  assume "CHR ''-'' \<in> set (str_nat n)"
  then obtain k where k: "k < 10" and "CHR ''-'' = digit k"
    using str_nat_digits by blast
  then have "(of_char (CHR ''-'') :: nat) = of_char (digit k)" by simp
  with k show False by (simp add: of_char_digit)
qed

lemma str_int_inj: "str_int i = str_int j \<longleftrightarrow> i = j"
proof
  assume eq: "str_int i = str_int j"
  have hd: "CHR ''-'' # u \<noteq> str_nat n" for u n
    using str_nat_no_minus [of n] by (metis list.set_intros(1))
  show "i = j"
    using eq hd hd [symmetric] by (auto simp: str_int_def str_nat_inj split: if_splits)
qed simp

definition lower_char :: "char \<Rightarrow> char" where
  "lower_char c = (if 65 \<le> (of_char c :: nat) \<and> (of_char c :: nat) \<le> 90
     then char_of ((of_char c :: nat) + 32) else c)"

text \<open>\<^verbatim>\<open>str.lower()\<close> and \<^verbatim>\<open>str.upper()\<close> on ASCII text.\<close>

definition lower :: "string \<Rightarrow> string" where
  "lower s = map lower_char s"

definition upper_char :: "char \<Rightarrow> char" where
  "upper_char c = (if 97 \<le> (of_char c :: nat) \<and> (of_char c :: nat) \<le> 122
     then char_of ((of_char c :: nat) - 32) else c)"

definition upper :: "string \<Rightarrow> string" where
  "upper s = map upper_char s"

lemma lower_char_idem: "lower_char (lower_char c) = lower_char c"
  by (auto simp: lower_char_def)

lemma lower_idem [simp]: "lower (lower s) = lower s"
  by (simp add: lower_def lower_char_idem)

text \<open>Python's \<^verbatim>\<open>pat in s\<close> on strings.\<close>

fun contains :: "string \<Rightarrow> string \<Rightarrow> bool" where
  "contains pat [] = (pat = [])"
| "contains pat (c # s) = (take (length pat) (c # s) = pat \<or> contains pat s)"

lemma contains_iff: "contains pat s \<longleftrightarrow> (\<exists>u v. s = u @ pat @ v)"
proof (induction s)
  case Nil
  show ?case by simp
next
  case (Cons c s)
  have "(\<exists>u v. c # s = u @ pat @ v) \<longleftrightarrow>
      (\<exists>v. c # s = pat @ v) \<or> (\<exists>u v. s = u @ pat @ v)"
    by (metis append_Cons append_Nil append_eq_Cons_conv)
  moreover have "(\<exists>v. c # s = pat @ v) \<longleftrightarrow> take (length pat) (c # s) = pat"
    by (metis append_eq_conv_conj append_take_drop_id)
  ultimately show ?case using Cons.IH by auto
qed

text \<open>
  \<^verbatim>\<open>str.find\<close> (\<open>-1\<close> when there is no occurrence), \<^verbatim>\<open>s.replace(pat, "")\<close> for a non-empty
  pattern, \<^verbatim>\<open>str.isdigit()\<close> on ASCII text.
\<close>

fun find_str :: "string \<Rightarrow> string \<Rightarrow> int" where
  "find_str pat [] = (if pat = [] then 0 else - 1)"
| "find_str pat (c # s) = (if take (length pat) (c # s) = pat then 0
     else let i = find_str pat s in if i < 0 then - 1 else i + 1)"

fun remove_str :: "string \<Rightarrow> string \<Rightarrow> string" where
  "remove_str pat [] = []"
| "remove_str pat (c # s) = (if pat \<noteq> [] \<and> take (length pat) (c # s) = pat
     then remove_str pat (drop (length pat - 1) s) else c # remove_str pat s)"

definition is_digit :: "char \<Rightarrow> bool" where
  "is_digit c = (48 \<le> (of_char c :: nat) \<and> (of_char c :: nat) \<le> 57)"

definition isdigit :: "string \<Rightarrow> bool" where
  "isdigit s = (s \<noteq> [] \<and> list_all is_digit s)"

text \<open>
  \<^verbatim>\<open>int(s)\<close> on ASCII text: surrounding white space, an optional sign, digits in which single
  underscores may separate two digits.
\<close>

definition is_space :: "char \<Rightarrow> bool" where
  "is_space c = (let n = of_char c :: nat in n = 32 \<or> 9 \<le> n \<and> n \<le> 13 \<or> 28 \<le> n \<and> n \<le> 31)"

definition strip :: "string \<Rightarrow> string" where
  "strip s = rev (dropWhile is_space (rev (dropWhile is_space s)))"

fun digits_of :: "string \<Rightarrow> string option" where
  "digits_of [] = None"
| "digits_of [c] = (if is_digit c then Some [c] else None)"
| "digits_of (c # d # s) = (if \<not> is_digit c then None
     else if d = CHR ''_'' then map_option (Cons c) (digits_of s)
     else map_option (Cons c) (digits_of (d # s)))"

definition py_int :: "string \<Rightarrow> int res" where
  "py_int s = (let t = strip s; signed = take 1 t \<in> {''-'', ''+''};
     body = (if signed then drop 1 t else t)
   in case digits_of body of None \<Rightarrow> Inl ValueError
      | Some ds \<Rightarrow> Inr (if take 1 t = ''-'' then - int (nat_of_str ds) else int (nat_of_str ds)))"

lemma find_str_neg: "find_str pat s < 0 \<longleftrightarrow> \<not> contains pat s"
proof (induction s)
  case (Cons c s)
  then show ?case by (cases "find_str pat s < 0") (simp_all add: Let_def)
qed simp

lemma is_digit_digit: "n < 10 \<Longrightarrow> is_digit (digit n)"
  by (simp add: is_digit_def of_char_digit)

lemma list_all_str_nat: "list_all is_digit (str_nat n)"
  using str_nat_digits [of _ n] is_digit_digit by (auto simp: list_all_iff)

lemma digits_of_plain: "s \<noteq> [] \<Longrightarrow> list_all is_digit s \<Longrightarrow> digits_of s = Some s"
  by (induction s rule: digits_of.induct) (auto simp: is_digit_def)

lemma digit_not_space: "is_digit c \<Longrightarrow> \<not> is_space c"
  by (auto simp: is_digit_def is_space_def Let_def)

lemma str_nat_nonempty: "str_nat n \<noteq> []"
  by (simp add: str_nat.simps [of n])

lemma strip_plain: "list_all (\<lambda>c. \<not> is_space c) s \<Longrightarrow> strip s = s"
proof -
  assume a: "list_all (\<lambda>c. \<not> is_space c) s"
  have "dropWhile is_space u = u" if "list_all (\<lambda>c. \<not> is_space c) u" for u
    using that by (cases u) auto
  with a show ?thesis by (simp add: strip_def list_all_rev)
qed

text \<open>Printing and reading an integer.\<close>

lemma py_int_str_int: "py_int (str_int i) = Inr i"
proof -
  have dig: "list_all is_digit (str_nat n)" for n by (rule list_all_str_nat)
  have sp: "list_all (\<lambda>c. \<not> is_space c) (str_nat n)" for n
    using dig [of n] digit_not_space by (auto simp: list_all_iff)
  have hd: "take 1 (str_nat n) \<noteq> ''-''" "take 1 (str_nat n) \<noteq> ''+''" for n
    using dig [of n] str_nat_nonempty [of n] by (cases "str_nat n"; auto simp: is_digit_def)+
  have "strip (str_int i) = str_int i"
    by (rule strip_plain) (use sp in \<open>auto simp: str_int_def is_space_def Let_def\<close>)
  then show ?thesis
    using hd dig by (auto simp: py_int_def str_int_def digits_of_plain str_nat_nonempty Let_def)
qed

text \<open>\<^verbatim>\<open>s.split()\<close>, \<^verbatim>\<open>s.split(c)\<close> for a single character.\<close>

function split_ws :: "string \<Rightarrow> string list" where
  "split_ws [] = []"
| "split_ws (c # s) = (if is_space c then split_ws s
     else takeWhile (\<lambda>x. \<not> is_space x) (c # s) # split_ws (dropWhile (\<lambda>x. \<not> is_space x) s))"
  by pat_completeness auto
termination
  by (relation "measure length") (auto simp: le_imp_less_Suc length_dropWhile_le)

fun split_on :: "char \<Rightarrow> string \<Rightarrow> string list" where
  "split_on d [] = [[]]"
| "split_on d (c # s) = (if c = d then [] # split_on d s
     else case split_on d s of t # ts \<Rightarrow> (c # t) # ts | [] \<Rightarrow> [[c]])"

lemma split_on_nonempty: "split_on d s \<noteq> []"
  by (cases s) (auto split: list.splits)

lemma split_on_plain: "d \<notin> set s \<Longrightarrow> split_on d s = [s]"
  by (induction s) auto

text \<open>Splitting what was joined.\<close>

lemma split_on_append: "d \<notin> set s \<Longrightarrow> split_on d (s @ d # t) = s # split_on d t"
  by (induction s) auto

text \<open>\<^verbatim>\<open>s.rstrip(c)\<close> for a single character.\<close>

definition rstrip_char :: "char \<Rightarrow> string \<Rightarrow> string" where
  "rstrip_char c s = rev (dropWhile (\<lambda>x. x = c) (rev s))"

lemma seqp_bindp: "seqp m n = bindp m (\<lambda>_. n)"
  by (simp add: seqp_def bindp_def fun_eq_iff)

text \<open>
  \<open>acts_by log A m\<close>: whichever way \<open>m\<close> ends, it has added at most one entry to the log, and that is one of \<open>A\<close>.
\<close>

definition acts_by :: "('s \<Rightarrow> 'l list) \<Rightarrow> 'l set \<Rightarrow> ('s, 'a) proc \<Rightarrow> bool" where
  "acts_by log A m \<longleftrightarrow> (\<forall>s. log (snd (m s)) = log s \<or> (\<exists>x \<in> A. log (snd (m s)) = log s @ [x]))"

lemma acts_mono: "acts_by log A m \<Longrightarrow> A \<subseteq> B \<Longrightarrow> acts_by log B m"
  by (fastforce simp: acts_by_def)

lemma acts_basic [simp, intro]: "acts_by log A (ret x)" "acts_by log A (raise e)" "acts_by log A (liftp r)" "acts_by log A (getp f)"
  by (auto simp: acts_by_def ret_def raise_def liftp_def getp_def)

lemma acts_modp: "(\<And>s. log (f s) = log s) \<Longrightarrow> acts_by log A (modp f)"
  by (simp add: acts_by_def modp_def)

lemma acts_if: "(b \<Longrightarrow> acts_by log A m) \<Longrightarrow> (\<not> b \<Longrightarrow> acts_by log A n) \<Longrightarrow> acts_by log A (if b then m else n)"
  by simp

lemma acts_bindp:
  assumes "acts_by log {} m" and "\<And>x. acts_by log A (f x)"
  shows "acts_by log A (bindp m f)"
  unfolding acts_by_def
proof
  fix s
  obtain r s1 where r: "m s = (r, s1)" by force
  have "log (snd (m s)) = log s" using assms(1) by (simp add: acts_by_def)
  with r have s1: "log s1 = log s" by simp
  show "log (snd (bindp m f s)) = log s \<or> (\<exists>x \<in> A. log (snd (bindp m f s)) = log s @ [x])"
  proof (cases r)
    case (Inr x)
    with assms(2) [of x] r s1 show ?thesis by (simp add: bindp_def acts_by_def) metis
  qed (use r s1 in \<open>simp add: bindp_def\<close>)
qed

lemma acts_bindp_quiet:
  assumes "acts_by log A m" and "\<And>x. acts_by log {} (f x)"
  shows "acts_by log A (bindp m f)"
  unfolding acts_by_def
proof
  fix s
  have "log (snd (bindp m f s)) = log (snd (m s))" using assms(2) by (auto simp: acts_by_def bindp_def split: prod.splits sum.splits)
  with assms(1) show "log (snd (bindp m f s)) = log s \<or> (\<exists>x \<in> A. log (snd (bindp m f s)) = log s @ [x])"
    by (simp add: acts_by_def)
qed

lemma acts_tryp: "acts_by log A m \<Longrightarrow> (\<And>e. acts_by log {} (h e)) \<Longrightarrow> acts_by log A (tryp m h)"
  unfolding acts_by_def tryp_def by (auto split: prod.splits sum.splits) (metis snd_conv)+

text \<open>
  \<open>runs P m Q E\<close>: from a state with \<open>P\<close>, a value of \<open>m\<close> comes with \<open>Q\<close>, an exception with \<open>E\<close>.
\<close>

definition runs :: "('s \<Rightarrow> bool) \<Rightarrow> ('s, 'a) proc \<Rightarrow> ('a \<Rightarrow> 's \<Rightarrow> bool) \<Rightarrow> ('s \<Rightarrow> bool) \<Rightarrow> bool" where
  "runs P m Q E \<longleftrightarrow> (\<forall>s. P s \<longrightarrow> (case m s of (Inr x, s') \<Rightarrow> Q x s' | (Inl e, s') \<Rightarrow> E s'))"

lemma runsI: "(\<And>s r s'. P s \<Longrightarrow> m s = (r, s') \<Longrightarrow> case r of Inr x \<Rightarrow> Q x s' | Inl e \<Rightarrow> E s') \<Longrightarrow> runs P m Q E"
  unfolding runs_def by (auto split: prod.splits sum.splits)

lemma runs_pre: "runs P' m Q E \<Longrightarrow> (\<And>s. P s \<Longrightarrow> P' s) \<Longrightarrow> runs P m Q E"
  by (auto simp: runs_def)

lemma runs_post: "runs P m Q' E \<Longrightarrow> (\<And>x s. Q' x s \<Longrightarrow> Q x s) \<Longrightarrow> runs P m Q E"
  unfolding runs_def by (fastforce split: prod.splits sum.splits)

lemma runs_bindp: "runs P m R E \<Longrightarrow> (\<And>x. runs (R x) (f x) Q E) \<Longrightarrow> runs P (bindp m f) Q E"
  unfolding runs_def bindp_def by (fastforce split: prod.splits sum.splits)

lemma runs_seqp: "runs P m R E \<Longrightarrow> (\<And>x. runs (R x) n Q E) \<Longrightarrow> runs P (seqp m n) Q E"
  by (simp add: seqp_bindp runs_bindp)

lemma runs_ret: "(\<And>s. P s \<Longrightarrow> Q x s) \<Longrightarrow> runs P (ret x) Q E"
  by (simp add: runs_def ret_def)

lemma runs_raise: "(\<And>s. P s \<Longrightarrow> E s) \<Longrightarrow> runs P (raise e) Q E"
  by (simp add: runs_def raise_def)

lemma runs_getp: "runs P (getp f) (\<lambda>x s. P s \<and> x = f s) E"
  by (simp add: runs_def getp_def)

lemma runs_liftp: "(\<And>s. P s \<Longrightarrow> E s) \<Longrightarrow> runs P (liftp r) (\<lambda>x s. P s \<and> r = Inr x) E"
  by (cases r) (simp_all add: runs_def liftp_def)

lemma runs_modp: "(\<And>s. P s \<Longrightarrow> Q () (f s)) \<Longrightarrow> runs P (modp f) Q E"
  by (simp add: runs_def modp_def)

lemma runs_if: "(b \<Longrightarrow> runs P m Q E) \<Longrightarrow> (\<not> b \<Longrightarrow> runs P n Q E) \<Longrightarrow> runs P (if b then m else n) Q E"
  by simp

lemma runs_keeps: "keeps P m \<Longrightarrow> (\<And>s. P s \<Longrightarrow> E s) \<Longrightarrow> runs P m (\<lambda>_. P) E"
  unfolding runs_def keeps_def by (auto split: prod.splits sum.splits)

lemma keeps_runs: "runs P m (\<lambda>_. P) P \<Longrightarrow> keeps P m"
  unfolding runs_def keeps_def by (fastforce split: prod.splits sum.splits)

lemma runs_snd: "runs P m (\<lambda>_. E) E \<Longrightarrow> P s \<Longrightarrow> E (snd (m s))"
  unfolding runs_def by (cases "m s") (fastforce split: sum.splits)

text \<open>\<^verbatim>\<open>str.splitlines()\<close> on ASCII text.\<close>

definition is_break :: "char \<Rightarrow> bool" where
  "is_break c = (let n = of_char c :: nat in 10 \<le> n \<and> n \<le> 13 \<or> 28 \<le> n \<and> n \<le> 30)"

function splitlines :: "string \<Rightarrow> string list" where
  "splitlines [] = []"
| "splitlines (c # s) = (let line = takeWhile (\<lambda>x. \<not> is_break x) (c # s); rest = dropWhile (\<lambda>x. \<not> is_break x) (c # s)
     in line # splitlines (if take 2 rest = [CHR 0x0D, CHR 0x0A] then drop 2 rest else drop 1 rest))"
  by pat_completeness auto
termination
proof (relation "measure length")
  fix c s x xa
  assume "x = takeWhile (\<lambda>x. \<not> is_break x) (c # s)" and xa: "xa = dropWhile (\<lambda>x. \<not> is_break x) (c # s)"
  have "length xa \<le> length (c # s)" unfolding xa by (rule length_dropWhile_le)
  then show "((if take 2 xa = [CHR 0x0D, CHR 0x0A] then drop 2 xa else drop 1 xa), c # s) \<in> measure length"
    by auto
qed simp

end
