(* ===== verification/Py_Values.thy ===== *)
theory Py_Values
  imports SSPL_Prelude
begin

text \<open>
  Python values as the framework passes them around: \<^verbatim>\<open>None\<close>, booleans, integers, text,
  byte strings, lists, dictionaries with string keys, and floats. A float is given by its \<^verbatim>\<open>repr\<close>, the
  shortest decimal text that reads back as it: different floats have different ones, in the same order. Dictionaries keep insertion order
  (Python 3.7 and later), so they are association lists under \<open>AList.update\<close> and
  \<open>AList.delete\<close>. The theory also holds the two helpers of the framework that work on such
  values and on alert types: \<^verbatim>\<open>MonUtils.normalize_kv\<close> and \<^verbatim>\<open>SeverityReader.map_severity\<close>.
\<close>

datatype pyv =
    PNone
  | PBool bool
  | PInt int
  | PStr string
  | PBytes string
  | PList "pyv list"
  | PDict "(string \<times> pyv) list"
  | PFloat string

type_synonym pydict = "(string \<times> pyv) list"

section \<open>Numbers\<close>

text \<open>
  The number a float denotes: a decimal (mantissa and exponent of ten), an infinity or not a number. Comparing the
  shortest decimals is comparing the floats, and comparing one with an integer too.
\<close>

datatype py_num = Fin "int \<times> int" | Infinite bool | NaN

definition digits_int :: "string \<Rightarrow> int" where
  "digits_int s = foldl (\<lambda>n c. n * 10 + (of_char c - 48)) 0 s"

definition signed_digits :: "string \<Rightarrow> int" where
  "signed_digits s = (if take 1 s = ''-'' then - digits_int (drop 1 s)
     else digits_int (if take 1 s = ''+'' then drop 1 s else s))"

definition float_num :: "string \<Rightarrow> py_num" where
  "float_num t = (if t = ''nan'' then NaN else if t = ''inf'' then Infinite True else if t = ''-inf'' then Infinite False
     else let m = takeWhile (\<lambda>c. c \<noteq> CHR ''e'') t; e = drop (length m + 1) t;
            whole = takeWhile (\<lambda>c. c \<noteq> CHR ''.'') m; frac = drop (length whole + 1) m
          in Fin (signed_digits (whole @ frac), signed_digits e - int (length frac)))"

definition dec_le :: "int \<times> int \<Rightarrow> int \<times> int \<Rightarrow> bool" where
  "dec_le a b = (let k = min (snd a) (snd b) in fst a * 10 ^ nat (snd a - k) \<le> fst b * 10 ^ nat (snd b - k))"

fun num_le :: "py_num \<Rightarrow> py_num \<Rightarrow> bool" where
  "num_le (Fin a) (Fin b) = dec_le a b"
| "num_le NaN y = False"
| "num_le x NaN = False"
| "num_le (Infinite p) y = (\<not> p \<or> y = Infinite True)"
| "num_le x (Infinite p) = p"

definition num_eq :: "py_num \<Rightarrow> py_num \<Rightarrow> bool" where
  "num_eq a b \<longleftrightarrow> num_le a b \<and> num_le b a"

definition num_less :: "py_num \<Rightarrow> py_num \<Rightarrow> bool" where
  "num_less a b \<longleftrightarrow> num_le a b \<and> \<not> num_le b a"

section \<open>Truth value, lookups, conversions\<close>

fun truthy :: "pyv \<Rightarrow> bool" where
  "truthy PNone = False"
| "truthy (PBool b) = b"
| "truthy (PInt i) = (i \<noteq> 0)"
| "truthy (PStr s) = (s \<noteq> [])"
| "truthy (PBytes s) = (s \<noteq> [])"
| "truthy (PList xs) = (xs \<noteq> [])"
| "truthy (PDict d) = (d \<noteq> [])"
| "truthy (PFloat t) = (t \<noteq> ''0.0'' \<and> t \<noteq> ''-0.0'')"

text \<open>\<^verbatim>\<open>v[k]\<close> for a string key.\<close>

fun getitem :: "pyv \<Rightarrow> string \<Rightarrow> pyv res" where
  "getitem (PDict d) k = (case map_of d k of None \<Rightarrow> Inl KeyError | Some v \<Rightarrow> Inr v)"
| "getitem _ k = Inl TypeError"

text \<open>\<^verbatim>\<open>v.get(k)\<close> and \<^verbatim>\<open>v.get(k, default)\<close>: only dictionaries have the method.\<close>

fun get_default :: "pyv \<Rightarrow> string \<Rightarrow> pyv \<Rightarrow> pyv res" where
  "get_default (PDict d) k def = Inr (case map_of d k of None \<Rightarrow> def | Some v \<Rightarrow> v)"
| "get_default _ k def = Inl AttributeError"

definition get_key :: "pyv \<Rightarrow> string \<Rightarrow> pyv res" where
  "get_key v k = get_default v k PNone"

lemma get_key_PDict [simp]:
  "get_key (PDict d) k = Inr (case map_of d k of None \<Rightarrow> PNone | Some v \<Rightarrow> v)"
  by (simp add: get_key_def)

text \<open>A chain \<^verbatim>\<open>v.get(k1).get(k2)...\<close>.\<close>

fun get_path :: "pyv \<Rightarrow> string list \<Rightarrow> pyv res" where
  "get_path v [] = Inr v"
| "get_path v (k # ks) = bindr (get_key v k) (\<lambda>u. get_path u ks)"

text \<open>\<^verbatim>\<open>m.get(k1) is not None and m.get(k1).get(k2) is not None and ...\<close>, with the last value.\<close>

fun get_chain :: "pyv \<Rightarrow> string list \<Rightarrow> pyv res" where
  "get_chain v [] = Inr v"
| "get_chain v (k # ks) = bindr (get_key v k) (\<lambda>u. if u = PNone then Inr PNone else get_chain u ks)"

fun lower_method :: "pyv \<Rightarrow> string res" where
  "lower_method (PStr s) = Inr (lower s)"
| "lower_method (PBytes s) = Inr (lower s)"
| "lower_method _ = Inl AttributeError"

text \<open>A value used as an integer; no float is stored where the code reads one.\<close>

fun as_int :: "pyv \<Rightarrow> int res" where
  "as_int (PInt i) = Inr i"
| "as_int (PBool b) = Inr (if b then 1 else 0)"
| "as_int _ = Inl TypeError"

fun iter_list :: "pyv \<Rightarrow> pyv list res" where
  "iter_list (PList xs) = Inr xs"
| "iter_list (PDict d) = Inr (map (\<lambda>p. PStr (fst p)) d)"
| "iter_list (PStr s) = Inr (map (\<lambda>c. PStr [c]) s)"
| "iter_list (PBytes s) = Inr (map (\<lambda>c. PInt (of_char c)) s)"
| "iter_list _ = Inl TypeError"

text \<open>\<^verbatim>\<open>>=\<close>, \<^verbatim>\<open><=\<close> and \<^verbatim>\<open><\<close> between numbers.\<close>

fun num_of :: "pyv \<Rightarrow> py_num res" where
  "num_of (PInt i) = Inr (Fin (i, 0))"
| "num_of (PBool b) = Inr (Fin (if b then 1 else 0, 0))"
| "num_of (PFloat t) = Inr (float_num t)"
| "num_of _ = Inl TypeError"

definition py_ge :: "pyv \<Rightarrow> pyv \<Rightarrow> bool res" where
  "py_ge v w = bindr (num_of v) (\<lambda>a. bindr (num_of w) (\<lambda>b. Inr (num_le b a)))"

definition py_le :: "pyv \<Rightarrow> pyv \<Rightarrow> bool res" where
  "py_le v w = bindr (num_of v) (\<lambda>a. bindr (num_of w) (\<lambda>b. Inr (num_le a b)))"

definition py_lt :: "pyv \<Rightarrow> pyv \<Rightarrow> bool res" where
  "py_lt v w = bindr (num_of v) (\<lambda>a. bindr (num_of w) (\<lambda>b. Inr (num_less a b)))"

lemma dec_le_total: "dec_le a b \<or> dec_le b a"
  by (auto simp: dec_le_def Let_def min.commute)

lemma num_le_total: "a \<noteq> NaN \<Longrightarrow> b \<noteq> NaN \<Longrightarrow> num_le a b \<or> num_le b a"
  by (cases a; cases b) (auto simp: dec_le_total)

lemma py_lt_not_ge:
  assumes "num_of v = Inr a" "num_of w = Inr b" "a \<noteq> NaN" "b \<noteq> NaN"
  shows "py_lt v w = Inr (\<not> num_le b a)" "py_ge v w = Inr (num_le b a)"
  using assms num_le_total [of a b] by (auto simp: py_lt_def py_ge_def num_less_def)

text \<open>\<^verbatim>\<open>v[i]\<close> for an index that is not negative.\<close>

fun getindex :: "pyv \<Rightarrow> nat \<Rightarrow> pyv res" where
  "getindex (PList xs) i = (if i < length xs then Inr (xs ! i) else Inl IndexError)"
| "getindex (PStr s) i = (if i < length s then Inr (PStr [s ! i]) else Inl IndexError)"
| "getindex (PBytes s) i = (if i < length s then Inr (PInt (of_char (s ! i))) else Inl IndexError)"
| "getindex (PDict d) i = Inl KeyError"
| "getindex _ i = Inl TypeError"

text \<open>
  \<^verbatim>\<open>==\<close>: dictionaries are compared without regard to the order of their keys, and \<^verbatim>\<open>True\<close> and
  \<^verbatim>\<open>False\<close> equal 1 and 0.
\<close>

fun py_eq :: "pyv \<Rightarrow> pyv \<Rightarrow> bool" where
  "py_eq (PList xs) w = (case w of PList ys \<Rightarrow> list_all2 py_eq xs ys | _ \<Rightarrow> False)"
| "py_eq (PDict d) w = (case w of
     PDict e \<Rightarrow> length d = length e \<and>
       list_all (\<lambda>(k, v). case map_of e k of None \<Rightarrow> False | Some u \<Rightarrow> py_eq v u) d
   | _ \<Rightarrow> False)"
| "py_eq (PInt i) w = (case w of PInt j \<Rightarrow> i = j | PBool b \<Rightarrow> i = (if b then 1 else 0) | PFloat t \<Rightarrow> num_eq (Fin (i, 0)) (float_num t) | _ \<Rightarrow> False)"
| "py_eq (PBool a) w = (case w of PBool b \<Rightarrow> a = b | PInt i \<Rightarrow> i = (if a then 1 else 0)
     | PFloat t \<Rightarrow> num_eq (Fin (if a then 1 else 0, 0)) (float_num t) | _ \<Rightarrow> False)"
| "py_eq (PFloat t) w = (case w of PFloat u \<Rightarrow> num_eq (float_num t) (float_num u) | PInt i \<Rightarrow> num_eq (float_num t) (Fin (i, 0))
     | PBool b \<Rightarrow> num_eq (float_num t) (Fin (if b then 1 else 0, 0)) | _ \<Rightarrow> False)"
| "py_eq v w = (v = w)"

fun hashable :: "pyv \<Rightarrow> bool" where
  "hashable (PList _) = False"
| "hashable (PDict _) = False"
| "hashable _ = True"

text \<open>\<^verbatim>\<open>v in c\<close>.\<close>

fun py_in :: "pyv \<Rightarrow> pyv \<Rightarrow> bool res" where
  "py_in v (PList xs) = Inr (list_ex (py_eq v) xs)"
| "py_in v (PDict d) = (if hashable v then Inr (list_ex (\<lambda>(k, _). v = PStr k) d) else Inl TypeError)"
| "py_in v (PStr s) = (case v of PStr t \<Rightarrow> Inr (contains t s) | _ \<Rightarrow> Inl TypeError)"
| "py_in v (PBytes s) = (case v of PBytes t \<Rightarrow> Inr (contains t s)
     | PInt i \<Rightarrow> if 0 \<le> i \<and> i < 256 then Inr (list_ex (\<lambda>c. of_char c = i) s) else Inl ValueError
     | PBool b \<Rightarrow> Inr (list_ex (\<lambda>c. of_char c = (if b then 1 else 0 :: int)) s)
     | _ \<Rightarrow> Inl TypeError)"
| "py_in v _ = Inl TypeError"

text \<open>
  \<^verbatim>\<open>sys.getsizeof\<close> on the values the store queue measures, as 64-bit CPython 3.6 to 3.11
  computes it for \<^verbatim>\<open>None\<close>, ASCII text (49 bytes and one per character) and byte strings
  (33 bytes and one per byte).
\<close>

fun getsizeof :: "pyv \<Rightarrow> int" where
  "getsizeof PNone = 16"
| "getsizeof (PStr s) = 49 + int (length s)"
| "getsizeof (PBytes s) = 33 + int (length s)"
| "getsizeof (PBool b) = (if b then 28 else 24)"
| "getsizeof (PInt i) = 24 + (if i = 0 then 0 else 4)"
| "getsizeof (PList xs) = 56 + 8 * int (length xs)"
| "getsizeof (PDict d) = 232"
| "getsizeof (PFloat t) = 24"

lemma getsizeof_ge_16: "16 \<le> getsizeof v"
  by (cases v) auto

section \<open>Lemmas on dictionaries\<close>

lemma map_of_update [simp]: "map_of (AList.update k v d) k' = (if k' = k then Some v else map_of d k')"
  by (simp add: AList.update_conv)

lemma map_of_delete [simp]: "map_of (AList.delete k d) k' = (if k' = k then None else map_of d k')"
  by (simp add: AList.delete_conv)

lemma getitem_update [simp]:
  "getitem (PDict (AList.update k v d)) k' = (if k' = k then Inr v else getitem (PDict d) k')"
  by simp

section \<open>json.dumps\<close>

text \<open>
  The text \<^verbatim>\<open>json.dumps\<close> writes for a value (separators \<^verbatim>\<open>", "\<close> and \<^verbatim>\<open>": "\<close>, the short
  escapes, the others as \<^verbatim>\<open>\u00xx\<close>). Byte strings are not serialisable, there
  \<^verbatim>\<open>json.dumps\<close> raises \<^verbatim>\<open>TypeError\<close>.
\<close>

definition hex_digit :: "nat \<Rightarrow> char" where
  "hex_digit n = (if n < 10 then char_of (48 + n) else char_of (87 + n))"

definition json_char :: "char \<Rightarrow> string" where
  "json_char c = (let n = of_char c :: nat in
     if n = 34 then [char_of (92::nat), c]
     else if n = 92 then [c, c]
     else if n = 10 then char_of (92::nat) # ''n''
     else if n = 13 then char_of (92::nat) # ''r''
     else if n = 9 then char_of (92::nat) # ''t''
     else if n = 8 then char_of (92::nat) # ''b''
     else if n = 12 then char_of (92::nat) # ''f''
     else if n < 32 \<or> 126 < n
       then char_of (92::nat) # ''u00'' @ [hex_digit (n div 16), hex_digit (n mod 16)]
     else [c])"

definition json_string :: "string \<Rightarrow> string" where
  "json_string s = [char_of (34::nat)] @ concat (map json_char s) @ [char_of (34::nat)]"

fun join_with :: "string \<Rightarrow> string list \<Rightarrow> string" where
  "join_with sep [] = []"
| "join_with sep [x] = x"
| "join_with sep (x # y # ys) = x @ sep @ join_with sep (y # ys)"

fun seq_res :: "'a res list \<Rightarrow> 'a list res" where
  "seq_res [] = Inr []"
| "seq_res (r # rs) = bindr r (\<lambda>x. bindr (seq_res rs) (\<lambda>xs. Inr (x # xs)))"

fun json_dumps :: "pyv \<Rightarrow> string res" where
  "json_dumps PNone = Inr ''null''"
| "json_dumps (PBool b) = Inr (if b then ''true'' else ''false'')"
| "json_dumps (PInt i) = Inr (str_int i)"
| "json_dumps (PStr s) = Inr (json_string s)"
| "json_dumps (PBytes s) = Inl TypeError"
| "json_dumps (PList xs) =
     bindr (seq_res (map json_dumps xs)) (\<lambda>ts. Inr (''['' @ join_with '', '' ts @ '']''))"
| "json_dumps (PDict d) =
     bindr (seq_res (map (\<lambda>(k, v). bindr (json_dumps v) (\<lambda>t. Inr (json_string k @ '': '' @ t))) d))
       (\<lambda>ts. Inr (''{'' @ join_with '', '' ts @ ''}''))"
| "json_dumps (PFloat t) = Inr (if t = ''nan'' then ''NaN'' else if t = ''inf'' then ''Infinity''
     else if t = ''-inf'' then ''-Infinity'' else t)"

section \<open>Text of values\<close>

text \<open>\<^verbatim>\<open>repr\<close> of ASCII text and \<^verbatim>\<open>str\<close> of a value.\<close>

definition repr_char :: "char \<Rightarrow> char \<Rightarrow> string" where
  "repr_char q c = (let n = of_char c :: nat; b = char_of (92::nat) in
     if c = q \<or> n = 92 then [b, c]
     else if n = 10 then b # ''n'' else if n = 13 then b # ''r'' else if n = 9 then b # ''t''
     else if n < 32 \<or> n = 127 then b # ''x'' @ [hex_digit (n div 16), hex_digit (n mod 16)]
     else [c])"

definition repr_text :: "string \<Rightarrow> string" where
  "repr_text s = (let single = char_of (39::nat); double = char_of (34::nat);
     q = (if single \<in> set s \<and> double \<notin> set s then double else single)
   in [q] @ concat (map (repr_char q) s) @ [q])"

fun py_repr :: "pyv \<Rightarrow> string" where
  "py_repr PNone = ''None''"
| "py_repr (PBool b) = (if b then ''True'' else ''False'')"
| "py_repr (PInt i) = str_int i"
| "py_repr (PStr s) = repr_text s"
| "py_repr (PBytes s) = ''b'' @ repr_text s"
| "py_repr (PList xs) = ''['' @ join_with '', '' (map py_repr xs) @ '']''"
| "py_repr (PDict d) = ''{'' @ join_with '', '' (map (\<lambda>(k, v). repr_text k @ '': '' @ py_repr v) d) @ ''}''"
| "py_repr (PFloat t) = t"

definition py_str :: "pyv \<Rightarrow> string" where
  "py_str v = (case v of PStr s \<Rightarrow> s | _ \<Rightarrow> py_repr v)"

section \<open>Serialisable values\<close>

text \<open>A value without byte strings is serialisable.\<close>

fun json_able :: "pyv \<Rightarrow> bool" where
  "json_able (PBytes s) = False"
| "json_able (PList xs) = (\<forall>x \<in> set xs. json_able x)"
| "json_able (PDict d) = (\<forall>p \<in> set d. json_able (snd p))"
| "json_able _ = True"

lemma seq_res_ok: "(\<And>r. r \<in> set rs \<Longrightarrow> \<exists>x. r = Inr x) \<Longrightarrow> \<exists>xs. seq_res rs = Inr xs"
proof (induction rs)
  case Nil
  show ?case by simp
next
  case (Cons r rs)
  then obtain x xs where "r = Inr x" and "seq_res rs = Inr xs"
    by (metis list.set_intros)
  then show ?case by simp
qed

lemma json_able_map_of: "json_able (PDict d) \<Longrightarrow> map_of d k = Some v \<Longrightarrow> json_able v"
  by (auto dest!: map_of_SomeD bspec)

lemma json_able_update:
  "json_able (PDict d) \<Longrightarrow> json_able v \<Longrightarrow> json_able (PDict (AList.update k v d))"
  by (induction d) auto

lemma json_dumps_ok: "json_able v \<Longrightarrow> \<exists>t. json_dumps v = Inr t"
proof (induction v rule: json_dumps.induct)
  case (6 xs)
  then have "\<exists>ts. seq_res (map json_dumps xs) = Inr ts"
    by (intro seq_res_ok) auto
  then show ?case by auto
next
  case (7 d)
  have "\<exists>t. (\<lambda>(k, v). bindr (json_dumps v) (\<lambda>t. Inr (json_string k @ '': '' @ t))) p = Inr t"
    if "p \<in> set d" for p
    using 7 that by (cases p) fastforce
  then have "\<exists>ts. seq_res (map (\<lambda>(k, v). bindr (json_dumps v)
      (\<lambda>t. Inr (json_string k @ '': '' @ t))) d) = Inr ts"
    by (intro seq_res_ok) auto
  then show ?case by auto
qed auto

lemma seq_res_all: "seq_res rs = Inr xs \<Longrightarrow> r \<in> set rs \<Longrightarrow> \<exists>x. r = Inr x"
  by (induction rs arbitrary: xs) (auto simp: bindr_eq_Inr)

lemma json_dumps_able: "json_dumps v = Inr t \<Longrightarrow> json_able v"
proof (induction v arbitrary: t rule: json_dumps.induct)
  case (6 xs)
  then obtain ts where "seq_res (map json_dumps xs) = Inr ts" by (auto simp: bindr_eq_Inr)
  then have "\<exists>u. json_dumps x = Inr u" if "x \<in> set xs" for x using seq_res_all that by fastforce
  then show ?case using 6(1) by auto
next
  case (7 d)
  have "json_able (snd p)" if "p \<in> set d" for p
    using 7 that by (cases p) (force simp: bindr_eq_Inr dest: seq_res_all)
  then show ?case by simp
qed simp_all

section \<open>SeverityReader and MonUtils\<close>

definition ALERT_TO_SEVERITY_MAPPING :: "(string \<times> string) list" where
  "ALERT_TO_SEVERITY_MAPPING =
     [(''fault'', ''critical''), (''fault_resolved'', ''informational''),
      (''missing'', ''critical''), (''insertion'', ''informational''),
      (''threshold_breached:low'', ''warning''), (''threshold_breached:high'', ''warning'')]"

text \<open>A missing alert type is turned from a \<^verbatim>\<open>KeyError\<close> into a plain \<^verbatim>\<open>Exception\<close>.\<close>

definition map_severity :: "string \<Rightarrow> string res" where
  "map_severity alert_name =
     (case map_of ALERT_TO_SEVERITY_MAPPING alert_name of
        Some severity \<Rightarrow> Inr severity | None \<Rightarrow> Inl PyException)"

definition get_alert_id :: "string \<Rightarrow> string \<Rightarrow> string" where
  "get_alert_id salt epoch_time = epoch_time @ salt"

text \<open>
  \<^verbatim>\<open>MonUtils.normalize_kv\<close>: replaces, in nested lists and dictionaries, every leaf that
  equals \<open>input_v\<close> (or is one of its elements when it is a list).
\<close>

definition leaf_matches :: "pyv \<Rightarrow> pyv \<Rightarrow> bool" where
  "leaf_matches item input_v =
     (case input_v of PList xs \<Rightarrow> item \<in> set xs | _ \<Rightarrow> item = input_v)"

fun normalize_kv :: "pyv \<Rightarrow> pyv \<Rightarrow> pyv \<Rightarrow> pyv" where
  "normalize_kv (PDict d) input_v replace_v =
     PDict (map (\<lambda>(k, v). (k, normalize_kv v input_v replace_v)) d)"
| "normalize_kv (PList xs) input_v replace_v =
     PList (map (\<lambda>x. normalize_kv x input_v replace_v) xs)"
| "normalize_kv item input_v replace_v =
     (if leaf_matches item input_v then replace_v else item)"

text \<open>The leaves of a value: everything that is not a list or a dictionary.\<close>

fun leaves :: "pyv \<Rightarrow> pyv list" where
  "leaves (PDict d) = concat (map (\<lambda>p. leaves (snd p)) d)"
| "leaves (PList xs) = concat (map leaves xs)"
| "leaves v = [v]"

definition is_leaf :: "pyv \<Rightarrow> bool" where
  "is_leaf v = (case v of PDict _ \<Rightarrow> False | PList _ \<Rightarrow> False | _ \<Rightarrow> True)"

lemma leaves_leaf: "is_leaf v \<Longrightarrow> leaves v = [v]"
  by (cases v) (auto simp: is_leaf_def)

lemma leaves_normalize:
  "is_leaf r \<Longrightarrow> leaves (normalize_kv v i r) = map (\<lambda>u. if leaf_matches u i then r else u) (leaves v)"
proof (induction v i r rule: normalize_kv.induct)
  case (1 d i r)
  then have "leaves (normalize_kv (snd p) i r) =
      map (\<lambda>u. if leaf_matches u i then r else u) (leaves (snd p))" if "p \<in> set d" for p
    using that by (cases p) auto
  then show ?case
    by (auto simp: map_concat comp_def case_prod_beta intro!: arg_cong [where f = concat] map_cong)
next
  case (2 xs i r)
  then show ?case
    by (auto simp: map_concat comp_def intro!: arg_cong [where f = concat] map_cong)
qed (auto simp: leaves_leaf)

end
