(* ===== verification/File_Store.thy ===== *)
theory File_Store
  imports Py_Values
begin

text \<open>
  \<^verbatim>\<open>framework/utils/filestore.py\<close>: the persistent key-value store every component writes its
  caches to. A key is an absolute path. The file system is a record of the files (with
  their content), the existing directories and the paths on which creating or opening for
  writing raises \<^verbatim>\<open>OSError\<close>. A file written by the store holds a pickled value or, with
  \<^verbatim>\<open>pickled=False\<close>, raw bytes; raw bytes are JSON text, which is never a pickle stream (its
  first byte is no opcode), so \<^verbatim>\<open>pickle.load\<close> fails on it and the store returns the bytes.
  The interface other components rely on is the locale \<open>kv_store\<close>.
\<close>

datatype content = Pickled pyv | Raw string

record fs =
  files :: "(string \<times> content) list"
  dirs :: "string list"
  denied :: "string list"

section \<open>os.path\<close>

definition is_slash :: "char \<Rightarrow> bool" where
  "is_slash c = (c = CHR ''/'')"

definition rstrip_slash :: "string \<Rightarrow> string" where
  "rstrip_slash p = rev (dropWhile is_slash (rev p))"

definition dirname :: "string \<Rightarrow> string" where
  "dirname p = (let h = rev (dropWhile (\<lambda>c. \<not> is_slash c) (rev p))
     in if list_all is_slash h then h else rstrip_slash h)"

definition path_join :: "string \<Rightarrow> string \<Rightarrow> string" where
  "path_join a b = (if take 1 b = ''/'' then b
     else if a = [] \<or> last a = CHR ''/'' then a @ b else a @ ''/'' @ b)"

definition isdir :: "fs \<Rightarrow> string \<Rightarrow> bool" where
  "isdir s p = (p \<in> set (dirs s))"

definition isfile :: "fs \<Rightarrow> string \<Rightarrow> bool" where
  "isfile s p = (map_of (files s) p \<noteq> None)"

definition path_exists :: "fs \<Rightarrow> string \<Rightarrow> bool" where
  "path_exists s p = (isfile s p \<or> isdir s p)"

text \<open>\<^verbatim>\<open>os.makedirs\<close>: the directory and all its ancestors.\<close>

definition ancestors :: "string \<Rightarrow> string list" where
  "ancestors d = d # map (\<lambda>i. take i d) (filter (\<lambda>i. d ! i = CHR ''/'' \<and> 0 < i) [0..<length d])"

definition makedirs :: "string \<Rightarrow> fs \<Rightarrow> fs" where
  "makedirs d s = s\<lparr>dirs := ancestors d @ dirs s\<rparr>"

section \<open>The operations of FileStore\<close>

text \<open>
  \<^verbatim>\<open>put\<close>: a missing directory is created unless that raises (which is only logged); then
  the file is opened for writing, which truncates it. Writing a value that is neither text
  nor bytes unpickled raises after the truncation.
\<close>

definition written_content :: "pyv \<Rightarrow> bool \<Rightarrow> content" where
  "written_content value pickled =
     (if pickled then Pickled value
      else case value of PStr s \<Rightarrow> Raw s | PBytes s \<Rightarrow> Raw s | _ \<Rightarrow> Raw [])"

definition ensure_dir :: "string \<Rightarrow> fs \<Rightarrow> fs" where
  "ensure_dir d s = (if isdir s d \<or> d \<in> set (denied s) then s else makedirs d s)"

definition store_put :: "pyv \<Rightarrow> string \<Rightarrow> bool \<Rightarrow> fs \<Rightarrow> fs" where
  "store_put value key pickled s =
     (let s1 = ensure_dir (dirname key) s
      in if isdir s1 (dirname key) \<and> key \<notin> set (denied s1) \<and> \<not> isdir s1 key
         then s1\<lparr>files := AList.update key (written_content value pickled) (files s1)\<rparr>
         else s1)"

definition load_json_file :: "fs \<Rightarrow> string \<Rightarrow> pyv" where
  "load_json_file s key =
     (if \<not> isdir s (dirname key) then PNone
      else case map_of (files s) key of
             None \<Rightarrow> PNone
           | Some (Pickled v) \<Rightarrow> v
           | Some (Raw t) \<Rightarrow> PBytes t)"

text \<open>\<^verbatim>\<open>get(key, option=None)\<close> without an option; the ini-file branch is not used by the components.\<close>

definition store_get :: "fs \<Rightarrow> string \<Rightarrow> pyv" where
  "store_get s key = load_json_file s key"

definition store_exists :: "fs \<Rightarrow> string \<Rightarrow> bool \<times> string" where
  "store_exists s key = (path_exists s key, ''Success'')"

definition under :: "string \<Rightarrow> string \<Rightarrow> bool" where
  "under d p = (take (length d + 1) p = d @ ''/'')"

definition ends_with :: "string \<Rightarrow> string \<Rightarrow> bool" where
  "ends_with suffix p = (drop (length p - length suffix) p = suffix)"

text \<open>
  \<^verbatim>\<open>delete(path, fformat="")\<close>: with a format the files below \<open>path\<close> with that suffix go,
  without one the file itself, or the directory and everything below it.
\<close>

definition store_delete :: "string \<Rightarrow> string \<Rightarrow> fs \<Rightarrow> fs" where
  "store_delete path fformat s =
     (if \<not> path_exists s path then s
      else if fformat \<noteq> [] then
        s\<lparr>files := filter (\<lambda>(p, _). \<not> (under path p \<and> ends_with fformat p)) (files s)\<rparr>
      else if isfile s path then s\<lparr>files := AList.delete path (files s)\<rparr>
      else s\<lparr>files := filter (\<lambda>(p, _). \<not> under path p) (files s),
             dirs := filter (\<lambda>d. d \<noteq> path \<and> \<not> under path d) (dirs s)\<rparr>)"

section \<open>Invariant: a file lies in an existing directory and is not one itself\<close>

definition fs_wf :: "fs \<Rightarrow> bool" where
  "fs_wf s \<longleftrightarrow> (\<forall>p. isfile s p \<longrightarrow> isdir s (dirname p))"

text \<open>A key the store can write: its directory can be made, nothing denies it.\<close>

definition writable :: "fs \<Rightarrow> string \<Rightarrow> bool" where
  "writable s key \<longleftrightarrow> dirname key \<notin> set (denied s) \<and> key \<notin> set (denied s) \<and>
     \<not> isdir s key \<and> key \<notin> set (ancestors (dirname key))"

text \<open>Making the directories of \<open>k\<close> does not make \<open>k'\<close> a directory.\<close>

definition indep :: "string \<Rightarrow> string \<Rightarrow> bool" where
  "indep k k' \<longleftrightarrow> k' \<notin> set (ancestors (dirname k))"

lemma ancestors_length: "p \<in> set (ancestors d) \<Longrightarrow> length p \<le> length d"
  by (auto simp: ancestors_def)

lemma ensure_dir_files [simp]: "files (ensure_dir d s) = files s"
  by (simp add: ensure_dir_def makedirs_def)

lemma ensure_dir_denied [simp]: "denied (ensure_dir d s) = denied s"
  by (simp add: ensure_dir_def makedirs_def)

lemma isdir_ensure_dir: "isdir s d' \<Longrightarrow> isdir (ensure_dir d s) d'"
  by (simp add: ensure_dir_def makedirs_def isdir_def)

lemma ensure_dir_idle: "isdir s d \<Longrightarrow> ensure_dir d s = s"
  by (simp add: ensure_dir_def)

lemma ensure_dir_makes: "d \<notin> set (denied s) \<Longrightarrow> isdir (ensure_dir d s) d"
  by (simp add: ensure_dir_def makedirs_def isdir_def ancestors_def)

lemma store_put_denied [simp]: "denied (store_put v k b s) = denied s"
  by (simp add: store_put_def Let_def)

lemma isfile_store_put: "isfile (store_put v k b s) p \<Longrightarrow> p \<noteq> k \<Longrightarrow> isfile s p"
  by (auto simp: store_put_def Let_def isfile_def split: if_splits)

lemma isdir_store_put: "isdir s d \<Longrightarrow> isdir (store_put v k b s) d"
  using isdir_ensure_dir [of s d "dirname k"] by (simp add: store_put_def Let_def isdir_def)

lemma store_put_wf: "fs_wf s \<Longrightarrow> fs_wf (store_put v k b s)"
proof (unfold fs_wf_def, intro allI impI)
  fix p
  assume wf: "\<forall>p. isfile s p \<longrightarrow> isdir s (dirname p)" and p: "isfile (store_put v k b s) p"
  show "isdir (store_put v k b s) (dirname p)"
  proof (cases "p = k")
    case False
    with p wf show ?thesis by (blast intro: isdir_store_put dest: isfile_store_put)
  next
    case True
    show ?thesis
    proof (cases "isfile s k")
      case True
      with wf \<open>p = k\<close> show ?thesis by (blast intro: isdir_store_put)
    next
      case False
      with p \<open>p = k\<close> show ?thesis
        by (auto simp: store_put_def Let_def isfile_def isdir_def split: if_splits)
    qed
  qed
qed

lemma map_of_filter_fst:
  "map_of (filter (\<lambda>(p, _). Q p) xs) k = (if Q k then map_of xs k else None)"
  by (induction xs) (auto split: if_splits)

lemma isfile_store_delete: "isfile (store_delete path f s) p \<Longrightarrow> isfile s p"
  by (auto simp: store_delete_def isfile_def map_of_filter_fst split: if_splits)

lemma store_delete_file: "isfile s path \<Longrightarrow>
    store_delete path [] s = s\<lparr>files := AList.delete path (files s)\<rparr>"
  by (simp add: store_delete_def path_exists_def)

lemma isdir_ensure_dirD: "isdir (ensure_dir d s) d' \<Longrightarrow> isdir s d' \<or> d' \<in> set (ancestors d)"
  by (auto simp: ensure_dir_def makedirs_def isdir_def split: if_splits)

lemma store_put_writable:
  "writable s k \<Longrightarrow> store_put v k b s =
    (ensure_dir (dirname k) s)\<lparr>files := AList.update k (written_content v b) (files s)\<rparr>"
  by (auto simp: store_put_def writable_def ensure_dir_makes Let_def dest: isdir_ensure_dirD)

lemma writable_put:
  "writable s k \<Longrightarrow> writable s k' \<Longrightarrow> indep k k' \<Longrightarrow> writable (store_put v k b s) k'"
  by (simp add: store_put_writable)
    (auto simp: writable_def indep_def isdir_def [of "_\<lparr>files := _\<rparr>"]
      isdir_def [of "ensure_dir _ _", symmetric] dest: isdir_ensure_dirD)

lemma indep_writable: "writable f k \<Longrightarrow> indep k k"
  by (simp add: writable_def indep_def)

lemma writable_put_same: "writable s k \<Longrightarrow> writable (store_put v k b s) k"
  by (rule writable_put [OF _ _ indep_writable])

lemma fs_wf_get: "fs_wf s \<Longrightarrow> store_get s k =
    (case map_of (files s) k of None \<Rightarrow> PNone | Some (Pickled v) \<Rightarrow> v | Some (Raw t) \<Rightarrow> PBytes t)"
  by (auto simp: store_get_def load_json_file_def fs_wf_def isfile_def split: option.splits)

section \<open>The interface of a key-value store\<close>

text \<open>
  What the clients of the store rely on: a write to a key that can be written is read back,
  other keys are not touched, a deleted key reads as nothing, and every operation keeps the
  store well formed and the writable keys writable (for a write: those that do not become
  directories by it).
\<close>

locale kv_store =
  fixes sget :: "'s \<Rightarrow> 'k \<Rightarrow> 'v"
    and sput :: "'v \<Rightarrow> 'k \<Rightarrow> 's \<Rightarrow> 's"
    and sdel :: "'k \<Rightarrow> 's \<Rightarrow> 's"
    and nothing :: "'v"
    and wf :: "'s \<Rightarrow> bool"
    and ok :: "'s \<Rightarrow> 'k \<Rightarrow> bool"
    and apart :: "'k \<Rightarrow> 'k \<Rightarrow> bool"
  assumes put_same: "wf s \<Longrightarrow> ok s k \<Longrightarrow> sget (sput v k s) k = v"
    and put_other: "wf s \<Longrightarrow> ok s k \<Longrightarrow> k' \<noteq> k \<Longrightarrow> sget (sput v k s) k' = sget s k'"
    and del_same: "wf s \<Longrightarrow> ok s k \<Longrightarrow> sget (sdel k s) k = nothing"
    and del_other: "wf s \<Longrightarrow> ok s k \<Longrightarrow> k' \<noteq> k \<Longrightarrow> sget (sdel k s) k' = sget s k'"
    and wf_put: "wf s \<Longrightarrow> ok s k \<Longrightarrow> wf (sput v k s)"
    and wf_del: "wf s \<Longrightarrow> ok s k \<Longrightarrow> wf (sdel k s)"
    and ok_put: "wf s \<Longrightarrow> ok s k \<Longrightarrow> ok s k' \<Longrightarrow> apart k k' \<Longrightarrow> ok (sput v k s) k'"
    and ok_del: "wf s \<Longrightarrow> ok s k \<Longrightarrow> ok s k' \<Longrightarrow> ok (sdel k s) k'"
begin

lemma get_put: "wf s \<Longrightarrow> ok s k \<Longrightarrow> sget (sput v k s) k' = (if k' = k then v else sget s k')"
  by (simp add: put_same put_other)

lemma get_del: "wf s \<Longrightarrow> ok s k \<Longrightarrow> sget (sdel k s) k' = (if k' = k then nothing else sget s k')"
  by (simp add: del_same del_other)

lemma put_twice_get:
  "wf s \<Longrightarrow> ok s k \<Longrightarrow> apart k k \<Longrightarrow> sget (sput w k (sput v k s)) k' = sget (sput w k s) k'"
  by (simp add: get_put wf_put ok_put)

lemma put_commute_get:
  "wf s \<Longrightarrow> ok s k \<Longrightarrow> ok s j \<Longrightarrow> j \<noteq> k \<Longrightarrow> apart j k \<Longrightarrow> apart k j \<Longrightarrow>
    sget (sput w j (sput v k s)) k' = sget (sput v k (sput w j s)) k'"
  by (simp add: get_put wf_put ok_put)

end

text \<open>Pickled values, and text written unpickled (read back as bytes).\<close>

lemma store_get_put_pickled:
  "fs_wf s \<Longrightarrow> writable s k \<Longrightarrow> store_get (store_put v k True s) k' = (if k' = k then v else store_get s k')"
  by (auto simp: fs_wf_get store_put_wf)
     (auto simp: store_put_writable written_content_def fs_wf_get split: option.splits)

lemma store_get_put_raw:
  "fs_wf s \<Longrightarrow> writable s k \<Longrightarrow>
    store_get (store_put (PStr t) k False s) k' = (if k' = k then PBytes t else store_get s k')"
  by (auto simp: fs_wf_get store_put_wf)
     (auto simp: store_put_writable written_content_def fs_wf_get split: option.splits)

lemma store_delete_writable:
  "writable s k \<Longrightarrow> store_delete k [] s = s\<lparr>files := AList.delete k (files s)\<rparr>"
  by (auto simp: store_delete_def path_exists_def isfile_def writable_def delete_idem
      dom_map_of_conv_image_fst image_iff map_of_eq_None_iff)

lemma store_delete_wf: "fs_wf s \<Longrightarrow> writable s k \<Longrightarrow> fs_wf (store_delete k [] s)"
  by (auto simp: store_delete_writable fs_wf_def isfile_def isdir_def)

lemma store_get_delete:
  "fs_wf s \<Longrightarrow> writable s k \<Longrightarrow> store_get (store_delete k [] s) k' = (if k' = k then PNone else store_get s k')"
  by (simp add: fs_wf_get store_delete_wf) (simp add: store_delete_writable)

lemma writable_delete: "writable s k \<Longrightarrow> writable s k' \<Longrightarrow> writable (store_delete k [] s) k'"
  by (simp add: store_delete_writable) (simp add: writable_def isdir_def)

interpretation pk: kv_store store_get "\<lambda>v k. store_put v k True" "\<lambda>k. store_delete k []" PNone fs_wf
    writable indep
  by unfold_locales
    (auto simp: store_get_put_pickled store_get_delete store_put_wf store_delete_wf writable_put writable_delete)

interpretation rw: kv_store "\<lambda>s k. case store_get s k of PBytes t \<Rightarrow> Some t | _ \<Rightarrow> None"
    "\<lambda>t k. case t of None \<Rightarrow> store_put PNone k True | Some u \<Rightarrow> store_put (PStr u) k False"
    "\<lambda>k. store_delete k []" None fs_wf writable indep
  by unfold_locales
    (auto simp: store_get_put_raw store_get_put_pickled store_get_delete store_put_wf store_delete_wf
      writable_put writable_delete split: option.splits)

end
