(* ===== verification/Store_Queue.thy ===== *)
theory Store_Queue
  imports File_Store
begin

text \<open>
  \<^verbatim>\<open>framework/utils/store_queue.py\<close>: the persistent queue of messages that could not be sent.
  All its state is in the store: a head index, a tail index, the memory usage, and one file
  per message. Every \<^verbatim>\<open>StoreQueue\<close> object of the process works on the same keys. The
  operations are programs over the file system; \<open>sq_state\<close> relates a file system to the
  list of messages it represents, and the operations refine those of a list.
\<close>

section \<open>The operations\<close>

definition DATA_PATH :: string where
  "DATA_PATH = ''/var/cortx/sspl/data/''"

definition CACHE_DIR_NAME :: string where
  "CACHE_DIR_NAME = ''SSPL_UNSENT_MESSAGES''"

definition cache_dir_path :: string where
  "cache_dir_path = path_join DATA_PATH CACHE_DIR_NAME"

definition SSPL_MEMORY_USAGE :: string where
  "SSPL_MEMORY_USAGE = path_join cache_dir_path ''SSPL_MEMORY_USAGE''"

definition SSPL_MESSAGE_HEAD_INDEX :: string where
  "SSPL_MESSAGE_HEAD_INDEX = path_join cache_dir_path ''SSPL_MESSAGE_HEAD_INDEX''"

definition SSPL_MESSAGE_TAIL_INDEX :: string where
  "SSPL_MESSAGE_TAIL_INDEX = path_join cache_dir_path ''SSPL_MESSAGE_TAIL_INDEX''"

definition SSPL_UNSENT_MESSAGES :: string where
  "SSPL_UNSENT_MESSAGES = path_join cache_dir_path ''MESSAGES''"

text \<open>The key of a message, \<^verbatim>\<open>f"{self.SSPL_UNSENT_MESSAGES}/{index}"\<close>.\<close>

definition unsent_key :: "int \<Rightarrow> string" where
  "unsent_key i = SSPL_UNSENT_MESSAGES @ ''/'' @ str_int i"

definition init_key :: "string \<Rightarrow> fs \<Rightarrow> fs" where
  "init_key k s = (if store_get s k = PNone then store_put (PInt 0) k True s else s)"

text \<open>\<^verbatim>\<open>__init__\<close>: missing counters start at zero.\<close>

definition sq_init :: "fs \<Rightarrow> fs" where
  "sq_init s = init_key SSPL_MESSAGE_TAIL_INDEX (init_key SSPL_MESSAGE_HEAD_INDEX
     (init_key SSPL_MEMORY_USAGE s))"

definition sq_current_size :: "(fs, int) proc" where
  "sq_current_size = bindp (getp (\<lambda>s. store_get s SSPL_MEMORY_USAGE)) (\<lambda>v. liftp (as_int v))"

definition sq_set_current_size :: "int \<Rightarrow> (fs, unit) proc" where
  "sq_set_current_size n = modp (store_put (PInt n) SSPL_MEMORY_USAGE True)"

definition sq_head :: "(fs, pyv) proc" where
  "sq_head = getp (\<lambda>s. store_get s SSPL_MESSAGE_HEAD_INDEX)"

definition sq_set_head :: "int \<Rightarrow> (fs, unit) proc" where
  "sq_set_head n = modp (store_put (PInt n) SSPL_MESSAGE_HEAD_INDEX True)"

definition sq_tail :: "(fs, pyv) proc" where
  "sq_tail = getp (\<lambda>s. store_get s SSPL_MESSAGE_TAIL_INDEX)"

definition sq_set_tail :: "int \<Rightarrow> (fs, unit) proc" where
  "sq_set_tail n = modp (store_put (PInt n) SSPL_MESSAGE_TAIL_INDEX True)"

definition sq_head_int :: "(fs, int) proc" where
  "sq_head_int = bindp sq_head (\<lambda>v. liftp (as_int v))"

definition sq_tail_int :: "(fs, int) proc" where
  "sq_tail_int = bindp sq_tail (\<lambda>v. liftp (as_int v))"

text \<open>\<^verbatim>\<open>is_empty\<close> also resets the counters of an empty queue.\<close>

definition sq_is_empty :: "(fs, bool) proc" where
  "sq_is_empty = bindp sq_tail (\<lambda>t. bindp sq_head (\<lambda>h.
     if t = h then seqp (sq_set_head 0) (seqp (sq_set_tail 0)
       (seqp (sq_set_current_size 0) (ret True)))
     else ret False))"

definition sq_is_full :: "int \<Rightarrow> int \<Rightarrow> (fs, bool) proc" where
  "sq_is_full max_size size_of_item = bindp sq_current_size (\<lambda>c. ret (max_size \<le> c + size_of_item))"

definition sq_get :: "(fs, pyv) proc" where
  "sq_get = bindp sq_is_empty (\<lambda>e. if e then ret PNone
     else bindp sq_head_int (\<lambda>h. getp (\<lambda>s. store_get s (unsent_key h))))"

text \<open>
  \<^verbatim>\<open>_create_space\<close> calls itself; \<open>depth\<close> is what is left of the interpreter's recursion
  limit, and running out of it raises \<^verbatim>\<open>RecursionError\<close>. What it \<open>reclaims\<close> is only counted:
  it calls \<^verbatim>\<open>get\<close>, which removes nothing.
\<close>

primrec sq_create_space :: "nat \<Rightarrow> int \<Rightarrow> int \<Rightarrow> int \<Rightarrow> (fs, unit) proc" where
  "sq_create_space 0 max_size size_of_item reclaimed = raise RecursionError"
| "sq_create_space (Suc depth) max_size size_of_item reclaimed =
     bindp sq_current_size (\<lambda>c.
       if max_size \<le> c - reclaimed + size_of_item
       then bindp sq_get (\<lambda>m. sq_create_space depth max_size size_of_item (reclaimed + getsizeof m))
       else ret ())"

definition sq_delete :: "(fs, unit) proc" where
  "sq_delete = bindp sq_is_empty (\<lambda>e. if e then ret ()
     else bindp sq_head_int (\<lambda>h.
       bindp (getp (\<lambda>s. store_get s (unsent_key h))) (\<lambda>item.
       seqp (modp (store_delete (unsent_key h) []))
       (bindp sq_head_int (\<lambda>h'. seqp (sq_set_head (h' + 1))
       (bindp sq_current_size (\<lambda>c. sq_set_current_size (c - getsizeof item))))))))"

text \<open>The last lines of \<^verbatim>\<open>put\<close>: write the message at the tail, advance it, add its size.\<close>

definition sq_append :: "string \<Rightarrow> (fs, unit) proc" where
  "sq_append item =
     bindp sq_tail_int (\<lambda>t. seqp (modp (store_put (PStr item) (unsent_key t) False))
       (bindp sq_tail_int (\<lambda>t'. seqp (sq_set_tail (t' + 1))
       (bindp sq_current_size (\<lambda>c. sq_set_current_size (c + getsizeof (PStr item)))))))"

definition sq_put :: "nat \<Rightarrow> int \<Rightarrow> string \<Rightarrow> (fs, unit) proc" where
  "sq_put depth max_size item = (let size_of_item = getsizeof (PStr item) in
     bindp (sq_is_full max_size size_of_item) (\<lambda>full.
       seqp (if full then sq_create_space depth max_size size_of_item 0 else ret ())
         (sq_append item)))"

section \<open>The keys of the queue\<close>

lemma sq_paths:
  "SSPL_MEMORY_USAGE = ''/var/cortx/sspl/data/SSPL_UNSENT_MESSAGES/SSPL_MEMORY_USAGE''"
  "SSPL_MESSAGE_HEAD_INDEX = ''/var/cortx/sspl/data/SSPL_UNSENT_MESSAGES/SSPL_MESSAGE_HEAD_INDEX''"
  "SSPL_MESSAGE_TAIL_INDEX = ''/var/cortx/sspl/data/SSPL_UNSENT_MESSAGES/SSPL_MESSAGE_TAIL_INDEX''"
  "SSPL_UNSENT_MESSAGES = ''/var/cortx/sspl/data/SSPL_UNSENT_MESSAGES/MESSAGES''"
  by (simp_all add: SSPL_MEMORY_USAGE_def SSPL_MESSAGE_HEAD_INDEX_def SSPL_MESSAGE_TAIL_INDEX_def
      SSPL_UNSENT_MESSAGES_def cache_dir_path_def DATA_PATH_def CACHE_DIR_NAME_def path_join_def)

definition is_sq_key :: "string \<Rightarrow> bool" where
  "is_sq_key k \<longleftrightarrow> k = SSPL_MEMORY_USAGE \<or> k = SSPL_MESSAGE_HEAD_INDEX \<or>
     k = SSPL_MESSAGE_TAIL_INDEX \<or> (\<exists>i. k = unsent_key i)"

lemma is_sq_key_intros [simp, intro]:
  "is_sq_key SSPL_MEMORY_USAGE" "is_sq_key SSPL_MESSAGE_HEAD_INDEX"
  "is_sq_key SSPL_MESSAGE_TAIL_INDEX" "is_sq_key (unsent_key i)"
  by (auto simp: is_sq_key_def)

lemma str_int_no_slash: "CHR ''/'' \<notin> set (str_int i)"
proof
  assume "CHR ''/'' \<in> set (str_int i)"
  then have "\<exists>n. CHR ''/'' \<in> set (str_nat n)"
    by (auto simp: str_int_def split: if_splits)
  then obtain k where k: "k < 10" and "CHR ''/'' = digit k"
    using str_nat_digits by blast
  then have "(of_char (CHR ''/'') :: nat) = of_char (digit k)" by simp
  with k show False by (simp add: of_char_digit)
qed

lemma dropWhile_no_slash:
  "CHR ''/'' \<notin> set xs \<Longrightarrow> dropWhile (\<lambda>c. \<not> is_slash c) (xs @ CHR ''/'' # ys) = CHR ''/'' # ys"
  by (induction xs) (auto simp: is_slash_def)

lemma dirname_unsent [simp]: "dirname (unsent_key i) = SSPL_UNSENT_MESSAGES"
  using dropWhile_no_slash [of "rev (str_int i)" "rev SSPL_UNSENT_MESSAGES"] str_int_no_slash [of i]
  by (simp add: dirname_def unsent_key_def rstrip_slash_def is_slash_def Let_def sq_paths)

lemma dirname_counters [simp]:
  "dirname SSPL_MEMORY_USAGE = ''/var/cortx/sspl/data/SSPL_UNSENT_MESSAGES''"
  "dirname SSPL_MESSAGE_HEAD_INDEX = ''/var/cortx/sspl/data/SSPL_UNSENT_MESSAGES''"
  "dirname SSPL_MESSAGE_TAIL_INDEX = ''/var/cortx/sspl/data/SSPL_UNSENT_MESSAGES''"
  by (simp_all add: sq_paths dirname_def rstrip_slash_def is_slash_def Let_def)

lemma ancestors_prefix: "a \<in> set (ancestors d) \<Longrightarrow> \<exists>i. a = take i d"
  by (auto simp: ancestors_def intro: exI [of _ "length d"])

lemma unsent_not_ancestor: "unsent_key i \<noteq> take n SSPL_UNSENT_MESSAGES"
proof
  assume "unsent_key i = take n SSPL_UNSENT_MESSAGES"
  then have "length (unsent_key i) \<le> length SSPL_UNSENT_MESSAGES" by simp
  then show False by (simp add: unsent_key_def)
qed

lemma not_takeI: "take (length k) s \<noteq> k \<Longrightarrow> k \<noteq> take n s"
  by (cases "n \<le> length s") auto

lemma sq_dir_prefix: "is_sq_key k \<Longrightarrow> \<exists>n. dirname k = take n SSPL_UNSENT_MESSAGES"
  by (auto simp: is_sq_key_def sq_paths(4) intro: exI [of _ 41] exI [of _ 100])

lemma counter_not_prefix:
  "SSPL_MEMORY_USAGE \<noteq> take n SSPL_UNSENT_MESSAGES"
  "SSPL_MESSAGE_HEAD_INDEX \<noteq> take n SSPL_UNSENT_MESSAGES"
  "SSPL_MESSAGE_TAIL_INDEX \<noteq> take n SSPL_UNSENT_MESSAGES"
  by (rule not_takeI, simp add: sq_paths)+

lemma sq_key_not_prefix: "is_sq_key k \<Longrightarrow> k \<noteq> take n SSPL_UNSENT_MESSAGES"
  unfolding is_sq_key_def by (metis counter_not_prefix unsent_not_ancestor)

lemma sq_indep: "is_sq_key k \<Longrightarrow> is_sq_key k' \<Longrightarrow> indep k k'"
  unfolding indep_def
  using sq_dir_prefix [of k] sq_key_not_prefix [of k'] ancestors_prefix
  by (metis take_take)

lemma unsent_key_inj [simp]: "unsent_key i = unsent_key j \<longleftrightarrow> i = j"
  by (simp add: unsent_key_def str_int_inj)

lemma unsent_ne_counter [simp]:
  "unsent_key i \<noteq> SSPL_MEMORY_USAGE" "unsent_key i \<noteq> SSPL_MESSAGE_HEAD_INDEX"
  "unsent_key i \<noteq> SSPL_MESSAGE_TAIL_INDEX" "SSPL_MEMORY_USAGE \<noteq> unsent_key i"
  "SSPL_MESSAGE_HEAD_INDEX \<noteq> unsent_key i" "SSPL_MESSAGE_TAIL_INDEX \<noteq> unsent_key i"
  by (simp_all add: unsent_key_def sq_paths)

lemma counters_distinct [simp]:
  "SSPL_MEMORY_USAGE \<noteq> SSPL_MESSAGE_HEAD_INDEX" "SSPL_MEMORY_USAGE \<noteq> SSPL_MESSAGE_TAIL_INDEX"
  "SSPL_MESSAGE_HEAD_INDEX \<noteq> SSPL_MESSAGE_TAIL_INDEX" "SSPL_MESSAGE_HEAD_INDEX \<noteq> SSPL_MEMORY_USAGE"
  "SSPL_MESSAGE_TAIL_INDEX \<noteq> SSPL_MEMORY_USAGE" "SSPL_MESSAGE_TAIL_INDEX \<noteq> SSPL_MESSAGE_HEAD_INDEX"
  by (simp_all add: sq_paths)

section \<open>The state the store represents\<close>

definition sq_ok :: "fs \<Rightarrow> bool" where
  "sq_ok s \<longleftrightarrow> fs_wf s \<and> (\<forall>k. is_sq_key k \<longrightarrow> writable s k)"

text \<open>
  \<open>sq_state s h t c q\<close>: head index, tail index, recorded memory usage, and the queued
  messages, which are the files \<open>h, ..., t - 1\<close>.
\<close>

definition sq_state :: "fs \<Rightarrow> int \<Rightarrow> int \<Rightarrow> int \<Rightarrow> string list \<Rightarrow> bool" where
  "sq_state s h t c q \<longleftrightarrow> sq_ok s \<and> store_get s SSPL_MESSAGE_HEAD_INDEX = PInt h \<and>
     store_get s SSPL_MESSAGE_TAIL_INDEX = PInt t \<and> store_get s SSPL_MEMORY_USAGE = PInt c \<and>
     t = h + int (length q) \<and>
     (\<forall>i<length q. store_get s (unsent_key (h + int i)) = PBytes (q ! i))"

lemma sq_ok_put: "sq_ok s \<Longrightarrow> is_sq_key k \<Longrightarrow> sq_ok (store_put v k b s)"
  by (auto simp: sq_ok_def intro: store_put_wf writable_put sq_indep)

lemma sq_ok_delete: "sq_ok s \<Longrightarrow> is_sq_key k \<Longrightarrow> sq_ok (store_delete k [] s)"
  by (auto simp: sq_ok_def intro: pk.wf_del pk.ok_del)

lemma sq_get_put:
  "sq_ok s \<Longrightarrow> is_sq_key k \<Longrightarrow> store_get (store_put v k True s) k' = (if k' = k then v else store_get s k')"
  by (simp add: sq_ok_def pk.get_put)

lemma sq_get_put_raw:
  "sq_ok s \<Longrightarrow> is_sq_key k \<Longrightarrow>
    store_get (store_put (PStr x) k False s) k' = (if k' = k then PBytes x else store_get s k')"
  by (simp add: sq_ok_def store_get_put_raw)

lemma sq_get_delete:
  "sq_ok s \<Longrightarrow> is_sq_key k \<Longrightarrow> store_get (store_delete k [] s) k' = (if k' = k then PNone else store_get s k')"
  by (simp add: sq_ok_def pk.get_del)

lemmas sq_store = sq_ok_put sq_ok_delete sq_get_put sq_get_put_raw sq_get_delete

definition sq_reset :: "fs \<Rightarrow> fs" where
  "sq_reset s = store_put (PInt 0) SSPL_MEMORY_USAGE True
     (store_put (PInt 0) SSPL_MESSAGE_TAIL_INDEX True (store_put (PInt 0) SSPL_MESSAGE_HEAD_INDEX True s))"

lemma sq_state_reset: "sq_state s h t c q \<Longrightarrow> sq_state (sq_reset s) 0 0 0 []"
  by (simp add: sq_state_def sq_reset_def sq_store)

lemma sq_is_empty_run:
  "sq_state s h t c q \<Longrightarrow>
    sq_is_empty s = (if q = [] then (Inr True, sq_reset s) else (Inr False, s))"
  by (auto simp: sq_state_def sq_is_empty_def sq_tail_def sq_head_def sq_set_head_def
      sq_set_tail_def sq_set_current_size_def sq_reset_def py_exec)

lemma sq_reads:
  assumes "sq_state s h t c q"
  shows "sq_head_int s = (Inr h, s)" and "sq_tail_int s = (Inr t, s)"
    and "sq_current_size s = (Inr c, s)" and "sq_is_full m z s = (Inr (m \<le> c + z), s)"
  using assms
  by (simp_all add: sq_state_def sq_head_int_def sq_head_def sq_tail_int_def sq_tail_def
      sq_is_full_def sq_current_size_def py_exec)

lemma sq_state_hd: "sq_state s h t c (x # q) \<Longrightarrow> store_get s (unsent_key h) = PBytes x"
  by (auto simp: sq_state_def)

text \<open>\<^verbatim>\<open>get\<close>: the oldest message, as bytes; nothing is removed.\<close>

lemma sq_get_run:
  "sq_state s h t c (x # q) \<Longrightarrow> sq_get s = (Inr (PBytes x), s)"
  using sq_reads [of s h t c "x # q"] sq_is_empty_run [of s h t c "x # q"] sq_state_hd [of s h t c x q]
  by (simp add: sq_get_def bindp_def getp_def)

lemma sq_get_empty: "sq_state s h t c [] \<Longrightarrow> sq_get s = (Inr PNone, sq_reset s)"
  using sq_is_empty_run [of s h t c "[]"] by (simp add: sq_get_def bindp_def ret_def)

section \<open>delete removes the oldest message\<close>

definition sq_deleted :: "int \<Rightarrow> int \<Rightarrow> string \<Rightarrow> fs \<Rightarrow> fs" where
  "sq_deleted h c x s = store_put (PInt (c - getsizeof (PBytes x))) SSPL_MEMORY_USAGE True
     (store_put (PInt (h + 1)) SSPL_MESSAGE_HEAD_INDEX True (store_delete (unsent_key h) [] s))"

lemma sq_delete_run:
  assumes st: "sq_state s h t c (x # q)"
  shows "sq_delete s = (Inr (), sq_deleted h c x s)"
proof -
  let ?s1 = "store_delete (unsent_key h) [] s"
  let ?s2 = "store_put (PInt (h + 1)) SSPL_MESSAGE_HEAD_INDEX True ?s1"
  have "sq_head_int ?s1 = (Inr h, ?s1)" and "sq_current_size ?s2 = (Inr c, ?s2)"
    using st by (simp_all add: sq_state_def sq_store sq_head_int_def sq_head_def
        sq_current_size_def py_exec)
  with sq_reads [OF st] sq_is_empty_run [OF st] sq_state_hd [OF st] show ?thesis
    by (simp add: sq_delete_def bindp_def seqp_def getp_def modp_def sq_set_head_def
        sq_set_current_size_def sq_deleted_def)
qed

lemma sq_delete_state:
  assumes "sq_state s h t c (x # q)"
  shows "sq_state (sq_deleted h c x s) (h + 1) t (c - getsizeof (PBytes x)) q"
proof -
  have "store_get s (unsent_key (h + 1 + int i)) = PBytes (q ! i)" if "i < length q" for i
    using assms that by (auto simp: sq_state_def algebra_simps dest!: spec [of _ "Suc i"])
  with assms show ?thesis
    by (simp add: sq_state_def sq_deleted_def sq_store)
qed

section \<open>put appends\<close>

definition sq_appended :: "int \<Rightarrow> int \<Rightarrow> string \<Rightarrow> fs \<Rightarrow> fs" where
  "sq_appended t c x s = store_put (PInt (c + getsizeof (PStr x))) SSPL_MEMORY_USAGE True
     (store_put (PInt (t + 1)) SSPL_MESSAGE_TAIL_INDEX True (store_put (PStr x) (unsent_key t) False s))"

lemma sq_appended_state:
  assumes "sq_state s h t c q"
  shows "sq_state (sq_appended t c x s) h (t + 1) (c + getsizeof (PStr x)) (q @ [x])"
proof -
  have "store_get (sq_appended t c x s) (unsent_key (h + int i)) = PBytes ((q @ [x]) ! i)"
    if "i < length (q @ [x])" for i
    using assms that
    by (cases "i = length q") (auto simp: sq_state_def sq_appended_def sq_store nth_append)
  with assms show ?thesis
    by (simp add: sq_state_def sq_appended_def sq_store)
qed

lemma sq_append_run:
  assumes "sq_state s h t c q"
  shows "sq_append x s = (Inr (), sq_appended t c x s)"
proof -
  let ?s1 = "store_put (PStr x) (unsent_key t) False s"
  let ?s2 = "store_put (PInt (t + 1)) SSPL_MESSAGE_TAIL_INDEX True ?s1"
  have "sq_tail_int ?s1 = (Inr t, ?s1)" and "sq_current_size ?s2 = (Inr c, ?s2)"
    using assms by (simp_all add: sq_state_def sq_store sq_tail_int_def sq_tail_def
        sq_current_size_def py_exec)
  with sq_reads [OF assms] show ?thesis
    by (simp add: sq_append_def bindp_def seqp_def modp_def sq_set_tail_def sq_set_current_size_def
        sq_appended_def)
qed

text \<open>
  \<^verbatim>\<open>_create_space\<close> on a non-empty queue: it changes nothing, and returns exactly when the
  overshoot is less than the recursion depth times the size of the oldest message.
\<close>

lemma sq_create_space_run:
  "sq_state s h t c (x # q) \<Longrightarrow> sq_create_space n m z r s =
    (if 0 < n \<and> c - r + z - m < int (n - 1) * getsizeof (PBytes x)
     then (Inr (), s) else (Inl RecursionError, s))"
proof (induction n arbitrary: r)
  case 0
  show ?case by (simp add: raise_def)
next
  case (Suc n)
  note run = bindp_def sq_reads [OF Suc.prems] sq_get_run [OF Suc.prems]
  show ?case
  proof (cases "m \<le> c - r + z")
    case False
    moreover have "0 \<le> int n * getsizeof (PBytes x)" by simp
    ultimately show ?thesis by (simp add: run ret_def del: getsizeof.simps)
  next
    case True
    then have "sq_create_space (Suc n) m z r s = sq_create_space n m z (r + getsizeof (PBytes x)) s"
      by (simp add: run)
    also have "\<dots> = (if 0 < n \<and> c - (r + getsizeof (PBytes x)) + z - m < int (n - 1) * getsizeof (PBytes x)
        then (Inr (), s) else (Inl RecursionError, s))"
      by (rule Suc.IH [OF Suc.prems])
    also have "0 < n \<and> c - (r + getsizeof (PBytes x)) + z - m < int (n - 1) * getsizeof (PBytes x) \<longleftrightarrow>
        0 < Suc n \<and> c - r + z - m < int (Suc n - 1) * getsizeof (PBytes x)"
      using True by (cases n) (auto simp: algebra_simps)
    finally show ?thesis .
  qed
qed

lemma sq_create_space_empty:
  "sq_state s h t c [] \<Longrightarrow> 0 \<le> c \<Longrightarrow> c - r + z - m < 16 * (int n - 1) \<Longrightarrow> 0 < n \<Longrightarrow>
    \<exists>s' h' t' c'. sq_create_space n m z r s = (Inr (), s') \<and> sq_state s' h' t' c' [] \<and> 0 \<le> c' \<and> c' \<le> c"
proof (induction n arbitrary: r s h t c)
  case 0
  then show ?case by simp
next
  case (Suc n)
  note run = bindp_def sq_reads [OF Suc.prems(1)] sq_get_empty [OF Suc.prems(1)]
  show ?case
  proof (cases "m \<le> c - r + z")
    case False
    with Suc.prems show ?thesis by (auto simp: run ret_def)
  next
    case True
    with Suc.prems have "0 < n" by (cases n) auto
    moreover have "0 - (r + 16) + z - m < 16 * (int n - 1)" using Suc.prems by simp
    ultimately have "\<exists>s' h' t' c'. sq_create_space n m z (r + 16) (sq_reset s) = (Inr (), s') \<and>
        sq_state s' h' t' c' [] \<and> 0 \<le> c' \<and> c' \<le> 0"
      using Suc.IH [OF sq_state_reset [OF Suc.prems(1)], of "r + 16"] by simp
    moreover have "sq_create_space (Suc n) m z r s = sq_create_space n m z (r + 16) (sq_reset s)"
      using True by (simp add: run)
    ultimately show ?thesis using Suc.prems(2) by fastforce
  qed
qed

text \<open>The room \<^verbatim>\<open>put\<close> needs: an overshoot the recursion can count down.\<close>

definition sq_room :: "nat \<Rightarrow> int \<Rightarrow> int \<Rightarrow> string \<Rightarrow> bool" where
  "sq_room depth m c x \<longleftrightarrow> c + getsizeof (PStr x) - m < 16 * (int depth - 1) \<and> 0 < depth"

lemma sq_put_run:
  assumes st: "sq_state s h t c q" and c: "0 \<le> c" and room: "sq_room depth m c x"
  shows "\<exists>s' h' t' c'. sq_put depth m x s = (Inr (), s') \<and> sq_state s' h' t' c' (q @ [x]) \<and>
     (q \<noteq> [] \<longrightarrow> c' = c + getsizeof (PStr x)) \<and>
     getsizeof (PStr x) \<le> c' \<and> c' \<le> c + getsizeof (PStr x)"
proof -
  let ?z = "getsizeof (PStr x)"
  have put: "sq_put depth m x s =
      seqp (if m \<le> c + ?z then sq_create_space depth m ?z 0 else ret ()) (sq_append x) s"
    by (simp add: sq_put_def bindp_def [of "sq_is_full _ _"] sq_reads [OF st] Let_def)
  have "\<exists>s1 h1 t1 c1. (if m \<le> c + ?z then sq_create_space depth m ?z 0 else ret ()) s = (Inr (), s1) \<and>
      sq_state s1 h1 t1 c1 q \<and> (q \<noteq> [] \<longrightarrow> c1 = c) \<and> 0 \<le> c1 \<and> c1 \<le> c"
  proof (cases q)
    case Nil
    with st c room show ?thesis
      using sq_create_space_empty [of s h t c 0 ?z m depth] by (auto simp: ret_def sq_room_def)
  next
    case (Cons y ys)
    have "16 * (int depth - 1) \<le> getsizeof (PBytes y) * (int depth - 1)"
      using room getsizeof_ge_16 [of "PBytes y"] by (intro mult_right_mono) (auto simp: sq_room_def)
    then have "c - 0 + ?z - m < int (depth - 1) * getsizeof (PBytes y)"
      using room by (simp add: sq_room_def algebra_simps of_nat_diff)
    with Cons st c room show ?thesis
      by (auto simp: sq_create_space_run ret_def sq_room_def)
  qed
  then obtain s1 h1 t1 c1 where
      run1: "(if m \<le> c + ?z then sq_create_space depth m ?z 0 else ret ()) s = (Inr (), s1)"
    and st1: "sq_state s1 h1 t1 c1 q" and c1: "q \<noteq> [] \<longrightarrow> c1 = c" "0 \<le> c1" "c1 \<le> c"
    by blast
  have "sq_put depth m x s = (Inr (), sq_appended t1 c1 x s1)"
    by (simp only: put seqp_def run1 sq_append_run [OF st1] prod.case sum.case)
  with sq_appended_state [OF st1, of x] c1 show ?thesis by fastforce
qed

text \<open>
  A non-empty queue over its limit: nothing is evicted, the message is appended and the
  recorded usage passes the limit.
\<close>

lemma sq_put_full:
  assumes st: "sq_state s h t c (y # q)" and full: "m \<le> c + getsizeof (PStr x)"
  shows "sq_put depth m x s =
    (if 0 < depth \<and> c + getsizeof (PStr x) - m < int (depth - 1) * getsizeof (PBytes y)
     then (Inr (), sq_appended t c x s) else (Inl RecursionError, s))"
proof -
  have "sq_put depth m x s = seqp (sq_create_space depth m (getsizeof (PStr x)) 0) (sq_append x) s"
    using full by (simp add: sq_put_def bindp_def [of "sq_is_full _ _"] sq_reads [OF st] Let_def)
  then show ?thesis
    by (cases depth)
      (simp_all add: seqp_def sq_create_space_run [OF st] sq_append_run [OF st] del: getsizeof.simps
        sq_create_space.simps)
qed

section \<open>The interface of a first-in first-out queue\<close>

text \<open>
  What the senders rely on: the queue represents a list; \<open>enq\<close> appends where there is
  room, \<open>peek\<close> returns the first message without removing it, \<open>deq\<close> removes it. A client
  that alternates \<open>peek\<close> and \<open>deq\<close> sees the messages in the order they were put.
\<close>

primrec drain :: "('s \<Rightarrow> 'm option \<times> 's) \<Rightarrow> ('s \<Rightarrow> 's) \<Rightarrow> nat \<Rightarrow> 's \<Rightarrow> 'm list \<times> 's" where
  "drain peek deq 0 s = ([], s)"
| "drain peek deq (Suc n) s = (case peek s of
     (None, s') \<Rightarrow> ([], s')
   | (Some m, s') \<Rightarrow> (case drain peek deq n (deq s') of (ms, s'') \<Rightarrow> (m # ms, s'')))"

fun enq_all :: "('m \<Rightarrow> 's \<Rightarrow> 's) \<Rightarrow> 'm list \<Rightarrow> 's \<Rightarrow> 's" where
  "enq_all enq [] s = s"
| "enq_all enq (m # ms) s = enq_all enq ms (enq m s)"

fun all_room :: "('s \<Rightarrow> 'm \<Rightarrow> bool) \<Rightarrow> ('m \<Rightarrow> 's \<Rightarrow> 's) \<Rightarrow> 'm list \<Rightarrow> 's \<Rightarrow> bool" where
  "all_room room enq [] s = True"
| "all_room room enq (m # ms) s = (room s m \<and> all_room room enq ms (enq m s))"

locale fifo_queue =
  fixes repr :: "'s \<Rightarrow> 'm list \<Rightarrow> bool"
    and enq :: "'m \<Rightarrow> 's \<Rightarrow> 's"
    and deq :: "'s \<Rightarrow> 's"
    and peek :: "'s \<Rightarrow> 'm option \<times> 's"
    and room :: "'s \<Rightarrow> 'm \<Rightarrow> bool"
  assumes repr_enq: "repr s q \<Longrightarrow> room s m \<Longrightarrow> repr (enq m s) (q @ [m])"
    and repr_deq: "repr s (m # q) \<Longrightarrow> repr (deq s) q"
    and peek_Nil: "repr s [] \<Longrightarrow> \<exists>s'. peek s = (None, s') \<and> repr s' []"
    and peek_Cons: "repr s (m # q) \<Longrightarrow> peek s = (Some m, s)"
begin

lemma repr_enq_all: "repr s q \<Longrightarrow> all_room room enq ms s \<Longrightarrow> repr (enq_all enq ms s) (q @ ms)"
proof (induction ms arbitrary: s q)
  case (Cons m ms)
  then have "repr (enq m s) (q @ [m])" by (simp add: repr_enq)
  with Cons show ?case by fastforce
qed simp

lemma drain_all:
  "repr s q \<Longrightarrow> length q \<le> n \<Longrightarrow> \<exists>s'. drain peek deq n s = (q, s') \<and> repr s' []"
proof (induction n arbitrary: s q)
  case (Suc n)
  show ?case
  proof (cases q)
    case Nil
    with Suc.prems show ?thesis using peek_Nil by fastforce
  next
    case (Cons m q')
    with Suc.prems have "repr (deq s) q'" by (simp add: repr_deq)
    moreover from Cons Suc.prems have "length q' \<le> n" by simp
    ultimately obtain s' where "drain peek deq n (deq s) = (q', s')" "repr s' []"
      using Suc.IH by blast
    with Cons Suc.prems peek_Cons [of s m q'] show ?thesis by simp
  qed
qed simp

lemma put_drain:
  "repr s q \<Longrightarrow> all_room room enq ms s \<Longrightarrow>
    \<exists>s'. drain peek deq (length q + length ms) (enq_all enq ms s) = (q @ ms, s') \<and> repr s' []"
  by (rule drain_all) (simp_all add: repr_enq_all)

end

text \<open>
  The instance. The recorded usage never falls below what the queued messages will give
  back when they are deleted.
\<close>

definition usage_ok :: "int \<Rightarrow> string list \<Rightarrow> bool" where
  "usage_ok c q \<longleftrightarrow> (\<Sum>x\<leftarrow>q. getsizeof (PBytes x)) \<le> c"

definition sq_repr :: "fs \<Rightarrow> string list \<Rightarrow> bool" where
  "sq_repr s q \<longleftrightarrow> (\<exists>h t c. sq_state s h t c q \<and> usage_ok c q)"

definition sq_usage :: "fs \<Rightarrow> int" where
  "sq_usage s = (case store_get s SSPL_MEMORY_USAGE of PInt c \<Rightarrow> c | _ \<Rightarrow> 0)"

definition sq_enq :: "nat \<Rightarrow> int \<Rightarrow> string \<Rightarrow> fs \<Rightarrow> fs" where
  "sq_enq depth m x s = snd (sq_put depth m x s)"

definition sq_deq :: "fs \<Rightarrow> fs" where
  "sq_deq s = snd (sq_delete s)"

definition sq_peek :: "fs \<Rightarrow> string option \<times> fs" where
  "sq_peek s = (case sq_get s of (Inr (PBytes x), s') \<Rightarrow> (Some x, s') | (_, s') \<Rightarrow> (None, s'))"

lemma sq_usage_state: "sq_state s h t c q \<Longrightarrow> sq_usage s = c"
  by (simp add: sq_state_def sq_usage_def)

lemma usage_nonneg: "usage_ok c q \<Longrightarrow> 0 \<le> c"
  unfolding usage_ok_def
  by (rule order_trans [rotated], assumption) (induction q, auto)

lemma sq_repr_put:
  assumes "sq_repr s q" and "sq_room depth m (sq_usage s) x"
  shows "\<exists>s'. sq_put depth m x s = (Inr (), s') \<and> sq_repr s' (q @ [x])"
proof -
  from assms(1) obtain h t c where st: "sq_state s h t c q" and u: "usage_ok c q"
    by (auto simp: sq_repr_def)
  from sq_put_run [OF st usage_nonneg [OF u], of depth m x] assms(2) sq_usage_state [OF st]
  obtain s' h' t' c' where run: "sq_put depth m x s = (Inr (), s')"
    and st': "sq_state s' h' t' c' (q @ [x])"
    and c': "q \<noteq> [] \<longrightarrow> c' = c + getsizeof (PStr x)" "getsizeof (PStr x) \<le> c'"
    by auto
  from u c' have "usage_ok c' (q @ [x])" by (cases q) (auto simp: usage_ok_def)
  with run st' show ?thesis unfolding sq_repr_def by blast
qed

lemma sq_repr_delete:
  assumes "sq_repr s (x # q)"
  shows "\<exists>s'. sq_delete s = (Inr (), s') \<and> sq_repr s' q"
proof -
  from assms obtain h t c where st: "sq_state s h t c (x # q)" and u: "usage_ok c (x # q)"
    by (auto simp: sq_repr_def)
  from u have "usage_ok (c - getsizeof (PBytes x)) q" by (simp add: usage_ok_def)
  with sq_delete_run [OF st] sq_delete_state [OF st] show ?thesis
    unfolding sq_repr_def by blast
qed

lemma sq_repr_is_empty:
  assumes "sq_repr s q"
  shows "\<exists>s'. sq_is_empty s = (Inr (q = []), s') \<and> sq_repr s' q \<and> (q \<noteq> [] \<longrightarrow> s' = s)"
proof -
  from assms obtain h t c where st: "sq_state s h t c q" by (auto simp: sq_repr_def)
  have "sq_repr (sq_reset s) []"
    using sq_state_reset [OF st] unfolding sq_repr_def usage_ok_def by fastforce
  with sq_is_empty_run [OF st] assms show ?thesis by (cases q) auto
qed

lemma sq_repr_get_Cons: "sq_repr s (x # q) \<Longrightarrow> sq_get s = (Inr (PBytes x), s)"
  by (auto simp: sq_repr_def dest: sq_get_run)

lemma sq_repr_get_Nil: "sq_repr s [] \<Longrightarrow> \<exists>s'. sq_get s = (Inr PNone, s') \<and> sq_repr s' []"
  unfolding sq_repr_def
  using sq_get_empty sq_state_reset by (fastforce simp: usage_ok_def)

interpretation sq: fifo_queue sq_repr "sq_enq depth m" sq_deq sq_peek
    "\<lambda>s x. sq_room depth m (sq_usage s) x" for depth m
proof unfold_locales
  fix s q x
  assume "sq_repr s q" and "sq_room depth m (sq_usage s) x"
  then show "sq_repr (sq_enq depth m x s) (q @ [x])"
    using sq_repr_put by (fastforce simp: sq_enq_def)
next
  fix s x q
  assume "sq_repr s (x # q)"
  then show "sq_repr (sq_deq s) q" using sq_repr_delete by (fastforce simp: sq_deq_def)
next
  fix s
  assume "sq_repr s []"
  then show "\<exists>s'. sq_peek s = (None, s') \<and> sq_repr s' []"
    using sq_repr_get_Nil by (fastforce simp: sq_peek_def)
next
  fix s x q
  assume "sq_repr s (x # q)"
  then show "sq_peek s = (Some x, s)" by (simp add: sq_peek_def sq_repr_get_Cons)
qed

section \<open>Start-up\<close>

definition empty_fs :: fs where
  "empty_fs = \<lparr>files = [], dirs = [], denied = []\<rparr>"

lemma sq_ok_empty_fs: "sq_ok empty_fs"
  using sq_indep
  by (auto simp: sq_ok_def fs_wf_def isfile_def writable_def isdir_def empty_fs_def indep_def)

lemma sq_init_fresh:
  assumes "sq_ok s" and "store_get s SSPL_MEMORY_USAGE = PNone"
    and "store_get s SSPL_MESSAGE_HEAD_INDEX = PNone" and "store_get s SSPL_MESSAGE_TAIL_INDEX = PNone"
  shows "sq_state (sq_init s) 0 0 0 []"
  using assms by (simp add: sq_init_def init_key_def sq_state_def sq_store)

lemma sq_init_restart: "sq_state s h t c q \<Longrightarrow> sq_init s = s"
  by (simp add: sq_init_def init_key_def sq_state_def)

lemma sq_init_empty_fs: "sq_state (sq_init empty_fs) 0 0 0 []"
  by (rule sq_init_fresh [OF sq_ok_empty_fs])
    (simp_all add: store_get_def load_json_file_def isdir_def empty_fs_def)

lemma sq_repr_init: "sq_repr (sq_init empty_fs) []"
  unfolding sq_repr_def usage_ok_def using sq_init_empty_fs by fastforce

lemma sq_usage_init: "sq_usage (sq_init empty_fs) = 0"
  by (rule sq_usage_state [OF sq_init_empty_fs])

lemma sq_state_one:
  "sq_state (sq_appended 0 0 ''old'' (sq_init empty_fs)) 0 1 52 [''old'']"
  using sq_appended_state [OF sq_init_empty_fs, of "''old''"] by simp

section \<open>Properties\<close>

text \<open>
  \<^verbatim>\<open>StoreQueue.put\<close> refines the append of a list: on a store that represents the queue
  \<open>q\<close>, with room for the message, it returns without an exception and the store then
  represents \<open>q @ [x]\<close>.
\<close>

lemma store_queue_put_appends:
  assumes "sq_repr s q" and "sq_room depth m (sq_usage s) x"
  shows "\<exists>s'. sq_put depth m x s = (Inr (), s') \<and> sq_repr s' (q @ [x])"
  using assms by (rule sq_repr_put)

lemma store_queue_put_appends_witness:
  "sq_repr (sq_init empty_fs) [] \<and> sq_room 990 50000000 (sq_usage (sq_init empty_fs)) ''hello'' \<and>
   (\<exists>s'. sq_put 990 50000000 ''hello'' (sq_init empty_fs) = (Inr (), s') \<and> sq_repr s' [''hello''])"
proof -
  have room: "sq_room 990 50000000 (sq_usage (sq_init empty_fs)) ''hello''"
    by (simp add: sq_usage_init sq_room_def)
  show ?thesis
    using sq_repr_init room store_queue_put_appends [OF sq_repr_init room] by simp
qed

text \<open>
  C23. First in, first out: whatever is put into the queue is handed out by \<^verbatim>\<open>get\<close> and
  \<^verbatim>\<open>delete\<close> behind the messages already queued, complete and in the order of the puts, and
  leaves the queue empty.
\<close>

theorem store_queue_fifo:
  assumes "sq_repr s q"
    and "all_room (\<lambda>s x. sq_room depth m (sq_usage s) x) (sq_enq depth m) ms s"
  shows "\<exists>s'. drain sq_peek sq_deq (length q + length ms) (enq_all (sq_enq depth m) ms s) = (q @ ms, s') \<and>
     sq_repr s' []"
  using assms by (rule sq.put_drain)

theorem store_queue_fifo_witness:
  "\<exists>s'. drain sq_peek sq_deq 1 (enq_all (sq_enq 990 50000000) [''hello''] (sq_init empty_fs))
     = ([''hello''], s') \<and> sq_repr s' []"
  using store_queue_fifo [OF sq_repr_init, of 990 50000000 "[''hello'']"]
  by (simp add: sq_usage_init sq_room_def)

text \<open>
  C24. The memory limit is not enforced: on a non-empty queue that is over its limit,
  \<^verbatim>\<open>put\<close> evicts nothing. Either the message is appended and the recorded usage ends above
  the limit, or the overshoot exceeds what the recursion of \<^verbatim>\<open>_create_space\<close> can count down
  and \<^verbatim>\<open>put\<close> raises \<^verbatim>\<open>RecursionError\<close> without storing the message.
\<close>

theorem store_queue_limit_not_enforced:
  assumes "sq_state s h t c (y # q)" and "m \<le> c + getsizeof (PStr x)"
  shows "(\<exists>s'. sq_put depth m x s = (Inr (), s') \<and>
            sq_state s' h (t + 1) (c + getsizeof (PStr x)) (y # q @ [x]))
       \<or> sq_put depth m x s = (Inl RecursionError, s)"
  using sq_put_full [OF assms] sq_appended_state [OF assms(1), of x] by auto

theorem store_queue_limit_not_enforced_witness:
  "let s = sq_appended 0 0 ''old'' (sq_init empty_fs) in
   sq_state s 0 1 52 [''old''] \<and> (60::int) \<le> 52 + getsizeof (PStr ''new'') \<and>
   ((\<exists>s'. sq_put 990 60 ''new'' s = (Inr (), s') \<and> sq_state s' 0 2 104 [''old'', ''new''])
    \<or> sq_put 990 60 ''new'' s = (Inl RecursionError, s))"
  using store_queue_limit_not_enforced [OF sq_state_one, of 60 "''new''" 990] sq_state_one
  by (simp add: Let_def)

text \<open>
  The accounting drifts: \<^verbatim>\<open>put\<close> adds the size of the text, \<^verbatim>\<open>delete\<close> subtracts the size of
  the bytes read back, 16 less. When the recorded usage is the size of the queued texts plus
  16 for each message deleted so far, the next \<^verbatim>\<open>delete\<close> keeps that relation with one more.
\<close>

lemma store_queue_usage_drift:
  assumes "sq_state s h t c (x # q)"
    and "c = (\<Sum>y\<leftarrow>x # q. getsizeof (PStr y)) + 16 * int k"
  shows "\<exists>s'. sq_delete s = (Inr (), s') \<and>
     sq_state s' (h + 1) t ((\<Sum>y\<leftarrow>q. getsizeof (PStr y)) + 16 * int (k + 1)) q"
proof -
  have "c - getsizeof (PBytes x) = (\<Sum>y\<leftarrow>q. getsizeof (PStr y)) + 16 * int (k + 1)"
    using assms(2) by simp
  with sq_delete_run [OF assms(1)] sq_delete_state [OF assms(1)] show ?thesis by metis
qed

lemma store_queue_usage_drift_witness:
  "let s = sq_appended 0 0 ''old'' (sq_init empty_fs) in
   sq_state s 0 1 52 [''old''] \<and> (52::int) = (\<Sum>y\<leftarrow>[''old'']. getsizeof (PStr y)) + 16 * int 0 \<and>
   (\<exists>s'. sq_delete s = (Inr (), s') \<and> sq_state s' 1 1 16 [])"
  using store_queue_usage_drift [OF sq_state_one, of 0] sq_state_one
  by (simp add: Let_def)

end
