(* ===== verification/Iem.thy ===== *)
theory Iem
  imports Store_Queue
begin

text \<open>
  \<^verbatim>\<open>framework/utils/iem.py\<close>: interesting event messages. A fault IEM is raised once per fault
  (a marker file holds the code last raised for the event), a fault-resolved IEM removes the
  marker, and an IEM that cannot be handed to the IEM framework is appended to the store
  queue. The framework itself (\<^verbatim>\<open>cortx.utils.iem_framework\<close>) and \<^verbatim>\<open>psutil\<close> are not part of the
  repository: \<open>iem_env\<close> holds what they answer, as parameters of the model.
\<close>

record iem_event =
  iem_module :: string
  iem_code :: string
  iem_severity :: string
  iem_description :: string

record iem_env =
  ev_send :: "iem_event \<Rightarrow> py_exn option"
  ev_init :: "py_exn option"
  pid_exists :: "int \<Rightarrow> bool"
  rec_depth :: nat
  queue_limit :: int

record iem_state =
  ifs :: fs
  fault_iems :: "string list"
  sent_iems :: "iem_event list"

section \<open>Tables\<close>

definition IEM_DATA_PATH :: string where
  "IEM_DATA_PATH = ''/var/cortx/sspl/data/iem/sspl_iems''"

definition IEM_INIT_FAILED :: string where
  "IEM_INIT_FAILED = ''/var/cortx/sspl/data/iem/iem_init_failure''"

definition EVENT_CODE :: "(string \<times> (string \<times> string)) list" where
  "EVENT_CODE =
    [(''IPMITOOL_ERROR'', (''0050010001'', ''ipmitool'')),
     (''IPMITOOL_AVAILABLE'', (''0050010002'', ''ipmitool'')),
     (''HDPARM_ERROR'', (''0050010003'', ''hdparm'')),
     (''HDPARM_AVAILABLE'', (''0050010004'', ''hdparm'')),
     (''SMARTCTL_ERROR'', (''0050010005'', ''smartctl'')),
     (''SMARTCTL_AVAILABLE'', (''0050010006'', ''smartctl'')),
     (''UDISKS2_UNAVAILABLE'', (''0050010007'', ''udisks2'')),
     (''UDISKS2_AVAILABLE'', (''0050010008'', ''udisks2'')),
     (''KAFKA_NOT_ACTIVE'', (''0050020001'', ''kafka'')),
     (''KAFKA_ACTIVE'', (''0050020002'', ''kafka''))]"

text \<open>The description (first of the three strings), the only one the code uses.\<close>

definition EVENT_STRING :: "(string \<times> string) list" where
  "EVENT_STRING =
    [(''0050010001'', ''ipmitool command execution error.''),
     (''0050010002'', ''ipmitool command execution success again.''),
     (''0050010003'', ''hdparm command execution error.''),
     (''0050010004'', ''hdparm command execution success again.''),
     (''0050010005'', ''smartctl command execution error.''),
     (''0050010006'', ''smartctl command execution success again.''),
     (''0050010007'', ''udisks2 is not installed.''),
     (''0050010008'', ''udisks2 is available.''),
     (''0050020001'', ''Kafka service is not in active state.''),
     (''0050020002'', ''Kafka service is back in active state.'')]"

section \<open>Plain file access\<close>

definition on_ifs :: "(fs, 'a) proc \<Rightarrow> (iem_state, 'a) proc" where
  "on_ifs m s = (case m (ifs s) of (r, f) \<Rightarrow> (r, s\<lparr>ifs := f\<rparr>))"

definition os_makedirs :: "string \<Rightarrow> (fs, unit) proc" where
  "os_makedirs d f = (if d \<in> set (denied f) \<or> isfile f d then (Inl OSError, f) else (Inr (), makedirs d f))"

definition os_write :: "string \<Rightarrow> string \<Rightarrow> (fs, unit) proc" where
  "os_write p txt f =
     (if isdir f (dirname p) \<and> p \<notin> set (denied f) \<and> \<not> isdir f p
      then (Inr (), f\<lparr>files := AList.update p (Raw txt) (files f)\<rparr>) else (Inl OSError, f))"

text \<open>Reading text; a pickled file is not valid text.\<close>

definition os_read :: "string \<Rightarrow> (fs, string) proc" where
  "os_read p f = (case map_of (files f) p of
     Some (Raw t) \<Rightarrow> (Inr t, f) | Some (Pickled v) \<Rightarrow> (Inl ValueError, f) | None \<Rightarrow> (Inl OSError, f))"

definition os_remove :: "string \<Rightarrow> (fs, unit) proc" where
  "os_remove p f = (if isfile f p then (Inr (), f\<lparr>files := AList.delete p (files f)\<rparr>) else (Inl OSError, f))"

section \<open>The operations of Iem\<close>

definition iem_event_path :: "string \<Rightarrow> string" where
  "iem_event_path event_name = IEM_DATA_PATH @ ''/iem_'' @ event_name"

definition check_existing_iem_event :: "string \<Rightarrow> string \<Rightarrow> (fs, bool) proc" where
  "check_existing_iem_event event_name event_code =
     bindp (getp (\<lambda>f. path_exists f IEM_DATA_PATH)) (\<lambda>have_dir.
     seqp (if have_dir then ret () else os_makedirs IEM_DATA_PATH)
     (bindp (getp (\<lambda>f. path_exists f (iem_event_path event_name))) (\<lambda>have.
      if \<not> have then seqp (os_write (iem_event_path event_name) event_code) (ret False)
      else bindp (os_read (iem_event_path event_name)) (\<lambda>t.
        if strip t \<noteq> event_code
        then seqp (os_write (iem_event_path event_name) event_code) (ret False)
        else ret True))))"

definition check_fault_event :: "string \<Rightarrow> string list \<Rightarrow> (fs, bool) proc" where
  "check_fault_event event_name events =
     bindp (getp (\<lambda>f. path_exists f (iem_event_path event_name))) (\<lambda>have.
       if have then bindp (os_read (iem_event_path event_name)) (\<lambda>t. ret (strip t \<in> set events))
       else ret False)"

definition iem_msg :: "iem_event \<Rightarrow> string res" where
  "iem_msg e = json_dumps (PDict [(''iem'', PDict [(''module'', PStr (iem_module e)),
     (''event_code'', PStr (iem_code e)), (''severity'', PStr (iem_severity e)),
     (''description'', PStr (iem_description e))])])"

definition event_message_init :: "iem_env \<Rightarrow> (iem_state, unit) proc" where
  "event_message_init env = (case ev_init env of None \<Rightarrow> ret () | Some e \<Rightarrow> raise e)"

definition event_message_send :: "iem_env \<Rightarrow> iem_event \<Rightarrow> (iem_state, unit) proc" where
  "event_message_send env e = (case ev_send env e of
     None \<Rightarrow> modp (\<lambda>s. s\<lparr>sent_iems := sent_iems s @ [e]\<rparr>) | Some x \<Rightarrow> raise x)"

definition raise_iem_event :: "iem_env \<Rightarrow> iem_event \<Rightarrow> (iem_state, unit) proc" where
  "raise_iem_event env e =
     bindp (getp (\<lambda>s. path_exists (ifs s) IEM_INIT_FAILED)) (\<lambda>failed.
     seqp (if failed then
         bindp (on_ifs (os_read IEM_INIT_FAILED)) (\<lambda>sspl_pid.
         seqp (if sspl_pid = [] then ret ()
               else bindp (liftp (py_int sspl_pid)) (\<lambda>pid.
                 if pid_exists env pid then event_message_init env else ret ()))
         (on_ifs (os_remove IEM_INIT_FAILED)))
       else ret ())
     (event_message_send env e))"

definition iem_queue_put :: "iem_env \<Rightarrow> string \<Rightarrow> (iem_state, unit) proc" where
  "iem_queue_put env txt = on_ifs (sq_put (rec_depth env) (queue_limit env) txt)"

definition generate_iem :: "iem_env \<Rightarrow> iem_event \<Rightarrow> (iem_state, unit) proc" where
  "generate_iem env e = bindp (liftp (iem_msg e)) (\<lambda>txt.
     tryp (bindp (on_ifs sq_is_empty) (\<lambda>empty.
             if empty then raise_iem_event env e else iem_queue_put env txt))
          (\<lambda>_. iem_queue_put env txt))"

definition create_iem_fields ::
  "iem_env \<Rightarrow> string \<times> string \<Rightarrow> string \<Rightarrow> string option \<Rightarrow> (iem_state, unit) proc" where
  "create_iem_fields env event severity event_type =
     bindp (liftp (case map_of EVENT_STRING (fst event) of None \<Rightarrow> Inl KeyError | Some d \<Rightarrow> Inr d)) (\<lambda>description.
     bindp (getp fault_iems) (\<lambda>faults.
     let e = \<lparr>iem_module = snd event, iem_code = fst event, iem_severity = severity,
              iem_description = description\<rparr> in
     if event_type = Some ''fault_resolved'' \<and> snd event \<in> set faults then
       bindp (getp (\<lambda>s. path_exists (ifs s) (iem_event_path (snd event)))) (\<lambda>have.
         if have then seqp (on_ifs (os_remove (iem_event_path (snd event)))) (generate_iem env e)
         else ret ())
     else
       bindp (on_ifs (check_existing_iem_event (snd event) (fst event))) (\<lambda>previous_iem.
         if \<not> previous_iem then generate_iem env e else ret ())))"

definition event_code :: "string \<Rightarrow> (string \<times> string) res" where
  "event_code name = (case map_of EVENT_CODE name of None \<Rightarrow> Inl KeyError | Some e \<Rightarrow> Inr e)"

definition iem_fault :: "iem_env \<Rightarrow> string \<Rightarrow> (iem_state, unit) proc" where
  "iem_fault env event = bindp (liftp (event_code event)) (\<lambda>ev.
     create_iem_fields env ev ''E'' None)"

definition iem_fault_resolved :: "iem_env \<Rightarrow> string \<Rightarrow> (iem_state, unit) proc" where
  "iem_fault_resolved env fault_res_event = bindp (liftp (event_code fault_res_event)) (\<lambda>ev.
     create_iem_fields env ev ''I'' (Some ''fault_resolved''))"

definition fault_events :: "string list" where
  "fault_events = [''IPMITOOL_ERROR'', ''HDPARM_ERROR'', ''UDISKS2_UNAVAILABLE'',
     ''SMARTCTL_ERROR'', ''KAFKA_NOT_ACTIVE'']"

text \<open>The body of the loop of \<^verbatim>\<open>check_existing_fault_iems\<close>, and the loop.\<close>

definition restore_fault_iem :: "string \<Rightarrow> (iem_state, unit) proc" where
  "restore_fault_iem event = bindp (liftp (event_code event)) (\<lambda>event_data.
     bindp (on_ifs (check_fault_event (snd event_data) [fst event_data])) (\<lambda>prev_fault_iem_event.
       if prev_fault_iem_event
       then modp (\<lambda>s. s\<lparr>fault_iems := fault_iems s @ [snd event_data]\<rparr>) else ret ()))"

definition check_existing_fault_iems :: "(iem_state, unit) proc" where
  "check_existing_fault_iems = forp fault_events restore_fault_iem"

section \<open>Files the queue does not use\<close>

lemma is_sq_key_prefix: "is_sq_key k \<Longrightarrow> take 22 k = ''/var/cortx/sspl/data/S''"
  by (auto simp: is_sq_key_def unsent_key_def sq_paths)

lemma not_sq_key [simp]:
  "\<not> is_sq_key (iem_event_path n)" "\<not> is_sq_key IEM_INIT_FAILED"
  by (auto dest!: is_sq_key_prefix simp: iem_event_path_def IEM_DATA_PATH_def IEM_INIT_FAILED_def)

lemma iem_paths_distinct [simp]:
  "iem_event_path n \<noteq> IEM_INIT_FAILED" "IEM_INIT_FAILED \<noteq> iem_event_path n"
  "IEM_DATA_PATH \<noteq> IEM_INIT_FAILED" "IEM_DATA_PATH \<noteq> iem_event_path n"
  "iem_event_path m = iem_event_path n \<longleftrightarrow> m = n"
  by (auto simp: iem_event_path_def IEM_DATA_PATH_def IEM_INIT_FAILED_def)

lemma sq_state_frame:
  assumes "sq_state f h t c q" and "fs_wf f'" and "denied f' = denied f"
    and "\<And>k. is_sq_key k \<Longrightarrow> map_of (files f') k = map_of (files f) k"
    and "\<And>k. is_sq_key k \<Longrightarrow> isdir f' k \<Longrightarrow> isdir f k"
  shows "sq_state f' h t c q"
proof -
  have "store_get f' k = store_get f k" if "is_sq_key k" for k
    using assms that by (simp add: fs_wf_get sq_state_def sq_ok_def)
  moreover have "writable f' k" if "is_sq_key k" for k
    using assms that by (auto simp: sq_state_def sq_ok_def writable_def)
  ultimately show ?thesis using assms(1,2) by (simp add: sq_state_def sq_ok_def)
qed

lemma sq_repr_frame:
  assumes "sq_repr f q" and "fs_wf f'" and "denied f' = denied f"
    and "\<And>k. is_sq_key k \<Longrightarrow> map_of (files f') k = map_of (files f) k"
    and "\<And>k. is_sq_key k \<Longrightarrow> isdir f' k \<Longrightarrow> isdir f k"
  shows "sq_repr f' q \<and> sq_usage f' = sq_usage f"
proof -
  from assms(1) obtain h t c where st: "sq_state f h t c q" and u: "usage_ok c q"
    by (auto simp: sq_repr_def)
  from st assms(2-5) have st': "sq_state f' h t c q" by (rule sq_state_frame)
  with u sq_usage_state [OF st] sq_usage_state [OF st'] show ?thesis
    by (auto simp: sq_repr_def)
qed

lemma sq_repr_wf: "sq_repr f q \<Longrightarrow> fs_wf f"
  by (auto simp: sq_repr_def sq_state_def sq_ok_def)

lemma sq_repr_remove:
  assumes "sq_repr f q" and "\<not> is_sq_key p"
  shows "sq_repr (f\<lparr>files := AList.delete p (files f)\<rparr>) q \<and>
    sq_usage (f\<lparr>files := AList.delete p (files f)\<rparr>) = sq_usage f"
  using assms sq_repr_wf [OF assms(1)]
  by (intro sq_repr_frame) (auto simp: fs_wf_def isfile_def isdir_def)

lemma map_of_store_put: "p \<noteq> k \<Longrightarrow> map_of (files (store_put v k b f)) p = map_of (files f) p"
  by (simp add: store_put_def Let_def)

lemma keeps_sq_modp [keeps_rules]:
  "\<not> is_sq_key p \<Longrightarrow> is_sq_key k \<Longrightarrow> keeps (\<lambda>f. map_of (files f) p = x) (modp (store_put v k b))"
  by (rule keeps_modp) (metis map_of_store_put)

lemma isfile_store_put_mono: "isfile f p \<Longrightarrow> isfile (store_put v k b f) p"
  by (simp add: store_put_def isfile_def Let_def)

lemma keeps_exists_modp [keeps_rules]: "keeps (\<lambda>f. path_exists f p) (modp (store_put v k b))"
  by (rule keeps_modp) (auto simp: path_exists_def intro: isdir_store_put isfile_store_put_mono)

lemmas sq_programs = sq_is_empty_def sq_put_def sq_append_def sq_is_full_def sq_get_def
  sq_head_def sq_tail_def sq_head_int_def sq_tail_int_def sq_current_size_def sq_set_head_def
  sq_set_tail_def sq_set_current_size_def Let_def

text \<open>An invariant of the plain writes of the queue is one of its operations.\<close>

lemma keeps_sq_is_empty:
  "(\<And>v k b. is_sq_key k \<Longrightarrow> keeps I (modp (store_put v k b))) \<Longrightarrow> keeps I sq_is_empty"
  unfolding sq_programs by (intro keeps_rules) auto

lemma keeps_sq_get:
  "(\<And>v k b. is_sq_key k \<Longrightarrow> keeps I (modp (store_put v k b))) \<Longrightarrow> keeps I sq_get"
  unfolding sq_get_def sq_head_int_def sq_head_def by (intro keeps_rules keeps_sq_is_empty) auto

lemma keeps_sq_create_space:
  "(\<And>v k b. is_sq_key k \<Longrightarrow> keeps I (modp (store_put v k b))) \<Longrightarrow> keeps I (sq_create_space n m z r)"
proof (induction n arbitrary: r)
  case 0
  show ?case by (simp add: keeps_rules)
next
  case (Suc n)
  show ?case unfolding sq_create_space.simps sq_current_size_def
    by (intro keeps_rules keeps_sq_get Suc)
qed

lemma keeps_sq_put:
  "(\<And>v k b. is_sq_key k \<Longrightarrow> keeps I (modp (store_put v k b))) \<Longrightarrow> keeps I (sq_put n m x)"
  unfolding sq_put_def sq_append_def sq_is_full_def sq_tail_int_def sq_tail_def
    sq_current_size_def sq_set_tail_def sq_set_current_size_def Let_def
  by (intro keeps_rules keeps_sq_create_space) auto

lemma keeps_on_ifs: "keeps I m \<Longrightarrow> keeps (\<lambda>s. I (ifs s)) (on_ifs m)"
  by (auto simp: keeps_def on_ifs_def split: prod.splits)

section \<open>Raising an IEM\<close>

definition queue_is :: "string list \<Rightarrow> int \<Rightarrow> iem_state \<Rightarrow> bool" where
  "queue_is q u s \<longleftrightarrow> sq_repr (ifs s) q \<and> sq_usage (ifs s) = u"

lemma keeps_os_read [keeps_rules]: "keeps I (os_read p)"
  by (rule keepsI) (auto simp: os_read_def split: option.splits content.splits)

lemma keeps_os_remove_repr [keeps_rules]:
  "\<not> is_sq_key p \<Longrightarrow> keeps (\<lambda>f. sq_repr f q \<and> sq_usage f = u) (os_remove p)"
  by (rule keepsI) (auto simp: os_remove_def sq_repr_remove)

lemma keeps_queue_raise: "keeps (queue_is q u) (raise_iem_event env e)"
proof -
  have read: "keeps (queue_is q u) (on_ifs (os_read p))" for p
    unfolding queue_is_def by (rule keeps_on_ifs) (rule keeps_rules)
  have rem: "keeps (queue_is q u) (on_ifs (os_remove IEM_INIT_FAILED))"
    unfolding queue_is_def by (rule keeps_on_ifs) (simp add: keeps_rules)
  have init: "keeps (queue_is q u) (event_message_init env)"
    by (simp add: event_message_init_def keeps_rules split: option.splits)
  have send: "keeps (queue_is q u) (event_message_send env e)"
    by (auto simp: event_message_send_def queue_is_def intro!: keeps_rules keeps_modp split: option.splits)
  show ?thesis unfolding raise_iem_event_def
    by (intro keeps_rules read rem init send)
qed

text \<open>An IEM is recorded as sent exactly when \<^verbatim>\<open>raise_iem_event\<close> returns.\<close>

lemma on_ifs_sent: "sent_iems (snd (on_ifs m s)) = sent_iems s \<and> fault_iems (snd (on_ifs m s)) = fault_iems s"
  by (simp add: on_ifs_def split: prod.splits)

lemma raise_iem_event_sent:
  "raise_iem_event env e s = (r, s') \<Longrightarrow>
    sent_iems s' = sent_iems s @ (case r of Inr _ \<Rightarrow> [e] | Inl _ \<Rightarrow> [])"
  by (auto simp: raise_iem_event_def event_message_init_def event_message_send_def on_ifs_def py_exec
      split: prod.splits sum.splits option.splits if_splits)

lemma sq_room_mono: "sq_room d m c x \<Longrightarrow> c' \<le> c \<Longrightarrow> sq_room d m c' x"
  by (simp add: sq_room_def)

lemma sq_repr_usage_nonneg: "sq_repr f q \<Longrightarrow> 0 \<le> sq_usage f"
  by (auto simp: sq_repr_def sq_usage_state usage_nonneg)

lemma iem_queue_put_run:
  assumes "sq_repr (ifs s) q" and "sq_room (rec_depth env) (queue_limit env) (sq_usage (ifs s)) txt"
  shows "\<exists>f'. iem_queue_put env txt s = (Inr (), s\<lparr>ifs := f'\<rparr>) \<and> sq_repr f' (q @ [txt])"
  using sq_repr_put [OF assms] by (auto simp: iem_queue_put_def on_ifs_def)

lemma generate_iem_run:
  assumes repr: "sq_repr (ifs s) q" and msg: "iem_msg e = Inr txt"
    and room: "sq_room (rec_depth env) (queue_limit env) (sq_usage (ifs s)) txt"
  shows "\<exists>s'. generate_iem env e s = (Inr (), s') \<and>
     (q = [] \<and> sent_iems s' = sent_iems s @ [e] \<and> sq_repr (ifs s') [] \<or>
      sent_iems s' = sent_iems s \<and> sq_repr (ifs s') (q @ [txt]))"
proof (cases q)
  case (Cons y ys)
  from sq_repr_is_empty [OF repr] Cons have "sq_is_empty (ifs s) = (Inr False, ifs s)" by auto
  with iem_queue_put_run [OF repr room] show ?thesis
    by (auto simp: generate_iem_def msg py_exec on_ifs_def)
next
  case Nil
  from repr Nil obtain h t c where "sq_state (ifs s) h t c []" by (auto simp: sq_repr_def)
  then obtain f0 where run0: "sq_is_empty (ifs s) = (Inr True, f0)" and st0: "sq_state f0 0 0 0 []"
    using sq_is_empty_run sq_state_reset by fastforce
  let ?s0 = "s\<lparr>ifs := f0\<rparr>"
  from st0 have q0: "queue_is [] 0 ?s0"
    by (auto simp: queue_is_def sq_usage_state sq_repr_def usage_ok_def)
  obtain r s1 where run1: "raise_iem_event env e ?s0 = (r, s1)" by fastforce
  have q1: "queue_is [] 0 s1" using keepsD [OF keeps_queue_raise q0, of env e] run1 by simp
  have sent: "sent_iems s1 = sent_iems s @ (case r of Inr _ \<Rightarrow> [e] | Inl _ \<Rightarrow> [])"
    using raise_iem_event_sent [OF run1] by simp
  have gen: "generate_iem env e s = (case r of Inr _ \<Rightarrow> (Inr (), s1) | Inl _ \<Rightarrow> iem_queue_put env txt s1)"
    using run0 run1 by (auto simp: generate_iem_def msg py_exec on_ifs_def split: sum.splits)
  show ?thesis
  proof (cases r)
    case (Inr u)
    with gen sent q1 Nil show ?thesis by (auto simp: queue_is_def)
  next
    case (Inl x)
    have "sq_room (rec_depth env) (queue_limit env) (sq_usage (ifs s1)) txt"
      using room q1 sq_repr_usage_nonneg [OF repr] by (auto simp: queue_is_def elim: sq_room_mono)
    with iem_queue_put_run [of s1 "[]" env "txt"] q1 Inl gen sent Nil show ?thesis
      by (auto simp: queue_is_def)
  qed
qed

section \<open>The marker of an event\<close>

text \<open>
  \<open>marked n code f\<close>: the marker file of event \<open>n\<close> holds \<open>code\<close>. Nothing the queue or the IEM
  framework does changes a marker.
\<close>

definition marked :: "string \<Rightarrow> string \<Rightarrow> fs \<Rightarrow> bool" where
  "marked n code f \<longleftrightarrow> path_exists f IEM_DATA_PATH \<and>
     (\<exists>t. map_of (files f) (iem_event_path n) = Some (Raw t) \<and> strip t = code)"

lemma keeps_marker_raise:
  assumes "\<And>v k b. is_sq_key k \<Longrightarrow> keeps I (modp (store_put v k b))"
    and "keeps I (os_remove IEM_INIT_FAILED)"
  shows "keeps (\<lambda>s. I (ifs s)) (generate_iem env e)"
proof -
  have init: "keeps (\<lambda>s. I (ifs s)) (event_message_init env)"
    by (simp add: event_message_init_def keeps_rules split: option.splits)
  have send: "keeps (\<lambda>s. I (ifs s)) (event_message_send env e)"
    by (auto simp: event_message_send_def intro!: keeps_rules keeps_modp split: option.splits)
  have lift: "keeps (\<lambda>s. I (ifs s)) (on_ifs m)" if "keeps I m" for m :: "(fs, 'b) proc"
    using that by (rule keeps_on_ifs)
  show ?thesis
    unfolding generate_iem_def raise_iem_event_def iem_queue_put_def
    by (intro keeps_rules keeps_on_ifs init send assms keeps_sq_is_empty keeps_sq_put)
qed

lemma keeps_os_remove_file [keeps_rules]:
  "p \<noteq> r \<Longrightarrow> keeps (\<lambda>f. map_of (files f) p = x) (os_remove r)"
  by (rule keepsI) (simp add: os_remove_def)

lemma keeps_marked: "keeps (\<lambda>s. marked n code (ifs s)) (generate_iem env e)"
proof (rule keeps_marker_raise)
  fix v k b assume "is_sq_key k"
  then have "iem_event_path n \<noteq> k" using not_sq_key(1) by metis
  then show "keeps (marked n code) (modp (store_put v k b))"
    using keepsD [OF keeps_exists_modp [of IEM_DATA_PATH v k b]]
    by (auto simp: marked_def keeps_def modp_def map_of_store_put)
next
  show "keeps (marked n code) (os_remove IEM_INIT_FAILED)"
    by (auto simp: marked_def keeps_def os_remove_def path_exists_def isfile_def isdir_def)
qed

lemma keeps_unmarked:
  "keeps (\<lambda>s. map_of (files (ifs s)) (iem_event_path n) = x) (generate_iem env e)"
  by (rule keeps_marker_raise) (auto intro: keeps_rules)

lemma isdir_makedirs [simp]: "isdir (makedirs d f) d"
  by (simp add: makedirs_def isdir_def ancestors_def)

lemma files_makedirs [simp]: "files (makedirs d f) = files f"
  by (simp add: makedirs_def)

lemma check_existing_marks:
  assumes "check_existing_iem_event n code f = (Inr b, f')" and "strip code = code"
  shows "marked n code f'"
  using assms
  by (auto simp: check_existing_iem_event_def py_exec os_makedirs_def os_write_def os_read_def
      marked_def path_exists_def isfile_def isdir_def [of "_\<lparr>files := _\<rparr>"]
      isdir_def [symmetric]
      split: if_splits option.splits content.splits)

lemma check_existing_marked:
  "marked n code f \<Longrightarrow> check_existing_iem_event n code f = (Inr True, f)"
  by (auto simp: marked_def check_existing_iem_event_def py_exec os_read_def path_exists_def isfile_def)

lemma event_code_facts:
  assumes "event_code name = Inr ev"
  shows "strip (fst ev) = fst ev" and "\<exists>d. map_of EVENT_STRING (fst ev) = Some d"
proof -
  have "\<forall>x \<in> set EVENT_CODE. strip (fst (snd x)) = fst (snd x) \<and> map_of EVENT_STRING (fst (snd x)) \<noteq> None"
    by (simp add: EVENT_CODE_def EVENT_STRING_def strip_def is_space_def Let_def)
  moreover have "(name, ev) \<in> set EVENT_CODE"
    using assms by (auto simp: event_code_def split: option.splits dest: map_of_SomeD)
  ultimately have "strip (fst ev) = fst ev \<and> map_of EVENT_STRING (fst ev) \<noteq> None"
    by fastforce
  then show "strip (fst ev) = fst ev" and "\<exists>d. map_of EVENT_STRING (fst ev) = Some d"
    by auto
qed

lemma create_fault_run:
  assumes "map_of EVENT_STRING (fst ev) = Some d"
  shows "create_iem_fields env ev sev None s =
    bindp (on_ifs (check_existing_iem_event (snd ev) (fst ev))) (\<lambda>prev.
      if \<not> prev then generate_iem env \<lparr>iem_module = snd ev, iem_code = fst ev,
         iem_severity = sev, iem_description = d\<rparr> else ret ()) s"
  using assms by (simp add: create_iem_fields_def py_exec)

lemma iem_fault_marks:
  assumes "iem_fault env name s = (Inr (), s')" and "event_code name = Inr ev"
  shows "marked (snd ev) (fst ev) (ifs s')"
proof -
  obtain d where d: "map_of EVENT_STRING (fst ev) = Some d"
    using event_code_facts(2) [OF assms(2)] by blast
  obtain r f where chk: "check_existing_iem_event (snd ev) (fst ev) (ifs s) = (r, f)" by fastforce
  from assms create_fault_run [OF d, of env "''E''" s] chk obtain b where b: "r = Inr b"
    by (cases r) (auto simp: iem_fault_def py_exec on_ifs_def)
  have m: "marked (snd ev) (fst ev) f"
    using check_existing_marks chk b event_code_facts(1) [OF assms(2)] by blast
  show ?thesis
  proof (cases b)
    case True
    with assms create_fault_run [OF d, of env "''E''" s] chk b m show ?thesis
      by (auto simp: iem_fault_def py_exec on_ifs_def)
  next
    case False
    with assms create_fault_run [OF d, of env "''E''" s] chk b
    have "s' = snd (generate_iem env \<lparr>iem_module = snd ev, iem_code = fst ev,
         iem_severity = ''E'', iem_description = d\<rparr> (s\<lparr>ifs := f\<rparr>))"
      by (auto simp: iem_fault_def py_exec on_ifs_def)
    with m keepsD [OF keeps_marked, of "snd ev" "fst ev" "s\<lparr>ifs := f\<rparr>"] show ?thesis by simp
  qed
qed

lemma iem_fault_marked:
  assumes "marked (snd ev) (fst ev) (ifs s)" and "event_code name = Inr ev"
  shows "iem_fault env name s = (Inr (), s)"
proof -
  obtain d where d: "map_of EVENT_STRING (fst ev) = Some d"
    using event_code_facts(2) [OF assms(2)] by blast
  with check_existing_marked [OF assms(1)] assms(2) show ?thesis
    by (simp add: iem_fault_def create_fault_run [OF d] py_exec on_ifs_def)
qed

section \<open>Properties\<close>

definition demo_env :: iem_env where
  "demo_env = \<lparr>ev_send = (\<lambda>_. Some EventMessageError), ev_init = None, pid_exists = (\<lambda>_. False),
     rec_depth = 990, queue_limit = 50000000\<rparr>"

definition demo_iem :: iem_state where
  "demo_iem = \<lparr>ifs = sq_init empty_fs, fault_iems = [], sent_iems = []\<rparr>"

definition kafka_event :: iem_event where
  "kafka_event = \<lparr>iem_module = ''kafka'', iem_code = ''0050020001'', iem_severity = ''E'',
     iem_description = ''Kafka service is not in active state.''\<rparr>"

text \<open>
  C25. No IEM is lost: whatever the IEM framework answers, \<^verbatim>\<open>generate_iem\<close> returns normally
  and the event is either recorded as sent (only when nothing was queued before it) or its
  JSON text is appended to the accumulated queue, never both.
\<close>

theorem generate_iem_never_loses:
  assumes "sq_repr (ifs s) q" and "iem_msg e = Inr body"
    and "sq_room (rec_depth env) (queue_limit env) (sq_usage (ifs s)) body"
  shows "\<exists>s'. generate_iem env e s = (Inr (), s') \<and>
     (q = [] \<and> sent_iems s' = sent_iems s @ [e] \<and> sq_repr (ifs s') [] \<or>
      sent_iems s' = sent_iems s \<and> sq_repr (ifs s') (q @ [body]))"
  using assms by (rule generate_iem_run)

theorem generate_iem_never_loses_witness:
  "\<exists>body s'. iem_msg kafka_event = Inr body \<and> generate_iem demo_env kafka_event demo_iem = (Inr (), s') \<and>
     (sent_iems s' = [kafka_event] \<or> sq_repr (ifs s') [body])"
proof -
  have "iem_msg kafka_event = Inr (projr (iem_msg kafka_event)) \<and> length (projr (iem_msg kafka_event)) < 1000"
    by code_simp
  then obtain body where body: "iem_msg kafka_event = Inr body" and len: "length body < 1000" by blast
  have room: "sq_room (rec_depth demo_env) (queue_limit demo_env) (sq_usage (ifs demo_iem)) body"
    by (simp add: demo_env_def demo_iem_def sq_usage_init sq_room_def) (use len in simp)
  have repr: "sq_repr (ifs demo_iem) []" by (simp add: demo_iem_def sq_repr_init)
  show ?thesis
    using generate_iem_never_loses [OF repr body room] body by (auto simp: demo_iem_def)
qed

text \<open>
  A fault IEM is raised once: when \<^verbatim>\<open>iem_fault\<close> has returned normally for an event, a
  second \<^verbatim>\<open>iem_fault\<close> for it changes nothing (no message sent or queued, no file written),
  whatever the IEM framework answers then.
\<close>

lemma iem_fault_raised_once:
  assumes "iem_fault env name s = (Inr (), s')" and "event_code name = Inr ev"
  shows "iem_fault env' name s' = (Inr (), s')"
  using iem_fault_marks [OF assms] assms(2) by (rule iem_fault_marked)

lemma iem_fault_raised_once_witness:
  "\<exists>s'. iem_fault demo_env ''KAFKA_NOT_ACTIVE'' demo_iem = (Inr (), s') \<and>
     iem_fault demo_env ''KAFKA_NOT_ACTIVE'' s' = (Inr (), s')"
proof -
  have "fst (iem_fault demo_env ''KAFKA_NOT_ACTIVE'' demo_iem) = Inr ()" by code_simp
  then obtain s' where run: "iem_fault demo_env ''KAFKA_NOT_ACTIVE'' demo_iem = (Inr (), s')"
    by (metis prod.collapse)
  have code: "event_code ''KAFKA_NOT_ACTIVE'' = Inr (''0050020001'', ''kafka'')"
    by (simp add: event_code_def EVENT_CODE_def)
  show ?thesis using run iem_fault_raised_once [OF run code] by blast
qed

text \<open>
  A resolved fault can be raised again: when \<^verbatim>\<open>iem_fault_resolved\<close> returns normally for an
  event recorded as faulty, no marker of the event is left, so the next fault is reported.
\<close>

lemma iem_fault_resolved_unmarks:
  assumes "iem_fault_resolved env name s = (Inr (), s')" and "event_code name = Inr ev"
    and "snd ev \<in> set (fault_iems s)" and "\<not> isdir (ifs s) (iem_event_path (snd ev))"
  shows "map_of (files (ifs s')) (iem_event_path (snd ev)) = None"
proof -
  let ?p = "iem_event_path (snd ev)"
  obtain d where d: "map_of EVENT_STRING (fst ev) = Some d"
    using event_code_facts(2) [OF assms(2)] by blast
  let ?e = "\<lparr>iem_module = snd ev, iem_code = fst ev, iem_severity = ''I'', iem_description = d\<rparr>"
  let ?s1 = "s\<lparr>ifs := (ifs s)\<lparr>files := AList.delete ?p (files (ifs s))\<rparr>\<rparr>"
  show ?thesis
  proof (cases "isfile (ifs s) ?p")
    case True
    with assms d have "generate_iem env ?e ?s1 = (Inr (), s')"
      by (simp add: iem_fault_resolved_def create_iem_fields_def py_exec Let_def path_exists_def
          on_ifs_def os_remove_def)
    then show ?thesis
      using keepsD [OF keeps_unmarked [of "snd ev" None env ?e], of ?s1] by simp
  next
    case False
    with assms d show ?thesis
      by (simp add: iem_fault_resolved_def create_iem_fields_def py_exec Let_def path_exists_def
          isfile_def)
  qed
qed

lemma iem_fault_resolved_unmarks_witness:
  "let s = (snd (iem_fault demo_env ''KAFKA_NOT_ACTIVE'' demo_iem))\<lparr>fault_iems := [''kafka'']\<rparr> in
   \<exists>s'. iem_fault_resolved demo_env ''KAFKA_ACTIVE'' s = (Inr (), s') \<and>
     map_of (files (ifs s')) (iem_event_path ''kafka'') = None"
proof -
  define s where "s = (snd (iem_fault demo_env ''KAFKA_NOT_ACTIVE'' demo_iem))\<lparr>fault_iems := [''kafka'']\<rparr>"
  have "fst (iem_fault_resolved demo_env ''KAFKA_ACTIVE'' s) = Inr () \<and>
      \<not> isdir (ifs s) (iem_event_path ''kafka'')"
    unfolding s_def by code_simp
  then obtain s' where run: "iem_fault_resolved demo_env ''KAFKA_ACTIVE'' s = (Inr (), s')"
    and nodir: "\<not> isdir (ifs s) (iem_event_path ''kafka'')"
    by (metis prod.collapse)
  have code: "event_code ''KAFKA_ACTIVE'' = Inr (''0050020002'', ''kafka'')"
    by (simp add: event_code_def EVENT_CODE_def)
  show ?thesis
    unfolding Let_def s_def [symmetric]
    using run iem_fault_resolved_unmarks [OF run code] nodir by (auto simp: s_def)
qed

text \<open>The events whose marker holds the code of a fault, in the order they are checked.\<close>

definition fault_marked :: "fs \<Rightarrow> string \<Rightarrow> bool" where
  "fault_marked f event = (case event_code event of Inl _ \<Rightarrow> False | Inr (code, n) \<Rightarrow>
     (case map_of (files f) (iem_event_path n) of Some (Raw t) \<Rightarrow> strip t = code | _ \<Rightarrow> False))"

definition event_name :: "string \<Rightarrow> string" where
  "event_name event = (case event_code event of Inl _ \<Rightarrow> [] | Inr (_, n) \<Rightarrow> n)"

definition readable_markers :: "fs \<Rightarrow> bool" where
  "readable_markers f \<longleftrightarrow> (\<forall>n v. \<not> isdir f (iem_event_path n) \<and>
     map_of (files f) (iem_event_path n) \<noteq> Some (Pickled v))"

lemma check_fault_event_run:
  "readable_markers f \<Longrightarrow> event_code event = Inr ev \<Longrightarrow>
    check_fault_event (snd ev) [fst ev] f = (Inr (fault_marked f event), f)"
  by (cases ev) (auto simp: check_fault_event_def fault_marked_def readable_markers_def py_exec os_read_def
      path_exists_def isfile_def split: option.splits content.splits)

lemma restore_fault_iem_run:
  assumes "readable_markers (ifs s)" and "event_code e = Inr ev"
  shows "restore_fault_iem e s = (Inr (), if fault_marked (ifs s) e
     then s\<lparr>fault_iems := fault_iems s @ [event_name e]\<rparr> else s)"
  using check_fault_event_run [OF assms] assms(2)
  by (cases ev) (auto simp: restore_fault_iem_def py_exec on_ifs_def event_name_def)

lemma check_existing_loop:
  assumes "readable_markers (ifs s)" and "\<forall>e\<in>set es. \<exists>ev. event_code e = Inr ev"
  shows "forp es restore_fault_iem s =
    (Inr (), s\<lparr>fault_iems := fault_iems s @ map event_name (filter (fault_marked (ifs s)) es)\<rparr>)"
  using assms
proof (induction es arbitrary: s)
  case Nil
  show ?case by (simp add: ret_def)
next
  case (Cons e es)
  then obtain ev where ev: "event_code e = Inr ev" by auto
  from Cons.prems Cons.IH [of s] Cons.IH [of "s\<lparr>fault_iems := fault_iems s @ [event_name e]\<rparr>"]
  show ?case by (simp add: seqp_def restore_fault_iem_run [OF Cons.prems(1) ev])
qed

text \<open>
  After a restart the fault list is rebuilt from the markers:
  \<^verbatim>\<open>check_existing_fault_iems\<close> appends the name of every event, of the five monitored ones, whose marker holds its fault
  code, and changes nothing else.
\<close>

lemma restart_restores_fault_iems:
  assumes "readable_markers (ifs s)"
  shows "check_existing_fault_iems s =
    (Inr (), s\<lparr>fault_iems := fault_iems s @ map event_name (filter (fault_marked (ifs s)) fault_events)\<rparr>)"
proof -
  have "\<forall>e\<in>set fault_events. \<exists>ev. event_code e = Inr ev"
    by (simp add: fault_events_def event_code_def EVENT_CODE_def)
  with assms show ?thesis unfolding check_existing_fault_iems_def by (rule check_existing_loop)
qed

lemma restart_restores_fault_iems_witness:
  "readable_markers (ifs demo_iem) \<and> check_existing_fault_iems demo_iem = (Inr (), demo_iem)"
proof -
  let ?f = "sq_init empty_fs"
  have "list_all (\<lambda>d. take 22 d \<noteq> ''/var/cortx/sspl/data/i'') (dirs ?f) \<and>
      list_all (\<lambda>x. take 22 (fst x) \<noteq> ''/var/cortx/sspl/data/i'') (files ?f)"
    by code_simp
  moreover have "take 22 (iem_event_path n) = ''/var/cortx/sspl/data/i''" for n
    by (simp add: iem_event_path_def IEM_DATA_PATH_def)
  ultimately have r: "readable_markers (ifs demo_iem)"
    by (auto simp: readable_markers_def demo_iem_def isdir_def list_all_iff dest!: map_of_SomeD)
  have "map event_name (filter (fault_marked (ifs demo_iem)) fault_events) = []" by code_simp
  with r restart_restores_fault_iems [OF r] show ?thesis by simp
qed

end
