(* ===== verification/Internal_MsgQ.thy ===== *)
theory Internal_MsgQ
  imports Py_Values
begin

text \<open>
  \<^verbatim>\<open>framework/base/debug.py\<close> and \<^verbatim>\<open>framework/base/internal_msgQ.py\<close>: the debug flags of a
  module and the in-memory queues through which modules talk. A queue entry is a message (a
  dictionary, or JSON text as \<^verbatim>\<open>json.dumps\<close> wrote it) with an optional event the sender waits
  on. \<^verbatim>\<open>json.loads\<close> is the parameter \<open>loads\<close>. A blocking read of an empty queue does not
  return, which is the outcome \<open>Blocked\<close>.
\<close>

record dbg =
  debug_flag :: bool
  debug_persist :: bool

section \<open>Debug\<close>

definition init_debug :: dbg where
  "init_debug = \<lparr>debug_flag = False, debug_persist = False\<rparr>"

definition set_debug :: "bool \<Rightarrow> dbg \<Rightarrow> dbg" where
  "set_debug b d = (if \<not> debug_persist d then d\<lparr>debug_flag := b\<rparr> else d)"

definition set_debug_persist :: "bool \<Rightarrow> dbg \<Rightarrow> dbg" where
  "set_debug_persist b d = d\<lparr>debug_persist := b\<rparr>"

definition disable_debug_if_persist_false :: "dbg \<Rightarrow> dbg" where
  "disable_debug_if_persist_false d = (if \<not> debug_persist d then d\<lparr>debug_flag := False\<rparr> else d)"

fun as_message :: "(string \<Rightarrow> pyv res) \<Rightarrow> pyv \<Rightarrow> pyv res" where
  "as_message loads (PDict d) = Inr (PDict d)"
| "as_message loads (PStr t) = loads t"
| "as_message loads (PBytes t) = loads t"
| "as_message loads _ = Inl TypeError"

text \<open>The branch of \<^verbatim>\<open>_check_debug\<close> on an explicit \<^verbatim>\<open>debug_enabled\<close>.\<close>

definition check_debug_enabled :: "pyv \<Rightarrow> pyv \<Rightarrow> pyv \<Rightarrow> (dbg, bool \<times> pyv) proc" where
  "check_debug_enabled jsonMsg section enabled =
     (if enabled = PBool False then
        seqp (modp (set_debug_persist False))
        (bindp (liftp (get_key section ''debug_component'')) (\<lambda>component.
          if component = PNone then ret (True, PNone)
          else if component = PStr ''all'' then ret (False, PNone)
          else ret (False, jsonMsg)))
      else if enabled = PBool True then
        seqp (modp (set_debug True)) (seqp (modp (set_debug_persist True)) (ret (False, jsonMsg)))
      else ret (False, jsonMsg))"

definition check_debug :: "(string \<Rightarrow> pyv res) \<Rightarrow> pyv \<Rightarrow> (dbg, bool \<times> pyv) proc" where
  "check_debug loads jsonMsgRaw =
     bindp (liftp (as_message loads jsonMsgRaw)) (\<lambda>jsonMsg.
     bindp (liftp (get_key jsonMsg ''sspl_ll_debug'')) (\<lambda>section.
     bindp (if section = PNone then ret PNone else liftp (get_key section ''debug_enabled'')) (\<lambda>enabled.
       if section \<noteq> PNone \<and> enabled \<noteq> PNone then check_debug_enabled jsonMsg section enabled
       else
         bindp (if section = PNone then ret PNone else liftp (get_key section ''debug_component'')) (\<lambda>component.
         seqp (if section \<noteq> PNone \<and> component \<noteq> PNone then modp (set_debug True)
               else modp (\<lambda>d. if \<not> debug_persist d then set_debug False d else d))
         (ret (False, jsonMsg))))))"

section \<open>InternalMsgQ\<close>

record 'ev msgq =
  msgQlist :: "(string \<times> (pyv \<times> 'ev option) list) list"
  msgq_dbg :: dbg

definition is_my_msgQ_empty :: "string \<Rightarrow> ('ev msgq, bool) proc" where
  "is_my_msgQ_empty name q = (case map_of (msgQlist q) name of
     None \<Rightarrow> (Inl KeyError, q) | Some ms \<Rightarrow> (Inr (ms = []), q))"

definition write_internal_msgQ :: "string \<Rightarrow> pyv \<Rightarrow> 'ev option \<Rightarrow> ('ev msgq, unit) proc" where
  "write_internal_msgQ toModule jsonMsg event q = (case map_of (msgQlist q) toModule of
     None \<Rightarrow> (Inl KeyError, q)
   | Some ms \<Rightarrow> (Inr (), q\<lparr>msgQlist := AList.update toModule (ms @ [(jsonMsg, event)]) (msgQlist q)\<rparr>))"

definition get_msgQ_copy :: "string \<Rightarrow> ('ev msgq, (pyv \<times> 'ev option) list) proc" where
  "get_msgQ_copy module_name q = (case map_of (msgQlist q) module_name of
     None \<Rightarrow> (Inl KeyError, q) | Some ms \<Rightarrow> (Inr ms, q))"

definition debug_off_msg :: pyv where
  "debug_off_msg = PDict [(''sspl_ll_debug'',
     PDict [(''debug_component'', PStr ''all''), (''debug_enabled'', PBool False)])]"

definition bounce_msg :: pyv where
  "bounce_msg = PDict [(''sspl_ll_debug'', PDict [(''debug_component'', PStr ''all'')])]"

definition debug_off_globally :: "('ev msgq, unit) proc" where
  "debug_off_globally = bindp (getp (\<lambda>q. map fst (msgQlist q))) (\<lambda>names.
     seqp (forp (filter (\<lambda>n. n \<noteq> ''ThreadController'') names)
            (\<lambda>n. write_internal_msgQ n debug_off_msg None))
          (write_internal_msgQ ''ThreadController'' bounce_msg None))"

definition on_dbg :: "(dbg, 'a) proc \<Rightarrow> ('ev msgq, 'a) proc" where
  "on_dbg m q = (case m (msgq_dbg q) of (r, d) \<Rightarrow> (r, q\<lparr>msgq_dbg := d\<rparr>))"

text \<open>What both readers do with the entry taken off the queue.\<close>

definition handle_entry ::
  "(string \<Rightarrow> pyv res) \<Rightarrow> pyv \<times> 'ev option \<Rightarrow> ('ev msgq, pyv \<times> 'ev option) proc" where
  "handle_entry loads entry =
     (if fst entry = PNone then ret (PNone, None)
      else bindp (on_dbg (check_debug loads (fst entry))) (\<lambda>(global_debug_off, jsonMsg).
        seqp (if global_debug_off then debug_off_globally else ret ()) (ret (jsonMsg, snd entry))))"

datatype 'a read_outcome = Blocked | Got 'a

text \<open>
  \<^verbatim>\<open>_read_my_msgQ\<close>: blocks on an empty queue; an unknown queue or a message that cannot be
  parsed gives \<^verbatim>\<open>(None, None)\<close>.
\<close>

definition read_my_msgQ :: "(string \<Rightarrow> pyv res) \<Rightarrow> string \<Rightarrow> 'ev msgq \<Rightarrow> (pyv \<times> 'ev option) read_outcome \<times> 'ev msgq" where
  "read_my_msgQ loads name q = (case map_of (msgQlist q) name of
     None \<Rightarrow> (Got (PNone, None), q)
   | Some [] \<Rightarrow> (Blocked, q)
   | Some (m # ms) \<Rightarrow>
       (case handle_entry loads m (q\<lparr>msgQlist := AList.update name ms (msgQlist q)\<rparr>) of
          (Inl _, q') \<Rightarrow> (Got (PNone, None), q')
        | (Inr r, q') \<Rightarrow> (Got r, q')))"

text \<open>\<^verbatim>\<open>_read_my_msgQ_noWait\<close>: on an exception it returns \<^verbatim>\<open>None\<close> instead of a pair.\<close>

definition read_my_msgQ_noWait ::
  "(string \<Rightarrow> pyv res) \<Rightarrow> string \<Rightarrow> 'ev msgq \<Rightarrow> (pyv \<times> 'ev option) option \<times> 'ev msgq" where
  "read_my_msgQ_noWait loads name q = (case map_of (msgQlist q) name of
     None \<Rightarrow> (None, q)
   | Some [] \<Rightarrow> (Some (PNone, None), q)
   | Some (m # ms) \<Rightarrow>
       (case handle_entry loads m (q\<lparr>msgQlist := AList.update name ms (msgQlist q)\<rparr>) of
          (Inl _, q') \<Rightarrow> (None, q')
        | (Inr r, q') \<Rightarrow> (Some r, q')))"

text \<open>
  The loop of message handlers: a blocking read, then reads until the queue of the module is empty. \<open>getq\<close> and \<open>putq\<close>
  give and set the queues in the state of the handler. \<open>None\<close> when a read blocks for good or the fuel ends; an exception
  of the handler leaves the loop.
\<close>

primrec drain_loop :: "nat \<Rightarrow> (string \<Rightarrow> pyv res) \<Rightarrow> string \<Rightarrow> ('s \<Rightarrow> 'ev msgq) \<Rightarrow> ('ev msgq \<Rightarrow> 's \<Rightarrow> 's) \<Rightarrow>
    (pyv \<Rightarrow> ('s, unit) proc) \<Rightarrow> 's \<Rightarrow> (unit res \<times> 's) option" where
  "drain_loop 0 loads name getq putq handle s = None"
| "drain_loop (Suc n) loads name getq putq handle s = (case read_my_msgQ loads name (getq s) of
     (Blocked, _) \<Rightarrow> None
   | (Got (m, _), q) \<Rightarrow>
       (case (if m \<noteq> PNone then handle m else ret ()) (putq q s) of
          (Inl e, s') \<Rightarrow> Some (Inl e, s')
        | (Inr _, s') \<Rightarrow> (case is_my_msgQ_empty name (getq s') of
            (Inl e, _) \<Rightarrow> Some (Inl e, s')
          | (Inr True, _) \<Rightarrow> Some (Inr (), s')
          | (Inr False, _) \<Rightarrow> drain_loop n loads name getq putq handle s')))"

section \<open>Debug flags\<close>

lemma set_debug_persistent: "debug_persist d \<Longrightarrow> set_debug b d = d"
  by (simp add: set_debug_def)

text \<open>A message without a debug section passes unchanged.\<close>

lemma check_debug_plain:
  assumes "as_message loads raw = Inr (PDict m)" and "map_of m ''sspl_ll_debug'' = None"
  shows "check_debug loads raw d =
    (Inr (False, PDict m), if debug_persist d then d else d\<lparr>debug_flag := False\<rparr>)"
  using assms by (simp add: check_debug_def py_exec set_debug_def)

lemma check_debug_off_msg:
  "check_debug loads debug_off_msg d = (Inr (False, PNone), d\<lparr>debug_persist := False\<rparr>)"
  by (simp add: check_debug_def check_debug_enabled_def debug_off_msg_def py_exec set_debug_persist_def)

lemma check_debug_bounce_msg:
  "check_debug loads bounce_msg d = (Inr (False, bounce_msg), set_debug True d)"
  by (simp add: check_debug_def bounce_msg_def py_exec)

section \<open>Queues\<close>

lemma write_run:
  "map_of (msgQlist q) n = Some ms \<Longrightarrow>
    write_internal_msgQ n m e q = (Inr (), q\<lparr>msgQlist := AList.update n (ms @ [(m, e)]) (msgQlist q)\<rparr>)"
  by (simp add: write_internal_msgQ_def)

lemma write_all_run:
  "distinct ns \<Longrightarrow> set ns \<subseteq> dom (map_of (msgQlist q)) \<Longrightarrow>
    \<exists>q'. forp ns (\<lambda>n. write_internal_msgQ n m e) q = (Inr (), q') \<and> msgq_dbg q' = msgq_dbg q \<and>
      (\<forall>n. map_of (msgQlist q') n =
        (if n \<in> set ns then map_option (\<lambda>ms. ms @ [(m, e)]) (map_of (msgQlist q) n) else map_of (msgQlist q) n))"
proof (induction ns arbitrary: q)
  case Nil
  show ?case by (simp add: ret_def)
next
  case (Cons n ns)
  then obtain ms where ms: "map_of (msgQlist q) n = Some ms" by auto
  let ?q = "q\<lparr>msgQlist := AList.update n (ms @ [(m, e)]) (msgQlist q)\<rparr>"
  have "distinct ns" "set ns \<subseteq> dom (map_of (msgQlist ?q))" using Cons.prems by auto
  from Cons.IH [OF this] obtain q' where
    "forp ns (\<lambda>n. write_internal_msgQ n m e) ?q = (Inr (), q')" "msgq_dbg q' = msgq_dbg ?q"
    "\<forall>k. map_of (msgQlist q') k =
        (if k \<in> set ns then map_option (\<lambda>ms. ms @ [(m, e)]) (map_of (msgQlist ?q) k) else map_of (msgQlist ?q) k)"
    by blast
  with Cons.prems ms show ?case
    by (intro exI [of _ q']) (auto simp: seqp_def write_run)
qed

lemma debug_off_globally_run:
  assumes "distinct (map fst (msgQlist q))" and "map_of (msgQlist q) ''ThreadController'' = Some tc"
  shows "\<exists>q'. debug_off_globally q = (Inr (), q') \<and> msgq_dbg q' = msgq_dbg q \<and>
     (\<forall>n. map_of (msgQlist q') n = map_option (\<lambda>ms. ms @
        [(if n = ''ThreadController'' then bounce_msg else debug_off_msg, None)]) (map_of (msgQlist q) n))"
proof -
  let ?ns = "filter (\<lambda>n. n \<noteq> ''ThreadController'') (map fst (msgQlist q))"
  have "distinct ?ns" "set ?ns \<subseteq> dom (map_of (msgQlist q))"
    using assms(1) by (auto simp: dom_map_of_conv_image_fst)
  from write_all_run [OF this, of debug_off_msg None] obtain q1 where
    q1: "forp ?ns (\<lambda>n. write_internal_msgQ n debug_off_msg None) q = (Inr (), q1)" "msgq_dbg q1 = msgq_dbg q"
      "\<forall>n. map_of (msgQlist q1) n = (if n \<in> set ?ns
         then map_option (\<lambda>ms. ms @ [(debug_off_msg, None)]) (map_of (msgQlist q) n) else map_of (msgQlist q) n)"
    by blast
  then have "map_of (msgQlist q1) ''ThreadController'' = Some tc" using assms(2) by simp
  from write_run [OF this, of bounce_msg None] q1 assms(2) show ?thesis
    by (auto simp: debug_off_globally_def bindp_def getp_def seqp_def
        map_of_eq_None_iff [symmetric] image_image split: option.splits
        dest!: map_of_eq_None_iff [THEN iffD2])
qed

text \<open>Reading the oldest entry when it carries no debug section.\<close>

lemma read_plain:
  assumes "map_of (msgQlist q) n = Some ((raw, e) # ms)" and "as_message loads raw = Inr (PDict m)"
    and "map_of m ''sspl_ll_debug'' = None"
  shows "read_my_msgQ loads n q = (Got (PDict m, e),
    q\<lparr>msgQlist := AList.update n ms (msgQlist q),
      msgq_dbg := (if debug_persist (msgq_dbg q) then msgq_dbg q else (msgq_dbg q)\<lparr>debug_flag := False\<rparr>)\<rparr>)"
proof -
  have "raw \<noteq> PNone" using assms(2) by auto
  with assms(1) show ?thesis
    by (simp add: read_my_msgQ_def handle_entry_def bindp_def on_dbg_def check_debug_plain [OF assms(2,3)]
        seqp_def ret_def)
qed

section \<open>Properties\<close>

definition demo_msgq :: "nat msgq" where
  "demo_msgq = \<lparr>msgQlist = [(''EgressProcessor'', []), (''ThreadController'', [])], msgq_dbg = init_debug\<rparr>"

text \<open>
  A message written to an empty queue is what the next blocking read returns, with its
  event, and the read leaves the queue empty and all other queues alone: for a message that
  parses to a dictionary without a debug section.
\<close>

lemma msgq_write_then_read:
  assumes "map_of (msgQlist q) n = Some []" and "as_message loads raw = Inr (PDict m)"
    and "map_of m ''sspl_ll_debug'' = None"
  shows "\<exists>q1 q2. write_internal_msgQ n raw e q = (Inr (), q1) \<and>
     read_my_msgQ loads n q1 = (Got (PDict m, e), q2) \<and> map_of (msgQlist q2) = map_of (msgQlist q)"
proof -
  let ?q1 = "q\<lparr>msgQlist := AList.update n [(raw, e)] (msgQlist q)\<rparr>"
  have "write_internal_msgQ n raw e q = (Inr (), ?q1)" using write_run [OF assms(1), of raw e] by simp
  moreover have "map_of (msgQlist ?q1) n = Some ((raw, e) # [])" by simp
  from read_plain [OF this assms(2,3)] assms(1) have
    "\<exists>q2. read_my_msgQ loads n ?q1 = (Got (PDict m, e), q2) \<and> map_of (msgQlist q2) = map_of (msgQlist q)"
    by (auto simp: fun_eq_iff)
  ultimately show ?thesis by blast
qed

lemma msgq_write_then_read_witness:
  "\<exists>q1 q2. write_internal_msgQ ''EgressProcessor'' (PDict [(''k'', PInt 1)]) (Some 7) demo_msgq = (Inr (), q1) \<and>
     read_my_msgQ (\<lambda>_. Inl ValueError) ''EgressProcessor'' q1 = (Got (PDict [(''k'', PInt 1)], Some 7), q2) \<and>
     map_of (msgQlist q2) = map_of (msgQlist demo_msgq)"
  by (rule msgq_write_then_read) (simp_all add: demo_msgq_def)

text \<open>
  Turning debug off globally reaches every module exactly once and does not echo: with
  distinct queue names and a ThreadController queue, each queue gets one new message (the
  ThreadController the request to bounce all threads), and a module that reads the broadcast
  message clears its persistence flag and does not broadcast again.
\<close>

lemma debug_off_reaches_all_once:
  assumes "distinct (map fst (msgQlist q))" and "map_of (msgQlist q) ''ThreadController'' = Some tc"
  shows "(\<exists>q'. debug_off_globally q = (Inr (), q') \<and>
     (\<forall>n. map_of (msgQlist q') n = map_option (\<lambda>ms. ms @
        [(if n = ''ThreadController'' then bounce_msg else debug_off_msg, None)]) (map_of (msgQlist q) n)))
   \<and> (\<forall>loads d. check_debug loads debug_off_msg d = (Inr (False, PNone), d\<lparr>debug_persist := False\<rparr>))"
  using debug_off_globally_run [OF assms] by (auto simp: check_debug_off_msg)

lemma debug_off_reaches_all_once_witness:
  "\<exists>q'. debug_off_globally demo_msgq = (Inr (), q') \<and>
     map_of (msgQlist q') ''EgressProcessor'' = Some [(debug_off_msg, None)] \<and>
     map_of (msgQlist q') ''ThreadController'' = Some [(bounce_msg, None)]"
proof -
  have "distinct (map fst (msgQlist demo_msgq))" "map_of (msgQlist demo_msgq) ''ThreadController'' = Some []"
    by (simp_all add: demo_msgq_def)
  from debug_off_reaches_all_once [OF this] show ?thesis by (auto simp: demo_msgq_def)
qed

section \<open>Queues stay\<close>

definition has_queue :: "string \<Rightarrow> 'ev msgq \<Rightarrow> bool" where
  "has_queue n q \<longleftrightarrow> map_of (msgQlist q) n \<noteq> None"

lemma keeps_queue_write: "keeps (has_queue n) (write_internal_msgQ to m e)"
  by (auto simp: keeps_def write_internal_msgQ_def has_queue_def split: option.splits)

lemma keeps_queue_dbg: "keeps (has_queue n) (on_dbg m)"
  by (auto simp: keeps_def on_dbg_def has_queue_def split: prod.splits)

lemma keeps_queue_handle: "keeps (has_queue n) (handle_entry loads entry)"
  unfolding handle_entry_def debug_off_globally_def
  by (intro keeps_rules keeps_queue_write keeps_queue_dbg)

lemma read_noWait_queue: "has_queue n q \<Longrightarrow> has_queue n (snd (read_my_msgQ_noWait loads name q))"
proof -
  assume q: "has_queue n q"
  have "has_queue n (q\<lparr>msgQlist := AList.update name ms (msgQlist q)\<rparr>)" for ms using q by (simp add: has_queue_def)
  from keepsD [OF keeps_queue_handle this] q show ?thesis
    by (auto simp: read_my_msgQ_noWait_def split: option.splits list.splits prod.splits sum.splits) (metis snd_conv)+
qed

section \<open>Handlers of a queue\<close>

text \<open>
  A message that does not switch debugging off for all modules: reading it changes no queue but the one it is taken from.
\<close>

definition plain_entry :: "(string \<Rightarrow> pyv res) \<Rightarrow> pyv \<Rightarrow> bool" where
  "plain_entry loads m \<longleftrightarrow> (\<forall>g. case check_debug loads m g of (Inl _, _) \<Rightarrow> True | (Inr (off, _), _) \<Rightarrow> \<not> off)"

lemma read_plain_entry:
  assumes "map_of (msgQlist q) name = Some (m # ms)" and "plain_entry loads (fst m)"
  shows "\<exists>x q'. read_my_msgQ loads name q = (Got x, q') \<and> msgQlist q' = AList.update name ms (msgQlist q)"
  using assms
  by (auto simp: read_my_msgQ_def handle_entry_def plain_entry_def bindp_def seqp_def ret_def on_dbg_def split: prod.splits sum.splits)

text \<open>
  What the loop of a message handler needs: the queues are a part of its state, and handling a message leaves the
  handler's own queue alone.
\<close>

locale queue_handler =
  fixes loads :: "string \<Rightarrow> pyv res" and name :: string and getq :: "'s \<Rightarrow> 'ev msgq" and putq :: "'ev msgq \<Rightarrow> 's \<Rightarrow> 's"
    and handle :: "pyv \<Rightarrow> ('s, unit) proc"
  assumes get_put: "getq (putq q s) = q"
    and own_queue: "map_of (msgQlist (getq (snd (handle m s)))) name = map_of (msgQlist (getq s)) name"
begin

lemma loop_ends:
  assumes "map_of (msgQlist (getq s)) name = Some ms" and "ms \<noteq> []" and "\<forall>m \<in> set ms. plain_entry loads (fst m)"
  shows "\<exists>r s'. drain_loop (length ms) loads name getq putq handle s = Some (r, s') \<and>
    (r = Inr () \<longrightarrow> map_of (msgQlist (getq s')) name = Some [])"
  using assms
proof (induction ms arbitrary: s)
  case (Cons m ms)
  obtain x e q where q: "read_my_msgQ loads name (getq s) = (Got (x, e), q)" "msgQlist q = AList.update name ms (msgQlist (getq s))"
    using read_plain_entry [OF Cons.prems(1), of loads] Cons.prems(3) by auto
  obtain r s1 where r: "(if x \<noteq> PNone then handle x else ret ()) (putq q s) = (r, s1)" by force
  have "map_of (msgQlist (getq s1)) name = Some ms"
    using r q(2) get_put [of q s] own_queue [of x "putq q s"] by (auto simp: ret_def split: if_splits)
  with q(1) r Cons.IH [of s1] Cons.prems(3) show ?case
    by (cases r; cases ms) (auto simp: is_my_msgQ_empty_def)
qed simp

end

end
