(* ===== verification/Json_Msgs.thy ===== *)
theory Json_Msgs
  imports Py_Values
begin

text \<open>
  \<^verbatim>\<open>json_msgs/messages\<close>: the JSON messages the daemon sends. The base classes add the common keys,
  normalise and validate a message; each message class builds one dictionary. The schema files
  and their validation (\<^verbatim>\<open>jsonschema\<close>), the configuration store and \<^verbatim>\<open>KvPayload\<close> are parameters
  (\<open>msg_env\<close>): \<open>sensor_schema\<close> is the exception that reading the schema raises, or the check of a
  message against it.
\<close>

record msg_env =
  sensor_schema :: "(pyv \<Rightarrow> py_exn option) res"
  actuator_schema :: "(pyv \<Rightarrow> py_exn option) res"
  kv_payload :: "pyv \<Rightarrow> string \<Rightarrow> pyv res"
  global_conf :: "string \<Rightarrow> string \<Rightarrow> pyv res"
  machine_id :: string
  fqdn :: string

section \<open>Nested assignment\<close>

fun setitem :: "pyv \<Rightarrow> string \<Rightarrow> pyv \<Rightarrow> pyv res" where
  "setitem (PDict d) k v = Inr (PDict (AList.update k v d))"
| "setitem _ k v = Inl TypeError"

text \<open>\<^verbatim>\<open>m[k1][k2]... = v\<close>.\<close>

fun set_path :: "pyv \<Rightarrow> string list \<Rightarrow> pyv \<Rightarrow> pyv res" where
  "set_path m [] v = Inr v"
| "set_path m [k] v = setitem m k v"
| "set_path m (k # k' # ks) v =
     bindr (getitem m k) (\<lambda>u. bindr (set_path u (k' # ks) v) (\<lambda>u'. setitem m k u'))"

fun get_items :: "pyv \<Rightarrow> string list \<Rightarrow> pyv res" where
  "get_items v [] = Inr v"
| "get_items v (k # ks) = bindr (getitem v k) (\<lambda>u. get_items u ks)"

section \<open>BaseMsg\<close>

definition SCHEMA_VERSION :: string where "SCHEMA_VERSION = ''1.0.0''"
definition SSPL_VERSION :: string where "SSPL_VERSION = ''2.0.0''"

definition server_node_key :: "msg_env \<Rightarrow> string \<Rightarrow> string" where
  "server_node_key env k = ''server_node>'' @ machine_id env @ ''>'' @ k"

definition info_path :: "string \<Rightarrow> string \<Rightarrow> string" where
  "info_path message_type k = ''message>'' @ message_type @ ''>info>'' @ k"

text \<open>One \<^verbatim>\<open>if payload.get(...) is None\<close> of \<^verbatim>\<open>prepare_message\<close>; the state is the message.\<close>

definition add_common :: "msg_env \<Rightarrow> pyv \<Rightarrow> string \<Rightarrow> string \<Rightarrow> pyv res \<Rightarrow> (pyv, unit) proc" where
  "add_common env payload message_type k val =
     bindp (liftp (kv_payload env payload (info_path message_type k))) (\<lambda>have.
       if have = PNone then
         bindp (liftp val) (\<lambda>v. bindp (getp (\<lambda>m. m)) (\<lambda>m.
         bindp (liftp (set_path m [''message'', message_type, ''info'', k] v)) (\<lambda>m'. modp (\<lambda>_. m'))))
       else ret ())"

text \<open>The five keys, in the order the code tests them, and what each is set to.\<close>

definition common_keys :: "msg_env \<Rightarrow> (string \<times> pyv res) list" where
  "common_keys env =
     [(''site_id'', global_conf env (server_node_key env ''site_id'') ''DEFAULT_DC01''),
      (''node_id'', global_conf env (server_node_key env ''node_id'') ''DEFAULT_SN01''),
      (''rack_id'', global_conf env (server_node_key env ''rack_id'') ''DEAFULT_RC01''),
      (''cluster_id'', global_conf env (server_node_key env ''cluster_id'') ''DEFAULT_CC01''),
      (''fru'', Inr (PStr ''false''))]"

definition prepare_message :: "msg_env \<Rightarrow> string \<Rightarrow> (pyv, unit) proc" where
  "prepare_message env message_type = tryp
     (bindp (getp (\<lambda>m. m)) (\<lambda>m.
      bindp (liftp (get_path m [''message'', message_type, ''info''])) (\<lambda>info.
        if info = PNone then ret ()
        else forp (common_keys env) (\<lambda>(k, val). add_common env m message_type k val))))
     (\<lambda>e. if e = KeyError then ret () else raise e)"

text \<open>
  \<^verbatim>\<open>normalize_kv\<close>: a dictionary is rebuilt key by key, so of two keys that become equal the later
  value stays.
\<close>

definition dict_of :: "(string \<times> pyv) list \<Rightarrow> (string \<times> pyv) list" where
  "dict_of ps = foldl (\<lambda>d (k, v). AList.update k v d) [] ps"

definition undash :: "string \<Rightarrow> string" where
  "undash k = map (\<lambda>c. if c = CHR ''-'' then CHR ''_'' else c) k"

fun msg_normalize_kv :: "pyv \<Rightarrow> pyv" where
  "msg_normalize_kv (PDict d) = PDict (dict_of (map (\<lambda>(k, v). (undash k, msg_normalize_kv v)) d))"
| "msg_normalize_kv (PList xs) = PList (map msg_normalize_kv xs)"
| "msg_normalize_kv v = (if v = PStr ''N/A'' then PStr ''NA'' else v)"

definition validateMsg :: "msg_env \<Rightarrow> string \<Rightarrow> (pyv \<Rightarrow> py_exn option) \<Rightarrow> pyv \<Rightarrow> pyv res" where
  "validateMsg env message_type check m = (case prepare_message env message_type m of
     (Inl e, _) \<Rightarrow> Inl e
   | (Inr _, m') \<Rightarrow> (case check (msg_normalize_kv m') of
       None \<Rightarrow> Inr (msg_normalize_kv m') | Some e \<Rightarrow> Inl e))"

definition sensor_validateMsg :: "msg_env \<Rightarrow> pyv \<Rightarrow> pyv res" where
  "sensor_validateMsg env m = bindr (sensor_schema env) (\<lambda>check. validateMsg env ''sensor_response_type'' check m)"

definition actuator_validateMsg :: "msg_env \<Rightarrow> pyv \<Rightarrow> pyv res" where
  "actuator_validateMsg env m =
     bindr (actuator_schema env) (\<lambda>check. validateMsg env ''actuator_response_type'' check m)"

text \<open>\<^verbatim>\<open>getJson\<close> of every sensor and of every actuator message.\<close>

definition sensor_getJson :: "msg_env \<Rightarrow> pyv \<Rightarrow> string res" where
  "sensor_getJson env m = bindr (sensor_validateMsg env m) json_dumps"

definition actuator_getJson :: "msg_env \<Rightarrow> pyv \<Rightarrow> string res" where
  "actuator_getJson env m = bindr (actuator_validateMsg env m) json_dumps"

definition set_uuid :: "pyv \<Rightarrow> pyv \<Rightarrow> pyv res" where
  "set_uuid uuid m = set_path m [''message'', ''sspl_ll_msg_header'', ''uuid''] uuid"

text \<open>A response carries the uuid of its request when that had one.\<close>

definition with_uuid :: "pyv \<Rightarrow> pyv \<Rightarrow> pyv res" where
  "with_uuid uuid m = (if uuid = PNone then Inr m else set_uuid uuid m)"

section \<open>Common parts of the dictionaries\<close>

definition sspl_ll_msg_header :: "(string \<times> pyv) list \<Rightarrow> string \<times> pyv" where
  "sspl_ll_msg_header extra = (''sspl_ll_msg_header'', PDict ([(''schema_version'', PStr SCHEMA_VERSION),
     (''sspl_version'', PStr SSPL_VERSION), (''msg_version'', PStr ''1.0.0'')] @ extra))"

definition envelope :: "string \<Rightarrow> string \<Rightarrow> (string \<times> pyv) list \<Rightarrow> pyv" where
  "envelope title description message = PDict [(''title'', PStr title), (''description'', PStr description),
     (''username'', PStr ''SSPL-LL''), (''signature'', PStr ''N/A''), (''time'', PStr ''N/A''),
     (''expires'', PInt (-1)), (''message'', PDict message)]"

definition sensor_envelope :: "(string \<times> pyv) list \<Rightarrow> pyv" where
  "sensor_envelope = envelope ''SSPL Sensor Response'' ''Seagate Storage Platform Library - Sensor Response''"

definition actuator_envelope :: "(string \<times> pyv) list \<Rightarrow> pyv" where
  "actuator_envelope = envelope ''SSPL Actuator Response'' ''Seagate Storage Platform Library - Actuator Response''"

definition get_keys :: "pyv \<Rightarrow> string list \<Rightarrow> (string \<times> pyv) list res" where
  "get_keys v ks = seq_res (map (\<lambda>k. bindr (get_key v k) (\<lambda>u. Inr (k, u))) ks)"

text \<open>The constructor fails when the schema cannot be read.\<close>

definition with_schema :: "(pyv \<Rightarrow> py_exn option) res \<Rightarrow> pyv res \<Rightarrow> pyv res" where
  "with_schema schema m = bindr schema (\<lambda>_. m)"

section \<open>Sensor messages\<close>

text \<open>
  The enclosure messages for power supplies, fans, controllers and disks build the same
  dictionary from the caller's \<^verbatim>\<open>info\<close> and \<^verbatim>\<open>specific_info\<close>.
\<close>

definition fru_alert_msg :: "pyv \<Rightarrow> pyv \<Rightarrow> pyv \<Rightarrow> pyv \<Rightarrow> pyv \<Rightarrow> pyv \<Rightarrow> pyv res" where
  "fru_alert_msg host_name alert_type alert_id severity info specific_info =
     bindr (get_keys info [''resource_type'', ''fru'', ''event_time'', ''resource_id'']) (\<lambda>i.
     bindr (get_key specific_info ''health-reason'') (\<lambda>description.
       Inr (sensor_envelope [sspl_ll_msg_header [],
         (''sensor_response_type'', PDict [(''host_id'', host_name), (''alert_type'', alert_type),
           (''alert_id'', alert_id), (''severity'', severity),
           (''info'', PDict (i @ [(''description'', description)])),
           (''specific_info'', specific_info)])])))"

definition RealStorPSUDataMsg :: "msg_env \<Rightarrow> pyv \<Rightarrow> pyv \<Rightarrow> pyv \<Rightarrow> pyv \<Rightarrow> pyv \<Rightarrow> pyv \<Rightarrow> pyv res" where
  "RealStorPSUDataMsg env host_name alert_type alert_id severity info specific_info = with_schema (sensor_schema env)
     (fru_alert_msg host_name alert_type alert_id severity info specific_info)"

definition RealStorFanDataMsg :: "msg_env \<Rightarrow> pyv \<Rightarrow> pyv \<Rightarrow> pyv \<Rightarrow> pyv \<Rightarrow> pyv \<Rightarrow> pyv \<Rightarrow> pyv res" where
  "RealStorFanDataMsg env host_name alert_type alert_id severity info specific_info = with_schema (sensor_schema env)
     (fru_alert_msg host_name alert_type alert_id severity info specific_info)"

definition RealStorControllerDataMsg :: "msg_env \<Rightarrow> pyv \<Rightarrow> pyv \<Rightarrow> pyv \<Rightarrow> pyv \<Rightarrow> pyv \<Rightarrow> pyv \<Rightarrow> pyv res" where
  "RealStorControllerDataMsg env host_name alert_type alert_id severity info specific_info =
     with_schema (sensor_schema env) (fru_alert_msg host_name alert_type alert_id severity info specific_info)"

definition RealStorDiskDataMsg :: "msg_env \<Rightarrow> pyv \<Rightarrow> pyv \<Rightarrow> pyv \<Rightarrow> pyv \<Rightarrow> pyv \<Rightarrow> pyv \<Rightarrow> pyv res" where
  "RealStorDiskDataMsg env host_name alert_type alert_id severity info specific_info =
     with_schema (sensor_schema env) (fru_alert_msg host_name alert_type alert_id severity info specific_info)"

definition RealStorSideplaneExpanderDataMsg ::
  "msg_env \<Rightarrow> pyv \<Rightarrow> pyv \<Rightarrow> pyv \<Rightarrow> pyv \<Rightarrow> pyv \<Rightarrow> pyv \<Rightarrow> pyv res" where
  "RealStorSideplaneExpanderDataMsg env host_name alert_type alert_id severity info specific_info =
     with_schema (sensor_schema env)
     (bindr (get_keys info [''resource_type'', ''fru'', ''event_time'', ''resource_id'']) (\<lambda>i.
      bindr (get_key specific_info ''health-reason'') (\<lambda>description.
        Inr (sensor_envelope [sspl_ll_msg_header [],
          (''sensor_response_type'', PDict [(''alert_type'', alert_type), (''alert_id'', alert_id),
            (''host_id'', host_name), (''severity'', severity),
            (''info'', PDict (i @ [(''description'', description)])),
            (''specific_info'', specific_info)])]))))"

text \<open>Disk groups and logical volumes are not replaceable units: no \<^verbatim>\<open>fru\<close>.\<close>

definition volume_alert_msg :: "pyv \<Rightarrow> pyv \<Rightarrow> pyv \<Rightarrow> pyv \<Rightarrow> pyv \<Rightarrow> pyv \<Rightarrow> pyv res" where
  "volume_alert_msg host_name alert_type alert_id severity info specific_info =
     bindr (get_keys info [''resource_type'', ''event_time'', ''resource_id'']) (\<lambda>i.
     bindr (get_key specific_info ''health-reason'') (\<lambda>description.
       Inr (sensor_envelope [sspl_ll_msg_header [],
         (''sensor_response_type'', PDict [(''host_id'', host_name), (''alert_type'', alert_type),
           (''alert_id'', alert_id), (''severity'', severity),
           (''info'', PDict (i @ [(''description'', description)])),
           (''specific_info'', specific_info)])])))"

definition RealStorDiskGroupDataMsg :: "msg_env \<Rightarrow> pyv \<Rightarrow> pyv \<Rightarrow> pyv \<Rightarrow> pyv \<Rightarrow> pyv \<Rightarrow> pyv \<Rightarrow> pyv res" where
  "RealStorDiskGroupDataMsg env host_name alert_type alert_id severity info specific_info =
     with_schema (sensor_schema env) (volume_alert_msg host_name alert_type alert_id severity info specific_info)"

definition RealStorLogicalVolumeDataMsg :: "msg_env \<Rightarrow> pyv \<Rightarrow> pyv \<Rightarrow> pyv \<Rightarrow> pyv \<Rightarrow> pyv \<Rightarrow> pyv \<Rightarrow> pyv res" where
  "RealStorLogicalVolumeDataMsg env host_name alert_type alert_id severity info specific_info =
     with_schema (sensor_schema env) (volume_alert_msg host_name alert_type alert_id severity info specific_info)"

definition RealStorEnclDataMsg :: "msg_env \<Rightarrow> pyv \<Rightarrow> pyv \<Rightarrow> pyv \<Rightarrow> pyv \<Rightarrow> pyv \<Rightarrow> pyv \<Rightarrow> pyv res" where
  "RealStorEnclDataMsg env host_name alert_type alert_id severity info specific_info = with_schema (sensor_schema env)
     (bindr (get_keys info [''resource_id'', ''resource_type'', ''fru'', ''event_time'']) (\<lambda>i.
      bindr (get_key specific_info ''event'') (\<lambda>description.
        Inr (sensor_envelope [sspl_ll_msg_header [],
          (''sensor_response_type'', PDict [(''host_id'', host_name), (''alert_type'', alert_type),
            (''alert_id'', alert_id), (''severity'', severity),
            (''info'', PDict (i @ [(''description'', description)])),
            (''specific_info'', specific_info)])]))))"

definition NodeHWDataMsg :: "msg_env \<Rightarrow> pyv res" where
  "NodeHWDataMsg env = with_schema (sensor_schema env) (Inr (sensor_envelope [sspl_ll_msg_header []]))"

definition NodeIPMIDataMsg :: "msg_env \<Rightarrow> pyv \<Rightarrow> pyv res" where
  "NodeIPMIDataMsg env fru = bindr (NodeHWDataMsg env) (\<lambda>m.
     bindr (get_keys fru [''host_id'', ''alert_type'', ''alert_id'', ''severity'', ''info'', ''specific_info'']) (\<lambda>d.
       set_path m [''message'', ''sensor_response_type''] (PDict d)))"

definition ServiceMonitorMsg :: "msg_env \<Rightarrow> pyv \<Rightarrow> pyv res" where
  "ServiceMonitorMsg env jsonMsg = with_schema (sensor_schema env)
     (bindr (getitem jsonMsg ''service_status_alert'') (\<lambda>alert.
        Inr (sensor_envelope [sspl_ll_msg_header [], (''sensor_response_type'', alert)])))"

text \<open>
  The two messages with a time stamp of their own; \<open>now\<close> is \<^verbatim>\<open>str(int(time.time()))\<close>, \<open>uid\<close> the
  random suffix of the alert id.
\<close>

definition stamped_envelope :: "string \<Rightarrow> (string \<times> pyv) list \<Rightarrow> pyv" where
  "stamped_envelope now message = PDict [(''username'', PStr ''SSPL-LL''),
     (''description'', PStr ''Seagate Storage Platform Library - Sensor Response''),
     (''title'', PStr ''SSPL Sensor Response''), (''expires'', PInt (-1)), (''signature'', PStr ''N/A''),
     (''time'', PStr now), (''message'', PDict message)]"

definition ThreadMonitorMsg :: "msg_env \<Rightarrow> string \<Rightarrow> string \<Rightarrow> pyv \<Rightarrow> pyv res" where
  "ThreadMonitorMsg env now alert_id info = with_schema (sensor_schema env)
     (bindr (get_key info ''module_name'') (\<lambda>module_name.
      bindr (get_keys info [''description'', ''impact'', ''recommendation'']) (\<lambda>i.
      bindr (get_keys info [''alert_type'', ''severity'', ''specific_info'']) (\<lambda>a.
        Inr (stamped_envelope now [sspl_ll_msg_header [],
          (''sensor_response_type'', PDict ([(''info'', PDict ([(''event_time'', PStr now),
             (''resource_id'', module_name), (''resource_type'', PStr ''node:sw:cortx_sw_services:sspl'')] @ i))] @ a @
             [(''alert_id'', PStr alert_id), (''host_id'', PStr (fqdn env))]))])))))"

definition IEMDataMsg :: "msg_env \<Rightarrow> string \<Rightarrow> string \<Rightarrow> pyv \<Rightarrow> pyv res" where
  "IEMDataMsg env now alert_id info = with_schema (sensor_schema env)
     (bindr (get_key info ''event_time'') (\<lambda>event_time.
      bindr (get_keys info [''description'', ''impact'', ''recommendation'']) (\<lambda>i.
      bindr (get_keys info [''alert_type'', ''severity'']) (\<lambda>a.
      bindr (seq_res (map (get_key info) [''source_id'', ''component_id'', ''module_id'', ''event_id'', ''IEC''])) (\<lambda>sp.
        Inr (stamped_envelope now [sspl_ll_msg_header [],
          (''sensor_response_type'', PDict ([(''info'', PDict ([(''event_time'', event_time),
             (''resource_id'', PStr ''iem''), (''resource_type'', PStr ''iem'')] @ i))] @ a @
             [(''specific_info'', PDict (zip [''source'', ''component'', ''module'', ''event'', ''IEC''] sp)),
              (''alert_id'', PStr alert_id), (''host_id'', PStr (fqdn env))]))]))))))"

definition RAIDdataMsg :: "msg_env \<Rightarrow> pyv \<Rightarrow> pyv \<Rightarrow> pyv \<Rightarrow> pyv \<Rightarrow> pyv \<Rightarrow> pyv \<Rightarrow> pyv res" where
  "RAIDdataMsg env host_id alert_type alert_id severity info specific_info = with_schema (sensor_schema env)
     (bindr (get_keys info [''resource_id'', ''resource_type'', ''event_time'', ''description'']) (\<lambda>i.
      bindr (get_keys specific_info [''device'', ''drives'']) (\<lambda>sp.
        Inr (sensor_envelope [sspl_ll_msg_header [],
          (''sensor_response_type'', PDict [(''host_id'', host_id), (''alert_id'', alert_id),
            (''alert_type'', alert_type), (''severity'', severity), (''info'', PDict i),
            (''specific_info'', PDict sp)])]))))"

definition RAIDIntegrityMsg :: "msg_env \<Rightarrow> pyv \<Rightarrow> pyv \<Rightarrow> pyv \<Rightarrow> pyv \<Rightarrow> pyv \<Rightarrow> pyv \<Rightarrow> pyv res" where
  "RAIDIntegrityMsg env host_id alert_type alert_id severity info specific_info = with_schema (sensor_schema env)
     (bindr (get_keys info [''resource_id'', ''resource_type'', ''event_time'']) (\<lambda>i.
      bindr (get_key specific_info ''error'') (\<lambda>error_msg.
        Inr (sensor_envelope [sspl_ll_msg_header [],
          (''sensor_response_type'', PDict [(''host_id'', host_id), (''alert_id'', alert_id),
            (''alert_type'', alert_type), (''severity'', severity),
            (''info'', PDict (i @ [(''description'', error_msg)])),
            (''specific_info'', PDict [(''error'', error_msg)])])]))))"

definition ExpanderResetMsg :: "msg_env \<Rightarrow> pyv res" where
  "ExpanderResetMsg env = with_schema (sensor_schema env)
     (Inr (sensor_envelope [sspl_ll_msg_header [],
        (''sensor_response_type'', PDict [(''expander_reset'', PDict [])])]))"

section \<open>Messages of the node data handler\<close>

text \<open>
  \<open>now\<close> is the clock reading of the constructor as text and \<open>salt\<close> the random part of the alert id. The three
  messages about the usage of a resource differ in the resource type and in \<^verbatim>\<open>specific_info\<close>.
\<close>

definition usage_severity :: "string \<Rightarrow> string" where
  "usage_severity alert_type = (if alert_type = ''fault_resolved'' then ''informational'' else ''warning'')"

definition usage_response :: "string \<Rightarrow> string \<Rightarrow> string \<Rightarrow> pyv \<Rightarrow> string \<Rightarrow> string \<Rightarrow> pydict \<Rightarrow> string \<times> pyv" where
  "usage_response now salt resource_type host_id alert_type event specific_info = (''sensor_response_type'', PDict
     [(''alert_type'', PStr alert_type), (''severity'', PStr (usage_severity alert_type)),
      (''alert_id'', PStr (get_alert_id salt now)), (''host_id'', host_id),
      (''info'', PDict [(''resource_type'', PStr resource_type), (''resource_id'', PStr ''0''), (''event_time'', PStr now),
         (''description'', PStr event)]),
      (''specific_info'', PDict specific_info)])"

definition HostUpdateMsg :: "msg_env \<Rightarrow> string \<Rightarrow> string \<Rightarrow> pyv \<Rightarrow> pyv \<Rightarrow> pyv \<Rightarrow> pyv \<Rightarrow> pyv \<Rightarrow> pyv \<Rightarrow> pyv \<Rightarrow> pyv \<Rightarrow> pyv
    \<Rightarrow> string \<Rightarrow> string \<Rightarrow> pyv res" where
  "HostUpdateMsg env now salt host_id local_time boot_time up_time uname total_memory logged_in_users process_count
       running_process_count alert_type event = with_schema (sensor_schema env)
     (Inr (stamped_envelope now [sspl_ll_msg_header [],
        usage_response now salt ''node:os:memory_usage'' host_id alert_type event
          [(''localtime'', local_time), (''bootTime'', boot_time), (''upTime'', up_time), (''uname'', uname),
           (''totalMemory'', total_memory), (''loggedInUsers'', logged_in_users), (''processCount'', process_count),
           (''runningProcessCount'', running_process_count)]]))"

definition CPUdataMsg :: "msg_env \<Rightarrow> string \<Rightarrow> string \<Rightarrow> pyv \<Rightarrow> pyv \<Rightarrow> pyv list \<Rightarrow> string \<Rightarrow> string \<Rightarrow> pyv res" where
  "CPUdataMsg env now salt host_id local_time cpu_data alert_type event = with_schema (sensor_schema env)
     (Inr (stamped_envelope now [sspl_ll_msg_header [],
        usage_response now salt ''node:os:cpu_usage'' host_id alert_type event
          (zip [''localtime'', ''csps'', ''idleTime'', ''interruptTime'', ''iowaitTime'', ''niceTime'', ''softirqTime'', ''stealTime'',
             ''systemTime'', ''userTime'', ''coreData'', ''cpu_usage''] (local_time # cpu_data))]))"

text \<open>The last two list the version of the message first in the header.\<close>

definition header_version_first :: "string \<times> pyv" where
  "header_version_first = (''sspl_ll_msg_header'', PDict [(''msg_version'', PStr ''1.0.0''),
     (''schema_version'', PStr SCHEMA_VERSION), (''sspl_version'', PStr SSPL_VERSION)])"

definition DiskSpaceAlertMsg :: "msg_env \<Rightarrow> string \<Rightarrow> string \<Rightarrow> pyv \<Rightarrow> pyv \<Rightarrow> pyv \<Rightarrow> pyv \<Rightarrow> pyv \<Rightarrow> string \<Rightarrow> string \<Rightarrow> pyv res" where
  "DiskSpaceAlertMsg env now salt host_id free_space total_space disk_used_percentage units alert_type event =
     with_schema (sensor_schema env)
     (Inr (stamped_envelope now [header_version_first,
        usage_response now salt ''node:os:disk_space'' host_id alert_type event
          [(''freeSpace'', PDict [(''value'', free_space), (''units'', units)]),
           (''totalSpace'', PDict [(''value'', total_space), (''units'', units)]),
           (''diskUsedPercentage'', disk_used_percentage)]]))"

definition IFdataMsg :: "msg_env \<Rightarrow> string \<Rightarrow> string \<Rightarrow> pyv \<Rightarrow> pyv \<Rightarrow> pyv \<Rightarrow> pyv \<Rightarrow> string \<Rightarrow> string \<Rightarrow> string \<Rightarrow> string \<Rightarrow> pyv res" where
  "IFdataMsg env now salt host_id local_time interfaces resource_id resource_type alert_type severity event =
     with_schema (sensor_schema env)
     (Inr (PDict [(''username'', PStr ''SSPL-LL''), (''expires'', PInt (-1)),
        (''description'', PStr ''Seagate Storage Platform Library - Sensor Response''), (''title'', PStr ''SSPL Sensor Response''),
        (''signature'', PStr ''N/A''), (''time'', PStr ''N/A''),
        (''message'', PDict [header_version_first,
           (''sensor_response_type'', PDict [
              (''info'', PDict [(''event_time'', PStr now), (''resource_id'', resource_id),
                 (''resource_type'', PStr resource_type), (''description'', PStr event)]),
              (''specific_info'', PDict [(''localtime'', local_time), (''interfaces'', interfaces)]),
              (''host_id'', host_id), (''alert_type'', PStr alert_type), (''severity'', PStr severity),
              (''alert_id'', PStr (get_alert_id salt now))])])]))"

definition LocalMountDataMsg :: "msg_env \<Rightarrow> pyv \<Rightarrow> pyv \<Rightarrow> pyv \<Rightarrow> pyv \<Rightarrow> pyv \<Rightarrow> pyv \<Rightarrow> pyv \<Rightarrow> pyv \<Rightarrow> pyv res" where
  "LocalMountDataMsg env host_id local_time free_space free_inodes free_swap total_space total_swap units =
     with_schema (sensor_schema env)
     (Inr (sensor_envelope [sspl_ll_msg_header [],
        (''sensor_response_type'', PDict [(''local_mount_data'', PDict [(''hostId'', host_id), (''localtime'', local_time),
           (''freeSpace'', PDict [(''value'', free_space), (''units'', units)]), (''freeInodes'', free_inodes),
           (''freeSwap'', PDict [(''value'', free_swap), (''units'', units)]),
           (''totalSpace'', PDict [(''value'', total_space), (''units'', units)]),
           (''totalSwap'', PDict [(''value'', total_swap), (''units'', units)])])])]))"

section \<open>Actuator messages\<close>

definition ThreadControllerMsg :: "msg_env \<Rightarrow> pyv \<Rightarrow> pyv \<Rightarrow> pyv \<Rightarrow> pyv res" where
  "ThreadControllerMsg env module_name thread_response ack_type = with_schema (actuator_schema env)
     (Inr (actuator_envelope [sspl_ll_msg_header [],
        (''actuator_response_type'', PDict [(''thread_controller'', PDict [(''module_name'', module_name),
           (''thread_response'', thread_response), (''ack_type'', ack_type)]), (''host_id'', PStr (fqdn env))])]))"

definition AckResponseMsg :: "msg_env \<Rightarrow> pyv \<Rightarrow> pyv \<Rightarrow> pyv \<Rightarrow> int \<Rightarrow> pyv res" where
  "AckResponseMsg env ack_type ack_msg uuid error_no = with_schema (actuator_schema env)
     (Inr (actuator_envelope [sspl_ll_msg_header [(''uuid'', uuid)],
        (''actuator_response_type'', PDict [(''ack'', PDict [(''ack_type'', ack_type), (''ack_msg'', ack_msg),
           (''error_no'', PInt error_no)])])]))"

definition ServiceControllerMsg :: "msg_env \<Rightarrow> pyv \<Rightarrow> pyv res" where
  "ServiceControllerMsg env actuator_response = with_schema (actuator_schema env)
     (bindr (get_keys actuator_response [''host_id'', ''alert_type'', ''severity'', ''info'', ''specific_info'']) (\<lambda>r.
        Inr (actuator_envelope [sspl_ll_msg_header [], (''actuator_response_type'', PDict r)])))"

definition RealStorActuatorMsg :: "msg_env \<Rightarrow> pyv \<Rightarrow> pyv \<Rightarrow> pyv res" where
  "RealStorActuatorMsg env sensor_response uuid = with_schema (actuator_schema env)
     (bindr (get_keys sensor_response [''host_id'', ''alert_type'', ''alert_id'', ''severity'']) (\<lambda>r.
      bindr (get_key sensor_response ''info'') (\<lambda>info.
      bindr (get_keys info [''resource_type'', ''fru'', ''resource_id'', ''event_time'']) (\<lambda>i.
      bindr (get_keys sensor_response [''specific_info'']) (\<lambda>sp.
        Inr (actuator_envelope [sspl_ll_msg_header [(''uuid'', uuid)],
          (''actuator_response_type'', PDict (r @ [(''info'', PDict i)] @ sp))]))))))"

definition NodeHwAckResponseMsg :: "msg_env \<Rightarrow> pyv \<Rightarrow> pyv \<Rightarrow> pyv res" where
  "NodeHwAckResponseMsg env ack_msg uuid = with_schema (actuator_schema env)
     (bindr (get_keys ack_msg [''host_id'', ''alert_type'', ''instance_id'', ''severity'']) (\<lambda>r.
      bindr (get_key ack_msg ''info'') (\<lambda>info.
      bindr (get_keys info [''resource_type'', ''fru'', ''resource_id'', ''event_time'']) (\<lambda>i.
      bindr (get_keys ack_msg [''specific_info'']) (\<lambda>sp.
        Inr (actuator_envelope [sspl_ll_msg_header [(''uuid'', uuid)],
          (''actuator_response_type'', PDict (r @ [(''info'', PDict i)] @ sp))]))))))"

section \<open>Normalised values\<close>

fun normal :: "pyv \<Rightarrow> bool" where
  "normal (PDict d) = (distinct (map fst d) \<and> (\<forall>p\<in>set d. CHR ''-'' \<notin> set (fst p) \<and> normal (snd p)))"
| "normal (PList xs) = (\<forall>x\<in>set xs. normal x)"
| "normal v = (v \<noteq> PStr ''N/A'')"

lemma dict_of_snoc: "dict_of (ps @ [(k, v)]) = AList.update k v (dict_of ps)"
  by (simp add: dict_of_def)

lemma distinct_dict_of: "distinct (map fst (dict_of ps))"
  by (induction ps rule: rev_induct) (auto simp: dict_of_snoc distinct_update, simp add: dict_of_def)

lemma set_update_subset: "set (AList.update k v d) \<subseteq> insert (k, v) (set d)"
  by (induction d) auto

lemma set_dict_of: "set (dict_of ps) \<subseteq> set ps"
proof (induction ps rule: rev_induct)
  case (snoc p ps)
  then show ?case using set_update_subset by (cases p) (fastforce simp: dict_of_snoc)
qed (simp add: dict_of_def)

lemma update_fresh: "k \<notin> fst ` set d \<Longrightarrow> AList.update k v d = d @ [(k, v)]"
  by (induction d) auto

lemma dict_of_distinct: "distinct (map fst ps) \<Longrightarrow> dict_of ps = ps"
proof (induction ps rule: rev_induct)
  case (snoc p ps)
  then show ?case by (cases p) (auto simp: dict_of_snoc update_fresh)
qed (simp add: dict_of_def)

lemma undash_free: "CHR ''-'' \<notin> set (undash k)"
  by (auto simp: undash_def)

lemma undash_id: "CHR ''-'' \<notin> set k \<Longrightarrow> undash k = k"
  by (induction k) (auto simp: undash_def)

lemma normal_normalize: "normal (msg_normalize_kv v)"
proof (induction v rule: msg_normalize_kv.induct)
  case (1 d)
  have "CHR ''-'' \<notin> set (fst p) \<and> normal (snd p)"
    if "p \<in> set (dict_of (map (\<lambda>(k, v). (undash k, msg_normalize_kv v)) d))" for p
    using subsetD [OF set_dict_of that] 1 undash_free by fastforce
  then show ?case by (simp add: distinct_dict_of)
qed auto

lemma normalize_id: "normal v \<Longrightarrow> msg_normalize_kv v = v"
proof (induction v rule: msg_normalize_kv.induct)
  case (1 d)
  have "map (\<lambda>(k, v). (undash k, msg_normalize_kv v)) d = d"
    using 1 by (intro map_idI) (auto simp: undash_id)
  with 1 show ?case by (simp add: dict_of_distinct)
qed (auto intro: map_idI)

section \<open>Nested dictionaries\<close>

lemma set_path_nested:
  "get_items m ps = Inr (PDict i) \<Longrightarrow>
    \<exists>m'. set_path m (ps @ [k]) v = Inr m' \<and> get_items m' ps = Inr (PDict (AList.update k v i))"
proof (induction ps arbitrary: m)
  case (Cons p ps)
  then obtain u d where u: "getitem m p = Inr u" "m = PDict d" "get_items u ps = Inr (PDict i)"
    by (cases m) (auto simp: bindr_eq_Inr)
  from Cons.IH [OF u(3)] obtain u' where
    u': "set_path u (ps @ [k]) v = Inr u'" "get_items u' ps = Inr (PDict (AList.update k v i))" by blast
  have "set_path m (p # ps @ [k]) v = bindr (getitem m p) (\<lambda>u. bindr (set_path u (ps @ [k]) v) (setitem m p))"
    by (cases ps) auto
  with u u' show ?case by auto
qed auto

lemma get_items_get_path: "get_items m ps = Inr u \<Longrightarrow> get_path m ps = Inr u"
proof (induction ps arbitrary: m)
  case (Cons p ps)
  then show ?case by (cases m) (auto simp: bindr_eq_Inr split: option.splits)
qed simp

lemma add_common_run:
  assumes "get_items m [''message'', t, ''info''] = Inr (PDict i)"
    and "kv_payload env m0 (info_path t k) = Inr old"
  shows "\<exists>m'. add_common env m0 t k (Inr v) m = (Inr (), m') \<and>
    get_items m' [''message'', t, ''info''] = Inr (PDict (if old = PNone then AList.update k v i else i))"
proof (cases "old = PNone")
  case True
  obtain m' where m': "set_path m ([''message'', t, ''info''] @ [k]) v = Inr m'"
      "get_items m' [''message'', t, ''info''] = Inr (PDict (AList.update k v i))"
    using set_path_nested [OF assms(1), of k v] by blast
  then have "set_path m [''message'', t, ''info'', k] v = Inr m'" by simp
  with True assms(2) m'(2) show ?thesis
    by (intro exI [of _ m']) (simp add: add_common_def py_exec del: set_path.simps get_items.simps)
next
  case False
  with assms show ?thesis by (auto simp: add_common_def py_exec simp del: get_items.simps)
qed

definition look :: "(string \<times> pyv) list \<Rightarrow> string \<Rightarrow> pyv" where
  "look i k = (case map_of i k of None \<Rightarrow> PNone | Some v \<Rightarrow> v)"

text \<open>What \<^verbatim>\<open>KvPayload(m).get\<close> answers on the keys of the info section.\<close>

definition payload_reads :: "msg_env \<Rightarrow> pyv \<Rightarrow> string \<Rightarrow> (string \<times> pyv) list \<Rightarrow> bool" where
  "payload_reads env m t i \<longleftrightarrow> (\<forall>k. kv_payload env m (info_path t k) = Inr (look i k))"

lemma common_loop:
  assumes "payload_reads env m0 t i0"
  shows "distinct (map fst ks) \<Longrightarrow> \<forall>p\<in>set ks. \<exists>v. snd p = Inr v \<Longrightarrow>
    get_items m [''message'', t, ''info''] = Inr (PDict i) \<Longrightarrow>
    \<exists>m' i'. forp ks (\<lambda>(k, val). add_common env m0 t k val) m = (Inr (), m') \<and>
      get_items m' [''message'', t, ''info''] = Inr (PDict i') \<and>
      (\<forall>k. map_of i' k = (if k \<in> fst ` set ks \<and> look i0 k = PNone
        then Some (projr (the (map_of ks k))) else map_of i k))"
proof (induction ks arbitrary: m i)
  case (Cons p ks)
  obtain k v where p: "p = (k, Inr v)" using Cons.prems(2) by (cases p) auto
  let ?i = "if look i0 k = PNone then AList.update k v i else i"
  obtain m1 where m1: "add_common env m0 t k (Inr v) m = (Inr (), m1)"
      "get_items m1 [''message'', t, ''info''] = Inr (PDict ?i)"
    using add_common_run [OF Cons.prems(3), of env m0 k "look i0 k" v] assms unfolding payload_reads_def by blast
  from Cons.IH [OF _ _ m1(2)] Cons.prems obtain m' i' where
    "forp ks (\<lambda>(k, val). add_common env m0 t k val) m1 = (Inr (), m')"
    "get_items m' [''message'', t, ''info''] = Inr (PDict i')"
    "\<forall>k. map_of i' k = (if k \<in> fst ` set ks \<and> look i0 k = PNone
        then Some (projr (the (map_of ks k))) else map_of ?i k)"
    by (auto simp del: get_items.simps)
  with m1(1) p Cons.prems(1) show ?case
    by (intro exI [of _ m'] exI [of _ i']) (auto simp: seqp_def simp del: get_items.simps)
qed (simp add: ret_def)

lemma common_names: "map fst (common_keys env) = [''site_id'', ''node_id'', ''rack_id'', ''cluster_id'', ''fru'']"
  by (simp add: common_keys_def)

lemma prepare_run:
  assumes info: "get_items m [''message'', t, ''info''] = Inr (PDict i)" and pay: "payload_reads env m t i"
    and conf: "\<forall>k d. \<exists>v. global_conf env k d = Inr v"
  shows "\<exists>m' i'. prepare_message env t m = (Inr (), m') \<and> get_items m' [''message'', t, ''info''] = Inr (PDict i') \<and>
    (\<forall>k. map_of i' k = (if k \<in> fst ` set (common_keys env) \<and> look i k = PNone
        then Some (projr (the (map_of (common_keys env) k))) else map_of i k))"
proof -
  have vals: "\<forall>p\<in>set (common_keys env). \<exists>v. snd p = Inr v" using conf by (auto simp: common_keys_def)
  have "distinct (map fst (common_keys env))" unfolding common_names by simp
  from common_loop [OF pay this vals info] obtain m' i' where r:
    "forp (common_keys env) (\<lambda>(k, val). add_common env m t k val) m = (Inr (), m')"
    "get_items m' [''message'', t, ''info''] = Inr (PDict i')"
    "\<forall>k. map_of i' k = (if k \<in> fst ` set (common_keys env) \<and> look i k = PNone
        then Some (projr (the (map_of (common_keys env) k))) else map_of i k)"
    by blast
  have "prepare_message env t m = (Inr (), m')"
    using r(1) get_items_get_path [OF info]
    by (simp add: prepare_message_def tryp_def bindp_def getp_def liftp_def del: get_path.simps)
  with r show ?thesis by blast
qed

section \<open>Messages that are sure to be sent\<close>

text \<open>
  The parameters answer every question, with values that can be dumped, and the schemas accept
  every message: then each message with an info section becomes a JSON text.
\<close>

definition msg_env_ok :: "msg_env \<Rightarrow> bool" where
  "msg_env_ok env \<longleftrightarrow> sensor_schema env = Inr (\<lambda>_. None) \<and> actuator_schema env = Inr (\<lambda>_. None) \<and>
     (\<forall>m p. \<exists>v. kv_payload env m p = Inr v) \<and> (\<forall>k d. \<exists>v. global_conf env k d = Inr v \<and> json_able v)"

lemma json_able_set_path:
  "set_path m ks v = Inr m' \<Longrightarrow> json_able m \<Longrightarrow> json_able v \<Longrightarrow> json_able m'"
proof (induction m ks v arbitrary: m' rule: set_path.induct)
  case (2 m k v)
  then show ?case using set_update_subset by (cases m) fastforce+
next
  case (3 m k k' ks v)
  then obtain u u' d where u: "getitem m k = Inr u" "set_path u (k' # ks) v = Inr u'" "setitem m k u' = Inr m'" "m = PDict d"
    by (cases m) (auto simp: bindr_eq_Inr)
  then have "json_able u" using 3(3) by (fastforce split: option.splits dest: map_of_SomeD)
  then have "json_able u'" using 3(1) u 3(4) by blast
  then show ?case using u(3,4) 3(3) set_update_subset by fastforce
qed auto

lemma get_keys_PDict: "get_keys (PDict d) ks = Inr (map (\<lambda>k. (k, look d k)) ks)"
  by (induction ks) (simp_all add: get_keys_def look_def)

lemma json_able_look: "json_able (PDict d) \<Longrightarrow> json_able (look d k)"
  by (auto simp: look_def split: option.splits dest!: map_of_SomeD bspec)

lemma json_able_normalize: "json_able v \<Longrightarrow> json_able (msg_normalize_kv v)"
proof (induction v rule: msg_normalize_kv.induct)
  case (1 d)
  have "json_able (snd p)" if "p \<in> set (dict_of (map (\<lambda>(k, v). (undash k, msg_normalize_kv v)) d))" for p
    using subsetD [OF set_dict_of that] 1 by fastforce
  then show ?case by simp
qed auto

lemma common_loop_total:
  assumes env: "msg_env_ok env"
  shows "\<forall>p\<in>set ks. \<exists>v. snd p = Inr v \<and> json_able v \<Longrightarrow> json_able m \<Longrightarrow>
    get_items m [''message'', t, ''info''] = Inr (PDict i) \<Longrightarrow>
    \<exists>m'. forp ks (\<lambda>(k, val). add_common env m0 t k val) m = (Inr (), m') \<and> json_able m'"
proof (induction ks arbitrary: m i)
  case (Cons p ks)
  obtain k v where p: "p = (k, Inr v)" "json_able v" using Cons.prems(1) by (cases p) auto
  obtain old where old: "kv_payload env m0 (info_path t k) = Inr old" using env unfolding msg_env_ok_def by blast
  obtain m1 where m1: "add_common env m0 t k (Inr v) m = (Inr (), m1)"
      "get_items m1 [''message'', t, ''info''] = Inr (PDict (if old = PNone then AList.update k v i else i))"
    using add_common_run [OF Cons.prems(3) old] by blast
  have "json_able m1"
    using m1(1) Cons.prems(2) p(2) old json_able_set_path
    by (auto simp: add_common_def py_exec simp del: set_path.simps split: if_splits sum.splits)
  from Cons.IH [OF _ this m1(2)] Cons.prems(1) m1(1) p(1) show ?case by (auto simp: seqp_def)
qed (simp add: ret_def)

lemma validateMsg_total:
  assumes env: "msg_env_ok env" and info: "get_items m [''message'', t, ''info''] = Inr (PDict i)" and "json_able m"
  shows "\<exists>m'. validateMsg env t (\<lambda>_. None) m = Inr m' \<and> json_able m'"
proof -
  have "\<forall>p\<in>set (common_keys env). \<exists>v. snd p = Inr v \<and> json_able v"
    using env by (auto simp: common_keys_def msg_env_ok_def)
  from common_loop_total [OF env this assms(3) info] obtain m1 where
    "forp (common_keys env) (\<lambda>(k, val). add_common env m t k val) m = (Inr (), m1)" "json_able m1" by blast
  then have "prepare_message env t m = (Inr (), m1)" "json_able m1"
    using get_items_get_path [OF info]
    by (simp_all add: prepare_message_def tryp_def bindp_def getp_def liftp_def del: get_path.simps)
  then show ?thesis by (simp add: validateMsg_def json_able_normalize)
qed

lemma sensor_getJson_total:
  assumes "msg_env_ok env" and "get_items m [''message'', ''sensor_response_type'', ''info''] = Inr (PDict i)"
    and "json_able m"
  shows "\<exists>j. sensor_getJson env m = Inr j"
proof -
  have "sensor_schema env = Inr (\<lambda>_. None)" using assms(1) by (simp add: msg_env_ok_def)
  with validateMsg_total [OF assms] json_dumps_ok show ?thesis
    by (fastforce simp: sensor_getJson_def sensor_validateMsg_def)
qed

lemma actuator_getJson_total:
  assumes "msg_env_ok env" and "get_items m [''message'', ''actuator_response_type'', ''info''] = Inr (PDict i)" and "json_able m"
  shows "\<exists>j. actuator_getJson env m = Inr j"
proof -
  have "actuator_schema env = Inr (\<lambda>_. None)" using assms(1) by (simp add: msg_env_ok_def)
  with validateMsg_total [OF assms] json_dumps_ok show ?thesis
    by (fastforce simp: actuator_getJson_def actuator_validateMsg_def)
qed

text \<open>A message is a dictionary, so its text is not empty.\<close>

definition a_dict :: "pyv \<Rightarrow> bool" where
  "a_dict v \<longleftrightarrow> (\<exists>d. v = PDict d)"

lemma set_path_dict: "set_path m (k # ks) v = Inr m' \<Longrightarrow> a_dict m'"
  by (cases m; cases ks) (auto simp: a_dict_def bindr_eq_Inr)

lemma keeps_dict_add: "keeps a_dict (add_common env m t k val)"
  by (auto simp: keeps_def add_common_def bindp_def liftp_def getp_def modp_def ret_def dest: set_path_dict simp del: set_path.simps split: sum.splits)

lemma keeps_dict_prepare: "keeps a_dict (prepare_message env t)"
  unfolding prepare_message_def by (auto intro!: keeps_rules keeps_dict_add)

lemma sensor_getJson_text:
  assumes "sensor_getJson env m = Inr t" and "a_dict m"
  shows "t \<noteq> []"
proof -
  obtain m1 where "json_dumps (msg_normalize_kv m1) = Inr t" "a_dict m1"
    using assms keepsD [OF keeps_dict_prepare, of m env "''sensor_response_type''"]
    by (cases "prepare_message env ''sensor_response_type'' m"; cases "fst (prepare_message env ''sensor_response_type'' m)")
      (auto simp: sensor_getJson_def sensor_validateMsg_def validateMsg_def bindr_eq_Inr split: sum.splits option.splits)
  then show ?thesis by (auto simp: a_dict_def bindr_eq_Inr)
qed

section \<open>Properties\<close>

text \<open>
  C32. Normalisation: in the dictionary that \<^verbatim>\<open>normalize_kv\<close> returns no key holds a hyphen, the
  keys of each dictionary are distinct and no value is \<^verbatim>\<open>"N/A"\<close>; normalising it again changes
  nothing.
\<close>

theorem normalize_kv_normal:
  "normal (msg_normalize_kv v) \<and> msg_normalize_kv (msg_normalize_kv v) = msg_normalize_kv v"
  by (simp add: normal_normalize normalize_id)

text \<open>
  \<^verbatim>\<open>prepare_message\<close> completes the info section of a message: each of site, node, rack,
  cluster and \<^verbatim>\<open>fru\<close> that was missing or \<^verbatim>\<open>None\<close> gets its configured value (\<^verbatim>\<open>fru\<close>:
  \<^verbatim>\<open>"false"\<close>); every other key, and those already set, keep their value.
\<close>

lemma prepare_message_completes_info:
  assumes "get_items m [''message'', t, ''info''] = Inr (PDict i)" and "payload_reads env m t i"
    and "\<forall>k d. \<exists>v. global_conf env k d = Inr v"
  shows "\<exists>m' i'. prepare_message env t m = (Inr (), m') \<and> get_items m' [''message'', t, ''info''] = Inr (PDict i') \<and>
    (\<forall>k. look i k \<noteq> PNone \<or> k \<notin> {''site_id'', ''node_id'', ''rack_id'', ''cluster_id'', ''fru''} \<longrightarrow>
       map_of i' k = map_of i k) \<and>
    (look i ''fru'' = PNone \<longrightarrow> look i' ''fru'' = PStr ''false'') \<and>
    (\<forall>k\<in>{''site_id'', ''node_id'', ''rack_id'', ''cluster_id''}. look i k = PNone \<longrightarrow>
       (\<exists>d. Inr (look i' k) = global_conf env (server_node_key env k) d))"
proof -
  obtain m' i' where r: "prepare_message env t m = (Inr (), m')"
      "get_items m' [''message'', t, ''info''] = Inr (PDict i')"
      "\<forall>k. map_of i' k = (if k \<in> set (map fst (common_keys env)) \<and> look i k = PNone
        then Some (projr (the (map_of (common_keys env) k))) else map_of i k)"
    using prepare_run [OF assms] by (auto simp del: get_items.simps)
  have conf: "Inr (projr (global_conf env k d)) = global_conf env k d" for k d
    using assms(3) by (metis sum.sel(2))
  have set: "look i' k = projr (the (map_of (common_keys env) k))"
    if "look i k = PNone" "k \<in> {''site_id'', ''node_id'', ''rack_id'', ''cluster_id'', ''fru''}" for k
    using r(3) that unfolding common_names by (simp add: look_def)
  have keep: "k \<notin> {''site_id'', ''node_id'', ''rack_id'', ''cluster_id'', ''fru''} \<or> look i k \<noteq> PNone \<Longrightarrow>
      map_of i' k = map_of i k" for k
    using r(3) unfolding common_names by auto
  have fru: "look i ''fru'' = PNone \<Longrightarrow> look i' ''fru'' = PStr ''false''"
    using set [of "''fru''"] by (simp add: common_keys_def)
  have ids: "\<exists>d. Inr (look i' k) = global_conf env (server_node_key env k) d"
    if none: "look i k = PNone" and mem: "k \<in> {''site_id'', ''node_id'', ''rack_id'', ''cluster_id''}" for k
  proof -
    obtain d where "map_of (common_keys env) k = Some (global_conf env (server_node_key env k) d)"
      using mem by (auto simp: common_keys_def)
    with set [OF none] mem conf show ?thesis by auto
  qed
  show ?thesis
    by (intro exI [of _ m'] exI [of _ i'] conjI allI impI ballI)
      (rule r(1), rule r(2), rule keep, blast, erule fru, erule (1) ids)
qed

definition demo_msg_env :: msg_env where
  "demo_msg_env = \<lparr>sensor_schema = Inr (\<lambda>_. None), actuator_schema = Inr (\<lambda>_. None),
     kv_payload = (\<lambda>m p. case get_items m [''message'', ''sensor_response_type'', ''info''] of
       Inr (PDict i) \<Rightarrow> Inr (look i (drop (length (info_path ''sensor_response_type'' [])) p)) | _ \<Rightarrow> Inr PNone),
     global_conf = (\<lambda>k d. Inr (PStr d)), machine_id = ''m1'', fqdn = ''host''\<rparr>"

definition demo_sensor_msg :: pyv where
  "demo_sensor_msg = PDict [(''message'', PDict [(''sensor_response_type'',
     PDict [(''info'', PDict [(''node_id'', PStr ''SN09'')])])])]"

lemma prepare_message_completes_info_witness:
  "\<exists>m' i'. prepare_message demo_msg_env ''sensor_response_type'' demo_sensor_msg = (Inr (), m') \<and>
    get_items m' [''message'', ''sensor_response_type'', ''info''] = Inr (PDict i') \<and>
    map_of i' ''node_id'' = Some (PStr ''SN09'') \<and> look i' ''fru'' = PStr ''false''"
proof -
  let ?i = "[(''node_id'', PStr ''SN09'')]"
  have info: "get_items demo_sensor_msg [''message'', ''sensor_response_type'', ''info''] = Inr (PDict ?i)"
    by (simp add: demo_sensor_msg_def)
  have "payload_reads demo_msg_env demo_sensor_msg ''sensor_response_type'' ?i"
    by (simp add: payload_reads_def demo_msg_env_def demo_sensor_msg_def info_path_def)
  moreover have "\<forall>k d. \<exists>v. global_conf demo_msg_env k d = Inr v" by (simp add: demo_msg_env_def)
  moreover have "look ?i ''fru'' = PNone" "look ?i ''node_id'' = PStr ''SN09''" by (simp_all add: look_def)
  ultimately show ?thesis
    using prepare_message_completes_info [OF info, of demo_msg_env] by (fastforce simp del: get_items.simps)
qed

lemma demo_msg_env_ok: "msg_env_ok demo_msg_env"
  by (auto simp: msg_env_ok_def demo_msg_env_def split: sum.splits pyv.splits)

end
