(* ===== verification/Egress.thy ===== *)
theory Egress
  imports Iem Internal_MsgQ Json_Msgs
begin

text \<open>
  \<^verbatim>\<open>framework/messaging/egress_processor.py\<close> and \<^verbatim>\<open>egress_accumulated_msgs_processor.py\<close>: the
  two threads that hand messages to the message bus. The first takes messages from its
  internal queue, signs them and publishes them, or appends alerts to the store queue when
  the bus is not available or older alerts are still waiting; the second retries the store
  queue. Both work on the same store. The message bus, the IEM framework, the signing library
  and \<^verbatim>\<open>json.loads\<close> are parameters (\<open>egress_env\<close>); what the bus answers may change from attempt
  to attempt, so it is a function of the number of attempts so far.
\<close>

record egress_env =
  bus_send :: "nat \<Rightarrow> string \<Rightarrow> py_exn option"
  bus_create :: "nat \<Rightarrow> bool"
  iem_answer :: "nat \<Rightarrow> iem_env"
  clock :: "nat \<Rightarrow> int"
  json_loads :: "string \<Rightarrow> pyv res"
  use_security_lib :: bool
  sign_message :: "pyv \<Rightarrow> string"
  signature_user :: string
  signature_expires :: string
  eg_depth :: nat
  eg_limit :: int

record egress =
  eg_fs :: fs
  eg_bus :: "string list"
  eg_iems :: "iem_event list"
  eg_producer :: bool
  eg_attempts :: nat
  eg_events :: "nat list"
  request_shutdown :: bool
  eg_running :: bool
  eg_msgq :: "nat msgq"
  eg_sched :: "nat list"

definition on_eg_fs :: "(fs, 'a) proc \<Rightarrow> (egress, 'a) proc" where
  "on_eg_fs m s = (case m (eg_fs s) of (r, f) \<Rightarrow> (r, s\<lparr>eg_fs := f\<rparr>))"

section \<open>EgressProcessor\<close>

text \<open>\<^verbatim>\<open>create_MsgProducer_obj\<close>: the attempt is counted; a failure leaves no producer.\<close>

definition create_MsgProducer_obj :: "egress_env \<Rightarrow> (egress, unit) proc" where
  "create_MsgProducer_obj env = modp (\<lambda>s. s\<lparr>eg_producer := bus_create env (eg_attempts s),
     eg_attempts := Suc (eg_attempts s)\<rparr>)"

text \<open>\<^verbatim>\<open>initialize\<close> of the two threads; the second waits until the first has set \<^verbatim>\<open>producer_initialized\<close>.\<close>

definition egress_initialize :: "egress_env \<Rightarrow> (egress, unit) proc" where
  "egress_initialize env =
     seqp (modp (\<lambda>s. s\<lparr>eg_sched := eg_sched s @ [1], eg_fs := sq_init (eg_fs s), request_shutdown := False\<rparr>))
          (create_MsgProducer_obj env)"

definition acc_initialize :: "egress_env \<Rightarrow> bool \<Rightarrow> egress \<Rightarrow> egress option" where
  "acc_initialize env producer_initialized s =
     (if producer_initialized
      then Some (snd (create_MsgProducer_obj env (s\<lparr>eg_sched := eg_sched s @ [1], eg_fs := sq_init (eg_fs s)\<rparr>)))
      else None)"

definition producer_send :: "egress_env \<Rightarrow> string \<Rightarrow> (egress, unit) proc" where
  "producer_send env msg s =
     (let s' = s\<lparr>eg_attempts := Suc (eg_attempts s)\<rparr> in
      case bus_send env (eg_attempts s) msg of
        None \<Rightarrow> (Inr (), s'\<lparr>eg_bus := eg_bus s @ [msg]\<rparr>) | Some e \<Rightarrow> (Inl e, s'))"

definition add_signature :: "egress_env \<Rightarrow> int \<Rightarrow> pyv \<Rightarrow> pyv res" where
  "add_signature env now jsonMsg =
     bindr (setitem jsonMsg ''username'' (PStr (signature_user env))) (\<lambda>m1.
     bindr (py_int (signature_expires env)) (\<lambda>expires.
     bindr (setitem m1 ''expires'' (PInt expires)) (\<lambda>m2.
     bindr (setitem m2 ''time'' (PStr (str_int now))) (\<lambda>m3.
     setitem m3 ''signature'' (PStr (if use_security_lib env then sign_message env m3
       else ''SecurityLibNotInstalled''))))))"

text \<open>The two conditions on the message: the global shutdown notice, and an acknowledgement.\<close>

definition response_of :: "pyv \<Rightarrow> pyv res" where
  "response_of jsonMsg = get_path jsonMsg [''message'', ''actuator_response_type'']"

definition is_shutdown_msg :: "pyv \<Rightarrow> bool res" where
  "is_shutdown_msg jsonMsg = bindr (response_of jsonMsg) (\<lambda>resp.
     if resp = PNone then Inr False
     else bindr (get_key resp ''thread_controller'') (\<lambda>tc.
       if tc = PNone then Inr False
       else bindr (get_key tc ''thread_response'') (\<lambda>r. Inr (r = PStr ''SSPL-LL is shutting down''))))"

definition is_ack_msg :: "pyv \<Rightarrow> bool res" where
  "is_ack_msg jsonMsg = bindr (response_of jsonMsg) (\<lambda>resp.
     if resp = PNone then Inr False
     else bindr (get_key resp ''ack'') (\<lambda>ack.
       if ack \<noteq> PNone then Inr True
       else bindr (get_key resp ''thread_controller'') (\<lambda>tc. Inr (tc \<noteq> PNone))))"

definition store_queue_put :: "egress_env \<Rightarrow> string \<Rightarrow> (egress, unit) proc" where
  "store_queue_put env msg = on_eg_fs (sq_put (eg_depth env) (eg_limit env) msg)"

text \<open>The alert branch of \<^verbatim>\<open>_transmit_msg_on_exchange\<close>, with its own two handlers.\<close>

definition publish_alert :: "egress_env \<Rightarrow> string \<Rightarrow> (egress, unit) proc" where
  "publish_alert env jsonMsg = tryp
     (bindp (on_eg_fs sq_is_empty) (\<lambda>empty.
       if empty then
         bindp (getp eg_producer) (\<lambda>have.
           if have then producer_send env jsonMsg
           else seqp (store_queue_put env jsonMsg) (create_MsgProducer_obj env))
       else store_queue_put env jsonMsg))
     (\<lambda>_. store_queue_put env jsonMsg)"

definition publish_ack :: "egress_env \<Rightarrow> pyv \<Rightarrow> (egress, unit) proc" where
  "publish_ack env signed = bindp (getp eg_producer) (\<lambda>have.
     if have then bindp (liftp (json_dumps signed)) (producer_send env)
     else create_MsgProducer_obj env)"

definition transmit_msg_on_exchange :: "egress_env \<Rightarrow> int \<Rightarrow> pyv \<Rightarrow> nat option \<Rightarrow> (egress, unit) proc" where
  "transmit_msg_on_exchange env now jsonMsg event = swallow (
     bindp (liftp (is_shutdown_msg jsonMsg)) (\<lambda>down.
     seqp (if down then modp (\<lambda>s. s\<lparr>request_shutdown := True\<rparr>) else ret ())
     (bindp (liftp (is_ack_msg jsonMsg)) (\<lambda>ack.
     bindp (liftp (add_signature env now jsonMsg)) (\<lambda>signed.
     seqp (if ack then publish_ack env signed
           else bindp (liftp (json_dumps signed)) (publish_alert env))
     (case event of None \<Rightarrow> ret ()
      | Some e \<Rightarrow> modp (\<lambda>s. s\<lparr>eg_events := e # eg_events s\<rparr>)))))))"

definition EgressProcessor_name :: string where
  "EgressProcessor_name = ''EgressProcessor''"

text \<open>
  The loop of \<^verbatim>\<open>run\<close>: reads until the queue is empty. \<open>None\<close> when the fuel ends.
\<close>

primrec egress_loop :: "nat \<Rightarrow> egress_env \<Rightarrow> int \<Rightarrow> egress \<Rightarrow> egress option" where
  "egress_loop 0 env now s = None"
| "egress_loop (Suc n) env now s = (case is_my_msgQ_empty EgressProcessor_name (eg_msgq s) of
     (Inl _, _) \<Rightarrow> Some s
   | (Inr True, _) \<Rightarrow> Some s
   | (Inr False, _) \<Rightarrow>
       (case read_my_msgQ (json_loads env) EgressProcessor_name (eg_msgq s) of
          (Blocked, _) \<Rightarrow> None
        | (Got (jsonMsg, event), q) \<Rightarrow>
            egress_loop n env now
              (if jsonMsg = PNone then s\<lparr>eg_msgq := q\<rparr>
               else snd (transmit_msg_on_exchange env now jsonMsg event (s\<lparr>eg_msgq := q\<rparr>)))))"

definition egress_shutdown :: "egress \<Rightarrow> egress" where
  "egress_shutdown s = s\<lparr>eg_running := False, eg_sched := eg_sched s @ [10]\<rparr>"

definition egress_run :: "nat \<Rightarrow> egress_env \<Rightarrow> int \<Rightarrow> egress \<Rightarrow> egress option" where
  "egress_run fuel env now s = map_option
     (\<lambda>s'. if request_shutdown s' then egress_shutdown s' else s'\<lparr>eg_sched := eg_sched s' @ [1]\<rparr>)
     (egress_loop fuel env now s)"

section \<open>EgressAccumulatedMsgsProcessor\<close>

definition MSG_TIMEOUT :: int where
  "MSG_TIMEOUT = 300"

text \<open>\<^verbatim>\<open>int(v)\<close>.\<close>

fun int_of_value :: "pyv \<Rightarrow> int res" where
  "int_of_value (PInt i) = Inr i"
| "int_of_value (PBool b) = Inr (if b then 1 else 0)"
| "int_of_value (PStr s) = py_int s"
| "int_of_value (PBytes s) = py_int s"
| "int_of_value _ = Inl TypeError"

text \<open>Whether a response is older than the timeout; the loop then goes on without deleting it.\<close>

definition timed_out :: "int \<Rightarrow> pyv \<Rightarrow> bool res" where
  "timed_out now dict_msg = bindr (getitem dict_msg ''message'') (\<lambda>m.
     bindr (py_in (PStr ''actuator_response_type'') m) (\<lambda>is_resp.
       if is_resp then
         bindr (get_items m [''actuator_response_type'', ''info'', ''event_time'']) (\<lambda>t.
         bindr (int_of_value t) (\<lambda>event_time. Inr (MSG_TIMEOUT < now - event_time)))
       else bindr (py_in (PStr ''sensor_response_type'') m) (\<lambda>_. Inr False)))"

fun as_text :: "pyv \<Rightarrow> string res" where
  "as_text (PStr s) = Inr s"
| "as_text (PBytes s) = Inr s"
| "as_text _ = Inl TypeError"

definition on_iem :: "(iem_state, 'a) proc \<Rightarrow> (egress, 'a) proc" where
  "on_iem m s = (case m \<lparr>ifs = eg_fs s, fault_iems = [], sent_iems = eg_iems s\<rparr> of
     (r, i) \<Rightarrow> (r, s\<lparr>eg_fs := ifs i, eg_iems := sent_iems i\<rparr>))"

definition event_of_fields :: "pyv \<Rightarrow> iem_event res" where
  "event_of_fields d = bindr (getitem d ''module'') (\<lambda>m. bindr (getitem d ''event_code'') (\<lambda>c.
     bindr (getitem d ''severity'') (\<lambda>sv. bindr (getitem d ''description'') (\<lambda>ds.
     bindr (as_text m) (\<lambda>m. bindr (as_text c) (\<lambda>c. bindr (as_text sv) (\<lambda>sv. bindr (as_text ds) (\<lambda>ds.
       Inr \<lparr>iem_module = m, iem_code = c, iem_severity = sv, iem_description = ds\<rparr>))))))))"

text \<open>Resending one accumulated IEM: an exception is only logged, the message stays queued.\<close>

definition resend_iem :: "egress_env \<Rightarrow> pyv \<Rightarrow> (egress, unit) proc" where
  "resend_iem env iem_fields = swallow (
     bindp (liftp (event_of_fields iem_fields)) (\<lambda>e.
     bindp (getp eg_attempts) (\<lambda>n.
     seqp (modp (\<lambda>s. s\<lparr>eg_attempts := Suc n\<rparr>))
     (seqp (on_iem (raise_iem_event (iem_answer env n) e)) (on_eg_fs sq_delete)))))"

definition resend_message :: "egress_env \<Rightarrow> string \<Rightarrow> (egress, unit) proc" where
  "resend_message env message = bindp (getp eg_producer) (\<lambda>have.
     if have then seqp (producer_send env message) (on_eg_fs sq_delete)
     else create_MsgProducer_obj env)"

text \<open>One turn of the loop, on a queue that is not empty.\<close>

definition acc_turn :: "egress_env \<Rightarrow> int \<Rightarrow> (egress, unit) proc" where
  "acc_turn env now =
     bindp (on_eg_fs sq_get) (\<lambda>item.
     bindp (liftp (as_text item)) (\<lambda>message.
     bindp (liftp (json_loads env message)) (\<lambda>dict_msg.
     bindp (liftp (get_key dict_msg ''iem'')) (\<lambda>iem.
       if truthy iem then resend_iem env iem
       else bindp (liftp (timed_out now dict_msg)) (\<lambda>old.
         if old then ret () else resend_message env message)))))"

text \<open>
  The loop: it ends when the queue is empty or a turn raises, \<open>None\<close> when the fuel ends. \<open>k\<close>
  counts the turns and is what the clock is read with. The test before the loop repeats the
  loop's own first test.
\<close>

primrec acc_loop :: "nat \<Rightarrow> nat \<Rightarrow> egress_env \<Rightarrow> egress \<Rightarrow> egress option" where
  "acc_loop 0 k env s = None"
| "acc_loop (Suc n) k env s = (case on_eg_fs sq_is_empty s of
     (Inl _, s') \<Rightarrow> Some s'
   | (Inr True, s') \<Rightarrow> Some s'
   | (Inr False, s') \<Rightarrow>
       (case acc_turn env (clock env k) s' of
          (Inl _, s'') \<Rightarrow> Some s''
        | (Inr _, s'') \<Rightarrow> acc_loop n (Suc k) env s''))"

text \<open>
  \<^verbatim>\<open>shutdown\<close> ends with \<^verbatim>\<open>self._connection.cleanup()\<close>; no code assigns \<^verbatim>\<open>_connection\<close>.
\<close>

definition acc_shutdown :: "(egress, unit) proc" where
  "acc_shutdown = seqp (modp egress_shutdown) (raise AttributeError)"

text \<open>What \<^verbatim>\<open>run\<close> does first with a message in its internal queue, outside any \<^verbatim>\<open>try\<close>.\<close>

definition acc_control :: "egress_env \<Rightarrow> (egress, unit) proc" where
  "acc_control env s = (case is_my_msgQ_empty ''EgressAccumulatedMsgsProcessor'' (eg_msgq s) of
     (Inl e, _) \<Rightarrow> (Inl e, s)
   | (Inr True, _) \<Rightarrow> (Inr (), s)
   | (Inr False, _) \<Rightarrow>
       (case read_my_msgQ (json_loads env) ''EgressAccumulatedMsgsProcessor'' (eg_msgq s) of
          (Blocked, _) \<Rightarrow> (Inr (), s)
        | (Got (jsonMsg, _), q) \<Rightarrow>
            bindp (liftp (is_shutdown_msg jsonMsg)) (\<lambda>down. if down then acc_shutdown else ret ())
              (s\<lparr>eg_msgq := q\<rparr>)))"

definition acc_run :: "nat \<Rightarrow> egress_env \<Rightarrow> egress \<Rightarrow> (unit res \<times> egress) option" where
  "acc_run fuel env s = (case acc_control env s of
     (Inl e, s') \<Rightarrow> Some (Inl e, s')
   | (Inr _, s') \<Rightarrow> map_option (\<lambda>s''. (Inr (), s''\<lparr>eg_sched := eg_sched s'' @ [30]\<rparr>)) (acc_loop fuel 0 env s'))"

section \<open>The alert path\<close>

lemma on_eg_fs_run: "m (eg_fs s) = (r, f) \<Longrightarrow> on_eg_fs m s = (r, s\<lparr>eg_fs := f\<rparr>)"
  by (simp add: on_eg_fs_def)

lemma store_queue_put_run:
  assumes "sq_repr (eg_fs s) q" and "sq_room (eg_depth env) (eg_limit env) (sq_usage (eg_fs s)) x"
  shows "\<exists>f. store_queue_put env x s = (Inr (), s\<lparr>eg_fs := f\<rparr>) \<and> sq_repr f (q @ [x])"
proof -
  obtain f where "sq_put (eg_depth env) (eg_limit env) x (eg_fs s) = (Inr (), f)" "sq_repr f (q @ [x])"
    using sq_repr_put [OF assms] by blast
  then show ?thesis by (auto simp: store_queue_put_def on_eg_fs_run)
qed

lemma on_eg_is_empty:
  assumes "sq_repr (eg_fs s) q"
  shows "\<exists>f. on_eg_fs sq_is_empty s = (Inr (q = []), s\<lparr>eg_fs := f\<rparr>) \<and> sq_repr f q \<and>
     sq_usage f \<le> sq_usage (eg_fs s)"
proof -
  from assms obtain h t c where st: "sq_state (eg_fs s) h t c q" and u: "usage_ok c q"
    by (auto simp: sq_repr_def)
  obtain f where f: "sq_is_empty (eg_fs s) = (Inr (q = []), f)" "sq_repr f q" "q \<noteq> [] \<longrightarrow> f = eg_fs s"
    using sq_repr_is_empty [OF assms] by blast
  have "sq_usage f \<le> sq_usage (eg_fs s)"
  proof (cases "q = []")
    case True
    then have "f = sq_reset (eg_fs s)" using f(1) sq_is_empty_run [OF st] by simp
    then have "sq_usage f = 0" using sq_usage_state [OF sq_state_reset [OF st]] by simp
    with sq_repr_usage_nonneg [OF assms] show ?thesis by simp
  qed (use f in simp)
  with f show ?thesis by (auto simp: on_eg_fs_run)
qed

text \<open>When an alert goes out directly: nothing older waits, and the bus takes it.\<close>

definition goes_out :: "egress_env \<Rightarrow> egress \<Rightarrow> string list \<Rightarrow> string \<Rightarrow> bool" where
  "goes_out env s q x \<longleftrightarrow> q = [] \<and> eg_producer s \<and> bus_send env (eg_attempts s) x = None"

lemma publish_alert_run:
  assumes repr: "sq_repr (eg_fs s) q"
    and room: "sq_room (eg_depth env) (eg_limit env) (sq_usage (eg_fs s)) x"
  shows "\<exists>s'. publish_alert env x s = (Inr (), s') \<and>
     eg_bus s' = (if goes_out env s q x then eg_bus s @ [x] else eg_bus s) \<and>
     sq_repr (eg_fs s') (if goes_out env s q x then [] else q @ [x]) \<and>
     eg_events s' = eg_events s \<and> request_shutdown s' = request_shutdown s"
proof -
  obtain f where f: "on_eg_fs sq_is_empty s = (Inr (q = []), s\<lparr>eg_fs := f\<rparr>)" "sq_repr f q"
      "sq_usage f \<le> sq_usage (eg_fs s)"
    using on_eg_is_empty [OF repr] by blast
  have room': "sq_room (eg_depth env) (eg_limit env) (sq_usage f) x"
    using room f(3) by (rule sq_room_mono)
  obtain g where g: "store_queue_put env x (s\<lparr>eg_fs := f\<rparr>) = (Inr (), s\<lparr>eg_fs := g\<rparr>)" "sq_repr g (q @ [x])"
    using store_queue_put_run [of "s\<lparr>eg_fs := f\<rparr>" q env x] f(2) room' by auto
  let ?s1 = "s\<lparr>eg_fs := f, eg_attempts := Suc (eg_attempts s)\<rparr>"
  obtain h where h: "store_queue_put env x ?s1 = (Inr (), ?s1\<lparr>eg_fs := h\<rparr>)" "sq_repr h (q @ [x])"
    using store_queue_put_run [of ?s1 q env x] f(2) room' by auto
  show ?thesis
  proof (cases "q = [] \<and> eg_producer s")
    case True
    then show ?thesis using f g h
      by (cases "bus_send env (eg_attempts s) x")
        (auto simp: publish_alert_def goes_out_def producer_send_def Let_def py_exec)
  next
    case False
    then show ?thesis using f g
      by (auto simp: publish_alert_def goes_out_def create_MsgProducer_obj_def py_exec)
  qed
qed

text \<open>An alert is any message that is not an acknowledgement and that can be signed.\<close>

definition alert_body :: "egress_env \<Rightarrow> int \<Rightarrow> pyv \<Rightarrow> string res" where
  "alert_body env now jsonMsg = bindr (add_signature env now jsonMsg) json_dumps"

lemma transmit_alert_run:
  assumes "sq_repr (eg_fs s) q" and body: "alert_body env now m = Inr x" and ack: "is_ack_msg m = Inr False"
    and "sq_room (eg_depth env) (eg_limit env) (sq_usage (eg_fs s)) x"
  shows "\<exists>s'. transmit_msg_on_exchange env now m ev s = (Inr (), s') \<and>
     eg_bus s' = (if goes_out env s q x then eg_bus s @ [x] else eg_bus s) \<and>
     sq_repr (eg_fs s') (if goes_out env s q x then [] else q @ [x]) \<and>
     eg_events s' = (case ev of None \<Rightarrow> eg_events s | Some e \<Rightarrow> e # eg_events s)"
proof -
  from body obtain signed where sg: "add_signature env now m = Inr signed" "json_dumps signed = Inr x"
    by (auto simp: alert_body_def bindr_eq_Inr)
  have down: "is_shutdown_msg m = Inr False" using ack
    by (auto simp: is_ack_msg_def is_shutdown_msg_def py_exec split: sum.splits if_splits)
  from publish_alert_run [OF assms(1,4)] obtain s1 where
    "publish_alert env x s = (Inr (), s1)"
    "eg_bus s1 = (if goes_out env s q x then eg_bus s @ [x] else eg_bus s)"
    "sq_repr (eg_fs s1) (if goes_out env s q x then [] else q @ [x])" "eg_events s1 = eg_events s"
    by blast
  then show ?thesis
    by (cases ev) (auto simp: transmit_msg_on_exchange_def py_exec ack down sg)
qed

section \<open>Retrying the accumulated messages\<close>

text \<open>Which queued messages are IEMs.\<close>

definition is_iem :: "egress_env \<Rightarrow> string \<Rightarrow> bool" where
  "is_iem env m = (case bindr (json_loads env m) (\<lambda>d. get_key d ''iem'') of Inr v \<Rightarrow> truthy v | Inl _ \<Rightarrow> False)"

text \<open>\<open>settled env s q s' q'\<close>: between \<open>s\<close> and \<open>s'\<close> a prefix of \<open>q\<close> was handed over, in order.\<close>

definition settled :: "egress_env \<Rightarrow> egress \<Rightarrow> string list \<Rightarrow> egress \<Rightarrow> string list \<Rightarrow> bool" where
  "settled env s q s' q' \<longleftrightarrow> sq_repr (eg_fs s') q' \<and> (\<exists>gone. q = gone @ q' \<and>
     eg_bus s' = eg_bus s @ filter (\<lambda>m. \<not> is_iem env m) gone \<and>
     length (eg_iems s') = length (eg_iems s) + length (filter (is_iem env) gone))"

lemma settled_refl: "sq_repr (eg_fs s') q \<Longrightarrow> eg_bus s' = eg_bus s \<Longrightarrow> eg_iems s' = eg_iems s \<Longrightarrow> settled env s q s' q"
  by (simp add: settled_def)

lemma settled_trans: "settled env s q s1 q1 \<Longrightarrow> settled env s1 q1 s2 q2 \<Longrightarrow> settled env s q s2 q2"
  unfolding settled_def by fastforce

lemma on_iem_raise:
  assumes "sq_repr (eg_fs s) q"
  shows "\<exists>r f. on_iem (raise_iem_event ie e) s = (r, s\<lparr>eg_fs := f,
      eg_iems := eg_iems s @ (case r of Inr _ \<Rightarrow> [e] | Inl _ \<Rightarrow> [])\<rparr>) \<and> sq_repr f q"
proof -
  let ?i = "\<lparr>ifs = eg_fs s, fault_iems = [], sent_iems = eg_iems s\<rparr>"
  obtain r i where run: "raise_iem_event ie e ?i = (r, i)" by fastforce
  have "queue_is q (sq_usage (eg_fs s)) ?i" using assms by (simp add: queue_is_def)
  then have "sq_repr (ifs i) q"
    using keepsD [OF keeps_queue_raise, of q "sq_usage (eg_fs s)" ?i ie e] run by (simp add: queue_is_def)
  with run raise_iem_event_sent [OF run] show ?thesis by (auto simp: on_iem_def)
qed

lemma on_eg_delete:
  assumes "sq_repr (eg_fs s) (x # q)"
  shows "\<exists>f. on_eg_fs sq_delete s = (Inr (), s\<lparr>eg_fs := f\<rparr>) \<and> sq_repr f q"
  using sq_repr_delete [OF assms] by (auto simp: on_eg_fs_run)

lemma resend_iem_settles:
  assumes repr: "sq_repr (eg_fs s) (x # q)" and iem: "is_iem env x"
  shows "\<exists>q'. settled env s (x # q) (snd (resend_iem env v s)) q' \<and> (q' = x # q \<or> q' = q)"
proof (cases "event_of_fields v")
  case (Inl e)
  then show ?thesis using repr by (auto simp: resend_iem_def py_exec intro!: settled_refl)
next
  case (Inr ev)
  let ?s1 = "s\<lparr>eg_attempts := Suc (eg_attempts s)\<rparr>"
  obtain r f where raised: "on_iem (raise_iem_event (iem_answer env (eg_attempts s)) ev) ?s1 = (r,
      ?s1\<lparr>eg_fs := f, eg_iems := eg_iems s @ (case r of Inr _ \<Rightarrow> [ev] | Inl _ \<Rightarrow> [])\<rparr>)" "sq_repr f (x # q)"
    using on_iem_raise [of ?s1 "x # q"] repr by fastforce
  show ?thesis
  proof (cases r)
    case (Inl e)
    then have "snd (resend_iem env v s) = ?s1\<lparr>eg_fs := f\<rparr>"
      using raised Inr by (simp add: resend_iem_def py_exec)
    then show ?thesis using raised(2) by (intro exI [of _ "x # q"]) (simp add: settled_refl)
  next
    case (Inr u)
    let ?s2 = "?s1\<lparr>eg_fs := f, eg_iems := eg_iems s @ [ev]\<rparr>"
    obtain g where del: "on_eg_fs sq_delete ?s2 = (Inr (), ?s2\<lparr>eg_fs := g\<rparr>)" "sq_repr g q"
      using on_eg_delete [of ?s2 x q] raised(2) by fastforce
    have "snd (resend_iem env v s) = ?s2\<lparr>eg_fs := g\<rparr>"
      using raised Inr del \<open>event_of_fields v = Inr ev\<close> by (simp add: resend_iem_def py_exec)
    then have "settled env s (x # q) (snd (resend_iem env v s)) q"
      using del(2) iem unfolding settled_def by (intro conjI exI [of _ "[x]"]) simp_all
    then show ?thesis by blast
  qed
qed

lemma resend_message_settles:
  assumes repr: "sq_repr (eg_fs s) (x # q)" and plain: "\<not> is_iem env x"
  shows "\<exists>q'. settled env s (x # q) (snd (resend_message env x s)) q' \<and> (q' = x # q \<or> q' = q)"
proof (cases "eg_producer s \<and> bus_send env (eg_attempts s) x = None")
  case True
  let ?s1 = "s\<lparr>eg_attempts := Suc (eg_attempts s), eg_bus := eg_bus s @ [x]\<rparr>"
  obtain g where del: "on_eg_fs sq_delete ?s1 = (Inr (), ?s1\<lparr>eg_fs := g\<rparr>)" "sq_repr g q"
    using on_eg_delete [of ?s1 x q] repr by fastforce
  have "snd (resend_message env x s) = ?s1\<lparr>eg_fs := g\<rparr>"
    using True del by (simp add: resend_message_def producer_send_def py_exec Let_def)
  then have "settled env s (x # q) (snd (resend_message env x s)) q"
    using del(2) plain unfolding settled_def by (intro conjI exI [of _ "[x]"]) simp_all
  then show ?thesis by blast
next
  case False
  then show ?thesis using repr
    by (auto simp: resend_message_def producer_send_def create_MsgProducer_obj_def py_exec Let_def
        intro!: settled_refl exI [of _ "x # q"] split: option.splits)
qed

lemma acc_turn_settles:
  assumes repr: "sq_repr (eg_fs s) (x # q)"
  shows "\<exists>q'. settled env s (x # q) (snd (acc_turn env now s)) q' \<and> (q' = x # q \<or> q' = q)"
proof -
  have get: "on_eg_fs sq_get s = (Inr (PBytes x), s)"
    using sq_repr_get_Cons [OF repr] by (simp add: on_eg_fs_def)
  show ?thesis
  proof (cases "bindr (json_loads env x) (\<lambda>d. get_key d ''iem'')")
    case (Inl e)
    then show ?thesis using get repr
      by (auto simp: acc_turn_def py_exec intro!: settled_refl exI [of _ "x # q"] split: sum.splits)
  next
    case (Inr v)
    then obtain d where d: "json_loads env x = Inr d" "get_key d ''iem'' = Inr v"
      by (auto simp: bindr_eq_Inr)
    have truth: "is_iem env x \<longleftrightarrow> truthy v" by (simp add: is_iem_def Inr)
    show ?thesis
    proof (cases "truthy v")
      case True
      then have "acc_turn env now s = resend_iem env v s" by (simp add: acc_turn_def py_exec get d)
      then show ?thesis using resend_iem_settles [OF repr] True truth by simp
    next
      case False
      then have "acc_turn env now s = (case timed_out now d of Inl e \<Rightarrow> (Inl e, s)
          | Inr True \<Rightarrow> (Inr (), s) | Inr False \<Rightarrow> resend_message env x s)"
        by (simp add: acc_turn_def py_exec get d split: sum.splits bool.splits)
      then show ?thesis using resend_message_settles [OF repr] False truth repr
        by (auto intro!: settled_refl split: sum.splits bool.splits)
    qed
  qed
qed

lemma acc_loop_settles:
  "acc_loop n k env s = Some s' \<Longrightarrow> sq_repr (eg_fs s) q \<Longrightarrow> \<exists>q'. settled env s q s' q'"
proof (induction n arbitrary: k s q)
  case (Suc n)
  obtain f where f: "on_eg_fs sq_is_empty s = (Inr (q = []), s\<lparr>eg_fs := f\<rparr>)" "sq_repr f q"
    using on_eg_is_empty [OF Suc.prems(2)] by blast
  have here: "settled env s q (s\<lparr>eg_fs := f\<rparr>) q" using f(2) by (simp add: settled_refl)
  show ?case
  proof (cases q)
    case Nil
    with Suc.prems f here show ?thesis by auto
  next
    case (Cons x r)
    obtain t s1 where turn: "acc_turn env (clock env k) (s\<lparr>eg_fs := f\<rparr>) = (t, s1)" by fastforce
    obtain q1 where q1: "settled env (s\<lparr>eg_fs := f\<rparr>) q s1 q1"
      using acc_turn_settles [of "s\<lparr>eg_fs := f\<rparr>" x r env "clock env k"] f(2) Cons turn by fastforce
    have far: "settled env s q s1 q1" using here q1 by (rule settled_trans)
    show ?thesis
    proof (cases t)
      case (Inl e)
      with Suc.prems f turn Cons far show ?thesis by auto
    next
      case (Inr u)
      with Suc.prems f turn Cons have "acc_loop n (Suc k) env s1 = Some s'" by simp
      from Suc.IH [OF this, of q1] q1 far show ?thesis
        by (auto simp: settled_def [of _ "s\<lparr>eg_fs := f\<rparr>"] intro: settled_trans)
    qed
  qed
qed simp

text \<open>A queued message that is no IEM, and whether it has timed out, at every reading of the clock.\<close>

definition plain_with :: "egress_env \<Rightarrow> bool \<Rightarrow> string \<Rightarrow> bool" where
  "plain_with env old m \<longleftrightarrow> (\<exists>d v. json_loads env m = Inr d \<and> get_key d ''iem'' = Inr v \<and> \<not> truthy v \<and>
     (\<forall>k. timed_out (clock env k) d = Inr old))"

lemma plain_not_iem: "plain_with env old m \<Longrightarrow> \<not> is_iem env m"
  by (auto simp: plain_with_def is_iem_def)

lemma acc_turn_plain:
  assumes "sq_repr (eg_fs s) (x # q)" and "plain_with env old x"
  shows "acc_turn env (clock env k) s = (if old then (Inr (), s) else resend_message env x s)"
proof -
  have "on_eg_fs sq_get s = (Inr (PBytes x), s)"
    using sq_repr_get_Cons [OF assms(1)] by (simp add: on_eg_fs_def)
  with assms(2) show ?thesis by (auto simp: acc_turn_def py_exec plain_with_def)
qed

lemma resend_message_run:
  assumes "sq_repr (eg_fs s) (x # q)" and "eg_producer s" and "bus_send env (eg_attempts s) x = None"
  shows "\<exists>f. resend_message env x s = (Inr (), s\<lparr>eg_fs := f, eg_bus := eg_bus s @ [x],
     eg_attempts := Suc (eg_attempts s)\<rparr>) \<and> sq_repr f q"
proof -
  let ?s1 = "s\<lparr>eg_attempts := Suc (eg_attempts s), eg_bus := eg_bus s @ [x]\<rparr>"
  obtain g where "on_eg_fs sq_delete ?s1 = (Inr (), ?s1\<lparr>eg_fs := g\<rparr>)" "sq_repr g q"
    using on_eg_delete [of ?s1 x q] assms(1) by fastforce
  then show ?thesis using assms(2,3)
    by (intro exI [of _ g]) (simp add: resend_message_def producer_send_def py_exec Let_def)
qed

lemma acc_loop_drains:
  assumes "\<forall>n m. bus_send env n m = None"
  shows "sq_repr (eg_fs s) q \<Longrightarrow> eg_producer s \<Longrightarrow> \<forall>m\<in>set q. plain_with env False m \<Longrightarrow> length q < n \<Longrightarrow>
    \<exists>s'. acc_loop n k env s = Some s' \<and> eg_bus s' = eg_bus s @ q \<and> sq_repr (eg_fs s') []"
proof (induction n arbitrary: k s q)
  case (Suc n)
  obtain f where f: "on_eg_fs sq_is_empty s = (Inr (q = []), s\<lparr>eg_fs := f\<rparr>)" "sq_repr f q"
    using on_eg_is_empty [OF Suc.prems(1)] by blast
  show ?case
  proof (cases q)
    case Nil
    with f show ?thesis by simp
  next
    case (Cons x r)
    let ?s = "s\<lparr>eg_fs := f\<rparr>"
    obtain g where g: "resend_message env x ?s = (Inr (), ?s\<lparr>eg_fs := g, eg_bus := eg_bus s @ [x],
        eg_attempts := Suc (eg_attempts s)\<rparr>)" "sq_repr g r"
      using resend_message_run [of ?s x r env] f(2) Cons Suc.prems(2) assms by fastforce
    let ?s1 = "?s\<lparr>eg_fs := g, eg_bus := eg_bus s @ [x], eg_attempts := Suc (eg_attempts s)\<rparr>"
    have turn: "acc_turn env (clock env k) ?s = (Inr (), ?s1)"
      using acc_turn_plain [of ?s x r env False k] f(2) Cons Suc.prems(3) g(1) by simp
    have step: "acc_loop (Suc n) k env s = acc_loop n (Suc k) env ?s1"
      using f(1) Cons turn by simp
    from Suc.IH [of ?s1 r "Suc k"] g(2) Suc.prems Cons step show ?thesis by auto
  qed
qed simp

lemma acc_loop_stuck:
  "sq_repr (eg_fs s) (x # q) \<Longrightarrow> plain_with env True x \<Longrightarrow> acc_loop n k env s = None"
proof (induction n arbitrary: k s)
  case (Suc n)
  obtain f where f: "on_eg_fs sq_is_empty s = (Inr False, s\<lparr>eg_fs := f\<rparr>)" "sq_repr f (x # q)"
    using on_eg_is_empty [OF Suc.prems(1)] by auto
  with acc_turn_plain [of "s\<lparr>eg_fs := f\<rparr>" x q env True k] Suc show ?case by simp
qed simp

section \<open>The egress loop ends\<close>

text \<open>
  Reading an entry may append one more to the processor's own queue: a message that turns debug
  off for all modules is broadcast. The broadcast itself is not broadcast again, so it weighs
  less than any other message.
\<close>

definition entry_weight :: "pyv \<times> 'ev option \<Rightarrow> nat" where
  "entry_weight m = (if fst m = debug_off_msg then 1 else 2)"

definition queues_ok :: "'ev msgq \<Rightarrow> bool" where
  "queues_ok q \<longleftrightarrow> distinct (map fst (msgQlist q)) \<and> map_of (msgQlist q) ''ThreadController'' \<noteq> None"

lemma keys_write: "map fst (msgQlist (snd (write_internal_msgQ n m e q))) = map fst (msgQlist q)"
proof (cases "map_of (msgQlist q) n")
  case (Some ms)
  then have "n \<in> fst ` set (msgQlist q)" by (metis domI dom_map_of_conv_image_fst)
  with Some show ?thesis by (simp add: write_internal_msgQ_def AList.update_keys)
qed (simp add: write_internal_msgQ_def)

lemma keys_broadcast:
  "keeps (\<lambda>q. map fst (msgQlist q) = ks) debug_off_globally"
  unfolding debug_off_globally_def
  by (intro keeps_rules keepsI) (simp_all add: keys_write)

lemma queues_ok_keys: "queues_ok q \<Longrightarrow> map fst (msgQlist q') = map fst (msgQlist q) \<Longrightarrow> queues_ok q'"
  unfolding queues_ok_def map_of_eq_None_iff by (metis list.set_map)

lemma map_of_broadcast:
  assumes "queues_ok q" and "map_of (msgQlist q) n = Some ms" and "n \<noteq> ''ThreadController''"
  shows "\<exists>q'. debug_off_globally q = (Inr (), q') \<and> queues_ok q' \<and>
     map_of (msgQlist q') n = Some (ms @ [(debug_off_msg, None)])"
proof -
  from assms(1) obtain tc where "distinct (map fst (msgQlist q))" "map_of (msgQlist q) ''ThreadController'' = Some tc"
    by (auto simp: queues_ok_def)
  from debug_off_globally_run [OF this] obtain q' where q': "debug_off_globally q = (Inr (), q')"
      "\<forall>k. map_of (msgQlist q') k = map_option (\<lambda>ms. ms @
        [(if k = ''ThreadController'' then bounce_msg else debug_off_msg, None)]) (map_of (msgQlist q) k)"
    by blast
  have "queues_ok q'"
    using keepsD [OF keys_broadcast, of q "map fst (msgQlist q)"] q'(1) by (intro queues_ok_keys [OF assms(1)]) simp
  with q' assms show ?thesis by auto
qed

definition queue_weight :: "(pyv \<times> 'ev option) list \<Rightarrow> nat" where
  "queue_weight ms = sum_list (map entry_weight ms)"

lemma read_lowers_weight:
  assumes ok: "queues_ok q" and ms: "map_of (msgQlist q) n = Some (m # ms)" and n: "n \<noteq> ''ThreadController''"
  shows "\<exists>r q' ms'. read_my_msgQ loads n q = (Got r, q') \<and> queues_ok q' \<and>
     map_of (msgQlist q') n = Some ms' \<and> queue_weight ms' < queue_weight (m # ms)"
proof -
  let ?q1 = "q\<lparr>msgQlist := AList.update n ms (msgQlist q)\<rparr>"
  from ms have "n \<in> fst ` set (msgQlist q)" by (metis domI dom_map_of_conv_image_fst)
  then have keys: "map fst (msgQlist ?q1) = map fst (msgQlist q)" by (simp add: AList.update_keys)
  have ok1: "queues_ok (?q1\<lparr>msgq_dbg := d\<rparr>)" for d by (rule queues_ok_keys [OF ok]) (use keys in simp)
  have ok1': "queues_ok ?q1" by (rule queues_ok_keys [OF ok keys])
  have low: "queue_weight ms < queue_weight (m # ms)" by (simp add: queue_weight_def entry_weight_def)
  obtain r d where chk: "check_debug loads (fst m) (msgq_dbg q) = (r, d)" by fastforce
  show ?thesis
  proof (cases "fst m \<noteq> PNone \<and> (\<exists>j. r = Inr (True, j))")
    case True
    then obtain j where j: "r = Inr (True, j)" by blast
    then have "fst m \<noteq> debug_off_msg" using chk by (auto simp: check_debug_off_msg)
    then have two: "queue_weight (m # ms) = 2 + queue_weight ms" by (simp add: queue_weight_def entry_weight_def)
    obtain q' where "debug_off_globally (?q1\<lparr>msgq_dbg := d\<rparr>) = (Inr (), q')" "queues_ok q'"
        "map_of (msgQlist q') n = Some (ms @ [(debug_off_msg, None)])"
      using map_of_broadcast [OF ok1 [of d], of n ms] n by (auto simp: update_conv')
    with True j chk ms two show ?thesis
      by (auto simp: read_my_msgQ_def handle_entry_def on_dbg_def py_exec queue_weight_def entry_weight_def)
  next
    case False
    then show ?thesis using chk ms ok1 ok1' low
      by (cases r) (auto simp: read_my_msgQ_def handle_entry_def on_dbg_def py_exec update_conv')
  qed
qed

lemma keeps_msgq_on_fs [keeps_rules]: "keeps (\<lambda>s. eg_msgq s = q) (on_eg_fs m)"
  by (rule keepsI) (simp add: on_eg_fs_def split: prod.splits)

lemma keeps_msgq_send [keeps_rules]: "keeps (\<lambda>s. eg_msgq s = q) (producer_send env x)"
  by (rule keepsI) (simp add: producer_send_def Let_def split: option.splits)

lemma keeps_msgq_create [keeps_rules]: "keeps (\<lambda>s. eg_msgq s = q) (create_MsgProducer_obj env)"
  by (rule keepsI) (simp add: create_MsgProducer_obj_def modp_def)

lemma keeps_msgq_transmit: "keeps (\<lambda>s. eg_msgq s = q) (transmit_msg_on_exchange env now m ev)"
proof -
  have ev: "keeps (\<lambda>s. eg_msgq s = q) (case ev of None \<Rightarrow> ret () | Some e \<Rightarrow> modp (\<lambda>s. s\<lparr>eg_events := e # eg_events s\<rparr>))"
    by (cases ev) (auto intro: keeps_rules keeps_modp)
  have down: "keeps (\<lambda>s. eg_msgq s = q) (modp (\<lambda>s. s\<lparr>request_shutdown := True\<rparr>))"
    by (rule keeps_modp) simp
  show ?thesis
    unfolding transmit_msg_on_exchange_def publish_alert_def publish_ack_def store_queue_put_def
    by (intro keeps_rules down ev)
qed

lemma keeps_producer_transmit:
  assumes "\<And>n. bus_create env n"
  shows "keeps eg_producer (transmit_msg_on_exchange env now m ev)"
proof -
  have fs: "keeps eg_producer (on_eg_fs p)" for p :: "(fs, 'a) proc"
    by (rule keepsI) (simp add: on_eg_fs_def split: prod.splits)
  have snd': "keeps eg_producer (producer_send env x)" for x
    by (rule keepsI) (simp add: producer_send_def Let_def split: option.splits)
  have new: "keeps eg_producer (create_MsgProducer_obj env)"
    by (rule keepsI) (simp add: create_MsgProducer_obj_def modp_def assms)
  have ev: "keeps eg_producer (case ev of None \<Rightarrow> ret () | Some e \<Rightarrow> modp (\<lambda>s. s\<lparr>eg_events := e # eg_events s\<rparr>))"
    by (cases ev) (auto intro: keeps_rules keeps_modp)
  have down: "keeps eg_producer (modp (\<lambda>s. s\<lparr>request_shutdown := True\<rparr>))"
    by (rule keeps_modp) simp
  show ?thesis
    unfolding transmit_msg_on_exchange_def publish_alert_def publish_ack_def store_queue_put_def
    by (intro keeps_rules fs snd' new down ev)
qed

lemma egress_loop_returns:
  "queues_ok (eg_msgq s) \<Longrightarrow> map_of (msgQlist (eg_msgq s)) EgressProcessor_name = Some ms \<Longrightarrow>
    queue_weight ms < n \<Longrightarrow>
    \<exists>s'. egress_loop n env now s = Some s' \<and> map_of (msgQlist (eg_msgq s')) EgressProcessor_name = Some []"
proof (induction n arbitrary: s ms)
  case (Suc n)
  show ?case
  proof (cases ms)
    case Nil
    with Suc.prems show ?thesis by (simp add: is_my_msgQ_empty_def)
  next
    case (Cons m rest)
    have name: "EgressProcessor_name \<noteq> ''ThreadController''" by (simp add: EgressProcessor_name_def)
    from read_lowers_weight [OF Suc.prems(1) _ name, of m rest "json_loads env"] Suc.prems(2) Cons
    obtain r q' ms' where r: "read_my_msgQ (json_loads env) EgressProcessor_name (eg_msgq s) = (Got r, q')"
        "queues_ok q'" "map_of (msgQlist q') EgressProcessor_name = Some ms'"
        "queue_weight ms' < queue_weight ms" by auto
    obtain j e where je: "r = (j, e)" by fastforce
    let ?s1 = "if j = PNone then s\<lparr>eg_msgq := q'\<rparr>
       else snd (transmit_msg_on_exchange env now j e (s\<lparr>eg_msgq := q'\<rparr>))"
    have "eg_msgq ?s1 = q'"
      using keepsD [OF keeps_msgq_transmit, of "s\<lparr>eg_msgq := q'\<rparr>" q' env now j e] by simp
    with Suc.IH [of ?s1 ms'] r Suc.prems Cons je show ?thesis
      by (simp add: is_my_msgQ_empty_def)
  qed
qed simp

section \<open>One run of each thread\<close>

definition same_outputs :: "egress \<Rightarrow> egress \<Rightarrow> bool" where
  "same_outputs s s' \<longleftrightarrow> eg_fs s' = eg_fs s \<and> eg_bus s' = eg_bus s \<and> eg_iems s' = eg_iems s"

lemma acc_control_outputs: "same_outputs s (snd (acc_control env s))"
  by (auto simp: acc_control_def same_outputs_def acc_shutdown_def egress_shutdown_def py_exec
      split: prod.splits sum.splits bool.splits read_outcome.splits)

lemma acc_run_settles:
  assumes "acc_run n env s = Some (r, s')" and "sq_repr (eg_fs s) q"
  shows "\<exists>q'. settled env s q s' q'"
proof -
  obtain t s1 where ctl: "acc_control env s = (t, s1)" by fastforce
  have same: "same_outputs s s1" using acc_control_outputs [of s env] ctl by simp
  then have first: "settled env s q s1 q" using assms(2) by (simp add: same_outputs_def settled_refl)
  show ?thesis
  proof (cases t)
    case (Inl e)
    with assms(1) ctl first show ?thesis by (auto simp: acc_run_def)
  next
    case (Inr u)
    then obtain s2 where "acc_loop n 0 env s1 = Some s2" and s': "s' = s2\<lparr>eg_sched := eg_sched s2 @ [30]\<rparr>"
      using assms(1) ctl by (auto simp: acc_run_def)
    then obtain q' where "settled env s1 q s2 q'"
      using acc_loop_settles same assms(2) by (fastforce simp: same_outputs_def)
    then have "settled env s1 q s' q'" by (simp add: settled_def s')
    with first show ?thesis by (blast intro: settled_trans)
  qed
qed

lemma acc_control_idle:
  "map_of (msgQlist (eg_msgq s)) ''EgressAccumulatedMsgsProcessor'' = Some [] \<Longrightarrow> acc_control env s = (Inr (), s)"
  by (simp add: acc_control_def is_my_msgQ_empty_def)

section \<open>Properties\<close>

definition demo_alert :: pyv where
  "demo_alert = PDict [(''message'', PDict [(''sensor_response_type'', PDict [])])]"

definition demo_ack :: pyv where
  "demo_ack = PDict [(''message'', PDict [(''actuator_response_type'',
     PDict [(''ack'', PDict []), (''info'', PDict [(''event_time'', PStr ''100'')])])])]"

definition demo_shutdown :: pyv where
  "demo_shutdown = PDict [(''message'', PDict [(''actuator_response_type'',
     PDict [(''thread_controller'', PDict [(''thread_response'', PStr ''SSPL-LL is shutting down'')])])])]"

definition demo_eg_env :: egress_env where
  "demo_eg_env = \<lparr>bus_send = \<lambda>_ _. None, bus_create = \<lambda>_. True, iem_answer = \<lambda>_. demo_env, clock = \<lambda>k. 1000 + int k,
     json_loads = \<lambda>t. Inr (if t = ''ack'' then demo_ack else demo_alert), use_security_lib = False,
     sign_message = \<lambda>_. [], signature_user = ''sspl-ll'', signature_expires = ''9'', eg_depth = 10, eg_limit = 50000000\<rparr>"

definition demo_egress :: egress where
  "demo_egress = \<lparr>eg_fs = sq_init empty_fs, eg_bus = [], eg_iems = [], eg_producer = True, eg_attempts = 0,
     eg_events = [], request_shutdown = False, eg_running = True,
     eg_msgq = \<lparr>msgQlist = [(''EgressProcessor'', [(demo_alert, Some 1)]), (''ThreadController'', []),
       (''EgressAccumulatedMsgsProcessor'', [])], msgq_dbg = init_debug\<rparr>, eg_sched = []\<rparr>"

definition demo_waiting :: "string list \<Rightarrow> egress" where
  "demo_waiting ms = demo_egress\<lparr>eg_fs := enq_all (sq_enq 10 50000000) ms (sq_init empty_fs)\<rparr>"

lemma demo_sel [simp]:
  "eg_producer demo_egress" "eg_bus demo_egress = []" "bus_send demo_eg_env n y = None"
  "eg_iems demo_egress = []"
  by (simp_all add: demo_egress_def demo_eg_env_def)

lemma demo_waiting_sel [simp]:
  "eg_producer (demo_waiting ms)" "eg_bus (demo_waiting ms) = []" "eg_iems (demo_waiting ms) = []"
  "map_of (msgQlist (eg_msgq (demo_waiting ms))) ''EgressAccumulatedMsgsProcessor'' = Some []"
  by (simp_all add: demo_waiting_def demo_egress_def)

lemma demo_waiting_repr: "sq_repr (eg_fs (demo_waiting [x])) [x]" if "length x < 100"
proof -
  have "sq_room 10 50000000 (sq_usage (sq_init empty_fs)) x"
    using that by (simp add: sq_usage_init sq_room_def)
  with sq.repr_enq [OF sq_repr_init this] show ?thesis by (simp add: demo_waiting_def demo_egress_def)
qed

lemma demo_plain: "plain_with demo_eg_env (x = ''ack'') x"
proof -
  have iem: "get_key demo_alert ''iem'' = Inr PNone" "get_key demo_ack ''iem'' = Inr PNone" by code_simp+
  have young: "timed_out now demo_alert = Inr False" for now
    by (simp add: timed_out_def demo_alert_def)
  have "py_int ''100'' = Inr 100" by code_simp
  then have old: "timed_out now demo_ack = Inr (300 < now - 100)" for now
    by (simp add: timed_out_def demo_ack_def MSG_TIMEOUT_def)
  show ?thesis
    by (simp add: plain_with_def demo_eg_env_def iem young old)
qed

text \<open>
  C28. No alert is lost and none overtakes an older one: for an alert (any message that is not an
  acknowledgement and can be signed and dumped), \<^verbatim>\<open>_transmit_msg_on_exchange\<close> publishes it
  exactly when the store queue is empty and the bus takes it; in every other case (older
  alerts wait, no producer, the bus raises) it is appended to the store queue, which has room
  for it. Either way the sender's event is set.
\<close>

theorem alert_published_or_queued:
  assumes "sq_repr (eg_fs s) q" and "alert_body env now m = Inr x" and "is_ack_msg m = Inr False"
    and "sq_room (eg_depth env) (eg_limit env) (sq_usage (eg_fs s)) x"
  shows "\<exists>s'. transmit_msg_on_exchange env now m (Some e) s = (Inr (), s') \<and> e \<in> set (eg_events s') \<and>
     (if q = [] \<and> eg_producer s \<and> bus_send env (eg_attempts s) x = None
      then eg_bus s' = eg_bus s @ [x] \<and> sq_repr (eg_fs s') []
      else eg_bus s' = eg_bus s \<and> sq_repr (eg_fs s') (q @ [x]))"
  using transmit_alert_run [OF assms, of "Some e"] unfolding goes_out_def by fastforce

theorem alert_published_or_queued_witness:
  "\<exists>x s'. alert_body demo_eg_env 5 demo_alert = Inr x \<and>
     transmit_msg_on_exchange demo_eg_env 5 demo_alert (Some 7) demo_egress = (Inr (), s') \<and> eg_bus s' = [x]"
proof -
  have "alert_body demo_eg_env 5 demo_alert = Inr (projr (alert_body demo_eg_env 5 demo_alert)) \<and>
      length (projr (alert_body demo_eg_env 5 demo_alert)) < 1000" by code_simp
  then obtain x where x: "alert_body demo_eg_env 5 demo_alert = Inr x" and len: "length x < 1000" by blast
  have ack: "is_ack_msg demo_alert = Inr False" by code_simp
  have repr: "sq_repr (eg_fs demo_egress) []" by (simp add: demo_egress_def sq_repr_init)
  have room: "sq_room (eg_depth demo_eg_env) (eg_limit demo_eg_env) (sq_usage (eg_fs demo_egress)) x"
    using len by (simp add: demo_egress_def demo_eg_env_def sq_usage_init sq_room_def)
  obtain s' where "transmit_msg_on_exchange demo_eg_env 5 demo_alert (Some 7) demo_egress = (Inr (), s')"
      "eg_bus s' = [x]"
    using alert_published_or_queued [OF repr x ack room, of 7] by auto
  with x show ?thesis by blast
qed



text \<open>
  The retry thread drains the queue: with a producer, a bus that takes every message and
  a queue of \<open>n\<close> messages that are neither IEMs nor timed-out responses, a run of more than
  \<open>n\<close> turns returns with the queue empty and every message published in order.
\<close>

lemma accumulated_drains_in_order:
  assumes "sq_repr (eg_fs s) q" and "eg_producer s" and "\<forall>m\<in>set q. plain_with env False m"
    and "\<forall>k m. bus_send env k m = None"
    and "map_of (msgQlist (eg_msgq s)) ''EgressAccumulatedMsgsProcessor'' = Some []"
  shows "\<exists>s'. acc_run (Suc (length q)) env s = Some (Inr (), s') \<and> eg_bus s' = eg_bus s @ q \<and>
     sq_repr (eg_fs s') []"
  using acc_loop_drains [OF assms(4) assms(1-3), of "Suc (length q)" 0]
  by (auto simp: acc_run_def acc_control_idle [OF assms(5)])

lemma accumulated_drains_in_order_witness:
  "\<exists>s'. acc_run 2 demo_eg_env (demo_waiting [''a'']) = Some (Inr (), s') \<and> eg_bus s' = [''a''] \<and>
     sq_repr (eg_fs s') []"
proof -
  have repr: "sq_repr (eg_fs (demo_waiting [''a''])) [''a'']" by (simp add: demo_waiting_repr)
  from accumulated_drains_in_order [OF repr, of demo_eg_env] demo_plain [of "''a''"] show ?thesis
    by (simp add: numeral_2_eq_2)
qed

text \<open>
  C30. A timed-out response at the head of the queue stops the retry thread for good: its
  \<^verbatim>\<open>continue\<close> leaves the message where it is, so the loop never returns, whatever the
  number of turns.
\<close>

theorem timed_out_response_blocks_queue:
  assumes "sq_repr (eg_fs s) (x # q)" and "plain_with env True x"
    and "map_of (msgQlist (eg_msgq s)) ''EgressAccumulatedMsgsProcessor'' = Some []"
  shows "\<forall>n. acc_run n env s = None"
  using acc_loop_stuck [OF assms(1,2)] by (simp add: acc_run_def acc_control_idle [OF assms(3)])

theorem timed_out_response_blocks_queue_witness:
  "\<forall>n. acc_run n demo_eg_env (demo_waiting [''ack'']) = None"
proof -
  have repr: "sq_repr (eg_fs (demo_waiting [''ack''])) [''ack'']" by (simp add: demo_waiting_repr)
  from timed_out_response_blocks_queue [OF repr, of demo_eg_env] demo_plain [of "''ack''"] show ?thesis by simp
qed

text \<open>
  C31. The egress thread returns and leaves its queue empty: if \<open>ms\<close> waits in its queue, twice
  as many turns and one are enough, although reading a message may append another one (the
  broadcast that turns debug off).
\<close>

theorem egress_run_empties_queue:
  assumes "queues_ok (eg_msgq s)" and "map_of (msgQlist (eg_msgq s)) EgressProcessor_name = Some ms"
  shows "\<exists>s'. egress_run (2 * length ms + 1) env now s = Some s' \<and>
     map_of (msgQlist (eg_msgq s')) EgressProcessor_name = Some []"
proof -
  have "queue_weight ms \<le> 2 * length ms" by (induction ms) (auto simp: queue_weight_def entry_weight_def)
  then obtain s' where "egress_loop (2 * length ms + 1) env now s = Some s'"
      "map_of (msgQlist (eg_msgq s')) EgressProcessor_name = Some []"
    using egress_loop_returns [OF assms, of "2 * length ms + 1" env now] by auto
  then show ?thesis
    by (simp add: egress_run_def egress_shutdown_def del: egress_loop.simps)
qed

theorem egress_run_empties_queue_witness:
  "\<exists>s'. egress_run 3 demo_eg_env 5 demo_egress = Some s' \<and>
     map_of (msgQlist (eg_msgq s')) EgressProcessor_name = Some []"
proof -
  have "queues_ok (eg_msgq demo_egress)" by (simp add: queues_ok_def demo_egress_def)
  moreover have "map_of (msgQlist (eg_msgq demo_egress)) EgressProcessor_name = Some [(demo_alert, Some 1)]"
    by (simp add: demo_egress_def EgressProcessor_name_def)
  ultimately show ?thesis
    using egress_run_empties_queue [of demo_egress "[(demo_alert, Some 1)]" demo_eg_env 5] by simp
qed

text \<open>
  An acknowledgement is lost when there is no producer: nothing is published, nothing is
  stored, and the sender's event is set as if it had been sent.
\<close>

lemma ack_lost_without_producer:
  assumes "is_ack_msg m = Inr True" and "is_shutdown_msg m = Inr down" and "alert_body env now m = Inr x"
    and "\<not> eg_producer s"
  shows "\<exists>s'. transmit_msg_on_exchange env now m (Some e) s = (Inr (), s') \<and> same_outputs s s' \<and>
     eg_events s' = e # eg_events s"
proof -
  from assms(3) obtain signed where "add_signature env now m = Inr signed"
    by (auto simp: alert_body_def bindr_eq_Inr)
  with assms show ?thesis
    by (cases down) (simp_all add: transmit_msg_on_exchange_def publish_ack_def create_MsgProducer_obj_def
        same_outputs_def py_exec)
qed

lemma ack_lost_without_producer_witness:
  "\<exists>s'. transmit_msg_on_exchange demo_eg_env 5 demo_ack (Some 7) (demo_egress\<lparr>eg_producer := False\<rparr>) = (Inr (), s') \<and>
     eg_bus s' = [] \<and> eg_events s' = 7 # eg_events demo_egress"
proof -
  have m: "is_ack_msg demo_ack = Inr True" "is_shutdown_msg demo_ack = Inr False" by code_simp+
  have "alert_body demo_eg_env 5 demo_ack = Inr (projr (alert_body demo_eg_env 5 demo_ack))" by code_simp
  from ack_lost_without_producer [OF m this, of "demo_egress\<lparr>eg_producer := False\<rparr>" 7] show ?thesis
    by (auto simp: same_outputs_def)
qed

text \<open>
  The shutdown notice ends the retry thread with an exception: \<^verbatim>\<open>shutdown\<close> reads the
  attribute \<^verbatim>\<open>_connection\<close>, which is never assigned, outside of any handler.
\<close>

lemma accumulated_shutdown_raises:
  assumes "map_of (msgQlist (eg_msgq s)) ''EgressAccumulatedMsgsProcessor'' = Some ((raw, e) # ms)"
    and "as_message (json_loads env) raw = Inr (PDict m)" and "map_of m ''sspl_ll_debug'' = None"
    and "is_shutdown_msg (PDict m) = Inr True"
  shows "\<exists>s'. acc_run n env s = Some (Inl AttributeError, s') \<and> \<not> eg_running s'"
  using read_plain [OF assms(1-3)] assms(1,4)
  by (simp add: acc_run_def acc_control_def is_my_msgQ_empty_def acc_shutdown_def egress_shutdown_def py_exec)

lemma accumulated_shutdown_raises_witness:
  "\<exists>s'. acc_run 0 demo_eg_env (demo_egress\<lparr>eg_msgq := \<lparr>msgQlist = [(''EgressAccumulatedMsgsProcessor'',
      [(demo_shutdown, None)])], msgq_dbg = init_debug\<rparr>\<rparr>) = Some (Inl AttributeError, s')"
proof -
  have "is_shutdown_msg demo_shutdown = Inr True" by code_simp
  then show ?thesis
    using accumulated_shutdown_raises [of "demo_egress\<lparr>eg_msgq := \<lparr>msgQlist = [(''EgressAccumulatedMsgsProcessor'',
      [(demo_shutdown, None)])], msgq_dbg = init_debug\<rparr>\<rparr>" demo_shutdown None "[]" demo_eg_env _ 0]
    by (auto simp: demo_shutdown_def)
qed

end
