(* ===== verification/Module_Thread.thy ===== *)
theory Module_Thread
  imports SSPL_Prelude
begin

text \<open>
  \<^verbatim>\<open>framework/base/module_thread.py\<close>: scheduled module threads and the start-up protocol of
  sensors that depend on one another. Sensors are numbered; the world maps a number to the
  fields of its \<^verbatim>\<open>SensorThread\<close> object. The integer values of the three state classes are kept,
  because the code compares and assigns them as integers. Acquiring a lock that is held blocks
  for good (the cascade runs in one thread), which is the result \<open>None\<close>; the cascade of
  notifications takes fuel, and enough fuel is proved for acyclic dependencies. A Python set
  is a list without repetition, iterated in its order; nothing proved depends on the order.
\<close>

section \<open>States\<close>

definition DEPS_STARTING :: int where "DEPS_STARTING = 0"
definition DEPS_FAILED :: int where "DEPS_FAILED = 2"
definition DEPS_SUCCESS :: int where "DEPS_SUCCESS = 4"

definition INITIALIZING :: int where "INITIALIZING = 0"
definition INIT_FAILED :: int where "INIT_FAILED = 1"
definition INIT_SUCCESS :: int where "INIT_SUCCESS = 2"

definition WAITING :: int where "WAITING = 0"
definition RUNNING :: int where "RUNNING = 1"
definition FAILED :: int where "FAILED = 3"

lemmas state_defs = DEPS_STARTING_def DEPS_FAILED_def DEPS_SUCCESS_def INITIALIZING_def
  INIT_FAILED_def INIT_SUCCESS_def WAITING_def RUNNING_def FAILED_def

lemma state_distinct [simp]:
  "WAITING \<noteq> RUNNING" "WAITING \<noteq> FAILED" "RUNNING \<noteq> FAILED" "RUNNING \<noteq> WAITING"
  "FAILED \<noteq> WAITING" "FAILED \<noteq> RUNNING" "INIT_FAILED \<noteq> INIT_SUCCESS" "INIT_SUCCESS \<noteq> INIT_FAILED"
  "DEPS_FAILED \<noteq> DEPS_SUCCESS" "DEPS_SUCCESS \<noteq> DEPS_FAILED" "INIT_SUCCESS \<noteq> INITIALIZING"
  "DEPS_STARTING \<noteq> DEPS_FAILED" "DEPS_STARTING \<noteq> DEPS_SUCCESS" "DEPS_SUCCESS \<noteq> DEPS_STARTING"
  by (simp_all add: state_defs)

text \<open>The states \<^verbatim>\<open>get_state\<close> reports.\<close>

datatype module_state = ACTIVE | SUSPENDED | HALTED

definition get_state :: "bool \<Rightarrow> bool \<Rightarrow> module_state" where
  "get_state is_running is_suspended =
     (if is_running \<and> \<not> is_suspended then ACTIVE
      else if is_running \<and> is_suspended then SUSPENDED else HALTED)"

datatype sched_action = CheckAndRun | Run | CleanupAndStop

record sensor =
  lock_held :: bool
  remaining_dependees :: "nat list"
  num_failed_dependees :: nat
  waiting_dependers :: "nat list"
  deps_status :: int
  init_status :: int
  has_timed_out :: bool
  current_timeout_wait :: int
  status :: int
  is_running :: bool
  scheduler_queue :: "(nat \<times> sched_action) list"

type_synonym world = "nat \<Rightarrow> sensor"

definition SENSORTHREAD_INIT_WAIT_TIMEOUT :: int where "SENSORTHREAD_INIT_WAIT_TIMEOUT = 300"
definition SENSORTHREAD_INIT_WAIT_INTERVAL :: int where "SENSORTHREAD_INIT_WAIT_INTERVAL = 10"

definition new_sensor :: sensor where
  "new_sensor = \<lparr>lock_held = False, remaining_dependees = [], num_failed_dependees = 0,
     waiting_dependers = [], deps_status = DEPS_STARTING, init_status = INITIALIZING,
     has_timed_out = False, current_timeout_wait = 0, status = WAITING, is_running = False,
     scheduler_queue = []\<rparr>"

section \<open>Operations\<close>

definition sched_enter :: "nat \<Rightarrow> sched_action \<Rightarrow> sensor \<Rightarrow> sensor" where
  "sched_enter delay a s = s\<lparr>scheduler_queue := scheduler_queue s @ [(delay, a)]\<rparr>"

definition sensor_initialize :: "sensor \<Rightarrow> sensor" where
  "sensor_initialize s = sched_enter 1 CheckAndRun s"

definition start :: "sensor \<Rightarrow> sensor" where
  "start s = s\<lparr>is_running := True\<rparr>"

definition shutdown :: "sensor \<Rightarrow> sensor" where
  "shutdown s = sched_enter 10 CleanupAndStop (s\<lparr>is_running := False\<rparr>)"

definition cleanup_and_stop :: "sensor \<Rightarrow> sensor" where
  "cleanup_and_stop s = s\<lparr>scheduler_queue := []\<rparr>"

text \<open>\<^verbatim>\<open>my_register\<close> blocks on a held lock.\<close>

definition my_register :: "nat \<Rightarrow> nat \<Rightarrow> world \<Rightarrow> world option" where
  "my_register d depender w = (if lock_held (w d) then None
     else Some (w(d := (w d)\<lparr>waiting_dependers := List.insert depender (waiting_dependers (w d))\<rparr>)))"

fun register_all :: "nat list \<Rightarrow> nat \<Rightarrow> world \<Rightarrow> world option" where
  "register_all [] i w = Some w"
| "register_all (d # ds) i w = (case my_register d i w of None \<Rightarrow> None | Some w' \<Rightarrow> register_all ds i w')"

definition prepare :: "nat \<Rightarrow> nat list \<Rightarrow> world \<Rightarrow> world option" where
  "prepare i dependencies w =
     (let rem = fold List.insert dependencies (remaining_dependees (w i))
      in register_all rem i (w(i := (w i)\<lparr>remaining_dependees := rem\<rparr>)))"

text \<open>
  The part of \<^verbatim>\<open>check_and_conclude_initialization\<close> that updates the sensor itself, once the
  lock is known to be held and the sensor to be waiting.
\<close>

definition update_deps :: "sensor \<Rightarrow> sensor" where
  "update_deps s = (if num_failed_dependees s \<noteq> 0 then s\<lparr>deps_status := DEPS_FAILED\<rparr>
     else if remaining_dependees s = [] then s\<lparr>deps_status := DEPS_SUCCESS\<rparr> else s)"

definition definitely_failed :: "sensor \<Rightarrow> bool" where
  "definitely_failed s = (deps_status s = DEPS_FAILED \<or> init_status s = INIT_FAILED \<or> has_timed_out s)"

definition definitely_succeeded :: "sensor \<Rightarrow> bool" where
  "definitely_succeeded s = (deps_status s = DEPS_SUCCESS \<and> init_status s = INIT_SUCCESS)"

definition decide :: "sensor \<Rightarrow> sensor" where
  "decide s = (let s1 = update_deps s in
     if definitely_failed s1 then s1\<lparr>status := FAILED\<rparr>
     else if definitely_succeeded s1 then s1\<lparr>status := RUNNING\<rparr> else s1)"

text \<open>What \<^verbatim>\<open>event\<close> records of the dependee that concluded, with the lock taken.\<close>

definition record_event :: "nat \<Rightarrow> bool \<Rightarrow> sensor \<Rightarrow> sensor" where
  "record_event dependee running s = s\<lparr>lock_held := True,
     remaining_dependees := removeAll dependee (remaining_dependees s),
     num_failed_dependees := (if running then num_failed_dependees s else Suc (num_failed_dependees s))\<rparr>"

definition release :: "nat \<Rightarrow> world \<Rightarrow> world" where
  "release i w = w(i := (w i)\<lparr>lock_held := False\<rparr>)"

fun event :: "nat \<Rightarrow> nat \<Rightarrow> nat \<Rightarrow> bool \<Rightarrow> world \<Rightarrow> world option"
  and check_and_conclude_initialization :: "nat \<Rightarrow> nat \<Rightarrow> world \<Rightarrow> world option"
  and notify :: "nat \<Rightarrow> nat list \<Rightarrow> nat \<Rightarrow> bool \<Rightarrow> world \<Rightarrow> world option" where
  "event 0 d dependee running w = None"
| "event (Suc n) d dependee running w =
     (if lock_held (w d) then None
      else map_option (release d)
        (check_and_conclude_initialization n d (w(d := record_event dependee running (w d)))))"
| "check_and_conclude_initialization n i w =
     (if \<not> lock_held (w i) then Some w
      else if status (w i) \<noteq> WAITING then Some w
      else let w' = w(i := decide (w i)) in
        if status (w' i) \<noteq> WAITING
        then notify n (waiting_dependers (w' i)) i (status (w' i) = RUNNING) w'
        else Some w')"
| "notify n [] i running w = Some w"
| "notify n (d # ds) i running w = (case event n d i running w of
     None \<Rightarrow> None | Some w' \<Rightarrow> notify n ds i running w')"

declare check_and_conclude_initialization.simps [simp del]

definition with_lock :: "nat \<Rightarrow> (world \<Rightarrow> world option) \<Rightarrow> world \<Rightarrow> world option" where
  "with_lock i f w = (if lock_held (w i) then None
     else map_option (release i) (f (w(i := (w i)\<lparr>lock_held := True\<rparr>))))"

definition get_thread_init_status :: "nat \<Rightarrow> world \<Rightarrow> int option" where
  "get_thread_init_status i w = (if lock_held (w i) then None else Some (status (w i)))"

text \<open>
  \<^verbatim>\<open>start_thread\<close>. \<open>init_ok\<close> says whether the sensor's own \<^verbatim>\<open>initialize\<close> returns or raises,
  \<open>scheduled\<close> whether a raising one had already run the base class part, which schedules the
  first check. When it raises, the exception is passed on (\<open>Inl\<close>) and the status is set to
  the value of \<^verbatim>\<open>InitState.INIT_FAILED\<close>.
\<close>

definition start_thread ::
  "nat \<Rightarrow> bool \<Rightarrow> bool \<Rightarrow> nat \<Rightarrow> world \<Rightarrow> (unit res \<times> world) option" where
  "start_thread fuel init_ok scheduled i w =
     (let w0 = w(i := (w i)\<lparr>init_status := INITIALIZING\<rparr>) in
      if \<not> init_ok
      then (let s0 = (if scheduled then sensor_initialize (w0 i) else w0 i) in
        Some (Inl PyException, w0(i := s0\<lparr>init_status := INIT_FAILED, status := INIT_FAILED\<rparr>)))
      else
        let w1 = w0(i := (sensor_initialize (w0 i))\<lparr>init_status := INIT_SUCCESS\<rparr>) in
        map_option (\<lambda>w2. (Inr (), w2(i := start (w2 i))))
          (with_lock i (check_and_conclude_initialization fuel i) w1))"

definition tick :: "sensor \<Rightarrow> sensor" where
  "tick s = (let t = current_timeout_wait s + SENSORTHREAD_INIT_WAIT_INTERVAL in
     s\<lparr>current_timeout_wait := t,
       has_timed_out := (has_timed_out s \<or> SENSORTHREAD_INIT_WAIT_TIMEOUT < t)\<rparr>)"

definition check_and_run :: "nat \<Rightarrow> nat \<Rightarrow> world \<Rightarrow> world option" where
  "check_and_run fuel i w = map_option
     (\<lambda>w'. w'(i := (if status (w' i) \<noteq> RUNNING
         then sched_enter (nat SENSORTHREAD_INIT_WAIT_INTERVAL) CheckAndRun (w' i)
         else sched_enter 1 Run (w' i))))
     (with_lock i (\<lambda>w. check_and_conclude_initialization fuel i (w(i := tick (w i)))) w)"

section \<open>The cascade of notifications\<close>

lemma decide_frame [simp]:
  "lock_held (decide s) = lock_held s" "waiting_dependers (decide s) = waiting_dependers s"
  "remaining_dependees (decide s) = remaining_dependees s"
  "num_failed_dependees (decide s) = num_failed_dependees s"
  "current_timeout_wait (decide s) = current_timeout_wait s" "has_timed_out (decide s) = has_timed_out s"
  by (simp_all add: decide_def update_deps_def Let_def)

lemma decide_status: "status (decide s) = status s \<or> status (decide s) = RUNNING \<or> status (decide s) = FAILED"
  by (simp add: decide_def update_deps_def Let_def)

lemma decide_failed: "num_failed_dependees s \<noteq> 0 \<Longrightarrow> status (decide s) = FAILED"
  by (simp add: decide_def update_deps_def definitely_failed_def Let_def)

lemma decide_timed_out: "has_timed_out s \<Longrightarrow> status (decide s) = FAILED"
  by (simp add: decide_def update_deps_def definitely_failed_def Let_def)

lemma decide_running:
  "status s = WAITING \<Longrightarrow> deps_status s = DEPS_SUCCESS \<longrightarrow> remaining_dependees s = [] \<Longrightarrow>
    status (decide s) = RUNNING \<Longrightarrow>
    num_failed_dependees s = 0 \<and> remaining_dependees s = [] \<and> init_status s = INIT_SUCCESS"
  by (auto simp: decide_def update_deps_def definitely_failed_def definitely_succeeded_def Let_def
      split: if_splits)

lemma decide_deps:
  "deps_status s = DEPS_SUCCESS \<longrightarrow> remaining_dependees s = [] \<Longrightarrow>
    deps_status (decide s) = DEPS_SUCCESS \<longrightarrow> remaining_dependees s = []"
  by (auto simp: decide_def update_deps_def Let_def split: if_splits)

lemma record_event_frame [simp]:
  "waiting_dependers (record_event i r s) = waiting_dependers s" "status (record_event i r s) = status s"
  "lock_held (record_event i r s)" "deps_status (record_event i r s) = deps_status s"
  "current_timeout_wait (record_event i r s) = current_timeout_wait s"
  "has_timed_out (record_event i r s) = has_timed_out s"
  by (simp_all add: record_event_def)

lemma release_frame [simp]:
  "waiting_dependers (release i w j) = waiting_dependers (w j)" "status (release i w j) = status (w j)"
  "remaining_dependees (release i w j) = remaining_dependees (w j)"
  "num_failed_dependees (release i w j) = num_failed_dependees (w j)"
  "deps_status (release i w j) = deps_status (w j)"
  "current_timeout_wait (release i w j) = current_timeout_wait (w j)"
  "has_timed_out (release i w j) = has_timed_out (w j)"
  by (simp_all add: release_def)

lemma conclude_idle:
  "\<not> (lock_held (w i) \<and> status (w i) = WAITING) \<Longrightarrow> check_and_conclude_initialization n i w = Some w"
  by (auto simp: check_and_conclude_initialization.simps)

lemma conclude_wait:
  "lock_held (w i) \<Longrightarrow> status (w i) = WAITING \<Longrightarrow> status (decide (w i)) = WAITING \<Longrightarrow>
    check_and_conclude_initialization n i w = Some (w(i := decide (w i)))"
  by (simp add: check_and_conclude_initialization.simps Let_def)

lemma conclude_notify:
  "lock_held (w i) \<Longrightarrow> status (w i) = WAITING \<Longrightarrow> status (decide (w i)) \<noteq> WAITING \<Longrightarrow>
    check_and_conclude_initialization n i w =
      notify n (waiting_dependers (w i)) i (status (decide (w i)) = RUNNING) (w(i := decide (w i)))"
  by (simp add: check_and_conclude_initialization.simps Let_def)

lemma conclude_cases:
  obtains (idle) "\<not> (lock_held (w i) \<and> status (w i) = WAITING)"
    | (wait) "lock_held (w i)" "status (w i) = WAITING" "status (decide (w i)) = WAITING"
    | (concluded) "lock_held (w i)" "status (w i) = WAITING" "status (decide (w i)) \<noteq> WAITING"
  by blast

lemmas cascade_induct = event_check_and_conclude_initialization_notify.induct

text \<open>
  One-step relation of statuses: unchanged, or a waiting sensor has concluded. The cascade
  keeps who depends on whom and the timers, and gives every lock back.
\<close>

definition grows :: "world \<Rightarrow> world \<Rightarrow> bool" where
  "grows w w' \<longleftrightarrow> (\<forall>j. waiting_dependers (w' j) = waiting_dependers (w j) \<and>
     current_timeout_wait (w' j) = current_timeout_wait (w j) \<and> has_timed_out (w' j) = has_timed_out (w j) \<and>
     (status (w' j) = status (w j) \<or>
      status (w j) = WAITING \<and> (status (w' j) = RUNNING \<or> status (w' j) = FAILED)))"

lemma grows_refl: "grows w w"
  by (simp add: grows_def)

lemma grows_trans: "grows u v \<Longrightarrow> grows v w \<Longrightarrow> grows u w"
  unfolding grows_def by (metis state_distinct(1,2))

lemma grows_decide: "status (w i) = WAITING \<Longrightarrow> grows w (w(i := decide (w i)))"
  using decide_status [of "w i"] by (auto simp: grows_def)

lemma cascade_grows:
  "event n d i r w = Some w' \<Longrightarrow> grows w w'"
  "check_and_conclude_initialization n i w = Some w' \<Longrightarrow> grows w w'"
  "notify n ds i r w = Some w' \<Longrightarrow> grows w w'"
proof (induction n d i r w and n i w and n ds i r w arbitrary: w' and w' and w' rule: cascade_induct)
  case (2 n d i r w)
  then obtain w1 where run: "check_and_conclude_initialization n d (w(d := record_event i r (w d))) = Some w1"
    and w': "w' = release d w1" and free: "\<not> lock_held (w d)" by (auto split: if_splits)
  have "grows (w(d := record_event i r (w d))) w1" by (rule "2.IH" [OF free run])
  moreover have "grows w (w(d := record_event i r (w d)))" "grows w1 (release d w1)"
    by (simp_all add: grows_def)
  ultimately show ?case using w' grows_trans by blast
next
  case (3 n i w)
  show ?case
  proof (cases "lock_held (w i) \<and> status (w i) = WAITING \<and> status (decide (w i)) \<noteq> WAITING")
    case True
    with 3 have "grows (w(i := decide (w i))) w'"
      by (simp add: check_and_conclude_initialization.simps [of n i w] Let_def fun_upd_def)
    with True grows_decide grows_trans show ?thesis by blast
  next
    case False
    with 3 show ?thesis
      by (auto simp: check_and_conclude_initialization.simps [of n i w] Let_def grows_refl
          intro: grows_decide split: if_splits)
  qed
next
  case (5 n d ds i r w)
  then show ?case by (auto split: option.splits intro: grows_trans)
qed (auto simp: grows_refl)

lemma cascade_locks:
  "event n d i r w = Some w' \<Longrightarrow> lock_held (w' j) = lock_held (w j)"
  "check_and_conclude_initialization n i w = Some w' \<Longrightarrow> lock_held (w' j) = lock_held (w j)"
  "notify n ds i r w = Some w' \<Longrightarrow> lock_held (w' j) = lock_held (w j)"
proof (induction n d i r w and n i w and n ds i r w arbitrary: w' and w' and w' rule: cascade_induct)
  case (2 n d i r w)
  then obtain w1 where run: "check_and_conclude_initialization n d (w(d := record_event i r (w d))) = Some w1"
    and "w' = release d w1" and free: "\<not> lock_held (w d)" by (auto split: if_splits)
  with "2.IH" [OF free run] show ?case by (simp add: release_def split: if_splits)
next
  case (3 n i w)
  then show ?case
    by (cases w i rule: conclude_cases)
      (auto simp: conclude_idle conclude_wait conclude_notify fun_upd_def split: if_splits)
next
  case (5 n d ds i r w)
  then show ?case by (auto split: option.splits)
qed auto

text \<open>A cascade that starts from a failure only makes waiting sensors fail.\<close>

definition only_fails :: "world \<Rightarrow> world \<Rightarrow> bool" where
  "only_fails w w' \<longleftrightarrow> (\<forall>j. status (w' j) = status (w j) \<or> status (w j) = WAITING \<and> status (w' j) = FAILED)"

lemma only_fails_trans: "only_fails u v \<Longrightarrow> only_fails v w \<Longrightarrow> only_fails u w"
  unfolding only_fails_def by (metis state_distinct(2))

lemma cascade_only_fails:
  "event n d i r w = Some w' \<Longrightarrow> \<not> r \<Longrightarrow> only_fails w w' \<and> status (w' d) \<noteq> WAITING"
  "check_and_conclude_initialization n i w = Some w' \<Longrightarrow> num_failed_dependees (w i) \<noteq> 0 \<Longrightarrow>
     only_fails w w' \<and> (lock_held (w i) \<longrightarrow> status (w' i) \<noteq> WAITING)"
  "notify n ds i r w = Some w' \<Longrightarrow> \<not> r \<Longrightarrow> only_fails w w' \<and> (\<forall>d\<in>set ds. status (w' d) \<noteq> WAITING)"
proof (induction n d i r w and n i w and n ds i r w arbitrary: w' and w' and w' rule: cascade_induct)
  case (2 n d i r w)
  let ?w = "w(d := record_event i r (w d))"
  from 2 obtain w1 where run: "check_and_conclude_initialization n d ?w = Some w1"
    and w': "w' = release d w1" and free: "\<not> lock_held (w d)" by (auto split: if_splits)
  from 2 have "num_failed_dependees (?w d) \<noteq> 0" by (simp add: record_event_def)
  from "2.IH" [OF free run this] have "only_fails ?w w1" "status (w1 d) \<noteq> WAITING"
    by (simp_all add: fun_upd_def)
  moreover have "only_fails w ?w" "only_fails w1 w'" by (simp_all add: only_fails_def w')
  ultimately show ?case using w' only_fails_trans by auto
next
  case (3 n i w)
  then have dec: "status (decide (w i)) = FAILED" by (simp add: decide_failed)
  show ?case
  proof (cases "lock_held (w i) \<and> status (w i) = WAITING")
    case True
    with 3 dec have run: "notify n (waiting_dependers (w i)) i False (w(i := decide (w i))) = Some w'"
      by (auto simp: check_and_conclude_initialization.simps [of n i w] Let_def)
    from 3(1) run True dec have "only_fails (w(i := decide (w i))) w'" by (simp add: fun_upd_def)
    moreover have "only_fails w (w(i := decide (w i)))" using True dec by (simp add: only_fails_def)
    moreover have "status (w' i) = FAILED"
      using cascade_grows(3) [OF run] dec by (auto simp: grows_def dest: spec [of _ i])
    ultimately show ?thesis using only_fails_trans by auto
  next
    case False
    with 3 show ?thesis
      by (auto simp: check_and_conclude_initialization.simps [of n i w] only_fails_def split: if_splits)
  qed
next
  case (5 n d ds i r w)
  then obtain w1 where w1: "event n d i r w = Some w1" "notify n ds i r w1 = Some w'"
    by (auto split: option.splits)
  with 5 have "only_fails w w1" "status (w1 d) \<noteq> WAITING" "only_fails w1 w'"
    "\<forall>d\<in>set ds. status (w' d) \<noteq> WAITING" by auto
  moreover from this have "status (w' d) \<noteq> WAITING" by (metis only_fails_def state_distinct(5))
  ultimately show ?case using only_fails_trans by auto
qed (auto simp: only_fails_def)

section \<open>Enough fuel on acyclic dependencies\<close>

text \<open>
  \<open>ranked rk w\<close>: dependers have a smaller rank than what they depend on, so the dependencies
  are acyclic. Then the cascade meets no held lock and \<open>rk i\<close> fuel is enough.
\<close>

definition ranked :: "(nat \<Rightarrow> nat) \<Rightarrow> world \<Rightarrow> bool" where
  "ranked rk w \<longleftrightarrow> (\<forall>i. \<forall>d \<in> set (waiting_dependers (w i)). rk d < rk i)"

lemma ranked_grows: "ranked rk w \<Longrightarrow> grows w w' \<Longrightarrow> ranked rk w'"
  by (simp add: ranked_def grows_def)

lemma cascade_returns:
  "ranked rk w \<Longrightarrow> rk d < n \<Longrightarrow> \<forall>j. rk j \<le> rk d \<longrightarrow> \<not> lock_held (w j) \<Longrightarrow>
     \<exists>w'. event n d i r w = Some w'"
  "ranked rk w \<Longrightarrow> rk i \<le> n \<Longrightarrow> \<forall>j. rk j < rk i \<longrightarrow> \<not> lock_held (w j) \<Longrightarrow>
     \<exists>w'. check_and_conclude_initialization n i w = Some w'"
  "ranked rk w \<Longrightarrow> \<forall>d\<in>set ds. rk d < rk i \<Longrightarrow> rk i \<le> n \<Longrightarrow> \<forall>j. rk j < rk i \<longrightarrow> \<not> lock_held (w j) \<Longrightarrow>
     \<exists>w'. notify n ds i r w = Some w'"
proof (induction n d i r w and n i w and n ds i r w rule: cascade_induct)
  case (2 n d i r w)
  let ?w = "w(d := record_event i r (w d))"
  have free: "\<not> lock_held (w d)" using 2 by simp
  have "ranked rk ?w" using 2 by (simp add: ranked_def)
  moreover have "\<forall>j. rk j < rk d \<longrightarrow> \<not> lock_held (?w j)" using 2 by (auto simp: less_imp_le)
  ultimately have "\<exists>w1. check_and_conclude_initialization n d ?w = Some w1"
    using "2.IH" [OF free] 2(3) by (simp add: fun_upd_def)
  with free show ?case by auto
next
  case (3 n i w)
  show ?case
  proof (cases w i rule: conclude_cases)
    case concluded
    let ?w = "w(i := decide (w i))"
    have "ranked rk ?w" "\<forall>d\<in>set (waiting_dependers (w i)). rk d < rk i"
      "\<forall>j. rk j < rk i \<longrightarrow> \<not> lock_held (?w j)"
      using 3 by (auto simp: ranked_def)
    with 3(1) 3(3) concluded have "\<exists>w'. notify n (waiting_dependers (w i)) i (status (decide (w i)) = RUNNING) ?w = Some w'"
      by (simp add: fun_upd_def)
    with concluded show ?thesis by (simp add: conclude_notify)
  qed (auto simp: conclude_idle conclude_wait)
next
  case (5 n d ds i r w)
  then have "rk d < n" "\<forall>j. rk j \<le> rk d \<longrightarrow> \<not> lock_held (w j)" by auto
  with 5 obtain w1 where w1: "event n d i r w = Some w1" by blast
  then have "ranked rk w1" "\<forall>j. rk j < rk i \<longrightarrow> \<not> lock_held (w1 j)"
    using 5 cascade_grows(1) cascade_locks(1) ranked_grows by blast+
  with 5 w1 show ?case by simp
qed auto

section \<open>A sensor runs only when its dependees run\<close>

text \<open>
  The invariant, with the notifications \<open>P\<close> still to be delivered (dependee, depender):
  a depender counts a waiting dependee as remaining and a failed one as failed, and a running
  sensor has neither.
\<close>

definition dep_inv :: "(nat \<times> nat) set \<Rightarrow> world \<Rightarrow> bool" where
  "dep_inv P w \<longleftrightarrow>
     (\<forall>j. distinct (waiting_dependers (w j))) \<and>
     (\<forall>j d. d \<in> set (waiting_dependers (w j)) \<longrightarrow>
        (status (w j) = WAITING \<longrightarrow> j \<in> set (remaining_dependees (w d))) \<and>
        (status (w j) \<noteq> WAITING \<longrightarrow> status (w j) \<noteq> RUNNING \<longrightarrow> (j, d) \<notin> P \<longrightarrow> num_failed_dependees (w d) \<noteq> 0)) \<and>
     (\<forall>j d. (j, d) \<in> P \<longrightarrow> status (w j) \<noteq> WAITING \<and> j \<in> set (remaining_dependees (w d))) \<and>
     (\<forall>d. deps_status (w d) = DEPS_SUCCESS \<longrightarrow> remaining_dependees (w d) = []) \<and>
     (\<forall>d. status (w d) = RUNNING \<longrightarrow> remaining_dependees (w d) = [] \<and> num_failed_dependees (w d) = 0)"

lemma dep_inv_same:
  assumes "dep_inv P w"
    and "\<And>j. waiting_dependers (w' j) = waiting_dependers (w j)" "\<And>j. status (w' j) = status (w j)"
    and "\<And>j. remaining_dependees (w' j) = remaining_dependees (w j)"
    and "\<And>j. num_failed_dependees (w' j) = num_failed_dependees (w j)"
    and "\<And>j. deps_status (w' j) = deps_status (w j)"
  shows "dep_inv P w'"
  using assms(1) by (simp add: dep_inv_def assms(2-))

lemma upd_decide:
  "waiting_dependers ((w(i := decide (w i))) j) = waiting_dependers (w j)"
  "remaining_dependees ((w(i := decide (w i))) j) = remaining_dependees (w j)"
  "num_failed_dependees ((w(i := decide (w i))) j) = num_failed_dependees (w j)"
  by (cases "j = i"; simp)+

lemma dep_inv_decide:
  assumes inv: "dep_inv P w" and st: "status (w i) = WAITING"
  shows "dep_inv (if status (decide (w i)) = WAITING then P else {i} \<times> set (waiting_dependers (w i)) \<union> P)
    (w(i := decide (w i)))"
proof -
  have dep: "deps_status (decide (w i)) = DEPS_SUCCESS \<longrightarrow> remaining_dependees (w i) = []"
    using inv by (intro decide_deps) (auto simp: dep_inv_def)
  have run: "status (decide (w i)) = RUNNING \<Longrightarrow>
      remaining_dependees (w i) = [] \<and> num_failed_dependees (w i) = 0"
    using inv st decide_running [of "w i"] by (auto simp: dep_inv_def)
  have not_P: "\<And>d. (i, d) \<notin> P" using inv st unfolding dep_inv_def by blast
  show ?thesis
  proof (cases "status (decide (w i)) = WAITING")
    case True
    with inv st dep not_P show ?thesis unfolding dep_inv_def by simp
  next
    case False
    note inv' = inv [unfolded dep_inv_def]
    show ?thesis
      unfolding dep_inv_def upd_decide
    proof (intro conjI allI impI)
      fix j d assume "d \<in> set (waiting_dependers (w j))" "status ((w(i := decide (w i))) j) = WAITING"
      with False inv' show "j \<in> set (remaining_dependees (w d))" by (auto split: if_splits)
    next
      fix j d
      assume "d \<in> set (waiting_dependers (w j))" "status ((w(i := decide (w i))) j) \<noteq> WAITING"
        "status ((w(i := decide (w i))) j) \<noteq> RUNNING"
        "(j, d) \<notin> (if status (decide (w i)) = WAITING then P else {i} \<times> set (waiting_dependers (w i)) \<union> P)"
      with False inv' show "num_failed_dependees (w d) \<noteq> 0" by (cases "j = i") auto
    next
      fix j d
      assume jd: "(j, d) \<in> (if status (decide (w i)) = WAITING then P else {i} \<times> set (waiting_dependers (w i)) \<union> P)"
      with False inv' not_P show "status ((w(i := decide (w i))) j) \<noteq> WAITING" by (cases "j = i") auto
      from jd False inv' st show "j \<in> set (remaining_dependees (w d))" by (auto split: if_splits)
    next
      fix d assume "deps_status ((w(i := decide (w i))) d) = DEPS_SUCCESS"
      with dep inv' show "remaining_dependees (w d) = []" by (cases "d = i") auto
    next
      fix d assume "status ((w(i := decide (w i))) d) = RUNNING"
      with run inv' show "remaining_dependees (w d) = []" "num_failed_dependees (w d) = 0"
        by (cases "d = i"; auto)+
    qed (use inv' in blast)
  qed
qed

lemma dep_inv_record:
  assumes inv: "dep_inv (insert (i, d) P) w" and r: "r = (status (w i) = RUNNING)" and new: "(i, d) \<notin> P"
  shows "dep_inv P (w(d := record_event i r (w d)))"
proof -
  have i: "status (w i) \<noteq> WAITING" "i \<in> set (remaining_dependees (w d))"
    using inv unfolding dep_inv_def by blast+
  then have d: "status (w d) \<noteq> RUNNING" "deps_status (w d) \<noteq> DEPS_SUCCESS"
    using inv unfolding dep_inv_def by fastforce+
  from inv i d r new show ?thesis
    unfolding dep_inv_def record_event_def by (simp, intro conjI allI impI) (blast+ | force)+
qed

lemma cascade_dep_inv:
  "event n d i r w = Some w' \<Longrightarrow> dep_inv (insert (i, d) P) w \<Longrightarrow> (i, d) \<notin> P \<Longrightarrow>
     r = (status (w i) = RUNNING) \<Longrightarrow> dep_inv P w'"
  "check_and_conclude_initialization n i w = Some w' \<Longrightarrow> dep_inv P w \<Longrightarrow> dep_inv P w'"
  "notify n ds i r w = Some w' \<Longrightarrow> dep_inv ({i} \<times> set ds \<union> P) w \<Longrightarrow> distinct ds \<Longrightarrow>
     ({i} \<times> set ds) \<inter> P = {} \<Longrightarrow> status (w i) \<noteq> WAITING \<Longrightarrow> r = (status (w i) = RUNNING) \<Longrightarrow> dep_inv P w'"
proof (induction n d i r w and n i w and n ds i r w arbitrary: w' P and w' P and w' P rule: cascade_induct)
  case (2 n d i r w)
  then obtain w1 where run: "check_and_conclude_initialization n d (w(d := record_event i r (w d))) = Some w1"
    and w': "w' = release d w1" and free: "\<not> lock_held (w d)" by (auto split: if_splits)
  have "dep_inv P (w(d := record_event i r (w d)))" using 2 by (intro dep_inv_record) auto
  then have "dep_inv P w1" by (rule "2.IH" [OF free run])
  then show ?case unfolding w' by (rule dep_inv_same) simp_all
next
  case (3 n i w)
  show ?case
  proof (cases w i rule: conclude_cases)
    case idle
    with 3 show ?thesis by (simp add: conclude_idle)
  next
    case wait
    with 3 dep_inv_decide [of P w i] show ?thesis by (simp add: conclude_wait fun_upd_def)
  next
    case concluded
    let ?w = "w(i := decide (w i))"
    have run: "notify n (waiting_dependers (w i)) i (status (decide (w i)) = RUNNING) ?w = Some w'"
      using 3 concluded by (simp add: conclude_notify)
    have inv: "dep_inv ({i} \<times> set (waiting_dependers (w i)) \<union> P) ?w"
      using dep_inv_decide [of P w i] 3 concluded by simp
    have "({i} \<times> set (waiting_dependers (w i))) \<inter> P = {}" "distinct (waiting_dependers (w i))"
      using 3 concluded unfolding dep_inv_def by blast+
    with 3(1) run inv concluded show ?thesis by (simp add: fun_upd_def)
  qed
next
  case (5 n d ds i r w)
  then obtain w1 where w1: "event n d i r w = Some w1" and rest: "notify n ds i r w1 = Some w'"
    by (auto split: option.splits)
  have "dep_inv (insert (i, d) ({i} \<times> set ds \<union> P)) w" "(i, d) \<notin> {i} \<times> set ds \<union> P"
    using 5 by (auto simp: insert_Times_insert)
  with 5 w1 have inv1: "dep_inv ({i} \<times> set ds \<union> P) w1" by blast
  have st: "status (w1 i) = status (w i)"
    using cascade_grows(1) [OF w1] 5 by (auto simp: grows_def dest: spec [of _ i])
  show ?case
    by (rule "5.IH"(2) [OF w1 rest inv1]) (use 5 st in auto)
qed auto

section \<open>The system of sensors\<close>

text \<open>
  The steps the threads take: a successful start of a sensor, its periodic check, its
  shutdown. (A start whose \<^verbatim>\<open>initialize\<close> raises is treated apart below.)
\<close>

inductive sensor_step :: "world \<Rightarrow> world \<Rightarrow> bool" where
  start_ok: "start_thread fuel True sch i w = Some (Inr (), w') \<Longrightarrow> sensor_step w w'"
| check: "check_and_run fuel i w = Some w' \<Longrightarrow> sensor_step w w'"
| stop: "sensor_step w (w(i := shutdown (w i)))"

definition sensors_prepared :: "world \<Rightarrow> bool" where
  "sensors_prepared w \<longleftrightarrow> (\<forall>j. status (w j) = WAITING \<and> distinct (waiting_dependers (w j)) \<and>
     deps_status (w j) = DEPS_STARTING \<and>
     (\<forall>d \<in> set (waiting_dependers (w j)). j \<in> set (remaining_dependees (w d))))"

lemma with_lock_inv:
  assumes run: "with_lock i (\<lambda>w. check_and_conclude_initialization n i (w(i := f (w i)))) w = Some w'"
    and inv: "dep_inv P w"
    and f: "\<And>s. waiting_dependers (f s) = waiting_dependers s" "\<And>s. status (f s) = status s"
      "\<And>s. remaining_dependees (f s) = remaining_dependees s"
      "\<And>s. num_failed_dependees (f s) = num_failed_dependees s" "\<And>s. deps_status (f s) = deps_status s"
  shows "dep_inv P w'"
proof -
  let ?w = "w(i := f ((w i)\<lparr>lock_held := True\<rparr>))"
  from run obtain w1 where w1: "check_and_conclude_initialization n i ?w = Some w1" and w': "w' = release i w1"
    by (auto simp: with_lock_def split: if_splits)
  from inv have "dep_inv P ?w" by (rule dep_inv_same) (simp_all add: f)
  with w1 have "dep_inv P w1" by (rule cascade_dep_inv(2))
  then show ?thesis unfolding w' by (rule dep_inv_same) simp_all
qed

lemma dep_inv_step: "sensor_step w w' \<Longrightarrow> dep_inv {} w \<Longrightarrow> dep_inv {} w'"
proof (induction rule: sensor_step.induct)
  case (start_ok fuel sch i w w')
  let ?f = "\<lambda>s. s"
  let ?w = "w(i := (sensor_initialize ((w i)\<lparr>init_status := INITIALIZING\<rparr>))\<lparr>init_status := INIT_SUCCESS\<rparr>)"
  from start_ok(1) obtain w2 where w2: "with_lock i (check_and_conclude_initialization fuel i) ?w = Some w2"
    and w': "w' = w2(i := start (w2 i))" by (auto simp: start_thread_def Let_def)
  from start_ok(2) have "dep_inv {} ?w"
    by (rule dep_inv_same) (simp_all add: sensor_initialize_def sched_enter_def)
  then have "dep_inv {} w2" using with_lock_inv [of i fuel ?f ?w w2] w2 by simp
  then show ?case unfolding w' by (rule dep_inv_same) (simp_all add: start_def)
next
  case (check fuel i w w')
  then obtain w2 where w2: "with_lock i (\<lambda>w. check_and_conclude_initialization fuel i (w(i := tick (w i)))) w = Some w2"
    and w': "w' = w2(i := (if status (w2 i) \<noteq> RUNNING
         then sched_enter (nat SENSORTHREAD_INIT_WAIT_INTERVAL) CheckAndRun (w2 i)
         else sched_enter 1 Run (w2 i)))"
    by (auto simp: check_and_run_def)
  have "dep_inv {} w2" using with_lock_inv [OF w2 check(2)] by (simp add: tick_def Let_def)
  then show ?case unfolding w' by (rule dep_inv_same) (simp_all add: sched_enter_def)
next
  case (stop w i)
  then show ?case by (rule dep_inv_same) (simp_all add: shutdown_def sched_enter_def)
qed

interpretation sensors: invariant_system sensors_prepared sensor_step "dep_inv {}"
proof unfold_locales
  fix w assume "sensors_prepared w"
  then show "dep_inv {} w" by (simp add: sensors_prepared_def dep_inv_def)
next
  fix w w' assume "dep_inv {} w" and "sensor_step w w'"
  then show "dep_inv {} w'" by (rule dep_inv_step [rotated])
qed

section \<open>Checks return and time out\<close>

definition unlocked :: "world \<Rightarrow> bool" where
  "unlocked w \<longleftrightarrow> (\<forall>j. \<not> lock_held (w j))"

lemma check_and_run_run:
  assumes "ranked rk w" and "unlocked w" and "rk i \<le> fuel"
  shows "\<exists>w'. check_and_run fuel i w = Some w' \<and> ranked rk w' \<and> unlocked w' \<and>
     current_timeout_wait (w' i) = current_timeout_wait (w i) + SENSORTHREAD_INIT_WAIT_INTERVAL \<and>
     (status (w i) \<noteq> WAITING \<longrightarrow> status (w' i) \<noteq> WAITING) \<and>
     (SENSORTHREAD_INIT_WAIT_TIMEOUT < current_timeout_wait (w i) + SENSORTHREAD_INIT_WAIT_INTERVAL \<longrightarrow>
        status (w' i) \<noteq> WAITING)"
proof -
  let ?w = "w(i := tick ((w i)\<lparr>lock_held := True\<rparr>))"
  have rk: "ranked rk ?w" using assms(1) by (simp add: ranked_def tick_def Let_def)
  have "\<forall>j. rk j < rk i \<longrightarrow> \<not> lock_held (?w j)" using assms(2) by (auto simp: unlocked_def)
  from cascade_returns(2) [OF rk assms(3) this] obtain w1 where
    run: "check_and_conclude_initialization fuel i ?w = Some w1" by blast
  define w' where "w' = (let w2 = release i w1 in w2(i := (if status (w2 i) \<noteq> RUNNING
         then sched_enter (nat SENSORTHREAD_INIT_WAIT_INTERVAL) CheckAndRun (w2 i)
         else sched_enter 1 Run (w2 i))))"
  have chk: "check_and_run fuel i w = Some w'"
    using assms(2) run by (simp add: check_and_run_def with_lock_def unlocked_def w'_def Let_def)
  have g: "grows ?w w1" by (rule cascade_grows(2) [OF run])
  have fr: "waiting_dependers (w' j) = waiting_dependers (w1 j)" "status (w' j) = status (w1 j)"
    "current_timeout_wait (w' j) = current_timeout_wait (w1 j)" for j
    by (simp_all add: w'_def Let_def sched_enter_def)
  have "lock_held (w' j) = (if j = i then False else lock_held (w1 j))" for j
    by (simp add: w'_def Let_def sched_enter_def release_def)
  then have "unlocked w'"
    using assms(2) cascade_locks(2) [OF run] by (auto simp: unlocked_def)
  moreover have "ranked rk w'" using ranked_grows [OF rk g] by (simp add: ranked_def fr)
  moreover have "current_timeout_wait (w' i) = current_timeout_wait (w i) + SENSORTHREAD_INIT_WAIT_INTERVAL"
    using g by (simp add: fr grows_def tick_def Let_def)
  moreover have "status (w i) \<noteq> WAITING \<longrightarrow> status (w' i) \<noteq> WAITING"
    using g by (auto simp: fr grows_def tick_def Let_def dest: spec [of _ i])
  moreover have "status (w1 i) \<noteq> WAITING" if "has_timed_out (?w i)"
  proof (cases ?w i rule: conclude_cases)
    case concluded
    with run have "notify fuel (waiting_dependers (?w i)) i (status (decide (?w i)) = RUNNING) (?w(i := decide (?w i))) = Some w1"
      by (simp add: conclude_notify)
    from cascade_grows(3) [OF this] concluded show ?thesis by (auto simp: grows_def dest: spec [of _ i])
  qed (use run that decide_timed_out [of "?w i"] in \<open>auto simp: conclude_idle tick_def Let_def\<close>)
  ultimately show ?thesis using chk by (auto simp: fr tick_def Let_def)
qed

fun run_checks :: "nat \<Rightarrow> nat \<Rightarrow> nat \<Rightarrow> world \<Rightarrow> world option" where
  "run_checks 0 fuel i w = Some w"
| "run_checks (Suc k) fuel i w = (case check_and_run fuel i w of
     None \<Rightarrow> None | Some w' \<Rightarrow> run_checks k fuel i w')"

lemma run_checks_concludes:
  assumes "ranked rk w" and "unlocked w" and "rk i \<le> fuel"
    and "300 < current_timeout_wait (w i) + 10 * int k \<or> status (w i) \<noteq> WAITING"
    and "current_timeout_wait (w i) \<le> 300 \<or> status (w i) \<noteq> WAITING"
  shows "\<exists>w'. run_checks k fuel i w = Some w' \<and> unlocked w' \<and> status (w' i) \<noteq> WAITING"
  using assms
proof (induction k arbitrary: w)
  case 0
  then show ?case by auto
next
  case (Suc k)
  from check_and_run_run [OF Suc.prems(1-3)] obtain w1 where w1: "check_and_run fuel i w = Some w1"
    "ranked rk w1" "unlocked w1" "current_timeout_wait (w1 i) = current_timeout_wait (w i) + 10"
    "status (w i) \<noteq> WAITING \<longrightarrow> status (w1 i) \<noteq> WAITING"
    "300 < current_timeout_wait (w i) + 10 \<longrightarrow> status (w1 i) \<noteq> WAITING"
    by (auto simp: SENSORTHREAD_INIT_WAIT_TIMEOUT_def SENSORTHREAD_INIT_WAIT_INTERVAL_def)
  have "\<exists>w'. run_checks k fuel i w1 = Some w' \<and> unlocked w' \<and> status (w' i) \<noteq> WAITING"
    by (rule Suc.IH [OF w1(2,3) Suc.prems(3)]) (use w1 Suc.prems(4,5) in auto)
  with w1(1) show ?case by simp
qed

section \<open>Properties\<close>

text \<open>Two sensors, number 1 depends on number 0.\<close>

definition demo_world :: world where
  "demo_world = (\<lambda>_. new_sensor)(0 := new_sensor\<lparr>waiting_dependers := [1]\<rparr>,
     1 := new_sensor\<lparr>remaining_dependees := [0]\<rparr>)"

definition demo_started :: world where
  "demo_started = snd (the (start_thread 2 True True 1 (snd (the (start_thread 2 True True 0 demo_world)))))"

lemma demo_facts:
  "sensors_prepared demo_world" "ranked (\<lambda>i. if i = 0 then 1 else 0) demo_world" "unlocked demo_world"
  by (auto simp: sensors_prepared_def demo_world_def new_sensor_def ranked_def unlocked_def)



text \<open>
  C27. Every sensor settles: with acyclic dependencies and free locks, 31 periodic checks (the
  300 seconds of \<^verbatim>\<open>SENSORTHREAD_INIT_WAIT_TIMEOUT\<close> at 10 seconds each) always return, give all
  locks back and end with the sensor running or failed, whatever its dependees do.
\<close>

theorem sensor_settles_in_31_checks:
  assumes "ranked rk w" and "unlocked w" and "rk i \<le> fuel" and "current_timeout_wait (w i) = 0"
  shows "\<exists>w'. run_checks 31 fuel i w = Some w' \<and> unlocked w' \<and> status (w' i) \<noteq> WAITING"
  by (rule run_checks_concludes [OF assms(1-3)]) (simp_all add: assms(4))

theorem sensor_settles_in_31_checks_witness:
  "\<exists>w'. run_checks 31 1 0 demo_world = Some w' \<and> unlocked w' \<and> status (w' 0) \<noteq> WAITING"
  by (rule sensor_settles_in_31_checks [OF demo_facts(2,3)])
    (simp_all add: demo_world_def new_sensor_def)

text \<open>
  Failure spreads: when a waiting sensor concludes as failed, then afterwards it is
  failed, so is every waiting sensor that depends on it, and no sensor has become running by
  the cascade.
\<close>

lemma failure_reaches_dependers:
  assumes "check_and_conclude_initialization n i w = Some w'"
    and "lock_held (w i)" and "status (w i) = WAITING" and "definitely_failed (update_deps (w i))"
  shows "status (w' i) = FAILED \<and>
     (\<forall>d \<in> set (waiting_dependers (w i)). status (w d) = WAITING \<longrightarrow> status (w' d) = FAILED) \<and>
     (\<forall>j. status (w' j) = RUNNING \<longrightarrow> status (w j) = RUNNING)"
proof -
  have dec: "status (decide (w i)) = FAILED" using assms(4) by (simp add: decide_def Let_def)
  with assms have run: "notify n (waiting_dependers (w i)) i False (w(i := decide (w i))) = Some w'"
    by (simp add: conclude_notify)
  note f = cascade_only_fails(3) [OF run, unfolded only_fails_def]
  have i: "status (w' i) = FAILED" using f dec by (auto dest: spec [of _ i])
  moreover have "\<forall>d \<in> set (waiting_dependers (w i)). status (w d) = WAITING \<longrightarrow> status (w' d) = FAILED"
    using f i by (metis fun_upd_other)
  moreover have "\<forall>j. status (w' j) = RUNNING \<longrightarrow> status (w j) = RUNNING"
    using f i by (metis fun_upd_other state_distinct(6))
  ultimately show ?thesis by blast
qed

lemma failure_reaches_dependers_witness:
  "let w = demo_world(0 := (demo_world 0)\<lparr>lock_held := True, has_timed_out := True\<rparr>) in
   \<exists>w'. check_and_conclude_initialization 1 0 w = Some w' \<and> status (w' 0) = FAILED \<and> status (w' 1) = FAILED"
proof -
  define w where "w = demo_world(0 := (demo_world 0)\<lparr>lock_held := True, has_timed_out := True\<rparr>)"
  have rk: "ranked (\<lambda>i. if i = 0 then 1 else 0) w"
    by (simp add: w_def ranked_def demo_world_def new_sensor_def)
  have free: "\<forall>j. (if j = 0 then 1 else 0) < (if (0::nat) = 0 then 1 else (0::nat)) \<longrightarrow> \<not> lock_held (w j)"
    by (simp add: w_def demo_world_def new_sensor_def)
  obtain w' where run: "check_and_conclude_initialization 1 0 w = Some w'"
    using cascade_returns(2) [OF rk _ free] by auto
  have "lock_held (w 0)" "status (w 0) = WAITING" "definitely_failed (update_deps (w 0))"
    by (simp_all add: w_def demo_world_def new_sensor_def definitely_failed_def update_deps_def)
  from failure_reaches_dependers [OF run this] run show ?thesis
    unfolding Let_def w_def [symmetric] by (auto simp: w_def demo_world_def new_sensor_def)
qed

text \<open>
  A sensor whose \<^verbatim>\<open>initialize\<close> raised is reported as running: \<^verbatim>\<open>start_thread\<close> passes the
  exception on, but assigns \<^verbatim>\<open>InitState.INIT_FAILED\<close> (1) to the status, which is the value of
  \<^verbatim>\<open>SensorThreadState.RUNNING\<close>; no depender is told, all other sensors are untouched.
\<close>

lemma failed_initialize_reports_running:
  "\<exists>w'. start_thread fuel False scheduled i w = Some (Inl PyException, w') \<and>
     status (w' i) = RUNNING \<and> w'(i := w i) = w"
  by (auto simp: start_thread_def Let_def state_defs)

end
