(* ===== verification/Thread_Controller.thy ===== *)
theory Thread_Controller
  imports Store_Queue Internal_MsgQ Json_Msgs
begin

text \<open>
  \<^verbatim>\<open>framework/messaging/thread_controller.py\<close>: the thread that runs every module with recovery
  attempts, raises and resolves module alerts, and answers start, stop, restart, status, degrade
  and active requests. A module is seen through the methods the controller calls; each module
  class overrides them, so they are arguments (\<open>tc_env\<close>), as are the configuration store and
  the host name. \<^verbatim>\<open>Thread(...).start()\<close> only records the thread as spawned: what it runs is
  \<open>execute_thread\<close>.
\<close>

record tmodule =
  tm_running :: bool
  tm_suspended :: bool
  tm_sensor :: bool
  tm_waiting :: bool

type_synonym tm_method = "tmodule \<Rightarrow> unit res \<times> tmodule"

record tc_env =
  m_suspend :: "string \<Rightarrow> tm_method"
  m_resume :: "string \<Rightarrow> tm_method"
  m_shutdown :: "string \<Rightarrow> tm_method"
  m_start_thread :: "string \<Rightarrow> nat \<Rightarrow> tm_method"
  m_impact :: "string \<Rightarrow> pyv res"
  sspl_conf :: "string \<Rightarrow> pyv \<Rightarrow> pyv"
  exn_text :: "py_exn \<Rightarrow> string"
  tc_node_id :: string
  tc_msgs :: msg_env
  tc_now :: string
  tc_alert_id :: string
  hostname :: string
  tc_product :: string
  hpi_dir_present :: "nat \<Rightarrow> bool"

record tc_state =
  tc_fs :: fs
  module_persistent_data :: "(string \<times> pyv) list"
  tc_q :: "nat msgq"
  sspl_modules :: "(string \<times> tmodule) list"
  slept :: "int list"
  start_attempts :: "string list"
  spawned :: "string list"
  checkers :: "string list"
  alerts :: "(string \<times> string) list"
  thread_response :: string
  debug_section :: pyv
  threads_initialized :: bool
  modules_to_resume :: "string list"
  tc_sched :: "nat list"

definition on_tc_q :: "(nat msgq, 'a) proc \<Rightarrow> (tc_state, 'a) proc" where
  "on_tc_q m s = (case m (tc_q s) of (r, q) \<Rightarrow> (r, s\<lparr>tc_q := q\<rparr>))"

text \<open>A method call on \<^verbatim>\<open>_sspl_modules[name]\<close>.\<close>

definition on_module :: "string \<Rightarrow> tm_method \<Rightarrow> (tc_state, unit) proc" where
  "on_module name f s = (case map_of (sspl_modules s) name of
     None \<Rightarrow> (Inl KeyError, s)
   | Some m \<Rightarrow> (case f m of (r, m') \<Rightarrow> (r, s\<lparr>sspl_modules := AList.update name m' (sspl_modules s)\<rparr>)))"

definition the_module :: "string \<Rightarrow> (tc_state, tmodule) proc" where
  "the_module name = bindp (getp (\<lambda>s. map_of (sspl_modules s) name)) (\<lambda>m.
     case m of None \<Rightarrow> raise KeyError | Some m \<Rightarrow> ret m)"

definition module_is_running :: "string \<Rightarrow> (tc_state, bool) proc" where
  "module_is_running name = bindp (the_module name) (\<lambda>m. ret (tm_running m))"

definition get_sspl_module :: "string \<Rightarrow> tc_state \<Rightarrow> tmodule option" where
  "get_sspl_module name s = map_of (sspl_modules s) name"

section \<open>Running a module\<close>

definition module_cache_dir :: string where
  "module_cache_dir = path_join DATA_PATH ''modules''"

definition per_data_path :: "tc_env \<Rightarrow> string \<Rightarrow> string" where
  "per_data_path env name = path_join module_cache_dir (upper name @ ''_'' @ tc_node_id env)"

definition get_recovery_config :: "tc_env \<Rightarrow> string \<Rightarrow> pyv \<times> pyv" where
  "get_recovery_config env module_name =
     (let recovery_count = sspl_conf env ''SSPL_LL_SETTING>sensor_recovery_count'' (PInt 0);
          recovery_interval = sspl_conf env ''SSPL_LL_SETTING>sensor_recovery_interval'' (PInt 0)
      in (sspl_conf env (upper module_name @ ''>sensor_recovery_count'') recovery_count,
          sspl_conf env (upper module_name @ ''>sensor_recovery_interval'') recovery_interval))"

definition put_persistent :: "tc_env \<Rightarrow> string \<Rightarrow> pyv \<Rightarrow> (tc_state, unit) proc" where
  "put_persistent env name v = modp (\<lambda>s. s\<lparr>module_persistent_data := AList.update name v (module_persistent_data s),
     tc_fs := store_put v (per_data_path env name) True (tc_fs s)\<rparr>)"

definition init_persistent :: "tc_env \<Rightarrow> string \<Rightarrow> (tc_state, unit) proc" where
  "init_persistent env name = bindp (getp (\<lambda>s. isfile (tc_fs s) (per_data_path env name))) (\<lambda>there.
     if there then ret () else put_persistent env name (PDict []))"

definition load_persistent :: "tc_env \<Rightarrow> string \<Rightarrow> (tc_state, unit) proc" where
  "load_persistent env name = modp (\<lambda>s. s\<lparr>module_persistent_data :=
     AList.update name (store_get (tc_fs s) (per_data_path env name)) (module_persistent_data s)\<rparr>)"

definition prev_state :: "string \<Rightarrow> (tc_state, pyv) proc" where
  "prev_state name = bindp (getp (\<lambda>s. map_of (module_persistent_data s) name)) (\<lambda>d.
     case d of None \<Rightarrow> raise KeyError | Some d \<Rightarrow> liftp (get_key d ''prev_state''))"

text \<open>The info dictionary of an alert, its message and the write to the egress queue.\<close>

definition send_module_alert :: "tc_env \<Rightarrow> string \<Rightarrow> string \<Rightarrow> pyv \<Rightarrow> pyv \<Rightarrow> pyv \<Rightarrow> string \<Rightarrow> (tc_state, unit) proc" where
  "send_module_alert env module_name curr_state description impact recommendation severity =
     bindp (liftp (bindr (ThreadMonitorMsg (tc_msgs env) (tc_now env) (tc_alert_id env)
         (PDict [(''module_name'', PStr module_name), (''alert_type'', PStr curr_state),
           (''description'', description), (''impact'', impact), (''recommendation'', recommendation),
           (''severity'', PStr severity), (''specific_info'', sspl_conf env (upper module_name) PNone)]))
       (sensor_getJson (tc_msgs env)))) (\<lambda>jsonMsg.
     seqp (on_tc_q (write_internal_msgQ ''EgressProcessor'' (PStr jsonMsg) None))
          (modp (\<lambda>s. s\<lparr>alerts := alerts s @ [(module_name, curr_state)]\<rparr>)))"

text \<open>The branch of the exception handler that gives up.\<close>

definition module_failed :: "tc_env \<Rightarrow> string \<Rightarrow> bool \<Rightarrow> py_exn \<Rightarrow> (tc_state, unit) proc" where
  "module_failed env module_name is_sensor_thread err =
     (let description = module_name @ '' is stopped and unrecoverable. '' @ module_name @ '', '' @ exn_text env err in
      bindp (liftp (m_impact env module_name)) (\<lambda>impact.
      seqp (bindp (getp (\<lambda>s. isfile (tc_fs s) (per_data_path env module_name))) (\<lambda>there.
              if there then load_persistent env module_name else ret ()))
      (bindp (prev_state module_name) (\<lambda>prev.
        if is_sensor_thread \<and> PStr ''fault'' \<noteq> prev then
          seqp (put_persistent env module_name (PDict [(''prev_state'', PStr ''fault'')]))
               (send_module_alert env module_name ''fault'' (PStr description) impact
                  (PStr ''Restart SSPL service'') ''critical'')
        else ret ()))))"

definition time_sleep :: "int \<Rightarrow> (tc_state, unit) proc" where
  "time_sleep n = modp (\<lambda>s. s\<lparr>slept := slept s @ [n]\<rparr>)"

primrec shutdown_retry :: "nat \<Rightarrow> tc_env \<Rightarrow> string \<Rightarrow> (tc_state, unit) proc" where
  "shutdown_retry 0 env name = ret ()"
| "shutdown_retry (Suc retry) env name = bindp (module_is_running name) (\<lambda>running.
     if running then seqp (on_module name (m_shutdown env name))
       (if retry = 0 then ret () else seqp (time_sleep 2) (shutdown_retry retry env name))
     else ret ())"

definition terminate :: "tc_env \<Rightarrow> string \<Rightarrow> (tc_state, unit) proc" where
  "terminate env name = seqp (on_module name (m_shutdown env name)) (shutdown_retry 5 env name)"

definition run_attempt :: "tc_env \<Rightarrow> string \<Rightarrow> bool \<Rightarrow> int \<Rightarrow> pyv \<Rightarrow> nat \<Rightarrow> (tc_state, unit) proc" where
  "run_attempt env name is_sensor recovery_count recovery_interval attempt = tryp
     (seqp (modp (\<lambda>s. s\<lparr>start_attempts := start_attempts s @ [name]\<rparr>))
           (on_module name (m_start_thread env name attempt)))
     (\<lambda>err. seqp
        (if recovery_count < int attempt then module_failed env name is_sensor err
         else bindp (liftp (as_int recovery_interval)) time_sleep)
        (terminate env name))"

text \<open>\<open>n\<close> more turns of the loop, the last one being attempt \<open>total\<close>.\<close>

primrec attempts :: "nat \<Rightarrow> tc_env \<Rightarrow> string \<Rightarrow> bool \<Rightarrow> int \<Rightarrow> pyv \<Rightarrow> nat \<Rightarrow> (tc_state, unit) proc" where
  "attempts 0 env name is_sensor recovery_count recovery_interval attempt = ret ()"
| "attempts (Suc n) env name is_sensor recovery_count recovery_interval attempt =
     seqp (run_attempt env name is_sensor recovery_count recovery_interval (Suc attempt))
          (attempts n env name is_sensor recovery_count recovery_interval (Suc attempt))"

definition execute_thread :: "tc_env \<Rightarrow> string \<Rightarrow> bool \<Rightarrow> (tc_state, unit) proc" where
  "execute_thread env name resume =
     seqp (if \<not> resume then on_module name (m_suspend env name) else ret ())
     (seqp (init_persistent env name)
     (bindp (the_module name) (\<lambda>m.
        let (recovery_count, recovery_interval) =
              (if tm_sensor m then get_recovery_config env name else (PInt 0, PInt 0)) in
        bindp (liftp (as_int recovery_count)) (\<lambda>count.
          attempts (nat (count + 1)) env name (tm_sensor m) count recovery_interval 0))))"

definition check_module_recovered :: "tc_env \<Rightarrow> string \<Rightarrow> (tc_state, unit) proc" where
  "check_module_recovered env name =
     bindp (liftp (as_int (sspl_conf env ''SSPL_LL_SETTING>sensor_polling_cycle_time'' (PInt 60)))) (\<lambda>cycle.
     seqp (time_sleep cycle)
     (bindp (module_is_running name) (\<lambda>running.
       if \<not> running then ret ()
       else seqp (init_persistent env name) (seqp (load_persistent env name)
         (bindp (prev_state name) (\<lambda>prev.
            if truthy prev \<and> PStr ''fault_resolved'' \<noteq> prev then
              seqp (put_persistent env name (PDict [(''prev_state'', PStr ''fault_resolved'')]))
                   (send_module_alert env name ''fault_resolved'' (PStr (name @ '' is recovered''))
                      (PStr []) (PStr []) ''info'')
            else ret ()))))))"

section \<open>ThreadController\<close>

definition enabled_products :: "string list" where
  "enabled_products = [''CS-A'', ''SINGLE'', ''DUAL'', ''CLUSTER'', ''LDR_R1'', ''LR2'']"

definition cs_products :: "string list" where
  "cs_products = [''CS-A'']"

definition cs_legacy_products :: "string list" where
  "cs_legacy_products = [''CS-L'', ''CS-G'']"

definition product_in :: "tc_env \<Rightarrow> string list \<Rightarrow> bool" where
  "product_in env products = (lower (tc_product env) \<in> set (map lower products))"

definition respond :: "string \<Rightarrow> (tc_state, unit) proc" where
  "respond r = modp (\<lambda>s. s\<lparr>thread_response := r\<rparr>)"

definition status_module :: "string \<Rightarrow> (tc_state, bool) proc" where
  "status_module name = bindp (module_is_running name) (\<lambda>running.
     seqp (respond (if running then ''Status: Running'' else ''Status: Halted''))
          (module_is_running name))"

definition write_debug_section :: "string \<Rightarrow> (tc_state, unit) proc" where
  "write_debug_section name = bindp (getp debug_section) (\<lambda>d.
     if d \<noteq> PNone then on_tc_q (write_internal_msgQ name d None) else ret ())"

definition stop_module :: "tc_env \<Rightarrow> string \<Rightarrow> (tc_state, unit) proc" where
  "stop_module env name = tryp
     (bindp (status_module name) (\<lambda>running.
        if \<not> running then ret ()
        else seqp (respond ''Stop Successful'')
             (seqp (write_debug_section name) (on_module name (m_shutdown env name)))))
     (\<lambda>_. respond ''Stop Failed'')"

definition start_module :: "string \<Rightarrow> (tc_state, unit) proc" where
  "start_module name = tryp
     (bindp (status_module name) (\<lambda>running.
        if running then ret ()
        else seqp (respond ''Start Successful'')
             (bindp (the_module name) (\<lambda>_.
              seqp (write_debug_section name)
                   (modp (\<lambda>s. s\<lparr>spawned := spawned s @ [name]\<rparr>))))))
     (\<lambda>_. respond ''Start Failed'')"

text \<open>The loop that waits for a module to stop: \<open>n\<close> retries left.\<close>

primrec stop_wait :: "nat \<Rightarrow> tc_env \<Rightarrow> string \<Rightarrow> (tc_state, unit) proc" where
  "stop_wait 0 env name = ret ()"
| "stop_wait (Suc n) env name = bindp (status_module name) (\<lambda>running.
     if running then seqp (time_sleep 3) (seqp (stop_module env name)
       (if n = 0 then ret () else stop_wait n env name))
     else ret ())"

definition restart_module :: "tc_env \<Rightarrow> string \<Rightarrow> (tc_state, unit) proc" where
  "restart_module env name = tryp
     (seqp (bindp (status_module name) (\<lambda>running. if running then stop_module env name else ret ()))
     (seqp (stop_wait 10 env name)
     (seqp (start_module name) (respond ''Restart Successful''))))
     (\<lambda>_. respond ''Restart Failed'')"

definition switch_to_degraded_state :: "tc_env \<Rightarrow> (tc_state, unit) proc" where
  "switch_to_degraded_state env = bindp (getp (\<lambda>s. map fst (sspl_modules s))) (\<lambda>names.
     if names = [] then raise TypeError
     else tryp
       (seqp (forp names (\<lambda>name. bindp (getp modules_to_resume) (\<lambda>keep.
                if name \<notin> set keep then on_module name (m_suspend env name) else ret ())))
             (respond ''Degrade Successful''))
       (\<lambda>_. respond ''Degrade failed''))"

definition switch_to_active_state :: "tc_env \<Rightarrow> (tc_state, unit) proc" where
  "switch_to_active_state env = bindp (getp (\<lambda>s. map fst (sspl_modules s))) (\<lambda>names.
     if names = [] then raise TypeError
     else tryp
       (seqp (forp names (\<lambda>name. on_module name (m_resume env name))) (respond ''Active Successful''))
       (\<lambda>_. respond ''Active failed''))"

definition send_response :: "tc_env \<Rightarrow> pyv \<Rightarrow> pyv \<Rightarrow> pyv \<Rightarrow> pyv \<Rightarrow> (tc_state, unit) proc" where
  "send_response env module_name response ack_type uuid =
     bindp (liftp (bindr (ThreadControllerMsg (tc_msgs env) module_name response ack_type) (\<lambda>m.
        bindr (if uuid = PNone then Inr m else set_uuid uuid m) (actuator_getJson (tc_msgs env))))) (\<lambda>msgString.
     on_tc_q (write_internal_msgQ ''EgressProcessor'' (PStr msgString) None))"

definition check_reset_all_modules :: "tc_env \<Rightarrow> pyv \<Rightarrow> (tc_state, bool) proc" where
  "check_reset_all_modules env jsonMsg =
     bindp (liftp (get_key jsonMsg ''sspl_ll_debug'')) (\<lambda>debug.
     bindp (if debug = PNone then ret PNone else liftp (get_key debug ''debug_component'')) (\<lambda>component.
       if component = PStr ''all'' then
         bindp (getp (\<lambda>s. map fst (sspl_modules s))) (\<lambda>names.
         seqp (forp (filter (\<lambda>n. n \<noteq> ''ThreadController'') names) (restart_module env))
         (seqp (send_response env (PStr ''All Modules'') (PStr ''Restarted with debug mode off'') (PStr ''N/A'') PNone)
               (ret True)))
       else ret False))"

definition ALWAYS_ACTIVE_MODULES :: "string list" where
  "ALWAYS_ACTIVE_MODULES = [''EgressProcessor'', ''IngressProcessor'', ''ThreadController'']"

text \<open>\<^verbatim>\<open>_sspl_modules[module_name]\<close> for a value that is no string: not there, or not hashable.\<close>

definition with_name ::
  "pyv \<Rightarrow> (string \<Rightarrow> (tc_state, 'a) proc) \<Rightarrow> (py_exn \<Rightarrow> (tc_state, 'a) proc) \<Rightarrow> (tc_state, 'a) proc" where
  "with_name v f bad = (case v of PStr n \<Rightarrow> f n | PList _ \<Rightarrow> bad TypeError | PDict _ \<Rightarrow> bad TypeError
     | _ \<Rightarrow> bad KeyError)"

text \<open>
  The request part of \<^verbatim>\<open>_process_msg\<close>. The result says whether the handler goes on to answer:
  the three early returns give \<open>False\<close>.
\<close>

definition dispatch_request :: "tc_env \<Rightarrow> pyv \<Rightarrow> pyv \<Rightarrow> (tc_state, bool) proc" where
  "dispatch_request env module_name thread_request =
     (if thread_request = PStr ''restart'' then seqp (with_name module_name (restart_module env) (\<lambda>_. respond ''Restart Failed'')) (ret True)
      else if thread_request = PStr ''start'' then seqp (with_name module_name start_module (\<lambda>_. respond ''Start Failed'')) (ret True)
      else if thread_request = PStr ''stop'' then
        (if module_name \<in> PStr ` set ALWAYS_ACTIVE_MODULES then ret False
         else seqp (with_name module_name (stop_module env) (\<lambda>_. respond ''Stop Failed'')) (ret True))
      else if thread_request = PStr ''status'' then seqp (with_name module_name status_module raise) (ret True)
      else if thread_request = PStr ''degrade'' then
        bindp (liftp (lower_method module_name)) (\<lambda>n.
          if n \<noteq> ''all'' then ret False else seqp (switch_to_degraded_state env) (ret True))
      else if thread_request = PStr ''active'' then
        bindp (liftp (lower_method module_name)) (\<lambda>n.
          if n \<noteq> ''all'' then ret False else seqp (switch_to_active_state env) (ret True))
      else seqp (respond ''Error, unrecognized thread request'') (ret True))"

definition tc_path :: "string list" where
  "tc_path = [''actuator_request_type'', ''thread_controller'']"

definition request_node_id :: "pyv \<Rightarrow> pyv res" where
  "request_node_id jsonMsg = bindr (get_path jsonMsg (tc_path @ [''parameters''])) (\<lambda>params.
     if params = PNone then Inr (PList [])
     else bindr (get_key params ''node_id'') (\<lambda>n. Inr (if truthy n then n else PList [])))"

definition request_uuid :: "pyv \<Rightarrow> pyv res" where
  "request_uuid jsonMsg = bindr (get_key jsonMsg ''sspl_ll_msg_header'') (\<lambda>h.
     if h = PNone then Inr PNone else get_key h ''uuid'')"

definition process_msg :: "tc_env \<Rightarrow> pyv \<Rightarrow> (tc_state, unit) proc" where
  "process_msg env jsonMsg =
     bindp (check_reset_all_modules env jsonMsg) (\<lambda>reset.
       if reset then ret ()
       else
         bindp (liftp (get_path jsonMsg (tc_path @ [''module_name'']))) (\<lambda>module_name.
         bindp (liftp (get_path jsonMsg (tc_path @ [''thread_request'']))) (\<lambda>thread_request.
         bindp (liftp (request_uuid jsonMsg)) (\<lambda>uuid.
         bindp (liftp (get_key jsonMsg ''sspl_ll_debug'')) (\<lambda>debug.
         seqp (modp (\<lambda>s. s\<lparr>debug_section := (if debug = PNone then PNone else PDict [(''sspl_ll_debug'', debug)])\<rparr>))
         (bindp (dispatch_request env module_name thread_request) (\<lambda>answer.
           if \<not> answer then ret ()
           else
             bindp (liftp (request_node_id jsonMsg)) (\<lambda>node_id.
             bindp (getp thread_response) (\<lambda>response.
             bindp (liftp (json_dumps (PDict [(''hostname'', PStr (hostname env)), (''node_id'', node_id)]))) (\<lambda>ack_type.
               if product_in env enabled_products \<or> product_in env cs_legacy_products
               then send_response env module_name (PStr response) (PStr ack_type) uuid
               else bindp (liftp (bindr (ThreadControllerMsg (tc_msgs env) module_name (PStr response) (PStr ack_type)) (\<lambda>m.
                  bindr (if uuid = PNone then Inr m else set_uuid uuid m) (actuator_getJson (tc_msgs env))))) (\<lambda>_. ret ())))))))))))"

definition shutdown_all_modules :: "tc_env \<Rightarrow> (tc_state, unit) proc" where
  "shutdown_all_modules env = bindp (getp (\<lambda>s. map fst (sspl_modules s))) (\<lambda>names.
     forp names (\<lambda>name. on_module name (m_shutdown env name)))"

text \<open>\<^verbatim>\<open>None\<close> for a product in neither list.\<close>

definition check_EgressProcessor_is_running :: "tc_env \<Rightarrow> (tc_state, pyv) proc" where
  "check_EgressProcessor_is_running env =
     (if product_in env enabled_products \<or> product_in env cs_legacy_products
      then bindp (module_is_running ''EgressProcessor'') (\<lambda>b. ret (PBool b)) else ret PNone)"

definition tc_initialize :: "tc_env \<Rightarrow> tc_state \<Rightarrow> tc_state" where
  "tc_initialize env s = s\<lparr>tc_sched := tc_sched s @ [1],
     modules_to_resume := (case sspl_conf env ''SSPL_LL_SETTING>degraded_state_modules'' (PList []) of
       PList xs \<Rightarrow> concat (map (\<lambda>x. case x of PStr n \<Rightarrow> [n] | _ \<Rightarrow> []) xs) | _ \<Rightarrow> [])\<rparr>"

text \<open>The wait for the HPI directory: \<open>None\<close> when it is not there after \<open>fuel\<close> looks.\<close>

primrec wait_hpi :: "nat \<Rightarrow> nat \<Rightarrow> tc_env \<Rightarrow> tc_state \<Rightarrow> tc_state option" where
  "wait_hpi 0 k env s = None"
| "wait_hpi (Suc fuel) k env s =
     (if hpi_dir_present env k then Some s else wait_hpi fuel (Suc k) env (snd (time_sleep 10 s)))"

definition some_waiting :: "tc_state \<Rightarrow> bool" where
  "some_waiting s = list_ex (\<lambda>(n, m). tm_sensor m \<and> tm_waiting m) (sspl_modules s)"

text \<open>The start-up part of \<^verbatim>\<open>run\<close>; the result says whether \<^verbatim>\<open>run\<close> goes on.\<close>

definition tc_startup :: "tc_env \<Rightarrow> (tc_state, bool) proc" where
  "tc_startup env = bindp (getp some_waiting) (\<lambda>wait.
     if wait then seqp (modp (\<lambda>s. s\<lparr>tc_sched := tc_sched s @ [10]\<rparr>)) (ret False)
     else
       seqp (send_response env (PStr ''ThreadController'') (PStr ''SSPL-LL service has started successfully'')
               (PStr ''N/A'') PNone)
       (seqp (modp (\<lambda>s. s\<lparr>threads_initialized := True,
                checkers := checkers s @ map fst (filter (tm_sensor \<circ> snd) (sspl_modules s))\<rparr>))
             (ret True)))"

primrec tc_drain :: "nat \<Rightarrow> tc_env \<Rightarrow> (string \<Rightarrow> pyv res) \<Rightarrow> bool \<Rightarrow> tc_state \<Rightarrow> tc_state option" where
  "tc_drain 0 env loads first s = None"
| "tc_drain (Suc fuel) env loads first s =
     (case is_my_msgQ_empty ''ThreadController'' (tc_q s) of
        (Inl _, _) \<Rightarrow> Some s
      | (Inr idle, _) \<Rightarrow>
        if \<not> first \<and> idle then Some s
        else case read_my_msgQ loads ''ThreadController'' (tc_q s) of
          (Blocked, _) \<Rightarrow> None
        | (Got (jsonMsg, _), q) \<Rightarrow>
            (case (if jsonMsg = PNone then ret () else process_msg env jsonMsg) (s\<lparr>tc_q := q\<rparr>) of
               (Inl _, s') \<Rightarrow> Some s'
             | (Inr _, s') \<Rightarrow> tc_drain fuel env loads False s'))"

definition tc_run :: "nat \<Rightarrow> tc_env \<Rightarrow> (string \<Rightarrow> pyv res) \<Rightarrow> tc_state \<Rightarrow> (unit res \<times> tc_state) option" where
  "tc_run fuel env loads s =
     (let serve = (\<lambda>s. map_option (\<lambda>s. (Inr (), s\<lparr>tc_sched := tc_sched s @ [1]\<rparr>)) (tc_drain fuel env loads True s)) in
      if product_in env enabled_products \<and> \<not> threads_initialized s then
        (case (if product_in env cs_products then wait_hpi fuel 0 env s else Some s) of
           None \<Rightarrow> None
         | Some s1 \<Rightarrow> (case tc_startup env s1 of
             (Inl e, s2) \<Rightarrow> Some (Inl e, s2)
           | (Inr False, s2) \<Rightarrow> Some (Inr (), s2)
           | (Inr True, s2) \<Rightarrow> serve s2))
      else serve s)"

section \<open>Module alerts\<close>

definition cached :: "tc_env \<Rightarrow> string \<Rightarrow> tc_state \<Rightarrow> pyv" where
  "cached env name s = store_get (tc_fs s) (per_data_path env name)"

definition last_alert :: "tc_env \<Rightarrow> string \<Rightarrow> tc_state \<Rightarrow> string option" where
  "last_alert env name s = (case cached env name s of
     PDict d \<Rightarrow> (case look d ''prev_state'' of PStr p \<Rightarrow> Some p | _ \<Rightarrow> None) | _ \<Rightarrow> None)"

definition alerts_of :: "string \<Rightarrow> tc_state \<Rightarrow> string list" where
  "alerts_of name s = map snd (filter (\<lambda>a. fst a = name) (alerts s))"

text \<open>The state file of the module can be written, holds a dictionary if it exists, and there is an egress queue.\<close>

definition cache_ok :: "tc_env \<Rightarrow> string \<Rightarrow> tc_state \<Rightarrow> bool" where
  "cache_ok env name s \<longleftrightarrow> fs_wf (tc_fs s) \<and> writable (tc_fs s) (per_data_path env name) \<and>
     (isfile (tc_fs s) (per_data_path env name) \<longrightarrow> (\<exists>d. cached env name s = PDict d)) \<and>
     map_of (msgQlist (tc_q s)) ''EgressProcessor'' \<noteq> None"

text \<open>Every module alert passes the schema and can be dumped.\<close>

definition alerts_build :: "tc_env \<Rightarrow> string \<Rightarrow> bool" where
  "alerts_build env name \<longleftrightarrow> (\<forall>alert_type desc impact recomm sev. m_impact env name = Inr impact \<or> impact = PStr [] \<longrightarrow>
     (\<exists>j. bindr (ThreadMonitorMsg (tc_msgs env) (tc_now env) (tc_alert_id env)
         (PDict [(''module_name'', PStr name), (''alert_type'', PStr alert_type),
           (''description'', PStr desc), (''impact'', impact), (''recommendation'', PStr recomm),
           (''severity'', PStr sev), (''specific_info'', sspl_conf env (upper name) PNone)]))
       (sensor_getJson (tc_msgs env)) = Inr j))"

lemma send_module_alert_run:
  assumes "alerts_build env name" and "m_impact env name = Inr impact \<or> impact = PStr []"
    and "map_of (msgQlist (tc_q s)) ''EgressProcessor'' \<noteq> None"
  shows "\<exists>q. send_module_alert env name a (PStr d) impact (PStr r) sev s =
      (Inr (), s\<lparr>tc_q := q, alerts := alerts s @ [(name, a)]\<rparr>) \<and> map_of (msgQlist q) ''EgressProcessor'' \<noteq> None"
proof -
  from assms(3) obtain ms where ms: "map_of (msgQlist (tc_q s)) ''EgressProcessor'' = Some ms" by blast
  from assms(1,2) obtain j where
    "bindr (ThreadMonitorMsg (tc_msgs env) (tc_now env) (tc_alert_id env)
         (PDict [(''module_name'', PStr name), (''alert_type'', PStr a),
           (''description'', PStr d), (''impact'', impact), (''recommendation'', PStr r),
           (''severity'', PStr sev), (''specific_info'', sspl_conf env (upper name) PNone)]))
       (sensor_getJson (tc_msgs env)) = Inr j"
    unfolding alerts_build_def by blast
  with write_run [OF ms, of "PStr j" None] show ?thesis
    by (intro exI conjI) (simp add: send_module_alert_def bindp_def liftp_def seqp_def on_tc_q_def modp_def, simp)
qed

lemma isfile_put: "writable f k \<Longrightarrow> isfile (store_put v k b f) k"
  by (simp add: store_put_writable isfile_def)

lemma cached_put:
  assumes "cache_ok env name s"
  shows "\<exists>s'. put_persistent env name (PDict d) s = (Inr (), s') \<and> cache_ok env name s' \<and>
     cached env name s' = PDict d \<and> isfile (tc_fs s') (per_data_path env name) \<and> alerts s' = alerts s \<and>
     sspl_modules s' = sspl_modules s \<and> start_attempts s' = start_attempts s"
  using assms
  by (auto simp: put_persistent_def modp_def cache_ok_def cached_def store_get_put_pickled store_put_wf
      isfile_put writable_put indep_writable)

lemma init_persistent_run:
  assumes "cache_ok env name s"
  shows "\<exists>s'. init_persistent env name s = (Inr (), s') \<and> cache_ok env name s' \<and>
     isfile (tc_fs s') (per_data_path env name) \<and> last_alert env name s' = last_alert env name s \<and>
     alerts s' = alerts s \<and> sspl_modules s' = sspl_modules s \<and> start_attempts s' = start_attempts s"
proof (cases "isfile (tc_fs s) (per_data_path env name)")
  case True
  then show ?thesis using assms by (simp add: init_persistent_def bindp_def getp_def ret_def)
next
  case False
  then have "cached env name s = PNone"
    using assms by (simp add: cached_def cache_ok_def fs_wf_get isfile_def)
  then have none: "last_alert env name s = None" by (simp add: last_alert_def)
  obtain s' where "put_persistent env name (PDict []) s = (Inr (), s')" "cache_ok env name s'"
    "cached env name s' = PDict []" "isfile (tc_fs s') (per_data_path env name)" "alerts s' = alerts s"
    "sspl_modules s' = sspl_modules s" "start_attempts s' = start_attempts s"
    using cached_put [OF assms, of "[]"] by blast
  with False none show ?thesis
    by (simp add: init_persistent_def bindp_def getp_def last_alert_def look_def)
qed

lemma last_alert_cached:
  "cached env name s = PDict d \<Longrightarrow> last_alert env name s = Some p \<longleftrightarrow> look d ''prev_state'' = PStr p"
  by (auto simp: last_alert_def split: pyv.splits)

text \<open>Remembering \<open>a\<close> and raising it.\<close>

lemma remember_and_send:
  assumes ok: "cache_ok env name s" and build: "alerts_build env name"
    and imp: "m_impact env name = Inr impact \<or> impact = PStr []"
  shows "\<exists>s'. seqp (put_persistent env name (PDict [(''prev_state'', PStr a)]))
      (send_module_alert env name a (PStr d) impact (PStr r) sev) s = (Inr (), s') \<and>
     cache_ok env name s' \<and> isfile (tc_fs s') (per_data_path env name) \<and> last_alert env name s' = Some a \<and>
     alerts s' = alerts s @ [(name, a)] \<and> sspl_modules s' = sspl_modules s \<and> start_attempts s' = start_attempts s"
proof -
  obtain s1 where s1: "put_persistent env name (PDict [(''prev_state'', PStr a)]) s = (Inr (), s1)"
      "cache_ok env name s1" "cached env name s1 = PDict [(''prev_state'', PStr a)]"
      "isfile (tc_fs s1) (per_data_path env name)" "alerts s1 = alerts s" "sspl_modules s1 = sspl_modules s"
      "start_attempts s1 = start_attempts s"
    using cached_put [OF ok] by blast
  obtain q where q: "send_module_alert env name a (PStr d) impact (PStr r) sev s1 =
      (Inr (), s1\<lparr>tc_q := q, alerts := alerts s1 @ [(name, a)]\<rparr>)" "map_of (msgQlist q) ''EgressProcessor'' \<noteq> None"
    using send_module_alert_run [OF build imp, of s1] s1(2) unfolding cache_ok_def by blast
  have "last_alert env name s1 = Some a" using s1(3) by (simp add: last_alert_def look_def)
  with s1 q show ?thesis
    by (intro exI [of _ "s1\<lparr>tc_q := q, alerts := alerts s1 @ [(name, a)]\<rparr>"])
      (auto simp: seqp_def cache_ok_def cached_def last_alert_def)
qed

lemma load_prev:
  assumes "cached env name s = PDict d"
  shows "\<exists>s'. load_persistent env name s = (Inr (), s') \<and> prev_state name s' = (Inr (look d ''prev_state''), s') \<and>
     tc_fs s' = tc_fs s \<and> tc_q s' = tc_q s \<and> alerts s' = alerts s \<and> sspl_modules s' = sspl_modules s \<and>
     start_attempts s' = start_attempts s"
  using assms by (simp add: load_persistent_def prev_state_def cached_def py_exec look_def)

lemma module_failed_run:
  assumes ok: "cache_ok env name s" and there: "isfile (tc_fs s) (per_data_path env name)"
    and build: "alerts_build env name" and imp: "m_impact env name = Inr impact"
  shows "\<exists>s'. module_failed env name sensor err s = (Inr (), s') \<and> cache_ok env name s' \<and>
     isfile (tc_fs s') (per_data_path env name) \<and>
     alerts s' = alerts s @ (if sensor \<and> last_alert env name s \<noteq> Some ''fault'' then [(name, ''fault'')] else []) \<and>
     last_alert env name s' = (if sensor then Some ''fault'' else last_alert env name s) \<and>
     sspl_modules s' = sspl_modules s \<and> start_attempts s' = start_attempts s"
proof -
  obtain d where d: "cached env name s = PDict d" using ok there by (auto simp: cache_ok_def)
  obtain s1 where s1: "load_persistent env name s = (Inr (), s1)"
      "prev_state name s1 = (Inr (look d ''prev_state''), s1)" "tc_fs s1 = tc_fs s" "tc_q s1 = tc_q s"
      "alerts s1 = alerts s" "sspl_modules s1 = sspl_modules s" "start_attempts s1 = start_attempts s"
    using load_prev [OF d] by blast
  have ok1: "cache_ok env name s1" and same: "last_alert env name s1 = last_alert env name s"
    using ok s1 by (simp_all add: cache_ok_def cached_def last_alert_def)
  let ?desc = "name @ '' is stopped and unrecoverable. '' @ name @ '', '' @ exn_text env err"
  obtain s2 where s2: "seqp (put_persistent env name (PDict [(''prev_state'', PStr ''fault'')]))
      (send_module_alert env name ''fault'' (PStr ?desc) impact (PStr ''Restart SSPL service'') ''critical'') s1 = (Inr (), s2)"
     "cache_ok env name s2" "isfile (tc_fs s2) (per_data_path env name)" "last_alert env name s2 = Some ''fault''"
     "alerts s2 = alerts s1 @ [(name, ''fault'')]" "sspl_modules s2 = sspl_modules s1" "start_attempts s2 = start_attempts s1"
    using remember_and_send [OF ok1 build disjI1, of impact "''fault''" ?desc] imp by blast
  have changed: "PStr ''fault'' \<noteq> look d ''prev_state'' \<longleftrightarrow> last_alert env name s \<noteq> Some ''fault''"
    unfolding last_alert_cached [OF d] by (rule arg_cong [where f = Not], rule eq_commute)
  have "module_failed env name sensor err s = (if sensor \<and> PStr ''fault'' \<noteq> look d ''prev_state''
      then seqp (put_persistent env name (PDict [(''prev_state'', PStr ''fault'')]))
        (send_module_alert env name ''fault'' (PStr ?desc) impact (PStr ''Restart SSPL service'') ''critical'') s1
      else (Inr (), s1))"
    using s1(1,2) there imp
    by (simp add: module_failed_def Let_def bindp_def liftp_def getp_def ret_def seqp_def [where n = "bindp _ _"])
  then have run: "module_failed env name sensor err s =
      (if sensor \<and> last_alert env name s \<noteq> Some ''fault'' then (Inr (), s2) else (Inr (), s1))"
    unfolding changed s2(1) .
  show ?thesis using run s1 s2 ok1 same there by (cases "sensor \<and> last_alert env name s \<noteq> Some ''fault''") auto
qed

section \<open>A module that cannot be started\<close>

definition never_starts :: "tc_env \<Rightarrow> string \<Rightarrow> bool" where
  "never_starts env name \<longleftrightarrow> (\<forall>k m. \<exists>e m'. m_start_thread env name k m = (Inl e, m'))"

text \<open>What \<^verbatim>\<open>ScheduledModuleThread.shutdown\<close> does: the module is not running afterwards.\<close>

definition stops :: "tc_env \<Rightarrow> string \<Rightarrow> bool" where
  "stops env name \<longleftrightarrow> (\<forall>m. \<exists>m'. m_shutdown env name m = (Inr (), m') \<and> \<not> tm_running m')"

definition halted :: "string \<Rightarrow> tc_state \<Rightarrow> bool" where
  "halted name s \<longleftrightarrow> (\<exists>m. map_of (sspl_modules s) name = Some m \<and> \<not> tm_running m)"

lemma shutdown_retry_halted: "halted name s \<Longrightarrow> shutdown_retry n env name s = (Inr (), s)"
  by (cases n) (auto simp: halted_def module_is_running_def the_module_def py_exec)

lemma terminate_run:
  assumes "stops env name" and "map_of (sspl_modules s) name \<noteq> None"
  shows "\<exists>ms. terminate env name s = (Inr (), s\<lparr>sspl_modules := ms\<rparr>) \<and> halted name (s\<lparr>sspl_modules := ms\<rparr>)"
proof -
  from assms(2) obtain m where m: "map_of (sspl_modules s) name = Some m" by blast
  from assms(1) obtain m' where m': "m_shutdown env name m = (Inr (), m')" "\<not> tm_running m'"
    unfolding stops_def by blast
  let ?s' = "s\<lparr>sspl_modules := AList.update name m' (sspl_modules s)\<rparr>"
  have halt: "halted name ?s'" using m'(2) by (simp add: halted_def)
  have "terminate env name s = shutdown_retry 5 env name ?s'"
    by (simp add: terminate_def on_module_def m m' seqp_def)
  then show ?thesis using shutdown_retry_halted [OF halt] halt by metis
qed

lemma cache_ok_frame:
  assumes "tc_fs s' = tc_fs s" and "tc_q s' = tc_q s"
  shows "cache_ok env name s' = cache_ok env name s" and "last_alert env name s' = last_alert env name s"
  using assms by (simp_all add: cache_ok_def last_alert_def cached_def)

lemma failed_start_run:
  assumes "never_starts env name" and "map_of (sspl_modules s) name \<noteq> None"
  shows "\<exists>e ms. seqp (modp (\<lambda>s. s\<lparr>start_attempts := start_attempts s @ [name]\<rparr>))
      (on_module name (m_start_thread env name k)) s =
     (Inl e, s\<lparr>start_attempts := start_attempts s @ [name], sspl_modules := ms\<rparr>) \<and> map_of ms name \<noteq> None"
proof -
  from assms(2) obtain m where m: "map_of (sspl_modules s) name = Some m" by blast
  from assms(1) obtain e m' where m': "m_start_thread env name k m = (Inl e, m')"
    unfolding never_starts_def by blast
  show ?thesis
    by (intro exI [of _ e] exI [of _ "AList.update name m' (sspl_modules s)"])
      (simp add: on_module_def m m' py_exec)
qed

lemma run_attempt_fails:
  assumes mod: "never_starts env name" "stops env name" "map_of (sspl_modules s) name \<noteq> None"
    and ok: "cache_ok env name s" "isfile (tc_fs s) (per_data_path env name)"
    and build: "alerts_build env name" "m_impact env name = Inr impact" and ri: "as_int interval = Inr ri"
  shows "\<exists>s'. run_attempt env name sensor rc interval k s = (Inr (), s') \<and> cache_ok env name s' \<and>
     isfile (tc_fs s') (per_data_path env name) \<and> halted name s' \<and> start_attempts s' = start_attempts s @ [name] \<and>
     alerts s' = alerts s @ (if rc < int k \<and> sensor \<and> last_alert env name s \<noteq> Some ''fault'' then [(name, ''fault'')] else []) \<and>
     last_alert env name s' = (if rc < int k \<and> sensor then Some ''fault'' else last_alert env name s)"
proof -
  obtain e ms where start: "seqp (modp (\<lambda>s. s\<lparr>start_attempts := start_attempts s @ [name]\<rparr>))
      (on_module name (m_start_thread env name k)) s =
     (Inl e, s\<lparr>start_attempts := start_attempts s @ [name], sspl_modules := ms\<rparr>)" "map_of ms name \<noteq> None"
    using failed_start_run [OF mod(1,3)] by blast
  let ?s1 = "s\<lparr>start_attempts := start_attempts s @ [name], sspl_modules := ms\<rparr>"
  let ?h = "if rc < int k then module_failed env name sensor e else bindp (liftp (as_int interval)) time_sleep"
  have s1: "cache_ok env name ?s1" "isfile (tc_fs ?s1) (per_data_path env name)"
      "last_alert env name ?s1 = last_alert env name s"
    using ok by (simp_all add: cache_ok_frame [of ?s1 s])
  obtain s2 where s2: "?h ?s1 = (Inr (), s2)" "cache_ok env name s2" "isfile (tc_fs s2) (per_data_path env name)"
      "sspl_modules s2 = ms" "start_attempts s2 = start_attempts s @ [name]"
      "alerts s2 = alerts s @ (if rc < int k \<and> sensor \<and> last_alert env name s \<noteq> Some ''fault'' then [(name, ''fault'')] else [])"
      "last_alert env name s2 = (if rc < int k \<and> sensor then Some ''fault'' else last_alert env name s)"
  proof (cases "rc < int k")
    case True
    then show ?thesis using that module_failed_run [OF s1(1,2) build, of sensor e] s1(3) by fastforce
  next
    case False
    then show ?thesis using that [of "?s1\<lparr>slept := slept s @ [ri]\<rparr>"] s1 ri ok
      by (simp add: time_sleep_def py_exec cache_ok_frame [of "?s1\<lparr>slept := slept s @ [ri]\<rparr>" s])
  qed
  obtain ms' where tm: "terminate env name s2 = (Inr (), s2\<lparr>sspl_modules := ms'\<rparr>)" "halted name (s2\<lparr>sspl_modules := ms'\<rparr>)"
    using terminate_run [OF mod(2), of s2] s2(4) start(2) by auto
  have "run_attempt env name sensor rc interval k s = (Inr (), s2\<lparr>sspl_modules := ms'\<rparr>)"
    unfolding run_attempt_def tryp_def start(1) using s2(1) tm(1) by (simp add: seqp_def)
  with s2 tm(2) show ?thesis
    by (intro exI [of _ "s2\<lparr>sspl_modules := ms'\<rparr>"]) (simp add: cache_ok_frame [of "s2\<lparr>sspl_modules := ms'\<rparr>" s2])
qed

lemma attempts_fail:
  assumes mod: "never_starts env name" "stops env name"
    and build: "alerts_build env name" "m_impact env name = Inr impact" and ri: "as_int interval = Inr ri"
  shows "int (a + Suc n) = rc + 1 \<Longrightarrow> map_of (sspl_modules s) name \<noteq> None \<Longrightarrow> cache_ok env name s \<Longrightarrow>
    isfile (tc_fs s) (per_data_path env name) \<Longrightarrow>
    \<exists>s'. attempts (Suc n) env name sensor rc interval a s = (Inr (), s') \<and> cache_ok env name s' \<and> halted name s' \<and>
     start_attempts s' = start_attempts s @ replicate (Suc n) name \<and>
     alerts s' = alerts s @ (if sensor \<and> last_alert env name s \<noteq> Some ''fault'' then [(name, ''fault'')] else []) \<and>
     last_alert env name s' = (if sensor then Some ''fault'' else last_alert env name s)"
proof (induction n arbitrary: a s)
  case 0
  then have "rc < int (Suc a)" by simp
  with run_attempt_fails [OF mod 0(2-4) build ri, of sensor rc "Suc a"] show ?case
    by (auto simp: seqp_def ret_def)
next
  case (Suc n)
  then have "\<not> rc < int (Suc a)" by simp
  with run_attempt_fails [OF mod Suc.prems(2-4) build ri, of sensor rc "Suc a"] obtain s1 where
    s1: "run_attempt env name sensor rc interval (Suc a) s = (Inr (), s1)" "cache_ok env name s1"
      "isfile (tc_fs s1) (per_data_path env name)" "halted name s1" "start_attempts s1 = start_attempts s @ [name]"
      "alerts s1 = alerts s" "last_alert env name s1 = last_alert env name s"
    by auto
  have "map_of (sspl_modules s1) name \<noteq> None" using s1(4) by (auto simp: halted_def)
  from Suc.IH [OF _ this s1(2,3), of "Suc a"] Suc.prems(1) s1 show ?case
    by (auto simp: seqp_def replicate_append_same)
qed

section \<open>Alerts of a module never repeat\<close>

text \<open>Where a run of the module that started with \<open>p0\<close> remembered and \<open>l0\<close> raised can be.\<close>

definition run_inv :: "tc_env \<Rightarrow> string \<Rightarrow> string option \<Rightarrow> string list \<Rightarrow> tc_state \<Rightarrow> bool" where
  "run_inv env name p0 l0 s \<longleftrightarrow> cache_ok env name s \<and> isfile (tc_fs s) (per_data_path env name) \<and>
     (last_alert env name s = p0 \<and> alerts_of name s = l0 \<or>
      p0 \<noteq> Some ''fault'' \<and> last_alert env name s = Some ''fault'' \<and> alerts_of name s = l0 @ [''fault''])"

lemma run_inv_frame:
  "tc_fs s' = tc_fs s \<Longrightarrow> tc_q s' = tc_q s \<Longrightarrow> alerts s' = alerts s \<Longrightarrow> run_inv env name p0 l0 s' = run_inv env name p0 l0 s"
  by (simp add: run_inv_def cache_ok_frame [of s' s] alerts_of_def)

lemma keeps_run_modp:
  "(\<And>s. tc_fs (f s) = tc_fs s \<and> tc_q (f s) = tc_q s \<and> alerts (f s) = alerts s) \<Longrightarrow>
    keeps (run_inv env name p0 l0) (modp f)"
  using run_inv_frame by (intro keeps_modp) metis

lemma keeps_run_module [keeps_rules]: "keeps (run_inv env name p0 l0) (on_module n f)"
  by (rule keepsI)
    (auto simp: on_module_def run_inv_frame [where s' = "_\<lparr>sspl_modules := _\<rparr>"] split: option.splits prod.splits)

lemma keeps_run_running [keeps_rules]: "keeps (run_inv env name p0 l0) (module_is_running n)"
  by (rule keepsI) (simp add: module_is_running_def the_module_def py_exec split: option.splits)

lemma keeps_run_the: "keeps (run_inv env name p0 l0) (the_module n)"
  by (rule keepsI) (simp add: the_module_def py_exec split: option.splits)

lemma keeps_run_sleep [keeps_rules]: "keeps (run_inv env name p0 l0) (time_sleep n)"
  unfolding time_sleep_def by (rule keeps_run_modp) simp

lemma keeps_run_retry [keeps_rules]: "keeps (run_inv env name p0 l0) (shutdown_retry k env n)"
proof (induction k)
  case (Suc k)
  then show ?case unfolding shutdown_retry.simps by (intro keeps_rules)
qed (simp add: keeps_ret)

lemma keeps_run_failed:
  assumes "alerts_build env name"
  shows "keeps (run_inv env name p0 l0) (module_failed env name sensor err)"
proof (rule keepsI)
  fix s
  assume inv: "run_inv env name p0 l0 s"
  show "run_inv env name p0 l0 (snd (module_failed env name sensor err s))"
  proof (cases "m_impact env name")
    case (Inl e)
    then show ?thesis using inv by (simp add: module_failed_def Let_def py_exec)
  next
    case (Inr impact)
    then show ?thesis
      using module_failed_run [OF _ _ assms Inr, of s sensor err] inv
      by (cases "last_alert env name s = Some ''fault''"; cases sensor) (auto simp: run_inv_def alerts_of_def)
  qed
qed

lemma keeps_run_attempts:
  assumes "alerts_build env name"
  shows "keeps (run_inv env name p0 l0) (attempts n env name sensor rc interval a)"
proof (induction n arbitrary: a)
  case (Suc n)
  have "keeps (run_inv env name p0 l0) (run_attempt env name sensor rc interval k)" for k
    unfolding run_attempt_def terminate_def
    by (intro keeps_rules keeps_run_failed [OF assms] keeps_run_modp) auto
  then show ?case unfolding attempts.simps by (intro keeps_seqp Suc.IH)
qed (simp add: keeps_ret)

lemma execute_thread_inv:
  assumes ok: "cache_ok env name s" and build: "alerts_build env name"
    and run: "execute_thread env name resume s = (r, s')"
  shows "run_inv env name (last_alert env name s) (alerts_of name s) s' \<or>
    cache_ok env name s' \<and> last_alert env name s' = last_alert env name s \<and> alerts_of name s' = alerts_of name s"
proof -
  let ?I = "run_inv env name (last_alert env name s) (alerts_of name s)"
  let ?susp = "if \<not> resume then on_module name (m_suspend env name) else ret ()"
  obtain t s1 where s1: "?susp s = (t, s1)" by fastforce
  have frame: "tc_fs s1 = tc_fs s" "tc_q s1 = tc_q s" "alerts s1 = alerts s"
    using s1 by (auto simp: on_module_def ret_def split: if_splits option.splits prod.splits)
  show ?thesis
  proof (cases t)
    case (Inl e)
    then have "s' = s1" using run s1 by (simp add: execute_thread_def seqp_def)
    then show ?thesis using ok frame by (simp add: cache_ok_frame [OF frame(1,2)] alerts_of_def)
  next
    case (Inr u)
    have "cache_ok env name s1" using ok frame by (simp add: cache_ok_frame [OF frame(1,2)])
    from init_persistent_run [OF this] obtain s2 where s2: "init_persistent env name s1 = (Inr (), s2)"
        "cache_ok env name s2" "isfile (tc_fs s2) (per_data_path env name)"
        "last_alert env name s2 = last_alert env name s1" "alerts s2 = alerts s1" by blast
    have "?I s2" using s2 frame by (simp add: run_inv_def cache_ok_frame [OF frame(1,2)] alerts_of_def)
    moreover have "keeps ?I (bindp (the_module name) (\<lambda>m.
        let (recovery_count, recovery_interval) =
              (if tm_sensor m then get_recovery_config env name else (PInt 0, PInt 0)) in
        bindp (liftp (as_int recovery_count)) (\<lambda>count.
          attempts (nat (count + 1)) env name (tm_sensor m) count recovery_interval 0)))"
      by (intro keeps_bindp keeps_run_the)
        (auto simp: Let_def intro!: keeps_bindp keeps_liftp keeps_run_attempts [OF build] split: prod.splits)
    ultimately have "?I s'"
      using run s1 Inr s2(1) keepsD by (fastforce simp: execute_thread_def seqp_def)
    then show ?thesis by blast
  qed
qed

lemma check_recovered_run:
  assumes ok: "cache_ok env name s" and build: "alerts_build env name"
    and conf: "as_int (sspl_conf env ''SSPL_LL_SETTING>sensor_polling_cycle_time'' (PInt 60)) = Inr cycle"
    and m: "map_of (sspl_modules s) name = Some m" and running: "tm_running m"
  shows "\<exists>s'. check_module_recovered env name s = (Inr (), s') \<and> cache_ok env name s' \<and>
     (last_alert env name s' = last_alert env name s \<and> alerts s' = alerts s \<and>
        (\<forall>p. last_alert env name s = Some p \<longrightarrow> p = [] \<or> p = ''fault_resolved'') \<or>
      last_alert env name s \<noteq> Some ''fault_resolved'' \<and> last_alert env name s' = Some ''fault_resolved'' \<and>
        alerts s' = alerts s @ [(name, ''fault_resolved'')])"
proof -
  let ?s0 = "s\<lparr>slept := slept s @ [cycle]\<rparr>"
  have ok0: "cache_ok env name ?s0" and l0: "last_alert env name ?s0 = last_alert env name s"
    using ok by (simp_all add: cache_ok_frame [of ?s0 s])
  obtain s1 where s1: "init_persistent env name ?s0 = (Inr (), s1)" "cache_ok env name s1"
      "isfile (tc_fs s1) (per_data_path env name)" "last_alert env name s1 = last_alert env name s" "alerts s1 = alerts s"
    using init_persistent_run [OF ok0] l0 by auto
  obtain d where d: "cached env name s1 = PDict d" using s1(2,3) by (auto simp: cache_ok_def)
  obtain s2 where s2: "load_persistent env name s1 = (Inr (), s2)"
      "prev_state name s2 = (Inr (look d ''prev_state''), s2)" "tc_fs s2 = tc_fs s1" "tc_q s2 = tc_q s1"
      "alerts s2 = alerts s1"
    using load_prev [OF d] by blast
  have pd: "last_alert env name s = Some p \<longleftrightarrow> look d ''prev_state'' = PStr p" for p
    using last_alert_cached [OF d] s1(4) by simp
  have ok2: "cache_ok env name s2" "last_alert env name s2 = last_alert env name s"
    using s1(2,4) by (simp_all add: cache_ok_frame [OF s2(3,4)])
  let ?send = "seqp (put_persistent env name (PDict [(''prev_state'', PStr ''fault_resolved'')]))
      (send_module_alert env name ''fault_resolved'' (PStr (name @ '' is recovered'')) (PStr []) (PStr []) ''info'')"
  obtain s3 where s3: "?send s2 = (Inr (), s3)" "cache_ok env name s3" "last_alert env name s3 = Some ''fault_resolved''"
      "alerts s3 = alerts s2 @ [(name, ''fault_resolved'')]"
    using remember_and_send [OF ok2(1) build, of "PStr []"] by blast
  let ?c = "truthy (look d ''prev_state'') \<and> PStr ''fault_resolved'' \<noteq> look d ''prev_state''"
  have "check_module_recovered env name s = (if ?c then ?send s2 else (Inr (), s2))"
    using s1(1) s2(1,2) m running
    by (simp add: check_module_recovered_def conf time_sleep_def module_is_running_def the_module_def py_exec)
  with s3 s2(5) s1(5) ok2 pd show ?thesis by (cases ?c) auto
qed

lemma check_recovered_step:
  assumes ok: "cache_ok env name s" and build: "alerts_build env name"
    and run: "check_module_recovered env name s = (r, s')"
  shows "cache_ok env name s' \<and> alert_step (last_alert env name s) (alerts_of name s)
    (last_alert env name s') (alerts_of name s')"
proof -
  have idle: ?thesis if "tc_fs s' = tc_fs s" "tc_q s' = tc_q s" "alerts s' = alerts s"
    using that ok by (simp add: cache_ok_frame [OF that(1,2)] alert_step_def alerts_of_def)
  show ?thesis
  proof (cases "as_int (sspl_conf env ''SSPL_LL_SETTING>sensor_polling_cycle_time'' (PInt 60))")
    case (Inl e)
    with run idle show ?thesis by (simp add: check_module_recovered_def py_exec)
  next
    case conf: (Inr cycle)
    show ?thesis
    proof (cases "\<exists>m. map_of (sspl_modules s) name = Some m \<and> tm_running m")
      case False
      with run idle conf show ?thesis
        by (auto simp: check_module_recovered_def time_sleep_def module_is_running_def the_module_def py_exec
            split: option.splits)
    next
      case True
      then obtain m where m: "map_of (sspl_modules s) name = Some m" "tm_running m" by blast
      from check_recovered_run [OF ok build conf m] run
      have ok': "cache_ok env name s'" and "last_alert env name s' = last_alert env name s \<and> alerts s' = alerts s \<or>
        last_alert env name s \<noteq> Some ''fault_resolved'' \<and> last_alert env name s' = Some ''fault_resolved'' \<and>
        alerts s' = alerts s @ [(name, ''fault_resolved'')]" by auto
      then show ?thesis unfolding alert_step_def alerts_of_def by (elim disjE) (simp_all add: ok')
    qed
  qed
qed

text \<open>
  What can happen to a module: a run of its thread, the check after a start of the daemon, and
  a restart of the daemon, which loses everything but the files.
\<close>

inductive module_step :: "tc_env \<Rightarrow> string \<Rightarrow> tc_state \<Rightarrow> tc_state \<Rightarrow> bool" for env name where
  run: "execute_thread env name resume s = (r, s') \<Longrightarrow> module_step env name s s'"
| recovered: "check_module_recovered env name s = (r, s') \<Longrightarrow> module_step env name s s'"
| restart: "module_step env name s (s\<lparr>module_persistent_data := [], sspl_modules := ms, threads_initialized := False\<rparr>)"

lemma module_step_alert:
  assumes "cache_ok env name s" and "alerts_build env name" and "module_step env name s s'"
  shows "cache_ok env name s' \<and> alert_step (last_alert env name s) (alerts_of name s)
    (last_alert env name s') (alerts_of name s')"
  using assms(3)
proof cases
  case (run resume r)
  from execute_thread_inv [OF assms(1,2) run] show ?thesis
    by (auto simp: run_inv_def alert_step_def)
next
  case (recovered r)
  from check_recovered_step [OF assms(1,2) recovered] show ?thesis .
next
  case (restart ms)
  then show ?thesis using assms(1)
    by (simp add: cache_ok_def cached_def last_alert_def alert_step_def alerts_of_def)
qed

interpretation modules: alert_log "\<lambda>s. cache_ok env name s \<and> alerts_build env name" "module_step env name"
    "last_alert env name" "alerts_of name" for env name
  by unfold_locales (auto dest: module_step_alert)

lemma alerts_build_ok:
  assumes env: "msg_env_ok (tc_msgs env)" and conf: "json_able (sspl_conf env (upper name) PNone)"
    and imp: "\<And>impact. m_impact env name = Inr impact \<Longrightarrow> json_able impact"
  shows "alerts_build env name"
  unfolding alerts_build_def
proof (intro allI impI)
  fix alert_type desc impact recomm sev
  assume "m_impact env name = Inr impact \<or> impact = PStr []"
  then have able: "json_able impact" using imp by auto
  let ?info = "PDict [(''module_name'', PStr name), (''alert_type'', PStr alert_type), (''description'', PStr desc),
     (''impact'', impact), (''recommendation'', PStr recomm), (''severity'', PStr sev),
     (''specific_info'', sspl_conf env (upper name) PNone)]"
  have schema: "sensor_schema (tc_msgs env) = Inr (\<lambda>_. None)" using env by (simp add: msg_env_ok_def)
  obtain m i where m: "ThreadMonitorMsg (tc_msgs env) (tc_now env) (tc_alert_id env) ?info = Inr m"
      "get_items m [''message'', ''sensor_response_type'', ''info''] = Inr (PDict i)" "json_able m"
    using able conf
    by (simp add: ThreadMonitorMsg_def with_schema_def schema get_keys_def stamped_envelope_def sspl_ll_msg_header_def)
  from sensor_getJson_total [OF env m(2,3)] m(1)
  show "\<exists>j. bindr (ThreadMonitorMsg (tc_msgs env) (tc_now env) (tc_alert_id env) ?info)
      (sensor_getJson (tc_msgs env)) = Inr j" by simp
qed

section \<open>Properties\<close>

definition sensor_of :: "bool \<Rightarrow> tmodule" where
  "sensor_of running = \<lparr>tm_running = running, tm_suspended = False, tm_sensor = True, tm_waiting = False\<rparr>"

text \<open>A configuration with one recovery attempt, and a sensor whose start raises.\<close>

definition demo_tc :: "bool \<Rightarrow> tc_env" where
  "demo_tc starts = \<lparr>m_suspend = \<lambda>_ m. (Inr (), m\<lparr>tm_suspended := True\<rparr>), m_resume = \<lambda>_ m. (Inr (), m\<lparr>tm_suspended := False\<rparr>),
     m_shutdown = \<lambda>_ m. (Inr (), m\<lparr>tm_running := False\<rparr>),
     m_start_thread = \<lambda>_ _ m. (if starts then Inr () else Inl ThreadException, m\<lparr>tm_running := True\<rparr>),
     m_impact = \<lambda>_. Inr (PStr ''no alerts''),
     sspl_conf = \<lambda>k d. if k = ''SSPL_LL_SETTING>sensor_recovery_count'' then PInt 1 else d,
     exn_text = \<lambda>_. ''failed'', tc_node_id = ''SN01'', tc_msgs = demo_msg_env, tc_now = ''7'', tc_alert_id = ''a1'',
     hostname = ''host'', tc_product = ''LR2'', hpi_dir_present = \<lambda>_. True\<rparr>"

definition demo_tc_state :: "string \<Rightarrow> tc_state" where
  "demo_tc_state name = \<lparr>tc_fs = empty_fs, module_persistent_data = [], tc_q = \<lparr>msgQlist = [(''EgressProcessor'', [])], msgq_dbg = init_debug\<rparr>,
     sspl_modules = [(name, sensor_of False)], slept = [], start_attempts = [], spawned = [], checkers = [], alerts = [],
     thread_response = ''N/A'', debug_section = PNone, threads_initialized = False, modules_to_resume = [], tc_sched = []\<rparr>"

lemma demo_tc_builds: "alerts_build (demo_tc b) name"
  by (rule alerts_build_ok) (auto simp: demo_tc_def demo_msg_env_ok)

lemma demo_tc_cache: "cache_ok (demo_tc b) ''S'' (demo_tc_state ''S'')"
proof -
  have "per_data_path (demo_tc b) ''S'' = ''/var/cortx/sspl/data/modules/S_SN01''"
    by (simp add: demo_tc_def per_data_path_def module_cache_dir_def) code_simp
  moreover have "''/var/cortx/sspl/data/modules/S_SN01'' \<notin> set (ancestors (dirname ''/var/cortx/sspl/data/modules/S_SN01''))"
    by code_simp
  ultimately show ?thesis
    by (simp add: cache_ok_def demo_tc_state_def empty_fs_def fs_wf_def isfile_def writable_def isdir_def)
qed

text \<open>
  C33. A sensor that cannot be started is given up after the configured number of attempts, with
  one alert: if every start raises, \<^verbatim>\<open>execute_thread\<close> returns, has tried \<open>count + 1\<close> times, has
  raised exactly one fault alert unless the remembered state was already fault, remembers fault,
  and leaves the module halted.
\<close>

theorem unstartable_sensor_alerted_once:
  assumes "never_starts env name" and "stops env name" and "map_of (sspl_modules s) name = Some m" and "tm_sensor m"
    and "get_recovery_config env name = (PInt count, PInt interval)" and "0 \<le> count"
    and "cache_ok env name s" and "alerts_build env name" and "m_impact env name = Inr impact"
  shows "\<exists>s'. execute_thread env name True s = (Inr (), s') \<and>
     start_attempts s' = start_attempts s @ replicate (nat count + 1) name \<and>
     alerts s' = alerts s @ (if last_alert env name s = Some ''fault'' then [] else [(name, ''fault'')]) \<and>
     last_alert env name s' = Some ''fault'' \<and> halted name s'"
proof -
  obtain s1 where s1: "init_persistent env name s = (Inr (), s1)" "cache_ok env name s1"
      "isfile (tc_fs s1) (per_data_path env name)" "last_alert env name s1 = last_alert env name s"
      "alerts s1 = alerts s" "sspl_modules s1 = sspl_modules s" "start_attempts s1 = start_attempts s"
    using init_persistent_run [OF assms(7)] by blast
  have n: "int (0 + Suc (nat count)) = count + 1" and n': "nat (count + 1) = Suc (nat count)" using assms(6) by auto
  have "map_of (sspl_modules s1) name \<noteq> None" using s1(6) assms(3) by simp
  from attempts_fail [OF assms(1,2,8,9), of "PInt interval" interval, OF _ n this s1(2,3), of True]
  obtain s' where "attempts (Suc (nat count)) env name True count (PInt interval) 0 s1 = (Inr (), s')" "halted name s'"
      "start_attempts s' = start_attempts s1 @ replicate (Suc (nat count)) name"
      "alerts s' = alerts s1 @ (if last_alert env name s1 \<noteq> Some ''fault'' then [(name, ''fault'')] else [])"
      "last_alert env name s' = Some ''fault''" by auto
  then show ?thesis using s1 assms(3-5)
    by (simp add: execute_thread_def seqp_def ret_def bindp_def the_module_def getp_def liftp_def n' del: attempts.simps)
qed

theorem unstartable_sensor_alerted_once_witness:
  "\<exists>s'. execute_thread (demo_tc False) ''S'' True (demo_tc_state ''S'') = (Inr (), s') \<and>
     start_attempts s' = [''S'', ''S''] \<and> alerts s' = [(''S'', ''fault'')]"
proof -
  have mods: "never_starts (demo_tc False) ''S''" "stops (demo_tc False) ''S''"
      "map_of (sspl_modules (demo_tc_state ''S'')) ''S'' = Some (sensor_of False)" "tm_sensor (sensor_of False)"
    by (simp_all add: never_starts_def stops_def demo_tc_def demo_tc_state_def sensor_of_def)
  have conf: "get_recovery_config (demo_tc False) ''S'' = (PInt 1, PInt 0)" by code_simp
  have imp: "m_impact (demo_tc False) ''S'' = Inr (PStr ''no alerts'')" by (simp add: demo_tc_def)
  have fresh: "last_alert (demo_tc False) ''S'' (demo_tc_state ''S'') \<noteq> Some ''fault''"
    by (simp add: last_alert_def cached_def demo_tc_state_def store_get_def load_json_file_def isdir_def empty_fs_def)
  have init: "start_attempts (demo_tc_state ''S'') = []" "alerts (demo_tc_state ''S'') = []"
    by (simp_all add: demo_tc_state_def)
  from unstartable_sensor_alerted_once [OF mods conf _ demo_tc_cache demo_tc_builds imp] fresh init show ?thesis
    by auto
qed

text \<open>
  C34. Module alerts alternate: whatever sequence of runs, checks and restarts of the daemon a
  module goes through, it never raises the same alert twice in a row, because the last alert is
  kept in a file.
\<close>

theorem module_alerts_never_repeat:
  assumes "cache_ok env name s" and "alerts_build env name" and "alerts_of name s = []"
    and "(module_step env name)\<^sup>*\<^sup>* s s'"
  shows "successively (\<noteq>) (alerts_of name s')"
  using modules.never_repeats [of env name s s'] assms by (simp add: modules.linked_def)

theorem module_alerts_never_repeat_witness:
  "\<exists>s'. (module_step (demo_tc False) ''S'')\<^sup>*\<^sup>* (demo_tc_state ''S'') s' \<and> successively (\<noteq>) (alerts_of ''S'' s')"
proof -
  let ?s = "snd (execute_thread (demo_tc False) ''S'' True (demo_tc_state ''S''))"
  let ?s' = "snd (execute_thread (demo_tc False) ''S'' True ?s)"
  have steps: "(module_step (demo_tc False) ''S'')\<^sup>*\<^sup>* (demo_tc_state ''S'') ?s'"
    by (rule converse_rtranclp_into_rtranclp, rule module_step.run [of _ _ True _ _ ?s], rule prod.collapse [symmetric],
        rule r_into_rtranclp, rule module_step.run [of _ _ True], rule prod.collapse [symmetric])
  have none: "alerts_of ''S'' (demo_tc_state ''S'') = []" by (simp add: alerts_of_def demo_tc_state_def)
  from module_alerts_never_repeat [OF demo_tc_cache demo_tc_builds none steps] steps show ?thesis by blast
qed

text \<open>
  A module that ends normally is started again: the loop of \<^verbatim>\<open>execute_thread\<close> has no exit but
  its count, so a module whose \<^verbatim>\<open>start_thread\<close> returns is run \<open>count + 1\<close> times, as if it had
  failed.
\<close>

lemma normal_return_starts_again:
  assumes "\<forall>k m. \<exists>m'. m_start_thread env name k m = (Inr (), m')" and "map_of (sspl_modules s) name = Some m"
    and "tm_sensor m" and "get_recovery_config env name = (PInt count, PInt interval)" and "0 \<le> count"
    and "cache_ok env name s"
  shows "\<exists>s'. execute_thread env name True s = (Inr (), s') \<and>
     start_attempts s' = start_attempts s @ replicate (nat count + 1) name"
proof -
  have loop: "\<exists>s'. attempts n env name sensor rc ri a u = (Inr (), s') \<and>
      start_attempts s' = start_attempts u @ replicate n name"
    if "map_of (sspl_modules u) name \<noteq> None" for n sensor rc ri a u
    using that
  proof (induction n arbitrary: a u)
    case (Suc n)
    then obtain mu where mu: "map_of (sspl_modules u) name = Some mu" by blast
    obtain m' where m': "m_start_thread env name (Suc a) mu = (Inr (), m')" using assms(1) by blast
    let ?u = "u\<lparr>start_attempts := start_attempts u @ [name], sspl_modules := AList.update name m' (sspl_modules u)\<rparr>"
    have "run_attempt env name sensor rc ri (Suc a) u = (Inr (), ?u)"
      by (simp add: run_attempt_def on_module_def mu m' py_exec)
    with Suc.IH [of ?u "Suc a"] show ?case by (auto simp: seqp_def)
  qed (simp add: ret_def)
  obtain s1 where s1: "init_persistent env name s = (Inr (), s1)" "sspl_modules s1 = sspl_modules s"
      "start_attempts s1 = start_attempts s"
    using init_persistent_run [OF assms(6)] by blast
  have n': "nat (count + 1) = Suc (nat count)" using assms(5) by auto
  from loop [of s1 "Suc (nat count)" True count "PInt interval" 0] s1 assms(2-4) show ?thesis
    by (auto simp: execute_thread_def seqp_def ret_def bindp_def the_module_def getp_def liftp_def n'
        simp del: attempts.simps)
qed

lemma normal_return_starts_again_witness:
  "\<exists>s'. execute_thread (demo_tc True) ''S'' True (demo_tc_state ''S'') = (Inr (), s') \<and>
     start_attempts s' = [''S'', ''S'']"
proof -
  have mods: "\<forall>k m. \<exists>m'. m_start_thread (demo_tc True) ''S'' k m = (Inr (), m')"
      "map_of (sspl_modules (demo_tc_state ''S'')) ''S'' = Some (sensor_of False)" "tm_sensor (sensor_of False)"
    by (simp_all add: demo_tc_def demo_tc_state_def sensor_of_def)
  have conf: "get_recovery_config (demo_tc True) ''S'' = (PInt 1, PInt 0)" by code_simp
  have init: "start_attempts (demo_tc_state ''S'') = []" by (simp add: demo_tc_state_def)
  from normal_return_starts_again [OF mods conf _ demo_tc_cache] init show ?thesis by auto
qed

definition tc_request :: "string \<Rightarrow> string \<Rightarrow> pyv" where
  "tc_request module_name thread_request = PDict [(''actuator_request_type'', PDict [(''thread_controller'',
     PDict [(''module_name'', PStr module_name), (''thread_request'', PStr thread_request)])])]"

text \<open>
  The outside world cannot stop the message processors or the controller: a stop request for
  one of them changes no module, writes no message and is not answered.
\<close>

lemma stop_of_processors_ignored:
  assumes "name \<in> {''EgressProcessor'', ''IngressProcessor'', ''ThreadController''}"
  shows "process_msg env (tc_request name ''stop'') s = (Inr (), s\<lparr>debug_section := PNone\<rparr>)"
  using assms
  by (auto simp: process_msg_def tc_request_def check_reset_all_modules_def request_uuid_def tc_path_def
      dispatch_request_def ALWAYS_ACTIVE_MODULES_def py_exec)

lemma stop_of_processors_ignored_witness:
  "sspl_modules (snd (process_msg (demo_tc True) (tc_request ''EgressProcessor'' ''stop'') (demo_tc_state ''EgressProcessor'')))
     = [(''EgressProcessor'', sensor_of False)]"
  using stop_of_processors_ignored [of "''EgressProcessor''" "demo_tc True" "demo_tc_state ''EgressProcessor''"]
  by (simp add: demo_tc_state_def)

text \<open>
  A restart that starts nothing is reported as successful: if the module is halted and the
  debug section of the request cannot be put on its queue (it has none), the exception is
  swallowed by \<^verbatim>\<open>_start_module\<close>, no thread is spawned, and the answer is \<^verbatim>\<open>"Restart Successful"\<close>.
\<close>

lemma failed_restart_reported_successful:
  assumes "halted name s" and "debug_section s \<noteq> PNone" and "map_of (msgQlist (tc_q s)) name = None"
  shows "restart_module env name s = (Inr (), s\<lparr>thread_response := ''Restart Successful''\<rparr>)"
proof -
  obtain m where m: "map_of (sspl_modules s) name = Some m" "\<not> tm_running m" using assms(1) by (auto simp: halted_def)
  have status: "status_module name u = (Inr False, u\<lparr>thread_response := ''Status: Halted''\<rparr>)"
    if "sspl_modules u = sspl_modules s" for u
    using that m by (simp add: status_module_def module_is_running_def the_module_def respond_def py_exec)
  have wait: "stop_wait 10 env name u = (Inr (), u\<lparr>thread_response := ''Status: Halted''\<rparr>)"
    if "sspl_modules u = sspl_modules s" for u
    using status [OF that] by (simp add: eval_nat_numeral bindp_def ret_def)
  show ?thesis using assms(2,3) m
    by (simp add: restart_module_def start_module_def tryp_def seqp_def bindp_def status wait respond_def modp_def
        ret_def write_debug_section_def getp_def on_tc_q_def write_internal_msgQ_def the_module_def)
qed

lemma failed_restart_reported_successful_witness:
  "fst (restart_module (demo_tc True) ''S'' (demo_tc_state ''S''\<lparr>debug_section := PDict []\<rparr>)) = Inr () \<and>
   spawned (snd (restart_module (demo_tc True) ''S'' (demo_tc_state ''S''\<lparr>debug_section := PDict []\<rparr>))) = []"
  using failed_restart_reported_successful [of "''S''" "demo_tc_state ''S''\<lparr>debug_section := PDict []\<rparr>" "demo_tc True"]
  by (simp add: halted_def demo_tc_state_def sensor_of_def)

end
