(* ===== verification/Service_Monitor.thy ===== *)
theory Service_Monitor
  imports Iem Internal_MsgQ Json_Msgs
begin

text \<open>
  \<^verbatim>\<open>sensors/impl/centos_7/service_monitor.py\<close>: the state classes, the services and the monitor.
  A service object is a record; the class attributes shared by all services and the monitor's
  own state are the record \<open>mon\<close>. What systemd answers over DBus is a parameter (\<open>dbus\<close>), the
  time is an argument in whole seconds. The sets of names are lists without duplicates; a
  loop over a copy of a set goes through it in list order. Pickled classes are their names.
\<close>

datatype service_state = ActiveState | FailedState | InactiveState

datatype unit_state = EnabledState | DisabledState | MonitoringDisabled

record service =
  s_name :: string
  s_state :: string
  s_substate :: string
  s_pid :: string
  previous_state :: string
  previous_substate :: string
  previous_pid :: string
  nonactive_enter_timestamp :: int
  waiting_timestamp :: int
  nonactive_threshold :: int
  threshold_waiting_time :: int
  properties_changed_signal :: bool
  service_state :: service_state
  unit_state :: "unit_state option"

record dbus =
  dbus_load_unit :: "string \<Rightarrow> unit res"
  dbus_id :: "string \<Rightarrow> string res"
  dbus_active_state :: "string \<Rightarrow> string res"
  dbus_sub_state :: "string \<Rightarrow> string res"
  dbus_main_pid :: "string \<Rightarrow> string res"
  dbus_unit_file_state :: "string \<Rightarrow> string res"
  dbus_subscribe :: "string \<Rightarrow> unit res"

record sm_env =
  sm_iem_env :: iem_env
  threshold_inactive_time :: int
  waiting_time :: int
  sm_fqdn :: string
  sm_alert_id :: string

record mon =
  services :: "(string \<times> service) list"
  services_to_monitor :: "string list"
  non_active :: "string list"
  active_waiting_services :: "string list"
  failed_waiting_services :: "string list"
  monitoring_disabled :: "string list"
  sm_alerts :: "pyv list"
  sm_iem :: iem_state
  sm_q :: "nat msgq"
  sm_running :: bool
  sm_suspended :: bool
  sm_raised :: "(string \<times> string) list"

text \<open>Sets as lists.\<close>

definition add_name :: "string \<Rightarrow> string list \<Rightarrow> string list" where
  "add_name n xs = (if n \<in> set xs then xs else xs @ [n])"

definition discard :: "string \<Rightarrow> string list \<Rightarrow> string list" where
  "discard n xs = filter (\<lambda>m. m \<noteq> n) xs"

type_synonym 'a on_service = "(service \<times> mon, 'a) proc"

definition with_self :: "(service \<Rightarrow> service) \<Rightarrow> unit on_service" where
  "with_self f = modp (\<lambda>(sv, s). (f sv, s))"

definition with_class :: "(string \<Rightarrow> mon \<Rightarrow> mon) \<Rightarrow> unit on_service" where
  "with_class f = modp (\<lambda>(sv, s). (sv, f (s_name sv) s))"

section \<open>Alerts\<close>

datatype alert = FailedAlert | InactiveAlert | ResolvedAlert

definition alert_type_of :: "alert \<Rightarrow> string" where
  "alert_type_of a = (case a of ResolvedAlert \<Rightarrow> ''fault_resolved'' | _ \<Rightarrow> ''fault'')"

definition alert_description :: "alert \<Rightarrow> string \<Rightarrow> string \<Rightarrow> int \<Rightarrow> string" where
  "alert_description a name state seconds = (case a of
     ResolvedAlert \<Rightarrow> name @ '' in '' @ state @ '' state from last '' @ str_int seconds @ '' seconds.''
   | _ \<Rightarrow> name @ '' in '' @ state @ '' state for more than '' @ str_int seconds @ '' seconds.'')"

definition alert_impact :: "alert \<Rightarrow> string \<Rightarrow> string" where
  "alert_impact a name = (case a of ResolvedAlert \<Rightarrow> name @ '' service is available now.''
   | _ \<Rightarrow> name @ '' service is unavailable.'')"

definition alert_recommendation :: "alert \<Rightarrow> string" where
  "alert_recommendation a = (case a of ResolvedAlert \<Rightarrow> ''No action required'' | _ \<Rightarrow> ''Try to restart the service'')"

definition get_alert :: "sm_env \<Rightarrow> int \<Rightarrow> service \<Rightarrow> alert \<Rightarrow> pyv res" where
  "get_alert env now sv a = bindr (map_severity (alert_type_of a)) (\<lambda>severity.
     let seconds = (if s_state sv \<in> {''active'', ''failed''} then threshold_waiting_time sv else nonactive_threshold sv) in
      Inr (PDict [(''sensor_request_type'', PDict [(''service_status_alert'', PDict [
        (''host_id'', PStr (sm_fqdn env)),
        (''severity'', PStr severity),
        (''alert_id'', PStr (sm_alert_id env)),
        (''alert_type'', PStr (alert_type_of a)),
        (''info'', PDict [
          (''resource_type'', PStr ''node:sw:os:service''),
          (''resource_id'', PStr (s_name sv)),
          (''event_time'', PStr (str_int now)),
          (''description'', PStr (alert_description a (s_name sv) (s_state sv) seconds)),
          (''impact'', PStr (alert_impact a (s_name sv))),
          (''recommendation'', PStr (alert_recommendation a))]),
        (''specific_info'', PDict [
          (''service_name'', PStr (s_name sv)),
          (''previous_state'', PStr (previous_state sv)),
          (''state'', PStr (s_state sv)),
          (''previous_substate'', PStr (previous_substate sv)),
          (''substate'', PStr (s_substate sv)),
          (''previous_pid'', PStr (previous_pid sv)),
          (''pid'', PStr (s_pid sv))])])])]))"

section \<open>Service\<close>

definition enter_active_or_failed :: "unit on_service" where
  "enter_active_or_failed = with_class (\<lambda>n s. s\<lparr>non_active := discard n (non_active s),
     failed_waiting_services := discard n (failed_waiting_services s),
     active_waiting_services := discard n (active_waiting_services s)\<rparr>)"

definition enter_inactive :: "int \<Rightarrow> unit on_service" where
  "enter_inactive now = seqp (with_self (\<lambda>sv. sv\<lparr>nonactive_enter_timestamp := now\<rparr>))
     (with_class (\<lambda>n s. s\<lparr>non_active := add_name n (non_active s),
       failed_waiting_services := discard n (failed_waiting_services s),
       active_waiting_services := discard n (active_waiting_services s)\<rparr>))"

definition new_service_state :: "int \<Rightarrow> service_state \<Rightarrow> unit on_service" where
  "new_service_state now new_state = bindp (getp (service_state \<circ> fst)) (\<lambda>old.
     if old = new_state then ret ()
     else seqp (with_self (\<lambda>sv. sv\<lparr>service_state := new_state\<rparr>))
       (case new_state of InactiveState \<Rightarrow> enter_inactive now | _ \<Rightarrow> enter_active_or_failed))"

definition CACHE_PATH :: string where
  "CACHE_PATH = ''/'' @ DATA_PATH @ ''/server/service_monitor/''"

definition service_key :: "string \<Rightarrow> string" where
  "service_key name = CACHE_PATH @ ''/'' @ name"

definition state_to_py :: "service_state \<Rightarrow> pyv" where
  "state_to_py st = PStr (case st of ActiveState \<Rightarrow> ''ActiveState'' | FailedState \<Rightarrow> ''FailedState''
     | InactiveState \<Rightarrow> ''InactiveState'')"

definition service_data :: "service \<Rightarrow> pyv" where
  "service_data sv = PDict [(''service_state'', PStr (s_state sv)),
     (''service_monitor_state'', state_to_py (service_state sv)),
     (''nonactive_enter_timestamp'', PInt (nonactive_enter_timestamp sv)),
     (''waiting_timestamp'', PInt (waiting_timestamp sv))]"

definition on_sm_fs :: "(fs \<Rightarrow> fs) \<Rightarrow> mon \<Rightarrow> mon" where
  "on_sm_fs f s = s\<lparr>sm_iem := (sm_iem s)\<lparr>ifs := f (ifs (sm_iem s))\<rparr>\<rparr>"

definition dump_service :: "service \<Rightarrow> mon \<Rightarrow> mon" where
  "dump_service sv = on_sm_fs (store_put (service_data sv) (service_key (s_name sv)) True)"

definition dump_to_cache :: "unit on_service" where
  "dump_to_cache = modp (\<lambda>(sv, s). (sv, dump_service sv s))"

definition cache_exists :: "string \<Rightarrow> mon \<Rightarrow> bool" where
  "cache_exists name s = fst (store_exists (ifs (sm_iem s)) (service_key name))"

text \<open>The bookkeeping at the start of the handler.\<close>

definition record_change :: "string \<Rightarrow> string \<Rightarrow> string \<Rightarrow> service \<Rightarrow> service" where
  "record_change state substate pid sv =
     (let sv1 = (if state \<noteq> s_state sv then sv\<lparr>previous_state := s_state sv, s_state := state\<rparr> else sv);
          sv2 = (if substate \<noteq> s_substate sv1 then sv1\<lparr>previous_substate := s_substate sv1, s_substate := substate\<rparr> else sv1)
      in if pid \<noteq> s_pid sv2 then sv2\<lparr>previous_pid := s_pid sv2, s_pid := pid\<rparr> else sv2)"

definition properties_changed_handler :: "dbus \<Rightarrow> int \<Rightarrow> unit on_service" where
  "properties_changed_handler bus now = bindp (getp (s_name \<circ> fst)) (\<lambda>name.
     bindp (liftp (dbus_active_state bus name)) (\<lambda>state.
     bindp (liftp (dbus_sub_state bus name)) (\<lambda>substate.
     bindp (liftp (dbus_main_pid bus name)) (\<lambda>pid.
     seqp (with_self (record_change state substate pid))
     (bindp (getp fst) (\<lambda>sv.
       if s_state sv = previous_state sv then ret ()
       else if s_state sv = ''active'' then
         seqp (if service_state sv = FailedState then
                 seqp (with_self (\<lambda>sv. sv\<lparr>waiting_timestamp := now\<rparr>))
                      (with_class (\<lambda>n s. s\<lparr>active_waiting_services := add_name n (active_waiting_services s)\<rparr>))
               else if service_state sv = InactiveState then new_service_state now ActiveState
               else ret ())
              (with_class (\<lambda>n s. s\<lparr>failed_waiting_services := discard n (failed_waiting_services s)\<rparr>))
       else if s_state sv = ''failed'' then
         seqp (if service_state sv \<noteq> FailedState then
                 seqp (with_self (\<lambda>sv. sv\<lparr>waiting_timestamp := now\<rparr>))
                      (with_class (\<lambda>n s. s\<lparr>failed_waiting_services := add_name n (failed_waiting_services s)\<rparr>))
               else ret ())
              (with_class (\<lambda>n s. s\<lparr>active_waiting_services := discard n (active_waiting_services s)\<rparr>))
       else
         seqp (if service_state sv \<noteq> FailedState then new_service_state now InactiveState else ret ())
         (seqp (with_class (\<lambda>n s. s\<lparr>active_waiting_services := discard n (active_waiting_services s),
                  failed_waiting_services := discard n (failed_waiting_services s)\<rparr>))
               dump_to_cache)))))))"

section \<open>Unit states\<close>

definition enter_disabled :: "unit on_service" where
  "enter_disabled = seqp (with_class (\<lambda>n s. s\<lparr>non_active := discard n (non_active s),
       monitoring_disabled := discard n (monitoring_disabled s)\<rparr>))
     (with_self (\<lambda>sv. sv\<lparr>properties_changed_signal := False\<rparr>))"

definition enter_monitoring_disabled :: "sm_env \<Rightarrow> int \<Rightarrow> unit on_service" where
  "enter_monitoring_disabled env now =
     seqp (bindp (getp (\<lambda>(sv, s). s_name sv \<in> set (monitoring_disabled s))) (\<lambda>known.
             if known then ret ()
             else bindp (getp fst) (\<lambda>sv. bindp (liftp (get_alert env now sv FailedAlert)) (\<lambda>a.
               modp (\<lambda>(sv, s). (sv, s\<lparr>sm_alerts := sm_alerts s @ [a]\<rparr>))))))
          (with_class (\<lambda>n s. s\<lparr>monitoring_disabled := add_name n (monitoring_disabled s)\<rparr>))"

definition set_unit_state :: "unit_state \<Rightarrow> unit on_service \<Rightarrow> unit on_service" where
  "set_unit_state new_state enter = bindp (getp (unit_state \<circ> fst)) (\<lambda>old.
     if old = Some new_state then ret ()
     else seqp (with_self (\<lambda>sv. sv\<lparr>unit_state := Some new_state\<rparr>)) enter)"

definition enter_enabled :: "sm_env \<Rightarrow> dbus \<Rightarrow> int \<Rightarrow> unit on_service" where
  "enter_enabled env bus now = tryp
     (bindp (getp (s_name \<circ> fst)) (\<lambda>name.
      seqp (liftp (dbus_subscribe bus name))
      (seqp (with_self (\<lambda>sv. sv\<lparr>properties_changed_signal := True\<rparr>))
      (seqp (with_class (\<lambda>n s. s\<lparr>monitoring_disabled := discard n (monitoring_disabled s)\<rparr>))
            (properties_changed_handler bus now)))))
     (\<lambda>e. if e = DBusException
          then set_unit_state MonitoringDisabled (enter_monitoring_disabled env now) else raise e)"

definition new_unit_state :: "sm_env \<Rightarrow> dbus \<Rightarrow> int \<Rightarrow> unit_state \<Rightarrow> unit on_service" where
  "new_unit_state env bus now new_state = set_unit_state new_state (case new_state of
     EnabledState \<Rightarrow> enter_enabled env bus now
   | DisabledState \<Rightarrow> enter_disabled
   | MonitoringDisabled \<Rightarrow> enter_monitoring_disabled env now)"

definition is_enabled :: "dbus \<Rightarrow> string \<Rightarrow> bool res" where
  "is_enabled bus name = bindr (dbus_unit_file_state bus name) (\<lambda>u.
     Inr (u \<noteq> [] \<and> \<not> contains ''disabled'' u))"

definition handle_unit_state_change :: "sm_env \<Rightarrow> dbus \<Rightarrow> int \<Rightarrow> unit on_service" where
  "handle_unit_state_change env bus now = bindp (getp (s_name \<circ> fst)) (\<lambda>name.
     bindp (liftp (is_enabled bus name)) (\<lambda>on.
       new_unit_state env bus now (if on then EnabledState else DisabledState)))"

section \<open>ServiceMonitor\<close>

definition new_service :: "sm_env \<Rightarrow> int \<Rightarrow> string \<Rightarrow> service" where
  "new_service env now name = \<lparr>s_name = name, s_state = ''N/A'', s_substate = ''N/A'', s_pid = ''N/A'',
     previous_state = ''N/A'', previous_substate = ''N/A'', previous_pid = ''N/A'',
     nonactive_enter_timestamp = now, waiting_timestamp = now,
     nonactive_threshold = threshold_inactive_time env, threshold_waiting_time = waiting_time env,
     properties_changed_signal = False, service_state = ActiveState, unit_state = None\<rparr>"

fun py_to_state :: "pyv \<Rightarrow> service_state res" where
  "py_to_state (PStr n) = (if n = ''ActiveState'' then Inr ActiveState else if n = ''FailedState'' then Inr FailedState
     else if n = ''InactiveState'' then Inr InactiveState else Inl AttributeError)"
| "py_to_state _ = Inl AttributeError"

fun str_value :: "pyv \<Rightarrow> string res" where
  "str_value (PStr s) = Inr s"
| "str_value _ = Inl TypeError"

text \<open>\<^verbatim>\<open>from_cache\<close>, on a service just constructed.\<close>

definition from_cache :: "int \<Rightarrow> string \<Rightarrow> unit on_service" where
  "from_cache now service_name =
     bindp (getp (\<lambda>(sv, s). store_get (ifs (sm_iem s)) (service_key service_name))) (\<lambda>data.
     bindp (liftp (bindr (getitem data ''service_monitor_state'') py_to_state)) (\<lambda>st.
     seqp (new_service_state now st)
     (bindp (liftp (bindr (getitem data ''service_state'') str_value)) (\<lambda>state.
     seqp (with_self (\<lambda>sv. sv\<lparr>s_state := state\<rparr>))
     (bindp (liftp (bindr (getitem data ''nonactive_enter_timestamp'') as_int)) (\<lambda>t.
     seqp (with_self (\<lambda>sv. sv\<lparr>nonactive_enter_timestamp := t\<rparr>))
     (bindp (liftp (bindr (getitem data ''waiting_timestamp'') as_int)) (\<lambda>w.
      with_self (\<lambda>sv. sv\<lparr>waiting_timestamp := w\<rparr>)))))))))"

definition initialize_service :: "sm_env \<Rightarrow> dbus \<Rightarrow> int \<Rightarrow> string \<Rightarrow> (mon, unit) proc" where
  "initialize_service env bus now service_name s = (case
     bindr (dbus_load_unit bus service_name) (\<lambda>_. dbus_id bus service_name) of
     Inl e \<Rightarrow> (if e = DBusException then Inr () else Inl e, s)
   | Inr name \<Rightarrow>
     (case seqp (if cache_exists service_name s then from_cache now service_name else ret ())
                (handle_unit_state_change env bus now) (new_service env now name, s) of
        (Inl e, (_, s')) \<Rightarrow> (if e = DBusException then Inr () else Inl e, s')
      | (Inr _, (sv, s')) \<Rightarrow> (Inr (), s'\<lparr>services := AList.update service_name sv (services s')\<rparr>)))"

text \<open>A call on \<^verbatim>\<open>self.services[key]\<close>.\<close>

definition on_the_service :: "string \<Rightarrow> 'a on_service \<Rightarrow> (mon, 'a) proc" where
  "on_the_service key f s = (case map_of (services s) key of
     None \<Rightarrow> (Inl KeyError, s)
   | Some sv \<Rightarrow> (case f (sv, s) of (r, (sv', s')) \<Rightarrow> (r, s'\<lparr>services := AList.update key sv' (services s')\<rparr>)))"

definition on_sm_iem :: "(iem_state, 'a) proc \<Rightarrow> (mon, 'a) proc" where
  "on_sm_iem m s = (case m (sm_iem s) of (r, i) \<Rightarrow> (r, s\<lparr>sm_iem := i\<rparr>))"

definition KAFKA :: string where
  "KAFKA = ''kafka''"

definition raise_iem :: "sm_env \<Rightarrow> string \<Rightarrow> string \<Rightarrow> (mon, unit) proc" where
  "raise_iem env service alert_type = bindp (getp (fault_iems \<circ> sm_iem)) (\<lambda>known.
     if service = ''kafka.service'' \<and> alert_type = ''fault'' then
       seqp (on_sm_iem (iem_fault (sm_iem_env env) ''KAFKA_NOT_ACTIVE''))
            (modp (\<lambda>s. let i = sm_iem s in
               if KAFKA \<notin> set (fault_iems i) then s\<lparr>sm_iem := i\<lparr>fault_iems := fault_iems i @ [KAFKA]\<rparr>\<rparr> else s))
     else if service = ''kafka.service'' \<and> alert_type = ''fault_resolved'' \<and> KAFKA \<in> set known then
       seqp (on_sm_iem (iem_fault_resolved (sm_iem_env env) ''KAFKA_ACTIVE''))
            (modp (\<lambda>s. let i = sm_iem s in s\<lparr>sm_iem := i\<lparr>fault_iems := remove1 KAFKA (fault_iems i)\<rparr>\<rparr>))
     else ret ())"

definition on_sm_q :: "(nat msgq, 'a) proc \<Rightarrow> (mon, 'a) proc" where
  "on_sm_q m s = (case m (sm_q s) of (r, q) \<Rightarrow> (r, s\<lparr>sm_q := q\<rparr>))"

definition alert_path :: "string list" where
  "alert_path = [''sensor_request_type'', ''service_status_alert'']"

definition raise_alert :: "sm_env \<Rightarrow> pyv \<Rightarrow> (mon, unit) proc" where
  "raise_alert env message =
     bindp (liftp (bindr (get_items message (alert_path @ [''info'', ''resource_id''])) str_value)) (\<lambda>service.
     bindp (liftp (bindr (get_items message (alert_path @ [''alert_type''])) str_value)) (\<lambda>alert_type.
     seqp (raise_iem env service alert_type)
     (seqp (on_sm_q (write_internal_msgQ ''ServiceMsgHandler'' message None))
     (seqp (modp (\<lambda>s. s\<lparr>sm_raised := sm_raised s @ [(service, alert_type)]\<rparr>))
           (on_the_service service dump_to_cache)))))"

definition in_same_state_for_threshold_time :: "int \<Rightarrow> service \<Rightarrow> bool" where
  "in_same_state_for_threshold_time now sv = (now - waiting_timestamp sv > threshold_waiting_time sv)"

definition is_nonactive_for_threshold_time :: "int \<Rightarrow> service \<Rightarrow> bool" where
  "is_nonactive_for_threshold_time now sv = (now - nonactive_enter_timestamp sv > nonactive_threshold sv)"

text \<open>The body of each of the three loops of \<^verbatim>\<open>check_service_threshold_time\<close>.\<close>

definition check_one :: "sm_env \<Rightarrow> int \<Rightarrow> (int \<Rightarrow> service \<Rightarrow> bool) \<Rightarrow> service_state \<Rightarrow> alert \<Rightarrow> string \<Rightarrow> (mon, unit) proc" where
  "check_one env now ripe new_state a name =
     bindp (on_the_service name (getp fst)) (\<lambda>sv.
       if ripe now sv then
         seqp (on_the_service name (new_service_state now new_state))
         (bindp (on_the_service name (getp fst)) (\<lambda>sv.
          bindp (liftp (get_alert env now sv a)) (raise_alert env)))
       else ret ())"

definition check_service_threshold_time :: "sm_env \<Rightarrow> int \<Rightarrow> (mon, unit) proc" where
  "check_service_threshold_time env now =
     seqp (bindp (getp active_waiting_services) (\<lambda>names.
             forp names (check_one env now in_same_state_for_threshold_time ActiveState ResolvedAlert)))
     (seqp (bindp (getp failed_waiting_services) (\<lambda>names.
             forp names (check_one env now in_same_state_for_threshold_time FailedState FailedAlert)))
           (bindp (getp non_active) (\<lambda>names.
             forp names (check_one env now is_nonactive_for_threshold_time FailedState InactiveAlert))))"

text \<open>
  \<^verbatim>\<open>process_alerts\<close>: an exception ends the loop, the alert being raised is already taken off.
\<close>

primrec take_alerts :: "pyv list \<Rightarrow> sm_env \<Rightarrow> (mon, unit) proc" where
  "take_alerts [] env = ret ()"
| "take_alerts (m # ms) env = seqp (modp (\<lambda>s. s\<lparr>sm_alerts := ms\<rparr>)) (seqp (raise_alert env m) (take_alerts ms env))"

definition process_alerts :: "sm_env \<Rightarrow> (mon, unit) proc" where
  "process_alerts env = bindp (getp sm_alerts) (\<lambda>ms. take_alerts ms env)"

text \<open>The signals the main loop context dispatches.\<close>

datatype dbus_event = PropertiesChanged string | UnitFilesChanged

definition unit_file_state_change_handler :: "sm_env \<Rightarrow> dbus \<Rightarrow> int \<Rightarrow> (mon, unit) proc" where
  "unit_file_state_change_handler env bus now = bindp (getp (\<lambda>s. map fst (services s))) (\<lambda>keys.
     forp keys (\<lambda>k. on_the_service k (handle_unit_state_change env bus now)))"

definition dispatch_event :: "sm_env \<Rightarrow> dbus \<Rightarrow> int \<Rightarrow> dbus_event \<Rightarrow> (mon, unit) proc" where
  "dispatch_event env bus now ev = (case ev of
     PropertiesChanged k \<Rightarrow> on_the_service k (properties_changed_handler bus now)
   | UnitFilesChanged \<Rightarrow> unit_file_state_change_handler env bus now)"

text \<open>
  \<^verbatim>\<open>process_events\<close>: an exception in a signal handler is printed by the dispatcher and goes no
  further.
\<close>

definition process_events :: "sm_env \<Rightarrow> dbus \<Rightarrow> int \<Rightarrow> dbus_event list \<Rightarrow> (mon, unit) proc" where
  "process_events env bus now evs = forp evs (\<lambda>ev. swallow (dispatch_event env bus now ev))"

text \<open>One turn of the loop of \<^verbatim>\<open>run\<close>; \<open>due\<close> when the turn number is a multiple of the polling ratio.\<close>

definition run_turn :: "sm_env \<Rightarrow> dbus \<Rightarrow> int \<Rightarrow> dbus_event list \<Rightarrow> bool \<Rightarrow> (mon, unit) proc" where
  "run_turn env bus now evs due =
     seqp (process_events env bus now evs)
     (seqp (process_alerts env)
     (if due then
        seqp (bindp (getp (\<lambda>s. filter (\<lambda>n. n \<notin> fst ` set (services s)) (services_to_monitor s))) (\<lambda>names.
                forp names (initialize_service env bus now)))
        (seqp (bindp (getp monitoring_disabled) (\<lambda>names.
                 forp names (\<lambda>n. on_the_service n (new_unit_state env bus now EnabledState))))
              (check_service_threshold_time env now))
      else ret ()))"

text \<open>\<^verbatim>\<open>int(polling_frequency / thread_sleep) or 1\<close>.\<close>

definition non_active_check :: "int \<Rightarrow> int \<Rightarrow> int res" where
  "non_active_check polling_frequency thread_sleep =
     (if thread_sleep = 0 then Inl PyException
      else let k = sgn polling_frequency * sgn thread_sleep * (\<bar>polling_frequency\<bar> div \<bar>thread_sleep\<bar>)
           in Inr (if k = 0 then 1 else k))"

text \<open>
  The turns \<open>k\<close>, \<open>k + 1\<close> and so on of \<^verbatim>\<open>run\<close> for the given inputs; every exception becomes a
  \<^verbatim>\<open>ThreadException\<close>.
\<close>

primrec sm_turns :: "(dbus \<times> int \<times> dbus_event list) list \<Rightarrow> sm_env \<Rightarrow> int \<Rightarrow> int \<Rightarrow> (mon, unit) proc" where
  "sm_turns [] env every k = ret ()"
| "sm_turns (t # ts) env every k = bindp (getp sm_running) (\<lambda>running.
     if running then seqp (run_turn env (fst t) (fst (snd t)) (snd (snd t)) (k mod every = 0)) (sm_turns ts env every (k + 1))
     else ret ())"

definition sm_run :: "(dbus \<times> int \<times> dbus_event list) list \<Rightarrow> sm_env \<Rightarrow> int \<Rightarrow> int \<Rightarrow> (mon, unit) proc" where
  "sm_run ts env polling_frequency thread_sleep = tryp
     (seqp (modp (\<lambda>s. if services_to_monitor s = [] then s\<lparr>sm_running := False\<rparr> else s))
           (bindp (liftp (non_active_check polling_frequency thread_sleep)) (\<lambda>every. sm_turns ts env every 0)))
     (\<lambda>_. raise ThreadException)"

definition sm_initialize :: "sm_env \<Rightarrow> dbus \<Rightarrow> int \<Rightarrow> (mon, unit) proc" where
  "sm_initialize env bus now = seqp (on_sm_iem check_existing_fault_iems)
     (bindp (getp services_to_monitor) (\<lambda>names. forp names (initialize_service env bus now)))"

definition sm_suspend :: "mon \<Rightarrow> mon" where "sm_suspend s = s\<lparr>sm_suspended := True\<rparr>"
definition sm_resume :: "mon \<Rightarrow> mon" where "sm_resume s = s\<lparr>sm_suspended := False\<rparr>"
definition sm_shutdown :: "mon \<Rightarrow> mon" where "sm_shutdown s = s\<lparr>sm_running := False\<rparr>"

section \<open>What each operation does to one service\<close>

definition ok_loc :: "service \<Rightarrow> mon \<Rightarrow> bool" where
  "ok_loc sv s \<longleftrightarrow> (s_name sv \<in> set (active_waiting_services s) \<longrightarrow> service_state sv = FailedState) \<and>
     (s_name sv \<in> set (failed_waiting_services s) \<longrightarrow> service_state sv \<noteq> FailedState) \<and>
     (s_name sv \<in> set (non_active s) \<longrightarrow> service_state sv = InactiveState)"

text \<open>\<open>only n s s'\<close>: outside the class sets of \<open>n\<close>, its cache file, the pending alerts and the disabled set nothing changed.\<close>

definition only :: "string \<Rightarrow> mon \<Rightarrow> mon \<Rightarrow> bool" where
  "only n s s' \<longleftrightarrow> services s' = services s \<and> sm_q s' = sm_q s \<and> sm_raised s' = sm_raised s \<and>
     fault_iems (sm_iem s') = fault_iems (sm_iem s) \<and>
     (\<forall>m. m \<noteq> n \<longrightarrow> (m \<in> set (active_waiting_services s') \<longleftrightarrow> m \<in> set (active_waiting_services s)) \<and>
        (m \<in> set (failed_waiting_services s') \<longleftrightarrow> m \<in> set (failed_waiting_services s)) \<and>
        (m \<in> set (non_active s') \<longleftrightarrow> m \<in> set (non_active s)))"

lemma set_add_name [simp]: "set (add_name n xs) = insert n (set xs)"
  by (auto simp: add_name_def)

lemma set_discard [simp]: "set (discard n xs) = set xs - {n}"
  by (auto simp: discard_def)

lemma only_refl [simp]: "only n s s"
  by (simp add: only_def)

lemma only_trans: "only n s s1 \<Longrightarrow> only n s1 s2 \<Longrightarrow> only n s s2"
  by (auto simp: only_def)

definition sets_ok :: "mon \<Rightarrow> bool" where
  "sets_ok s \<longleftrightarrow> distinct (active_waiting_services s) \<and> distinct (failed_waiting_services s) \<and> distinct (non_active s)"

lemma distinct_add_name [simp]: "distinct (add_name n xs) = distinct xs"
  by (simp add: add_name_def)

lemma distinct_discard: "distinct xs \<Longrightarrow> distinct (discard n xs)"
  by (simp add: discard_def)

definition keeps_failed :: "service \<times> mon \<Rightarrow> service \<times> mon \<Rightarrow> bool" where
  "keeps_failed p p' \<longleftrightarrow> (sets_ok (snd p) \<longrightarrow> sets_ok (snd p')) \<and> (service_state (fst p') = FailedState \<longleftrightarrow> service_state (fst p) = FailedState) \<and>
     s_name (fst p') = s_name (fst p) \<and> only (s_name (fst p)) (snd p) (snd p') \<and>
     (ok_loc (fst p) (snd p) \<longrightarrow> ok_loc (fst p') (snd p'))"

lemma keeps_failed_refl [simp]: "keeps_failed p p"
  by (simp add: keeps_failed_def)

lemma keeps_failed_trans: "keeps_failed p p1 \<Longrightarrow> keeps_failed p1 p2 \<Longrightarrow> keeps_failed p p2"
  by (auto simp: keeps_failed_def intro: only_trans)

lemmas service_ops = with_self_def with_class_def new_service_state_def enter_active_or_failed_def enter_inactive_def
  dump_to_cache_def dump_service_def on_sm_fs_def

lemma record_change_frame [simp]:
  "s_name (record_change a b c sv) = s_name sv" "service_state (record_change a b c sv) = service_state sv"
  "nonactive_enter_timestamp (record_change a b c sv) = nonactive_enter_timestamp sv"
  by (simp_all add: record_change_def Let_def)

lemma handler_keeps: "keeps_failed p (snd (properties_changed_handler bus now p))"
proof -
  obtain sv s where p: "p = (sv, s)" by fastforce
  show ?thesis
  proof (cases "\<exists>a b c. dbus_active_state bus (s_name sv) = Inr a \<and> dbus_sub_state bus (s_name sv) = Inr b \<and>
      dbus_main_pid bus (s_name sv) = Inr c")
    case False
    then show ?thesis
      by (cases "dbus_active_state bus (s_name sv)"; cases "dbus_sub_state bus (s_name sv)";
          cases "dbus_main_pid bus (s_name sv)") (auto simp: properties_changed_handler_def p py_exec)
  next
    case True
    then obtain a b c where abc: "dbus_active_state bus (s_name sv) = Inr a" "dbus_sub_state bus (s_name sv) = Inr b"
      "dbus_main_pid bus (s_name sv) = Inr c" by blast
    let ?sv = "record_change a b c sv"
    show ?thesis
      by (cases "service_state sv")
        (simp_all add: properties_changed_handler_def p abc bindp_def getp_def liftp_def seqp_def ret_def modp_def
          service_ops keeps_failed_def only_def ok_loc_def sets_ok_def distinct_discard)
  qed
qed

lemma keeps_from: "(\<And>p. keeps_failed p (snd (m p))) \<Longrightarrow> keeps (keeps_failed p0) m"
  by (rule keepsI) (blast intro: keeps_failed_trans)

lemma keeps_handler [keeps_rules]: "keeps (keeps_failed p0) (properties_changed_handler bus now)"
  by (rule keeps_from) (rule handler_keeps)

lemma keeps_monitoring_disabled: "keeps (keeps_failed p0) (enter_monitoring_disabled env now)"
  by (rule keeps_from)
    (auto simp: enter_monitoring_disabled_def py_exec service_ops keeps_failed_def only_def ok_loc_def sets_ok_def
      split: sum.splits prod.splits)

lemma keeps_disabled: "keeps (keeps_failed p0) enter_disabled"
  by (rule keeps_from)
    (auto simp: enter_disabled_def py_exec service_ops keeps_failed_def only_def ok_loc_def sets_ok_def distinct_discard
      split: prod.splits)

lemma keeps_self:
  "(\<And>sv. service_state (f sv) = service_state sv \<and> s_name (f sv) = s_name sv) \<Longrightarrow> keeps (keeps_failed p0) (with_self f)"
  by (rule keeps_from) (auto simp: with_self_def modp_def keeps_failed_def ok_loc_def split: prod.splits)

lemma keeps_class:
  "(\<And>n s. only n s (f n s) \<and> active_waiting_services (f n s) = active_waiting_services s \<and>
     failed_waiting_services (f n s) = failed_waiting_services s \<and> non_active (f n s) = non_active s) \<Longrightarrow>
   keeps (keeps_failed p0) (with_class f)"
  by (rule keeps_from) (auto simp: with_class_def modp_def keeps_failed_def ok_loc_def sets_ok_def split: prod.splits)

lemma keeps_set_unit_state: "keeps (keeps_failed p0) m \<Longrightarrow> keeps (keeps_failed p0) (set_unit_state u m)"
  unfolding set_unit_state_def by (intro keeps_rules keeps_self) auto

lemma keeps_enabled: "keeps (keeps_failed p0) (enter_enabled env bus now)"
  unfolding enter_enabled_def
  by (intro keeps_rules keeps_self keeps_class keeps_set_unit_state keeps_monitoring_disabled) (auto simp: only_def)

lemma keeps_new_unit_state: "keeps (keeps_failed p0) (new_unit_state env bus now u)"
  unfolding new_unit_state_def
  by (cases u) (simp_all add: keeps_set_unit_state keeps_enabled keeps_disabled keeps_monitoring_disabled)

lemma keeps_unit_change: "keeps (keeps_failed p0) (handle_unit_state_change env bus now)"
  unfolding handle_unit_state_change_def by (intro keeps_rules keeps_new_unit_state)

section \<open>Invariant of the monitor\<close>

definition mon_ok :: "mon \<Rightarrow> bool" where
  "mon_ok s \<longleftrightarrow> sets_ok s \<and> (\<forall>k sv. map_of (services s) k = Some sv \<longrightarrow> s_name sv = k \<and> ok_loc sv s) \<and>
     set (active_waiting_services s) \<union> set (failed_waiting_services s) \<union> set (non_active s) \<subseteq> dom (map_of (services s))"

definition failed_at :: "string \<Rightarrow> mon \<Rightarrow> bool" where
  "failed_at n s \<longleftrightarrow> (\<exists>sv. map_of (services s) n = Some sv \<and> service_state sv = FailedState)"

definition raised_of :: "string \<Rightarrow> mon \<Rightarrow> string list" where
  "raised_of n s = map snd (filter (\<lambda>x. fst x = n) (sm_raised s))"

text \<open>\<open>steady n s s'\<close>: the monitor stays well formed and nothing was raised or decided for \<open>n\<close>.\<close>

definition steady :: "string \<Rightarrow> mon \<Rightarrow> mon \<Rightarrow> bool" where
  "steady n s s' \<longleftrightarrow> (mon_ok s \<longrightarrow> mon_ok s') \<and> (failed_at n s' \<longleftrightarrow> failed_at n s) \<and> raised_of n s' = raised_of n s \<and>
     dom (map_of (msgQlist (sm_q s))) \<subseteq> dom (map_of (msgQlist (sm_q s')))"

lemma steady_refl [simp]: "steady n s s"
  by (simp add: steady_def)

lemma steady_trans: "steady n s s1 \<Longrightarrow> steady n s1 s2 \<Longrightarrow> steady n s s2"
  unfolding steady_def by auto

lemma on_the_service_steady:
  assumes f: "\<And>p. keeps_failed p (snd (f p))" and ok: "mon_ok s"
  shows "steady n s (snd (on_the_service k f s))"
proof (cases "map_of (services s) k")
  case None
  then show ?thesis by (simp add: on_the_service_def)
next
  case (Some sv)
  obtain r sv' s' where run: "f (sv, s) = (r, (sv', s'))" by (metis surj_pair)
  have kf: "keeps_failed (sv, s) (sv', s')" using f [of "(sv, s)"] run by simp
  have name: "s_name sv = k" and loc: "ok_loc sv s" using ok Some by (auto simp: mon_ok_def)
  have o: "only k s s'" and same: "service_state sv' = FailedState \<longleftrightarrow> service_state sv = FailedState" "s_name sv' = k"
    and loc': "ok_loc sv' s'" and sets: "sets_ok s'"
    using kf name loc ok by (auto simp: keeps_failed_def mon_ok_def)
  let ?s = "s'\<lparr>services := AList.update k sv' (services s')\<rparr>"
  have srv: "services s' = services s" using o by (simp add: only_def)
  have other: "s_name u = m \<and> ok_loc u ?s" if "map_of (services s) m = Some u" "m \<noteq> k" for m u
    using that ok o by (auto simp: mon_ok_def ok_loc_def only_def)
  have self: "ok_loc sv' ?s" using loc' by (simp add: ok_loc_def)
  have "m \<in> dom (map_of (services ?s))"
    if "m \<in> set (active_waiting_services ?s) \<union> set (failed_waiting_services ?s) \<union> set (non_active ?s)" for m
    using that ok o srv Some by (cases "m = k") (auto simp: mon_ok_def only_def)
  moreover have "s_name u = m \<and> ok_loc u ?s" if "map_of (services ?s) m = Some u" for m u
    using that other [of m u] self same(2) srv by (cases "m = k") auto
  moreover have "sets_ok ?s" using sets by (simp add: sets_ok_def)
  ultimately have "mon_ok ?s" unfolding mon_ok_def by blast
  then show ?thesis
    using o same(1) Some run by (auto simp: steady_def on_the_service_def failed_at_def raised_of_def only_def)
qed

lemma keeps_start: "(\<And>p0. keeps (keeps_failed p0) m) \<Longrightarrow> keeps_failed p (snd (m p))"
  using keepsD keeps_failed_refl by metis

section \<open>Raising an alert\<close>

lemma update_same: "map_of al k = Some v \<Longrightarrow> AList.update k v al = al"
  by (induction al) (auto split: if_splits)

definition same_sets :: "mon \<Rightarrow> mon \<Rightarrow> bool" where
  "same_sets s s' \<longleftrightarrow> services s' = services s \<and> active_waiting_services s' = active_waiting_services s \<and>
     failed_waiting_services s' = failed_waiting_services s \<and> non_active s' = non_active s"

lemma same_sets_mon_ok: "same_sets s s' \<Longrightarrow> mon_ok s' = mon_ok s"
  by (simp add: same_sets_def mon_ok_def sets_ok_def ok_loc_def)

lemma raise_iem_frame:
  "raise_iem env n t s = (r, s') \<Longrightarrow> \<exists>i. s' = s\<lparr>sm_iem := i\<rparr>"
  by (auto simp: raise_iem_def on_sm_iem_def py_exec Let_def split: if_splits prod.splits sum.splits)
    (metis mon.surjective mon.update_convs(8))+

lemma dump_run:
  "on_the_service n dump_to_cache s = (case map_of (services s) n of
     None \<Rightarrow> (Inl KeyError, s) | Some sv \<Rightarrow> (Inr (), dump_service sv s))"
  by (auto simp: on_the_service_def dump_to_cache_def modp_def dump_service_def on_sm_fs_def update_same split: option.splits)

lemma write_keeps_queues:
  "write_internal_msgQ n m e q = (r, q') \<Longrightarrow> dom (map_of (msgQlist q)) \<subseteq> dom (map_of (msgQlist q'))"
  by (auto simp: write_internal_msgQ_def split: option.splits)

lemma raise_alert_frame:
  assumes "raise_alert env m s = (r, s')"
  shows "same_sets s s' \<and> dom (map_of (msgQlist (sm_q s))) \<subseteq> dom (map_of (msgQlist (sm_q s'))) \<and>
    (sm_raised s' = sm_raised s \<or>
     (\<exists>n t. bindr (get_items m (alert_path @ [''info'', ''resource_id''])) str_value = Inr n \<and>
        sm_raised s' = sm_raised s @ [(n, t)]))"
proof -
  have idle: ?thesis if "s' = s\<lparr>sm_iem := i, sm_q := q\<rparr>" "dom (map_of (msgQlist (sm_q s))) \<subseteq> dom (map_of (msgQlist q))" for i q
    using that by (simp add: same_sets_def)
  have idle0: ?thesis if "s' = s\<lparr>sm_iem := i\<rparr>" for i using that by (simp add: same_sets_def)
  show ?thesis
  proof (cases "\<exists>n t. bindr (get_items m (alert_path @ [''info'', ''resource_id''])) str_value = Inr n \<and>
      bindr (get_items m (alert_path @ [''alert_type''])) str_value = Inr t")
    case False
    then have "s' = s" using assms by (auto simp: raise_alert_def bindp_def liftp_def split: sum.splits)
    then show ?thesis by (simp add: same_sets_def)
  next
    case True
    then obtain n t where nt: "bindr (get_items m (alert_path @ [''info'', ''resource_id''])) str_value = Inr n"
        "bindr (get_items m (alert_path @ [''alert_type''])) str_value = Inr t" by blast
    obtain r1 i where iem: "raise_iem env n t s = (r1, s\<lparr>sm_iem := i\<rparr>)" using raise_iem_frame by (metis surj_pair)
    obtain r2 q where q: "write_internal_msgQ ''ServiceMsgHandler'' m None (sm_q s) = (r2, q)" by fastforce
    have run: "raise_alert env m s = (case r1 of Inl e \<Rightarrow> (Inl e, s\<lparr>sm_iem := i\<rparr>) | Inr _ \<Rightarrow>
        (case r2 of Inl e \<Rightarrow> (Inl e, s\<lparr>sm_iem := i, sm_q := q\<rparr>) | Inr _ \<Rightarrow>
           on_the_service n dump_to_cache (s\<lparr>sm_iem := i, sm_q := q, sm_raised := sm_raised s @ [(n, t)]\<rparr>)))"
      using q by (simp add: raise_alert_def bindp_def liftp_def nt seqp_def iem on_sm_q_def modp_def split: sum.splits)
    show ?thesis
    proof (cases "\<exists>u v. r1 = Inr u \<and> r2 = Inr v")
      case False
      then show ?thesis using assms run idle0 idle write_keeps_queues [OF q] by (auto split: sum.splits)
    next
      case True
      then show ?thesis using assms run nt(1) write_keeps_queues [OF q]
        by (auto simp: dump_run same_sets_def dump_service_def on_sm_fs_def split: option.splits)
    qed
  qed
qed

definition iem_quiet :: "sm_env \<Rightarrow> string \<Rightarrow> bool" where
  "iem_quiet env n \<longleftrightarrow> (\<forall>t s. fst (raise_iem env n t s) = Inr ())"

lemma iem_quiet_other: "n \<noteq> ''kafka.service'' \<Longrightarrow> iem_quiet env n"
  by (simp add: iem_quiet_def raise_iem_def py_exec)

lemma map_severity_alert: "\<exists>sev. map_severity (alert_type_of a) = Inr sev"
  by (cases a) (simp_all add: alert_type_of_def map_severity_def ALERT_TO_SEVERITY_MAPPING_def)

lemma get_alert_run:
  "\<exists>m. get_alert env now sv a = Inr m \<and>
    bindr (get_items m (alert_path @ [''info'', ''resource_id''])) str_value = Inr (s_name sv) \<and>
    bindr (get_items m (alert_path @ [''alert_type''])) str_value = Inr (alert_type_of a)"
proof -
  obtain sev where "map_severity (alert_type_of a) = Inr sev" using map_severity_alert by blast
  then show ?thesis by (simp add: get_alert_def Let_def alert_path_def)
qed

lemma raise_alert_run:
  assumes m: "bindr (get_items m (alert_path @ [''info'', ''resource_id''])) str_value = Inr n"
      "bindr (get_items m (alert_path @ [''alert_type''])) str_value = Inr t"
    and quiet: "iem_quiet env n" and queue: "map_of (msgQlist (sm_q s)) ''ServiceMsgHandler'' \<noteq> None"
    and srv: "map_of (services s) n \<noteq> None"
  shows "\<exists>s'. raise_alert env m s = (Inr (), s') \<and> sm_raised s' = sm_raised s @ [(n, t)]"
proof -
  obtain r1 i where iem0: "raise_iem env n t s = (r1, s\<lparr>sm_iem := i\<rparr>)" using raise_iem_frame by (metis surj_pair)
  then have iem: "raise_iem env n t s = (Inr (), s\<lparr>sm_iem := i\<rparr>)" using quiet unfolding iem_quiet_def by (metis fst_conv)
  obtain ms where "map_of (msgQlist (sm_q s)) ''ServiceMsgHandler'' = Some ms" using queue by blast
  from write_run [OF this, of m None] obtain q where
    q: "write_internal_msgQ ''ServiceMsgHandler'' m None (sm_q s) = (Inr (), q)" by blast
  from srv obtain sv where "map_of (services s) n = Some sv" by blast
  then show ?thesis
    using q by (simp add: raise_alert_def bindp_def liftp_def m seqp_def iem on_sm_q_def modp_def dump_run
        dump_service_def on_sm_fs_def)
qed

section \<open>The threshold check\<close>

lemma switch_run:
  assumes ok: "mon_ok s" and sv: "map_of (services s) m = Some sv" and st: "service_state sv \<noteq> new" "new \<noteq> InactiveState"
  shows "\<exists>s1. on_the_service m (new_service_state now new) s = (Inr (), s1) \<and> mon_ok s1 \<and>
     map_of (services s1) = (map_of (services s))(m \<mapsto> sv\<lparr>service_state := new\<rparr>) \<and>
     sm_raised s1 = sm_raised s \<and> sm_q s1 = sm_q s \<and>
     active_waiting_services s1 = discard m (active_waiting_services s) \<and>
     failed_waiting_services s1 = discard m (failed_waiting_services s) \<and> non_active s1 = discard m (non_active s)"
proof -
  have name: "s_name sv = m" using ok sv by (simp add: mon_ok_def)
  let ?s1 = "s\<lparr>non_active := discard m (non_active s), failed_waiting_services := discard m (failed_waiting_services s),
     active_waiting_services := discard m (active_waiting_services s),
     services := AList.update m (sv\<lparr>service_state := new\<rparr>) (services s)\<rparr>"
  have "new_service_state now new (sv, s) = (Inr (), (sv\<lparr>service_state := new\<rparr>,
     s\<lparr>non_active := discard m (non_active s), failed_waiting_services := discard m (failed_waiting_services s),
     active_waiting_services := discard m (active_waiting_services s)\<rparr>))"
    using st name by (cases new) (simp_all add: py_exec service_ops)
  then have run: "on_the_service m (new_service_state now new) s = (Inr (), ?s1)"
    using sv by (simp add: on_the_service_def)
  have loc: "s_name u = k \<and> ok_loc u ?s1" if "map_of (services ?s1) k = Some u" for k u
    using that ok name by (cases "k = m") (auto simp: mon_ok_def ok_loc_def)
  have sets: "sets_ok ?s1" using ok by (simp add: mon_ok_def sets_ok_def distinct_discard)
  have "k \<in> dom (map_of (services ?s1))"
    if "k \<in> set (active_waiting_services ?s1) \<union> set (failed_waiting_services ?s1) \<union> set (non_active ?s1)" for k
    using that ok by (auto simp: mon_ok_def)
  then have "mon_ok ?s1" using loc sets unfolding mon_ok_def by blast
  with run show ?thesis by (intro exI [of _ ?s1]) (simp add: update_conv')
qed

definition last_raised :: "string \<Rightarrow> mon \<Rightarrow> string option" where
  "last_raised n s = Some (if failed_at n s then ''fault'' else ''fault_resolved'')"

definition fits :: "service_state \<Rightarrow> alert \<Rightarrow> bool" where
  "fits new a \<longleftrightarrow> (new, a) \<in> {(ActiveState, ResolvedAlert), (FailedState, FailedAlert), (FailedState, InactiveAlert)}"

lemma get_self: "map_of (services s) m = Some sv \<Longrightarrow> on_the_service m (getp fst) s = (Inr sv, s)"
  by (simp add: on_the_service_def getp_def update_same)

text \<open>One body of a loop, on a service that may change into the new state.\<close>

lemma check_one_run:
  assumes ok: "mon_ok s" and sv: "map_of (services s) m = Some sv" and fit: "fits new a"
    and st: "ripe now sv \<Longrightarrow> service_state sv = FailedState \<longleftrightarrow> new = ActiveState"
  shows "check_one env now ripe new a m s = (Inr (), s) \<and> \<not> ripe now sv \<or>
    (\<exists>s1 msg. ripe now sv \<and> check_one env now ripe new a m s = raise_alert env msg s1 \<and> mon_ok s1 \<and>
       bindr (get_items msg (alert_path @ [''info'', ''resource_id''])) str_value = Inr m \<and>
       bindr (get_items msg (alert_path @ [''alert_type''])) str_value = Inr (alert_type_of a) \<and>
       map_of (services s1) = (map_of (services s))(m \<mapsto> sv\<lparr>service_state := new\<rparr>) \<and>
       sm_raised s1 = sm_raised s \<and> sm_q s1 = sm_q s \<and>
       active_waiting_services s1 = discard m (active_waiting_services s) \<and>
       failed_waiting_services s1 = discard m (failed_waiting_services s) \<and> non_active s1 = discard m (non_active s))"
proof (cases "ripe now sv")
  case False
  then show ?thesis by (simp add: check_one_def bindp_def get_self [OF sv] ret_def)
next
  case True
  have new: "service_state sv \<noteq> new" "new \<noteq> InactiveState" using fit st [OF True] by (auto simp: fits_def)
  obtain s1 where s1: "on_the_service m (new_service_state now new) s = (Inr (), s1)" "mon_ok s1"
     "map_of (services s1) = (map_of (services s))(m \<mapsto> sv\<lparr>service_state := new\<rparr>)"
     "sm_raised s1 = sm_raised s" "sm_q s1 = sm_q s"
     "active_waiting_services s1 = discard m (active_waiting_services s)"
     "failed_waiting_services s1 = discard m (failed_waiting_services s)" "non_active s1 = discard m (non_active s)"
    using switch_run [OF ok sv new] by blast
  let ?sv = "sv\<lparr>service_state := new\<rparr>"
  have name: "s_name ?sv = m" using ok sv by (simp add: mon_ok_def)
  obtain msg where msg: "get_alert env now ?sv a = Inr msg"
      "bindr (get_items msg (alert_path @ [''info'', ''resource_id''])) str_value = Inr m"
      "bindr (get_items msg (alert_path @ [''alert_type''])) str_value = Inr (alert_type_of a)"
    using get_alert_run [of env now ?sv a] name by auto
  have "on_the_service m (getp fst) s1 = (Inr ?sv, s1)" by (rule get_self) (simp add: s1(3))
  then have "check_one env now ripe new a m s = raise_alert env msg s1"
    using True s1(1) msg(1) by (simp add: check_one_def bindp_def get_self [OF sv] seqp_def liftp_def)
  with True s1 msg show ?thesis by blast
qed

lemma check_one_step:
  assumes ok: "mon_ok s" and sv: "map_of (services s) m = Some sv" and fit: "fits new a"
    and st: "service_state sv = FailedState \<longleftrightarrow> new = ActiveState"
    and quiet: "iem_quiet env n" and queue: "map_of (msgQlist (sm_q s)) ''ServiceMsgHandler'' \<noteq> None"
    and run: "check_one env now ripe new a m s = (r, s')"
  shows "mon_ok s' \<and> map_of (msgQlist (sm_q s')) ''ServiceMsgHandler'' \<noteq> None \<and>
     alert_step (last_raised n s) (raised_of n s) (last_raised n s') (raised_of n s')"
proof (cases "ripe now sv")
  case False
  then have "s' = s" using check_one_run [OF ok sv fit st, where env = env and now = now and ripe = ripe] run by auto
  then show ?thesis using ok queue by (simp add: alert_step_def)
next
  case True
  then obtain s1 msg where s1: "raise_alert env msg s1 = (r, s')" "mon_ok s1"
     "bindr (get_items msg (alert_path @ [''info'', ''resource_id''])) str_value = Inr m"
     "bindr (get_items msg (alert_path @ [''alert_type''])) str_value = Inr (alert_type_of a)"
     "map_of (services s1) = (map_of (services s))(m \<mapsto> sv\<lparr>service_state := new\<rparr>)"
     "sm_raised s1 = sm_raised s" "sm_q s1 = sm_q s"
    using check_one_run [OF ok sv fit st, where env = env and now = now and ripe = ripe] run by force
  have fr: "same_sets s1 s'" "dom (map_of (msgQlist (sm_q s1))) \<subseteq> dom (map_of (msgQlist (sm_q s')))"
      "sm_raised s' = sm_raised s1 \<or> (\<exists>t. sm_raised s' = sm_raised s1 @ [(m, t)])"
    using raise_alert_frame [OF s1(1)] s1(3) by auto
  have base: "mon_ok s'" "map_of (msgQlist (sm_q s')) ''ServiceMsgHandler'' \<noteq> None"
    using s1(2,7) fr queue by (auto simp: same_sets_mon_ok)
  have state: "map_of (services s') = (map_of (services s))(m \<mapsto> sv\<lparr>service_state := new\<rparr>)"
    using fr(1) s1(5) by (simp add: same_sets_def)
  show ?thesis
  proof (cases "n = m")
    case False
    then have "raised_of n s' = raised_of n s" using fr(3) s1(6) by (auto simp: raised_of_def)
    moreover have "failed_at n s' = failed_at n s" using state False by (simp add: failed_at_def)
    ultimately show ?thesis using base by (simp add: alert_step_def last_raised_def)
  next
    case True
    have "map_of (services s1) m \<noteq> None" using s1(5) by simp
    from raise_alert_run [OF s1(3,4) _ _ this, of env] quiet queue s1(1,6,7) True
    have "sm_raised s' = sm_raised s @ [(m, alert_type_of a)]" by auto
    then have "raised_of n s' = raised_of n s @ [alert_type_of a]" using True by (simp add: raised_of_def)
    moreover have "failed_at n s' \<longleftrightarrow> new = FailedState" using state True by (simp add: failed_at_def)
    moreover have "failed_at n s \<longleftrightarrow> new = ActiveState" using sv st True by (simp add: failed_at_def)
    ultimately show ?thesis using base fit
      by (auto simp: alert_step_def last_raised_def fits_def alert_type_of_def)
  qed
qed

section \<open>The monitor as a transition system\<close>

text \<open>
  A signal, the retry of a service whose monitoring failed, and one body of each loop of the
  threshold check (on a name that is in the set when its turn comes). The alerts for services
  that cannot be monitored are raised by \<open>process_alerts\<close> and are no step here.
\<close>

inductive svc_step :: "sm_env \<Rightarrow> mon \<Rightarrow> mon \<Rightarrow> bool" for env where
  event: "dispatch_event env bus now ev s = (r, s') \<Longrightarrow> svc_step env s s'"
| enable: "on_the_service n (new_unit_state env bus now EnabledState) s = (r, s') \<Longrightarrow> svc_step env s s'"
| resolved: "n \<in> set (active_waiting_services s) \<Longrightarrow>
    check_one env now in_same_state_for_threshold_time ActiveState ResolvedAlert n s = (r, s') \<Longrightarrow> svc_step env s s'"
| failed: "n \<in> set (failed_waiting_services s) \<Longrightarrow>
    check_one env now in_same_state_for_threshold_time FailedState FailedAlert n s = (r, s') \<Longrightarrow> svc_step env s s'"
| inactive: "n \<in> set (non_active s) \<Longrightarrow>
    check_one env now is_nonactive_for_threshold_time FailedState InactiveAlert n s = (r, s') \<Longrightarrow> svc_step env s s'"

definition svc_inv :: "sm_env \<Rightarrow> string \<Rightarrow> mon \<Rightarrow> bool" where
  "svc_inv env n s \<longleftrightarrow> mon_ok s \<and> iem_quiet env n \<and> map_of (msgQlist (sm_q s)) ''ServiceMsgHandler'' \<noteq> None"

lemma steady_step:
  assumes "steady n s s'" and "svc_inv env n s"
  shows "svc_inv env n s' \<and> alert_step (last_raised n s) (raised_of n s) (last_raised n s') (raised_of n s')"
  using assms by (auto simp: steady_def svc_inv_def alert_step_def last_raised_def)

lemma on_the_service_mon_ok:
  "(\<And>p0. keeps (keeps_failed p0) f) \<Longrightarrow> mon_ok s \<Longrightarrow> steady n s (snd (on_the_service k f s))"
  using on_the_service_steady keeps_start by blast

lemma forp_steady:
  assumes "\<And>x s. mon_ok s \<Longrightarrow> steady n s (snd (f x s))"
  shows "mon_ok s \<Longrightarrow> steady n s (snd (forp xs f s))"
proof (induction xs arbitrary: s)
  case (Cons x xs)
  obtain r s1 where s1: "f x s = (r, s1)" by fastforce
  have st: "steady n s s1" using assms [OF Cons.prems, of x] s1 by simp
  then have "mon_ok s1" using Cons.prems by (simp add: steady_def)
  from Cons.IH [OF this] st s1 show ?case
    by (auto simp: seqp_def split: sum.splits intro: steady_trans)
qed (simp add: ret_def)

lemma dispatch_steady: "mon_ok s \<Longrightarrow> steady n s (snd (dispatch_event env bus now ev s))"
  by (cases ev)
    (simp_all add: dispatch_event_def on_the_service_mon_ok [OF keeps_handler] unit_file_state_change_handler_def
      bindp_def getp_def forp_steady on_the_service_mon_ok [OF keeps_unit_change])

lemma svc_step_alert:
  assumes inv: "svc_inv env n s" and step: "svc_step env s s'"
  shows "svc_inv env n s' \<and> alert_step (last_raised n s) (raised_of n s) (last_raised n s') (raised_of n s')"
proof -
  have ok: "mon_ok s" and quiet: "iem_quiet env n" and queue: "map_of (msgQlist (sm_q s)) ''ServiceMsgHandler'' \<noteq> None"
    using inv by (auto simp: svc_inv_def)
  have check: ?thesis
    if "check_one env now ripe new a m s = (r, s')" "fits new a" "map_of (services s) m = Some sv"
      "service_state sv = FailedState \<longleftrightarrow> new = ActiveState" for now ripe new a m r sv
    using check_one_step [OF ok that(3,2,4) quiet queue that(1)] quiet by (simp add: svc_inv_def)
  have member: "\<exists>sv. map_of (services s) m = Some sv \<and> ok_loc sv s \<and> s_name sv = m"
    if "m \<in> set (active_waiting_services s) \<union> set (failed_waiting_services s) \<union> set (non_active s)" for m
    using ok that unfolding mon_ok_def by blast
  show ?thesis using step
  proof cases
    case (event bus now ev r)
    then show ?thesis using dispatch_steady [OF ok, of n env bus now ev] inv by (intro steady_step) simp_all
  next
    case (enable m bus now r)
    then show ?thesis
      using on_the_service_mon_ok [OF keeps_new_unit_state ok, of n m env bus now EnabledState] inv
      by (intro steady_step) simp_all
  next
    case (resolved m now r)
    then obtain sv where "map_of (services s) m = Some sv" "service_state sv = FailedState"
      using member [of m] by (auto simp: ok_loc_def)
    then show ?thesis using check [OF resolved(2)] by (simp add: fits_def)
  next
    case (failed m now r)
    then obtain sv where "map_of (services s) m = Some sv" "service_state sv \<noteq> FailedState"
      using member [of m] by (auto simp: ok_loc_def)
    then show ?thesis using check [OF failed(2)] by (simp add: fits_def)
  next
    case (inactive m now r)
    then obtain sv where "map_of (services s) m = Some sv" "service_state sv = InactiveState"
      using member [of m] by (auto simp: ok_loc_def)
    then show ?thesis using check [OF inactive(2)] by (simp add: fits_def)
  qed
qed

interpretation svc: alert_log "svc_inv env n" "svc_step env" "last_raised n" "raised_of n" for env n
  by unfold_locales (auto dest: svc_step_alert)

text \<open>The whole check is a sequence of such steps.\<close>

lemma check_one_sets:
  assumes ok: "mon_ok s" and sv: "map_of (services s) m = Some sv" and fit: "fits new a"
    and st: "service_state sv = FailedState \<longleftrightarrow> new = ActiveState"
    and run: "check_one env now ripe new a m s = (r, s')"
  shows "mon_ok s' \<and> (\<forall>x. x \<noteq> m \<longrightarrow>
     (x \<in> set (active_waiting_services s) \<longrightarrow> x \<in> set (active_waiting_services s')) \<and>
     (x \<in> set (failed_waiting_services s) \<longrightarrow> x \<in> set (failed_waiting_services s')) \<and>
     (x \<in> set (non_active s) \<longrightarrow> x \<in> set (non_active s')))"
proof (cases "ripe now sv")
  case False
  then have "s' = s" using check_one_run [OF ok sv fit st, where env = env and now = now and ripe = ripe] run by auto
  then show ?thesis using ok by simp
next
  case True
  then obtain s1 msg where s1: "raise_alert env msg s1 = (r, s')" "mon_ok s1"
     "active_waiting_services s1 = discard m (active_waiting_services s)"
     "failed_waiting_services s1 = discard m (failed_waiting_services s)" "non_active s1 = discard m (non_active s)"
    using check_one_run [OF ok sv fit st, where env = env and now = now and ripe = ripe] run by force
  have "same_sets s1 s'" using raise_alert_frame [OF s1(1)] by simp
  then show ?thesis using s1 same_sets_mon_ok [of s1 s'] by (auto simp: same_sets_def)
qed

definition loop_ok :: "(mon \<Rightarrow> string list) \<Rightarrow> service_state \<Rightarrow> alert \<Rightarrow> (int \<Rightarrow> service \<Rightarrow> bool) \<Rightarrow> bool" where
  "loop_ok sel new a ripe \<longleftrightarrow>
     (sel, new, a, ripe) = (active_waiting_services, ActiveState, ResolvedAlert, in_same_state_for_threshold_time) \<or>
     (sel, new, a, ripe) = (failed_waiting_services, FailedState, FailedAlert, in_same_state_for_threshold_time) \<or>
     (sel, new, a, ripe) = (non_active, FailedState, InactiveAlert, is_nonactive_for_threshold_time)"

lemma loop_member:
  assumes "loop_ok sel new a ripe" and "mon_ok s" and "m \<in> set (sel s)"
  shows "fits new a \<and> (\<exists>sv. map_of (services s) m = Some sv \<and> (service_state sv = FailedState \<longleftrightarrow> new = ActiveState))"
proof -
  have "m \<in> set (active_waiting_services s) \<union> set (failed_waiting_services s) \<union> set (non_active s)"
    using assms(1,3) by (auto simp: loop_ok_def)
  then obtain sv where "map_of (services s) m = Some sv" "ok_loc sv s" "s_name sv = m"
    using assms(2) unfolding mon_ok_def by blast
  then show ?thesis using assms(1,3) by (auto simp: loop_ok_def fits_def ok_loc_def)
qed

lemma check_loop_steps:
  assumes loop: "loop_ok sel new a ripe"
  shows "mon_ok s \<Longrightarrow> distinct names \<Longrightarrow> set names \<subseteq> set (sel s) \<Longrightarrow>
    forp names (check_one env now ripe new a) s = (r, s') \<Longrightarrow> (svc_step env)\<^sup>*\<^sup>* s s' \<and> mon_ok s'"
proof (induction names arbitrary: s)
  case (Cons m ms)
  obtain r1 s1 where s1: "check_one env now ripe new a m s = (r1, s1)" by fastforce
  have m: "m \<in> set (sel s)" using Cons.prems(3) by simp
  from loop_member [OF loop Cons.prems(1) m] obtain sv where fit: "fits new a"
    and sv: "map_of (services s) m = Some sv" "service_state sv = FailedState \<longleftrightarrow> new = ActiveState" by blast
  have step: "svc_step env s s1" using loop m s1
    by (auto simp: loop_ok_def intro: svc_step.resolved svc_step.failed svc_step.inactive)
  have keep: "mon_ok s1" "set ms \<subseteq> set (sel s1)"
    using check_one_sets [OF Cons.prems(1) sv(1) fit sv(2) s1] Cons.prems(2,3) loop by (auto simp: loop_ok_def)
  show ?case
  proof (cases r1)
    case (Inl e)
    then have "s' = s1" using Cons.prems(4) s1 by (simp add: seqp_def)
    with step keep show ?thesis by blast
  next
    case (Inr u)
    then have "forp ms (check_one env now ripe new a) s1 = (r, s')" using Cons.prems(4) s1 by (simp add: seqp_def)
    with Cons.IH [OF keep(1) _ keep(2)] Cons.prems(2) step show ?thesis
      by (auto intro: converse_rtranclp_into_rtranclp)
  qed
qed (simp add: ret_def)

lemma check_sel_steps:
  assumes "loop_ok sel new a ripe" and ok: "mon_ok s" and "bindp (getp sel) (\<lambda>names. forp names (check_one env now ripe new a)) s = (r, s')"
  shows "(svc_step env)\<^sup>*\<^sup>* s s' \<and> mon_ok s'"
proof -
  have "distinct (sel s)" using assms(1) ok by (auto simp: loop_ok_def mon_ok_def sets_ok_def)
  with check_loop_steps [OF assms(1) ok, of "sel s"] assms(3) show ?thesis by (simp add: bindp_def getp_def)
qed

lemma check_threshold_steps:
  assumes ok: "mon_ok s" and run: "check_service_threshold_time env now s = (r, s')"
  shows "(svc_step env)\<^sup>*\<^sup>* s s' \<and> mon_ok s'"
proof -
  let ?A = "bindp (getp active_waiting_services) (\<lambda>names. forp names (check_one env now in_same_state_for_threshold_time ActiveState ResolvedAlert))"
  let ?F = "bindp (getp failed_waiting_services) (\<lambda>names. forp names (check_one env now in_same_state_for_threshold_time FailedState FailedAlert))"
  let ?N = "bindp (getp non_active) (\<lambda>names. forp names (check_one env now is_nonactive_for_threshold_time FailedState InactiveAlert))"
  have loops: "loop_ok active_waiting_services ActiveState ResolvedAlert in_same_state_for_threshold_time"
    "loop_ok failed_waiting_services FailedState FailedAlert in_same_state_for_threshold_time"
    "loop_ok non_active FailedState InactiveAlert is_nonactive_for_threshold_time"
    by (simp_all add: loop_ok_def)
  obtain ra sa where a: "?A s = (ra, sa)" by fastforce
  obtain rf sf where f: "?F sa = (rf, sf)" by fastforce
  obtain rn sn where n: "?N sf = (rn, sn)" by fastforce
  note A = check_sel_steps [OF loops(1) ok a]
  note F = check_sel_steps [OF loops(2) conjunct2 [OF A] f]
  note N = check_sel_steps [OF loops(3) conjunct2 [OF F] n]
  have "check_service_threshold_time env now s = (case ra of Inl e \<Rightarrow> (Inl e, sa) | Inr _ \<Rightarrow>
      (case rf of Inl e \<Rightarrow> (Inl e, sf) | Inr _ \<Rightarrow> (rn, sn)))"
    unfolding check_service_threshold_time_def seqp_def a using f n by (simp split: sum.splits)
  with run A F N show ?thesis by (auto split: sum.splits intro: rtranclp_trans)
qed

inductive sm_step :: "sm_env \<Rightarrow> mon \<Rightarrow> mon \<Rightarrow> bool" for env where
  signal: "dispatch_event env bus now ev s = (r, s') \<Longrightarrow> sm_step env s s'"
| retry: "on_the_service n (new_unit_state env bus now EnabledState) s = (r, s') \<Longrightarrow> sm_step env s s'"
| threshold: "check_service_threshold_time env now s = (r, s') \<Longrightarrow> sm_step env s s'"

lemma sm_step_svc:
  assumes "mon_ok s" and "sm_step env s s'"
  shows "(svc_step env)\<^sup>*\<^sup>* s s' \<and> mon_ok s'"
  using assms(2)
proof cases
  case (signal bus now ev r)
  then show ?thesis using dispatch_steady [OF assms(1), of "[]" env bus now ev] assms(1)
    by (auto simp: steady_def intro: svc_step.event)
next
  case (retry n bus now r)
  then show ?thesis
    using on_the_service_mon_ok [OF keeps_new_unit_state assms(1), of "[]" n env bus now EnabledState] assms(1)
    by (auto simp: steady_def intro: svc_step.enable)
next
  case (threshold now r)
  from check_threshold_steps [OF assms(1) threshold] show ?thesis .
qed

lemma sm_steps_svc: "(sm_step env)\<^sup>*\<^sup>* s s' \<Longrightarrow> mon_ok s \<Longrightarrow> (svc_step env)\<^sup>*\<^sup>* s s' \<and> mon_ok s'"
proof (induction rule: rtranclp_induct)
  case (step y z)
  then show ?case using sm_step_svc [of y env z] by auto
qed simp

section \<open>Properties\<close>

lemma py_to_state_to_py [simp]: "py_to_state (state_to_py st) = Inr st"
  by (cases st) (simp_all add: state_to_py_def)

lemma from_cache_run:
  assumes "store_get (ifs (sm_iem s)) (service_key n) = service_data old"
  shows "\<exists>sv' s'. from_cache now n (sv, s) = (Inr (), (sv', s')) \<and> service_state sv' = service_state old \<and>
     s_state sv' = s_state old \<and> nonactive_enter_timestamp sv' = nonactive_enter_timestamp old \<and>
     waiting_timestamp sv' = waiting_timestamp old \<and> s_name sv' = s_name sv \<and> services s' = services s \<and>
     (service_state sv \<noteq> InactiveState \<and> service_state old = InactiveState \<longrightarrow> s_name sv \<in> set (non_active s')) \<and>
     monitoring_disabled s' = monitoring_disabled s \<and> sm_alerts s' = sm_alerts s"
proof -
  obtain r sv1 s1 where new: "new_service_state now (service_state old) (sv, s) = (r, (sv1, s1))" by (metis surj_pair)
  have n1: "r = Inr ()" "service_state sv1 = service_state old" "s_name sv1 = s_name sv" "services s1 = services s"
      "monitoring_disabled s1 = monitoring_disabled s" "sm_alerts s1 = sm_alerts s"
      "service_state sv \<noteq> InactiveState \<and> service_state old = InactiveState \<longrightarrow> s_name sv \<in> set (non_active s1)"
    using new by (cases "service_state old"; cases "service_state sv"; auto simp: service_ops py_exec)+
  show ?thesis
    using new n1 assms
    by (simp add: from_cache_def bindp_def getp_def liftp_def seqp_def service_data_def with_self_def modp_def)
qed

definition demo_sm :: sm_env where
  "demo_sm = \<lparr>sm_iem_env = demo_env, threshold_inactive_time = 60, waiting_time = 30, sm_fqdn = ''host'', sm_alert_id = ''a1''\<rparr>"

definition demo_bus :: "string \<Rightarrow> dbus" where
  "demo_bus state = \<lparr>dbus_load_unit = \<lambda>_. Inr (), dbus_id = \<lambda>n. Inr n, dbus_active_state = \<lambda>_. Inr state,
     dbus_sub_state = \<lambda>_. Inr ''x'', dbus_main_pid = \<lambda>_. Inr ''1'', dbus_unit_file_state = \<lambda>_. Inr ''enabled'',
     dbus_subscribe = \<lambda>_. Inr ()\<rparr>"

definition demo_mon :: mon where
  "demo_mon = \<lparr>services = [(''sshd.service'', new_service demo_sm 0 ''sshd.service'')], services_to_monitor = [''sshd.service''],
     non_active = [], active_waiting_services = [], failed_waiting_services = [], monitoring_disabled = [], sm_alerts = [],
     sm_iem = demo_iem, sm_q = \<lparr>msgQlist = [(''ServiceMsgHandler'', [])], msgq_dbg = init_debug\<rparr>, sm_running = True,
     sm_suspended = False, sm_raised = []\<rparr>"

lemma demo_mon_ok: "mon_ok demo_mon"
  by (simp add: mon_ok_def demo_mon_def sets_ok_def ok_loc_def new_service_def)

lemma demo_mon_inv: "svc_inv demo_sm ''sshd.service'' demo_mon"
  by (simp add: svc_inv_def demo_mon_ok iem_quiet_other) (simp add: demo_mon_def)

text \<open>The service fails, and stays failed for 40 seconds.\<close>

definition demo_failed :: mon where
  "demo_failed = snd (dispatch_event demo_sm (demo_bus ''failed'') 10 (PropertiesChanged ''sshd.service'') demo_mon)"

lemma demo_mon_steps: "(sm_step demo_sm)\<^sup>*\<^sup>* demo_mon (snd (check_service_threshold_time demo_sm 50 demo_failed))"
proof -
  have "sm_step demo_sm demo_mon demo_failed"
    unfolding demo_failed_def by (rule sm_step.signal) (rule prod.collapse [symmetric])
  moreover have "sm_step demo_sm demo_failed (snd (check_service_threshold_time demo_sm 50 demo_failed))"
    by (rule sm_step.threshold) (rule prod.collapse [symmetric])
  ultimately show ?thesis by (rule converse_rtranclp_into_rtranclp [OF _ r_into_rtranclp])
qed





text \<open>
  A restart of the daemon restores a service: what \<^verbatim>\<open>dump_to_cache\<close> wrote, \<^verbatim>\<open>from_cache\<close> reads
  back, the monitoring state, the unit state and both time stamps.
\<close>

lemma service_cache_roundtrip:
  assumes "fs_wf (ifs (sm_iem s))" and "writable (ifs (sm_iem s)) (service_key (s_name sv))"
  shows "\<exists>sv' s'. from_cache now (s_name sv) (new_service env now (s_name sv), dump_service sv s) = (Inr (), (sv', s')) \<and>
     service_state sv' = service_state sv \<and> s_state sv' = s_state sv \<and>
     nonactive_enter_timestamp sv' = nonactive_enter_timestamp sv \<and> waiting_timestamp sv' = waiting_timestamp sv"
proof -
  have "store_get (ifs (sm_iem (dump_service sv s))) (service_key (s_name sv)) = service_data sv"
    using assms by (simp add: dump_service_def on_sm_fs_def store_get_put_pickled)
  from from_cache_run [OF this, of now "new_service env now (s_name sv)"] show ?thesis by blast
qed

definition demo_empty :: mon where
  "demo_empty = demo_mon\<lparr>sm_iem := demo_iem\<lparr>ifs := empty_fs\<rparr>\<rparr>"

lemma demo_empty_fs:
  "fs_wf (ifs (sm_iem demo_empty))" "writable (ifs (sm_iem demo_empty)) (service_key ''sshd.service'')"
proof -
  have "service_key ''sshd.service'' \<notin> set (ancestors (dirname (service_key ''sshd.service'')))" by code_simp
  then show "fs_wf (ifs (sm_iem demo_empty))" "writable (ifs (sm_iem demo_empty)) (service_key ''sshd.service'')"
    by (simp_all add: demo_empty_def empty_fs_def fs_wf_def isfile_def writable_def isdir_def)
qed

lemma service_cache_roundtrip_witness:
  "\<exists>sv' s'. from_cache 99 ''sshd.service'' (new_service demo_sm 99 ''sshd.service'',
       dump_service (new_service demo_sm 5 ''sshd.service''\<lparr>service_state := FailedState\<rparr>) demo_empty) = (Inr (), (sv', s')) \<and>
     service_state sv' = FailedState \<and> waiting_timestamp sv' = 5"
  using service_cache_roundtrip [of demo_empty "new_service demo_sm 5 ''sshd.service''\<lparr>service_state := FailedState\<rparr>" 99 demo_sm]
    demo_empty_fs by (auto simp: new_service_def)

text \<open>
  Signals postpone the decision: the handler compares the state with the previous state, which
  differ for good after the first change, so every further signal of a recovered service (for
  instance a new process id) starts its waiting time again. With signals more often than the
  threshold a recovered service is never declared active.
\<close>

lemma repeated_signals_postpone_resolution:
  assumes "dbus_active_state bus (s_name sv) = Inr ''active''" and "dbus_sub_state bus (s_name sv) = Inr sub"
    and "dbus_main_pid bus (s_name sv) = Inr pid" and "s_state sv = ''active''" and "previous_state sv \<noteq> ''active''"
    and "service_state sv = FailedState"
  shows "\<exists>sv' s'. properties_changed_handler bus now (sv, s) = (Inr (), (sv', s')) \<and> s_state sv' = ''active'' \<and>
     previous_state sv' = previous_state sv \<and> service_state sv' = FailedState \<and>
     (\<forall>t \<le> now + threshold_waiting_time sv. \<not> in_same_state_for_threshold_time t sv')"
  using assms
  by (simp add: properties_changed_handler_def bindp_def getp_def liftp_def seqp_def service_ops modp_def record_change_def
      Let_def in_same_state_for_threshold_time_def)

lemma repeated_signals_postpone_resolution_witness:
  "\<exists>sv' s'. properties_changed_handler (demo_bus ''active'') 100
      (new_service demo_sm 0 ''sshd.service''\<lparr>s_state := ''active'', previous_state := ''failed'', service_state := FailedState\<rparr>, demo_mon)
      = (Inr (), (sv', s')) \<and> \<not> in_same_state_for_threshold_time 120 sv'"
  using repeated_signals_postpone_resolution [of "demo_bus ''active''"
      "new_service demo_sm 0 ''sshd.service''\<lparr>s_state := ''active'', previous_state := ''failed'', service_state := FailedState\<rparr>"
      "''x''" "''1''" 100 demo_mon]
  by (auto simp: demo_bus_def new_service_def demo_sm_def)

text \<open>
  A service that cannot be initialised stops the monitor: if the cache holds the inactive
  state, \<^verbatim>\<open>from_cache\<close> puts the name into the shared non-active set; when the unit file state then
  cannot be read, the exception is caught and the service is not kept, but its name stays in the
  set, and the threshold check of the same turn fails with a \<^verbatim>\<open>KeyError\<close> on it.
\<close>

lemma failed_initialization_stops_monitor:
  assumes "services_to_monitor s = [n]" and "services s = []" and "sm_alerts s = []" and "monitoring_disabled s = []"
    and "active_waiting_services s = []" and "failed_waiting_services s = []" and "non_active s = []"
    and "cache_exists n s" and "store_get (ifs (sm_iem s)) (service_key n) = service_data old"
    and "service_state old = InactiveState"
    and "dbus_load_unit bus n = Inr ()" and "dbus_id bus n = Inr n" and "dbus_unit_file_state bus n = Inl DBusException"
  shows "fst (run_turn env bus now [] True s) = Inl KeyError"
proof -
  let ?new = "new_service env now n"
  have st: "service_state ?new = ActiveState" "s_name ?new = n" by (simp_all add: new_service_def)
  obtain sv' s' where fc: "from_cache now n (?new, s) = (Inr (), (sv', s'))" "s_name sv' = n" "services s' = []"
      "n \<in> set (non_active s')" "monitoring_disabled s' = []" "sm_alerts s' = []"
    using from_cache_run [OF assms(9), of now ?new] st assms(2-4,10) by auto
  have sets: "active_waiting_services s' = []" "failed_waiting_services s' = []" "non_active s' = [n]"
    using fc(1) assms(5-7,9,10) st
    by (auto simp: from_cache_def bindp_def getp_def liftp_def seqp_def service_data_def service_ops modp_def
        add_name_def discard_def)
  have "handle_unit_state_change env bus now (sv', s') = (Inl DBusException, (sv', s'))"
    using fc(2) assms(13) by (simp add: handle_unit_state_change_def py_exec is_enabled_def)
  then have init: "initialize_service env bus now n s = (Inr (), s')"
    using assms(8,11,12) fc(1) by (simp add: initialize_service_def seqp_def)
  have "check_service_threshold_time env now s' = (Inl KeyError, s')"
    using sets fc(3)
    by (simp add: check_service_threshold_time_def bindp_def getp_def seqp_def ret_def check_one_def on_the_service_def)
  then show ?thesis
    using init fc(5) assms(1-3)
    by (simp add: run_turn_def process_events_def process_alerts_def bindp_def getp_def seqp_def ret_def)
qed

lemma failed_initialization_stops_monitor_witness:
  "fst (run_turn demo_sm ((demo_bus ''inactive'')\<lparr>dbus_unit_file_state := \<lambda>_. Inl DBusException\<rparr>) 100 [] True
     (dump_service (new_service demo_sm 5 ''sshd.service''\<lparr>service_state := InactiveState\<rparr>) (demo_empty\<lparr>services := []\<rparr>))) = Inl KeyError"
proof -
  let ?old = "new_service demo_sm 5 ''sshd.service''\<lparr>service_state := InactiveState\<rparr>"
  let ?s = "dump_service ?old (demo_empty\<lparr>services := []\<rparr>)"
  have get: "store_get (ifs (sm_iem ?s)) (service_key ''sshd.service'') = service_data ?old"
    using demo_empty_fs by (simp add: dump_service_def on_sm_fs_def store_get_put_pickled new_service_def)
  have there: "cache_exists ''sshd.service'' ?s"
    using demo_empty_fs(2)
    by (simp add: cache_exists_def store_exists_def path_exists_def isfile_def store_put_writable dump_service_def on_sm_fs_def
        new_service_def)
  show ?thesis
    by (rule failed_initialization_stops_monitor [OF _ _ _ _ _ _ _ there get])
      (simp_all add: dump_service_def on_sm_fs_def demo_empty_def demo_mon_def demo_bus_def)
qed

end
