(* ===== verification/Realstor_Enclosure.thy ===== *)
theory Realstor_Enclosure
  imports File_Store
begin

text \<open>
  \<^verbatim>\<open>framework/utils/webservices.py\<close> and \<^verbatim>\<open>framework/platforms/realstor/realstor_enclosure.py\<close>: HTTP
  requests to the two management controllers of a storage enclosure, with login, retry and
  fail-over, the poll of the system status with its cache of faults, and the list of FRUs. The
  \<^verbatim>\<open>requests\<close> library, \<^verbatim>\<open>json.loads\<close>, the configuration and the hash of the credentials are
  parameters (\<open>encl_env\<close>). Every request made is recorded, and what the n-th request is answered
  is a function of n and of the request. A \<^verbatim>\<open>requests.Response\<close> is false when its status is an
  error status (400 to 599), and testing it raises when it has no status.
\<close>

section \<open>WebServices\<close>

definition HTTP_CONN_REFUSED :: int where "HTTP_CONN_REFUSED = 111"
definition HTTP_NO_ROUTE_TO_HOST :: int where "HTTP_NO_ROUTE_TO_HOST = 113"
definition HTTP_OK :: int where "HTTP_OK = 200"
definition HTTP_FORBIDDEN :: int where "HTTP_FORBIDDEN = 403"
definition HTTP_TIMEOUT :: int where "HTTP_TIMEOUT = 408"
definition SERVICE_UNAVIALABLE :: int where "SERVICE_UNAVIALABLE = 503"

definition LOOPBACK :: string where "LOOPBACK = ''127.0.0.1''"

lemmas http_codes = HTTP_CONN_REFUSED_def HTTP_NO_ROUTE_TO_HOST_def HTTP_OK_def HTTP_FORBIDDEN_def
  HTTP_TIMEOUT_def SERVICE_UNAVIALABLE_def

record http_request =
  rq_verb :: string
  rq_url :: string
  rq_headers :: pydict
  rq_data :: string

text \<open>
  What the \<^verbatim>\<open>requests\<close> library does with a request: it returns an answer (status, reason, body)
  or raises one of the exceptions the code tells apart, with its text.
\<close>

datatype http_outcome =
    Answered int string string
  | ConnectionError string
  | Timeout string
  | OtherError string

record response =
  status_code :: "int option"
  content :: string

definition is_error_status :: "int \<Rightarrow> bool" where
  "is_error_status c = (400 \<le> c \<and> c < 600)"

definition response_truth :: "response \<Rightarrow> bool res" where
  "response_truth r = (case status_code r of None \<Rightarrow> Inl TypeError | Some c \<Rightarrow> Inr (\<not> is_error_status c))"

text \<open>The text of the \<^verbatim>\<open>HTTPError\<close> that \<^verbatim>\<open>raise_for_status\<close> raises.\<close>

definition http_error_text :: "int \<Rightarrow> string \<Rightarrow> string \<Rightarrow> string" where
  "http_error_text c reason url =
     str_int c @ (if c < 500 then '' Client Error: '' else '' Server Error: '') @ reason @ '' for url: '' @ url"

definition connection_error_code :: "string \<Rightarrow> int res" where
  "connection_error_code errstr =
     (if contains ''error:'' errstr
      then py_int (takeWhile (\<lambda>c. c \<noteq> CHR '','') (drop (nat (find_str ''error('' errstr + 6)) errstr))
      else Inr HTTP_CONN_REFUSED)"

definition http_error_code :: "string \<Rightarrow> int res" where
  "http_error_code errstr =
     (if contains ''Client Error'' errstr then py_int (takeWhile (\<lambda>c. c \<noteq> CHR '' '') errstr)
      else Inr HTTP_CONN_REFUSED)"

text \<open>
  The answer of \<^verbatim>\<open>WebServices.ws_request\<close>. A response with an error status is false, so it is
  replaced by an empty one before the code of the error is put into it.
\<close>

definition failed_response :: "int option \<Rightarrow> response" where
  "failed_response c = \<lparr>status_code = c, content = []\<rparr>"

fun web_response :: "string \<Rightarrow> http_outcome \<Rightarrow> response res" where
  "web_response url (Answered c reason body) =
     (if is_error_status c
      then bindr (http_error_code (http_error_text c reason url)) (\<lambda>c'. Inr (failed_response (Some c')))
      else Inr \<lparr>status_code = Some c, content = body\<rparr>)"
| "web_response url (ConnectionError errstr) =
     bindr (connection_error_code errstr) (\<lambda>c. Inr (failed_response (Some c)))"
| "web_response url (Timeout errstr) =
     Inr (failed_response (if contains LOOPBACK url then None else Some HTTP_TIMEOUT))"
| "web_response url (OtherError errstr) = Inr (failed_response (Some SERVICE_UNAVIALABLE))"

section \<open>State and parameters of RealStorEnclosure\<close>

record encl_env =
  http :: "nat \<Rightarrow> http_request \<Rightarrow> http_outcome"
  encl_loads :: "string \<Rightarrow> pyv res"
  sha256_hex :: "string \<Rightarrow> string"
  mc1 :: string
  mc1_wsport :: string
  mc2 :: string
  mc2_wsport :: string
  mc_user :: string
  mc_passwd :: string
  pollfreq :: int
  encl_cache :: string
  conf_hot_swappable :: "pyv list res"
  conf_storage_frus :: "pyv list res"

text \<open>\<open>faults_shared\<close>: \<^verbatim>\<open>memcache_faults\<close> and \<^verbatim>\<open>latest_faults\<close> are the same object.\<close>

record encl =
  active_ip :: string
  active_wsport :: string
  common_reqheaders :: pydict
  mc_timeout_counter :: int
  ws_response_status :: "int option"
  poll_system_ts :: int
  memcache_faults :: pyv
  latest_faults :: pyv
  faults_shared :: bool
  memcache_system :: pyv
  existing_faults :: bool
  fru_list :: "pyv list option"
  hot_swapped_frus :: "pyv list option"
  cold_swapped_frus :: "pyv list option"
  encl_fs :: fs
  http_log :: "http_request list"

definition MAX_RETRIES :: nat where "MAX_RETRIES = 2"
definition CLIAPI_RESP_INVSESSION :: string where "CLIAPI_RESP_INVSESSION = ''Invalid sessionkey''"
definition CLIAPI_RESP_FAILURE :: int where "CLIAPI_RESP_FAILURE = 2"
definition HEALTH_OK :: string where "HEALTH_OK = ''ok''"
definition HEALTH_FAULT :: string where "HEALTH_FAULT = ''fault''"
definition HEALTH_DEGRADED :: string where "HEALTH_DEGRADED = ''degraded''"
definition FAULT_KEY :: string where "FAULT_KEY = ''unhealthy-component''"

definition frus :: "encl_env \<Rightarrow> string" where
  "frus env = encl_cache env @ ''frus/''"

definition faults_persistent_cache :: "encl_env \<Rightarrow> string" where
  "faults_persistent_cache env = encl_cache env @ ''system/'' @ ''faults.json''"

section \<open>Requests\<close>

definition ws_send :: "encl_env \<Rightarrow> http_request \<Rightarrow> (encl, http_outcome) proc" where
  "ws_send env rq s = (Inr (http env (length (http_log s)) rq), s\<lparr>http_log := http_log s @ [rq]\<rparr>)"

text \<open>An unknown method leaves the response \<^verbatim>\<open>None\<close>, so that \<^verbatim>\<open>raise_for_status\<close> raises.\<close>

definition web_request :: "encl_env \<Rightarrow> string \<Rightarrow> string \<Rightarrow> pydict \<Rightarrow> string \<Rightarrow> (encl, response) proc" where
  "web_request env verb url hdrs postdata =
     (if verb = ''GET'' \<or> verb = ''POST'' then
        bindp (ws_send env \<lparr>rq_verb = verb, rq_url = url, rq_headers = hdrs,
            rq_data = if verb = ''POST'' then postdata else []\<rparr>)
          (\<lambda>out. liftp (web_response url out))
      else ret (failed_response (Some SERVICE_UNAVIALABLE)))"

definition add_request_headers :: "pyv \<Rightarrow> encl \<Rightarrow> encl" where
  "add_request_headers sessionKey s = s\<lparr>common_reqheaders :=
     AList.update ''sessionKey'' sessionKey (AList.update ''datatype'' (PStr ''json'') (common_reqheaders s))\<rparr>"

definition build_url :: "string \<Rightarrow> encl \<Rightarrow> string" where
  "build_url uri s = (let wsport = (if isdigit (active_wsport s) then '':'' @ active_wsport s else [])
     in ''http://'' @ active_ip s @ wsport @ ''/api'' @ uri)"

text \<open>
  \<^verbatim>\<open>json.loads\<close> under \<^verbatim>\<open>except ValueError\<close>, where the handler only logs: the variable stays
  unassigned and its next use raises \<^verbatim>\<open>UnboundLocalError\<close>.
\<close>

definition loads_or_unbound :: "encl_env \<Rightarrow> string \<Rightarrow> pyv res" where
  "loads_or_unbound env t = (case encl_loads env t of
     Inl ValueError \<Rightarrow> Inl UnboundLocalError | r \<Rightarrow> r)"

text \<open>\<^verbatim>\<open>jresponse['status'][0]\<close>.\<close>

definition first_status :: "pyv \<Rightarrow> pyv res" where
  "first_status jresponse = bindr (getitem jresponse ''status'') (\<lambda>st. getindex st 0)"

definition store_session :: "pyv \<Rightarrow> (encl, unit) proc" where
  "store_session jresponse =
     (if truthy jresponse then
        bindp (liftp (bindr (first_status jresponse) (\<lambda>st. getitem st ''return-code''))) (\<lambda>rc.
          if py_eq rc (PInt 1) then
            bindp (liftp (bindr (first_status jresponse) (\<lambda>st. getitem st ''response''))) (\<lambda>key.
              modp (add_request_headers key))
          else bindp (liftp (as_int rc)) (\<lambda>_. ret ()))
      else ret ())"

definition login :: "encl_env \<Rightarrow> (encl, unit) proc" where
  "login env =
     bindp (getp (build_url ''/login/'')) (\<lambda>url.
     bindp (web_request env ''GET'' (url @ sha256_hex env (mc_user env @ ''_'' @ mc_passwd env))
              [(''datatype'', PStr ''json'')] []) (\<lambda>response.
     bindp (liftp (response_truth response)) (\<lambda>okay.
       if \<not> okay then ret ()
       else if status_code response \<noteq> Some HTTP_OK then
         (if status_code response = Some HTTP_TIMEOUT
          then modp (\<lambda>s. s\<lparr>mc_timeout_counter := mc_timeout_counter s + 1\<rparr>) else ret ())
       else bindp (liftp (loads_or_unbound env (content response))) store_session)))"

definition switch_to_alt_mc :: "encl_env \<Rightarrow> (encl, unit) proc" where
  "switch_to_alt_mc env =
     (if mc1 env = mc2 env \<and> mc1_wsport env = mc2_wsport env then ret ()
      else seqp (modp (\<lambda>s.
          if active_ip s = mc1 env then s\<lparr>active_ip := mc2 env, active_wsport := mc2_wsport env\<rparr>
          else if active_ip s = mc2 env then s\<lparr>active_ip := mc1 env, active_wsport := mc1_wsport env\<rparr>
          else s))
        (login env))"

text \<open>\<^verbatim>\<open>url[url.index('/api/'):].replace('/api', '')\<close>.\<close>

definition api_uri :: "string \<Rightarrow> string res" where
  "api_uri url = (let i = find_str ''/api/'' url
     in if i < 0 then Inl ValueError else Inr (remove_str ''/api'' (drop (nat i) url)))"

text \<open>
  Whether an answer with status 200 reports an invalid session key (the new value of
  \<^verbatim>\<open>need_relogin\<close>); malformed JSON is only logged.
\<close>

definition reports_invalid_session :: "encl_env \<Rightarrow> bool \<Rightarrow> response \<Rightarrow> bool res" where
  "reports_invalid_session env need r = (case encl_loads env (content r) of
     Inl ValueError \<Rightarrow> Inr need
   | Inl e \<Rightarrow> Inl e
   | Inr jresponse \<Rightarrow>
       if truthy jresponse then
         bindr (bindr (first_status jresponse) (\<lambda>st. getitem st ''return-code'')) (\<lambda>rc.
           if py_eq rc (PInt CLIAPI_RESP_FAILURE) then
             bindr (bindr (first_status jresponse) (\<lambda>st. getitem st ''response'')) (\<lambda>rs.
             bindr (py_in (PStr CLIAPI_RESP_INVSESSION) rs) (\<lambda>inv. Inr (need \<or> inv)))
           else Inr need)
       else Inr need)"

text \<open>
  The loop of \<^verbatim>\<open>ws_request\<close>; \<open>n\<close> is \<^verbatim>\<open>retry_count\<close>. The response of the web service is never
  \<^verbatim>\<open>None\<close>. Each turn either goes on (\<^verbatim>\<open>continue\<close>) or leaves the loop with the response.
\<close>

primrec ws_loop :: "encl_env \<Rightarrow> string \<Rightarrow> string \<Rightarrow> nat \<Rightarrow> string \<Rightarrow> response option \<Rightarrow> bool \<Rightarrow> bool \<Rightarrow> bool
    \<Rightarrow> (encl, response option) proc" where
  "ws_loop env verb postdata 0 url response retried_login need_relogin tried_alt_ip = ret response"
| "ws_loop env verb postdata (Suc n) url response retried_login need_relogin tried_alt_ip =
     bindp (if tried_alt_ip then bindp (liftp (api_uri url)) (\<lambda>uri. getp (build_url uri)) else ret url) (\<lambda>url.
     bindp (getp common_reqheaders) (\<lambda>hdrs.
     bindp (web_request env verb url hdrs postdata) (\<lambda>r.
     seqp (modp (\<lambda>s. s\<lparr>ws_response_status := status_code r\<rparr>))
     (if status_code r = Some HTTP_OK then
        seqp (modp (\<lambda>s. s\<lparr>mc_timeout_counter := 0\<rparr>))
        (bindp (liftp (reports_invalid_session env need_relogin r)) (\<lambda>need_relogin. ret (Some r)))
      else if (status_code r = Some HTTP_FORBIDDEN \<or> need_relogin) \<and> \<not> retried_login then
        seqp (login env) (ws_loop env verb postdata n url (Some r) True False tried_alt_ip)
      else if status_code r \<in> {Some HTTP_TIMEOUT, Some HTTP_CONN_REFUSED, Some HTTP_NO_ROUTE_TO_HOST}
          \<and> \<not> tried_alt_ip then
        seqp (switch_to_alt_mc env)
        (seqp (modp (\<lambda>s. s\<lparr>mc_timeout_counter := mc_timeout_counter s + 1\<rparr>))
              (ws_loop env verb postdata n url (Some r) retried_login need_relogin True))
      else ret (Some r)))))"

definition ws_request :: "encl_env \<Rightarrow> string \<Rightarrow> string \<Rightarrow> (encl, response option) proc" where
  "ws_request env url verb = ws_loop env verb [] MAX_RETRIES url None False False False"

section \<open>Faults of the system\<close>

definition check_system_faults_changed :: "encl \<Rightarrow> bool" where
  "check_system_faults_changed s =
     (if existing_faults s then True else \<not> py_eq (latest_faults s) (memcache_faults s))"

definition update_memcache_faults :: "encl_env \<Rightarrow> encl \<Rightarrow> encl" where
  "update_memcache_faults env s = s\<lparr>memcache_faults := latest_faults s, faults_shared := True,
     encl_fs := store_put (latest_faults s) (faults_persistent_cache env) True (encl_fs s)\<rparr>"

text \<open>The comparison of \<^verbatim>\<open>check_new_fault\<close> with one cached fault: the conjuncts are lazy.\<close>

definition same_fault :: "pyv \<Rightarrow> pyv \<Rightarrow> bool res" where
  "same_fault fault cached =
     (let same = (\<lambda>k. bindr (getitem fault k) (\<lambda>v. bindr (getitem cached k) (\<lambda>w. Inr (py_eq v w)))) in
      bindr (same ''component-id'') (\<lambda>a. if \<not> a then Inr False else
      bindr (same ''health'') (\<lambda>b. if \<not> b then Inr False else same ''health-reason'')))"

primrec is_known_fault :: "pyv \<Rightarrow> pyv list \<Rightarrow> bool res" where
  "is_known_fault fault [] = Inr False"
| "is_known_fault fault (c # cs) =
     bindr (same_fault fault c) (\<lambda>same. if same then Inr True else is_known_fault fault cs)"

definition check_new_fault :: "pyv \<Rightarrow> encl \<Rightarrow> bool res" where
  "check_new_fault fault s =
     (if existing_faults s then Inr True
      else bindr (py_in fault (memcache_faults s)) (\<lambda>there. if there then Inr False
        else bindr (iter_list (memcache_faults s)) (\<lambda>cs.
             bindr (is_known_fault fault cs) (\<lambda>known. Inr (\<not> known)))))"

primrec api_status_of :: "pyv list \<Rightarrow> pyv res" where
  "api_status_of [] = Inr (PInt (- 1))"
| "api_status_of (st # sts) = bindr (getitem st ''response-type'') (\<lambda>t.
     if \<not> py_eq t (PStr ''Info'') then getitem st ''response-type-numeric'' else api_status_of sts)"

definition get_api_status :: "pyv \<Rightarrow> pyv res" where
  "get_api_status jresp = bindr (iter_list jresp) api_status_of"

text \<open>The part of \<^verbatim>\<open>get_system_status\<close> that builds the cache of faults from a system with faults.\<close>

definition cache_faults :: "encl_env \<Rightarrow> encl \<Rightarrow> encl" where
  "cache_faults env s =
     (if \<not> truthy (memcache_faults s) then
        let stored = store_get (encl_fs s) (faults_persistent_cache env) in
        if \<not> truthy stored then
          s\<lparr>memcache_faults := latest_faults s, faults_shared := True, existing_faults := True,
            encl_fs := store_put (latest_faults s) (faults_persistent_cache env) True (encl_fs s)\<rparr>
        else s\<lparr>memcache_faults := stored\<rparr>
      else s\<lparr>existing_faults := False\<rparr>)"

definition read_system_faults :: "encl_env \<Rightarrow> pyv \<Rightarrow> (encl, unit) proc" where
  "read_system_faults env system = (case system of
     PDict d \<Rightarrow>
       (case map_of d FAULT_KEY of
          None \<Rightarrow> modp (\<lambda>s. s\<lparr>latest_faults := PDict [], faults_shared := False\<rparr>)
        | Some faults \<Rightarrow> modp (\<lambda>s. cache_faults env (s\<lparr>latest_faults := faults, faults_shared := False\<rparr>)))
   | _ \<Rightarrow> raise AttributeError)"

definition read_system :: "encl_env \<Rightarrow> pyv \<Rightarrow> (encl, unit) proc" where
  "read_system env jresponse =
     bindp (liftp (bindr (getitem jresponse ''status'') get_api_status)) (\<lambda>resp.
     let api_resp = (if py_eq resp (PInt (- 1)) then PInt 0 else resp) in
       if py_eq api_resp (PInt 0) then
         bindp (liftp (bindr (getitem jresponse ''system'') (\<lambda>v. getindex v 0))) (\<lambda>system.
         seqp (modp (\<lambda>s. s\<lparr>memcache_system := system\<rparr>))
              (if truthy system then read_system_faults env system else ret ()))
       else bindp (liftp (as_int api_resp)) (\<lambda>_. ret ()))"

definition checked_response :: "(encl, response option) proc \<Rightarrow> (encl, response option) proc" where
  "checked_response request = bindp request (\<lambda>response. case response of
     None \<Rightarrow> ret None
   | Some r \<Rightarrow> bindp (liftp (response_truth r)) (\<lambda>okay. ret (if okay then Some r else None)))"

definition get_system_status :: "encl_env \<Rightarrow> int \<Rightarrow> int \<Rightarrow> (encl, unit) proc" where
  "get_system_status env now now' =
     bindp (getp poll_system_ts) (\<lambda>ts.
       if now - ts < pollfreq env then ret ()
       else
         bindp (getp (build_url ''/show/system'')) (\<lambda>url.
         bindp (checked_response (ws_request env url ''GET'')) (\<lambda>response. case response of
             None \<Rightarrow> ret ()
           | Some r \<Rightarrow>
               if status_code r \<noteq> Some HTTP_OK then ret ()
               else seqp (modp (\<lambda>s. s\<lparr>poll_system_ts := now'\<rparr>))
                 (bindp (liftp (loads_or_unbound env (content r))) (\<lambda>jresponse.
                   if truthy jresponse then read_system env jresponse else ret ())))))"

section \<open>Data and FRUs of the enclosure\<close>

definition fru_uri_map :: "(string \<times> string) list" where
  "fru_uri_map =
     [(''controllers'', ''/show/controllers''), (''power-supplies'', ''/show/power-supplies''),
      (''sensors'', ''/show/sensor-status''), (''volumes'', ''/show/volumes''),
      (''disk-groups'', ''/show/disk-groups''), (''enclosures'', ''/show/enclosure''),
      (''network-parameters'', ''/show/network''), (''drives'', ''/show/disks''),
      (''expander-ports'', ''/show/sas-link-health''), (''fan-modules'', ''/show/fan-modules''),
      (''frus'', ''/show/frus''), (''versions'', ''/show/version/detail'')]"

text \<open>An unknown name is \<^verbatim>\<open>None\<close>, which cannot be appended to the URL.\<close>

definition get_realstor_encl_data :: "encl_env \<Rightarrow> string \<Rightarrow> (encl, pyv) proc" where
  "get_realstor_encl_data env fru = (case map_of fru_uri_map fru of
     None \<Rightarrow> raise TypeError
   | Some uri \<Rightarrow>
       bindp (getp (build_url uri)) (\<lambda>url.
       bindp (checked_response (ws_request env url ''GET'')) (\<lambda>response. case response of
         None \<Rightarrow> ret (PList [])
       | Some r \<Rightarrow>
           if status_code r \<noteq> Some HTTP_OK then ret (PList [])
           else liftp (bindr (encl_loads env (content r)) (\<lambda>data.
                  get_key data (if fru = ''frus'' then ''enclosure-fru'' else fru))))))"

primrec fru_names :: "pyv list \<Rightarrow> pyv list res" where
  "fru_names [] = Inr []"
| "fru_names (f # fs) = (case f of
     PDict d \<Rightarrow> bindr (fru_names fs) (\<lambda>ns. Inr (case map_of d ''name'' of None \<Rightarrow> ns | Some n \<Rightarrow> n # ns))
   | _ \<Rightarrow> Inl AttributeError)"

text \<open>\<^verbatim>\<open>list(set(xs))\<close>: the order is not specified, and nothing depends on it.\<close>

definition list_set :: "pyv list \<Rightarrow> pyv list res" where
  "list_set xs = (if list_all hashable xs then Inr (remdups xs) else Inl TypeError)"

text \<open>
  \<^verbatim>\<open>load_storage_fru_list\<close>: a \<^verbatim>\<open>ValueError\<close> of the configuration store is only logged, and the
  attribute that was not assigned raises on its use.
\<close>

definition load_storage_fru_list :: "encl_env \<Rightarrow> (encl, unit) proc" where
  "load_storage_fru_list env =
     seqp (modp (\<lambda>s. s\<lparr>fru_list := Some []\<rparr>))
     (bindp (get_realstor_encl_data env ''frus'') (\<lambda>fru_data.
      bindp (liftp (bindr (bindr (iter_list fru_data) fru_names) list_set)) (\<lambda>names.
      seqp (modp (\<lambda>s. s\<lparr>fru_list := Some names\<rparr>))
      (seqp (tryp (seqp (bindp (liftp (conf_hot_swappable env)) (\<lambda>hot. modp (\<lambda>s. s\<lparr>hot_swapped_frus := Some hot\<rparr>)))
                        (bindp (liftp (conf_storage_frus env)) (\<lambda>cold. modp (\<lambda>s. s\<lparr>cold_swapped_frus := Some cold\<rparr>))))
              (\<lambda>e. if e = ValueError then ret () else raise e))
        (bindp (getp (\<lambda>s. (hot_swapped_frus s, cold_swapped_frus s))) (\<lambda>p. case p of
             (Some hot, Some cold) \<Rightarrow> bindp (liftp (list_set (names @ hot @ cold))) (\<lambda>all.
                modp (\<lambda>s. s\<lparr>fru_list := Some all\<rparr>))
           | _ \<Rightarrow> raise AttributeError))))))"

definition fru_mapping :: "(string \<times> string) list" where
  "fru_mapping = [(''fan'', ''FAN MODULE''), (''psu'', ''POWER_SUPPLY''), (''sideplane'', ''SIDEPLANE'')]"

definition is_storage_fru :: "string \<Rightarrow> encl \<Rightarrow> string res" where
  "is_storage_fru fru s = (case fru_list s of
     None \<Rightarrow> Inl AttributeError
   | Some names \<Rightarrow>
       let is_fru = (PStr fru \<in> set names \<or>
         (case map_of fru_mapping fru of None \<Rightarrow> False | Some n \<Rightarrow> PStr n \<in> set names))
       in if is_fru then
            (case hot_swapped_frus s of
               None \<Rightarrow> Inl AttributeError
             | Some hot \<Rightarrow> Inr (if PStr fru \<in> set hot then ''true:hot_swappable'' else ''true:cold_swappable''))
          else Inr ''false'')"

section \<open>Requests do not touch the store\<close>

definition fs_is :: "fs \<Rightarrow> encl \<Rightarrow> bool" where
  "fs_is f e \<longleftrightarrow> encl_fs e = f"

lemma keeps_fs_modp: "(\<And>e. encl_fs (g e) = encl_fs e) \<Longrightarrow> keeps (fs_is f) (modp g)"
  by (simp add: keeps_def modp_def fs_is_def)

lemma keeps_fs_web: "keeps (fs_is f) (web_request env verb url hdrs data)"
  by (simp add: keeps_def web_request_def ws_send_def bindp_def liftp_def ret_def fs_is_def split: sum.splits)

lemma keeps_fs_login: "keeps (fs_is f) (login env)"
  unfolding login_def store_session_def
  by (intro keeps_rules keeps_fs_web keeps_fs_modp) (simp_all add: add_request_headers_def)

lemma keeps_fs_switch: "keeps (fs_is f) (switch_to_alt_mc env)"
  unfolding switch_to_alt_mc_def by (intro keeps_rules keeps_fs_login keeps_fs_modp) simp

lemma keeps_fs_loop: "keeps (fs_is f) (ws_loop env verb data n url r retried need alt)"
proof (induction n arbitrary: url r retried need alt)
  case (Suc n)
  show ?case
    unfolding ws_loop.simps
    by (intro keeps_rules keeps_fs_web keeps_fs_login keeps_fs_switch keeps_fs_modp Suc.IH) simp_all
qed (simp add: keeps_ret)

lemma ws_request_fs: "encl_fs (snd (ws_request env url verb e)) = encl_fs e"
  using keepsD [OF keeps_fs_loop [of "encl_fs e" env verb "[]" MAX_RETRIES url None False False False], of e]
  by (simp add: fs_is_def ws_request_def)

lemma checked_response_fs:
  "(\<And>e. encl_fs (snd (m e)) = encl_fs e) \<Longrightarrow> encl_fs (snd (checked_response m e)) = encl_fs e"
  by (auto simp: checked_response_def bindp_def liftp_def ret_def split: prod.splits sum.splits option.splits)
    (metis snd_conv)+

section \<open>How many requests an operation makes\<close>

text \<open>
  \<open>sends k m\<close>: whichever way \<open>m\<close> ends, it has made at most \<open>k\<close> HTTP requests and kept the record
  of the earlier ones.
\<close>

definition sends :: "nat \<Rightarrow> (encl, 'a) proc \<Rightarrow> bool" where
  "sends k m \<longleftrightarrow> (\<forall>s. \<exists>rqs. http_log (snd (m s)) = http_log s @ rqs \<and> length rqs \<le> k)"

named_theorems sends_rules "bounds on the number of requests"

lemma sends_mono: "sends j m \<Longrightarrow> j \<le> k \<Longrightarrow> sends k m"
  unfolding sends_def by (meson le_trans)

lemma sends_ret [sends_rules]: "sends k (ret x)" "sends k (raise e)" "sends k (getp f)" "sends k (liftp r)"
  by (auto simp: sends_def ret_def raise_def getp_def liftp_def)

lemma sends_modp [sends_rules]: "(\<And>s. http_log (f s) = http_log s) \<Longrightarrow> sends k (modp f)"
  by (auto simp: sends_def modp_def)

lemma sends_bindp:
  assumes "sends i m" and "\<And>x. sends j (f x)" and "i + j \<le> k"
  shows "sends k (bindp m f)"
  unfolding sends_def
proof
  fix s
  obtain rqs where rqs: "http_log (snd (m s)) = http_log s @ rqs" "length rqs \<le> i"
    using assms(1) by (auto simp: sends_def)
  have "\<exists>rqs'. http_log (snd (bindp m f s)) = http_log (snd (m s)) @ rqs' \<and> length rqs' \<le> j"
    using assms(2) by (cases "m s") (auto simp: bindp_def sends_def split: sum.splits)
  with rqs assms(3) show "\<exists>rqs. http_log (snd (bindp m f s)) = http_log s @ rqs \<and> length rqs \<le> k"
    by (metis add_le_mono append_assoc le_trans length_append)
qed

lemma sends_seqp: "sends i m \<Longrightarrow> sends j n \<Longrightarrow> i + j \<le> k \<Longrightarrow> sends k (seqp m n)"
  by (simp add: seqp_bindp sends_bindp)

lemma sends_pure_bindp [sends_rules]: "sends 0 m \<Longrightarrow> (\<And>x. sends k (f x)) \<Longrightarrow> sends k (bindp m f)"
  by (rule sends_bindp) auto

lemma sends_pure_seqp [sends_rules]: "sends 0 m \<Longrightarrow> sends k n \<Longrightarrow> sends k (seqp m n)"
  by (rule sends_seqp) auto

lemma sends_if [sends_rules]: "(b \<Longrightarrow> sends k m) \<Longrightarrow> (\<not> b \<Longrightarrow> sends k n) \<Longrightarrow> sends k (if b then m else n)"
  by simp

lemma sends_web_request: "sends 1 (web_request env verb url hdrs data)"
  by (auto simp: sends_def web_request_def ws_send_def bindp_def liftp_def ret_def split: sum.splits)

lemma sends_store_session: "sends 0 (store_session j)"
  unfolding store_session_def by (intro sends_rules) (simp add: add_request_headers_def)

lemma sends_login: "sends 1 (login env)"
  unfolding login_def
  by (intro sends_pure_bindp sends_bindp [OF sends_web_request, of 0] sends_rules sends_store_session) auto

lemma sends_switch: "sends 1 (switch_to_alt_mc env)"
  unfolding switch_to_alt_mc_def by (intro sends_rules sends_login) auto

lemma sends_ws_loop:
  "sends (n + of_bool (\<not> retried) + of_bool (\<not> alt)) (ws_loop env verb data n url r retried need alt)"
proof (induction n arbitrary: url r retried need alt)
  case 0
  show ?case by (auto intro: sends_rules)
next
  case (Suc n)
  have mono: "sends k (ws_loop env verb data n url r retried need alt)"
    if "n + of_bool (\<not> retried) + of_bool (\<not> alt) \<le> k" for k url r retried need alt
    using Suc.IH that by (rule sends_mono)
  let ?k = "n + of_bool (\<not> retried) + of_bool (\<not> alt)"
  have relogin: "sends ?k (seqp (login env) (ws_loop env verb data n url (Some r) True False alt))"
    if "\<not> retried" for url r
    using that by (intro sends_seqp [OF sends_login Suc.IH]) simp
  have switch: "sends ?k (seqp (switch_to_alt_mc env)
      (seqp (modp (\<lambda>s. s\<lparr>mc_timeout_counter := mc_timeout_counter s + 1\<rparr>))
            (ws_loop env verb data n url (Some r) retried need True)))"
    if "\<not> alt" for url r
    using that by (intro sends_seqp [OF sends_switch sends_pure_seqp [OF sends_modp Suc.IH]]) simp_all
  have answer: "sends ?k (seqp (modp (\<lambda>s. s\<lparr>mc_timeout_counter := 0\<rparr>))
      (bindp (liftp (reports_invalid_session env need r)) (\<lambda>_. ret (Some r))))" for r
    by (intro sends_rules) simp
  have uri: "sends 0 (if alt then bindp (liftp (api_uri url)) (\<lambda>uri. getp (build_url uri)) else ret url)"
    by (intro sends_rules)
  show ?case
    unfolding ws_loop.simps
    apply (rule sends_pure_bindp [OF uri])
    apply (rule sends_pure_bindp [OF sends_ret(3)])
    apply (rule sends_bindp [OF sends_web_request, where j = ?k])
     apply (rule sends_pure_seqp [OF sends_modp], simp)
     apply (rule sends_if [OF answer])
     apply (rule sends_if, rule relogin, simp)
     apply (rule sends_if, rule switch, simp)
     apply (rule sends_ret)
    apply simp
    done
qed

section \<open>Requests that are answered\<close>

lemma find_str_skip:
  "c \<notin> set x \<Longrightarrow> take (length (c # p)) y = c # p \<Longrightarrow> find_str (c # p) (x @ y) = int (length x)"
proof (induction x)
  case Nil
  then show ?case by (cases y) auto
next
  case (Cons d x)
  then show ?case by (auto simp: Let_def)
qed

lemma remove_str_id: "\<not> contains pat s \<Longrightarrow> remove_str pat s = s"
  by (induction pat s rule: remove_str.induct) auto

lemma remove_str_prefix: "pat \<noteq> [] \<Longrightarrow> remove_str pat (pat @ s) = remove_str pat s"
  by (cases pat) auto

text \<open>The URI a URL was built from is found again, unless the host is called \<^verbatim>\<open>api\<close>.\<close>

lemma api_uri_build_url:
  assumes ip: "CHR ''/'' \<notin> set (active_ip s)" "active_ip s \<noteq> ''api''"
    and uri: "take 1 uri = ''/''" "\<not> contains ''/api'' uri"
  shows "api_uri (build_url uri s) = Inr uri"
proof -
  define x where "x = active_ip s @ (if isdigit (active_wsport s) then '':'' @ active_wsport s else [])"
  have x: "CHR ''/'' \<notin> set x"
    using ip(1) by (auto simp: x_def isdigit_def list_all_iff is_digit_def dest!: bspec)
  have tl: "take 4 (x @ ''/api'' @ uri) \<noteq> ''api/''"
  proof
    assume t: "take 4 (x @ ''/api'' @ uri) = ''api/''"
    consider "x = []" | a where "x = [a]" | a b where "x = [a, b]" | a b c where "x = [a, b, c]"
      | a b c d r where "x = a # b # c # d # r"
      by (metis list.exhaust)
    then have "x = ''api''"
      using t x by cases (auto simp: eval_nat_numeral)
    then have colon: "CHR '':'' \<notin> set x" by simp
    show False
    proof (cases "isdigit (active_wsport s)")
      case True
      with colon show False by (simp add: x_def)
    next
      case False
      with \<open>x = ''api''\<close> ip show False by (simp add: x_def)
    qed
  qed
  have "build_url uri s = ''http:'' @ (CHR ''/'' # CHR ''/'' # x @ ''/api'' @ uri)"
    by (simp add: build_url_def x_def Let_def)
  moreover have "find_str ''/api/'' (x @ ''/api'' @ uri) = int (length x)"
    using x uri(1) by (intro find_str_skip) (cases uri; simp)+
  ultimately have "find_str ''/api/'' (build_url uri s) = int (length x) + 7"
    using tl by (simp add: Let_def eval_nat_numeral)
  moreover have "build_url uri s = (''http://'' @ x) @ ''/api'' @ uri"
    by (simp add: build_url_def x_def Let_def)
  then have "drop (length (''http://'' @ x)) (build_url uri s) = ''/api'' @ uri"
    by (metis append_eq_conv_conj)
  then have "drop (length x + 7) (build_url uri s) = ''/api'' @ uri"
    by (simp add: eval_nat_numeral)
  ultimately show ?thesis
    using remove_str_prefix [of "''/api''" uri] remove_str_id [OF uri(2)]
    by (simp add: api_uri_def Let_def nat_add_distrib)
qed

definition get_request :: "string \<Rightarrow> pydict \<Rightarrow> http_request" where
  "get_request url hdrs = \<lparr>rq_verb = ''GET'', rq_url = url, rq_headers = hdrs, rq_data = []\<rparr>"

definition login_request :: "encl_env \<Rightarrow> encl \<Rightarrow> http_request" where
  "login_request env s = get_request
     (build_url ''/login/'' s @ sha256_hex env (mc_user env @ ''_'' @ mc_passwd env)) [(''datatype'', PStr ''json'')]"

definition logged :: "http_request \<Rightarrow> encl \<Rightarrow> encl" where
  "logged rq s = s\<lparr>http_log := http_log s @ [rq]\<rparr>"

lemma web_request_get:
  "web_response url (http env (length (http_log s)) (get_request url hdrs)) = r \<Longrightarrow>
    web_request env ''GET'' url hdrs [] s = (r, logged (get_request url hdrs) s)"
  by (simp add: web_request_def bindp_def ws_send_def liftp_def get_request_def logged_def)

text \<open>The text of an answer that grants a session: return code 1 with the session key.\<close>

definition grants :: "encl_env \<Rightarrow> string \<Rightarrow> pyv \<Rightarrow> bool" where
  "grants env body key \<longleftrightarrow> (\<exists>j st. encl_loads env body = Inr j \<and> truthy j \<and> first_status j = Inr st \<and>
     getitem st ''return-code'' = Inr (PInt 1) \<and> getitem st ''response'' = Inr key)"

text \<open>The text of an answer that rejects the session key: return code 2 and its message.\<close>

definition rejects :: "encl_env \<Rightarrow> string \<Rightarrow> bool" where
  "rejects env body \<longleftrightarrow> (\<exists>j st t. encl_loads env body = Inr j \<and> truthy j \<and> first_status j = Inr st \<and>
     getitem st ''return-code'' = Inr (PInt 2) \<and> getitem st ''response'' = Inr (PStr t) \<and>
     contains CLIAPI_RESP_INVSESSION t)"

lemma login_run:
  assumes "http env (length (http_log s)) (login_request env s) = Answered 200 reason body"
    and "grants env body key"
  shows "login env s = (Inr (), add_request_headers key (logged (login_request env s) s))"
  using assms
  by (auto simp: login_def grants_def py_exec web_request_get login_request_def http_codes
      response_truth_def is_error_status_def loads_or_unbound_def store_session_def)

lemma ws_loop_ok:
  assumes "web_response url (http env (length (http_log s)) (get_request url (common_reqheaders s)))
      = Inr \<lparr>status_code = Some 200, content = body\<rparr>"
    and "reports_invalid_session env need \<lparr>status_code = Some 200, content = body\<rparr> = Inr b"
  shows "ws_loop env ''GET'' [] (Suc n) url r retried need False s =
    (Inr (Some \<lparr>status_code = Some 200, content = body\<rparr>),
     (logged (get_request url (common_reqheaders s)) s)\<lparr>ws_response_status := Some 200, mc_timeout_counter := 0\<rparr>)"
  using assms by (simp add: py_exec web_request_get http_codes)

lemma ws_loop_switch:
  assumes "web_request env verb url (common_reqheaders s) postdata s = (Inr r, s')"
    and "status_code r \<in> {Some HTTP_TIMEOUT, Some HTTP_CONN_REFUSED, Some HTTP_NO_ROUTE_TO_HOST}"
    and "switch_to_alt_mc env (s'\<lparr>ws_response_status := status_code r\<rparr>) = (Inr (), s'')"
  shows "ws_loop env verb postdata (Suc n) url x retried False False s =
    ws_loop env verb postdata n url (Some r) retried False True
      (s''\<lparr>mc_timeout_counter := mc_timeout_counter s'' + 1\<rparr>)"
  using assms by (auto simp: py_exec http_codes)

lemma ws_loop_alt_ok:
  assumes "api_uri url = Inr uri" and "build_url uri s = url'"
    and "web_request env verb url' (common_reqheaders s) postdata s = (Inr r, s')"
    and "status_code r = Some 200" and "reports_invalid_session env need r = Inr b"
  shows "ws_loop env verb postdata (Suc n) url x retried need True s =
    (Inr (Some r), s'\<lparr>ws_response_status := Some 200, mc_timeout_counter := 0\<rparr>)"
  using assms by (simp add: py_exec http_codes)

lemma rejects_reports:
  "rejects env body \<Longrightarrow> reports_invalid_session env need \<lparr>status_code = c, content = body\<rparr> = Inr True"
  by (auto simp: rejects_def reports_invalid_session_def CLIAPI_RESP_FAILURE_def)

text \<open>The three requests of a fail-over to the second controller.\<close>

definition on_mc2 :: "encl_env \<Rightarrow> encl \<Rightarrow> encl" where
  "on_mc2 env s = s\<lparr>active_ip := mc2 env, active_wsport := mc2_wsport env\<rparr>"

definition failover_requests :: "encl_env \<Rightarrow> string \<Rightarrow> pyv \<Rightarrow> encl \<Rightarrow> http_request list" where
  "failover_requests env uri key s =
     [get_request (build_url uri s) (common_reqheaders s),
      login_request env (on_mc2 env s),
      get_request (build_url uri (on_mc2 env s)) (common_reqheaders (add_request_headers key s))]"

section \<open>A concrete enclosure\<close>

text \<open>
  The first controller refuses connections, the second one grants a session and answers every
  other request by a message named after the state of the enclosure.
\<close>

definition demo_status :: "int \<Rightarrow> string \<Rightarrow> pyv" where
  "demo_status code text = PDict [(''status'', PList [PDict
     [(''return-code'', PInt code), (''response'', PStr text), (''response-type'', PStr ''Success''),
      (''response-type-numeric'', PInt 0)]])]"

definition demo_encl_loads :: "string \<Rightarrow> pyv res" where
  "demo_encl_loads t = (if t = ''granted'' then Inr (demo_status 1 ''key'')
     else if t = ''rejected'' then Inr (demo_status 2 ''Invalid sessionkey'')
     else if t = ''fine'' then Inr (demo_status 0 ''done'') else Inl ValueError)"

definition demo_http :: "string \<Rightarrow> nat \<Rightarrow> http_request \<Rightarrow> http_outcome" where
  "demo_http text n rq = (if contains ''10.0.0.2'' (rq_url rq) then ConnectionError ''refused''
     else if contains ''/login/'' (rq_url rq) then Answered 200 ''OK'' ''granted''
     else Answered 200 ''OK'' text)"

definition demo_encl_env :: "string \<Rightarrow> encl_env" where
  "demo_encl_env text = \<lparr>http = demo_http text, encl_loads = demo_encl_loads, sha256_hex = (\<lambda>_. ''abc''),
     mc1 = ''10.0.0.2'', mc1_wsport = [], mc2 = ''10.0.0.3'', mc2_wsport = ''80'', mc_user = ''manage'',
     mc_passwd = ''secret'', pollfreq = 30, encl_cache = ''/var/cortx/sspl/data/encl/'',
     conf_hot_swappable = Inr [PStr ''disk''], conf_storage_frus = Inr []\<rparr>"

definition demo_encl :: "string \<Rightarrow> encl" where
  "demo_encl ip = \<lparr>active_ip = ip, active_wsport = [], common_reqheaders = [], mc_timeout_counter = 3,
     ws_response_status = None, poll_system_ts = 0, memcache_faults = PDict [], latest_faults = PDict [],
     faults_shared = False, memcache_system = PDict [], existing_faults = False, fru_list = Some [], hot_swapped_frus = Some [],
     cold_swapped_frus = Some [],
     encl_fs = \<lparr>files = [], dirs = [], denied = []\<rparr>, http_log = []\<rparr>"

lemmas demo_encl_simps = demo_encl_env_def demo_encl_def demo_http_def demo_encl_loads_def demo_status_def
  get_request_def build_url_def isdigit_def is_digit_def Let_def first_status_def

section \<open>Properties of the enclosure client\<close>

text \<open>
  C22. \<open>ws_request\<close> always ends, by a response or an exception, after at most four HTTP requests:
  two for the data and two for a login, one after a forbidden request and one after the switch
  to the other controller. Earlier entries of the record of requests stay.\<close>

theorem ws_request_bounded:
  "\<exists>rqs. http_log (snd (ws_request env url verb s)) = http_log s @ rqs \<and> length rqs \<le> 4"
  using sends_ws_loop [of MAX_RETRIES False False env verb "[]" url None False]
  by (simp add: sends_def ws_request_def MAX_RETRIES_def eval_nat_numeral)

text \<open>
  An answer with status 200 that reports an invalid session key is returned as if it were
  the data: no login is made, the headers stay as they are, and the failure counter is reset. The
  relogin the code prepares by \<^verbatim>\<open>need_relogin\<close> is never reached.\<close>

lemma invalid_session_not_renewed:
  assumes "http env (length (http_log s)) (get_request url (common_reqheaders s)) = Answered 200 reason body"
    and "rejects env body"
  shows "ws_request env url ''GET'' s =
    (Inr (Some \<lparr>status_code = Some 200, content = body\<rparr>),
     (logged (get_request url (common_reqheaders s)) s)\<lparr>ws_response_status := Some 200, mc_timeout_counter := 0\<rparr>)"
  unfolding ws_request_def MAX_RETRIES_def numeral_2_eq_2
  by (rule ws_loop_ok [OF _ rejects_reports]) (simp_all add: assms is_error_status_def)

lemma invalid_session_not_renewed_witness:
  "common_reqheaders (snd (ws_request (demo_encl_env ''rejected'') ''http://10.0.0.3/api/show/disks'' ''GET''
     (demo_encl ''10.0.0.3''))) = []"
proof -
  have "rejects (demo_encl_env ''rejected'') ''rejected''"
    by (simp add: rejects_def demo_encl_simps CLIAPI_RESP_INVSESSION_def)
  from invalid_session_not_renewed [OF _ this, of "demo_encl ''10.0.0.3''" "''http://10.0.0.3/api/show/disks''" "''OK''"]
  show ?thesis
    by (simp add: demo_encl_simps logged_def)
qed



text \<open>
  A status answer (200) that is not JSON makes \<open>get_system_status\<close> raise
  \<^verbatim>\<open>UnboundLocalError\<close>: the handler logs and goes on to use the variable that was never assigned.
  The time of the poll is already recorded by then, and the caches of faults stay as they were.\<close>

lemma malformed_status_raises:
  assumes due: "pollfreq env \<le> now - poll_system_ts s"
    and answer: "http env (length (http_log s)) (get_request url (common_reqheaders s)) = Answered 200 reason body"
    and url: "url = build_url ''/show/system'' s"
    and bad: "encl_loads env body = Inl ValueError"
  shows "get_system_status env now now' s =
    (Inl UnboundLocalError, (logged (get_request url (common_reqheaders s)) s)
       \<lparr>ws_response_status := Some 200, mc_timeout_counter := 0, poll_system_ts := now'\<rparr>)"
proof -
  have "ws_request env url ''GET'' s =
    (Inr (Some \<lparr>status_code = Some 200, content = body\<rparr>),
     (logged (get_request url (common_reqheaders s)) s)\<lparr>ws_response_status := Some 200, mc_timeout_counter := 0\<rparr>)"
    unfolding ws_request_def MAX_RETRIES_def numeral_2_eq_2
    by (rule ws_loop_ok [where b = False]) (simp_all add: answer bad is_error_status_def reports_invalid_session_def)
  with due bad show ?thesis
    by (simp add: get_system_status_def url [symmetric] py_exec checked_response_def response_truth_def is_error_status_def
        http_codes loads_or_unbound_def)
qed

lemma malformed_status_raises_witness:
  "fst (get_system_status (demo_encl_env ''<html>'') 100 100 (demo_encl ''10.0.0.3'')) = Inl UnboundLocalError"
  using malformed_status_raises [of "demo_encl_env ''<html>''" 100 "demo_encl ''10.0.0.3''" _ "''OK''" "''<html>''" 100, OF _ _ refl]
  by (simp add: demo_encl_simps)

end
