(* ===== verification/Alert_History.thy ===== *)
theory Alert_History
  imports SSPL_Prelude
begin

text \<open>
  The contract of a sensor that remembers, per resource, the alert outstanding for it: the alerts
  it raised form, per resource, a word that leads from no outstanding alert to the one remembered.
  Two interfaces: \<open>alert_words\<close> for sensors that raise several alerts in a step, \<open>alert_history\<close> for
  those whose steps are single observations.
\<close>

section \<open>The contract of an alert history\<close>

text \<open>
  For one FRU: the alert outstanding for it (none, fault or missing) and what an alert makes of
  it. A fault or missing alert is raised only when it is not the outstanding one; an insertion
  answers a missing alert, a fault_resolved another outstanding one.
\<close>

definition next_alert :: "string option \<Rightarrow> string \<Rightarrow> string option option" where
  "next_alert p a =
     (if a \<in> {''fault'', ''missing''} \<and> p \<noteq> Some a then Some (Some a)
      else if a = ''insertion'' \<and> p = Some ''missing'' then Some None
      else if a = ''fault_resolved'' \<and> p \<noteq> None \<and> p \<noteq> Some ''missing'' then Some None
      else None)"

text \<open>
  The histories of a sensor are words of a transition function: from the outstanding alert and an
  alert to the alert outstanding then, or no value when the alert is out of place.
\<close>

type_synonym alert_rule = "string option \<Rightarrow> string \<Rightarrow> string option option"

primrec replay_by :: "alert_rule \<Rightarrow> string option \<Rightarrow> string list \<Rightarrow> string option option" where
  "replay_by nxt p [] = Some p"
| "replay_by nxt p (a # as) = (case nxt p a of None \<Rightarrow> None | Some p' \<Rightarrow> replay_by nxt p' as)"

lemma replay_append:
  "replay_by nxt p (as @ bs) = (case replay_by nxt p as of None \<Rightarrow> None | Some p' \<Rightarrow> replay_by nxt p' bs)"
  by (induction as arbitrary: p) (auto split: option.splits)

abbreviation replay :: "string option \<Rightarrow> string list \<Rightarrow> string option option" where
  "replay \<equiv> replay_by next_alert"

definition fru_alerts :: "string \<Rightarrow> (string \<times> string) list \<Rightarrow> string list" where
  "fru_alerts k log = map snd (filter (\<lambda>p. fst p = k) log)"

text \<open>One observation of a FRU: nothing, or one alert that moves its outstanding alert.\<close>

definition track_step :: "alert_rule \<Rightarrow> (string \<rightharpoonup> string) \<Rightarrow> (string \<times> string) list \<Rightarrow> (string \<rightharpoonup> string) \<Rightarrow> (string \<times> string) list \<Rightarrow> bool" where
  "track_step nxt m l m' l' \<longleftrightarrow> m' = m \<and> l' = l \<or>
     (\<exists>k a p. nxt (m k) a = Some p \<and> m' = m(k := p) \<and> l' = l @ [(k, a)])"

text \<open>What happened to each resource since the last step, as a word of alerts.\<close>

definition alert_word :: "alert_rule \<Rightarrow> (string \<rightharpoonup> string) \<Rightarrow> (string \<times> string) list \<Rightarrow> (string \<rightharpoonup> string) \<Rightarrow> (string \<times> string) list \<Rightarrow> bool" where
  "alert_word nxt m l m' l' \<longleftrightarrow>
     (\<forall>k. \<exists>as. fru_alerts k l' = fru_alerts k l @ as \<and> replay_by nxt (m k) as = Some (m' k))"

lemma alert_word_refl: "alert_word nxt m l m l"
  by (auto simp: alert_word_def intro: exI [of _ "[]"])

lemma alert_word_trans:
  assumes "alert_word nxt m l m' l'" and "alert_word nxt m' l' m'' l''"
  shows "alert_word nxt m l m'' l''"
  unfolding alert_word_def
proof
  fix k
  obtain as bs where "fru_alerts k l' = fru_alerts k l @ as" "replay_by nxt (m k) as = Some (m' k)"
      "fru_alerts k l'' = fru_alerts k l' @ bs" "replay_by nxt (m' k) bs = Some (m'' k)"
    using assms unfolding alert_word_def by blast
  then show "\<exists>cs. fru_alerts k l'' = fru_alerts k l @ cs \<and> replay_by nxt (m k) cs = Some (m'' k)"
    by (intro exI [of _ "as @ bs"]) (simp add: replay_append)
qed

lemma track_step_word: "track_step nxt m l m' l' \<Longrightarrow> alert_word nxt m l m' l'"
  by (auto simp: track_step_def alert_word_def fru_alerts_def)

text \<open>
  The interface of a sensor whose alerts form a proper history: each step appends, for each
  resource, a word of alerts that leads from the outstanding alert to the new one.
\<close>

locale alert_words =
  fixes nxt :: alert_rule
    and inv :: "'s \<Rightarrow> bool"
    and step :: "'s \<Rightarrow> 's \<Rightarrow> bool"
    and outstanding :: "'s \<Rightarrow> string \<rightharpoonup> string"
    and confirmed :: "'s \<Rightarrow> (string \<times> string) list"
  assumes inv_kept: "inv s \<Longrightarrow> step s s' \<Longrightarrow> inv s'"
    and step_word: "inv s \<Longrightarrow> step s s' \<Longrightarrow>
      alert_word nxt (outstanding s) (confirmed s) (outstanding s') (confirmed s')"
begin

definition faithful :: "'s \<Rightarrow> bool" where
  "faithful s \<longleftrightarrow> (\<forall>k. replay_by nxt None (fru_alerts k (confirmed s)) = Some (outstanding s k))"

lemma faithful_step:
  assumes "inv s" and "step s s'" and "faithful s"
  shows "faithful s'"
  unfolding faithful_def
proof
  fix k
  obtain as where "fru_alerts k (confirmed s') = fru_alerts k (confirmed s) @ as"
      "replay_by nxt (outstanding s k) as = Some (outstanding s' k)"
    using step_word [OF assms(1,2)] by (auto simp: alert_word_def)
  with assms(3) show "replay_by nxt None (fru_alerts k (confirmed s')) = Some (outstanding s' k)"
    by (simp add: faithful_def replay_append)
qed

lemma steps_faithful: "step\<^sup>*\<^sup>* s s' \<Longrightarrow> inv s \<Longrightarrow> faithful s \<Longrightarrow> inv s' \<and> faithful s'"
  by (induction rule: rtranclp_induct) (auto intro: inv_kept faithful_step)

end

text \<open>A sensor whose steps are single observations offers this interface.\<close>

locale alert_history =
  fixes nxt :: alert_rule
    and inv :: "'s \<Rightarrow> bool"
    and step :: "'s \<Rightarrow> 's \<Rightarrow> bool"
    and outstanding :: "'s \<Rightarrow> string \<rightharpoonup> string"
    and confirmed :: "'s \<Rightarrow> (string \<times> string) list"
  assumes step_inv: "inv s \<Longrightarrow> step s s' \<Longrightarrow> inv s'"
    and step_track: "inv s \<Longrightarrow> step s s' \<Longrightarrow>
      track_step nxt (outstanding s) (confirmed s) (outstanding s') (confirmed s')"

sublocale alert_history \<subseteq> alert_words nxt inv step outstanding confirmed
  by unfold_locales (auto dest: step_inv step_track track_step_word)

end
