(* ===== verification/Realstor_Fru.thy ===== *)
theory Realstor_Fru
  imports Realstor_Enclosure Internal_MsgQ Json_Msgs Alert_History
begin

text \<open>
  What the sensors of enclosure FRUs (power supplies, fan modules, controllers, sideplane
  expanders) have in common: the state they keep, the request for the current data, the wait for
  the acknowledgement of an alert, and the persistent cache of faulty FRUs; \<open>Alert_History\<close> has the contract their alert
  history has to obey. Whether the n-th wait ends before its timeout, the clock and the random
  salt are parameters. A durable id is text (the web service documents it so); another value as a
  key is a \<^verbatim>\<open>TypeError\<close> in the model.
\<close>

record fru_env =
  cli :: encl_env
  ev_wait :: "nat \<Rightarrow> bool"
  get_fqdn :: "string res"
  ip_addrs :: "string list res"
  epoch :: "nat \<Rightarrow> int"
  salt :: "nat \<Rightarrow> string"
  poll_override :: int

text \<open>
  \<open>fr_faulty\<close> is the dictionary of faulty FRUs, \<open>fr_list\<close> the list last read, \<open>fr_built\<close> counts the
  messages built and \<open>fr_waits\<close> the waits; \<open>fr_confirmed\<close> records each alert that was acknowledged
  in time and persisted, with the durable id of its FRU.
\<close>

record fru_state =
  rssencl :: encl
  fr_q :: "nat msgq"
  fr_faulty :: pyv
  fr_list :: pyv
  fr_waits :: nat
  fr_built :: nat
  fr_suspended :: bool
  fr_schedule :: "int list"
  fr_confirmed :: "(string \<times> string) list"

definition on_encl :: "(encl, 'a) proc \<Rightarrow> (fru_state, 'a) proc" where
  "on_encl m s = (case m (rssencl s) of (r, e) \<Rightarrow> (r, s\<lparr>rssencl := e\<rparr>))"

definition on_fr_q :: "(nat msgq, 'a) proc \<Rightarrow> (fru_state, 'a) proc" where
  "on_fr_q m s = (case m (fr_q s) of (r, q) \<Rightarrow> (r, s\<lparr>fr_q := q\<rparr>))"

abbreviation fr_fs :: "fru_state \<Rightarrow> fs" where
  "fr_fs s \<equiv> encl_fs (rssencl s)"

definition set_fr_fs :: "fs \<Rightarrow> fru_state \<Rightarrow> fru_state" where
  "set_fr_fs f s = s\<lparr>rssencl := (rssencl s)\<lparr>encl_fs := f\<rparr>\<rparr>"

text \<open>\<^verbatim>\<open>dict.fromkeys(ks, v)\<close> and \<^verbatim>\<open>d.update(e)\<close>.\<close>

definition dict_fromkeys :: "string list \<Rightarrow> pyv \<Rightarrow> pydict" where
  "dict_fromkeys ks v = fold (\<lambda>k. AList.update k v) ks []"

definition dict_update :: "pydict \<Rightarrow> pydict \<Rightarrow> pydict" where
  "dict_update d e = fold (\<lambda>(k, v). AList.update k v) e d"

text \<open>\<^verbatim>\<open>v.items()\<close>.\<close>

fun dict_items :: "pyv \<Rightarrow> pydict res" where
  "dict_items (PDict d) = Inr d"
| "dict_items _ = Inl AttributeError"

fun key_text :: "pyv \<Rightarrow> string res" where
  "key_text (PStr s) = Inr s"
| "key_text _ = Inl TypeError"

text \<open>\<^verbatim>\<open>del d[k]\<close>.\<close>

fun delitem :: "pyv \<Rightarrow> string \<Rightarrow> pyv res" where
  "delitem (PDict d) k = (if k \<in> fst ` set d then Inr (PDict (AList.delete k d)) else Inl KeyError)"
| "delitem _ k = Inl TypeError"

definition enter :: "int \<Rightarrow> (fru_state, unit) proc" where
  "enter delay = modp (\<lambda>s. s\<lparr>fr_schedule := fr_schedule s @ [delay]\<rparr>)"

definition poll_frequency :: "fru_env \<Rightarrow> int" where
  "poll_frequency env = (if poll_override env = 0 then pollfreq (cli env) else poll_override env)"

section \<open>Initialisation and suspension\<close>

text \<open>The same statements in each sensor, with the path of its cache.\<close>

definition load_faulty :: "string \<Rightarrow> (fru_state, unit) proc" where
  "load_faulty path =
     seqp (modp (\<lambda>s. s\<lparr>fr_faulty := store_get (fr_fs s) path\<rparr>))
     (bindp (getp fr_faulty) (\<lambda>faulty.
       if faulty = PNone then modp (\<lambda>s. set_fr_fs (store_put (PDict []) path True (fr_fs s)) (s\<lparr>fr_faulty := PDict []\<rparr>))
       else ret ()))"

definition fru_suspend :: "fru_state \<Rightarrow> fru_state" where
  "fru_suspend s = s\<lparr>fr_suspended := True\<rparr>"

definition fru_resume :: "fru_state \<Rightarrow> fru_state" where
  "fru_resume s = s\<lparr>fr_suspended := False\<rparr>"

section \<open>The request for the current data\<close>

text \<open>
  A response that is false is only logged. Another status than 200 raises, except for a
  loop-back address.
\<close>

definition request_data :: "fru_env \<Rightarrow> string \<Rightarrow> (pyv \<Rightarrow> pyv res) \<Rightarrow> (fru_state, pyv) proc" where
  "request_data env uri extract =
     bindp (getp (\<lambda>s. build_url uri (rssencl s))) (\<lambda>url.
     bindp (on_encl (checked_response (ws_request (cli env) url ''GET''))) (\<lambda>response. case response of
       None \<Rightarrow> ret PNone
     | Some r \<Rightarrow>
         if status_code r \<noteq> Some HTTP_OK
         then (if contains LOOPBACK url then ret PNone else raise PyException)
         else liftp (bindr (encl_loads (cli env) (content r)) extract)))"

section \<open>Building and sending alerts\<close>

text \<open>The time stamp and the alert id of the next message.\<close>

definition fresh_alert :: "fru_env \<Rightarrow> (fru_state, string \<times> string) proc" where
  "fresh_alert env s = (let epoch_time = str_int (epoch env (fr_built s))
     in (Inr (epoch_time, get_alert_id (salt env (fr_built s)) epoch_time), s\<lparr>fr_built := fr_built s + 1\<rparr>))"

definition alert_info :: "string \<Rightarrow> string \<Rightarrow> pyv \<Rightarrow> string \<Rightarrow> pyv" where
  "alert_info resource_type fru resource_id epoch_time =
     PDict [(''resource_type'', PStr resource_type), (''fru'', PStr fru), (''resource_id'', resource_id),
       (''event_time'', PStr epoch_time)]"

definition enclosure_alert :: "pydict \<Rightarrow> pyv" where
  "enclosure_alert d = PDict [(''sensor_request_type'', PDict [(''enclosure_alert'', PDict d)])]"

text \<open>\<^verbatim>\<open>_event.clear()\<close> and the write; the event is the sensor's own, number 0.\<close>

definition send_to_handler :: "pyv \<Rightarrow> (fru_state, unit) proc" where
  "send_to_handler json_msg = on_fr_q (write_internal_msgQ ''RealStorEnclMsgHandler'' json_msg (Some 0))"

definition wait_event :: "fru_env \<Rightarrow> (fru_state, bool) proc" where
  "wait_event env s = (Inr (ev_wait env (fr_waits s)), s\<lparr>fr_waits := fr_waits s + 1\<rparr>)"

text \<open>
  The end of each turn: when the alert was acknowledged in time the dictionary is persisted,
  otherwise the one in memory is replaced by the stored one.
\<close>

definition persist_faulty :: "fru_env \<Rightarrow> string \<Rightarrow> string \<times> string \<Rightarrow> (fru_state, unit) proc" where
  "persist_faulty env path a =
     bindp (wait_event env) (\<lambda>acked.
       if acked then modp (\<lambda>s. set_fr_fs (store_put (fr_faulty s) path True (fr_fs s))
                                (s\<lparr>fr_confirmed := fr_confirmed s @ [a]\<rparr>))
       else modp (\<lambda>s. s\<lparr>fr_faulty := store_get (fr_fs s) path\<rparr>))"

section \<open>The dictionary of faulty FRUs and the debug flag\<close>

definition known_faulty :: "string \<Rightarrow> (fru_state, bool) proc" where
  "known_faulty durable_id = bindp (getp fr_faulty) (\<lambda>faulty. liftp (py_in (PStr durable_id) faulty))"

definition set_faulty :: "string \<Rightarrow> pyv \<Rightarrow> (fru_state, unit) proc" where
  "set_faulty durable_id v = bindp (getp fr_faulty) (\<lambda>faulty.
     bindp (liftp (setitem faulty durable_id v)) (\<lambda>faulty'. modp (\<lambda>s. s\<lparr>fr_faulty := faulty'\<rparr>)))"

definition del_faulty :: "string \<Rightarrow> (fru_state, unit) proc" where
  "del_faulty durable_id = bindp (getp fr_faulty) (\<lambda>faulty.
     bindp (liftp (delitem faulty durable_id)) (\<lambda>faulty'. modp (\<lambda>s. s\<lparr>fr_faulty := faulty'\<rparr>)))"

definition read_debug_msg :: "fru_env \<Rightarrow> string \<Rightarrow> (fru_state, unit) proc" where
  "read_debug_msg env name s = (Inr (), s\<lparr>fr_q := snd (read_my_msgQ_noWait (encl_loads (cli env)) name (fr_q s))\<rparr>)"

definition reset_debug :: "(fru_state, unit) proc" where
  "reset_debug = modp (\<lambda>s. s\<lparr>fr_q := (fr_q s)\<lparr>msgq_dbg := disable_debug_if_persist_false (msgq_dbg (fr_q s))\<rparr>\<rparr>)"

section \<open>Sound states\<close>

text \<open>
  The store works and holds \<open>f\<close> for the sensor, the handler's queue exists and the list of FRUs is
  loaded.
\<close>

definition fru_ok :: "string \<Rightarrow> pyv \<Rightarrow> fru_state \<Rightarrow> bool" where
  "fru_ok path f s \<longleftrightarrow> fs_wf (fr_fs s) \<and> writable (fr_fs s) path \<and> store_get (fr_fs s) path = f \<and>
     map_of (msgQlist (fr_q s)) ''RealStorEnclMsgHandler'' \<noteq> None \<and>
     fru_list (rssencl s) \<noteq> None \<and> hot_swapped_frus (rssencl s) \<noteq> None"

text \<open>What is in memory is what is stored, and every entry has an alert type (\<open>entry\<close> reads it).\<close>

definition fru_inv :: "(pyv \<Rightarrow> string option) \<Rightarrow> string \<Rightarrow> fru_state \<Rightarrow> bool" where
  "fru_inv entry path s \<longleftrightarrow> fru_ok path (fr_faulty s) s \<and>
     (\<exists>d. fr_faulty s = PDict d \<and> (\<forall>k e. map_of d k = Some e \<longrightarrow> entry e \<noteq> None))"

definition outstanding :: "(pyv \<Rightarrow> string option) \<Rightarrow> fru_state \<Rightarrow> string \<rightharpoonup> string" where
  "outstanding entry s k = (case fr_faulty s of PDict d \<Rightarrow> Option.bind (map_of d k) entry | _ \<Rightarrow> None)"

text \<open>A statement that changes neither the dictionary nor the store nor the alerts.\<close>

definition quiet :: "fru_state \<Rightarrow> fru_state \<Rightarrow> bool" where
  "quiet s s' \<longleftrightarrow> fr_faulty s' = fr_faulty s \<and> fr_confirmed s' = fr_confirmed s \<and> fr_waits s' = fr_waits s \<and>
     (\<forall>path f. fru_ok path f s \<longrightarrow> fru_ok path f s')"

lemma fru_ok_faulty [simp]: "fru_ok path f (s\<lparr>fr_faulty := x\<rparr>) = fru_ok path f s"
  by (simp add: fru_ok_def)

lemma quiet_ok: "quiet s s' \<Longrightarrow> fru_ok path f s \<Longrightarrow> fru_ok path f s'"
  by (simp add: quiet_def)

lemma quiet_trans: "quiet s s' \<Longrightarrow> quiet s' s'' \<Longrightarrow> quiet s s''"
  by (simp add: quiet_def)

lemma send_to_handler_run:
  assumes "fru_ok path f s"
  shows "\<exists>s'. send_to_handler m s = (Inr (), s') \<and> quiet s s'"
proof -
  obtain ms where ms: "map_of (msgQlist (fr_q s)) ''RealStorEnclMsgHandler'' = Some ms"
    using assms by (auto simp: fru_ok_def)
  show ?thesis
    by (auto simp: send_to_handler_def on_fr_q_def write_run [OF ms] quiet_def fru_ok_def)
qed

lemma persist_faulty_run:
  assumes "fru_ok path f s"
  shows "\<exists>s'. persist_faulty env path a s = (Inr (), s') \<and> fru_ok path (fr_faulty s') s' \<and>
    (if ev_wait env (fr_waits s) then fr_faulty s' = fr_faulty s \<and> fr_confirmed s' = fr_confirmed s @ [a]
     else fr_faulty s' = f \<and> fr_confirmed s' = fr_confirmed s) \<and> fr_waits s' = fr_waits s + 1"
proof -
  have "writable (store_put v path True (fr_fs s)) path" for v
    using assms writable_put [of "fr_fs s" path path v True] by (auto simp: fru_ok_def indep_def writable_def)
  then show ?thesis
    using assms
    by (auto simp: persist_faulty_def wait_event_def bindp_def modp_def set_fr_fs_def fru_ok_def
        store_put_wf store_get_put_pickled)
qed

lemma json_dumps_dict:
  assumes "json_able (PDict d)"
  shows "\<exists>t. json_dumps (PDict d) = Inr t \<and> t \<noteq> []"
  using json_dumps_ok [OF assms] by (auto simp: bindr_eq_Inr)

lemma json_able_get_key: "json_able (PDict d) \<Longrightarrow> \<exists>v. get_key (PDict d) k = Inr v \<and> json_able v"
  by (auto split: option.splits dest!: map_of_SomeD bspec)

lemma json_able_fold_update:
  "json_able (PDict d) \<Longrightarrow> (\<And>k v. (k, v) \<in> set e \<Longrightarrow> json_able v) \<Longrightarrow> json_able (PDict (dict_update d e))"
  unfolding dict_update_def
proof (induction e arbitrary: d)
  case (Cons p e)
  obtain k v where p: "p = (k, v)" by (cases p)
  have "json_able (PDict (AList.update k v d))"
    by (rule json_able_update) (use Cons.prems p in auto)
  from Cons.IH [OF this] have "json_able (PDict (fold (\<lambda>(k, v). AList.update k v) e (AList.update k v d)))"
    using Cons.prems(2) by (meson list.set_intros(2))
  with p show ?case by simp
qed simp

lemma json_able_dict_update:
  "json_able (PDict d) \<Longrightarrow> json_able (PDict e) \<Longrightarrow> json_able (PDict (dict_update d e))"
  by (rule json_able_fold_update) auto

lemma json_able_fromkeys: "json_able v \<Longrightarrow> json_able (PDict (dict_fromkeys ks v))"
proof -
  assume v: "json_able v"
  have "json_able (PDict (fold (\<lambda>k. AList.update k v) ks d))" if "json_able (PDict d)" for d
    using that
  proof (induction ks arbitrary: d)
    case (Cons k ks)
    from Cons.IH [OF json_able_update [OF Cons.prems v]] show ?case by simp
  qed simp
  from this [of "[]"] show ?thesis by (simp add: dict_fromkeys_def)
qed

lemma json_able_get_default:
  "json_able (PDict d) \<Longrightarrow> json_able v \<Longrightarrow> \<exists>w. get_default (PDict d) k v = Inr w \<and> json_able w"
  by (auto split: option.splits dest!: map_of_SomeD bspec)

lemma is_storage_fru_ok: "fru_ok path f s \<Longrightarrow> \<exists>t. is_storage_fru n (rssencl s) = Inr t"
  by (auto simp: fru_ok_def is_storage_fru_def Let_def)

lemma fresh_alert_run: "\<exists>p s'. fresh_alert env s = (Inr p, s') \<and> rssencl s' = rssencl s \<and> quiet s s'"
  by (auto simp: fresh_alert_def Let_def quiet_def fru_ok_def)

lemma known_faulty_run:
  "fr_faulty s = PDict m \<Longrightarrow> known_faulty k s = (Inr (map_of m k \<noteq> None), s)"
  by (auto simp: known_faulty_def py_exec list_ex_iff map_of_eq_None_iff) (metis fst_conv image_eqI)

section \<open>Observations\<close>

text \<open>
  The effect on the outstanding alerts, the confirmed ones and the number of waits: the alert is
  confirmed when its wait succeeds, otherwise it will be raised again.
\<close>

type_synonym fru_abs = "(string \<rightharpoonup> string) \<times> (string \<times> string) list \<times> nat"

definition observe_by :: "alert_rule \<Rightarrow> fru_env \<Rightarrow> string \<Rightarrow> string option \<Rightarrow> fru_abs \<Rightarrow> fru_abs" where
  "observe_by nxt env k alert = (\<lambda>(m, l, n). case alert of
     None \<Rightarrow> (m, l, n)
   | Some a \<Rightarrow> if ev_wait env n then (m(k := the (nxt (m k) a)), l @ [(k, a)], n + 1) else (m, l, n + 1))"

abbreviation observe :: "fru_env \<Rightarrow> string \<Rightarrow> string option \<Rightarrow> fru_abs \<Rightarrow> fru_abs" where
  "observe \<equiv> observe_by next_alert"

lemma observe_track:
  "observe_by nxt env k alert (m, l, n) = (m', l', n') \<Longrightarrow> (\<And>a. alert = Some a \<Longrightarrow> \<exists>p. nxt (m k) a = Some p) \<Longrightarrow>
    track_step nxt m l m' l'"
  by (auto simp: observe_by_def track_step_def split: option.splits if_splits)

section \<open>Initialisation\<close>

text \<open>A first start stores an empty dictionary; a restart reads back what was stored.\<close>

lemma load_faulty_fresh:
  assumes "fru_ok path PNone s"
  shows "\<exists>s'. load_faulty path s = (Inr (), s') \<and> fru_inv entry path s' \<and> fr_faulty s' = PDict [] \<and>
    fr_confirmed s' = fr_confirmed s \<and> fr_waits s' = fr_waits s"
proof -
  have "writable (store_put v path True (fr_fs s)) path" for v
    using assms writable_put [of "fr_fs s" path path v True] by (auto simp: fru_ok_def indep_def writable_def)
  with assms show ?thesis
    by (auto simp: load_faulty_def bindp_def seqp_def getp_def modp_def set_fr_fs_def fru_inv_def fru_ok_def
        store_put_wf store_get_put_pickled)
qed

lemma load_faulty_restart:
  assumes "fru_inv entry path s"
  shows "load_faulty path (s\<lparr>fr_faulty := x, fr_schedule := l\<rparr>) = (Inr (), s\<lparr>fr_schedule := l\<rparr>)"
proof -
  have "store_get (fr_fs s) path = fr_faulty s" "fr_faulty s \<noteq> PNone"
    using assms by (auto simp: fru_inv_def fru_ok_def)
  then show ?thesis by (simp add: load_faulty_def py_exec)
qed

section \<open>A concrete sensor\<close>

definition demo_fru_env :: fru_env where
  "demo_fru_env = \<lparr>cli = demo_encl_env ''fine'', ev_wait = (\<lambda>n. n \<noteq> 1), get_fqdn = Inr ''node1'', ip_addrs = Inr [],
     epoch = (\<lambda>n. 7 + int n), salt = (\<lambda>n. ''salt''), poll_override = 0\<rparr>"

definition demo_fru :: fru_state where
  "demo_fru = \<lparr>rssencl = demo_encl ''10.0.0.3'',
     fr_q = \<lparr>msgQlist = [(''RealStorEnclMsgHandler'', [])], msgq_dbg = init_debug\<rparr>,
     fr_faulty = PDict [], fr_list = PDict [], fr_waits = 0, fr_built = 0, fr_suspended = False, fr_schedule = [],
     fr_confirmed = []\<rparr>"

lemma demo_fru_ok:
  assumes "path \<notin> set (ancestors (dirname path))"
  shows "fru_ok path PNone demo_fru"
  using assms by (simp add: fru_ok_def demo_fru_def demo_encl_def fs_wf_def isfile_def isdir_def writable_def
      store_get_def load_json_file_def)

end
