(* ===== verification/Realstor_Psu.thy ===== *)
theory Realstor_Psu
  imports Realstor_Fru
begin

text \<open>
  \<^verbatim>\<open>sensors/impl/platforms/realstor/realstor_psu_sensor.py\<close>: the sensor of the power supplies of an
  enclosure. The properties relate each turn of its loop to a small specification of what a
  sensor should do on one observation (\<open>psu_spec\<close>), and show that the confirmed alerts of every
  power supply form a proper history.
\<close>

section \<open>The sensor\<close>

definition psu_path :: "fru_env \<Rightarrow> string" where
  "psu_path env = path_join (path_join (frus (cli env)) ''psus'') ''psudata.json''"

definition psu_initialize :: "fru_env \<Rightarrow> (fru_state, bool) proc" where
  "psu_initialize env = seqp (enter 1) (seqp (load_faulty (psu_path env)) (ret True))"

definition get_psus :: "fru_env \<Rightarrow> (fru_state, pyv) proc" where
  "get_psus env = request_data env ''/show/power-supplies'' (\<lambda>data. get_key data ''power-supplies'')"

fun check_if_psu_not_installed :: "pyv \<Rightarrow> bool res" where
  "check_if_psu_not_installed (PStr health_reason) = Inr (contains ''not installed'' health_reason)"
| "check_if_psu_not_installed _ = Inl TypeError"

definition psu_hostname :: "fru_env \<Rightarrow> pyv" where
  "psu_hostname env = (case get_fqdn env of
     Inr h \<Rightarrow> PStr h
   | Inl _ \<Rightarrow> (case ip_addrs env of Inr (ip # _) \<Rightarrow> PBytes ip | _ \<Rightarrow> PStr ''localhost''))"

text \<open>The keys of the specific info with the keys they are read from.\<close>

definition psu_specific_keys :: "(string \<times> string) list" where
  "psu_specific_keys = map (\<lambda>k. (k, if k = ''dc5v'' then ''dc12v'' else k))
     [''enclosure-id'', ''serial-number'', ''description'', ''revision'', ''model'', ''vendor'', ''location'',
      ''part-number'', ''fru-shortname'', ''mfg-date'', ''mfg-vendor-id'', ''dc12v'', ''dc5v'', ''dc33v'',
      ''dc12i'', ''dc5i'', ''dctemp'', ''health'', ''health-reason'', ''health-recommendation'', ''status'',
      ''durable-id'', ''position'']"

definition psu_specific_info :: "pyv \<Rightarrow> pyv res" where
  "psu_specific_info psu_detail =
     bindr (seq_res (map (\<lambda>(k, src). bindr (get_key psu_detail src) (\<lambda>v. Inr (k, if v = PStr [] then PStr ''N/A'' else v)))
              psu_specific_keys))
       (\<lambda>d. Inr (PDict d))"

definition psu_create_internal_msg :: "fru_env \<Rightarrow> pyv \<Rightarrow> string \<Rightarrow> (fru_state, pyv) proc" where
  "psu_create_internal_msg env psu_detail alert_type =
     (if \<not> truthy psu_detail then ret (PDict [])
      else
        bindp (liftp (map_severity alert_type)) (\<lambda>severity.
        bindp (fresh_alert env) (\<lambda>(epoch_time, alert_id).
        bindp (getp rssencl) (\<lambda>e.
        bindp (liftp (is_storage_fru ''POWER_SUPPLY'' e)) (\<lambda>fru.
        bindp (liftp (get_key psu_detail ''durable-id'')) (\<lambda>resource_id.
        bindp (liftp (psu_specific_info psu_detail)) (\<lambda>specific_info.
        bindp (liftp (json_dumps (enclosure_alert
          [(''status'', PStr ''update''), (''host_id'', psu_hostname env), (''alert_type'', PStr alert_type),
           (''severity'', PStr severity), (''alert_id'', PStr alert_id),
           (''info'', alert_info ''enclosure:hw:psu'' fru resource_id epoch_time),
           (''specific_info'', specific_info)]))) (\<lambda>text. ret (PStr text)))))))))"

definition psu_send_json_msg :: "pyv \<Rightarrow> (fru_state, unit) proc" where
  "psu_send_json_msg json_msg = (if \<not> truthy json_msg then ret () else send_to_handler json_msg)"

text \<open>\<^verbatim>\<open>self._previously_faulty_psus[durable_id]["alert_type"]\<close>.\<close>

definition remembered_type :: "string \<Rightarrow> (fru_state, pyv) proc" where
  "remembered_type durable_id =
     bindp (getp fr_faulty) (\<lambda>faulty. liftp (bindr (getitem faulty durable_id) (\<lambda>e. getitem e ''alert_type'')))"

text \<open>Remember the state and build and send the message: the same statements in two branches.\<close>

definition psu_raise :: "fru_env \<Rightarrow> bool \<Rightarrow> pyv \<Rightarrow> string \<Rightarrow> string \<Rightarrow> string \<Rightarrow> (fru_state, pyv list) proc" where
  "psu_raise env send_message psu durable_id psu_health alert_type =
     seqp (set_faulty durable_id (PDict [(''health'', PStr psu_health), (''alert_type'', PStr alert_type)]))
     (bindp (psu_create_internal_msg env psu alert_type) (\<lambda>m.
      seqp (if send_message then psu_send_json_msg m else ret ())
      (seqp (persist_faulty env (psu_path env) (durable_id, alert_type)) (ret [m]))))"

definition psu_fault :: "fru_env \<Rightarrow> bool \<Rightarrow> pyv \<Rightarrow> string \<Rightarrow> string \<Rightarrow> pyv \<Rightarrow> (fru_state, pyv list) proc" where
  "psu_fault env send_message psu durable_id psu_health health_reason =
     bindp (liftp (check_if_psu_not_installed health_reason)) (\<lambda>gone.
     let alert_type = (if gone then ''missing'' else ''fault'') in
     bindp (known_faulty durable_id) (\<lambda>known.
     bindp (if known then bindp (remembered_type durable_id) (\<lambda>t. ret (py_eq t (PStr alert_type))) else ret False) (\<lambda>same.
       if \<not> same then psu_raise env send_message psu durable_id psu_health alert_type else ret [])))"

definition psu_degraded :: "fru_env \<Rightarrow> bool \<Rightarrow> pyv \<Rightarrow> string \<Rightarrow> string \<Rightarrow> (fru_state, pyv list) proc" where
  "psu_degraded env send_message psu durable_id psu_health =
     bindp (known_faulty durable_id) (\<lambda>known.
       if \<not> known then psu_raise env send_message psu durable_id psu_health ''fault'' else ret [])"

definition psu_ok :: "fru_env \<Rightarrow> bool \<Rightarrow> pyv \<Rightarrow> string \<Rightarrow> (fru_state, pyv list) proc" where
  "psu_ok env send_message psu durable_id =
     bindp (known_faulty durable_id) (\<lambda>known.
       if \<not> known then ret []
       else
         bindp (if send_message then
                  bindp (remembered_type durable_id) (\<lambda>prev.
                  let alert_type = (if py_eq prev (PStr ''missing'') then ''insertion'' else ''fault_resolved'') in
                  bindp (psu_create_internal_msg env psu alert_type) (\<lambda>m.
                  seqp (psu_send_json_msg m) (ret (alert_type, [m]))))
                else ret ([], [])) (\<lambda>(alert_type, ms).
         seqp (del_faulty durable_id)
         (seqp (persist_faulty env (psu_path env) (durable_id, alert_type)) (ret ms))))"

definition psu_one :: "fru_env \<Rightarrow> bool \<Rightarrow> pyv \<Rightarrow> (fru_state, pyv list) proc" where
  "psu_one env send_message psu =
     bindp (liftp (bindr (getitem psu ''health'') lower_method)) (\<lambda>psu_health.
     bindp (liftp (bindr (getitem psu ''durable-id'') key_text)) (\<lambda>durable_id.
     bindp (liftp (getitem psu ''health-reason'')) (\<lambda>psu_health_reason.
       if psu_health = HEALTH_FAULT then psu_fault env send_message psu durable_id psu_health psu_health_reason
       else if psu_health = HEALTH_DEGRADED then psu_degraded env send_message psu durable_id psu_health
       else if psu_health = HEALTH_OK then psu_ok env send_message psu durable_id
       else ret [])))"

primrec psu_loop :: "fru_env \<Rightarrow> bool \<Rightarrow> pyv list \<Rightarrow> (fru_state, pyv list) proc" where
  "psu_loop env send_message [] = ret []"
| "psu_loop env send_message (psu # psus) = bindp (psu_one env send_message psu) (\<lambda>ms.
     bindp (psu_loop env send_message psus) (\<lambda>ms'. ret (ms @ ms')))"

definition get_msgs_for_faulty_psus :: "fru_env \<Rightarrow> pyv \<Rightarrow> bool \<Rightarrow> (fru_state, pyv) proc" where
  "get_msgs_for_faulty_psus env psus send_message =
     (if \<not> truthy psus then ret PNone
      else bindp (liftp (iter_list psus)) (\<lambda>xs. bindp (psu_loop env send_message xs) (\<lambda>ms. ret (PList ms))))"

definition psu_run :: "fru_env \<Rightarrow> (fru_state, unit) proc" where
  "psu_run env = bindp (getp fr_suspended) (\<lambda>suspended.
     if suspended then enter 10
     else
       seqp (read_debug_msg env ''RealStorPSUSensor'')
       (bindp (get_psus env) (\<lambda>psus.
        seqp (if truthy psus then bindp (get_msgs_for_faulty_psus env psus True) (\<lambda>_. ret ()) else ret ())
        (seqp reset_debug (enter (poll_frequency env))))))"

section \<open>The specification\<close>

text \<open>
  What one observation of a power supply should raise, given its health, whether it is reported
  as not installed and the alert outstanding for it.
\<close>

definition psu_spec :: "string \<Rightarrow> bool \<Rightarrow> string option \<Rightarrow> string option" where
  "psu_spec health gone p =
     (if health = ''fault'' then
        (let a = (if gone then ''missing'' else ''fault'') in if p = Some a then None else Some a)
      else if health = ''degraded'' then (if p = None then Some ''fault'' else None)
      else if health = ''ok'' then
        (case p of None \<Rightarrow> None | Some t \<Rightarrow> Some (if t = ''missing'' then ''insertion'' else ''fault_resolved''))
      else None)"

definition psu_observe :: "fru_env \<Rightarrow> string \<times> string \<times> bool \<Rightarrow> fru_abs \<Rightarrow> fru_abs" where
  "psu_observe env = (\<lambda>(k, health, gone) t. observe env k (psu_spec health gone (fst t k)) t)"

fun psu_entry :: "pyv \<Rightarrow> string option" where
  "psu_entry (PDict e) = (case map_of e ''alert_type'' of Some (PStr t) \<Rightarrow> Some t | _ \<Rightarrow> None)"
| "psu_entry _ = None"

abbreviation psu_inv :: "fru_env \<Rightarrow> fru_state \<Rightarrow> bool" where
  "psu_inv env \<equiv> fru_inv psu_entry (psu_path env)"

definition psu_abs :: "fru_state \<Rightarrow> fru_abs" where
  "psu_abs s = (outstanding psu_entry s, fr_confirmed s, fr_waits s)"

text \<open>A power supply as the web service reports it: text fields and no byte strings.\<close>

definition psu_report :: "pyv \<Rightarrow> string \<Rightarrow> string \<Rightarrow> string \<Rightarrow> bool" where
  "psu_report psu k health reason \<longleftrightarrow> (\<exists>d h. psu = PDict d \<and> json_able psu \<and>
     map_of d ''health'' = Some (PStr h) \<and> lower h = health \<and>
     map_of d ''durable-id'' = Some (PStr k) \<and> map_of d ''health-reason'' = Some (PStr reason))"

lemma psu_spec_next: "psu_spec h gone p = Some a \<Longrightarrow> \<exists>p'. next_alert p a = Some p'"
  by (auto simp: psu_spec_def next_alert_def Let_def split: if_splits option.splits)

lemma psu_specific_info_ok:
  assumes "json_able (PDict d)"
  shows "\<exists>v. psu_specific_info (PDict d) = Inr v \<and> json_able v"
proof -
  let ?f = "\<lambda>(k, src). bindr (get_key (PDict d) src) (\<lambda>v. Inr (k, if v = PStr [] then PStr ''N/A'' else v))"
  have "\<exists>xs. seq_res (map ?f ps) = Inr xs \<and> (\<forall>p \<in> set xs. json_able (snd p))" for ps
  proof (induction ps)
    case (Cons p ps)
    then show ?case
      using json_able_get_key [OF assms, of "snd p"] by (cases p) fastforce
  qed simp
  then obtain xs where "seq_res (map ?f psu_specific_keys) = Inr xs" "\<forall>p \<in> set xs. json_able (snd p)"
    by blast
  then show ?thesis by (simp add: psu_specific_info_def del: get_key_PDict)
qed

lemma psu_create_run:
  assumes "fru_ok path f s" and "json_able (PDict d)" and "d \<noteq> []" and "get_fqdn env = Inr h"
    and "map_severity a = Inr sev"
  shows "\<exists>t s'. psu_create_internal_msg env (PDict d) a s = (Inr (PStr t), s') \<and> t \<noteq> [] \<and> quiet s s'"
proof -
  obtain p s' where fr: "fresh_alert env s = (Inr p, s')" "rssencl s' = rssencl s" "quiet s s'"
    using fresh_alert_run by blast
  obtain fru where fru: "is_storage_fru ''POWER_SUPPLY'' (rssencl s) = Inr fru"
    using is_storage_fru_ok [OF assms(1)] by blast
  obtain r where r: "get_key (PDict d) ''durable-id'' = Inr r" "json_able r"
    using json_able_get_key [OF assms(2)] by blast
  obtain sp where sp: "psu_specific_info (PDict d) = Inr sp" "json_able sp"
    using psu_specific_info_ok [OF assms(2)] by blast
  let ?m = "enclosure_alert [(''status'', PStr ''update''), (''host_id'', psu_hostname env), (''alert_type'', PStr a),
      (''severity'', PStr sev), (''alert_id'', PStr (snd p)), (''info'', alert_info ''enclosure:hw:psu'' fru r (fst p)),
      (''specific_info'', sp)]"
  have "json_able ?m"
    using r sp assms(4) by (simp add: enclosure_alert_def alert_info_def psu_hostname_def)
  then obtain t where t: "json_dumps ?m = Inr t" "t \<noteq> []"
    using json_dumps_dict by (metis enclosure_alert_def)
  show ?thesis
    using assms(3,5) fr fru r(1) sp(1) t
    by (auto simp: psu_create_internal_msg_def py_exec split: prod.splits simp del: get_key_PDict json_dumps.simps)
qed

text \<open>Sending a built message and persisting, from a state whose dictionary was changed in memory.\<close>

lemma psu_send_persist:
  assumes "fru_ok path f s" and "t \<noteq> []"
  shows "\<exists>s'. seqp (psu_send_json_msg (PStr t)) (seqp (persist_faulty env path a) (ret x)) s = (Inr x, s') \<and>
    fru_ok path (fr_faulty s') s' \<and>
    (if ev_wait env (fr_waits s) then fr_faulty s' = fr_faulty s \<and> fr_confirmed s' = fr_confirmed s @ [a]
     else fr_faulty s' = f \<and> fr_confirmed s' = fr_confirmed s) \<and> fr_waits s' = fr_waits s + 1"
proof -
  obtain s1 where s1: "send_to_handler (PStr t) s = (Inr (), s1)" "quiet s s1"
    using send_to_handler_run [OF assms(1)] by blast
  then have "fru_ok path f s1" using assms(1) by (simp add: quiet_def)
  from persist_faulty_run [OF this, of env a] s1 assms(2) show ?thesis
    by (auto simp: psu_send_json_msg_def py_exec quiet_def split: if_splits)
qed

lemma psu_raise_run:
  assumes "psu_inv env s" and "fr_faulty s = PDict m" and "json_able (PDict d)" and "d \<noteq> []"
    and "get_fqdn env = Inr h" and "a \<in> {''fault'', ''missing''}"
  shows "\<exists>ms s'. psu_raise env True (PDict d) k health a s = (Inr ms, s') \<and> psu_inv env s' \<and>
    psu_abs s' = (if ev_wait env (fr_waits s)
      then ((outstanding psu_entry s)(k := Some a), fr_confirmed s @ [(k, a)], fr_waits s + 1)
      else (outstanding psu_entry s, fr_confirmed s, fr_waits s + 1))"
proof -
  let ?e = "PDict [(''health'', PStr health), (''alert_type'', PStr a)]"
  let ?s1 = "s\<lparr>fr_faulty := PDict (AList.update k ?e m)\<rparr>"
  have ok: "fru_ok (psu_path env) (PDict m) ?s1"
    using assms(1,2) by (simp add: fru_inv_def fru_ok_def)
  obtain sev where "map_severity a = Inr sev"
    using assms(6) by (auto simp: map_severity_def ALERT_TO_SEVERITY_MAPPING_def)
  from psu_create_run [OF ok assms(3-5) this] obtain t s2
    where s2: "psu_create_internal_msg env (PDict d) a ?s1 = (Inr (PStr t), s2)" "t \<noteq> []" "quiet ?s1 s2" by blast
  with ok have "fru_ok (psu_path env) (PDict m) s2" by (simp add: quiet_def)
  from psu_send_persist [OF this s2(2), of env "(k, a)" "[PStr t]"] obtain s3
    where s3: "seqp (psu_send_json_msg (PStr t)) (seqp (persist_faulty env (psu_path env) (k, a)) (ret [PStr t])) s2 = (Inr [PStr t], s3)"
      "fru_ok (psu_path env) (fr_faulty s3) s3"
      "if ev_wait env (fr_waits s) then fr_faulty s3 = PDict (AList.update k ?e m) \<and> fr_confirmed s3 = fr_confirmed s @ [(k, a)]
       else fr_faulty s3 = PDict m \<and> fr_confirmed s3 = fr_confirmed s"
      "fr_waits s3 = fr_waits s + 1"
    using s2(3) by (auto simp: quiet_def)
  have run: "psu_raise env True (PDict d) k health a s = (Inr [PStr t], s3)"
    using assms(2) s2(1) s3(1) by (simp add: psu_raise_def set_faulty_def bindp_def seqp_def getp_def liftp_def modp_def)
  have "psu_inv env s3"
    using s3(2,3) assms(1,2) by (auto simp: fru_inv_def split: if_splits)
  moreover have "psu_abs s3 = (if ev_wait env (fr_waits s)
      then ((outstanding psu_entry s)(k := Some a), fr_confirmed s @ [(k, a)], fr_waits s + 1)
      else (outstanding psu_entry s, fr_confirmed s, fr_waits s + 1))"
    using s3(3,4) assms(2) by (auto simp: psu_abs_def outstanding_def fun_eq_iff split: if_splits)
  ultimately show ?thesis using run by blast
qed

lemma psu_ok_run:
  assumes "psu_inv env s" and "fr_faulty s = PDict m" and "map_of m k = Some e"
    and "json_able (PDict d)" and "d \<noteq> []" and "get_fqdn env = Inr h"
  defines "a \<equiv> if psu_entry e = Some ''missing'' then ''insertion'' else ''fault_resolved''"
  shows "\<exists>ms s'. psu_ok env True (PDict d) k s = (Inr ms, s') \<and> psu_inv env s' \<and>
    psu_abs s' = (if ev_wait env (fr_waits s)
      then ((outstanding psu_entry s)(k := None), fr_confirmed s @ [(k, a)], fr_waits s + 1)
      else (outstanding psu_entry s, fr_confirmed s, fr_waits s + 1))"
proof -
  obtain t0 where e: "psu_entry e = Some t0" "getitem e ''alert_type'' = Inr (PStr t0)"
    using assms(1-3) by (cases e) (fastforce simp: fru_inv_def split: option.splits pyv.splits)+
  have ok: "fru_ok (psu_path env) (PDict m) s"
    using assms(1,2) by (simp add: fru_inv_def)
  obtain sev where "map_severity a = Inr sev"
    by (auto simp: a_def map_severity_def ALERT_TO_SEVERITY_MAPPING_def)
  from psu_create_run [OF ok assms(4-6) this] obtain t s2
    where s2: "psu_create_internal_msg env (PDict d) a s = (Inr (PStr t), s2)" "t \<noteq> []" "quiet s s2" by blast
  with ok have "fru_ok (psu_path env) (PDict m) s2" by (simp add: quiet_def)
  from send_to_handler_run [OF this, of "PStr t"] obtain s3
    where s3: "send_to_handler (PStr t) s2 = (Inr (), s3)" "quiet s s3"
    using s2(3) quiet_trans by blast
  let ?s4 = "s3\<lparr>fr_faulty := PDict (AList.delete k m)\<rparr>"
  have "fru_ok (psu_path env) (PDict m) ?s4"
    using quiet_ok [OF s3(2) ok] by simp
  from persist_faulty_run [OF this, of env "(k, a)"] s3(2) obtain s5
    where s5: "persist_faulty env (psu_path env) (k, a) ?s4 = (Inr (), s5)" "fru_ok (psu_path env) (fr_faulty s5) s5"
      "if ev_wait env (fr_waits s) then fr_faulty s5 = PDict (AList.delete k m) \<and> fr_confirmed s5 = fr_confirmed s @ [(k, a)]
       else fr_faulty s5 = PDict m \<and> fr_confirmed s5 = fr_confirmed s" "fr_waits s5 = fr_waits s + 1"
    by (auto simp: quiet_def)
  have faulty3: "fr_faulty s3 = PDict m" using s3(2) assms(2) by (simp add: quiet_def)
  have "k \<in> fst ` set m" using assms(3) by (metis map_of_eq_None_iff option.distinct(1))
  moreover have "(if py_eq (PStr t0) (PStr ''missing'') then ''insertion'' else ''fault_resolved'') = a"
    using e(1) by (simp add: a_def)
  ultimately have run: "psu_ok env True (PDict d) k s = (Inr [PStr t], s5)"
    using assms(2,3) e(2) s2(1,2) s3(1) s5(1) faulty3 known_faulty_run [OF assms(2), of k]
    by (simp add: psu_ok_def del_faulty_def remembered_type_def psu_send_json_msg_def bindp_def seqp_def getp_def
        liftp_def modp_def ret_def Let_def)
  have "psu_inv env s5"
    using s5(2,3) assms(1,2) by (auto simp: fru_inv_def split: if_splits)
  moreover have "psu_abs s5 = (if ev_wait env (fr_waits s)
      then ((outstanding psu_entry s)(k := None), fr_confirmed s @ [(k, a)], fr_waits s + 1)
      else (outstanding psu_entry s, fr_confirmed s, fr_waits s + 1))"
    using s5(3,4) assms(2) by (auto simp: psu_abs_def outstanding_def fun_eq_iff split: if_splits)
  ultimately show ?thesis using run by blast
qed

lemma psu_abs_unchanged: "observe env k None (psu_abs s) = psu_abs s"
  by (simp add: observe_by_def psu_abs_def)

lemma psu_entry_read:
  assumes "psu_inv env s" and "fr_faulty s = PDict m" and "map_of m k = Some e"
  shows "\<exists>t. psu_entry e = Some t \<and> getitem e ''alert_type'' = Inr (PStr t)"
  using assms by (cases e) (fastforce simp: fru_inv_def split: option.splits pyv.splits)+

text \<open>What raising an alert for \<open>k\<close> makes of the abstract state.\<close>

lemma observe_raised:
  "next_alert (outstanding psu_entry s k) a = Some p \<Longrightarrow>
    observe env k (Some a) (psu_abs s) =
     (if ev_wait env (fr_waits s) then ((outstanding psu_entry s)(k := p), fr_confirmed s @ [(k, a)], fr_waits s + 1)
      else (outstanding psu_entry s, fr_confirmed s, fr_waits s + 1))"
  by (simp add: observe_by_def psu_abs_def)

lemma psu_fault_run:
  assumes inv: "psu_inv env s" and d: "json_able (PDict d)" "d \<noteq> []" and fq: "get_fqdn env = Inr host"
  shows "\<exists>ms s'. psu_fault env True (PDict d) k ''fault'' (PStr reason) s = (Inr ms, s') \<and> psu_inv env s' \<and>
    psu_abs s' = psu_observe env (k, ''fault'', contains ''not installed'' reason) (psu_abs s)"
proof -
  let ?a = "if contains ''not installed'' reason then ''missing'' else ''fault''"
  obtain m where m: "fr_faulty s = PDict m" using inv by (auto simp: fru_inv_def)
  have out: "outstanding psu_entry s k = Option.bind (map_of m k) psu_entry" by (simp add: outstanding_def m)
  have run: "psu_fault env True (PDict d) k ''fault'' (PStr reason) s =
      (if outstanding psu_entry s k = Some ?a then ret [] s else psu_raise env True (PDict d) k ''fault'' ?a s)"
    using psu_entry_read [OF inv m, of k] known_faulty_run [OF m, of k] out m
    by (cases "map_of m k") (auto simp: psu_fault_def py_exec remembered_type_def Let_def)
  show ?thesis
  proof (cases "outstanding psu_entry s k = Some ?a")
    case True
    with run inv show ?thesis
      by (auto simp: ret_def psu_observe_def psu_spec_def psu_abs_def observe_by_def)
  next
    case False
    then have "next_alert (outstanding psu_entry s k) ?a = Some (Some ?a)" by (simp add: next_alert_def)
    from observe_raised [OF this, of env] False run
      psu_raise_run [OF inv m d fq, where a = ?a and k = k and health = "''fault''"]
    show ?thesis by (auto simp: psu_observe_def psu_spec_def psu_abs_def Let_def)
  qed
qed

lemma psu_degraded_run:
  assumes inv: "psu_inv env s" and d: "json_able (PDict d)" "d \<noteq> []" and fq: "get_fqdn env = Inr host"
  shows "\<exists>ms s'. psu_degraded env True (PDict d) k ''degraded'' s = (Inr ms, s') \<and> psu_inv env s' \<and>
    psu_abs s' = psu_observe env (k, ''degraded'', gone) (psu_abs s)"
proof -
  obtain m where m: "fr_faulty s = PDict m" using inv by (auto simp: fru_inv_def)
  have out: "outstanding psu_entry s k = Option.bind (map_of m k) psu_entry" by (simp add: outstanding_def m)
  show ?thesis
  proof (cases "map_of m k")
    case None
    then have "next_alert (outstanding psu_entry s k) ''fault'' = Some (Some ''fault'')"
      by (simp add: out next_alert_def)
    from observe_raised [OF this, of env] None out known_faulty_run [OF m, of k]
      psu_raise_run [OF inv m d fq, where a = "''fault''" and k = k and health = "''degraded''"]
    show ?thesis by (auto simp: psu_degraded_def py_exec psu_observe_def psu_spec_def psu_abs_def)
  next
    case (Some e)
    with inv psu_entry_read [OF inv m Some] out known_faulty_run [OF m, of k] show ?thesis
      by (auto simp: psu_degraded_def py_exec psu_observe_def psu_spec_def psu_abs_def observe_by_def)
  qed
qed

lemma psu_healthy_run:
  assumes inv: "psu_inv env s" and d: "json_able (PDict d)" "d \<noteq> []" and fq: "get_fqdn env = Inr host"
  shows "\<exists>ms s'. psu_ok env True (PDict d) k s = (Inr ms, s') \<and> psu_inv env s' \<and>
    psu_abs s' = psu_observe env (k, ''ok'', gone) (psu_abs s)"
proof -
  obtain m where m: "fr_faulty s = PDict m" using inv by (auto simp: fru_inv_def)
  have out: "outstanding psu_entry s k = Option.bind (map_of m k) psu_entry" by (simp add: outstanding_def m)
  show ?thesis
  proof (cases "map_of m k")
    case None
    with inv out known_faulty_run [OF m, of k] show ?thesis
      by (auto simp: psu_ok_def py_exec psu_observe_def psu_spec_def psu_abs_def observe_by_def)
  next
    case (Some e)
    then obtain t where t: "outstanding psu_entry s k = Some t" "psu_entry e = Some t"
      using psu_entry_read [OF inv m] out by fastforce
    then have "next_alert (outstanding psu_entry s k)
        (if psu_entry e = Some ''missing'' then ''insertion'' else ''fault_resolved'') = Some None"
      by (simp add: next_alert_def)
    from observe_raised [OF this, of env] t psu_ok_run [OF inv m Some d fq]
    show ?thesis by (auto simp: psu_observe_def psu_spec_def psu_abs_def)
  qed
qed

lemma psu_one_run:
  assumes inv: "psu_inv env s" and rep: "psu_report psu k health reason" and fq: "get_fqdn env = Inr host"
  shows "\<exists>ms s'. psu_one env True psu s = (Inr ms, s') \<and> psu_inv env s' \<and>
    psu_abs s' = psu_observe env (k, health, contains ''not installed'' reason) (psu_abs s)"
proof -
  obtain d h where d: "psu = PDict d" "json_able (PDict d)" "map_of d ''health'' = Some (PStr h)" "lower h = health"
      "map_of d ''durable-id'' = Some (PStr k)" "map_of d ''health-reason'' = Some (PStr reason)"
    using rep by (auto simp: psu_report_def)
  then have ne: "d \<noteq> []" by auto
  have one: "psu_one env True psu s =
      (if health = ''fault'' then psu_fault env True (PDict d) k ''fault'' (PStr reason)
       else if health = ''degraded'' then psu_degraded env True (PDict d) k ''degraded''
       else if health = ''ok'' then psu_ok env True (PDict d) k else ret []) s"
    using d by (auto simp: psu_one_def py_exec HEALTH_FAULT_def HEALTH_DEGRADED_def HEALTH_OK_def)
  show ?thesis
    using one inv psu_fault_run [OF inv d(2) ne fq] psu_degraded_run [OF inv d(2) ne fq] psu_healthy_run [OF inv d(2) ne fq]
    by (auto simp: ret_def psu_observe_def psu_spec_def psu_abs_unchanged)
qed

lemma psu_loop_run:
  assumes "psu_inv env s" and "get_fqdn env = Inr host"
    and "list_all2 (\<lambda>psu (k, health, gone). \<exists>reason. psu_report psu k health reason \<and> gone = contains ''not installed'' reason) psus obs"
  shows "\<exists>ms s'. psu_loop env True psus s = (Inr ms, s') \<and> psu_inv env s' \<and>
    psu_abs s' = fold (psu_observe env) obs (psu_abs s)"
  using assms(3,1)
proof (induction psus obs arbitrary: s rule: list_all2_induct)
  case Nil
  then show ?case by (simp add: ret_def)
next
  case (Cons psu psus o' obs)
  then obtain k health reason where o': "o' = (k, health, contains ''not installed'' reason)" "psu_report psu k health reason"
    by (cases o') auto
  from psu_one_run [OF Cons.prems o'(2) assms(2)] obtain ms s1 where
    s1: "psu_one env True psu s = (Inr ms, s1)" "psu_inv env s1" "psu_abs s1 = psu_observe env o' (psu_abs s)"
    using o' by auto
  from Cons.IH [OF s1(2)] s1 show ?case by (auto simp: bindp_def ret_def)
qed

section \<open>Steps\<close>

text \<open>
  What may happen to the sensor: it looks at one reported power supply, the daemon is restarted
  (the memory is lost and read back), or something happens that concerns neither its cache nor its
  alerts, such as a request to the web service or the handler taking a message.
\<close>

inductive psu_step :: "fru_env \<Rightarrow> fru_state \<Rightarrow> fru_state \<Rightarrow> bool" for env where
  psu_poll: "psu_report psu k health reason \<Longrightarrow> get_fqdn env = Inr host \<Longrightarrow>
    psu_one env True psu s = (Inr ms, s') \<Longrightarrow> psu_step env s s'"
| psu_restart: "psu_initialize env (s\<lparr>fr_faulty := PDict []\<rparr>) = (Inr b, s') \<Longrightarrow> psu_step env s s'"
| psu_other: "quiet s s' \<Longrightarrow> psu_step env s s'"

lemma psu_restart_run:
  "psu_inv env s \<Longrightarrow> psu_initialize env (s\<lparr>fr_faulty := PDict []\<rparr>) = (Inr True, s\<lparr>fr_schedule := fr_schedule s @ [1]\<rparr>)"
  by (simp add: psu_initialize_def enter_def py_exec load_faulty_restart)

lemma psu_step_sound:
  assumes "psu_step env s s'" and "psu_inv env s"
  shows "psu_inv env s' \<and>
    track_step next_alert (outstanding psu_entry s) (fr_confirmed s) (outstanding psu_entry s') (fr_confirmed s')"
  using assms
proof (cases rule: psu_step.cases)
  case (psu_poll psu k health reason host ms)
  from psu_one_run [OF assms(2) psu_poll(1,2)] psu_poll(3)
  have "psu_inv env s'" "psu_abs s' = psu_observe env (k, health, contains ''not installed'' reason) (psu_abs s)" by auto
  then show ?thesis
    by (auto simp: psu_observe_def psu_abs_def intro: observe_track [OF sym] psu_spec_next)
next
  case (psu_restart b)
  with psu_restart_run [OF assms(2)] assms(2) show ?thesis
    by (auto simp: track_step_def outstanding_def fru_inv_def fru_ok_def)
next
  case psu_other
  with assms(2) show ?thesis
    by (auto simp: track_step_def outstanding_def fru_inv_def quiet_def fun_eq_iff)
qed

interpretation psu: alert_history next_alert "psu_inv env" "psu_step env" "outstanding psu_entry" fr_confirmed for env
  by unfold_locales (auto dest: psu_step_sound)

section \<open>A concrete poll\<close>

definition demo_psu :: "string \<Rightarrow> string \<Rightarrow> pyv" where
  "demo_psu k health = PDict [(''durable-id'', PStr k), (''health'', PStr health), (''health-reason'', PStr ''Power loss.'')]"

lemma demo_psu_report: "psu_report (demo_psu k health) k (lower health) ''Power loss.''"
  by (simp add: psu_report_def demo_psu_def)

lemma demo_psu_start:
  "\<exists>s. psu_inv demo_fru_env s \<and> fr_faulty s = PDict [] \<and> fr_confirmed s = [] \<and> fr_waits s = 0"
proof -
  have "fru_ok (psu_path demo_fru_env) PNone demo_fru"
    by (rule demo_fru_ok) code_simp
  from load_faulty_fresh [OF this, of psu_entry] show ?thesis
    by (auto simp: demo_fru_def)
qed

lemma demo_lower: "lower ''Fault'' = ''fault''" "contains ''not installed'' ''Power loss.'' = False"
  by code_simp+

section \<open>Properties\<close>

text \<open>
  C3. A poll of the power supplies refines its specification: for any list of reported power
  supplies the loop returns normally, keeps memory and store in agreement, and what it leaves
  outstanding and confirmed is what the specification gives for the same observations in the same
  order, whichever of the alerts are acknowledged in time.\<close>

theorem psu_poll_refines:
  assumes "psu_inv env s" and "get_fqdn env = Inr host" and "psus \<noteq> []"
    and "list_all2 (\<lambda>psu (k, health, gone). \<exists>reason. psu_report psu k health reason \<and>
      gone = contains ''not installed'' reason) psus obs"
  shows "\<exists>ms s'. get_msgs_for_faulty_psus env (PList psus) True s = (Inr (PList ms), s') \<and> psu_inv env s' \<and>
    psu_abs s' = fold (psu_observe env) obs (psu_abs s)"
  using psu_loop_run [OF assms(1,2,4)] assms(3)
  by (auto simp: get_msgs_for_faulty_psus_def py_exec)

theorem psu_poll_refines_witness:
  "\<exists>s ms s'. get_msgs_for_faulty_psus demo_fru_env (PList [demo_psu ''psu_0'' ''Fault'', demo_psu ''psu_1'' ''Fault'']) True s =
      (Inr (PList ms), s') \<and> fr_confirmed s' = [(''psu_0'', ''fault'')] \<and> fr_waits s' = 2"
proof -
  obtain s where s: "psu_inv demo_fru_env s" "fr_faulty s = PDict []" "fr_confirmed s = []" "fr_waits s = 0"
    using demo_psu_start by blast
  have "get_fqdn demo_fru_env = Inr ''node1''" by (simp add: demo_fru_env_def)
  from psu_poll_refines [OF s(1) this, of "[demo_psu ''psu_0'' ''Fault'', demo_psu ''psu_1'' ''Fault'']"
      "[(''psu_0'', ''fault'', False), (''psu_1'', ''fault'', False)]"]
    demo_psu_report [of _ "''Fault''"]
  show ?thesis
    using s(2-4) demo_lower
    by (fastforce simp: psu_abs_def psu_observe_def psu_spec_def observe_by_def outstanding_def demo_fru_env_def Let_def
        next_alert_def)
qed

text \<open>
  C4. Through any sequence of polls, timeouts and restarts the confirmed alerts of each power
  supply form a proper history: a fault or missing alert only when it is not the outstanding one, a
  fault_resolved or insertion only as the answer to an outstanding fault or missing alert; and the
  alert outstanding at the end is the one the sensor remembers.\<close>

theorem psu_alert_history:
  assumes "psu_inv env s" and "fr_faulty s = PDict []" and "fr_confirmed s = []" and "(psu_step env)\<^sup>*\<^sup>* s s'"
  shows "replay None (fru_alerts k (fr_confirmed s')) = Some (outstanding psu_entry s' k)"
proof -
  have "psu.faithful s" using assms(2,3) by (simp add: psu.faithful_def fru_alerts_def outstanding_def)
  with psu.steps_faithful [OF assms(4,1)] show ?thesis by (simp add: psu.faithful_def)
qed

theorem psu_alert_history_witness:
  "\<exists>s s'. (psu_step demo_fru_env)\<^sup>*\<^sup>* s s' \<and> fru_alerts ''psu_0'' (fr_confirmed s') = [''fault''] \<and>
     replay None (fru_alerts ''psu_0'' (fr_confirmed s')) = Some (outstanding psu_entry s' ''psu_0'')"
proof -
  obtain s where s: "psu_inv demo_fru_env s" "fr_faulty s = PDict []" "fr_confirmed s = []" "fr_waits s = 0"
    using demo_psu_start by blast
  have fq: "get_fqdn demo_fru_env = Inr ''node1''" by (simp add: demo_fru_env_def)
  from psu_one_run [OF s(1) demo_psu_report fq, of "''psu_0''" "''Fault''"] obtain ms s' where
    s': "psu_one demo_fru_env True (demo_psu ''psu_0'' ''Fault'') s = (Inr ms, s')"
      "psu_abs s' = psu_observe demo_fru_env (''psu_0'', ''fault'', False) (psu_abs s)"
    using demo_lower by auto
  then have "(psu_step demo_fru_env)\<^sup>*\<^sup>* s s'"
    using psu_step.psu_poll [OF demo_psu_report fq] by blast
  moreover have "fru_alerts ''psu_0'' (fr_confirmed s') = [''fault'']"
    using s' s by (simp add: psu_abs_def psu_observe_def psu_spec_def observe_by_def outstanding_def demo_fru_env_def Let_def
        fru_alerts_def)
  ultimately show ?thesis
    using psu_alert_history [OF s(1-3), of s' "''psu_0''"] by blast
qed

end
