(* ===== verification/Realstor_Fan.thy ===== *)
theory Realstor_Fan
  imports Realstor_Fru
begin

text \<open>
  \<^verbatim>\<open>sensors/impl/platforms/realstor/realstor_fan_sensor.py\<close>: the sensor of the fan modules. Its
  dictionary maps the durable id in lower case to the alert type. An exception ends the loop over
  the modules and is only logged.
\<close>

section \<open>The sensor\<close>

definition fan_path :: "fru_env \<Rightarrow> string" where
  "fan_path env = path_join (path_join (frus (cli env)) ''fanmodules'') ''fanmodule_data.json''"

definition fan_initialize :: "fru_env \<Rightarrow> (fru_state, bool) proc" where
  "fan_initialize env = seqp (enter 1) (seqp (load_faulty (fan_path env)) (ret True))"

definition get_fan_modules_list :: "fru_env \<Rightarrow> (fru_state, pyv) proc" where
  "get_fan_modules_list env = request_data env ''/show/fan-modules'' (\<lambda>data. getitem data ''fan-modules'')"

text \<open>Despite its name it tells whether the reason says \<^verbatim>\<open>not installed\<close>.\<close>

definition check_if_fan_module_is_installed :: "string \<Rightarrow> bool" where
  "check_if_fan_module_is_installed health_reason = contains ''not installed'' health_reason"

definition fan_attribute_list :: "string list" where
  "fan_attribute_list = [''status'', ''name'', ''speed'', ''durable-id'', ''health'', ''fw-revision'', ''health-reason'',
     ''serial-number'', ''location'', ''position'', ''part-number'', ''health-recommendation'', ''hw-revision'', ''locator-led'']"

primrec copy_attributes :: "pyv \<Rightarrow> pyv list \<Rightarrow> pydict \<Rightarrow> pydict res" where
  "copy_attributes fan [] fans = Inr fans"
| "copy_attributes fan (k # ks) fans = (case k of
     PStr key \<Rightarrow> if key \<in> set fan_attribute_list
       then bindr (get_key fan key) (\<lambda>v. copy_attributes fan ks (AList.update key v fans))
       else copy_attributes fan ks fans
   | _ \<Rightarrow> copy_attributes fan ks fans)"

primrec collect_fans :: "pyv list \<Rightarrow> pydict \<Rightarrow> pydict res" where
  "collect_fans [] fans = Inr fans"
| "collect_fans (fan # fs) fans = bindr (iter_list fan) (\<lambda>ks. bindr (copy_attributes fan ks fans) (collect_fans fs))"

text \<open>
  \<^verbatim>\<open>_get_fan_attributes\<close>: one dictionary \<^verbatim>\<open>fans\<close> is filled again for each fan and appended each time,
  so the list holds the same object, with its last contents, once per fan.
\<close>

definition get_fan_attributes :: "pyv \<Rightarrow> pyv res" where
  "get_fan_attributes fan_module =
     bindr (get_default fan_module ''fan'' (PList [])) (\<lambda>fru_fans.
     bindr (iter_list fru_fans) (\<lambda>fs.
     bindr (collect_fans fs []) (\<lambda>fans. Inr (PList (replicate (length fs) (PDict fans))))))"

definition fan_module_info_key_list :: "string list" where
  "fan_module_info_key_list = [''name'', ''location'', ''status'', ''health'', ''health-reason'', ''health-recommendation'',
     ''enclosure-id'', ''durable-id'', ''position'']"

fun select_items :: "string list \<Rightarrow> pyv \<Rightarrow> pydict res" where
  "select_items ks (PDict d) = Inr (filter (\<lambda>p. fst p \<in> set ks) d)"
| "select_items ks _ = Inl AttributeError"

definition fan_create_internal_json_msg :: "fru_env \<Rightarrow> pyv \<Rightarrow> string \<Rightarrow> (fru_state, pyv) proc" where
  "fan_create_internal_json_msg env fan_module alert_type =
     bindp (liftp (get_fan_attributes fan_module)) (\<lambda>fans_list.
     bindp (liftp (select_items fan_module_info_key_list fan_module)) (\<lambda>items.
     let fan_module_info = PDict (AList.update ''fans'' fans_list items) in
     bindp (liftp (map_severity alert_type)) (\<lambda>severity.
     bindp (fresh_alert env) (\<lambda>(epoch_time, alert_id).
     bindp (getp rssencl) (\<lambda>e.
     bindp (liftp (is_storage_fru ''FAN MODULE'' e)) (\<lambda>fru.
     bindp (liftp (get_default fan_module_info ''name'' (PStr []))) (\<lambda>resource_id.
     bindp (liftp (get_fqdn env)) (\<lambda>host_name.
     bindp (liftp (json_dumps (enclosure_alert
       [(''status'', PStr ''update''), (''host_id'', PStr host_name), (''alert_type'', PStr alert_type),
        (''severity'', PStr severity), (''alert_id'', PStr alert_id),
        (''info'', alert_info ''enclosure:hw:fan'' fru resource_id epoch_time),
        (''specific_info'', fan_module_info)]))) (\<lambda>text. ret (PStr text))))))))))"

definition fan_alert_sent :: "fru_env \<Rightarrow> pyv \<Rightarrow> string \<Rightarrow> string \<Rightarrow> (fru_state, unit) proc" where
  "fan_alert_sent env fan_module durable_id alert_type =
     bindp (fan_create_internal_json_msg env fan_module alert_type) (\<lambda>m.
     seqp (send_to_handler m) (persist_faulty env (fan_path env) (durable_id, alert_type)))"

text \<open>
  The two branches that remember an alert type: the alert is raised unless it is the remembered
  one.
\<close>

definition fan_remember :: "string \<Rightarrow> string \<Rightarrow> (fru_state, string option) proc" where
  "fan_remember durable_id alert_type =
     bindp (known_faulty durable_id) (\<lambda>known.
       if \<not> known then seqp (set_faulty durable_id (PStr alert_type)) (ret (Some alert_type))
       else bindp (getp fr_faulty) (\<lambda>faulty. bindp (liftp (getitem faulty durable_id)) (\<lambda>prev.
         if \<not> py_eq prev (PStr alert_type)
         then seqp (set_faulty durable_id (PStr alert_type)) (ret (Some alert_type)) else ret None)))"

definition fan_forget :: "string \<Rightarrow> (fru_state, string option) proc" where
  "fan_forget durable_id =
     bindp (known_faulty durable_id) (\<lambda>known.
       if known then
         bindp (getp fr_faulty) (\<lambda>faulty. bindp (liftp (getitem faulty durable_id)) (\<lambda>prev.
         seqp (del_faulty durable_id)
              (ret (Some (if py_eq prev (PStr ''missing'') then ''insertion'' else ''fault_resolved'')))))
       else ret None)"

definition fan_one :: "fru_env \<Rightarrow> pyv \<Rightarrow> (fru_state, unit) proc" where
  "fan_one env fan_module =
     bindp (liftp (bindr (get_key fan_module ''health'') lower_method)) (\<lambda>fru_status.
     bindp (liftp (bindr (get_key fan_module ''durable-id'') lower_method)) (\<lambda>durable_id.
     bindp (liftp (bindr (get_key fan_module ''health-reason'') lower_method)) (\<lambda>health_reason.
     bindp (if fru_status = HEALTH_FAULT \<and> check_if_fan_module_is_installed health_reason
            then fan_remember durable_id ''missing''
            else if fru_status = HEALTH_FAULT \<or> fru_status = HEALTH_DEGRADED then fan_remember durable_id ''fault''
            else if fru_status = HEALTH_OK then fan_forget durable_id
            else ret None) (\<lambda>alert_type. case alert_type of
       None \<Rightarrow> ret ()
     | Some a \<Rightarrow> fan_alert_sent env fan_module durable_id a))))"

definition check_for_fan_module_fault :: "fru_env \<Rightarrow> (fru_state, unit) proc" where
  "check_for_fan_module_fault env =
     bindp (get_fan_modules_list env) (\<lambda>modules.
     seqp (modp (\<lambda>s. s\<lparr>fr_list := modules\<rparr>))
     (if \<not> truthy modules then ret ()
      else swallow (bindp (liftp (iter_list modules)) (\<lambda>fs. forp fs (fan_one env)))))"

definition fan_run :: "fru_env \<Rightarrow> (fru_state, unit) proc" where
  "fan_run env = bindp (getp fr_suspended) (\<lambda>suspended.
     if suspended then enter 30
     else
       seqp (read_debug_msg env ''RealStorFanSensor'')
       (seqp (check_for_fan_module_fault env) (enter (poll_frequency env))))"

section \<open>The specification\<close>

definition fan_spec :: "string \<Rightarrow> bool \<Rightarrow> string option \<Rightarrow> string option" where
  "fan_spec health gone p =
     (if health = ''fault'' \<and> gone then (if p = Some ''missing'' then None else Some ''missing'')
      else if health = ''fault'' \<or> health = ''degraded'' then (if p = Some ''fault'' then None else Some ''fault'')
      else if health = ''ok'' then
        (case p of None \<Rightarrow> None | Some t \<Rightarrow> Some (if t = ''missing'' then ''insertion'' else ''fault_resolved''))
      else None)"

fun fan_entry :: "pyv \<Rightarrow> string option" where
  "fan_entry (PStr t) = Some t"
| "fan_entry _ = None"

abbreviation fan_inv :: "fru_env \<Rightarrow> fru_state \<Rightarrow> bool" where
  "fan_inv env \<equiv> fru_inv fan_entry (fan_path env)"

definition fan_abs :: "fru_state \<Rightarrow> fru_abs" where
  "fan_abs s = (outstanding fan_entry s, fr_confirmed s, fr_waits s)"

definition fan_observe :: "fru_env \<Rightarrow> string \<times> string \<times> bool \<Rightarrow> fru_abs \<Rightarrow> fru_abs" where
  "fan_observe env = (\<lambda>(k, health, gone) t. observe env k (fan_spec health gone (fst t k)) t)"

text \<open>A fan module as the web service reports it: text fields, and its fans as dictionaries.\<close>

definition fan_report :: "pyv \<Rightarrow> string \<Rightarrow> string \<Rightarrow> bool \<Rightarrow> bool" where
  "fan_report m k health gone \<longleftrightarrow> (\<exists>d h i r fs. m = PDict d \<and> json_able m \<and>
     map_of d ''health'' = Some (PStr h) \<and> lower h = health \<and>
     map_of d ''durable-id'' = Some (PStr i) \<and> lower i = k \<and>
     map_of d ''health-reason'' = Some (PStr r) \<and> gone = contains ''not installed'' (lower r) \<and>
     (map_of d ''fan'' = None \<or> map_of d ''fan'' = Some (PList (map PDict fs))))"

section \<open>Messages can be built\<close>

lemma copy_attributes_ok:
  "json_able (PDict f) \<Longrightarrow> json_able (PDict fans) \<Longrightarrow>
    \<exists>fans'. copy_attributes (PDict f) ks fans = Inr fans' \<and> json_able (PDict fans')"
proof (induction ks arbitrary: fans)
  case (Cons k ks)
  note able = json_able_get_key [OF Cons.prems(1)]
  show ?case
  proof (cases k)
    case (PStr key)
    obtain v where v: "get_key (PDict f) key = Inr v" "json_able v" using able by blast
    with Cons.prems Cons.IH [OF Cons.prems(1) json_able_update [OF Cons.prems(2) v(2), of key]] Cons.IH [OF Cons.prems]
    show ?thesis by (simp add: PStr del: get_key_PDict json_able.simps)
  qed (use Cons in \<open>simp_all del: json_able.simps\<close>)
qed simp

lemma collect_fans_ok:
  "(\<And>f. f \<in> set fs \<Longrightarrow> json_able (PDict f)) \<Longrightarrow> json_able (PDict fans) \<Longrightarrow>
    \<exists>fans'. collect_fans (map PDict fs) fans = Inr fans' \<and> json_able (PDict fans')"
proof (induction fs arbitrary: fans)
  case (Cons f fs)
  obtain fans1 where f1: "copy_attributes (PDict f) (map (\<lambda>p. PStr (fst p)) f) fans = Inr fans1" "json_able (PDict fans1)"
    using copy_attributes_ok Cons.prems by (metis list.set_intros(1))
  have "\<exists>fans'. collect_fans (map PDict fs) fans1 = Inr fans' \<and> json_able (PDict fans')"
    by (rule Cons.IH) (use Cons.prems f1 in auto)
  with f1(1) show ?case by simp
qed simp

lemma get_fan_attributes_ok:
  assumes "json_able (PDict d)" and "map_of d ''fan'' = None \<or> map_of d ''fan'' = Some (PList (map PDict fs))"
  shows "\<exists>v. get_fan_attributes (PDict d) = Inr v \<and> json_able v"
  using assms(2)
proof
  assume "map_of d ''fan'' = None"
  then show ?thesis by (simp add: get_fan_attributes_def)
next
  assume fan: "map_of d ''fan'' = Some (PList (map PDict fs))"
  then have "json_able (PList (map PDict fs))"
    using assms(1) by (auto dest!: map_of_SomeD bspec)
  then have "json_able (PDict f)" if "f \<in> set fs" for f using that by simp
  from collect_fans_ok [OF this, of fs "[]"] fan show ?thesis
    by (auto simp: get_fan_attributes_def)
qed

lemma fan_create_run:
  assumes "fru_ok path f s" and d: "json_able (PDict d)"
    and "map_of d ''fan'' = None \<or> map_of d ''fan'' = Some (PList (map PDict fs))"
    and "get_fqdn env = Inr h" and "map_severity a = Inr sev"
  shows "\<exists>t s'. fan_create_internal_json_msg env (PDict d) a s = (Inr t, s') \<and> quiet s s'"
proof -
  obtain v where v: "get_fan_attributes (PDict d) = Inr v" "json_able v"
    using get_fan_attributes_ok [OF d assms(3)] by blast
  let ?i = "PDict (AList.update ''fans'' v (filter (\<lambda>p. fst p \<in> set fan_module_info_key_list) d))"
  have i: "json_able ?i" by (rule json_able_update) (use d v in auto)
  obtain r where r: "get_default ?i ''name'' (PStr []) = Inr r" "json_able r"
    using i by (cases "map_of (AList.update ''fans'' v (filter (\<lambda>p. fst p \<in> set fan_module_info_key_list) d)) ''name''")
      (auto simp del: map_of_update dest!: map_of_SomeD bspec)
  obtain p s' where fr: "fresh_alert env s = (Inr p, s')" "rssencl s' = rssencl s" "quiet s s'"
    using fresh_alert_run by blast
  obtain fru where fru: "is_storage_fru ''FAN MODULE'' (rssencl s) = Inr fru"
    using is_storage_fru_ok [OF assms(1)] by blast
  let ?m = "enclosure_alert [(''status'', PStr ''update''), (''host_id'', PStr h), (''alert_type'', PStr a),
      (''severity'', PStr sev), (''alert_id'', PStr (snd p)), (''info'', alert_info ''enclosure:hw:fan'' fru r (fst p)),
      (''specific_info'', ?i)]"
  have "json_able ?m"
    using r i by (simp add: enclosure_alert_def alert_info_def)
  then obtain t where t: "json_dumps ?m = Inr t" using json_dumps_ok by blast
  show ?thesis
    using assms(4,5) fr fru r(1) v(1) t
    by (auto simp: fan_create_internal_json_msg_def py_exec Let_def split: prod.splits simp del: get_default.simps json_dumps.simps)
qed

section \<open>One turn\<close>

lemma fan_alert_sent_run:
  assumes "fru_ok (fan_path env) f s" and "json_able (PDict d)"
    and "map_of d ''fan'' = None \<or> map_of d ''fan'' = Some (PList (map PDict fs))"
    and "get_fqdn env = Inr h" and "map_severity a = Inr sev"
  shows "\<exists>s'. fan_alert_sent env (PDict d) k a s = (Inr (), s') \<and> fru_ok (fan_path env) (fr_faulty s') s' \<and>
    (if ev_wait env (fr_waits s) then fr_faulty s' = fr_faulty s \<and> fr_confirmed s' = fr_confirmed s @ [(k, a)]
     else fr_faulty s' = f \<and> fr_confirmed s' = fr_confirmed s) \<and> fr_waits s' = fr_waits s + 1"
proof -
  obtain t s1 where s1: "fan_create_internal_json_msg env (PDict d) a s = (Inr t, s1)" "quiet s s1"
    using fan_create_run [OF assms] by blast
  obtain s2 where s2: "send_to_handler t s1 = (Inr (), s2)" "quiet s s2"
    using send_to_handler_run [OF quiet_ok [OF s1(2) assms(1)]] quiet_trans s1(2) by blast
  from persist_faulty_run [OF quiet_ok [OF s2(2) assms(1)], of env "(k, a)"] s1(1) s2 show ?thesis
    by (auto simp: fan_alert_sent_def bindp_def seqp_def quiet_def split: if_splits)
qed

text \<open>The dictionary after a turn that raises \<open>a\<close> for \<open>k\<close> and remembers \<open>p\<close>.\<close>

definition remembers :: "string \<Rightarrow> string option \<Rightarrow> pydict \<Rightarrow> pydict" where
  "remembers k p m = (case p of None \<Rightarrow> AList.delete k m | Some t \<Rightarrow> AList.update k (PStr t) m)"

definition fan_decision :: "string \<Rightarrow> string \<Rightarrow> bool \<Rightarrow> (fru_state, string option) proc" where
  "fan_decision durable_id health gone =
     (if health = ''fault'' \<and> gone then fan_remember durable_id ''missing''
      else if health = ''fault'' \<or> health = ''degraded'' then fan_remember durable_id ''fault''
      else if health = ''ok'' then fan_forget durable_id else ret None)"

lemma fan_decision_run:
  assumes "fan_inv env s" and m: "fr_faulty s = PDict m"
  shows "fan_decision k health gone s = (case fan_spec health gone (outstanding fan_entry s k) of
      None \<Rightarrow> (Inr None, s)
    | Some a \<Rightarrow> (Inr (Some a), s\<lparr>fr_faulty := PDict (remembers k (the (next_alert (outstanding fan_entry s k) a)) m)\<rparr>))"
proof (cases "map_of m k")
  case None
  then show ?thesis
    using m known_faulty_run [OF m, of k]
    by (auto simp: fan_decision_def fan_spec_def outstanding_def fan_remember_def fan_forget_def set_faulty_def py_exec
        remembers_def next_alert_def)
next
  case (Some e)
  then obtain t where e: "e = PStr t"
    using assms by (cases e) (fastforce simp: fru_inv_def)+
  have "k \<in> fst ` set m" using Some by (metis map_of_eq_None_iff option.distinct(1))
  then show ?thesis
    using Some m e known_faulty_run [OF m, of k]
    by (auto simp: fan_decision_def fan_spec_def outstanding_def fan_remember_def fan_forget_def set_faulty_def
        del_faulty_def py_exec remembers_def next_alert_def)
qed

lemma fan_spec_next: "fan_spec h gone p = Some a \<Longrightarrow> \<exists>p'. next_alert p a = Some p'"
  by (auto simp: fan_spec_def next_alert_def split: if_splits option.splits)

lemma fan_spec_severity: "fan_spec h gone p = Some a \<Longrightarrow> \<exists>sev. map_severity a = Inr sev"
  by (auto simp: fan_spec_def map_severity_def ALERT_TO_SEVERITY_MAPPING_def split: if_splits option.splits)

lemma outstanding_remembers:
  "fr_faulty s = PDict m \<Longrightarrow> fr_faulty s' = PDict (remembers k p m) \<Longrightarrow>
    outstanding fan_entry s' = (outstanding fan_entry s)(k := p)"
  by (auto simp: outstanding_def remembers_def fun_eq_iff split: option.splits)

lemma fan_one_run:
  assumes inv: "fan_inv env s" and rep: "fan_report fm k health gone" and fq: "get_fqdn env = Inr host"
  shows "\<exists>s'. fan_one env fm s = (Inr (), s') \<and> fan_inv env s' \<and> fan_abs s' = fan_observe env (k, health, gone) (fan_abs s)"
proof -
  obtain d fs where d: "fm = PDict d" "json_able (PDict d)"
      "map_of d ''fan'' = None \<or> map_of d ''fan'' = Some (PList (map PDict fs))"
    and one: "fan_one env fm s = bindp (fan_decision k health gone) (\<lambda>a. case a of None \<Rightarrow> ret ()
      | Some a \<Rightarrow> fan_alert_sent env fm k a) s"
    using rep by (auto simp: fan_report_def fan_one_def fan_decision_def HEALTH_FAULT_def HEALTH_DEGRADED_def HEALTH_OK_def
        check_if_fan_module_is_installed_def bindp_def [of "liftp _"] liftp_def)
  obtain m where m: "fr_faulty s = PDict m" using inv by (auto simp: fru_inv_def)
  show ?thesis
  proof (cases "fan_spec health gone (outstanding fan_entry s k)")
    case None
    with one fan_decision_run [OF inv m] inv show ?thesis
      by (simp add: py_exec fan_observe_def fan_abs_def observe_by_def)
  next
    case (Some a)
    obtain p sev where p: "next_alert (outstanding fan_entry s k) a = Some p" and sev: "map_severity a = Inr sev"
      using fan_spec_next [OF Some] fan_spec_severity [OF Some] by blast
    let ?s1 = "s\<lparr>fr_faulty := PDict (remembers k p m)\<rparr>"
    have "fru_ok (fan_path env) (PDict m) ?s1" using inv m by (simp add: fru_inv_def)
    from fan_alert_sent_run [OF this d(2,3) fq sev, of k] obtain s' where
      s': "fan_alert_sent env (PDict d) k a ?s1 = (Inr (), s')" "fru_ok (fan_path env) (fr_faulty s') s'"
        "if ev_wait env (fr_waits s) then fr_faulty s' = PDict (remembers k p m) \<and> fr_confirmed s' = fr_confirmed s @ [(k, a)]
         else fr_faulty s' = PDict m \<and> fr_confirmed s' = fr_confirmed s" "fr_waits s' = fr_waits s + 1" by auto
    have "fan_one env fm s = (Inr (), s')"
      using one fan_decision_run [OF inv m] Some p s'(1) d(1) by (simp add: bindp_def)
    moreover have "fan_inv env s'"
      using s'(2,3) inv m by (auto simp: fru_inv_def remembers_def split: if_splits option.splits)
    moreover have "fan_abs s' = fan_observe env (k, health, gone) (fan_abs s)"
      using s'(3,4) Some p m outstanding_remembers [OF m]
      by (auto simp: fan_abs_def fan_observe_def observe_by_def outstanding_def split: if_splits)
    ultimately show ?thesis by blast
  qed
qed

lemma fan_loop_run:
  assumes "fan_inv env s" and "get_fqdn env = Inr host"
    and "list_all2 (\<lambda>fm (k, health, gone). fan_report fm k health gone) fms obs"
  shows "\<exists>s'. forp fms (fan_one env) s = (Inr (), s') \<and> fan_inv env s' \<and> fan_abs s' = fold (fan_observe env) obs (fan_abs s)"
  using assms(3,1)
proof (induction fms obs arbitrary: s rule: list_all2_induct)
  case Nil
  then show ?case by (simp add: ret_def)
next
  case (Cons fm fms o' obs)
  obtain k health gone where o': "o' = (k, health, gone)" by (cases o')
  with Cons.hyps have "fan_report fm k health gone" by simp
  from fan_one_run [OF Cons.prems this assms(2)] obtain s1 where
    s1: "fan_one env fm s = (Inr (), s1)" "fan_inv env s1" "fan_abs s1 = fan_observe env o' (fan_abs s)"
    using o' by auto
  from Cons.IH [OF s1(2)] s1 show ?case by (auto simp: seqp_def)
qed

section \<open>Steps\<close>

inductive fan_step :: "fru_env \<Rightarrow> fru_state \<Rightarrow> fru_state \<Rightarrow> bool" for env where
  fan_poll: "fan_report fm k health gone \<Longrightarrow> get_fqdn env = Inr host \<Longrightarrow>
    fan_one env fm s = (Inr (), s') \<Longrightarrow> fan_step env s s'"
| fan_restart: "fan_initialize env (s\<lparr>fr_faulty := PDict []\<rparr>) = (Inr b, s') \<Longrightarrow> fan_step env s s'"
| fan_other: "quiet s s' \<Longrightarrow> fan_step env s s'"

lemma fan_restart_run:
  "fan_inv env s \<Longrightarrow> fan_initialize env (s\<lparr>fr_faulty := PDict []\<rparr>) = (Inr True, s\<lparr>fr_schedule := fr_schedule s @ [1]\<rparr>)"
  by (simp add: fan_initialize_def enter_def py_exec load_faulty_restart)

lemma fan_step_sound:
  assumes "fan_step env s s'" and "fan_inv env s"
  shows "fan_inv env s' \<and>
    track_step next_alert (outstanding fan_entry s) (fr_confirmed s) (outstanding fan_entry s') (fr_confirmed s')"
  using assms
proof (cases rule: fan_step.cases)
  case (fan_poll fm k health gone host)
  from fan_one_run [OF assms(2) fan_poll(1,2)] fan_poll(3)
  have "fan_inv env s'" "fan_abs s' = fan_observe env (k, health, gone) (fan_abs s)" by auto
  then show ?thesis
    by (auto simp: fan_observe_def fan_abs_def intro: observe_track [OF sym] fan_spec_next)
next
  case (fan_restart b)
  with fan_restart_run [OF assms(2)] assms(2) show ?thesis
    by (auto simp: track_step_def outstanding_def fru_inv_def fru_ok_def)
next
  case fan_other
  with assms(2) show ?thesis
    by (auto simp: track_step_def outstanding_def fru_inv_def quiet_def fun_eq_iff)
qed

interpretation fan: alert_history next_alert "fan_inv env" "fan_step env" "outstanding fan_entry" fr_confirmed for env
  by unfold_locales (auto dest: fan_step_sound)

section \<open>A concrete poll\<close>

definition demo_fan :: "string \<Rightarrow> string \<Rightarrow> string \<Rightarrow> pyv" where
  "demo_fan k health reason = PDict [(''durable-id'', PStr k), (''health'', PStr health), (''health-reason'', PStr reason),
     (''fan'', PList (map PDict [[(''name'', PStr ''Fan 1'')], [(''name'', PStr ''Fan 2'')]]))]"

lemma demo_fan_report:
  "fan_report (demo_fan i h r) (lower i) (lower h) (contains ''not installed'' (lower r))"
  unfolding fan_report_def
  by (intro exI [of _ "[(''durable-id'', PStr i), (''health'', PStr h), (''health-reason'', PStr r),
       (''fan'', PList (map PDict [[(''name'', PStr ''Fan 1'')], [(''name'', PStr ''Fan 2'')]]))]"]
      exI [of _ h] exI [of _ i] exI [of _ r] exI [of _ "[[(''name'', PStr ''Fan 1'')], [(''name'', PStr ''Fan 2'')]]"])
    (simp add: demo_fan_def)

lemma demo_fan_start:
  "\<exists>s. fan_inv demo_fru_env s \<and> fr_faulty s = PDict [] \<and> fr_confirmed s = [] \<and> fr_waits s = 0"
proof -
  have "fru_ok (fan_path demo_fru_env) PNone demo_fru"
    by (rule demo_fru_ok) code_simp
  from load_faulty_fresh [OF this, of fan_entry] show ?thesis
    by (auto simp: demo_fru_def)
qed

section \<open>Properties\<close>

text \<open>
  Once the web service has answered with a list of fan modules, the check of the fan modules
  returns normally, keeps memory and store in agreement, and leaves outstanding and confirmed what
  the specification gives for the same observations, whichever alerts are acknowledged in time.\<close>

lemma fan_check_refines:
  assumes "get_fan_modules_list env s0 = (Inr (PList fms), s)" and "fan_inv env s" and "get_fqdn env = Inr host"
    and "list_all2 (\<lambda>fm (k, health, gone). fan_report fm k health gone) fms obs"
  shows "\<exists>s'. check_for_fan_module_fault env s0 = (Inr (), s') \<and> fan_inv env s' \<and>
    fan_abs s' = fold (fan_observe env) obs (fan_abs s)"
proof -
  let ?s = "s\<lparr>fr_list := PList fms\<rparr>"
  have "fan_inv env ?s" "fan_abs ?s = fan_abs s"
    using assms(2) by (simp_all add: fru_inv_def fru_ok_def fan_abs_def outstanding_def fun_eq_iff)
  with fan_loop_run [OF this(1) assms(3,4)] assms(1,4) show ?thesis
    by (cases fms) (auto simp: check_for_fan_module_fault_def py_exec)
qed

text \<open>
  Through any sequence of polls, timeouts and restarts the confirmed alerts of each fan module
  form a proper history, and the alert outstanding at the end is the one the sensor remembers.\<close>

lemma fan_alert_history:
  assumes "fan_inv env s" and "fr_faulty s = PDict []" and "fr_confirmed s = []" and "(fan_step env)\<^sup>*\<^sup>* s s'"
  shows "replay None (fru_alerts k (fr_confirmed s')) = Some (outstanding fan_entry s' k)"
proof -
  have "fan.faithful s" using assms(2,3) by (simp add: fan.faithful_def fru_alerts_def outstanding_def)
  with fan.steps_faithful [OF assms(4,1)] show ?thesis by (simp add: fan.faithful_def)
qed

lemma fan_alert_history_witness:
  "\<exists>s s'. (fan_step demo_fru_env)\<^sup>*\<^sup>* s s' \<and> fru_alerts ''fan_0'' (fr_confirmed s') = [''missing''] \<and>
     replay None (fru_alerts ''fan_0'' (fr_confirmed s')) = Some (outstanding fan_entry s' ''fan_0'')"
proof -
  obtain s where s: "fan_inv demo_fru_env s" "fr_faulty s = PDict []" "fr_confirmed s = []" "fr_waits s = 0"
    using demo_fan_start by blast
  have fq: "get_fqdn demo_fru_env = Inr ''node1''" by (simp add: demo_fru_env_def)
  have low: "lower ''FAN_0'' = ''fan_0''" "lower ''Fault'' = ''fault''" "contains ''not installed'' (lower ''Not installed.'')"
    by code_simp+
  note rep = demo_fan_report [of "''FAN_0''" "''Fault''" "''Not installed.''", unfolded low]
  from fan_one_run [OF s(1) rep fq] low obtain s' where
    s': "fan_one demo_fru_env (demo_fan ''FAN_0'' ''Fault'' ''Not installed.'') s = (Inr (), s')"
      "fan_abs s' = fan_observe demo_fru_env (''fan_0'', ''fault'', True) (fan_abs s)" by auto
  then have "(fan_step demo_fru_env)\<^sup>*\<^sup>* s s'"
    using fan_step.fan_poll [OF rep fq] by blast
  moreover have "fru_alerts ''fan_0'' (fr_confirmed s') = [''missing'']"
    using s' s by (simp add: fan_abs_def fan_observe_def fan_spec_def observe_by_def outstanding_def demo_fru_env_def fru_alerts_def)
  ultimately show ?thesis
    using fan_alert_history [OF s(1-3), of s' "''fan_0''"] by blast
qed

end
