(* ===== verification/Realstor_Controller.thy ===== *)
theory Realstor_Controller
  imports Realstor_Psu
begin

text \<open>
  \<^verbatim>\<open>sensors/impl/platforms/realstor/realstor_controller_sensor.py\<close>: the sensor of the controllers of
  an enclosure. It remembers health and alert type per durable id. The variable
  \<^verbatim>\<open>prev_alert_type\<close> of the loop keeps its value from one controller to the next, so each turn takes
  and returns it.
\<close>

section \<open>The sensor\<close>

definition controller_path :: "fru_env \<Rightarrow> string" where
  "controller_path env = path_join (path_join (frus (cli env)) ''controllers'') ''controllerdata.json''"

definition controller_initialize :: "fru_env \<Rightarrow> (fru_state, bool) proc" where
  "controller_initialize env = seqp (enter 1) (seqp (load_faulty (controller_path env)) (ret True))"

definition get_controllers :: "fru_env \<Rightarrow> (fru_state, pyv) proc" where
  "get_controllers env = request_data env ''/show/controllers'' (\<lambda>data. get_key data ''controllers'')"

definition controller_create_internal_msg :: "fru_env \<Rightarrow> pyv \<Rightarrow> string \<Rightarrow> (fru_state, pyv) proc" where
  "controller_create_internal_msg env controller_detail alert_type =
     (if \<not> truthy controller_detail then ret (PDict [])
      else
        bindp (liftp (map_severity alert_type)) (\<lambda>severity.
        bindp (fresh_alert env) (\<lambda>(epoch_time, alert_id).
        bindp (getp rssencl) (\<lambda>e.
        bindp (liftp (is_storage_fru ''controller'' e)) (\<lambda>fru.
        bindp (liftp (get_default controller_detail ''durable-id'' (PStr []))) (\<lambda>resource_id.
        bindp (liftp (get_fqdn env)) (\<lambda>host_name.
        bindp (liftp (json_dumps (enclosure_alert
          [(''host_id'', PStr host_name), (''severity'', PStr severity), (''alert_id'', PStr alert_id),
           (''alert_type'', PStr alert_type), (''status'', PStr ''update''),
           (''info'', alert_info ''enclosure:hw:controller'' fru resource_id epoch_time),
           (''specific_info'', controller_detail)]))) (\<lambda>text. ret (PStr text)))))))))"

definition controller_send_json_msg :: "pyv \<Rightarrow> (fru_state, unit) proc" where
  "controller_send_json_msg json_msg = (if \<not> truthy json_msg then ret () else send_to_handler json_msg)"

definition send_if :: "bool \<Rightarrow> pyv \<Rightarrow> (fru_state, unit) proc" where
  "send_if send_message m = (if send_message then controller_send_json_msg m else ret ())"

definition remember_controller :: "string \<Rightarrow> string \<Rightarrow> string \<Rightarrow> (fru_state, unit) proc" where
  "remember_controller durable_id health alert_type =
     set_faulty durable_id (PDict [(''health'', PStr health), (''alert_type'', PStr alert_type)])"

text \<open>
  The guard of two branches: the controller is not known as faulty, or was last seen with the given
  health.
\<close>

definition was :: "string \<Rightarrow> string \<Rightarrow> (fru_state, bool) proc" where
  "was durable_id health =
     bindp (known_faulty durable_id) (\<lambda>known.
       if \<not> known then ret True
       else bindp (getp fr_faulty) (\<lambda>faulty.
         bindp (liftp (bindr (getitem faulty durable_id) (\<lambda>e. getitem e ''health''))) (\<lambda>h. ret (py_eq h (PStr health)))))"

definition controller_fault :: "fru_env \<Rightarrow> bool \<Rightarrow> pyv \<Rightarrow> string \<Rightarrow> string \<Rightarrow> string \<Rightarrow> (fru_state, pyv list) proc" where
  "controller_fault env send_message controller durable_id health status =
     bindp (was durable_id ''degraded'') (\<lambda>changed.
       if changed then
         let alert_type = (if status = ''not installed'' then ''missing'' else ''fault'') in
         seqp (remember_controller durable_id health alert_type)
         (bindp (controller_create_internal_msg env controller alert_type) (\<lambda>m.
          seqp (send_if send_message m)
          (seqp (persist_faulty env (controller_path env) (durable_id, alert_type)) (ret [m]))))
       else ret [])"

text \<open>
  The statement that reads the previous alert type: with an empty dictionary nothing is read, else
  \<^verbatim>\<open>get(durable_id)\<close> is \<^verbatim>\<open>None\<close> for a controller that is not known, and has no \<^verbatim>\<open>get\<close>.
\<close>

definition previous_alert :: "string \<Rightarrow> pyv \<Rightarrow> (fru_state, pyv) proc" where
  "previous_alert durable_id prev =
     bindp (getp fr_faulty) (\<lambda>faulty.
       if truthy faulty then
         bindp (liftp (bindr (get_key faulty durable_id) (\<lambda>e. get_key e ''alert_type''))) (\<lambda>t.
           if truthy t then liftp (bindr (getitem faulty durable_id) (\<lambda>e. getitem e ''alert_type'')) else ret prev)
       else ret prev)"

definition controller_degraded :: "fru_env \<Rightarrow> bool \<Rightarrow> pyv \<Rightarrow> string \<Rightarrow> string \<Rightarrow> pyv \<Rightarrow> (fru_state, pyv \<times> pyv list) proc" where
  "controller_degraded env send_message controller durable_id health prev =
     bindp (was durable_id ''fault'') (\<lambda>changed.
       if changed then
         bindp (previous_alert durable_id prev) (\<lambda>prev.
         bindp (if truthy prev then liftp (bindr (lower_method prev) (\<lambda>t. Inr (t = ''missing''))) else ret False) (\<lambda>inserted.
         seqp (if inserted then
                 bindp (controller_create_internal_msg env controller ''insertion'') (send_if send_message)
               else ret ())
         (seqp (remember_controller durable_id health ''fault'')
         (bindp (controller_create_internal_msg env controller ''fault'') (\<lambda>m.
          seqp (send_if send_message m)
          (seqp (persist_faulty env (controller_path env) (durable_id, ''fault'')) (ret (prev, [m]))))))))
       else ret (prev, []))"

definition controller_ok :: "fru_env \<Rightarrow> bool \<Rightarrow> pyv \<Rightarrow> string \<Rightarrow> (fru_state, pyv list) proc" where
  "controller_ok env send_message controller durable_id =
     bindp (known_faulty durable_id) (\<lambda>known.
       if \<not> known then ret []
       else
         bindp (if send_message then
                  bindp (remembered_type durable_id) (\<lambda>prev.
                  let alert_type = (if py_eq prev (PStr ''missing'') then ''insertion'' else ''fault_resolved'') in
                  bindp (controller_create_internal_msg env controller alert_type) (\<lambda>m.
                  seqp (controller_send_json_msg m) (ret (alert_type, [m]))))
                else ret ([], [])) (\<lambda>(alert_type, ms).
         seqp (del_faulty durable_id)
         (seqp (persist_faulty env (controller_path env) (durable_id, alert_type)) (ret ms))))"

definition controller_one :: "fru_env \<Rightarrow> bool \<Rightarrow> pyv \<Rightarrow> pyv \<Rightarrow> (fru_state, pyv \<times> pyv list) proc" where
  "controller_one env send_message controller prev =
     bindp (liftp (bindr (getitem controller ''health'') lower_method)) (\<lambda>health.
     bindp (liftp (bindr (getitem controller ''status'') lower_method)) (\<lambda>status.
     bindp (liftp (bindr (getitem controller ''durable-id'') key_text)) (\<lambda>durable_id.
       if health = HEALTH_FAULT then
         bindp (controller_fault env send_message controller durable_id health status) (\<lambda>ms. ret (prev, ms))
       else if health = HEALTH_DEGRADED then controller_degraded env send_message controller durable_id health prev
       else if health = HEALTH_OK then
         bindp (controller_ok env send_message controller durable_id) (\<lambda>ms. ret (prev, ms))
       else ret (prev, []))))"

primrec controller_loop :: "fru_env \<Rightarrow> bool \<Rightarrow> pyv list \<Rightarrow> pyv \<Rightarrow> (fru_state, pyv list) proc" where
  "controller_loop env send_message [] prev = ret []"
| "controller_loop env send_message (c # cs) prev = bindp (controller_one env send_message c prev) (\<lambda>(prev, ms).
     bindp (controller_loop env send_message cs prev) (\<lambda>ms'. ret (ms @ ms')))"

definition get_msgs_for_faulty_controllers :: "fru_env \<Rightarrow> pyv \<Rightarrow> bool \<Rightarrow> (fru_state, pyv) proc" where
  "get_msgs_for_faulty_controllers env controllers send_message =
     (if \<not> truthy controllers then ret PNone
      else bindp (liftp (iter_list controllers)) (\<lambda>cs.
        bindp (controller_loop env send_message cs PNone) (\<lambda>ms. ret (PList ms))))"

definition controller_run :: "fru_env \<Rightarrow> (fru_state, unit) proc" where
  "controller_run env = bindp (getp fr_suspended) (\<lambda>suspended.
     if suspended then enter 10
     else
       seqp (read_debug_msg env ''RealStorControllerSensor'')
       (bindp (get_controllers env) (\<lambda>controllers.
        seqp (if truthy controllers then bindp (get_msgs_for_faulty_controllers env controllers True) (\<lambda>_. ret ()) else ret ())
        (seqp reset_debug (enter (poll_frequency env))))))"

section \<open>Properties\<close>

text \<open>A controller as the web service reports it.\<close>

definition controller_report :: "pyv \<Rightarrow> string \<Rightarrow> string \<Rightarrow> bool" where
  "controller_report c k health \<longleftrightarrow> (\<exists>d h st. c = PDict d \<and> map_of d ''health'' = Some (PStr h) \<and> lower h = health \<and>
     map_of d ''status'' = Some (PStr st) \<and> map_of d ''durable-id'' = Some (PStr k))"

text \<open>
  While some controller is remembered as faulty, another one that becomes degraded makes the
  poll raise \<^verbatim>\<open>AttributeError\<close> before anything is sent: the lookup of its previous alert goes through
  \<^verbatim>\<open>None\<close>. Nothing is remembered, so every later poll with the same report fails in the same way.\<close>

lemma degraded_controller_raises:
  assumes "controller_report c k ''degraded''" and "fr_faulty s = PDict m" and "m \<noteq> []" and "map_of m k = None"
  shows "get_msgs_for_faulty_controllers env (PList (c # cs)) True s = (Inl AttributeError, s)"
proof -
  have "controller_one env True c PNone s = (Inl AttributeError, s)"
    using assms(1,3,4) known_faulty_run [OF assms(2), of k] assms(2)
    by (auto simp: controller_report_def controller_one_def controller_degraded_def was_def previous_alert_def py_exec
        HEALTH_FAULT_def HEALTH_DEGRADED_def get_key_def)
  then show ?thesis
    by (simp add: get_msgs_for_faulty_controllers_def py_exec)
qed

definition demo_controller :: "string \<Rightarrow> string \<Rightarrow> pyv" where
  "demo_controller k health = PDict [(''durable-id'', PStr k), (''health'', PStr health), (''status'', PStr ''Operational'')]"

lemma degraded_controller_raises_witness:
  "fst (get_msgs_for_faulty_controllers demo_fru_env (PList [demo_controller ''controller_b'' ''Degraded'']) True
     (demo_fru\<lparr>fr_faulty := PDict [(''controller_a'', PDict [(''health'', PStr ''fault''), (''alert_type'', PStr ''fault'')])]\<rparr>))
   = Inl AttributeError"
proof -
  have "lower ''Degraded'' = ''degraded''" by code_simp
  then have "controller_report (demo_controller ''controller_b'' ''Degraded'') ''controller_b'' ''degraded''"
    by (simp add: controller_report_def demo_controller_def)
  from degraded_controller_raises [OF this, of "demo_fru\<lparr>fr_faulty := PDict [(''controller_a'', PDict [(''health'', PStr ''fault''), (''alert_type'', PStr ''fault'')])]\<rparr>"]
  show ?thesis by simp
qed

end
