(* ===== verification/Realstor_Sideplane.thy ===== *)
theory Realstor_Sideplane
  imports Realstor_Fan
begin

text \<open>
  \<^verbatim>\<open>sensors/impl/platforms/realstor/realstor_sideplane_expander_sensor.py\<close>: the sensor of the
  sideplane expanders. Each turn of its loop runs under its own \<^verbatim>\<open>try\<close>, and two variables,
  \<^verbatim>\<open>alert_type\<close> and \<^verbatim>\<open>health_recommendation\<close>, live across turns (also when a turn ends by an
  exception), so they are part of the state of the loop.
\<close>

section \<open>The sensor\<close>

definition sideplane_path :: "fru_env \<Rightarrow> string" where
  "sideplane_path env = path_join (path_join (frus (cli env)) ''sideplane_expanders'') ''sideplane_expanders_data.json''"

definition sideplane_initialize :: "fru_env \<Rightarrow> (fru_state, bool) proc" where
  "sideplane_initialize env = seqp (enter 1) (seqp (load_faulty (sideplane_path env)) (ret True))"

primrec drawers_sideplanes :: "pyv list \<Rightarrow> pyv list res" where
  "drawers_sideplanes [] = Inr []"
| "drawers_sideplanes (drawer # ds) =
     bindr (bindr (getitem drawer ''sideplanes'') iter_list) (\<lambda>xs.
     bindr (drawers_sideplanes ds) (\<lambda>ys. Inr (xs @ ys)))"

definition get_sideplane_expander_list :: "fru_env \<Rightarrow> (fru_state, pyv) proc" where
  "get_sideplane_expander_list env = request_data env ''/show/enclosure'' (\<lambda>data.
     bindr (getitem data ''enclosures'') (\<lambda>es. bindr (getindex es 0) (\<lambda>e. bindr (getitem e ''drawers'') (\<lambda>drawers.
       if truthy drawers then bindr (bindr (iter_list drawers) drawers_sideplanes) (\<lambda>xs. Inr (PList xs))
       else Inr (PList [])))))"

record sp_locals =
  sp_alert :: "string option"
  sp_recommendation :: "string option"
  sp_unhealthy :: pyv

type_synonym sp_state = "fru_state \<times> sp_locals"

definition on_sensor :: "(fru_state, 'a) proc \<Rightarrow> (sp_state, 'a) proc" where
  "on_sensor m = (\<lambda>(s, l). case m s of (r, s') \<Rightarrow> (r, (s', l)))"

definition set_locals :: "(sp_locals \<Rightarrow> sp_locals) \<Rightarrow> (sp_state, unit) proc" where
  "set_locals f = modp (\<lambda>(s, l). (s, f l))"

definition missing_health :: string where
  "missing_health = ''Check that all I/O modules and power supplies in the enclosure are fully seated in their slots and that their latches are locked''"

text \<open>
  \<^verbatim>\<open>_get_unhealthy_components\<close> assigns to each component the values it already has, so it can only
  raise.
\<close>

primrec check_component_keys :: "pyv \<Rightarrow> string list \<Rightarrow> unit res" where
  "check_component_keys c [] = Inr ()"
| "check_component_keys c (k # ks) = bindr (py_in (PStr k) c) (\<lambda>there.
     if there then bindr (get_default c k (PStr [])) (\<lambda>v. bindr (setitem c k v) (\<lambda>_. check_component_keys c ks))
     else check_component_keys c ks)"

primrec check_components :: "pyv list \<Rightarrow> unit res" where
  "check_components [] = Inr ()"
| "check_components (c # cs) =
     bindr (check_component_keys c [''health'', ''health-reason'', ''health-recommendation'', ''component-id''])
       (\<lambda>_. check_components cs)"

definition get_unhealthy_components :: "pyv \<Rightarrow> pyv res" where
  "get_unhealthy_components unhealthy_components =
     bindr (iter_list unhealthy_components) (\<lambda>cs. bindr (check_components cs) (\<lambda>_. Inr (PList cs)))"

definition sideplane_info_key_list :: "string list" where
  "sideplane_info_key_list = [''name'', ''status'', ''location'', ''health'', ''health-reason'', ''health-recommendation'',
     ''enclosure-id'', ''durable-id'', ''drawer-id'', ''position'']"

definition sideplane_create_internal_json_message :: "fru_env \<Rightarrow> pyv \<Rightarrow> pyv \<Rightarrow> string \<Rightarrow> (fru_state, pyv) proc" where
  "sideplane_create_internal_json_message env sideplane unhealthy alert_type =
     bindp (liftp (if truthy unhealthy then get_unhealthy_components unhealthy else Inr PNone)) (\<lambda>_.
     bindp (liftp (select_items sideplane_info_key_list sideplane)) (\<lambda>items.
     let sideplane_info = PDict (AList.update ''unhealthy_components'' unhealthy items) in
     bindp (liftp (map_severity alert_type)) (\<lambda>severity.
     bindp (fresh_alert env) (\<lambda>(epoch_time, alert_id).
     bindp (liftp (get_key sideplane_info ''drawer-id'')) (\<lambda>drawer.
     bindp (liftp (bindr (get_default sideplane_info ''name'' (PStr [])) key_text)) (\<lambda>name.
     bindp (liftp (get_fqdn env)) (\<lambda>host_name.
     bindp (getp rssencl) (\<lambda>e.
     bindp (liftp (is_storage_fru ''SIDEPLANE'' e)) (\<lambda>fru.
     bindp (liftp (json_dumps (enclosure_alert
       [(''status'', PStr ''update''), (''host_id'', PStr host_name), (''alert_type'', PStr alert_type),
        (''alert_id'', PStr alert_id), (''severity'', PStr severity),
        (''info'', alert_info ''enclosure:hw:sideplane'' fru
           (PStr (''drawer'' @ '' '' @ py_str drawer @ '' '' @ name)) epoch_time),
        (''specific_info'', sideplane_info)]))) (\<lambda>text. ret (PStr text)))))))))))"

definition sideplane_raise :: "string \<Rightarrow> string \<Rightarrow> (sp_state, unit) proc" where
  "sideplane_raise durable_id alert_type =
     bindp (on_sensor (known_faulty durable_id)) (\<lambda>known.
       if \<not> known then
         seqp (set_locals (\<lambda>l. l\<lparr>sp_alert := Some alert_type\<rparr>))
              (on_sensor (set_faulty durable_id (PStr alert_type)))
       else ret ())"

definition sideplane_resolve :: "string \<Rightarrow> (sp_state, unit) proc" where
  "sideplane_resolve durable_id =
     bindp (on_sensor (known_faulty durable_id)) (\<lambda>known.
       if known then
         bindp (on_sensor (bindp (getp fr_faulty) (\<lambda>faulty. liftp (get_key faulty durable_id)))) (\<lambda>prev.
         seqp (set_locals (\<lambda>l. l\<lparr>sp_alert := Some (if py_eq prev (PStr ''missing'') then ''insertion'' else ''fault_resolved'')\<rparr>))
              (on_sensor (del_faulty durable_id)))
       else ret ())"

definition sideplane_decide :: "string \<Rightarrow> string \<Rightarrow> (sp_state, unit) proc" where
  "sideplane_decide fru_status durable_id =
     bindp (getp (\<lambda>p. sp_recommendation (snd p))) (\<lambda>reco.
       if fru_status = HEALTH_FAULT \<and> reco \<notin> {None, Some []} then
         (if contains missing_health (the reco) then sideplane_raise durable_id ''missing'' else ret ())
       else if fru_status = HEALTH_FAULT then sideplane_raise durable_id ''fault''
       else if fru_status = HEALTH_OK then sideplane_resolve durable_id
       else ret ())"

definition sideplane_send :: "fru_env \<Rightarrow> pyv \<Rightarrow> string \<Rightarrow> (sp_state, unit) proc" where
  "sideplane_send env sideplane durable_id =
     bindp (getp snd) (\<lambda>l. case sp_alert l of
       None \<Rightarrow> ret ()
     | Some a \<Rightarrow>
         seqp (on_sensor (bindp (sideplane_create_internal_json_message env sideplane (sp_unhealthy l) a) (\<lambda>m.
                 seqp (send_to_handler m) (persist_faulty env (sideplane_path env) (durable_id, a)))))
              (set_locals (\<lambda>l. l\<lparr>sp_alert := None\<rparr>)))"

definition sideplane_turn :: "fru_env \<Rightarrow> pyv \<Rightarrow> (sp_state, unit) proc" where
  "sideplane_turn env sideplane =
     bindp (liftp (get_default sideplane ''unhealthy-component'' (PList []))) (\<lambda>unhealthy.
     seqp (set_locals (\<lambda>l. l\<lparr>sp_unhealthy := unhealthy\<rparr>))
     (bindp (liftp (bindr (get_key sideplane ''health'') lower_method)) (\<lambda>fru_status.
      bindp (liftp (bindr (get_key sideplane ''durable-id'') lower_method)) (\<lambda>durable_id.
      seqp (if truthy unhealthy then
              bindp (liftp (bindr (getindex unhealthy 0) (\<lambda>c. getitem c ''health-recommendation''))) (\<lambda>v.
                set_locals (\<lambda>l. l\<lparr>sp_recommendation := Some (py_str v)\<rparr>))
            else ret ())
      (seqp (sideplane_decide fru_status durable_id) (sideplane_send env sideplane durable_id))))))"

definition sideplane_loop :: "fru_env \<Rightarrow> pyv list \<Rightarrow> (sp_state, unit) proc" where
  "sideplane_loop env sideplanes = forp sideplanes (\<lambda>sp. swallow (sideplane_turn env sp))"

definition check_for_sideplane_expander_fault :: "fru_env \<Rightarrow> (fru_state, unit) proc" where
  "check_for_sideplane_expander_fault env =
     bindp (get_sideplane_expander_list env) (\<lambda>sps.
     seqp (modp (\<lambda>s. s\<lparr>fr_list := sps\<rparr>))
     (if \<not> truthy sps then ret ()
      else bindp (liftp (iter_list sps)) (\<lambda>xs s.
        case sideplane_loop env xs (s, \<lparr>sp_alert = None, sp_recommendation = None, sp_unhealthy = PDict []\<rparr>) of
          (r, (s', _)) \<Rightarrow> (r, s'))))"

definition sideplane_run :: "fru_env \<Rightarrow> (fru_state, unit) proc" where
  "sideplane_run env = bindp (getp fr_suspended) (\<lambda>suspended.
     if suspended then enter 30
     else
       seqp (read_debug_msg env ''RealStorSideplaneExpanderSensor'')
       (seqp (check_for_sideplane_expander_fault env) (enter (poll_frequency env))))"

section \<open>Properties\<close>

text \<open>A faulty sideplane as the web service reports it, with the given unhealthy components.\<close>

definition faulty_sideplane :: "pyv \<Rightarrow> pyv list \<Rightarrow> bool" where
  "faulty_sideplane sp cs \<longleftrightarrow> (\<exists>d h i. sp = PDict d \<and> map_of d ''health'' = Some (PStr h) \<and> lower h = ''fault'' \<and>
     map_of d ''durable-id'' = Some (PStr i) \<and>
     (if cs = [] then map_of d ''unhealthy-component'' \<in> {None, Some (PList [])}
      else map_of d ''unhealthy-component'' = Some (PList cs)))"

lemma faulty_turn_silent:
  assumes "faulty_sideplane sp cs" and "sp_alert l = None"
    and "cs \<noteq> [] \<Longrightarrow> getitem (hd cs) ''health-recommendation'' = Inr (PStr r)"
    and "cs = [] \<Longrightarrow> sp_recommendation l = Some r"
    and "r \<noteq> []" and "\<not> contains missing_health r"
  shows "sideplane_turn env sp (s, l) = (Inr (), (s, l\<lparr>sp_recommendation := Some r, sp_unhealthy := PList cs\<rparr>))"
proof (cases cs)
  case Nil
  with assms show ?thesis
    by (auto simp: faulty_sideplane_def sideplane_turn_def sideplane_decide_def sideplane_send_def set_locals_def
        HEALTH_FAULT_def py_exec)
next
  case (Cons c cs')
  with assms show ?thesis
    by (auto simp: faulty_sideplane_def sideplane_turn_def sideplane_decide_def sideplane_send_def set_locals_def
        HEALTH_FAULT_def py_exec py_str_def)
qed

text \<open>
  A faulty sideplane whose first unhealthy component carries a recommendation other than the
  one for a missing module raises no alert at all, and the recommendation is still there for the
  sideplanes after it: a faulty one that lists no unhealthy component raises none either. The state
  of the sensor does not change.\<close>

lemma sideplane_fault_not_reported:
  assumes "faulty_sideplane a (c # cs)" and "faulty_sideplane b []"
    and "getitem c ''health-recommendation'' = Inr (PStr r)" and "r \<noteq> []" and "\<not> contains missing_health r"
    and "sp_alert l = None"
  shows "fst (snd (sideplane_loop env [a, b] (s, l))) = s"
proof -
  have "sideplane_turn env a (s, l) = (Inr (), (s, l\<lparr>sp_recommendation := Some r, sp_unhealthy := PList (c # cs)\<rparr>))"
    by (rule faulty_turn_silent) (use assms in auto)
  moreover have "sideplane_turn env b (s, l\<lparr>sp_recommendation := Some r, sp_unhealthy := PList (c # cs)\<rparr>) =
      (Inr (), (s, l\<lparr>sp_recommendation := Some r, sp_unhealthy := PList []\<rparr>))"
    using faulty_turn_silent [OF assms(2), of "l\<lparr>sp_recommendation := Some r, sp_unhealthy := PList (c # cs)\<rparr>" r env s]
      assms by simp
  ultimately show ?thesis by (simp add: sideplane_loop_def py_exec)
qed

definition demo_sideplane :: "string \<Rightarrow> pyv list \<Rightarrow> pyv" where
  "demo_sideplane k cs = PDict [(''durable-id'', PStr k), (''health'', PStr ''Fault''), (''unhealthy-component'', PList cs)]"

lemma demo_sideplane_faulty: "faulty_sideplane (demo_sideplane k cs) cs"
proof -
  have "lower ''Fault'' = ''fault''" by code_simp
  then show ?thesis by (cases cs) (auto simp: faulty_sideplane_def demo_sideplane_def)
qed

lemma sideplane_fault_not_reported_witness:
  "fst (snd (sideplane_loop demo_fru_env
     [demo_sideplane ''sp_0'' [PDict [(''health-recommendation'', PStr ''Replace the sideplane.'')]], demo_sideplane ''sp_1'' []]
     (demo_fru, \<lparr>sp_alert = None, sp_recommendation = None, sp_unhealthy = PDict []\<rparr>))) = demo_fru"
proof -
  have "\<not> contains missing_health ''Replace the sideplane.''" by code_simp
  with sideplane_fault_not_reported [OF demo_sideplane_faulty demo_sideplane_faulty,
      of "PDict [(''health-recommendation'', PStr ''Replace the sideplane.'')]" "''Replace the sideplane.''"]
  show ?thesis by simp
qed

end
