(* ===== verification/Realstor_Encl_Sensor.thy ===== *)
theory Realstor_Encl_Sensor
  imports Realstor_Fru
begin

text \<open>
  \<^verbatim>\<open>sensors/impl/platforms/realstor/realstor_enclosure_sensor.py\<close>: raises a fault alert when the
  management controllers of the enclosure have not been reachable for a while, and resolves it
  when they answer again. It reads the failure counter and the last status that the enclosure
  client keeps (\<open>Realstor_Enclosure\<close>). The flag and the last alert are persisted as text.
\<close>

section \<open>The sensor\<close>

record es_state =
  es_encl :: encl
  es_q :: "nat msgq"
  es_built :: nat
  alert_type :: "string option"
  previous_alert_type :: pyv
  fault_alert :: bool
  encl_status :: "string option"
  es_persistent :: pyv
  es_suspended :: bool
  es_schedule :: "int list"
  es_raised :: "string list"

definition on_es_encl :: "(encl, 'a) proc \<Rightarrow> (es_state, 'a) proc" where
  "on_es_encl m s = (case m (es_encl s) of (r, e) \<Rightarrow> (r, s\<lparr>es_encl := e\<rparr>))"

definition on_es_q :: "(nat msgq, 'a) proc \<Rightarrow> (es_state, 'a) proc" where
  "on_es_q m s = (case m (es_q s) of (r, q) \<Rightarrow> (r, s\<lparr>es_q := q\<rparr>))"

abbreviation es_fs :: "es_state \<Rightarrow> fs" where
  "es_fs s \<equiv> encl_fs (es_encl s)"

definition es_path :: "fru_env \<Rightarrow> string" where
  "es_path env = path_join (encl_cache (cli env)) ''enclosure_data.json''"

text \<open>\<^verbatim>\<open>str(self.fault_alert)\<close> and \<^verbatim>\<open>str(self.previous_alert_type)\<close>.\<close>

definition bool_text :: "bool \<Rightarrow> string" where
  "bool_text b = (if b then ''True'' else ''False'')"

definition alert_text :: "pyv \<Rightarrow> string" where
  "alert_text v = (case v of PStr t \<Rightarrow> t | _ \<Rightarrow> ''None'')"

definition es_data :: "es_state \<Rightarrow> pyv" where
  "es_data s = PDict [(''fault_alert'', PStr (bool_text (fault_alert s))),
     (''previous_alert_type'', PStr (alert_text (previous_alert_type s)))]"

definition es_store :: "fru_env \<Rightarrow> es_state \<Rightarrow> es_state" where
  "es_store env s = s\<lparr>es_persistent := es_data s,
     es_encl := (es_encl s)\<lparr>encl_fs := store_put (es_data s) (es_path env) True (es_fs s)\<rparr>\<rparr>"

definition es_initialize :: "fru_env \<Rightarrow> (es_state, bool) proc" where
  "es_initialize env =
     seqp (modp (\<lambda>s. s\<lparr>es_schedule := es_schedule s @ [1]\<rparr>))
     (bindp (getp (\<lambda>s. store_get (es_fs s) (es_path env))) (\<lambda>data.
      seqp (modp (\<lambda>s. s\<lparr>es_persistent := data\<rparr>))
      (seqp (if truthy data then
               bindp (liftp (bindr (getitem data ''fault_alert'') lower_method)) (\<lambda>t.
               seqp (modp (\<lambda>s. s\<lparr>fault_alert := (t = ''true'')\<rparr>))
               (bindp (liftp (getitem data ''previous_alert_type'')) (\<lambda>p. modp (\<lambda>s. s\<lparr>previous_alert_type := p\<rparr>))))
             else modp (es_store env))
       (ret True))))"

text \<open>\<^verbatim>\<open>check_system_status\<close>: the last twenty events.\<close>

definition check_system_status :: "fru_env \<Rightarrow> (es_state, pyv) proc" where
  "check_system_status env =
     bindp (getp (\<lambda>s. build_url ''/show/events'' (es_encl s) @ '' last 20'')) (\<lambda>url.
     bindp (on_es_encl (checked_response (ws_request (cli env) url ''GET''))) (\<lambda>response. case response of
       None \<Rightarrow> ret PNone
     | Some r \<Rightarrow>
         if status_code r \<noteq> Some HTTP_OK
         then (if contains LOOPBACK url then ret PNone else raise PyException)
         else liftp (bindr (encl_loads (cli env) (content r)) (\<lambda>data. getitem data ''events''))))"

definition ENCL_FAULT_RESOLVED_EVENTS :: "string list" where
  "ENCL_FAULT_RESOLVED_EVENTS =
     [''The network-port Ethernet link is down for controller A'',
      ''The network-port Ethernet link is down for controller B'',
      ''The Management Controller IP address changed'',
      ''The Management Controller booted up.'',
      ''Both controllers have shut down; no restart'',
      ''Storage Controller booted up (cold boot - power up).'',
      ''Management Controller configuration parameters were set'']"

definition unreachable_text :: string where
  "unreachable_text = ''Storage Enclosure unreachable,'' @
     ''Possible causes : Enclosure / Storage Controller /'' @ ''Management Controller rebooting,'' @
     ''Network port blocked by firewall,'' @ ''Network outage or Power outage.''"

text \<open>The first known event named in a message.\<close>

primrec first_event :: "string list \<Rightarrow> pyv \<Rightarrow> string option res" where
  "first_event [] msg = Inr None"
| "first_event (e # es) msg = bindr (py_in (PStr e) msg) (\<lambda>there. if there then Inr (Some e) else first_event es msg)"

definition status_event :: "pyv \<Rightarrow> (es_state, unit) proc" where
  "status_event st =
     bindp (liftp (getitem st ''severity'')) (\<lambda>sev.
       if py_eq sev (PStr ''INFORMATIONAL'') then
         bindp (liftp (getitem st ''message'')) (\<lambda>msg.
         bindp (liftp (first_event ENCL_FAULT_RESOLVED_EVENTS msg)) (\<lambda>found. case found of
           None \<Rightarrow> ret ()
         | Some e \<Rightarrow> modp (\<lambda>s. s\<lparr>encl_status := Some e\<rparr>)))
       else ret ())"

definition resolved_status :: "pyv list \<Rightarrow> (es_state, unit) proc" where
  "resolved_status sts = forp sts status_event"

text \<open>\<^verbatim>\<open>system_status[0:5]\<close>.\<close>

fun take_slice :: "nat \<Rightarrow> pyv \<Rightarrow> pyv list res" where
  "take_slice n (PList xs) = Inr (take n xs)"
| "take_slice n (PStr s) = Inr (map (\<lambda>c. PStr [c]) (take n s))"
| "take_slice n (PBytes s) = Inr (map (\<lambda>c. PInt (of_char c)) (take n s))"
| "take_slice n (PDict d) = Inl TypeError"
| "take_slice n _ = Inl TypeError"

definition opt_text :: "string option \<Rightarrow> pyv" where
  "opt_text t = (case t of None \<Rightarrow> PNone | Some s \<Rightarrow> PStr s)"

definition es_message :: "fru_env \<Rightarrow> string \<Rightarrow> string option \<Rightarrow> (es_state, pyv) proc" where
  "es_message env a status =
     bindp (liftp (map_severity a)) (\<lambda>severity.
     bindp (getp es_built) (\<lambda>n.
     let epoch_time = str_int (epoch env n); alert_id = get_alert_id (salt env n) epoch_time in
     seqp (modp (\<lambda>s. s\<lparr>es_built := es_built s + 1\<rparr>))
     (bindp (getp es_encl) (\<lambda>e.
      bindp (liftp (is_storage_fru ''enclosure'' e)) (\<lambda>fru.
      bindp (liftp (get_fqdn env)) (\<lambda>host_name.
      bindp (liftp (json_dumps (enclosure_alert
        [(''host_id'', PStr host_name), (''severity'', PStr severity), (''alert_id'', PStr alert_id),
         (''alert_type'', PStr a), (''status'', PStr ''update''),
         (''info'', PDict [(''resource_type'', PStr ''enclosure''), (''fru'', PStr fru), (''resource_id'', PStr ''0''),
            (''event_time'', PStr epoch_time), (''description'', opt_text status)]),
         (''specific_info'', PDict [(''event'', opt_text status)])]))) (\<lambda>text. ret (PStr text))))))))"

definition es_send_json_msg :: "fru_env \<Rightarrow> string \<Rightarrow> string option \<Rightarrow> (es_state, unit) proc" where
  "es_send_json_msg env a status =
     bindp (es_message env a status) (\<lambda>m.
     seqp (modp (\<lambda>s. s\<lparr>previous_alert_type := PStr a\<rparr>))
     (seqp (on_es_q (write_internal_msgQ ''RealStorEnclMsgHandler'' m None))
     (seqp (modp (\<lambda>s. s\<lparr>es_raised := es_raised s @ [a]\<rparr>))
           (modp (es_store env)))))"

definition es_unreachable :: "es_state \<Rightarrow> bool" where
  "es_unreachable s = (mc_timeout_counter (es_encl s) > 10 \<and> \<not> fault_alert s)"

definition es_reachable_again :: "es_state \<Rightarrow> bool" where
  "es_reachable_again s = (mc_timeout_counter (es_encl s) = 0 \<and> ws_response_status (es_encl s) = Some HTTP_OK \<and>
     \<not> py_eq (previous_alert_type s) (PStr ''fault_resolved'') \<and> fault_alert s)"

definition es_resolve :: "fru_env \<Rightarrow> (es_state, unit) proc" where
  "es_resolve env =
     bindp (check_system_status env) (\<lambda>status.
       if status = PNone then ret ()
       else
         seqp (modp (\<lambda>s. s\<lparr>alert_type := Some ''fault_resolved''\<rparr>))
         (bindp (liftp (take_slice 5 status)) (\<lambda>sts.
          seqp (resolved_status sts) (modp (\<lambda>s. s\<lparr>fault_alert := False\<rparr>)))))"

definition es_check :: "fru_env \<Rightarrow> (es_state, unit) proc" where
  "es_check env =
     bindp (getp (\<lambda>s. s)) (\<lambda>s.
       if es_unreachable s then
         modp (\<lambda>s. s\<lparr>alert_type := Some ''fault'', encl_status := Some unreachable_text, fault_alert := True\<rparr>)
       else if es_reachable_again s then es_resolve env
       else ret ())"

definition es_send_pending :: "fru_env \<Rightarrow> (es_state, unit) proc" where
  "es_send_pending env =
     bindp (getp (\<lambda>s. (alert_type s, encl_status s))) (\<lambda>(a, status). case a of
       None \<Rightarrow> ret ()
     | Some a \<Rightarrow> seqp (es_send_json_msg env a status) (modp (\<lambda>s. s\<lparr>alert_type := None\<rparr>)))"

definition es_run :: "fru_env \<Rightarrow> (es_state, unit) proc" where
  "es_run env = bindp (getp es_suspended) (\<lambda>suspended.
     if suspended then modp (\<lambda>s. s\<lparr>es_schedule := es_schedule s @ [10]\<rparr>)
     else
       seqp (modp (\<lambda>s. s\<lparr>es_q := snd (read_my_msgQ_noWait (encl_loads (cli env)) ''RealStorEnclosureSensor'' (es_q s))\<rparr>))
       (seqp (es_check env)
       (seqp (es_send_pending env)
             (modp (\<lambda>s. s\<lparr>es_schedule := es_schedule s @ [30]\<rparr>)))))"

section \<open>Frames\<close>

lemma check_system_status_frame:
  "\<exists>e. snd (check_system_status env s) = s\<lparr>es_encl := e\<rparr> \<and> encl_fs e = es_fs s"
proof -
  let ?m = "checked_response (ws_request (cli env) (build_url ''/show/events'' (es_encl s) @ '' last 20'') ''GET'')"
  have "encl_fs (snd (?m (es_encl s))) = es_fs s"
    by (rule checked_response_fs) (rule ws_request_fs)
  then show ?thesis
    by (cases "?m (es_encl s)")
      (auto simp: check_system_status_def py_exec on_es_encl_def split: sum.splits option.splits)
qed

lemma resolved_status_frame: "\<exists>x. snd (resolved_status sts s) = s\<lparr>encl_status := x\<rparr>"
proof -
  let ?I = "\<lambda>s'. \<exists>x. s' = s\<lparr>encl_status := x\<rparr>"
  have "keeps ?I (status_event st)" for st
    by (auto simp: keeps_def status_event_def py_exec split: sum.splits option.splits)
  then have "keeps ?I (resolved_status sts)"
    unfolding resolved_status_def by (rule keeps_forp)
  moreover have "?I s" by (rule exI [of _ "encl_status s"]) simp
  ultimately show ?thesis by (rule keepsD)
qed

section \<open>Invariant and steps\<close>

text \<open>
  Between two runs no alert is pending, the store holds what the sensor remembers, and the flag is
  set exactly when the last alert was a fault.
\<close>

definition es_inv :: "fru_env \<Rightarrow> es_state \<Rightarrow> bool" where
  "es_inv env s \<longleftrightarrow> fs_wf (es_fs s) \<and> writable (es_fs s) (es_path env) \<and>
     store_get (es_fs s) (es_path env) = es_data s \<and> alert_type s = None \<and>
     previous_alert_type s \<in> {PNone, PStr ''None'', PStr ''fault'', PStr ''fault_resolved''} \<and>
     (fault_alert s \<longleftrightarrow> previous_alert_type s = PStr ''fault'')"

definition es_prev :: "es_state \<Rightarrow> string option" where
  "es_prev s = (if previous_alert_type s \<in> {PStr ''fault'', PStr ''fault_resolved''}
     then Some (alert_text (previous_alert_type s)) else None)"

lemma es_resolve_cases:
  assumes "es_resolve env s = (r, s')"
  shows "es_fs s' = es_fs s \<and> es_raised s' = es_raised s \<and> previous_alert_type s' = previous_alert_type s \<and>
    (r = Inr () \<longrightarrow> alert_type s' = alert_type s \<and> fault_alert s' = fault_alert s \<or>
       alert_type s' = Some ''fault_resolved'' \<and> \<not> fault_alert s')"
proof -
  obtain r1 e where c: "check_system_status env s = (r1, s\<lparr>es_encl := e\<rparr>)" "encl_fs e = es_fs s"
    using check_system_status_frame [of env s] by (metis prod.collapse)
  show ?thesis
  proof (cases r1)
    case (Inl x)
    with assms c show ?thesis by (auto simp: es_resolve_def bindp_def)
  next
    case (Inr status)
    let ?s1 = "s\<lparr>es_encl := e, alert_type := Some ''fault_resolved''\<rparr>"
    have fr: "\<exists>x. snd (resolved_status sts ?s1) = ?s1\<lparr>encl_status := x\<rparr>" for sts
      by (rule resolved_status_frame)
    show ?thesis
    proof (cases "status = PNone")
      case True
      with assms c Inr show ?thesis by (auto simp: es_resolve_def bindp_def ret_def)
    next
      case False
      show ?thesis
      proof (cases "take_slice 5 status")
        case (Inl x)
        with assms c Inr False show ?thesis by (auto simp: es_resolve_def py_exec)
      next
        case sts: (Inr sts)
        obtain r2 x where "resolved_status sts ?s1 = (r2, ?s1\<lparr>encl_status := x\<rparr>)"
          using fr by (metis prod.collapse)
        with assms c Inr False sts show ?thesis
          by (cases r2) (auto simp: es_resolve_def py_exec)
      qed
    qed
  qed
qed

lemma es_check_cases:
  assumes "es_check env s = (r, s')"
  shows "es_fs s' = es_fs s \<and> es_raised s' = es_raised s \<and> previous_alert_type s' = previous_alert_type s \<and>
    (r = Inr () \<longrightarrow>
       alert_type s' = alert_type s \<and> fault_alert s' = fault_alert s \<or>
       alert_type s' = Some ''fault'' \<and> \<not> fault_alert s \<and> fault_alert s' \<or>
       alert_type s' = Some ''fault_resolved'' \<and> fault_alert s \<and> \<not> fault_alert s')"
proof (cases "es_unreachable s \<or> \<not> es_reachable_again s")
  case True
  with assms show ?thesis
    by (auto simp: es_check_def py_exec es_unreachable_def split: if_splits)
next
  case False
  then have "es_resolve env s = (r, s')" "fault_alert s"
    using assms by (auto simp: es_check_def py_exec es_reachable_again_def)
  with es_resolve_cases [of env s r s'] show ?thesis by blast
qed

lemma es_message_frame: "\<exists>n. snd (es_message env a st s) = s\<lparr>es_built := n\<rparr>"
proof -
  let ?I = "\<lambda>s'. \<exists>n. s' = s\<lparr>es_built := n\<rparr>"
  have inc: "keeps ?I (modp (\<lambda>s. s\<lparr>es_built := es_built s + 1\<rparr>))" by (auto simp: keeps_def modp_def)
  have "keeps ?I (es_message env a st)"
    unfolding es_message_def Let_def by (intro keeps_rules inc)
  moreover have "?I s" by (rule exI [of _ "es_built s"]) simp
  ultimately show ?thesis by (rule keepsD)
qed

lemma es_send_cases:
  assumes "es_send_json_msg env a st s = (r, s')"
  shows "(case r of Inl _ \<Rightarrow> es_fs s' = es_fs s \<and> es_raised s' = es_raised s
    | Inr _ \<Rightarrow> es_raised s' = es_raised s @ [a] \<and> previous_alert_type s' = PStr a \<and> fault_alert s' = fault_alert s \<and>
        es_fs s' = store_put (es_data (s\<lparr>previous_alert_type := PStr a\<rparr>)) (es_path env) True (es_fs s))"
proof -
  obtain r1 n where m: "es_message env a st s = (r1, s\<lparr>es_built := n\<rparr>)"
    using es_message_frame by (metis prod.collapse)
  show ?thesis
  proof (cases r1)
    case (Inl x)
    with assms m show ?thesis by (auto simp: es_send_json_msg_def py_exec)
  next
    case (Inr m')
    obtain r2 q where w: "write_internal_msgQ ''RealStorEnclMsgHandler'' m' None (es_q s) = (r2, q)" by fastforce
    with assms m Inr show ?thesis
      by (cases r2) (auto simp: es_send_json_msg_def py_exec on_es_q_def es_store_def es_data_def)
  qed
qed

lemma es_pending_step:
  assumes "es_send_pending env s = (r, s')" and "fs_wf (es_fs s)" and "writable (es_fs s) (es_path env)"
  shows "case r of Inl _ \<Rightarrow> es_fs s' = es_fs s \<and> es_raised s' = es_raised s
    | Inr _ \<Rightarrow> (case alert_type s of None \<Rightarrow> s' = s
       | Some a \<Rightarrow> es_raised s' = es_raised s @ [a] \<and> previous_alert_type s' = PStr a \<and> alert_type s' = None \<and>
           fault_alert s' = fault_alert s \<and> fs_wf (es_fs s') \<and> writable (es_fs s') (es_path env) \<and>
           store_get (es_fs s') (es_path env) = es_data s')"
proof (cases "alert_type s")
  case None
  with assms(1) show ?thesis by (auto simp: es_send_pending_def py_exec)
next
  case (Some a)
  obtain r1 s1 where s1: "es_send_json_msg env a (encl_status s) s = (r1, s1)" by fastforce
  have "writable (store_put v (es_path env) True (es_fs s)) (es_path env)" for v
    using assms(3) writable_put [of "es_fs s" "es_path env" "es_path env" v True]
    by (auto simp: indep_def writable_def)
  with es_send_cases [OF s1] assms Some s1 show ?thesis
    by (cases r1) (auto simp: es_send_pending_def py_exec es_data_def store_put_wf store_get_put_pickled)
qed

lemma es_run_step:
  assumes inv: "es_inv env s" and run: "es_run env s = (r, s')"
  shows "case r of Inl _ \<Rightarrow> es_fs s' = es_fs s \<and> es_raised s' = es_raised s
    | Inr _ \<Rightarrow> es_inv env s' \<and> alert_step (es_prev s) (es_raised s) (es_prev s') (es_raised s')"
proof (cases "es_suspended s")
  case True
  with run inv show ?thesis
    by (auto simp: es_run_def py_exec es_inv_def es_data_def alert_step_def es_prev_def)
next
  case False
  define s0 where "s0 = s\<lparr>es_q := snd (read_my_msgQ_noWait (encl_loads (cli env)) ''RealStorEnclosureSensor'' (es_q s))\<rparr>"
  obtain r1 s1 where s1: "es_check env s0 = (r1, s1)" by fastforce
  note c = es_check_cases [OF s1]
  show ?thesis
  proof (cases r1)
    case (Inl x)
    with run False s1 c show ?thesis by (auto simp: es_run_def py_exec s0_def)
  next
    case (Inr u)
    obtain r2 s2 where s2: "es_send_pending env s1 = (r2, s2)" by fastforce
    have st: "fs_wf (es_fs s1)" "writable (es_fs s1) (es_path env)" "store_get (es_fs s1) (es_path env) = es_data s"
      using inv c by (auto simp: es_inv_def s0_def)
    note p = es_pending_step [OF s2 st(1,2)]
    have "es_run env s = (case r2 of Inl e \<Rightarrow> (Inl e, s2)
        | Inr _ \<Rightarrow> (Inr (), s2\<lparr>es_schedule := es_schedule s2 @ [30]\<rparr>))"
      using False s1 Inr s2 unfolding s0_def
      by (cases r2) (simp_all add: es_run_def seqp_def bindp_def getp_def modp_def)
    with run have r: "r = (case r2 of Inl e \<Rightarrow> Inl e | Inr _ \<Rightarrow> Inr ())"
        "s' = (case r2 of Inl _ \<Rightarrow> s2 | Inr _ \<Rightarrow> s2\<lparr>es_schedule := es_schedule s2 @ [30]\<rparr>)"
      by (auto split: sum.splits)
    show ?thesis
    proof (cases r2)
      case (Inl x)
      with r p c show ?thesis by (auto simp: s0_def)
    next
      case r2: (Inr v)
      show ?thesis
      proof (cases "alert_type s1")
        case None
        with r r2 p c Inr inv st show ?thesis
          by (auto simp: s0_def es_inv_def es_data_def alert_step_def es_prev_def)
      next
        case (Some a)
        with r r2 p c Inr inv show ?thesis
          by (auto simp: s0_def es_inv_def es_data_def alert_step_def es_prev_def alert_text_def)
      qed
    qed
  qed
qed

text \<open>The attributes of a new sensor object.\<close>

definition es_fresh :: "es_state \<Rightarrow> es_state" where
  "es_fresh s = s\<lparr>alert_type := None, previous_alert_type := PNone, fault_alert := False, encl_status := None\<rparr>"

text \<open>
  What may happen: a run returns; a run raises and the daemon starts the sensor anew; the daemon is
  restarted; other sensors use the enclosure client or the queues.
\<close>

inductive es_step :: "fru_env \<Rightarrow> es_state \<Rightarrow> es_state \<Rightarrow> bool" for env where
  es_ran: "es_run env s = (Inr (), s') \<Longrightarrow> es_step env s s'"
| es_crashed: "es_run env s = (Inl x, s1) \<Longrightarrow> es_initialize env (es_fresh s1) = (Inr b, s') \<Longrightarrow> es_step env s s'"
| es_restarted: "es_initialize env (es_fresh s) = (Inr b, s') \<Longrightarrow> es_step env s s'"
| es_others: "encl_fs e = es_fs s \<Longrightarrow> es_step env s (s\<lparr>es_encl := e, es_q := q\<rparr>)"

lemma lower_bool_text: "lower (bool_text b) = ''true'' \<longleftrightarrow> b"
proof -
  have "lower ''True'' = ''true''" "lower ''False'' = ''false''" by code_simp+
  then show ?thesis by (simp add: bool_text_def)
qed

lemma es_restart_step:
  assumes inv: "es_inv env s" and fs: "es_fs s1 = es_fs s" and raised: "es_raised s1 = es_raised s"
    and init: "es_initialize env (es_fresh s1) = (Inr b, s')"
  shows "es_inv env s' \<and> alert_step (es_prev s) (es_raised s) (es_prev s') (es_raised s')"
proof -
  have "store_get (es_fs (es_fresh s1)) (es_path env) = es_data s"
    using inv fs by (simp add: es_inv_def es_fresh_def)
  then have s': "s' = (es_fresh s1)\<lparr>es_schedule := es_schedule s1 @ [1], es_persistent := es_data s,
      fault_alert := fault_alert s, previous_alert_type := PStr (alert_text (previous_alert_type s))\<rparr>"
    using init by (auto simp: es_initialize_def py_exec es_data_def es_fresh_def lower_bool_text)
  then show ?thesis
    using inv fs raised by (auto simp: es_inv_def es_data_def es_fresh_def es_prev_def alert_text_def alert_step_def)
qed

lemma es_step_sound:
  assumes "es_step env s s'" and "es_inv env s"
  shows "es_inv env s' \<and> alert_step (es_prev s) (es_raised s) (es_prev s') (es_raised s')"
  using assms
proof (cases rule: es_step.cases)
  case es_ran
  from es_run_step [OF assms(2) this] show ?thesis by simp
next
  case (es_crashed x s1 b)
  from es_run_step [OF assms(2) es_crashed(1)] have "es_fs s1 = es_fs s" "es_raised s1 = es_raised s" by simp_all
  from es_restart_step [OF assms(2) this es_crashed(2)] show ?thesis .
next
  case (es_restarted b)
  from es_restart_step [OF assms(2) refl refl es_restarted] show ?thesis .
next
  case (es_others e q)
  with assms(2) show ?thesis by (auto simp: es_inv_def es_data_def es_prev_def alert_step_def)
qed

interpretation es: alert_log "es_inv env" "es_step env" es_prev es_raised for env
  by unfold_locales (auto dest: es_step_sound)

section \<open>Properties\<close>

text \<open>
  Through any sequence of runs, crashes and restarts of the sensor and of changes the other
  sensors make to the enclosure client, the enclosure sensor never raises the same alert twice in a
  row: a fault is raised again only after it was resolved.\<close>

lemma enclosure_alerts_never_repeat:
  assumes "es_inv env s" and "es_raised s = []" and "(es_step env)\<^sup>*\<^sup>* s s'"
  shows "successively (\<noteq>) (es_raised s')"
proof (rule es.never_repeats [OF assms(1) _ _ assms(3)])
  show "es.linked s" using assms(2) by (simp add: es.linked_def)
qed (simp add: assms(2))

definition demo_es :: es_state where
  "demo_es = \<lparr>es_encl = (demo_encl ''10.0.0.3'')\<lparr>mc_timeout_counter := 11\<rparr>,
     es_q = \<lparr>msgQlist = [(''RealStorEnclMsgHandler'', [])], msgq_dbg = init_debug\<rparr>, es_built = 0, alert_type = None,
     previous_alert_type = PNone, fault_alert = False, encl_status = None, es_persistent = PNone, es_suspended = False,
     es_schedule = [], es_raised = []\<rparr>"

lemma demo_es_inv: "es_inv demo_fru_env (es_store demo_fru_env demo_es)"
proof -
  have "es_path demo_fru_env \<notin> set (ancestors (dirname (es_path demo_fru_env)))" by code_simp
  then have w: "fs_wf (es_fs demo_es)" "writable (es_fs demo_es) (es_path demo_fru_env)"
    by (simp_all add: demo_es_def demo_encl_def fs_wf_def isfile_def isdir_def writable_def)
  then have "writable (store_put v (es_path demo_fru_env) True (es_fs demo_es)) (es_path demo_fru_env)" for v
    by (intro writable_put) (auto simp: indep_def writable_def)
  with w show ?thesis
    by (simp add: es_inv_def es_store_def store_put_wf store_get_put_pickled es_data_def) (simp add: demo_es_def)
qed

lemma enclosure_alerts_never_repeat_witness:
  "\<exists>s'. (es_step demo_fru_env)\<^sup>*\<^sup>* (es_store demo_fru_env demo_es) s' \<and> es_raised s' = [''fault''] \<and>
     successively (\<noteq>) (es_raised s')"
proof -
  let ?s = "es_store demo_fru_env demo_es"
  have run: "fst (es_run demo_fru_env ?s) = Inr ()" "es_raised (snd (es_run demo_fru_env ?s)) = [''fault'']"
    "es_raised ?s = []" by code_simp+
  then have "(es_step demo_fru_env)\<^sup>*\<^sup>* ?s (snd (es_run demo_fru_env ?s))"
    by (intro r_into_rtranclp es_step.es_ran) (metis prod.collapse)
  with enclosure_alerts_never_repeat [OF demo_es_inv run(3)] run(2) show ?thesis by blast
qed

end
