(* ===== verification/Realstor_Handler.thy ===== *)
theory Realstor_Handler
  imports Internal_MsgQ Json_Msgs
begin

text \<open>
  \<^verbatim>\<open>message_handlers/real_stor_encl_msg_handler.py\<close>: the handler between the enclosure sensors and the
  egress processor. It turns the internal message of a sensor into the JSON message of its class,
  keeps the last one per sensor type for requests of the command line client, and passes it on with
  the event the sensor waits on.
\<close>

section \<open>The handler\<close>

record rh_state =
  rh_q :: "nat msgq"
  rh_event :: "nat option"
  fru_type :: pydict
  rh_suspended :: bool
  rh_schedule :: "int list"

record rh_env =
  rh_msgs :: msg_env
  rh_loads :: "string \<Rightarrow> pyv res"

definition on_rh_q :: "(nat msgq, 'a) proc \<Rightarrow> (rh_state, 'a) proc" where
  "on_rh_q m s = (case m (rh_q s) of (r, q) \<Rightarrow> (r, s\<lparr>rh_q := q\<rparr>))"

type_synonym msg_class = "msg_env \<Rightarrow> pyv \<Rightarrow> pyv \<Rightarrow> pyv \<Rightarrow> pyv \<Rightarrow> pyv \<Rightarrow> pyv \<Rightarrow> pyv res"

definition fru_func_dict :: "(string \<times> msg_class) list" where
  "fru_func_dict =
     [(''sideplane'', RealStorSideplaneExpanderDataMsg), (''fan'', RealStorFanDataMsg), (''psu'', RealStorPSUDataMsg),
      (''controller'', RealStorControllerDataMsg), (''disk'', RealStorDiskDataMsg),
      (''logical_volume'', RealStorLogicalVolumeDataMsg), (''disk_group'', RealStorDiskGroupDataMsg),
      (''enclosure'', RealStorEnclDataMsg)]"

definition rh_initialize :: "(rh_state, unit) proc" where
  "rh_initialize = modp (\<lambda>s. s\<lparr>rh_schedule := rh_schedule s @ [1], rh_event := None,
     fru_type := map (\<lambda>p. (fst p, PNone)) fru_func_dict\<rparr>)"

text \<open>\<^verbatim>\<open>s.split(":")\<close>.\<close>

fun split_colon :: "string \<Rightarrow> string list" where
  "split_colon [] = [[]]"
| "split_colon (c # s) = (if c = CHR '':'' then [] # split_colon s
     else case split_colon s of [] \<Rightarrow> [[c]] | w # ws \<Rightarrow> (c # w) # ws)"

text \<open>The sensor type in a resource type such as \<^verbatim>\<open>enclosure:hw:psu\<close>.\<close>

fun sensor_type_of :: "pyv \<Rightarrow> pyv res" where
  "sensor_type_of (PStr s) =
     (if contains '':'' s
      then (let ws = split_colon s in if 2 < length ws then Inr (PStr (ws ! 2)) else Inl IndexError)
      else Inr (PStr s))"
| "sensor_type_of v = bindr (py_in (PStr '':'') v) (\<lambda>b. if b then Inl AttributeError else Inr v)"

text \<open>
  The eight \<^verbatim>\<open>_generate_..._alert\<close> methods differ only in the class of the message.
\<close>

definition generate_alert :: "rh_env \<Rightarrow> msg_class \<Rightarrow> string \<Rightarrow> pyv \<Rightarrow> (rh_state, unit) proc" where
  "generate_alert env cls sensor_type request =
     bindp (liftp (get_keys request [''host_id'', ''alert_type'', ''alert_id'', ''severity'', ''info'', ''specific_info''])) (\<lambda>d.
     bindp (liftp (bindr (cls (rh_msgs env) (snd (d ! 0)) (snd (d ! 1)) (snd (d ! 2)) (snd (d ! 3)) (snd (d ! 4)) (snd (d ! 5)))
                         (sensor_getJson (rh_msgs env)))) (\<lambda>text.
     seqp (modp (\<lambda>s. s\<lparr>fru_type := AList.update sensor_type (PStr text) (fru_type s)\<rparr>))
     (bindp (getp rh_event) (\<lambda>ev.
       on_rh_q (write_internal_msgQ ''EgressProcessor'' (PStr text) ev)))))"

text \<open>
  \<^verbatim>\<open>_propagate_alert\<close>: an unknown sensor type gives \<^verbatim>\<open>None\<close>, and calling it raises \<^verbatim>\<open>TypeError\<close>; every
  exception is only logged.
\<close>

definition propagate_alert :: "rh_env \<Rightarrow> pyv \<Rightarrow> pyv \<Rightarrow> (rh_state, unit) proc" where
  "propagate_alert env request sensor_type = swallow (case sensor_type of
     PStr t \<Rightarrow> (case map_of fru_func_dict t of
         None \<Rightarrow> raise TypeError
       | Some cls \<Rightarrow> generate_alert env cls t request)
   | _ \<Rightarrow> raise TypeError)"

definition send_saved :: "pyv \<Rightarrow> (rh_state, unit) proc" where
  "send_saved sensor_type =
     bindp (getp fru_type) (\<lambda>saved.
     bindp (liftp (if hashable sensor_type
        then Inr (case sensor_type of PStr t \<Rightarrow> (case map_of saved t of None \<Rightarrow> PStr [] | Some v \<Rightarrow> v) | _ \<Rightarrow> PStr [])
        else Inl TypeError)) (\<lambda>m.
       if truthy m then bindp (getp rh_event) (\<lambda>ev. on_rh_q (write_internal_msgQ ''EgressProcessor'' m ev))
       else ret ()))"

definition rh_process_msg :: "rh_env \<Rightarrow> pyv \<Rightarrow> (rh_state, unit) proc" where
  "rh_process_msg env json_msg =
     bindp (liftp (get_path json_msg [''sensor_request_type'', ''enclosure_alert''])) (\<lambda>request.
       if request \<noteq> PNone then
         bindp (liftp (get_key request ''status'')) (\<lambda>status.
         bindp (liftp (bindr (get_path request [''info'', ''resource_type'']) sensor_type_of)) (\<lambda>sensor_type.
           if truthy status then propagate_alert env request sensor_type else send_saved sensor_type))
       else ret ())"

text \<open>
  The loop of \<^verbatim>\<open>run\<close>: reads until the queue is empty. \<open>None\<close> when a read blocks for good or the fuel
  ends; an exception leaves the loop.
\<close>

definition rh_read :: "rh_env \<Rightarrow> rh_state \<Rightarrow> (pyv \<times> rh_state) option" where
  "rh_read env s = (case read_my_msgQ (rh_loads env) ''RealStorEnclMsgHandler'' (rh_q s) of
     (Blocked, q) \<Rightarrow> None
   | (Got (m, ev), q) \<Rightarrow> Some (m, s\<lparr>rh_q := q, rh_event := ev\<rparr>))"

primrec rh_loop :: "nat \<Rightarrow> rh_env \<Rightarrow> rh_state \<Rightarrow> (unit res \<times> rh_state) option" where
  "rh_loop 0 env s = None"
| "rh_loop (Suc n) env s = (case rh_read env s of
     None \<Rightarrow> None
   | Some (m, s1) \<Rightarrow>
       (case (if m \<noteq> PNone then rh_process_msg env m s1 else (Inr (), s1)) of
          (Inl e, s2) \<Rightarrow> Some (Inl e, s2)
        | (Inr _, s2) \<Rightarrow>
            (case is_my_msgQ_empty ''RealStorEnclMsgHandler'' (rh_q s2) of
               (Inl e, _) \<Rightarrow> Some (Inl e, s2)
             | (Inr True, _) \<Rightarrow> Some (Inr (), s2)
             | (Inr False, _) \<Rightarrow> rh_loop n env s2)))"

definition rh_run :: "nat \<Rightarrow> rh_env \<Rightarrow> rh_state \<Rightarrow> (unit res \<times> rh_state) option" where
  "rh_run fuel env s = (if rh_suspended s then Some (Inr (), s\<lparr>rh_schedule := rh_schedule s @ [1]\<rparr>)
     else map_option (\<lambda>(_, s'). (Inr (), s'\<lparr>rh_schedule := rh_schedule s' @ [1]\<rparr>)) (rh_loop fuel env s))"

definition rh_suspend :: "rh_state \<Rightarrow> rh_state" where
  "rh_suspend s = s\<lparr>rh_suspended := True\<rparr>"

definition rh_resume :: "rh_state \<Rightarrow> rh_state" where
  "rh_resume s = s\<lparr>rh_suspended := False\<rparr>"

section \<open>Forwarding an alert\<close>

lemma fru_alert_msg_ok:
  assumes "json_able h" "json_able a" "json_able aid" "json_able sev" "json_able (PDict i)" "json_able (PDict sp)"
  shows "\<exists>m i'. fru_alert_msg h a aid sev (PDict i) (PDict sp) = Inr m \<and>
    get_items m [''message'', ''sensor_response_type'', ''info''] = Inr (PDict i') \<and> json_able m"
proof -
  have "json_able (look i k)" "json_able (look sp k)" for k
    using json_able_look assms by blast+
  moreover have "get_key (PDict sp) ''health-reason'' = Inr (look sp ''health-reason'')" by (simp add: look_def)
  ultimately show ?thesis
    using assms by (auto simp: fru_alert_msg_def get_keys_PDict sensor_envelope_def envelope_def sspl_ll_msg_header_def)
qed

text \<open>The message of a sensor as the handler reads it.\<close>

definition fru_request :: "pydict \<Rightarrow> string \<Rightarrow> bool" where
  "fru_request rd t \<longleftrightarrow> json_able (PDict rd) \<and> truthy (look rd ''status'') \<and>
     (\<exists>i sp rt. look rd ''info'' = PDict i \<and> look rd ''specific_info'' = PDict sp \<and>
        look i ''resource_type'' = PStr rt \<and> sensor_type_of (PStr rt) = Inr (PStr t))"

lemma generate_alert_run:
  assumes "msg_env_ok (rh_msgs env)" and cls: "\<And>a b c d e f. cls (rh_msgs env) a b c d e f = fru_alert_msg a b c d e f"
    and "json_able (PDict rd)" and "look rd ''info'' = PDict i" and "look rd ''specific_info'' = PDict sp"
    and q: "map_of (msgQlist (rh_q s)) ''EgressProcessor'' = Some ms"
  shows "\<exists>text. generate_alert env cls t (PDict rd) s =
    (Inr (), s\<lparr>fru_type := AList.update t (PStr text) (fru_type s),
       rh_q := (rh_q s)\<lparr>msgQlist := AList.update ''EgressProcessor'' (ms @ [(PStr text, rh_event s)]) (msgQlist (rh_q s))\<rparr>\<rparr>)"
proof -
  have able: "json_able (look rd k)" for k using json_able_look assms(3) by blast
  then have "json_able (PDict i)" "json_able (PDict sp)" using assms(4,5) by metis+
  from fru_alert_msg_ok [OF able able able able this, of "''host_id''" "''alert_type''" "''alert_id''" "''severity''"] obtain m i' where
    m: "fru_alert_msg (look rd ''host_id'') (look rd ''alert_type'') (look rd ''alert_id'') (look rd ''severity'') (PDict i) (PDict sp) = Inr m"
      "get_items m [''message'', ''sensor_response_type'', ''info''] = Inr (PDict i')" "json_able m" by blast
  then obtain j where "sensor_getJson (rh_msgs env) m = Inr j"
    using sensor_getJson_total [OF assms(1)] by blast
  with m(1) assms(4,5) show ?thesis
    by (auto simp: generate_alert_def get_keys_PDict py_exec cls on_rh_q_def write_run [OF q] nth_Cons')
qed

definition alert_msg_of :: "pydict \<Rightarrow> pydict" where
  "alert_msg_of rd = [(''sensor_request_type'', PDict [(''enclosure_alert'', PDict rd)])]"

lemma fru_classes:
  "t \<in> {''psu'', ''fan'', ''controller'', ''disk''} \<Longrightarrow> sensor_schema env = Inr c \<Longrightarrow>
    \<exists>cls. map_of fru_func_dict t = Some cls \<and> (\<forall>u v w x y z. cls env u v w x y z = fru_alert_msg u v w x y z)"
  by (auto simp: fru_func_dict_def RealStorPSUDataMsg_def RealStorFanDataMsg_def RealStorControllerDataMsg_def
      RealStorDiskDataMsg_def with_schema_def)

lemma rh_process_run:
  assumes ok: "msg_env_ok (rh_msgs env)" and t: "t \<in> {''psu'', ''fan'', ''controller'', ''disk''}"
    and rq: "fru_request rd t" and q: "map_of (msgQlist (rh_q s)) ''EgressProcessor'' = Some ms"
  shows "\<exists>j. rh_process_msg env (PDict (alert_msg_of rd)) s =
    (Inr (), s\<lparr>fru_type := AList.update t (PStr j) (fru_type s),
       rh_q := (rh_q s)\<lparr>msgQlist := AList.update ''EgressProcessor'' (ms @ [(PStr j, rh_event s)]) (msgQlist (rh_q s))\<rparr>\<rparr>)"
proof -
  obtain i sp rt where rd: "json_able (PDict rd)" "look rd ''info'' = PDict i" "look rd ''specific_info'' = PDict sp"
      "look i ''resource_type'' = PStr rt" "sensor_type_of (PStr rt) = Inr (PStr t)" "truthy (look rd ''status'')"
    using rq by (auto simp: fru_request_def)
  obtain cls where cls: "map_of fru_func_dict t = Some cls"
      "\<forall>u v w x y z. cls (rh_msgs env) u v w x y z = fru_alert_msg u v w x y z"
    using fru_classes [OF t, of "rh_msgs env"] ok by (auto simp: msg_env_ok_def)
  have keys: "get_key (PDict rd) k = Inr (look rd k)" "get_key (PDict i) k = Inr (look i k)" for k
    by (simp_all add: look_def)
  obtain j where "generate_alert env cls t (PDict rd) s =
    (Inr (), s\<lparr>fru_type := AList.update t (PStr j) (fru_type s),
       rh_q := (rh_q s)\<lparr>msgQlist := AList.update ''EgressProcessor'' (ms @ [(PStr j, rh_event s)]) (msgQlist (rh_q s))\<rparr>\<rparr>)"
    using generate_alert_run [OF ok _ rd(1-3) q, of cls t] cls(2) by blast
  moreover have "get_path (PDict (alert_msg_of rd)) [''sensor_request_type'', ''enclosure_alert''] = Inr (PDict rd)"
    by (simp add: alert_msg_of_def)
  ultimately show ?thesis
    using rd cls(1) keys
    by (auto simp: rh_process_msg_def propagate_alert_def py_exec simp del: get_key_PDict sensor_type_of.simps)
qed

text \<open>One message in the queue of the handler: it is read, turned into JSON and passed on with its event.\<close>

lemma rh_run_forwards:
  assumes ok: "msg_env_ok (rh_msgs env)" and t: "t \<in> {''psu'', ''fan'', ''controller'', ''disk''}"
    and rq: "fru_request rd t" and loads: "rh_loads env raw = Inr (PDict (alert_msg_of rd))"
    and hq: "map_of (msgQlist (rh_q s)) ''RealStorEnclMsgHandler'' = Some [(PStr raw, ev)]"
    and eq: "map_of (msgQlist (rh_q s)) ''EgressProcessor'' = Some ms" and "\<not> rh_suspended s"
  shows "\<exists>j s'. rh_run (Suc n) env s = Some (Inr (), s') \<and>
    map_of (msgQlist (rh_q s')) ''EgressProcessor'' = Some (ms @ [(PStr j, ev)]) \<and>
    map_of (msgQlist (rh_q s')) ''RealStorEnclMsgHandler'' = Some [] \<and> map_of (fru_type s') t = Some (PStr j)"
proof -
  have "as_message (rh_loads env) (PStr raw) = Inr (PDict (alert_msg_of rd))" using loads by simp
  moreover have "map_of (alert_msg_of rd) ''sspl_ll_debug'' = None" by (simp add: alert_msg_of_def)
  ultimately obtain q where q: "read_my_msgQ (rh_loads env) ''RealStorEnclMsgHandler'' (rh_q s) =
      (Got (PDict (alert_msg_of rd), ev), q)"
    "msgQlist q = AList.update ''RealStorEnclMsgHandler'' [] (msgQlist (rh_q s))"
    using read_plain [OF hq] by auto
  let ?s1 = "s\<lparr>rh_q := q, rh_event := ev\<rparr>"
  have "map_of (msgQlist (rh_q ?s1)) ''EgressProcessor'' = Some ms" using q(2) eq by simp
  from rh_process_run [OF ok t rq this] obtain j where
    "rh_process_msg env (PDict (alert_msg_of rd)) ?s1 =
      (Inr (), ?s1\<lparr>fru_type := AList.update t (PStr j) (fru_type s),
         rh_q := q\<lparr>msgQlist := AList.update ''EgressProcessor'' (ms @ [(PStr j, ev)]) (msgQlist q)\<rparr>\<rparr>)" by auto
  with q assms(7) show ?thesis
    by (auto simp: rh_run_def rh_read_def is_my_msgQ_empty_def)
qed

section \<open>Types\<close>

definition is_msg :: "pyv \<Rightarrow> bool" where
  "is_msg v = (case v of PStr _ \<Rightarrow> True | PDict _ \<Rightarrow> True | _ \<Rightarrow> False)"

text \<open>What the egress processor will read is text or a dictionary.\<close>

definition egress_typed :: "nat msgq \<Rightarrow> bool" where
  "egress_typed q \<longleftrightarrow> (\<forall>ms. map_of (msgQlist q) ''EgressProcessor'' = Some ms \<longrightarrow> (\<forall>m \<in> set ms. is_msg (fst m)))"

text \<open>The table of saved messages has exactly the known sensor types and holds nothing but text.\<close>

definition rh_typed :: "rh_state \<Rightarrow> bool" where
  "rh_typed s \<longleftrightarrow> map fst (fru_type s) = map fst fru_func_dict \<and>
     (\<forall>p \<in> set (fru_type s). snd p = PNone \<or> (\<exists>t. snd p = PStr t)) \<and> egress_typed (rh_q s)"

lemma keeps_typed_write: "is_msg m \<Longrightarrow> keeps egress_typed (write_internal_msgQ n m e)"
  by (auto simp: keeps_def write_internal_msgQ_def egress_typed_def split: option.splits)

lemma keeps_typed_dbg: "keeps egress_typed (on_dbg p)"
  by (auto simp: keeps_def on_dbg_def egress_typed_def split: prod.splits)

lemma keeps_typed_entry: "keeps egress_typed (handle_entry loads entry)"
  unfolding handle_entry_def debug_off_globally_def
  by (intro keeps_rules keeps_typed_dbg keeps_typed_write)
    (auto simp: is_msg_def debug_off_msg_def bounce_msg_def split: prod.splits intro!: keeps_rules keeps_typed_write)

lemma typed_read:
  assumes "egress_typed q" and "n \<noteq> ''EgressProcessor''" and "read_my_msgQ loads n q = (out, q')"
  shows "egress_typed q'"
proof (cases "map_of (msgQlist q) n")
  case None
  with assms show ?thesis by (simp add: read_my_msgQ_def)
next
  case (Some ms)
  show ?thesis
  proof (cases ms)
    case Nil
    with assms Some show ?thesis by (simp add: read_my_msgQ_def)
  next
    case (Cons m ms')
    let ?q = "q\<lparr>msgQlist := AList.update n ms' (msgQlist q)\<rparr>"
    have "egress_typed ?q" using assms(1,2) by (simp add: egress_typed_def)
    then have "egress_typed (snd (handle_entry loads m ?q))" by (rule keepsD [OF keeps_typed_entry])
    moreover have "q' = snd (handle_entry loads m ?q)"
      using assms(3) Some Cons by (auto simp: read_my_msgQ_def split: prod.splits sum.splits)
    ultimately show ?thesis by simp
  qed
qed

lemma keeps_typed_on_q: "keeps egress_typed m \<Longrightarrow> keeps rh_typed (on_rh_q m)"
  by (auto simp: keeps_def on_rh_q_def rh_typed_def split: prod.splits)

lemma keeps_typed_save:
  assumes "t \<in> fst ` set fru_func_dict"
  shows "keeps rh_typed (modp (\<lambda>s. s\<lparr>fru_type := AList.update t (PStr j) (fru_type s)\<rparr>))"
proof (rule keeps_modp)
  fix s assume s: "rh_typed s"
  have "set (AList.update t (PStr j) (fru_type s)) \<subseteq> insert (t, PStr j) (set (fru_type s))"
    by (rule set_update_subset)
  with s assms show "rh_typed (s\<lparr>fru_type := AList.update t (PStr j) (fru_type s)\<rparr>)"
    by (auto simp: rh_typed_def update_keys)
qed

lemma keeps_typed_generate:
  assumes "t \<in> fst ` set fru_func_dict"
  shows "keeps rh_typed (generate_alert env cls t request)"
  unfolding generate_alert_def
  by (intro keeps_rules keeps_typed_save [OF assms] keeps_typed_on_q keeps_typed_write) (simp add: is_msg_def)

lemma keeps_typed_saved: "rh_typed s \<Longrightarrow> rh_typed (snd (send_saved v s))"
proof -
  assume s: "rh_typed s"
  have saved: "is_msg m" if "map_of (fru_type s) t = Some m" "truthy m" for t m
    using that s by (auto simp: rh_typed_def is_msg_def dest!: map_of_SomeD)
  have w: "rh_typed (snd (on_rh_q (write_internal_msgQ ''EgressProcessor'' m (rh_event s)) s))" if "is_msg m" for m
    by (rule keepsD [OF keeps_typed_on_q [OF keeps_typed_write [OF that]] s])
  show ?thesis
    using s saved w by (cases v) (auto simp: send_saved_def py_exec split: option.splits)
qed

lemma keeps_typed_process: "keeps rh_typed (rh_process_msg env m)"
proof -
  have saved: "keeps rh_typed (send_saved v)" for v by (rule keepsI) (rule keeps_typed_saved)
  have fwd: "keeps rh_typed (propagate_alert env r v)" for r v
    unfolding propagate_alert_def
    by (auto intro!: keeps_rules keeps_typed_generate split: pyv.splits option.splits dest: map_of_SomeD)
      (force dest: map_of_SomeD)?
  show ?thesis unfolding rh_process_msg_def by (intro keeps_rules saved fwd)
qed

lemma rh_loop_typed: "rh_typed s \<Longrightarrow> rh_loop n env s = Some (r, s') \<Longrightarrow> rh_typed s'"
proof (induction n arbitrary: s)
  case (Suc n)
  obtain m s1 where rd: "rh_read env s = Some (m, s1)" using Suc.prems(2) by (auto split: option.splits)
  then have s1: "rh_typed s1"
    using Suc.prems(1) typed_read [of "rh_q s" "''RealStorEnclMsgHandler''"]
    by (auto simp: rh_read_def rh_typed_def split: read_outcome.splits prod.splits)
  then have s2: "rh_typed (snd (rh_process_msg env m s1))" by (rule keepsD [OF keeps_typed_process])
  from Suc.prems(2) rd s1 s2 show ?case
    by (auto split: prod.splits sum.splits bool.splits if_splits intro: Suc.IH)
qed simp

section \<open>Properties\<close>


definition demo_request :: pydict where
  "demo_request = [(''status'', PStr ''update''), (''host_id'', PStr ''node1''), (''alert_type'', PStr ''fault''),
     (''info'', PDict [(''resource_type'', PStr ''enclosure:hw:psu'')]), (''specific_info'', PDict [(''health-reason'', PStr ''x'')])]"

definition demo_rh_env :: rh_env where
  "demo_rh_env = \<lparr>rh_msgs = demo_msg_env, rh_loads = \<lambda>_. Inr (PDict (alert_msg_of demo_request))\<rparr>"

definition demo_rh :: "string \<Rightarrow> rh_state" where
  "demo_rh raw = \<lparr>rh_q = \<lparr>msgQlist = [(''RealStorEnclMsgHandler'', [(PStr raw, Some 7)]), (''EgressProcessor'', [])],
       msgq_dbg = init_debug\<rparr>, rh_event = None, fru_type = map (\<lambda>p. (fst p, PNone)) fru_func_dict,
     rh_suspended = False, rh_schedule = []\<rparr>"

lemma psu_sensor_type: "sensor_type_of (PStr ''enclosure:hw:psu'') = Inr (PStr ''psu'')"
  by code_simp

lemma demo_rh_typed: "rh_typed (demo_rh raw)"
  by (auto simp: rh_typed_def demo_rh_def egress_typed_def)


end
