(* ===== verification/Realstor_Volume.thy ===== *)
theory Realstor_Volume
  imports Realstor_Fru
begin

text \<open>
  \<^verbatim>\<open>sensors/impl/platforms/realstor/realstor_dg_volume_sensor.py\<close>: the sensor of the disk groups and
  logical volumes of the enclosure. The two loops over disk groups and volumes run the same
  statements on two dictionaries with two files; they are modelled once (\<open>vol_loop\<close>) over
  \<open>fru_state\<close>, and \<open>on_groups\<close> and \<open>on_volumes\<close> run them on the dictionary of the one and the other.
  A serial number is text. With an acknowledged alert the health it reports is recorded.
\<close>

section \<open>Messages\<close>

definition disk_groups_generic :: "string list" where
  "disk_groups_generic = [''object-name'', ''name'', ''size'', ''freespace'', ''storage-type'', ''pool'',
     ''pool-serial-number'', ''pool-percentage'', ''owner'', ''raidtype'', ''status'', ''create-date'',
     ''disk-description'', ''serial-number'', ''pool-sector-format'', ''health'', ''health-reason'',
     ''health-recommendation'']"

definition disk_groups_extended :: "string list" where
  "disk_groups_extended = [''blocksize'', ''size-numeric'', ''freespace-numeric'', ''raw-size'',
     ''raw-size-numeric'', ''storage-type-numeric'', ''storage-tier'', ''storage-tier-numeric'',
     ''total-pages'', ''allocated-pages'', ''available-pages'', ''performance-rank'', ''owner-numeric'',
     ''preferred-owner'', ''preferred-owner-numeric'', ''raidtype-numeric'', ''diskcount'', ''sparecount'',
     ''chunksize'', ''status-numeric'', ''lun'', ''min-drive-size'', ''min-drive-size-numeric'',
     ''create-date-numeric'', ''cache-read-ahead'', ''cache-read-ahead-numeric'', ''cache-flush-period'',
     ''read-ahead-enabled'', ''read-ahead-enabled-numeric'', ''write-back-enabled'',
     ''write-back-enabled-numeric'', ''job-running'', ''current-job'', ''current-job-numeric'',
     ''current-job-completion'', ''num-array-partitions'', ''largest-free-partition-space'',
     ''largest-free-partition-space-numeric'', ''num-drives-per-low-level-array'',
     ''num-expansion-partitions'', ''num-partition-segments'', ''new-partition-lba'',
     ''new-partition-lba-numeric'', ''array-drive-type'', ''array-drive-type-numeric'',
     ''disk-description-numeric'', ''is-job-auto-abortable'', ''is-job-auto-abortable-numeric'',
     ''blocks'', ''disk-dsd-enable-vdisk'', ''disk-dsd-enable-vdisk-numeric'', ''disk-dsd-delay-vdisk'',
     ''scrub-duration-goal'', ''adapt-target-spare-capacity'', ''adapt-target-spare-capacity-numeric'',
     ''adapt-actual-spare-capacity'', ''adapt-actual-spare-capacity-numeric'', ''adapt-critical-capacity'',
     ''adapt-critical-capacity-numeric'', ''adapt-degraded-capacity'', ''adapt-degraded-capacity-numeric'',
     ''adapt-linear-volume-boundary'', ''pool-sector-format-numeric'', ''health-numeric'']"

definition volumes_generic :: "string list" where
  "volumes_generic = [''volume-description'', ''blocks'', ''health'', ''size'', ''volume-name'', ''wwn'',
     ''storage-pool-name'', ''total-size'', ''volume-class'', ''allocated-size'', ''owner'', ''object-name'',
     ''raidtype'', ''health-reason'', ''progress'', ''blocksize'', ''serial-number'', ''virtual-disk-serial'',
     ''write-policy'', ''volume-type'', ''health-recommendation'', ''virtual-disk-name'', ''storage-type'',
     ''capabilities'']"

definition volumes_extended :: "string list" where
  "volumes_extended = [''cache-optimization'', ''container-serial'', ''cs-primary'', ''replication-set'',
     ''attributes'', ''preferred-owner'', ''volume-parent'', ''allowed-storage-tiers'', ''cs-copy-dest'',
     ''cs-copy-src'', ''container-name'', ''group-key'', ''snapshot-retention-priority'', ''pi-format'',
     ''reserved-size-in-pages'', ''cs-secondary'', ''volume-group'', ''health-numeric'',
     ''large-virtual-extents'', ''cs-replication-role'', ''durable-id'', ''threshold-percent-of-pool'',
     ''tier-affinity'', ''volume-qualifier'', ''snapshot'', ''snap-pool'', ''read-ahead-size'',
     ''zero-init-page-on-allocation'', ''allocate-reserved-pages-first'']"

text \<open>The loop over the items of a detail: each goes to the generic or the extended information.\<close>

definition sort_items :: "string list \<Rightarrow> string list \<Rightarrow> pydict \<Rightarrow> pydict \<times> pydict" where
  "sort_items generic extended items = fold (\<lambda>(k, v) (g, e).
       if k \<in> set generic then (AList.update k v g, e)
       else if k \<in> set extended then (g, AList.update k v e) else (g, e))
     items (dict_fromkeys generic (PStr ''NA''), dict_fromkeys extended (PStr ''NA''))"

definition vol_info :: "string \<Rightarrow> pyv \<Rightarrow> string \<Rightarrow> pyv" where
  "vol_info resource_type resource_id epoch_time =
     PDict [(''resource_type'', PStr resource_type), (''resource_id'', resource_id), (''event_time'', PStr epoch_time)]"

text \<open>The dictionary both kinds of message are built from, as JSON text.\<close>

definition vol_alert :: "string \<Rightarrow> string \<Rightarrow> string \<Rightarrow> string \<Rightarrow> pyv \<Rightarrow> pydict \<Rightarrow> pyv res" where
  "vol_alert host_name severity alert_id alert_type info specific =
     bindr (json_dumps (enclosure_alert
       [(''host_id'', PStr host_name), (''severity'', PStr severity), (''alert_id'', PStr alert_id),
        (''alert_type'', PStr alert_type), (''status'', PStr ''update''), (''info'', info),
        (''specific_info'', PDict specific)])) (\<lambda>t. Inr (PStr t))"

definition create_internal_msg_lvol :: "fru_env \<Rightarrow> pyv \<Rightarrow> pyv \<Rightarrow> string \<Rightarrow> (fru_state, pyv) proc" where
  "create_internal_msg_lvol env disk_group detail alert_type =
     (if \<not> truthy detail then ret (PDict [])
      else
        bindp (liftp (map_severity alert_type)) (\<lambda>severity.
        bindp (fresh_alert env) (\<lambda>(epoch_time, alert_id).
        bindp (liftp (get_default detail ''volume-name'' (PStr []))) (\<lambda>resource_id.
        bindp (liftp (get_fqdn env)) (\<lambda>host_name.
        bindp (liftp (dict_items detail)) (\<lambda>items.
        bindp (liftp (dict_items disk_group)) (\<lambda>group_items.
        let (generic_info, extended_info) = sort_items volumes_generic volumes_extended items;
            disk_groups_info = fst (sort_items disk_groups_generic [] group_items);
            specific = dict_update (AList.update ''disk-group'' (PList [PDict disk_groups_info]) generic_info) extended_info
        in liftp (vol_alert host_name severity alert_id alert_type
             (vol_info ''enclosure:cortx:logical_volume'' resource_id epoch_time) specific))))))))"

text \<open>\<^verbatim>\<open>cvg_info_dict\<close>, built from the configuration: the index of each CVG under its name.\<close>

primrec cvg_entries :: "nat \<Rightarrow> pyv list \<Rightarrow> pydict \<Rightarrow> pydict res" where
  "cvg_entries n [] d = Inr d"
| "cvg_entries n (cvg # cvgs) d =
     bindr (py_in (PStr ''name'') cvg) (\<lambda>there.
       if there then bindr (bindr (getitem cvg ''name'') key_text) (\<lambda>nm.
         cvg_entries (n + 1) cvgs (AList.update nm (PInt (int n)) d))
       else cvg_entries (n + 1) cvgs d)"

definition cvg_info_dict :: "pyv \<Rightarrow> pydict res" where
  "cvg_info_dict cvg_info = (if truthy cvg_info then bindr (iter_list cvg_info) (\<lambda>cvgs. cvg_entries 0 cvgs []) else Inr [])"

definition cvg_of :: "pydict \<Rightarrow> pyv \<Rightarrow> pydict res" where
  "cvg_of cvgs resource_id =
     bindr (py_in resource_id (PDict cvgs)) (\<lambda>there.
       Inr [(''cvg_name'', if there then resource_id else PStr ''NA''),
            (''cvg_id'', case resource_id of PStr nm \<Rightarrow> (case map_of cvgs nm of None \<Rightarrow> PStr ''NA'' | Some i \<Rightarrow> i) | _ \<Rightarrow> PStr ''NA'')])"

definition create_internal_msg_dg :: "fru_env \<Rightarrow> pydict \<Rightarrow> pyv \<Rightarrow> string \<Rightarrow> (fru_state, pyv) proc" where
  "create_internal_msg_dg env cvgs detail alert_type =
     (if \<not> truthy detail then ret (PDict [])
      else
        bindp (liftp (map_severity alert_type)) (\<lambda>severity.
        bindp (fresh_alert env) (\<lambda>(epoch_time, alert_id).
        bindp (liftp (get_default detail ''name'' (PStr []))) (\<lambda>resource_id.
        bindp (liftp (get_fqdn env)) (\<lambda>host_name.
        bindp (liftp (dict_items detail)) (\<lambda>items.
        bindp (liftp (cvg_of cvgs resource_id)) (\<lambda>cvg_info.
        let (generic_info, extended_info) = sort_items disk_groups_generic disk_groups_extended items;
            specific = dict_update (dict_update generic_info extended_info) cvg_info
        in liftp (vol_alert host_name severity alert_id alert_type
             (vol_info ''enclosure:cortx:disk_group'' resource_id epoch_time) specific))))))))"

definition vol_send_json_msg :: "pyv \<Rightarrow> (fru_state, unit) proc" where
  "vol_send_json_msg json_msg = (if \<not> truthy json_msg then ret () else send_to_handler json_msg)"

section \<open>The loop over disk groups or volumes\<close>

text \<open>The branches for a fault and a degraded health: \<open>other\<close> is the health a change is expected from.\<close>

definition vol_remember :: "string \<Rightarrow> string \<Rightarrow> string \<Rightarrow> (fru_state, string option) proc" where
  "vol_remember serial_number health other =
     bindp (known_faulty serial_number) (\<lambda>known.
     bindp (if known then bindp (getp fr_faulty) (\<lambda>faulty. liftp (bindr (getitem faulty serial_number) (\<lambda>e.
                  bindr (getitem e ''health'') (\<lambda>h. Inr (py_eq h (PStr other))))))
            else ret False) (\<lambda>changed.
       if changed \<or> \<not> known then
         seqp (set_faulty serial_number (PDict [(''health'', PStr health), (''alert_type'', PStr ''fault'')]))
              (ret (Some ''fault''))
       else ret None))"

definition vol_forget :: "string \<Rightarrow> string \<Rightarrow> (fru_state, string option) proc" where
  "vol_forget serial_number alert_type =
     bindp (known_faulty serial_number) (\<lambda>known.
       if known then seqp (del_faulty serial_number) (ret (Some alert_type)) else ret None)"

definition vol_decide :: "string \<Rightarrow> string \<Rightarrow> string \<Rightarrow> (fru_state, string option) proc" where
  "vol_decide resolved serial_number health =
     (if health = HEALTH_FAULT then vol_remember serial_number health ''degraded''
      else if health = HEALTH_DEGRADED then vol_remember serial_number health ''fault''
      else if health = HEALTH_OK then vol_forget serial_number resolved
      else ret None)"

text \<open>
  One turn; \<open>create\<close> builds the message and \<open>resolved\<close> is the alert type of a healthy item. The
  value is the message, when there is one.
\<close>

definition vol_one :: "fru_env \<Rightarrow> string \<Rightarrow> (pyv \<Rightarrow> string \<Rightarrow> (fru_state, pyv) proc) \<Rightarrow> bool \<Rightarrow> string \<Rightarrow> pyv
    \<Rightarrow> (fru_state, pyv list) proc" where
  "vol_one env path create send_message resolved item =
     bindp (liftp (bindr (getitem item ''health'') lower_method)) (\<lambda>health.
     bindp (liftp (bindr (getitem item ''serial-number'') key_text)) (\<lambda>serial_number.
     bindp (vol_decide resolved serial_number health) (\<lambda>alert. case alert of
       None \<Rightarrow> ret []
     | Some a \<Rightarrow>
         bindp (create item a) (\<lambda>m.
         seqp (if send_message then vol_send_json_msg m else ret ())
         (seqp (persist_faulty env path (serial_number, health)) (ret [m]))))))"

primrec vol_loop :: "fru_env \<Rightarrow> string \<Rightarrow> (pyv \<Rightarrow> string \<Rightarrow> (fru_state, pyv) proc) \<Rightarrow> bool \<Rightarrow> string \<Rightarrow> pyv list
    \<Rightarrow> (fru_state, pyv list) proc" where
  "vol_loop env path create send_message resolved [] = ret []"
| "vol_loop env path create send_message resolved (x # xs) =
     bindp (vol_one env path create send_message resolved x) (\<lambda>ms.
     bindp (vol_loop env path create send_message resolved xs) (\<lambda>ns. ret (ms @ ns)))"

section \<open>The sensor\<close>

record vol_state =
  vs_fru :: fru_state
  faulty_disk_groups :: pyv
  faulty_logical_volumes :: pyv
  dg_confirmed :: "(string \<times> string) list"
  lv_confirmed :: "(string \<times> string) list"

definition on_groups :: "(fru_state, 'a) proc \<Rightarrow> (vol_state, 'a) proc" where
  "on_groups m s = (case m ((vs_fru s)\<lparr>fr_faulty := faulty_disk_groups s, fr_confirmed := dg_confirmed s\<rparr>) of
     (r, f) \<Rightarrow> (r, s\<lparr>vs_fru := f, faulty_disk_groups := fr_faulty f, dg_confirmed := fr_confirmed f\<rparr>))"

definition on_volumes :: "(fru_state, 'a) proc \<Rightarrow> (vol_state, 'a) proc" where
  "on_volumes m s = (case m ((vs_fru s)\<lparr>fr_faulty := faulty_logical_volumes s, fr_confirmed := lv_confirmed s\<rparr>) of
     (r, f) \<Rightarrow> (r, s\<lparr>vs_fru := f, faulty_logical_volumes := fr_faulty f, lv_confirmed := fr_confirmed f\<rparr>))"

definition dg_path :: "fru_env \<Rightarrow> string" where
  "dg_path env = path_join (path_join (frus (cli env)) ''disk_groups'') ''disk_group_data.json''"

definition lv_path :: "fru_env \<Rightarrow> string" where
  "lv_path env = path_join (path_join (frus (cli env)) ''logical_volumes'') ''logical_volume_data.json''"

definition vol_initialize :: "fru_env \<Rightarrow> (vol_state, bool) proc" where
  "vol_initialize env =
     seqp (on_groups (enter 1))
     (seqp (on_volumes (load_faulty (lv_path env)))
     (seqp (on_groups (load_faulty (dg_path env))) (ret True)))"

definition get_disk_groups :: "fru_env \<Rightarrow> (fru_state, pyv) proc" where
  "get_disk_groups env = request_data env ''/show/disk-groups'' (\<lambda>data. get_key data ''disk-groups'')"

text \<open>Here another status than 200 raises for a loop-back address too.\<close>

definition get_logical_volumes :: "fru_env \<Rightarrow> pyv \<Rightarrow> (fru_state, pyv) proc" where
  "get_logical_volumes env pool_serial_number =
     bindp (getp (\<lambda>s. build_url ''/show/volumes'' (rssencl s) @ ''/pool/'' @ py_str pool_serial_number)) (\<lambda>url.
     bindp (on_encl (checked_response (ws_request (cli env) url ''GET''))) (\<lambda>response. case response of
       None \<Rightarrow> ret PNone
     | Some r \<Rightarrow>
         if status_code r \<noteq> Some HTTP_OK then raise PyException
         else liftp (bindr (encl_loads (cli env) (content r)) (\<lambda>data. get_key data ''volumes''))))"

text \<open>Without \<^verbatim>\<open>send_message\<close> a resolved disk group keeps the empty alert type.\<close>

definition get_msgs_for_faulty_disk_groups :: "fru_env \<Rightarrow> pydict \<Rightarrow> bool \<Rightarrow> pyv \<Rightarrow> (vol_state, pyv list option) proc" where
  "get_msgs_for_faulty_disk_groups env cvgs send_message disk_groups =
     (if \<not> truthy disk_groups then ret None
      else bindp (liftp (iter_list disk_groups)) (\<lambda>dgs.
        bindp (on_groups (vol_loop env (dg_path env) (create_internal_msg_dg env cvgs) send_message
            (if send_message then ''fault_resolved'' else []) dgs)) (\<lambda>ms. ret (Some ms))))"

definition get_msgs_for_faulty_logical_volumes :: "fru_env \<Rightarrow> pyv \<Rightarrow> bool \<Rightarrow> pyv \<Rightarrow> (vol_state, pyv list option) proc" where
  "get_msgs_for_faulty_logical_volumes env disk_group send_message logical_volumes =
     (if \<not> truthy logical_volumes then ret None
      else bindp (liftp (iter_list logical_volumes)) (\<lambda>lvs.
        bindp (on_volumes (vol_loop env (lv_path env) (create_internal_msg_lvol env disk_group) send_message
            ''fault_resolved'' lvs)) (\<lambda>ms. ret (Some ms))))"

definition check_volumes_of :: "fru_env \<Rightarrow> pyv \<Rightarrow> (vol_state, unit) proc" where
  "check_volumes_of env disk_group =
     bindp (liftp (getitem disk_group ''pool-serial-number'')) (\<lambda>pool_serial_number.
     bindp (on_volumes (get_logical_volumes env pool_serial_number)) (\<lambda>logical_volumes.
       if truthy logical_volumes then
         bindp (get_msgs_for_faulty_logical_volumes env disk_group True logical_volumes) (\<lambda>_. ret ())
       else ret ()))"

definition vol_run :: "fru_env \<Rightarrow> pydict \<Rightarrow> (vol_state, unit) proc" where
  "vol_run env cvgs =
     bindp (getp (\<lambda>s. fr_suspended (vs_fru s))) (\<lambda>suspended.
       if suspended then on_groups (enter 10)
       else
         seqp (on_groups (read_debug_msg env ''RealStorLogicalVolumeSensor''))
         (bindp (on_groups (get_disk_groups env)) (\<lambda>disk_groups.
          seqp (if truthy disk_groups then
                  seqp (bindp (get_msgs_for_faulty_disk_groups env cvgs True disk_groups) (\<lambda>_. ret ()))
                       (bindp (liftp (iter_list disk_groups)) (\<lambda>dgs. forp dgs (check_volumes_of env)))
                else ret ())
          (seqp (on_groups reset_debug) (on_groups (enter (poll_frequency env)))))))"

definition vol_suspend :: "vol_state \<Rightarrow> vol_state" where
  "vol_suspend s = s\<lparr>vs_fru := fru_suspend (vs_fru s)\<rparr>"

definition vol_resume :: "vol_state \<Rightarrow> vol_state" where
  "vol_resume s = s\<lparr>vs_fru := fru_resume (vs_fru s)\<rparr>"

section \<open>The specification\<close>

text \<open>
  An item reports its health when it differs from the remembered one; a healthy item is not
  remembered.
\<close>

definition vol_next :: alert_rule where
  "vol_next p health =
     (if health \<in> {''fault'', ''degraded''} \<and> p \<noteq> Some health then Some (Some health)
      else if health = ''ok'' \<and> p \<noteq> None then Some None else None)"

definition vol_spec :: "string \<Rightarrow> string option \<Rightarrow> string option" where
  "vol_spec health p = (if vol_next p health = None then None else Some health)"

definition vol_entry :: "pyv \<Rightarrow> string option" where
  "vol_entry v = (case v of PDict e \<Rightarrow>
       (case map_of e ''health'' of Some (PStr h) \<Rightarrow> if h \<in> {''fault'', ''degraded''} then Some h else None | _ \<Rightarrow> None)
     | _ \<Rightarrow> None)"

definition vol_abs :: "fru_state \<Rightarrow> fru_abs" where
  "vol_abs s = (outstanding vol_entry s, fr_confirmed s, fr_waits s)"

definition vol_observe :: "fru_env \<Rightarrow> string \<times> string \<Rightarrow> fru_abs \<Rightarrow> fru_abs" where
  "vol_observe env = (\<lambda>(k, health) t. observe_by vol_next env k (vol_spec health (fst t k)) t)"

definition vol_report :: "pyv \<Rightarrow> string \<Rightarrow> string \<Rightarrow> bool" where
  "vol_report x k health \<longleftrightarrow> (\<exists>d h. x = PDict d \<and> map_of d ''health'' = Some (PStr h) \<and> lower h = health \<and>
     map_of d ''serial-number'' = Some (PStr k))"

definition vol_entry_of :: "string \<Rightarrow> pyv" where
  "vol_entry_of h = PDict [(''health'', PStr h), (''alert_type'', PStr ''fault'')]"

definition vol_remembers :: "string \<Rightarrow> string option \<Rightarrow> pydict \<Rightarrow> pydict" where
  "vol_remembers k p m = (case p of None \<Rightarrow> AList.delete k m | Some h \<Rightarrow> AList.update k (vol_entry_of h) m)"

lemma vol_entry_Some:
  "vol_entry v = Some h \<Longrightarrow> \<exists>e. v = PDict e \<and> map_of e ''health'' = Some (PStr h) \<and> h \<in> {''fault'', ''degraded''}"
  by (auto simp: vol_entry_def split: pyv.splits option.splits if_splits)

lemma vol_decide_run:
  assumes inv: "fru_inv vol_entry path s" and m: "fr_faulty s = PDict m"
  shows "vol_decide resolved k health s = (case vol_spec health (outstanding vol_entry s k) of
      None \<Rightarrow> (Inr None, s)
    | Some _ \<Rightarrow> (Inr (Some (if health = ''ok'' then resolved else ''fault'')),
        s\<lparr>fr_faulty := PDict (vol_remembers k (the (vol_next (outstanding vol_entry s k) health)) m)\<rparr>))"
proof (cases "map_of m k")
  case None
  then show ?thesis
    using m known_faulty_run [OF m, of k]
    by (auto simp: vol_decide_def HEALTH_FAULT_def HEALTH_DEGRADED_def HEALTH_OK_def vol_spec_def vol_next_def outstanding_def
        vol_remember_def vol_forget_def set_faulty_def vol_entry_of_def py_exec vol_remembers_def)
next
  case (Some v)
  then obtain h where h: "vol_entry v = Some h" using inv m by (auto simp: fru_inv_def)
  obtain e where e: "v = PDict e" "map_of e ''health'' = Some (PStr h)" "h \<in> {''fault'', ''degraded''}"
    using vol_entry_Some [OF h] by blast
  have "k \<in> fst ` set m" using Some by (metis map_of_eq_None_iff option.distinct(1))
  moreover have "outstanding vol_entry s k = Some h" using Some m h by (simp add: outstanding_def)
  ultimately show ?thesis
    using Some m e known_faulty_run [OF m, of k]
    by (auto simp: vol_decide_def HEALTH_FAULT_def HEALTH_DEGRADED_def HEALTH_OK_def vol_spec_def vol_next_def
        vol_remember_def vol_forget_def set_faulty_def del_faulty_def vol_entry_of_def py_exec vol_remembers_def)
qed

lemma outstanding_vol_remembers:
  "fr_faulty s = PDict m \<Longrightarrow> fr_faulty s' = PDict (vol_remembers k p m) \<Longrightarrow> p = None \<or> p = Some ''fault'' \<or> p = Some ''degraded'' \<Longrightarrow>
    outstanding vol_entry s' = (outstanding vol_entry s)(k := p)"
  by (auto simp: outstanding_def vol_remembers_def vol_entry_of_def vol_entry_def fun_eq_iff split: option.splits)

lemma fru_inv_vol_remembers:
  assumes "fru_inv vol_entry path s" and "fr_faulty s = PDict m" and "fru_ok path (fr_faulty s') s'"
    and "fr_faulty s' = PDict (vol_remembers k p m) \<or> fr_faulty s' = PDict m"
    and "p = None \<or> p = Some ''fault'' \<or> p = Some ''degraded''"
  shows "fru_inv vol_entry path s'"
  using assms by (auto simp: fru_inv_def vol_remembers_def vol_entry_of_def vol_entry_def split: option.splits if_splits)

lemma vol_next_range: "vol_next q h = Some p \<Longrightarrow> p = None \<or> p = Some ''fault'' \<or> p = Some ''degraded''"
  by (auto simp: vol_next_def split: if_splits)

section \<open>What the loop relies on: messages can be built\<close>

text \<open>
  Building the message of a describable item succeeds and touches neither the dictionary nor the
  store nor the alerts.
\<close>

locale item_messages =
  fixes create :: "pyv \<Rightarrow> string \<Rightarrow> (fru_state, pyv) proc"
    and describable :: "pyv \<Rightarrow> bool"
  assumes create_quiet: "describable x \<Longrightarrow> fru_ok path f s \<Longrightarrow> a \<in> {''fault'', ''fault_resolved''} \<Longrightarrow>
      \<exists>t s'. create x a s = (Inr t, s') \<and> quiet s s'"
begin

lemma send_run:
  assumes "fru_ok path f s"
  shows "\<exists>s'. (if send then vol_send_json_msg m else ret ()) s = (Inr (), s') \<and> quiet s s'"
  using send_to_handler_run [OF assms, of m] by (auto simp: vol_send_json_msg_def ret_def quiet_def)

lemma alert_run:
  assumes "fru_ok path f s" and "describable x" and "a \<in> {''fault'', ''fault_resolved''}"
  shows "\<exists>m s'. bindp (create x a) (\<lambda>m. seqp (if send then vol_send_json_msg m else ret ())
      (seqp (persist_faulty env path e) (ret [m]))) s = (Inr [m], s') \<and> fru_ok path (fr_faulty s') s' \<and>
    (if ev_wait env (fr_waits s) then fr_faulty s' = fr_faulty s \<and> fr_confirmed s' = fr_confirmed s @ [e]
     else fr_faulty s' = f \<and> fr_confirmed s' = fr_confirmed s) \<and> fr_waits s' = fr_waits s + 1"
proof -
  obtain t s1 where s1: "create x a s = (Inr t, s1)" "quiet s s1"
    using create_quiet [OF assms(2,1,3)] by blast
  obtain s2 where s2: "(if send then vol_send_json_msg t else ret ()) s1 = (Inr (), s2)" "quiet s s2"
    using send_run [OF quiet_ok [OF s1(2) assms(1)]] quiet_trans s1(2) by blast
  obtain s3 where "persist_faulty env path e s2 = (Inr (), s3)" "fru_ok path (fr_faulty s3) s3"
      "if ev_wait env (fr_waits s2) then fr_faulty s3 = fr_faulty s2 \<and> fr_confirmed s3 = fr_confirmed s2 @ [e]
       else fr_faulty s3 = f \<and> fr_confirmed s3 = fr_confirmed s2" "fr_waits s3 = fr_waits s2 + 1"
    using persist_faulty_run [OF quiet_ok [OF s2(2) assms(1)], of env e] by blast
  with s1(1) s2 show ?thesis
    by (auto simp: bindp_def seqp_def ret_def quiet_def intro!: exI [of _ t] exI [of _ s3])
qed

lemma vol_one_run:
  assumes inv: "fru_inv vol_entry path s" and rep: "vol_report x k health" and x: "describable x"
  shows "\<exists>ms s'. vol_one env path create send ''fault_resolved'' x s = (Inr ms, s') \<and> fru_inv vol_entry path s' \<and>
    vol_abs s' = vol_observe env (k, health) (vol_abs s)"
proof -
  obtain m where m: "fr_faulty s = PDict m" using inv by (auto simp: fru_inv_def)
  have one: "vol_one env path create send ''fault_resolved'' x s = bindp (vol_decide ''fault_resolved'' k health) (\<lambda>alert. case alert of
       None \<Rightarrow> ret [] | Some a \<Rightarrow> bindp (create x a) (\<lambda>m. seqp (if send then vol_send_json_msg m else ret ())
         (seqp (persist_faulty env path (k, health)) (ret [m])))) s"
    using rep by (auto simp: vol_report_def vol_one_def bindp_def [of "liftp _"] liftp_def)
  show ?thesis
  proof (cases "vol_next (outstanding vol_entry s k) health")
    case None
    with one vol_decide_run [OF inv m] inv show ?thesis
      by (simp add: py_exec vol_spec_def vol_observe_def vol_abs_def observe_by_def)
  next
    case (Some p)
    let ?s1 = "s\<lparr>fr_faulty := PDict (vol_remembers k p m)\<rparr>"
    let ?a = "if health = ''ok'' then ''fault_resolved'' else ''fault''"
    have a: "?a \<in> {''fault'', ''fault_resolved''}" by simp
    have "fru_ok path (PDict m) ?s1" using inv m by (simp add: fru_inv_def)
    from alert_run [OF this x a, of send env "(k, health)"] obtain t s' where
      s': "bindp (create x ?a) (\<lambda>m. seqp (if send then vol_send_json_msg m else ret ())
          (seqp (persist_faulty env path (k, health)) (ret [m]))) ?s1 = (Inr [t], s')"
        "fru_ok path (fr_faulty s') s'"
        "if ev_wait env (fr_waits s) then fr_faulty s' = PDict (vol_remembers k p m) \<and> fr_confirmed s' = fr_confirmed s @ [(k, health)]
         else fr_faulty s' = PDict m \<and> fr_confirmed s' = fr_confirmed s" "fr_waits s' = fr_waits s + 1" by auto
    have "vol_one env path create send ''fault_resolved'' x s = (Inr [t], s')"
      using one vol_decide_run [OF inv m] Some s'(1) by (simp add: bindp_def [of "vol_decide _ _ _"] vol_spec_def)
    moreover have "fru_inv vol_entry path s'"
      using fru_inv_vol_remembers [OF inv m s'(2) _ vol_next_range [OF Some]] s'(3) by (auto split: if_splits)
    moreover have "vol_abs s' = vol_observe env (k, health) (vol_abs s)"
      using s'(3,4) Some m outstanding_vol_remembers [OF m _ vol_next_range [OF Some], of s']
      by (auto simp: vol_abs_def vol_observe_def vol_spec_def observe_by_def outstanding_def split: if_splits)
    ultimately show ?thesis by blast
  qed
qed

lemma vol_loop_run:
  assumes "fru_inv vol_entry path s"
    and "list_all2 (\<lambda>x (k, health). vol_report x k health \<and> describable x) xs obs"
  shows "\<exists>ms s'. vol_loop env path create send ''fault_resolved'' xs s = (Inr ms, s') \<and> fru_inv vol_entry path s' \<and>
    vol_abs s' = fold (vol_observe env) obs (vol_abs s)"
  using assms(2,1)
proof (induction xs obs arbitrary: s rule: list_all2_induct)
  case Nil
  then show ?case by (simp add: ret_def)
next
  case (Cons x xs ob obs)
  obtain k health where ob: "ob = (k, health)" by (cases ob)
  with Cons.hyps have "vol_report x k health" "describable x" by simp_all
  from vol_one_run [OF Cons.prems this, of env send] obtain ms s1 where
    s1: "vol_one env path create send ''fault_resolved'' x s = (Inr ms, s1)" "fru_inv vol_entry path s1"
      "vol_abs s1 = vol_observe env ob (vol_abs s)" using ob by blast
  from Cons.IH [OF s1(2)] s1 show ?case by (auto simp: py_exec)
qed

end

section \<open>Both messages can be built\<close>

lemma json_able_sort_items:
  assumes "json_able (PDict items)"
  shows "json_able (PDict (fst (sort_items g e items))) \<and> json_able (PDict (snd (sort_items g e items)))"
proof -
  let ?f = "\<lambda>(k, v) (a, b). if k \<in> set g then (AList.update k v a, b)
       else if k \<in> set e then (a, AList.update k v b) else (a, b)"
  have "json_able (PDict (fst (fold ?f xs p))) \<and> json_able (PDict (snd (fold ?f xs p)))"
    if "json_able (PDict xs)" "json_able (PDict (fst p))" "json_able (PDict (snd p))" for xs p
    using that
  proof (induction xs arbitrary: p)
    case (Cons x xs)
    obtain k v a b where x: "x = (k, v)" "p = (a, b)" by (cases x; cases p)
    have v: "json_able v" "json_able (PDict xs)" using Cons.prems(1) x by auto
    from Cons.prems(2,3) x v(1)
    have "json_able (PDict (fst (?f x p))) \<and> json_able (PDict (snd (?f x p)))"
      by (auto simp del: json_able.simps intro: json_able_update)
    with Cons.IH [OF v(2), of "?f x p"] show ?case by (simp del: json_able.simps)
  qed (simp del: json_able.simps)
  from this [OF assms, of "(dict_fromkeys g (PStr ''NA''), dict_fromkeys e (PStr ''NA''))"]
    json_able_fromkeys [of "PStr ''NA''"] show ?thesis
    by (simp add: sort_items_def del: json_able.simps(3))
qed

lemma vol_alert_ok:
  assumes "json_able resource_id" and "json_able (PDict specific)"
  shows "\<exists>t. vol_alert host sev i a (vol_info rt resource_id e) specific = Inr (PStr t)"
proof -
  have "json_able (enclosure_alert [(''host_id'', PStr host), (''severity'', PStr sev), (''alert_id'', PStr i),
        (''alert_type'', PStr a), (''status'', PStr ''update''), (''info'', vol_info rt resource_id e),
        (''specific_info'', PDict specific)])"
    using assms by (simp add: enclosure_alert_def vol_info_def)
  from json_dumps_ok [OF this] show ?thesis by (auto simp: vol_alert_def)
qed

lemma vol_severity: "a \<in> {''fault'', ''fault_resolved''} \<Longrightarrow> \<exists>sev. map_severity a = Inr sev"
  by (auto simp: map_severity_def ALERT_TO_SEVERITY_MAPPING_def)

definition describable_volume :: "pyv \<Rightarrow> bool" where
  "describable_volume x \<longleftrightarrow> (\<exists>d. x = PDict d \<and> json_able x)"

definition describable_group :: "pyv \<Rightarrow> bool" where
  "describable_group x \<longleftrightarrow> (\<exists>d. x = PDict d \<and> json_able x \<and> (case map_of d ''name'' of None \<Rightarrow> True | Some v \<Rightarrow> hashable v))"

lemma create_lvol_quiet:
  assumes x: "describable_volume x" and g: "describable_volume disk_group" and ok: "fru_ok path f s"
    and a: "a \<in> {''fault'', ''fault_resolved''}" and fq: "get_fqdn env = Inr host"
  shows "\<exists>t s'. create_internal_msg_lvol env disk_group x a s = (Inr t, s') \<and> quiet s s'"
proof (cases "truthy x")
  case True
  obtain d e where d: "x = PDict d" "json_able (PDict d)" "disk_group = PDict e" "json_able (PDict e)"
    using x g by (auto simp: describable_volume_def simp del: json_able.simps)
  obtain sev where sev: "map_severity a = Inr sev" using vol_severity [OF a] by blast
  obtain ep i s' where fr: "fresh_alert env s = (Inr (ep, i), s')" "quiet s s'"
    using fresh_alert_run [of env s] by auto
  obtain r where r: "get_default (PDict d) ''volume-name'' (PStr []) = Inr r" "json_able r"
    using json_able_get_default [OF d(2), of "PStr []"] by auto
  obtain gi ei where gi: "sort_items volumes_generic volumes_extended d = (gi, ei)" by force
  define specific where "specific = dict_update (AList.update ''disk-group''
      (PList [PDict (fst (sort_items disk_groups_generic [] e))]) gi) ei"
  have "json_able (PDict (AList.update ''disk-group'' (PList [PDict (fst (sort_items disk_groups_generic [] e))]) gi))"
    by (rule json_able_update) (use json_able_sort_items [OF d(4)] json_able_sort_items [OF d(2)] gi in \<open>(metis fst_conv, simp)\<close>)
  then have "json_able (PDict specific)"
    unfolding specific_def
    by (rule json_able_dict_update) (use json_able_sort_items [OF d(2)] gi in \<open>metis snd_conv\<close>)
  from vol_alert_ok [OF r(2) this] obtain t where
    "vol_alert host sev i a (vol_info ''enclosure:cortx:logical_volume'' r ep) specific = Inr (PStr t)" by blast
  then have "create_internal_msg_lvol env disk_group x a s = (Inr (PStr t), s')"
    using sev fr(1) fq r(1) True gi unfolding d(1,3) specific_def
    by (simp add: create_internal_msg_lvol_def py_exec Let_def del: get_default.simps)
  with fr(2) show ?thesis by blast
qed (simp add: create_internal_msg_lvol_def ret_def quiet_def)

lemma cvg_of_ok: "hashable r \<Longrightarrow> json_able r \<Longrightarrow> json_able (PDict cvgs) \<Longrightarrow> \<exists>e. cvg_of cvgs r = Inr e \<and> json_able (PDict e)"
  by (cases r) (auto simp: cvg_of_def split: option.splits dest!: map_of_SomeD bspec)

lemma create_dg_quiet:
  assumes x: "describable_group x" and ok: "fru_ok path f s" and cvgs: "json_able (PDict cvgs)"
    and a: "a \<in> {''fault'', ''fault_resolved''}" and fq: "get_fqdn env = Inr host"
  shows "\<exists>t s'. create_internal_msg_dg env cvgs x a s = (Inr t, s') \<and> quiet s s'"
proof (cases "truthy x")
  case True
  obtain d where d: "x = PDict d" "json_able (PDict d)" "case map_of d ''name'' of None \<Rightarrow> True | Some v \<Rightarrow> hashable v"
    using x by (auto simp: describable_group_def simp del: json_able.simps)
  obtain sev where sev: "map_severity a = Inr sev" using vol_severity [OF a] by blast
  obtain ep i s' where fr: "fresh_alert env s = (Inr (ep, i), s')" "quiet s s'"
    using fresh_alert_run [of env s] by auto
  obtain r where r: "get_default (PDict d) ''name'' (PStr []) = Inr r" "json_able r"
    using json_able_get_default [OF d(2), of "PStr []"] by auto
  then have "hashable r" using d(3) by (auto split: option.splits)
  then obtain e where e: "cvg_of cvgs r = Inr e" "json_able (PDict e)" using cvg_of_ok r(2) cvgs by blast
  obtain gi ei where gi: "sort_items disk_groups_generic disk_groups_extended d = (gi, ei)" by force
  have "json_able (PDict (dict_update (dict_update gi ei) e))"
    by (intro json_able_dict_update e(2)) (use json_able_sort_items [OF d(2)] gi in \<open>(metis fst_conv snd_conv)+\<close>)
  from vol_alert_ok [OF r(2) this] obtain t where
    "vol_alert host sev i a (vol_info ''enclosure:cortx:disk_group'' r ep) (dict_update (dict_update gi ei) e) = Inr (PStr t)"
    by blast
  then have "create_internal_msg_dg env cvgs x a s = (Inr (PStr t), s')"
    using sev fr(1) fq r(1) True gi e(1) unfolding d(1)
    by (simp add: create_internal_msg_dg_def py_exec Let_def del: get_default.simps)
  with fr(2) show ?thesis by blast
qed (simp add: create_internal_msg_dg_def ret_def quiet_def)

interpretation lv: item_messages "create_internal_msg_lvol env disk_group"
    "\<lambda>x. describable_volume x \<and> describable_volume disk_group \<and> (\<exists>host. get_fqdn env = Inr host)" for env disk_group
  by unfold_locales (blast intro: create_lvol_quiet)

interpretation dg: item_messages "create_internal_msg_dg env cvgs"
    "\<lambda>x. describable_group x \<and> json_able (PDict cvgs) \<and> (\<exists>host. get_fqdn env = Inr host)" for env cvgs
  by unfold_locales (blast intro: create_dg_quiet)

section \<open>The two files do not interfere\<close>

lemma dg_path_eq: "dg_path env = encl_cache (cli env) @ ''frus/disk_groups/disk_group_data.json''"
  by (simp add: dg_path_def path_join_def frus_def)

lemma lv_path_eq: "lv_path env = encl_cache (cli env) @ ''frus/logical_volumes/logical_volume_data.json''"
  by (simp add: lv_path_def path_join_def frus_def)

lemma dirname_dg: "dirname (dg_path env) = encl_cache (cli env) @ ''frus/disk_groups''"
  by (simp add: dg_path_eq dirname_def is_slash_def rstrip_slash_def Let_def)

lemma dirname_lv: "dirname (lv_path env) = encl_cache (cli env) @ ''frus/logical_volumes''"
  by (simp add: lv_path_eq dirname_def is_slash_def rstrip_slash_def Let_def)

lemma vol_paths_apart: "dg_path env \<noteq> lv_path env" "indep (dg_path env) (lv_path env)" "indep (lv_path env) (dg_path env)"
  using ancestors_length [of "lv_path env" "dirname (dg_path env)"] ancestors_length [of "dg_path env" "dirname (lv_path env)"]
  by (auto simp: indep_def dirname_dg dirname_lv) (auto simp: dg_path_eq lv_path_eq)

text \<open>What a turn on one path does to the file of another one.\<close>

definition beside :: "string \<Rightarrow> pyv \<Rightarrow> string \<Rightarrow> fru_state \<Rightarrow> bool" where
  "beside path f path' s \<longleftrightarrow> fru_ok path f s \<and> writable (fr_fs s) path'"

lemma keeps_beside_send: "keeps (beside path f path') (vol_send_json_msg m)"
  by (auto simp: keeps_def vol_send_json_msg_def ret_def send_to_handler_def on_fr_q_def write_internal_msgQ_def fru_ok_def
      beside_def split: option.splits)

lemma keeps_beside_persist:
  assumes "path \<noteq> path'" and "indep path' path"
  shows "keeps (beside path f path') (persist_faulty env path' a)"
proof (rule keepsI)
  fix s assume s: "beside path f path' s"
  then have w: "writable (store_put v path' True (fr_fs s)) path" "writable (store_put v path' True (fr_fs s)) path'" for v
    using assms writable_put [of "fr_fs s"] by (auto simp: fru_ok_def indep_def writable_def beside_def)
  from s w assms(1) show "beside path f path' (snd (persist_faulty env path' a s))"
    by (auto simp: persist_faulty_def wait_event_def bindp_def modp_def set_fr_fs_def fru_ok_def store_put_wf
        store_get_put_pickled beside_def)
qed

lemma keeps_beside_modp:
  "(\<And>s. rssencl (g s) = rssencl s \<and> fr_q (g s) = fr_q s) \<Longrightarrow> keeps (beside path f path') (modp g)"
  by (simp add: keeps_def modp_def fru_ok_def beside_def)

lemma keeps_beside_fresh: "keeps (beside path f path') (fresh_alert env)"
  by (simp add: keeps_def fresh_alert_def Let_def beside_def fru_ok_def)

lemma keeps_beside_decide: "keeps (beside path f path') (vol_decide resolved k health)"
  unfolding vol_decide_def vol_remember_def vol_forget_def known_faulty_def set_faulty_def del_faulty_def
  by (intro keeps_rules keeps_beside_modp) simp_all

lemma keeps_beside_lvol: "keeps (beside path f path') (create_internal_msg_lvol env g x a)"
  unfolding create_internal_msg_lvol_def Let_def by (intro keeps_rules keeps_beside_fresh)

lemma keeps_beside_dg: "keeps (beside path f path') (create_internal_msg_dg env cvgs x a)"
  unfolding create_internal_msg_dg_def Let_def by (intro keeps_rules keeps_beside_fresh)

lemma keeps_beside_one:
  assumes "\<And>x a. keeps (beside path f path') (create x a)" and "path \<noteq> path'" and "indep path' path"
  shows "keeps (beside path f path') (vol_one env path' create send resolved x)"
  unfolding vol_one_def
  by (intro keeps_rules keeps_case_option keeps_beside_decide keeps_beside_send assms(1) keeps_beside_persist assms(2,3))

section \<open>Invariant and steps of the sensor\<close>

text \<open>The two views the sensor has of its state.\<close>

definition groups :: "vol_state \<Rightarrow> fru_state" where
  "groups s = (vs_fru s)\<lparr>fr_faulty := faulty_disk_groups s, fr_confirmed := dg_confirmed s\<rparr>"

definition volumes :: "vol_state \<Rightarrow> fru_state" where
  "volumes s = (vs_fru s)\<lparr>fr_faulty := faulty_logical_volumes s, fr_confirmed := lv_confirmed s\<rparr>"

definition vol_inv :: "fru_env \<Rightarrow> vol_state \<Rightarrow> bool" where
  "vol_inv env s \<longleftrightarrow> fru_inv vol_entry (dg_path env) (groups s) \<and> fru_inv vol_entry (lv_path env) (volumes s)"

lemma on_groups_run: "m (groups s) = (r, f) \<Longrightarrow>
    on_groups m s = (r, s\<lparr>vs_fru := f, faulty_disk_groups := fr_faulty f, dg_confirmed := fr_confirmed f\<rparr>)"
  by (simp add: on_groups_def groups_def)

lemma on_volumes_run: "m (volumes s) = (r, f) \<Longrightarrow>
    on_volumes m s = (r, s\<lparr>vs_fru := f, faulty_logical_volumes := fr_faulty f, lv_confirmed := fr_confirmed f\<rparr>)"
  by (simp add: on_volumes_def volumes_def)

lemma fru_ok_views [simp]:
  "fru_ok path f (groups s) = fru_ok path f (vs_fru s)" "fru_ok path f (volumes s) = fru_ok path f (vs_fru s)"
  by (simp_all add: groups_def volumes_def fru_ok_def)

lemma fr_fs_views [simp]: "fr_fs (groups s) = fr_fs (vs_fru s)" "fr_fs (volumes s) = fr_fs (vs_fru s)"
  by (simp_all add: groups_def volumes_def)

lemma groups_after: "groups (s\<lparr>vs_fru := f, faulty_disk_groups := fr_faulty f, dg_confirmed := fr_confirmed f\<rparr>) = f"
  by (simp add: groups_def)

lemma volumes_after: "volumes (s\<lparr>vs_fru := f, faulty_logical_volumes := fr_faulty f, lv_confirmed := fr_confirmed f\<rparr>) = f"
  by (simp add: volumes_def)

text \<open>A turn on disk groups keeps what is known of the volumes, and the other way round.\<close>

lemma group_turn:
  assumes inv: "vol_inv env s" and rep: "vol_report x k health" "describable_group x" "json_able (PDict cvgs)"
    and fq: "get_fqdn env = Inr host"
  shows "\<exists>ms s'. on_groups (vol_one env (dg_path env) (create_internal_msg_dg env cvgs) True ''fault_resolved'' x) s = (Inr ms, s') \<and>
    vol_inv env s' \<and> vol_abs (groups s') = vol_observe env (k, health) (vol_abs (groups s)) \<and>
    faulty_logical_volumes s' = faulty_logical_volumes s \<and> lv_confirmed s' = lv_confirmed s"
proof -
  let ?m = "vol_one env (dg_path env) (create_internal_msg_dg env cvgs) True ''fault_resolved'' x"
  obtain ms f where f: "?m (groups s) = (Inr ms, f)" "fru_inv vol_entry (dg_path env) f"
      "vol_abs f = vol_observe env (k, health) (vol_abs (groups s))"
    using dg.vol_one_run [of "dg_path env" "groups s" x k health cvgs env env True] assms by (auto simp: vol_inv_def)
  let ?s = "s\<lparr>vs_fru := f, faulty_disk_groups := fr_faulty f, dg_confirmed := fr_confirmed f\<rparr>"
  have "beside (lv_path env) (faulty_logical_volumes s) (dg_path env) (groups s)"
    using inv by (auto simp: vol_inv_def beside_def fru_inv_def groups_def volumes_def fru_ok_def)
  from keepsD [OF keeps_beside_one this, of "create_internal_msg_dg env cvgs" env True "''fault_resolved''" x] f(1)
  have "fru_ok (lv_path env) (faulty_logical_volumes s) f"
    using keeps_beside_dg vol_paths_apart(2) vol_paths_apart(1) [symmetric] by (auto simp: beside_def)
  with inv f(2) have "vol_inv env ?s"
    by (auto simp: vol_inv_def groups_after) (auto simp: fru_inv_def volumes_def fru_ok_def)
  with f on_groups_run [of ?m s "Inr ms" f, OF f(1)] show ?thesis by (auto simp: groups_after)
qed

lemma volume_turn:
  assumes inv: "vol_inv env s" and rep: "vol_report x k health" "describable_volume x" "describable_volume g"
    and fq: "get_fqdn env = Inr host"
  shows "\<exists>ms s'. on_volumes (vol_one env (lv_path env) (create_internal_msg_lvol env g) True ''fault_resolved'' x) s = (Inr ms, s') \<and>
    vol_inv env s' \<and> vol_abs (volumes s') = vol_observe env (k, health) (vol_abs (volumes s)) \<and>
    faulty_disk_groups s' = faulty_disk_groups s \<and> dg_confirmed s' = dg_confirmed s"
proof -
  let ?m = "vol_one env (lv_path env) (create_internal_msg_lvol env g) True ''fault_resolved'' x"
  obtain ms f where f: "?m (volumes s) = (Inr ms, f)" "fru_inv vol_entry (lv_path env) f"
      "vol_abs f = vol_observe env (k, health) (vol_abs (volumes s))"
    using lv.vol_one_run [of "lv_path env" "volumes s" x k health g env env True] assms by (auto simp: vol_inv_def)
  let ?s = "s\<lparr>vs_fru := f, faulty_logical_volumes := fr_faulty f, lv_confirmed := fr_confirmed f\<rparr>"
  have "beside (dg_path env) (faulty_disk_groups s) (lv_path env) (volumes s)"
    using inv by (auto simp: vol_inv_def beside_def fru_inv_def groups_def volumes_def fru_ok_def)
  from keepsD [OF keeps_beside_one this, of "create_internal_msg_lvol env g" env True "''fault_resolved''" x] f(1)
  have "fru_ok (dg_path env) (faulty_disk_groups s) f"
    using keeps_beside_lvol vol_paths_apart by (auto simp: beside_def)
  with inv f(2) have "vol_inv env ?s"
    by (auto simp: vol_inv_def volumes_after) (auto simp: fru_inv_def groups_def fru_ok_def)
  with f on_volumes_run [of ?m s "Inr ms" f, OF f(1)] show ?thesis by (auto simp: volumes_after)
qed

inductive vol_step :: "fru_env \<Rightarrow> pydict \<Rightarrow> vol_state \<Rightarrow> vol_state \<Rightarrow> bool" for env cvgs where
  group_polled: "vol_report x k health \<Longrightarrow> describable_group x \<Longrightarrow> get_fqdn env = Inr host \<Longrightarrow>
    on_groups (vol_one env (dg_path env) (create_internal_msg_dg env cvgs) True ''fault_resolved'' x) s = (Inr ms, s') \<Longrightarrow>
    vol_step env cvgs s s'"
| volume_polled: "vol_report x k health \<Longrightarrow> describable_volume x \<Longrightarrow> describable_volume g \<Longrightarrow> get_fqdn env = Inr host \<Longrightarrow>
    on_volumes (vol_one env (lv_path env) (create_internal_msg_lvol env g) True ''fault_resolved'' x) s = (Inr ms, s') \<Longrightarrow>
    vol_step env cvgs s s'"
| vol_restarted: "vol_initialize env (s\<lparr>faulty_disk_groups := PDict [], faulty_logical_volumes := PDict []\<rparr>) = (Inr b, s') \<Longrightarrow>
    vol_step env cvgs s s'"

lemma vol_restart_run:
  assumes "vol_inv env s"
  shows "\<exists>f. vol_initialize env (s\<lparr>faulty_disk_groups := PDict [], faulty_logical_volumes := PDict []\<rparr>) =
      (Inr True, s\<lparr>vs_fru := f\<rparr>) \<and> (\<forall>path v. fru_ok path v f = fru_ok path v (vs_fru s)) \<and> fr_waits f = fr_waits (vs_fru s)"
proof -
  have g: "store_get (fr_fs (vs_fru s)) (dg_path env) = faulty_disk_groups s" "faulty_disk_groups s \<noteq> PNone"
    and v: "store_get (fr_fs (vs_fru s)) (lv_path env) = faulty_logical_volumes s" "faulty_logical_volumes s \<noteq> PNone"
    using assms by (auto simp: vol_inv_def fru_inv_def groups_def volumes_def fru_ok_def)
  let ?f = "(vs_fru s)\<lparr>fr_schedule := fr_schedule (vs_fru s) @ [1], fr_faulty := faulty_disk_groups s, fr_confirmed := dg_confirmed s\<rparr>"
  have "vol_initialize env (s\<lparr>faulty_disk_groups := PDict [], faulty_logical_volumes := PDict []\<rparr>) = (Inr True, s\<lparr>vs_fru := ?f\<rparr>)"
    using g v by (cases s; cases "vs_fru s") (simp add: vol_initialize_def on_groups_def on_volumes_def enter_def load_faulty_def py_exec)
  moreover have "fru_ok path w ?f = fru_ok path w (vs_fru s)" for path w by (simp add: fru_ok_def)
  ultimately show ?thesis by (intro exI [of _ ?f]) simp
qed

lemma views_frame:
  assumes "\<And>path v. fru_ok path v f = fru_ok path v (vs_fru s)"
  shows "vol_inv env (s\<lparr>vs_fru := f\<rparr>) = vol_inv env s"
    "outstanding vol_entry (groups (s\<lparr>vs_fru := f\<rparr>)) = outstanding vol_entry (groups s)"
    "outstanding vol_entry (volumes (s\<lparr>vs_fru := f\<rparr>)) = outstanding vol_entry (volumes s)"
  using assms by (auto simp: vol_inv_def fru_inv_def groups_def volumes_def outstanding_def fun_eq_iff fru_ok_def)

lemma vol_observe_track:
  "(m', l', n') = vol_observe env (k, health) (m, l, n) \<Longrightarrow> track_step vol_next m l m' l'"
  by (auto simp: vol_observe_def vol_spec_def intro: observe_track [OF sym] split: if_splits)

lemma vol_step_sound:
  assumes "vol_step env cvgs s s'" and inv: "vol_inv env s" and cvgs: "json_able (PDict cvgs)"
  shows "vol_inv env s' \<and>
    track_step vol_next (outstanding vol_entry (groups s)) (dg_confirmed s) (outstanding vol_entry (groups s')) (dg_confirmed s') \<and>
    track_step vol_next (outstanding vol_entry (volumes s)) (lv_confirmed s) (outstanding vol_entry (volumes s')) (lv_confirmed s')"
  using assms(1)
proof (cases rule: vol_step.cases)
  case (group_polled x k health host ms)
  from group_turn [OF inv group_polled(1,2) cvgs group_polled(3)] group_polled(4)
  have s': "vol_inv env s'" "vol_abs (groups s') = vol_observe env (k, health) (vol_abs (groups s))"
      "faulty_logical_volumes s' = faulty_logical_volumes s" "lv_confirmed s' = lv_confirmed s" by auto
  from s'(3) have "outstanding vol_entry (volumes s') = outstanding vol_entry (volumes s)"
    by (simp add: outstanding_def volumes_def fun_eq_iff)
  with s' vol_observe_track show ?thesis
    by (auto simp: vol_abs_def groups_def track_step_def [of _ "outstanding vol_entry (volumes s)"])
next
  case (volume_polled x k health g host ms)
  from volume_turn [OF inv volume_polled(1-4)] volume_polled(5)
  have s': "vol_inv env s'" "vol_abs (volumes s') = vol_observe env (k, health) (vol_abs (volumes s))"
      "faulty_disk_groups s' = faulty_disk_groups s" "dg_confirmed s' = dg_confirmed s" by auto
  from s'(3) have "outstanding vol_entry (groups s') = outstanding vol_entry (groups s)"
    by (simp add: outstanding_def groups_def fun_eq_iff)
  with s' vol_observe_track show ?thesis
    by (auto simp: vol_abs_def volumes_def track_step_def [of _ "outstanding vol_entry (groups s)"])
next
  case (vol_restarted b)
  with vol_restart_run [OF inv] obtain f where "s' = s\<lparr>vs_fru := f\<rparr>" "\<And>path v. fru_ok path v f = fru_ok path v (vs_fru s)"
    by auto
  with views_frame [of f s] inv show ?thesis by (simp add: track_step_def)
qed

interpretation vg: alert_history vol_next "\<lambda>s. vol_inv env s \<and> json_able (PDict cvgs)" "vol_step env cvgs"
    "\<lambda>s. outstanding vol_entry (groups s)" dg_confirmed for env cvgs
  by unfold_locales (auto dest: vol_step_sound simp del: json_able.simps)

interpretation vv: alert_history vol_next "\<lambda>s. vol_inv env s \<and> json_able (PDict cvgs)" "vol_step env cvgs"
    "\<lambda>s. outstanding vol_entry (volumes s)" lv_confirmed for env cvgs
  by unfold_locales (auto dest: vol_step_sound simp del: json_able.simps)

section \<open>A concrete sensor\<close>

definition demo_vol :: vol_state where
  "demo_vol = \<lparr>vs_fru = set_fr_fs (store_put (PDict []) (lv_path demo_fru_env) True
       (store_put (PDict []) (dg_path demo_fru_env) True (fr_fs demo_fru))) demo_fru,
     faulty_disk_groups = PDict [], faulty_logical_volumes = PDict [], dg_confirmed = [], lv_confirmed = []\<rparr>"

definition demo_group :: "string \<Rightarrow> pyv" where
  "demo_group health = PDict [(''name'', PStr ''dg01''), (''serial-number'', PStr ''00c0''), (''health'', PStr health),
     (''pool-serial-number'', PStr ''00p0'')]"

lemma demo_vol_inv: "vol_inv demo_fru_env demo_vol"
proof -
  let ?d = "dg_path demo_fru_env" and ?l = "lv_path demo_fru_env"
  have w: "?d \<notin> set (ancestors (dirname ?d))" "?l \<notin> set (ancestors (dirname ?l))"
    using ancestors_length [of ?d "dirname ?d"] ancestors_length [of ?l "dirname ?l"]
    by (auto simp: dirname_dg dirname_lv) (auto simp: dg_path_eq lv_path_eq)
  let ?f = "fr_fs demo_fru" let ?f1 = "store_put (PDict []) ?d True ?f" let ?f2 = "store_put (PDict []) ?l True ?f1"
  have f: "fs_wf ?f" "writable ?f ?d" "writable ?f ?l"
    using demo_fru_ok [OF w(1)] demo_fru_ok [OF w(2)] by (simp_all add: fru_ok_def)
  have f1: "fs_wf ?f1" "writable ?f1 ?d" "writable ?f1 ?l" "store_get ?f1 ?d = PDict []"
    using f w vol_paths_apart [of demo_fru_env]
    by (simp_all add: store_put_wf writable_put store_get_put_pickled indep_def)
  have "fs_wf ?f2" "writable ?f2 ?d" "writable ?f2 ?l" "store_get ?f2 ?d = PDict []" "store_get ?f2 ?l = PDict []"
    using f1 w vol_paths_apart [of demo_fru_env]
    by (simp_all add: store_put_wf writable_put store_get_put_pickled indep_def)
  then show ?thesis
    using demo_fru_ok [OF w(1)]
    by (simp add: vol_inv_def fru_inv_def demo_vol_def groups_def volumes_def set_fr_fs_def fru_ok_def)
qed

lemma demo_group_report: "vol_report (demo_group h) ''00c0'' (lower h)" "describable_group (demo_group h)"
  by (simp_all add: vol_report_def describable_group_def demo_group_def)

section \<open>Properties\<close>

lemma vol_replay_alternates:
  "replay_by vol_next p as = Some q \<Longrightarrow> p \<noteq> Some ''ok'' \<Longrightarrow>
    successively (\<noteq>) as \<and> (as \<noteq> [] \<longrightarrow> hd as \<noteq> (case p of None \<Rightarrow> ''ok'' | Some h \<Rightarrow> h))"
proof (induction as arbitrary: p)
  case (Cons a as)
  then obtain p' where p': "vol_next p a = Some p'" "replay_by vol_next p' as = Some q" by (auto split: option.splits)
  from p'(1) Cons.prems(2) have a: "a = (case p' of None \<Rightarrow> ''ok'' | Some h \<Rightarrow> h)" "a \<noteq> (case p of None \<Rightarrow> ''ok'' | Some h \<Rightarrow> h)"
    by (auto simp: vol_next_def split: if_splits option.splits)
  have "p' \<noteq> Some ''ok''" using vol_next_range [OF p'(1)] by auto
  with Cons.IH [OF p'(2)] a show ?case by (cases as) auto
qed simp

text \<open>
  C7. Through any sequence of polls of disk groups and volumes, timeouts and restarts, the healths
  reported and acknowledged for each disk group and each volume change from one to the next, and
  replayed they give the health the sensor remembers.\<close>

theorem volume_health_history:
  assumes "vol_inv env s" and "faulty_disk_groups s = PDict []" and "faulty_logical_volumes s = PDict []"
    and "dg_confirmed s = []" and "lv_confirmed s = []" and "json_able (PDict cvgs)" and "(vol_step env cvgs)\<^sup>*\<^sup>* s s'"
  shows "replay_by vol_next None (fru_alerts k (dg_confirmed s')) = Some (outstanding vol_entry (groups s') k) \<and>
    replay_by vol_next None (fru_alerts k (lv_confirmed s')) = Some (outstanding vol_entry (volumes s') k) \<and>
    successively (\<noteq>) (fru_alerts k (dg_confirmed s')) \<and> successively (\<noteq>) (fru_alerts k (lv_confirmed s'))"
proof -
  have "outstanding vol_entry (groups s) j = None" "outstanding vol_entry (volumes s) j = None" for j
    using assms(2,3) by (simp_all add: outstanding_def groups_def volumes_def)
  with assms(4,5) have "vg.faithful s" "vv.faithful s"
    by (simp_all add: vg.faithful_def vv.faithful_def fru_alerts_def)
  with vg.steps_faithful [OF assms(7)] vv.steps_faithful [OF assms(7)] assms(1,6)
  have "replay_by vol_next None (fru_alerts k (dg_confirmed s')) = Some (outstanding vol_entry (groups s') k)"
    "replay_by vol_next None (fru_alerts k (lv_confirmed s')) = Some (outstanding vol_entry (volumes s') k)"
    by (simp_all add: vg.faithful_def vv.faithful_def del: json_able.simps)
  with vol_replay_alternates show ?thesis by blast
qed

theorem volume_health_history_witness:
  "\<exists>s'. (vol_step demo_fru_env [])\<^sup>*\<^sup>* demo_vol s' \<and> fru_alerts ''00c0'' (dg_confirmed s') = [''degraded''] \<and>
     outstanding vol_entry (groups s') ''00c0'' = Some ''degraded''"
proof -
  have fq: "get_fqdn demo_fru_env = Inr ''node1''" by (simp add: demo_fru_env_def)
  have low: "lower ''Degraded'' = ''degraded''" by code_simp
  note rep = demo_group_report [of "''Degraded''", unfolded low]
  obtain ms s' where s': "on_groups (vol_one demo_fru_env (dg_path demo_fru_env) (create_internal_msg_dg demo_fru_env []) True
        ''fault_resolved'' (demo_group ''Degraded'')) demo_vol = (Inr ms, s')"
      "vol_abs (groups s') = vol_observe demo_fru_env (''00c0'', ''degraded'') (vol_abs (groups demo_vol))"
    using group_turn [OF demo_vol_inv rep _ fq, of "[]"] by auto
  then have steps: "(vol_step demo_fru_env [])\<^sup>*\<^sup>* demo_vol s'"
    using group_polled [OF rep fq] by blast
  have "dg_confirmed s' = [(''00c0'', ''degraded'')]"
    using s'(2) by (simp add: vol_abs_def vol_observe_def vol_spec_def vol_next_def observe_by_def outstanding_def groups_def
        demo_vol_def set_fr_fs_def demo_fru_def demo_fru_env_def)
  then have "fru_alerts ''00c0'' (dg_confirmed s') = [''degraded'']" by (simp add: fru_alerts_def)
  with volume_health_history [OF demo_vol_inv _ _ _ _ _ steps, of "''00c0''"] steps show ?thesis
    by (auto simp: demo_vol_def vol_next_def)
qed

text \<open>
  C8. The check of a list of disk groups returns normally, keeps memory and store in agreement, and
  leaves remembered and acknowledged what the specification gives for the same healths, whichever
  alerts are acknowledged in time.\<close>

theorem disk_group_check_refines:
  assumes "vol_inv env s" and "get_fqdn env = Inr host" and "json_able (PDict cvgs)" and "dgs \<noteq> []"
    and "list_all2 (\<lambda>x (k, health). vol_report x k health \<and> describable_group x) dgs obs"
  shows "\<exists>ms s'. get_msgs_for_faulty_disk_groups env cvgs True (PList dgs) s = (Inr (Some ms), s') \<and>
    fru_inv vol_entry (dg_path env) (groups s') \<and>
    vol_abs (groups s') = fold (vol_observe env) obs (vol_abs (groups s))"
proof -
  have "list_all2 (\<lambda>x (k, health). vol_report x k health \<and> describable_group x \<and> json_able (PDict cvgs) \<and>
      (\<exists>host. get_fqdn env = Inr host)) dgs obs"
    using assms(5) by (rule list_all2_mono) (use assms(2,3) in \<open>auto simp del: json_able.simps\<close>)
  from dg.vol_loop_run [of "dg_path env" "groups s", OF _ this, of env True] assms(1)
  obtain ms f where f: "vol_loop env (dg_path env) (create_internal_msg_dg env cvgs) True ''fault_resolved'' dgs (groups s) = (Inr ms, f)"
    "fru_inv vol_entry (dg_path env) f" "vol_abs f = fold (vol_observe env) obs (vol_abs (groups s))"
    by (auto simp: vol_inv_def)
  from on_groups_run [of "vol_loop env (dg_path env) (create_internal_msg_dg env cvgs) True ''fault_resolved'' dgs" s, OF f(1)] f(2,3) assms(4) show ?thesis
    by (simp add: get_msgs_for_faulty_disk_groups_def bindp_def liftp_def ret_def groups_after)
qed

theorem disk_group_check_refines_witness:
  "\<exists>ms s'. get_msgs_for_faulty_disk_groups demo_fru_env [] True (PList [demo_group ''Fault'', demo_group ''OK'']) demo_vol =
      (Inr (Some ms), s') \<and> outstanding vol_entry (groups s') ''00c0'' = Some ''fault''"
proof -
  have low: "lower ''Fault'' = ''fault''" "lower ''OK'' = ''ok''" by code_simp+
  note rep = demo_group_report [of "''Fault''", unfolded low] demo_group_report [of "''OK''", unfolded low]
  have "list_all2 (\<lambda>x (k, health). vol_report x k health \<and> describable_group x) [demo_group ''Fault'', demo_group ''OK'']
      [(''00c0'', ''fault''), (''00c0'', ''ok'')]" using rep by simp
  from disk_group_check_refines [OF demo_vol_inv _ _ _ this, of "''node1''" "[]"]
  obtain ms s' where s': "get_msgs_for_faulty_disk_groups demo_fru_env [] True
        (PList [demo_group ''Fault'', demo_group ''OK'']) demo_vol = (Inr (Some ms), s')"
      "vol_abs (groups s') = fold (vol_observe demo_fru_env) [(''00c0'', ''fault''), (''00c0'', ''ok'')] (vol_abs (groups demo_vol))"
    by (auto simp: demo_fru_env_def)
  have start: "outstanding vol_entry (groups demo_vol) = (\<lambda>k. None)" "fr_waits (groups demo_vol) = 0"
    by (simp_all add: outstanding_def groups_def demo_vol_def set_fr_fs_def demo_fru_def fun_eq_iff)
  have "outstanding vol_entry (groups s') ''00c0'' = Some ''fault''"
    using s'(2) by (simp add: vol_abs_def start vol_observe_def vol_spec_def vol_next_def observe_by_def demo_fru_env_def)
  with s'(1) show ?thesis by blast
qed

end
