(* ===== verification/Realstor_Disk.thy ===== *)
theory Realstor_Disk
  imports Realstor_Fru
begin

text \<open>
  \<^verbatim>\<open>sensors/impl/platforms/realstor/realstor_disk_sensor.py\<close>: the sensor of the disks of the
  enclosure. It polls the disks, compares them with those seen before (kept in memory and in one
  file per slot) to raise missing and insertion alerts, and walks through the faults of the system
  (\<open>Realstor_Enclosure\<close>) to raise fault and fault_resolved alerts. The order in which Python walks
  through a set is a parameter. A slot is an integer and what the cache holds for it a dictionary
  (the web service documents it so); another value is a \<^verbatim>\<open>TypeError\<close> in the model.
\<close>

section \<open>Text\<close>

text \<open>\<^verbatim>\<open>s.partition(pat)[2]\<close>, \<^verbatim>\<open>xs[1]\<close>.\<close>

definition after_first :: "string \<Rightarrow> string \<Rightarrow> string" where
  "after_first pat s = (let i = find_str pat s in if i < 0 then [] else drop (nat i + length pat) s)"

definition second :: "'a list \<Rightarrow> 'a res" where
  "second xs = (case xs of _ # y # _ \<Rightarrow> Inr y | _ \<Rightarrow> Inl IndexError)"

text \<open>\<^verbatim>\<open>c.split()[1].split('.')[1]\<close>.\<close>

fun slot_text :: "pyv \<Rightarrow> string res" where
  "slot_text (PStr t) = bindr (second (split_ws t)) (\<lambda>u. second (split_on CHR ''.'' u))"
| "slot_text (PBytes t) = Inl TypeError"
| "slot_text _ = Inl AttributeError"

text \<open>
  \<^verbatim>\<open>re.findall("disk_(\d+).json", f)[0]\<close>: at the first place that matches, as many digits as leave
  one character other than a newline and \<^verbatim>\<open>json\<close> after them.
\<close>

definition match_slot :: "string \<Rightarrow> string option" where
  "match_slot s = (if take 5 s \<noteq> ''disk_'' then None
     else let u = drop 5 s; k = length (takeWhile is_digit u) in
       map_option (\<lambda>n. take n u)
         (List.find (\<lambda>n. n < length u \<and> u ! n \<noteq> CHR 0x0A \<and> take 4 (drop (n + 1) u) = ''json'') (rev [1..<Suc k])))"

fun find_slot :: "string \<Rightarrow> string res" where
  "find_slot [] = Inl IndexError"
| "find_slot (c # s) = (case match_slot (c # s) of Some t \<Rightarrow> Inr t | None \<Rightarrow> find_slot s)"

section \<open>State\<close>

type_synonym disks = "(int \<times> pyv) list"

text \<open>
  \<open>disks_shared\<close>: \<^verbatim>\<open>memcache_disks\<close> and \<^verbatim>\<open>latest_disks\<close> are the same object. \<open>dk_event\<close>: \<^verbatim>\<open>_event\<close> is
  an event and not \<^verbatim>\<open>None\<close>. \<open>dk_raised\<close> records each alert that was sent, with the record of its
  disk.
\<close>

record disk_state =
  dk_encl :: encl
  dk_q :: "nat msgq"
  latest_disks :: disks
  memcache_disks :: disks
  disks_shared :: bool
  invalidate_latest_disks_info :: bool
  memcache_frus_disks :: "disks option"
  dk_event :: bool
  event_wait_results :: "bool list"
  dk_last_alert :: pyv
  dk_waits :: nat
  dk_built :: nat
  dk_suspended :: bool
  dk_schedule :: "int list"
  dk_raised :: "(string \<times> pyv) list"

definition on_dk_encl :: "(encl, 'a) proc \<Rightarrow> (disk_state, 'a) proc" where
  "on_dk_encl m s = (case m (dk_encl s) of (r, e) \<Rightarrow> (r, s\<lparr>dk_encl := e\<rparr>))"

definition on_dk_q :: "(nat msgq, 'a) proc \<Rightarrow> (disk_state, 'a) proc" where
  "on_dk_q m s = (case m (dk_q s) of (r, q) \<Rightarrow> (r, s\<lparr>dk_q := q\<rparr>))"

abbreviation dk_fs :: "disk_state \<Rightarrow> fs" where
  "dk_fs s \<equiv> encl_fs (dk_encl s)"

definition set_dk_fs :: "(fs \<Rightarrow> fs) \<Rightarrow> (disk_state, unit) proc" where
  "set_dk_fs g = modp (\<lambda>s. s\<lparr>dk_encl := (dk_encl s)\<lparr>encl_fs := g (dk_fs s)\<rparr>\<rparr>)"

definition dk_wait :: "fru_env \<Rightarrow> (disk_state, bool) proc" where
  "dk_wait env s = (Inr (ev_wait env (dk_waits s)), s\<lparr>dk_waits := dk_waits s + 1\<rparr>)"

definition dk_enter :: "fru_env \<Rightarrow> (disk_state, unit) proc" where
  "dk_enter env = modp (\<lambda>s. s\<lparr>dk_schedule := dk_schedule s @ [poll_frequency env]\<rparr>)"

definition disks_prcache :: "fru_env \<Rightarrow> string" where
  "disks_prcache env = frus (cli env) @ ''disks/''"

definition disk_file :: "fru_env \<Rightarrow> string \<Rightarrow> string" where
  "disk_file env slot = disks_prcache env @ ''disk_'' @ slot @ ''.json''"

definition prev_file :: "fru_env \<Rightarrow> string \<Rightarrow> string" where
  "prev_file env slot = disk_file env slot @ ''.prev''"

definition disk_initialize :: "(disk_state, bool) proc" where
  "disk_initialize = seqp (modp (\<lambda>s. s\<lparr>dk_schedule := dk_schedule s @ [1]\<rparr>)) (ret True)"

section \<open>Alerts\<close>

definition disk_generic_info :: "string list" where
  "disk_generic_info = [''enclosure-id'', ''enclosure-wwn'', ''slot'', ''description'', ''architecture'', ''interface'',
     ''serial-number'', ''size'', ''vendor'', ''model'', ''revision'', ''temperature'', ''status'', ''LED-status'',
     ''locator-LED'', ''blink'', ''smart'', ''health'', ''health-reason'', ''health-recommendation'']"

definition FRU_ALERT_TYPES :: "string list" where
  "FRU_ALERT_TYPES = [''missing'', ''insertion'', ''fault'', ''fault_resolved'']"

primrec copy_known :: "pyv \<Rightarrow> string list \<Rightarrow> pydict \<Rightarrow> pydict res" where
  "copy_known disk_info [] disk = Inr disk"
| "copy_known disk_info (item # items) disk =
     bindr (py_in (PStr item) disk_info) (\<lambda>there.
       if there then bindr (getitem disk_info item) (\<lambda>v. copy_known disk_info items (AList.update item v disk))
       else copy_known disk_info items disk)"

definition default_disk :: pydict where
  "default_disk = dict_update (dict_fromkeys disk_generic_info (PStr ''NA''))
     [(''slot'', PInt (- 1)), (''blink'', PInt 0), (''enclosure-id'', PInt 0)]"

text \<open>The keys that are not in the disk's data and do not name a numeric variant.\<close>

fun extended_info :: "pydict \<Rightarrow> pyv \<Rightarrow> pydict res" where
  "extended_info disk (PDict d) = Inr (filter (\<lambda>p. fst p \<notin> fst ` set disk \<and> \<not> contains ''numeric'' (fst p)) d)"
| "extended_info disk _ = Inl TypeError"

definition na_values :: "pydict \<Rightarrow> pydict" where
  "na_values d = map (\<lambda>(k, v). (k, if v = PStr [] then PStr ''N/A'' else v)) d"

definition disk_gen_json_msg :: "fru_env \<Rightarrow> string \<Rightarrow> pydict \<Rightarrow> pydict \<Rightarrow> (disk_state, pyv) proc" where
  "disk_gen_json_msg env alert_type details ext =
     bindp (liftp (map_severity alert_type)) (\<lambda>severity.
     bindp (getp dk_built) (\<lambda>n.
     let epoch_time = str_int (epoch env n); alert_id = get_alert_id (salt env n) epoch_time in
     seqp (modp (\<lambda>s. s\<lparr>dk_built := dk_built s + 1\<rparr>))
     (bindp (getp dk_encl) (\<lambda>e.
      bindp (liftp (is_storage_fru ''disk'' e)) (\<lambda>fru.
      bindp (liftp (get_key (PDict ext) ''durable-id'')) (\<lambda>resource_id.
      bindp (liftp (get_fqdn env)) (\<lambda>host_name.
      bindp (liftp (json_dumps (enclosure_alert
        [(''status'', PStr ''update''), (''host_id'', PStr host_name), (''alert_type'', PStr alert_type),
         (''severity'', PStr severity), (''alert_id'', PStr alert_id),
         (''info'', alert_info ''enclosure:hw:disk'' fru resource_id epoch_time),
         (''specific_info'', PDict (na_values (dict_update details ext)))]))) (\<lambda>t. ret (PStr t)))))))))"

definition disk_send_json_msg :: "fru_env \<Rightarrow> string \<Rightarrow> pydict \<Rightarrow> pydict \<Rightarrow> (disk_state, unit) proc" where
  "disk_send_json_msg env alert_type details ext =
     bindp (disk_gen_json_msg env alert_type details ext) (\<lambda>m.
     seqp (modp (\<lambda>s. s\<lparr>dk_last_alert := m\<rparr>))
     (bindp (getp dk_event) (\<lambda>event.
        on_dk_q (write_internal_msgQ ''RealStorEnclMsgHandler'' m (if event then Some 0 else None)))))"

definition rss_raise_disk_alert :: "fru_env \<Rightarrow> string \<Rightarrow> pyv \<Rightarrow> (disk_state, unit) proc" where
  "rss_raise_disk_alert env alert_type disk_info =
     (if \<not> truthy disk_info then ret ()
      else if alert_type \<notin> set FRU_ALERT_TYPES then ret ()
      else
        bindp (liftp (copy_known disk_info disk_generic_info default_disk)) (\<lambda>known.
        let disk = AList.update ''enclosure-family'' (PStr ''Realstor Storage_enclosure'') known in
        bindp (liftp (extended_info disk disk_info)) (\<lambda>ext.
        seqp (disk_send_json_msg env alert_type disk ext)
             (modp (\<lambda>s. s\<lparr>dk_raised := dk_raised s @ [(alert_type, disk_info)]\<rparr>)))))"

section \<open>Polling the disks\<close>

fun slot_key :: "pyv \<Rightarrow> int res" where
  "slot_key (PInt i) = Inr i"
| "slot_key _ = Inl TypeError"

text \<open>The record of a drive in its file, with the one of a replaced or changed drive kept beside it.\<close>

definition store_drive :: "fru_env \<Rightarrow> int \<Rightarrow> pyv \<Rightarrow> pyv \<Rightarrow> pyv \<Rightarrow> (disk_state, unit) proc" where
  "store_drive env slot sn health drive =
     (let path = disk_file env (str_int slot) in
      bindp (getp (\<lambda>s. store_get (dk_fs s) path)) (\<lambda>prevdrive.
        if prevdrive = PNone then ret ()
        else
          bindp (liftp (get_default prevdrive ''serial-number'' (PStr ''NA''))) (\<lambda>prevsn.
          bindp (liftp (get_default prevdrive ''health'' (PStr ''NA''))) (\<lambda>prevhealth.
            if \<not> py_eq prevsn sn \<or> \<not> py_eq prevhealth health then
              seqp (set_dk_fs (\<lambda>f. store_put (store_get f path) (prev_file env (str_int slot)) True f))
              (seqp (set_dk_fs (store_delete path []))
                    (set_dk_fs (store_put drive path True)))
            else ret ()))))"

text \<open>One drive of the answer; the value says whether the loop is left.\<close>

definition poll_drive :: "fru_env \<Rightarrow> pyv \<Rightarrow> (disk_state, bool) proc" where
  "poll_drive env drive =
     bindp (liftp (get_default drive ''slot'' (PInt (- 1)))) (\<lambda>slot.
     bindp (liftp (get_default drive ''serial-number'' (PStr ''NA''))) (\<lambda>sn.
     bindp (liftp (get_default drive ''health'' (PStr ''NA''))) (\<lambda>health.
       if py_eq slot (PInt (- 1)) then ret False
       else
         bindp (liftp (slot_key slot)) (\<lambda>slot.
         let path = disk_file env (str_int slot) in
         seqp (modp (\<lambda>s. s\<lparr>latest_disks :=
                 AList.update slot (PDict [(''serial-number'', sn), (''health'', health)]) (latest_disks s)\<rparr>))
         (bindp (getp (\<lambda>s. store_exists (dk_fs s) path)) (\<lambda>(path_exists, ret_val).
            if path_exists \<and> ret_val = ''Success'' then seqp (store_drive env slot sn health drive) (ret False)
            else if \<not> path_exists \<and> ret_val = ''Success'' then seqp (set_dk_fs (store_put drive path True)) (ret False)
            else seqp (modp (\<lambda>s. s\<lparr>invalidate_latest_disks_info := True\<rparr>)) (ret True)))))))"

primrec poll_drives :: "fru_env \<Rightarrow> pyv list \<Rightarrow> (disk_state, unit) proc" where
  "poll_drives env [] = ret ()"
| "poll_drives env (d # ds) = bindp (poll_drive env d) (\<lambda>left. if left then ret () else poll_drives env ds)"

definition read_drives :: "fru_env \<Rightarrow> pyv \<Rightarrow> (disk_state, unit) proc" where
  "read_drives env jresponse =
     bindp (liftp (getitem jresponse ''drives'')) (\<lambda>drives.
     seqp (modp (\<lambda>s. s\<lparr>latest_disks := [], disks_shared := False, invalidate_latest_disks_info := False\<rparr>))
     (bindp (liftp (iter_list drives)) (\<lambda>ds.
      seqp (poll_drives env ds)
           (modp (\<lambda>s. if invalidate_latest_disks_info s then s\<lparr>latest_disks := [], disks_shared := False\<rparr> else s)))))"

text \<open>\<^verbatim>\<open>store.get_keys_with_prefix\<close> for a directory with a final slash; the order is not specified.\<close>

definition get_keys_with_prefix :: "string \<Rightarrow> fs \<Rightarrow> string list" where
  "get_keys_with_prefix prefix f = (let d = rstrip_slash prefix in
     if \<not> isdir f d then []
     else map (drop (length d + 1)) (filter (\<lambda>p. dirname p = d \<and> p \<noteq> d) (map fst (files f) @ remdups (dirs f))))"

definition memcache_put :: "int \<Rightarrow> pyv \<Rightarrow> disk_state \<Rightarrow> disk_state" where
  "memcache_put slot v s = s\<lparr>memcache_disks := AList.update slot v (memcache_disks s),
     latest_disks := if disks_shared s then AList.update slot v (latest_disks s) else latest_disks s\<rparr>"

definition cached_file :: "fru_env \<Rightarrow> string list \<Rightarrow> string \<Rightarrow> (disk_state, unit) proc" where
  "cached_file env names name =
     (if take 5 name = ''disk_'' \<and> ends_with ''.json'' name then
        let name = (if name @ ''.prev'' \<in> set names then name @ ''.prev'' else name) in
        bindp (getp (\<lambda>s. store_get (dk_fs s) (disks_prcache env @ name))) (\<lambda>drive.
        bindp (liftp (find_slot name)) (\<lambda>slotstr.
          if \<not> isdigit slotstr then ret ()
          else bindp (liftp (py_int slotstr)) (\<lambda>slot.
            if truthy drive then
              bindp (liftp (get_default drive ''serial-number'' (PStr ''NA''))) (\<lambda>sn.
                modp (memcache_put slot (PDict [(''serial-number'', sn)])))
            else ret ())))
      else ret ())"

definition build_disk_cache :: "fru_env \<Rightarrow> (disk_state, unit) proc" where
  "build_disk_cache env =
     bindp (getp (\<lambda>s. get_keys_with_prefix (disks_prcache env) (dk_fs s))) (\<lambda>names.
       if names = [] then ret () else forp names (cached_file env names))"

definition fill_memcache :: "fru_env \<Rightarrow> (disk_state, unit) proc" where
  "fill_memcache env =
     seqp (bindp (getp memcache_disks) (\<lambda>m. if m = [] then build_disk_cache env else ret ()))
          (modp (\<lambda>s. if memcache_disks s = [] then s\<lparr>memcache_disks := latest_disks s, disks_shared := True\<rparr> else s))"

definition disks_url :: "string \<Rightarrow> encl \<Rightarrow> string" where
  "disks_url disk e = (let url = build_url ''/show/disks'' e in
     (if disk \<noteq> ''all'' \<and> isdigit (after_first ''0.'' disk) then url @ ''/'' @ disk else url) @ ''/detail'')"

definition rss_cliapi_poll_disks :: "fru_env \<Rightarrow> string \<Rightarrow> (disk_state, unit) proc" where
  "rss_cliapi_poll_disks env disk =
     bindp (getp (\<lambda>s. disks_url disk (dk_encl s))) (\<lambda>url.
     bindp (on_dk_encl (checked_response (ws_request (cli env) url ''GET''))) (\<lambda>response. case response of
       None \<Rightarrow> ret ()
     | Some r \<Rightarrow>
         if status_code r \<noteq> Some HTTP_OK
         then (if contains LOOPBACK url then ret () else raise PyException)
         else
           bindp (liftp (loads_or_unbound (cli env) (content r))) (\<lambda>jresponse.
             if truthy jresponse then
               bindp (liftp (bindr (getitem jresponse ''status'') get_api_status)) (\<lambda>resp.
               seqp (if py_eq resp (PInt (- 1)) \<or> py_eq resp (PInt 0) then read_drives env jresponse else ret ())
                    (fill_memcache env))
             else ret ())))"

section \<open>Presence of the disks\<close>

definition keys_of :: "disks \<Rightarrow> int list" where
  "keys_of d = map fst d"

definition serial_of :: "disks \<Rightarrow> int \<Rightarrow> pyv res" where
  "serial_of d slot = (case map_of d slot of None \<Rightarrow> Inl KeyError | Some v \<Rightarrow> getitem v ''serial-number'')"

text \<open>The slots populated in both caches whose serial numbers differ.\<close>

primrec replaced_slots :: "disks \<Rightarrow> disks \<Rightarrow> int list \<Rightarrow> int list res" where
  "replaced_slots mem latest [] = Inr []"
| "replaced_slots mem latest (slot # slots) =
     bindr (serial_of mem slot) (\<lambda>a. bindr (serial_of latest slot) (\<lambda>b.
     bindr (replaced_slots mem latest slots) (\<lambda>rs. Inr (if py_eq a b then rs else slot # rs))))"

definition removed_from :: "disks \<Rightarrow> disks \<Rightarrow> int list" where
  "removed_from mem latest = filter (\<lambda>k. k \<notin> set (keys_of latest)) (keys_of mem)"

definition populated_in :: "disks \<Rightarrow> disks \<Rightarrow> int list" where
  "populated_in mem latest = filter (\<lambda>k. k \<in> set (keys_of latest)) (keys_of mem)"

definition report_removed :: "fru_env \<Rightarrow> int \<Rightarrow> (disk_state, unit) proc" where
  "report_removed env slot =
     (let prev = prev_file env (str_int slot) in
      bindp (getp (\<lambda>s. fst (store_exists (dk_fs s) prev))) (\<lambda>path_exists.
      let path = (if path_exists then prev else disk_file env (str_int slot)) in
      bindp (getp (\<lambda>s. store_get (dk_fs s) path)) (\<lambda>disk_info.
      seqp (rss_raise_disk_alert env ''missing'' disk_info)
      (bindp (dk_wait env) (\<lambda>sent. if sent then set_dk_fs (store_delete path []) else ret ())))))"

text \<open>A cached fault of the disk in the slot, whose health is set to OK; what raises is skipped.\<close>

definition fault_in_slot :: "int \<Rightarrow> pyv \<Rightarrow> bool res" where
  "fault_in_slot slot cached =
     bindr (getitem cached ''component-id'') (\<lambda>c. case c of
       PStr t \<Rightarrow> if take 6 t = ''Disk 0'' then bindr (slot_text c) (\<lambda>u. bindr (py_int u) (\<lambda>i. Inr (i = slot))) else Inr False
     | PBytes t \<Rightarrow> Inl TypeError
     | _ \<Rightarrow> Inl AttributeError)"

definition reset_fault :: "int \<Rightarrow> pyv \<Rightarrow> pyv" where
  "reset_fault slot cached = (if fault_in_slot slot cached = Inr True
     then (case setitem cached ''health'' (PStr ''OK'') of Inr v \<Rightarrow> v | Inl _ \<Rightarrow> cached) else cached)"

definition reset_faults :: "int \<Rightarrow> (encl, unit) proc" where
  "reset_faults slot = bindp (getp memcache_faults) (\<lambda>faults. case faults of
     PList xs \<Rightarrow> modp (\<lambda>e. let v = PList (map (reset_fault slot) xs) in
        e\<lparr>memcache_faults := v, latest_faults := if faults_shared e then v else latest_faults e\<rparr>)
   | _ \<Rightarrow> bindp (liftp (iter_list faults)) (\<lambda>_. ret ()))"

definition report_inserted :: "fru_env \<Rightarrow> int \<Rightarrow> (disk_state, unit) proc" where
  "report_inserted env slot =
     bindp (getp (\<lambda>s. store_get (dk_fs s) (disk_file env (str_int slot)))) (\<lambda>disk_info.
     seqp (rss_raise_disk_alert env ''insertion'' disk_info)
     (bindp (liftp (getitem disk_info ''health'')) (\<lambda>health.
        if \<not> py_eq health (PStr ''OK'') then on_dk_encl (reset_faults slot) else ret ())))"

definition set_dk_event :: "bool \<Rightarrow> (disk_state, unit) proc" where
  "set_dk_event b = modp (\<lambda>s. s\<lparr>dk_event := b\<rparr>)"

text \<open>\<open>walk\<close> is the order in which a set of slots is walked through.\<close>

definition compare_disks :: "fru_env \<Rightarrow> (int list \<Rightarrow> int list) \<Rightarrow> disks \<Rightarrow> disks \<Rightarrow> (disk_state, unit) proc" where
  "compare_disks env walk mem latest =
     bindp (liftp (replaced_slots mem latest (walk (populated_in mem latest)))) (\<lambda>replaced.
     let removed = removed_from mem latest @ replaced; inserted = removed_from latest mem @ replaced in
       if removed = [] \<and> inserted = [] then ret ()
       else
         seqp (set_dk_event True)
         (seqp (forp (walk removed) (report_removed env))
         (seqp (set_dk_event False)
         (seqp (forp (walk inserted) (report_inserted env))
               (modp (\<lambda>s. s\<lparr>memcache_disks := latest_disks s, disks_shared := True,
                  memcache_frus_disks := Some (latest_disks s)\<rparr>))))))"

definition rss_check_disks_presence :: "fru_env \<Rightarrow> (int list \<Rightarrow> int list) \<Rightarrow> (disk_state, unit) proc" where
  "rss_check_disks_presence env walk =
     seqp (rss_cliapi_poll_disks env ''all'')
     (bindp (getp (\<lambda>s. (memcache_disks s, latest_disks s, active_ip (dk_encl s)))) (\<lambda>(mem, latest, ip).
        if mem = [] \<and> ip \<noteq> LOOPBACK then ret ()
        else if latest = [] then ret ()
        else compare_disks env walk mem latest))"

section \<open>Faults of the disks\<close>

definition disk_health :: "pyv \<Rightarrow> disk_state \<Rightarrow> (string \<times> pyv) res" where
  "disk_health component s =
     bindr (slot_text component) (\<lambda>slot. bindr (py_int slot) (\<lambda>i.
       case map_of (latest_disks s) i of None \<Rightarrow> Inl KeyError
       | Some v \<Rightarrow> bindr (getitem v ''health'') (\<lambda>h. Inr (slot, h))))"

text \<open>Raise the alert for the disk in the slot, wait, and note whether the wait succeeded.\<close>

definition alert_and_wait :: "fru_env \<Rightarrow> string \<Rightarrow> string \<Rightarrow> (disk_state, unit) proc" where
  "alert_and_wait env alert_type slot =
     bindp (getp (\<lambda>s. store_get (dk_fs s) (disk_file env slot))) (\<lambda>disk_info.
     seqp (rss_raise_disk_alert env alert_type disk_info)
     (bindp (dk_wait env) (\<lambda>sent. modp (\<lambda>s. s\<lparr>event_wait_results := List.insert sent (event_wait_results s)\<rparr>))))"

definition fault_turn :: "fru_env \<Rightarrow> pyv \<Rightarrow> (disk_state, unit) proc" where
  "fault_turn env fault =
     bindp (liftp (getitem fault ''component-id'')) (\<lambda>c.
     bindp (liftp (py_in (PStr ''Disk 0.'') c)) (\<lambda>is_disk.
       if \<not> is_disk then ret ()
       else bindp (getp dk_encl) (\<lambda>e.
         bindp (liftp (check_new_fault fault e)) (\<lambda>is_new.
           if \<not> is_new then ret ()
           else bindp (getp (disk_health c)) (\<lambda>r. bindp (liftp r) (\<lambda>(slot, health).
             if \<not> py_eq health (PStr ''OK'') then alert_and_wait env ''fault'' slot else ret ()))))))"

text \<open>\<^verbatim>\<open>any(d.get("component-id", None) == cached["component-id"] for d in latest_faults)\<close>.\<close>

primrec still_faulty :: "pyv \<Rightarrow> pyv list \<Rightarrow> bool res" where
  "still_faulty cached [] = Inr False"
| "still_faulty cached (d # ds) =
     bindr (get_default d ''component-id'' PNone) (\<lambda>v. bindr (getitem cached ''component-id'') (\<lambda>w.
       if py_eq v w then Inr True else still_faulty cached ds))"

definition resolved_turn :: "fru_env \<Rightarrow> pyv \<Rightarrow> (disk_state, unit) proc" where
  "resolved_turn env cached =
     bindp (getp (\<lambda>s. bindr (iter_list (latest_faults (dk_encl s))) (still_faulty cached))) (\<lambda>r.
     bindp (liftp r) (\<lambda>still.
       if still then ret ()
       else bindp (liftp (getitem cached ''component-id'')) (\<lambda>c.
         bindp (liftp (py_in (PStr ''Disk 0.'') c)) (\<lambda>is_disk.
           if \<not> is_disk then ret ()
           else bindp (getp (disk_health c)) (\<lambda>r. bindp (liftp r) (\<lambda>(slot, health).
             if py_eq health (PStr ''OK'') then alert_and_wait env ''fault_resolved'' slot else ret ()))))))"

definition conclude_faults :: "fru_env \<Rightarrow> (disk_state, unit) proc" where
  "conclude_faults env =
     bindp (getp event_wait_results) (\<lambda>results.
     seqp (if results \<noteq> [] \<and> False \<notin> set results then on_dk_encl (modp (update_memcache_faults (cli env))) else ret ())
          (modp (\<lambda>s. s\<lparr>event_wait_results := [], dk_event := False\<rparr>)))"

definition walk_faults :: "fru_env \<Rightarrow> (disk_state, unit) proc" where
  "walk_faults env =
     seqp (set_dk_event True)
     (seqp (bindp (getp (\<lambda>s. latest_faults (dk_encl s))) (\<lambda>faults.
              if truthy faults then bindp (liftp (iter_list faults)) (\<lambda>fs. forp fs (fault_turn env)) else ret ()))
     (seqp (bindp (getp (\<lambda>s. iter_list (memcache_faults (dk_encl s)))) (\<lambda>r.
              bindp (liftp r) (\<lambda>cs. forp cs (resolved_turn env))))
           (conclude_faults env)))"

definition rss_check_disk_faults :: "fru_env \<Rightarrow> (disk_state, unit) proc" where
  "rss_check_disk_faults env =
     bindp (getp (\<lambda>s. check_system_faults_changed (dk_encl s))) (\<lambda>changed.
       if \<not> changed then ret () else swallow (walk_faults env))"

section \<open>Run\<close>

definition disk_run :: "fru_env \<Rightarrow> (int list \<Rightarrow> int list) \<Rightarrow> int \<Rightarrow> int \<Rightarrow> (disk_state, unit) proc" where
  "disk_run env walk now now' =
     bindp (getp dk_suspended) (\<lambda>suspended.
       if suspended then dk_enter env
       else
         seqp (modp (\<lambda>s. s\<lparr>dk_q := snd (read_my_msgQ_noWait (encl_loads (cli env)) ''RealStorDiskSensor'' (dk_q s))\<rparr>))
         (seqp (rss_check_disks_presence env walk)
         (seqp (bindp (getp invalidate_latest_disks_info) (\<lambda>invalid.
                  if \<not> invalid then
                    seqp (on_dk_encl (get_system_status (cli env) now now')) (rss_check_disk_faults env)
                  else ret ()))
         (seqp (modp (\<lambda>s. s\<lparr>dk_q := (dk_q s)\<lparr>msgq_dbg := disable_debug_if_persist_false (msgq_dbg (dk_q s))\<rparr>\<rparr>))
               (dk_enter env)))))"

definition disk_suspend :: "disk_state \<Rightarrow> disk_state" where
  "disk_suspend s = s\<lparr>dk_suspended := True\<rparr>"

definition disk_resume :: "disk_state \<Rightarrow> disk_state" where
  "disk_resume s = s\<lparr>dk_suspended := False\<rparr>"

section \<open>Sending an alert\<close>

text \<open>The sensor can build and send messages; a record the alert can be built from.\<close>

definition dk_ready :: "fru_env \<Rightarrow> disk_state \<Rightarrow> bool" where
  "dk_ready env s \<longleftrightarrow> (\<exists>host. get_fqdn env = Inr host) \<and> fru_list (dk_encl s) \<noteq> None \<and>
     hot_swapped_frus (dk_encl s) \<noteq> None \<and> map_of (msgQlist (dk_q s)) ''RealStorEnclMsgHandler'' \<noteq> None"

definition good_record :: "pyv \<Rightarrow> bool" where
  "good_record v \<longleftrightarrow> (\<exists>d. v = PDict d \<and> d \<noteq> [] \<and> json_able v \<and> map_of d ''health'' \<noteq> None)"

lemma py_in_dict: "py_in (PStr k) (PDict d) = Inr (map_of d k \<noteq> None)"
  by (auto simp: list_ex_iff map_of_eq_None_iff) (metis fst_conv image_eqI)

lemma copy_known_ok:
  "json_able (PDict d) \<Longrightarrow> json_able (PDict disk) \<Longrightarrow>
    \<exists>disk'. copy_known (PDict d) ks disk = Inr disk' \<and> json_able (PDict disk')"
proof (induction ks arbitrary: disk)
  case (Cons k ks)
  show ?case
  proof (cases "map_of d k")
    case None
    with Cons show ?thesis by (simp add: py_in_dict del: json_able.simps py_in.simps)
  next
    case (Some v)
    then have "json_able v" using Cons.prems(1) by (auto dest!: map_of_SomeD bspec)
    from Cons.IH [OF Cons.prems(1) json_able_update [OF Cons.prems(2) this, of k]] Some show ?thesis
      by (simp add: py_in_dict del: json_able.simps py_in.simps)
  qed
qed simp

lemma json_able_na_values: "json_able (PDict d) \<Longrightarrow> json_able (PDict (na_values d))"
  by (auto simp: na_values_def)

lemma json_able_default_disk: "json_able (PDict default_disk)"
  unfolding default_disk_def by (intro json_able_dict_update json_able_fromkeys) simp_all

text \<open>What sending an alert changes.\<close>

definition alerted :: "string \<Rightarrow> pyv \<Rightarrow> disk_state \<Rightarrow> disk_state \<Rightarrow> bool" where
  "alerted a v s s' \<longleftrightarrow> (\<exists>ms m. map_of (msgQlist (dk_q s)) ''RealStorEnclMsgHandler'' = Some ms \<and>
     s' = s\<lparr>dk_built := dk_built s + 1, dk_last_alert := m,
       dk_q := (dk_q s)\<lparr>msgQlist := AList.update ''RealStorEnclMsgHandler'' (ms @ [(m, if dk_event s then Some 0 else None)])
         (msgQlist (dk_q s))\<rparr>, dk_raised := dk_raised s @ [(a, v)]\<rparr>)"

lemma gen_msg_ok:
  assumes "dk_ready env s" and "json_able (PDict details)" and "json_able (PDict ext)" and "map_severity a = Inr sev"
  shows "\<exists>t. disk_gen_json_msg env a details ext s = (Inr (PStr t), s\<lparr>dk_built := dk_built s + 1\<rparr>)"
proof -
  have "\<exists>fru. is_storage_fru ''disk'' (dk_encl s) = Inr fru"
    using assms(1) by (auto simp: dk_ready_def is_storage_fru_def Let_def)
  then obtain host fru where h: "get_fqdn env = Inr host" and fru: "is_storage_fru ''disk'' (dk_encl s) = Inr fru"
    using assms(1) by (auto simp: dk_ready_def)
  obtain r where r: "get_key (PDict ext) ''durable-id'' = Inr r" "json_able r"
    using json_able_get_key [OF assms(3)] by blast
  let ?e = "str_int (epoch env (dk_built s))"
  let ?m = "enclosure_alert [(''status'', PStr ''update''), (''host_id'', PStr host), (''alert_type'', PStr a),
      (''severity'', PStr sev), (''alert_id'', PStr (get_alert_id (salt env (dk_built s)) ?e)),
      (''info'', alert_info ''enclosure:hw:disk'' fru r ?e), (''specific_info'', PDict (na_values (dict_update details ext)))]"
  have "json_able ?m"
    using r(2) json_able_na_values [OF json_able_dict_update [OF assms(2,3)]]
    by (simp add: enclosure_alert_def alert_info_def)
  then obtain t where "json_dumps ?m = Inr t" using json_dumps_ok by blast
  with h fru r(1) assms(4) show ?thesis
    by (simp add: disk_gen_json_msg_def py_exec Let_def del: get_key_PDict json_dumps.simps)
qed

lemma raise_run:
  assumes "dk_ready env s" and "good_record v" and a: "a \<in> set FRU_ALERT_TYPES"
  shows "\<exists>s'. rss_raise_disk_alert env a v s = (Inr (), s') \<and> alerted a v s s'"
proof -
  obtain d where d: "v = PDict d" "d \<noteq> []" "json_able (PDict d)" using assms(2) by (auto simp: good_record_def)
  obtain disk where disk: "copy_known (PDict d) disk_generic_info default_disk = Inr disk" "json_able (PDict disk)"
    using copy_known_ok [OF d(3) json_able_default_disk] by blast
  let ?disk = "AList.update ''enclosure-family'' (PStr ''Realstor Storage_enclosure'') disk"
  let ?ext = "filter (\<lambda>p. fst p \<notin> fst ` set ?disk \<and> \<not> contains ''numeric'' (fst p)) d"
  have "extended_info ?disk (PDict d) = Inr ?ext" "json_able (PDict ?ext)" using d(3) by auto
  then obtain ext where ext: "extended_info ?disk (PDict d) = Inr ext" "json_able (PDict ext)" by blast
  obtain sev where sev: "map_severity a = Inr sev"
    using a by (auto simp: FRU_ALERT_TYPES_def map_severity_def ALERT_TO_SEVERITY_MAPPING_def)
  have "json_able (PDict ?disk)" by (rule json_able_update) (use disk in simp_all)
  from gen_msg_ok [OF assms(1) this ext(2) sev] obtain t where
    t: "disk_gen_json_msg env a ?disk ext s = (Inr (PStr t), s\<lparr>dk_built := dk_built s + 1\<rparr>)" by blast
  obtain ms where ms: "map_of (msgQlist (dk_q s)) ''RealStorEnclMsgHandler'' = Some ms"
    using assms(1) by (auto simp: dk_ready_def)
  with t disk ext(1) d a show ?thesis
    by (simp add: rss_raise_disk_alert_def disk_send_json_msg_def py_exec on_dk_q_def write_internal_msgQ_def Let_def
        alerted_def del: extended_info.simps json_able.simps) blast
qed

lemma alerted_frame:
  assumes "alerted a v s s'"
  shows "dk_encl s' = dk_encl s" "latest_disks s' = latest_disks s" "memcache_disks s' = memcache_disks s"
    "dk_waits s' = dk_waits s" "dk_raised s' = dk_raised s @ [(a, v)]" "dk_event s' = dk_event s"
    "event_wait_results s' = event_wait_results s" "dk_ready env s' = dk_ready env s"
  using assms by (auto simp: alerted_def dk_ready_def)

section \<open>The files of the disks\<close>

lemma disk_file_eq [simp]: "disk_file env s = disk_file env t \<longleftrightarrow> s = t"
  by (simp add: disk_file_def)

lemma prev_file_eq [simp]: "prev_file env s = prev_file env t \<longleftrightarrow> s = t"
  by (simp add: prev_file_def)

lemma disk_not_prev [simp]: "disk_file env s \<noteq> prev_file env t" "prev_file env t \<noteq> disk_file env s"
proof -
  have "rev (disk_file env s) ! 0 = CHR ''n''" "rev (prev_file env t) ! 0 = CHR ''v''"
    by (simp_all add: disk_file_def prev_file_def)
  then show "disk_file env s \<noteq> prev_file env t" "prev_file env t \<noteq> disk_file env s" by auto
qed

text \<open>The record a removed disk is reported with, and the file it is read from.\<close>

definition removed_file :: "fru_env \<Rightarrow> fs \<Rightarrow> int \<Rightarrow> string" where
  "removed_file env f slot = (if path_exists f (prev_file env (str_int slot)) then prev_file env (str_int slot)
     else disk_file env (str_int slot))"

lemma removed_file_cases: "removed_file env f slot \<in> {prev_file env (str_int slot), disk_file env (str_int slot)}"
  by (simp add: removed_file_def)

lemma removed_file_inj: "removed_file env f i = removed_file env g j \<Longrightarrow> i = j"
  using removed_file_cases [of env f i] removed_file_cases [of env g j] by (auto simp: str_int_inj)

text \<open>Every file of the sensor can be written, and none is a directory.\<close>

definition files_ok :: "fru_env \<Rightarrow> fs \<Rightarrow> bool" where
  "files_ok env f \<longleftrightarrow> fs_wf f \<and> (\<forall>k. writable f (disk_file env (str_int k)) \<and> writable f (prev_file env (str_int k)))"

lemma str_nat_no_slash: "CHR ''/'' \<notin> set (str_nat n)"
proof
  assume "CHR ''/'' \<in> set (str_nat n)"
  then obtain k where k: "k < 10" "CHR ''/'' = digit k" using str_nat_digits by blast
  then have "(of_char (CHR ''/'') :: nat) = of_char (digit k)" by simp
  with k(1) show False by (simp add: of_char_digit)
qed

lemma slot_no_slash: "c \<in> set (str_int i) \<Longrightarrow> \<not> is_slash c"
  using str_nat_no_slash by (auto simp: str_int_def is_slash_def split: if_splits)

lemma dirname_disk:
  "dirname (disk_file env (str_int k)) = encl_cache (cli env) @ ''frus/disks''"
  "dirname (prev_file env (str_int k)) = encl_cache (cli env) @ ''frus/disks''"
proof -
  have d: "dropWhile (\<lambda>c. c \<noteq> CHR ''/'') (rev (str_int k) @ ys) = dropWhile (\<lambda>c. c \<noteq> CHR ''/'') ys" for ys
    by (rule dropWhile_append2) (use slot_no_slash in \<open>auto simp: is_slash_def\<close>)
  show "dirname (disk_file env (str_int k)) = encl_cache (cli env) @ ''frus/disks''"
    "dirname (prev_file env (str_int k)) = encl_cache (cli env) @ ''frus/disks''"
    by (simp_all add: disk_file_def prev_file_def disks_prcache_def frus_def dirname_def Let_def d is_slash_def
        rstrip_slash_def)
qed

definition slot_files :: "fru_env \<Rightarrow> string set" where
  "slot_files env = range (\<lambda>k. disk_file env (str_int k)) \<union> range (\<lambda>k. prev_file env (str_int k))"

lemma slot_files_indep: "p \<in> slot_files env \<Longrightarrow> q \<in> slot_files env \<Longrightarrow> indep p q"
  using ancestors_length [of q "encl_cache (cli env) @ ''frus/disks''"]
  by (auto simp: slot_files_def indep_def dirname_disk) (auto simp: disk_file_def prev_file_def disks_prcache_def frus_def)

lemma files_ok_writable: "files_ok env f \<Longrightarrow> p \<in> slot_files env \<Longrightarrow> writable f p"
  by (auto simp: files_ok_def slot_files_def)

lemma files_ok_put: "files_ok env f \<Longrightarrow> p \<in> slot_files env \<Longrightarrow> files_ok env (store_put v p True f)"
  unfolding files_ok_def [of env "store_put v p True f"]
  by (auto simp: store_put_wf files_ok_def intro!: writable_put [OF files_ok_writable] slot_files_indep)
    (auto simp: slot_files_def)

lemma slot_files_in [simp]: "disk_file env (str_int k) \<in> slot_files env" "prev_file env (str_int k) \<in> slot_files env"
  by (simp_all add: slot_files_def)

lemma files_ok_delete:
  "files_ok env f \<Longrightarrow> files_ok env (store_delete (removed_file env f' slot) [] f)"
  using removed_file_cases [of env f' slot]
  by (auto simp: files_ok_def intro: store_delete_wf writable_delete)

lemma get_after_delete:
  "files_ok env f \<Longrightarrow> store_get (store_delete (removed_file env f' slot) [] f) p =
     (if p = removed_file env f' slot then PNone else store_get f p)"
  using removed_file_cases [of env f' slot] by (auto simp: files_ok_def store_get_delete)

lemma path_exists_delete:
  assumes "writable f k" and "writable f p"
  shows "path_exists (store_delete k [] f) p = (p \<noteq> k \<and> path_exists f p)"
  using assms by (simp add: store_delete_writable) (simp add: path_exists_def isfile_def isdir_def writable_def)

section \<open>The loops over removed and inserted disks\<close>

definition dk_kept :: "disk_state \<Rightarrow> disk_state \<Rightarrow> bool" where
  "dk_kept s s' \<longleftrightarrow> latest_disks s' = latest_disks s \<and> memcache_disks s' = memcache_disks s \<and>
     (\<forall>env. dk_ready env s \<longrightarrow> dk_ready env s')"

lemma dk_kept_trans: "dk_kept s t \<Longrightarrow> dk_kept t u \<Longrightarrow> dk_kept s u"
  by (simp add: dk_kept_def)

definition iterable_faults :: "disk_state \<Rightarrow> bool" where
  "iterable_faults s \<longleftrightarrow> (\<exists>r. iter_list (memcache_faults (dk_encl s)) = Inr r)"

lemma report_removed_run:
  assumes "dk_ready env s" and "good_record (store_get (dk_fs s) (removed_file env (dk_fs s) slot))"
  shows "\<exists>s'. report_removed env slot s = (Inr (), s') \<and> dk_kept s s' \<and> iterable_faults s' = iterable_faults s \<and>
    dk_raised s' = dk_raised s @ [(''missing'', store_get (dk_fs s) (removed_file env (dk_fs s) slot))] \<and>
    dk_fs s' = (if ev_wait env (dk_waits s) then store_delete (removed_file env (dk_fs s) slot) [] (dk_fs s) else dk_fs s)"
proof -
  let ?p = "removed_file env (dk_fs s) slot"
  obtain s1 where s1: "rss_raise_disk_alert env ''missing'' (store_get (dk_fs s) ?p) s = (Inr (), s1)"
      "alerted ''missing'' (store_get (dk_fs s) ?p) s s1"
    using raise_run [OF assms] by (auto simp: FRU_ALERT_TYPES_def)
  note fr = alerted_frame [OF s1(2)]
  let ?s2 = "s1\<lparr>dk_waits := dk_waits s1 + 1\<rparr>"
  let ?s3 = "if ev_wait env (dk_waits s) then ?s2\<lparr>dk_encl := (dk_encl ?s2)\<lparr>encl_fs := store_delete ?p [] (dk_fs ?s2)\<rparr>\<rparr> else ?s2"
  have "report_removed env slot s = (Inr (), ?s3)"
    using s1(1) fr(4)
    by (auto simp: report_removed_def store_exists_def removed_file_def py_exec dk_wait_def set_dk_fs_def Let_def)
  moreover have "dk_kept s ?s3" using fr by (auto simp: dk_kept_def dk_ready_def)
  moreover have "iterable_faults ?s3 = iterable_faults s" "dk_raised ?s3 = dk_raised s @ [(''missing'', store_get (dk_fs s) ?p)]"
    "dk_fs ?s3 = (if ev_wait env (dk_waits s) then store_delete ?p [] (dk_fs s) else dk_fs s)"
    using fr by (simp_all add: iterable_faults_def)
  ultimately show ?thesis by blast
qed

text \<open>The files of other slots are not touched.\<close>

lemma removed_file_frame:
  assumes "files_ok env f" and "j \<noteq> slot"
  shows "removed_file env (store_delete (removed_file env f slot) [] f) j = removed_file env f j"
proof -
  have w: "writable f (removed_file env f slot)"
    using assms(1) removed_file_cases [of env f slot] by (auto simp: files_ok_def)
  have n: "prev_file env (str_int j) \<noteq> removed_file env f slot"
    using removed_file_cases [of env f slot] assms(2) by (auto simp: str_int_inj)
  show ?thesis
    using path_exists_delete [OF w, of "prev_file env (str_int j)"] assms(1) n
    by (simp add: removed_file_def files_ok_def)
qed

lemma removed_loop_run:
  assumes "dk_ready env s" and "files_ok env (dk_fs s)" and "distinct slots"
    and "\<forall>k \<in> set slots. good_record (store_get (dk_fs s) (removed_file env (dk_fs s) k))"
  shows "\<exists>s'. forp slots (report_removed env) s = (Inr (), s') \<and> dk_kept s s' \<and> iterable_faults s' = iterable_faults s \<and>
    dk_raised s' = dk_raised s @ map (\<lambda>k. (''missing'', store_get (dk_fs s) (removed_file env (dk_fs s) k))) slots \<and>
    (\<forall>p. (\<forall>k \<in> set slots. p \<noteq> removed_file env (dk_fs s) k) \<longrightarrow> store_get (dk_fs s') p = store_get (dk_fs s) p)"
  using assms
proof (induction slots arbitrary: s)
  case Nil
  then show ?case by (simp add: ret_def dk_kept_def)
next
  case (Cons k ks)
  let ?f = "dk_fs s"
  obtain s1 where s1: "report_removed env k s = (Inr (), s1)" "dk_kept s s1" "iterable_faults s1 = iterable_faults s"
      "dk_raised s1 = dk_raised s @ [(''missing'', store_get ?f (removed_file env ?f k))]"
      "dk_fs s1 = (if ev_wait env (dk_waits s) then store_delete (removed_file env ?f k) [] ?f else ?f)"
    using report_removed_run [OF Cons.prems(1), of k] Cons.prems(4) by auto
  have f1: "files_ok env (dk_fs s1)" using s1(5) Cons.prems(2) files_ok_delete by auto
  have rf: "removed_file env (dk_fs s1) j = removed_file env ?f j" if "j \<in> set ks" for j
    using that Cons.prems(2,3) s1(5) removed_file_frame [of env ?f j k] by auto
  have g: "store_get (dk_fs s1) p = store_get ?f p" if "p \<noteq> removed_file env ?f k" for p
    using that s1(5) get_after_delete [OF Cons.prems(2), of ?f k p] by auto
  have gs: "store_get (dk_fs s1) (removed_file env ?f j) = store_get ?f (removed_file env ?f j)" if "j \<in> set ks" for j
    by (rule g) (use that Cons.prems(3) removed_file_inj [of env ?f j ?f k] in auto)
  from Cons.IH [of s1] f1 rf gs Cons.prems(1,3,4) s1(2) obtain s' where
    s': "forp ks (report_removed env) s1 = (Inr (), s')" "dk_kept s1 s'" "iterable_faults s' = iterable_faults s1"
      "dk_raised s' = dk_raised s1 @ map (\<lambda>j. (''missing'', store_get (dk_fs s1) (removed_file env (dk_fs s1) j))) ks"
      "\<forall>p. (\<forall>j \<in> set ks. p \<noteq> removed_file env (dk_fs s1) j) \<longrightarrow> store_get (dk_fs s') p = store_get (dk_fs s1) p"
    by (auto simp: dk_kept_def)
  have m: "map (\<lambda>j. (''missing'', store_get (dk_fs s1) (removed_file env (dk_fs s1) j))) ks =
      map (\<lambda>j. (''missing'', store_get ?f (removed_file env ?f j))) ks"
    using rf gs by simp
  have "\<forall>p. (\<forall>j \<in> set (k # ks). p \<noteq> removed_file env ?f j) \<longrightarrow> store_get (dk_fs s') p = store_get ?f p"
    using s'(5) rf g by simp
  with s1 s' m show ?case
    by (intro exI [of _ s']) (simp add: seqp_def dk_kept_trans [OF s1(2) s'(2)])
qed

lemma reset_faults_run:
  assumes "iterable_faults s"
  shows "\<exists>e. on_dk_encl (reset_faults slot) s = (Inr (), s\<lparr>dk_encl := e\<rparr>) \<and> encl_fs e = dk_fs s \<and>
    fru_list e = fru_list (dk_encl s) \<and> hot_swapped_frus e = hot_swapped_frus (dk_encl s) \<and> iterable_faults (s\<lparr>dk_encl := e\<rparr>)"
  using assms
proof (cases "memcache_faults (dk_encl s)")
  case (PList xs)
  let ?v = "PList (map (reset_fault slot) xs)"
  from PList show ?thesis
    by (intro exI [of _ "(dk_encl s)\<lparr>memcache_faults := ?v,
        latest_faults := if faults_shared (dk_encl s) then ?v else latest_faults (dk_encl s)\<rparr>"])
      (simp add: iterable_faults_def on_dk_encl_def reset_faults_def py_exec Let_def)
qed (use assms in \<open>auto simp: iterable_faults_def on_dk_encl_def reset_faults_def py_exec Let_def
      intro!: exI [of _ "dk_encl s"]\<close>)

lemma report_inserted_run:
  assumes "dk_ready env s" and "iterable_faults s" and "good_record (store_get (dk_fs s) (disk_file env (str_int slot)))"
  shows "\<exists>s'. report_inserted env slot s = (Inr (), s') \<and> dk_kept s s' \<and> iterable_faults s' \<and> dk_fs s' = dk_fs s \<and>
    dk_raised s' = dk_raised s @ [(''insertion'', store_get (dk_fs s) (disk_file env (str_int slot)))]"
proof -
  let ?v = "store_get (dk_fs s) (disk_file env (str_int slot))"
  obtain d h where d: "?v = PDict d" "map_of d ''health'' = Some h" using assms(3) by (auto simp: good_record_def)
  obtain s1 where s1: "rss_raise_disk_alert env ''insertion'' ?v s = (Inr (), s1)" "alerted ''insertion'' ?v s s1"
    using raise_run [OF assms(1,3)] by (auto simp: FRU_ALERT_TYPES_def)
  note fr = alerted_frame [OF s1(2)]
  have "iterable_faults s1" using assms(2) fr(1) by (simp add: iterable_faults_def)
  from reset_faults_run [OF this, of slot] obtain e where
    e: "on_dk_encl (reset_faults slot) s1 = (Inr (), s1\<lparr>dk_encl := e\<rparr>)" "encl_fs e = dk_fs s1"
      "fru_list e = fru_list (dk_encl s1)" "hot_swapped_frus e = hot_swapped_frus (dk_encl s1)" "iterable_faults (s1\<lparr>dk_encl := e\<rparr>)" by blast
  show ?thesis
  proof (cases "py_eq h (PStr ''OK'')")
    case True
    with s1(1) d have "report_inserted env slot s = (Inr (), s1)" by (simp add: report_inserted_def py_exec)
    with fr \<open>iterable_faults s1\<close> show ?thesis by (auto simp: dk_kept_def)
  next
    case False
    with s1(1) d e(1) have "report_inserted env slot s = (Inr (), s1\<lparr>dk_encl := e\<rparr>)"
      by (simp add: report_inserted_def py_exec)
    with fr e show ?thesis by (auto simp: dk_kept_def dk_ready_def)
  qed
qed

lemma inserted_loop_run:
  assumes "dk_ready env s" and "iterable_faults s"
    and "\<forall>k \<in> set slots. good_record (store_get (dk_fs s) (disk_file env (str_int k)))"
  shows "\<exists>s'. forp slots (report_inserted env) s = (Inr (), s') \<and> dk_kept s s' \<and> iterable_faults s' \<and> dk_fs s' = dk_fs s \<and>
    dk_raised s' = dk_raised s @ map (\<lambda>k. (''insertion'', store_get (dk_fs s) (disk_file env (str_int k)))) slots"
  using assms
proof (induction slots arbitrary: s)
  case Nil
  then show ?case by (simp add: ret_def dk_kept_def)
next
  case (Cons k ks)
  obtain s1 where s1: "report_inserted env k s = (Inr (), s1)" "dk_kept s s1" "iterable_faults s1" "dk_fs s1 = dk_fs s"
      "dk_raised s1 = dk_raised s @ [(''insertion'', store_get (dk_fs s) (disk_file env (str_int k)))]"
    using report_inserted_run [OF Cons.prems(1,2), of k] Cons.prems(3) by auto
  from Cons.IH [of s1] s1 Cons.prems(1,3) obtain s' where
    "forp ks (report_inserted env) s1 = (Inr (), s')" "dk_kept s1 s'" "iterable_faults s'" "dk_fs s' = dk_fs s1"
      "dk_raised s' = dk_raised s1 @ map (\<lambda>k. (''insertion'', store_get (dk_fs s1) (disk_file env (str_int k)))) ks"
    by (auto simp: dk_kept_def)
  with s1 show ?case
    by (intro exI [of _ s']) (auto simp: seqp_def intro: dk_kept_trans)
qed

section \<open>The comparison\<close>

text \<open>
  The specification: a disk is lost when its slot is empty now or holds another serial number, and
  gained when its slot was empty or held another serial number.
\<close>

definition differs :: "disks \<Rightarrow> disks \<Rightarrow> int \<Rightarrow> bool" where
  "differs mem latest k = (case (serial_of mem k, serial_of latest k) of (Inr a, Inr b) \<Rightarrow> \<not> py_eq a b | _ \<Rightarrow> False)"

definition lost :: "disks \<Rightarrow> disks \<Rightarrow> int set" where
  "lost mem latest = {k. map_of mem k \<noteq> None \<and> (map_of latest k = None \<or> differs mem latest k)}"

definition gained :: "disks \<Rightarrow> disks \<Rightarrow> int set" where
  "gained mem latest = {k. map_of latest k \<noteq> None \<and> (map_of mem k = None \<or> differs mem latest k)}"

definition has_serials :: "disks \<Rightarrow> bool" where
  "has_serials d \<longleftrightarrow> distinct (keys_of d) \<and> (\<forall>k \<in> set (keys_of d). \<exists>a. serial_of d k = Inr a)"

definition permutes_sets :: "(int list \<Rightarrow> int list) \<Rightarrow> bool" where
  "permutes_sets walk \<longleftrightarrow> (\<forall>xs. distinct xs \<longrightarrow> distinct (walk xs) \<and> set (walk xs) = set xs)"

lemma in_keys_of: "k \<in> set (keys_of d) \<longleftrightarrow> map_of d k \<noteq> None"
  by (simp add: keys_of_def map_of_eq_None_iff)

lemma replaced_slots_ok:
  "\<forall>k \<in> set ks. (\<exists>a. serial_of mem k = Inr a) \<and> (\<exists>b. serial_of latest k = Inr b) \<Longrightarrow>
    replaced_slots mem latest ks = Inr (filter (differs mem latest) ks)"
  by (induction ks) (auto simp: differs_def)

lemma differs_keys: "differs mem latest k \<Longrightarrow> map_of mem k \<noteq> None \<and> map_of latest k \<noteq> None"
  by (auto simp: differs_def serial_of_def split: option.splits sum.splits)

lemma compare_slots:
  assumes "has_serials mem" and "has_serials latest" and "permutes_sets walk"
  obtains replaced where "replaced_slots mem latest (walk (populated_in mem latest)) = Inr replaced"
    "set (removed_from mem latest @ replaced) = lost mem latest" "distinct (removed_from mem latest @ replaced)"
    "set (removed_from latest mem @ replaced) = gained mem latest" "distinct (removed_from latest mem @ replaced)"
    "set replaced = {k. differs mem latest k}"
proof -
  let ?p = "populated_in mem latest" let ?r = "filter (differs mem latest) (walk ?p)"
  have p: "distinct ?p" "k \<in> set ?p \<longleftrightarrow> map_of mem k \<noteq> None \<and> map_of latest k \<noteq> None" for k
    using assms(1) by (auto simp: populated_in_def has_serials_def in_keys_of)
  then have w: "distinct (walk ?p)" "set (walk ?p) = set ?p" using assms(3) by (simp_all add: permutes_sets_def)
  have "replaced_slots mem latest (walk ?p) = Inr ?r"
    by (rule replaced_slots_ok) (use w(2) p(2) assms(1,2) in \<open>auto simp: has_serials_def in_keys_of\<close>)
  moreover have r: "set ?r = {k. differs mem latest k}" "distinct ?r" using w p(2) differs_keys by auto
  moreover have m: "set (removed_from a b) = {k. map_of a k \<noteq> None \<and> map_of b k = None}" for a b
    by (auto simp: removed_from_def in_keys_of)
  moreover have "distinct (removed_from mem latest)" "distinct (removed_from latest mem)"
    using assms(1,2) by (simp_all add: removed_from_def has_serials_def)
  moreover have "set (removed_from mem latest @ ?r) = lost mem latest" "set (removed_from latest mem @ ?r) = gained mem latest"
    "set (removed_from mem latest) \<inter> set ?r = {}" "set (removed_from latest mem) \<inter> set ?r = {}"
    unfolding set_append m r(1) using differs_keys [of mem latest] by (fastforce simp: lost_def gained_def)+
  ultimately show ?thesis using that [of ?r] by (simp only: distinct_append)
qed

section \<open>The record of a polled disk\<close>

text \<open>A drive as the web service reports it.\<close>

definition drive_report :: "pyv \<Rightarrow> int \<Rightarrow> string \<Rightarrow> string \<Rightarrow> bool" where
  "drive_report drive k sn health \<longleftrightarrow> (\<exists>d. drive = PDict d \<and> k \<noteq> - 1 \<and> map_of d ''slot'' = Some (PInt k) \<and>
     map_of d ''serial-number'' = Some (PStr sn) \<and> map_of d ''health'' = Some (PStr health))"

text \<open>The stored record of slot \<open>k\<close> names this serial number and this health.\<close>

definition recorded :: "fru_env \<Rightarrow> fs \<Rightarrow> int \<Rightarrow> string \<Rightarrow> string \<Rightarrow> bool" where
  "recorded env f k sn health \<longleftrightarrow> (\<exists>d. store_get f (disk_file env (str_int k)) = PDict d \<and>
     get_default (PDict d) ''serial-number'' (PStr ''NA'') = Inr (PStr sn) \<and>
     get_default (PDict d) ''health'' (PStr ''NA'') = Inr (PStr health))"

definition records_ok :: "fru_env \<Rightarrow> fs \<Rightarrow> bool" where
  "records_ok env f \<longleftrightarrow> files_ok env f \<and> (\<forall>k. path_exists f (disk_file env (str_int k)) \<longrightarrow>
     (\<exists>d. store_get f (disk_file env (str_int k)) = PDict d))"

lemma get_exists: "store_get f p \<noteq> PNone \<Longrightarrow> path_exists f p"
  by (auto simp: store_get_def load_json_file_def path_exists_def isfile_def split: if_splits option.splits)

lemma exists_get: "files_ok env f \<Longrightarrow> p \<in> slot_files env \<Longrightarrow> path_exists f p \<Longrightarrow> isfile f p"
  using files_ok_writable [of env f p] by (auto simp: path_exists_def writable_def)

lemma py_eq_PStr: "py_eq v (PStr t) \<longleftrightarrow> v = PStr t"
  by (cases v) auto

lemma path_exists_put:
  assumes "files_ok env f" and "k \<in> slot_files env" and "p \<in> slot_files env"
  shows "path_exists (store_put v k True f) p = (p = k \<or> path_exists f p)"
proof -
  have w: "writable f k" "writable f p" "writable (store_put v k True f) p"
    using assms files_ok_writable files_ok_put by blast+
  then show ?thesis
    using store_put_writable [OF w(1), of v True]
    by (auto simp: path_exists_def writable_def isfile_def)
qed

text \<open>What a changed drive leaves behind: its new record, and the old one beside it.\<close>

lemma store_drive_changed:
  assumes f: "files_ok env (dk_fs s)" and old: "store_get (dk_fs s) (disk_file env (str_int k)) = PDict d"
    and g: "get_default (PDict d) ''serial-number'' (PStr ''NA'') = Inr a" "get_default (PDict d) ''health'' (PStr ''NA'') = Inr b"
    and ch: "\<not> py_eq a sn \<or> \<not> py_eq b h"
  shows "\<exists>f'. store_drive env k sn h drive s = (Inr (), s\<lparr>dk_encl := (dk_encl s)\<lparr>encl_fs := f'\<rparr>\<rparr>) \<and> files_ok env f' \<and>
    (\<forall>p. store_get f' p = (if p = disk_file env (str_int k) then drive
       else if p = prev_file env (str_int k) then PDict d else store_get (dk_fs s) p)) \<and>
    (\<forall>p \<in> slot_files env. path_exists f' p = (p = disk_file env (str_int k) \<or> p = prev_file env (str_int k) \<or> path_exists (dk_fs s) p))"
proof -
  let ?d = "disk_file env (str_int k)" and ?p = "prev_file env (str_int k)" and ?f = "dk_fs s"
  let ?f1 = "store_put (PDict d) ?p True ?f" let ?f2 = "store_delete ?d [] ?f1" let ?f3 = "store_put drive ?d True ?f2"
  have f1: "files_ok env ?f1" using f by (rule files_ok_put) simp
  have f2: "files_ok env ?f2"
    using f1 by (auto simp: files_ok_def intro: store_delete_wf writable_delete)
  have f3: "files_ok env ?f3" using f2 by (rule files_ok_put) simp
  have "store_drive env k sn h drive s = (Inr (), s\<lparr>dk_encl := (dk_encl s)\<lparr>encl_fs := ?f3\<rparr>\<rparr>)"
    using old g ch by (auto simp: store_drive_def py_exec set_dk_fs_def Let_def simp del: get_default.simps)
  moreover have "store_get ?f3 p = (if p = ?d then drive else if p = ?p then PDict d else store_get ?f p)" for p
    using f f1 f2 by (auto simp: store_get_put_pickled store_get_delete files_ok_def)
  moreover have "path_exists ?f3 p = (p = ?d \<or> p = ?p \<or> path_exists ?f p)" if p: "p \<in> slot_files env" for p
  proof -
    have "path_exists ?f3 p = (p = ?d \<or> path_exists ?f2 p)" by (rule path_exists_put [OF f2 _ p]) simp
    also have "path_exists ?f2 p = (p \<noteq> ?d \<and> path_exists ?f1 p)"
      by (rule path_exists_delete) (use files_ok_writable [OF f1] p in auto)
    also have "path_exists ?f1 p = (p = ?p \<or> path_exists ?f p)" by (rule path_exists_put [OF f _ p]) simp
    finally show ?thesis by auto
  qed
  ultimately show ?thesis using f3 by blast
qed

text \<open>One polled drive: it is among the latest disks and its record is stored.\<close>

lemma poll_drive_run:
  assumes ok: "records_ok env (dk_fs s)" and rep: "drive_report drive k sn health"
  shows "\<exists>f'. poll_drive env drive s = (Inr False, s\<lparr>latest_disks :=
        AList.update k (PDict [(''serial-number'', PStr sn), (''health'', PStr health)]) (latest_disks s),
        dk_encl := (dk_encl s)\<lparr>encl_fs := f'\<rparr>\<rparr>) \<and> records_ok env f' \<and> recorded env f' k sn health \<and>
    (\<forall>j. j \<noteq> k \<longrightarrow> store_get f' (disk_file env (str_int j)) = store_get (dk_fs s) (disk_file env (str_int j)))"
proof -
  let ?f = "dk_fs s" and ?p = "disk_file env (str_int k)"
  let ?s1 = "s\<lparr>latest_disks := AList.update k (PDict [(''serial-number'', PStr sn), (''health'', PStr health)]) (latest_disks s)\<rparr>"
  have f: "files_ok env ?f" using ok by (simp add: records_ok_def)
  have rec: "recorded env f' k sn health" if "store_get f' ?p = drive" for f'
    using that rep by (auto simp: recorded_def drive_report_def)
  have one: "poll_drive env drive s = (if path_exists ?f ?p then seqp (store_drive env k (PStr sn) (PStr health) drive) (ret False)
      else seqp (set_dk_fs (store_put drive ?p True)) (ret False)) ?s1"
    using rep by (auto simp: drive_report_def poll_drive_def store_exists_def py_exec Let_def)
  show ?thesis
  proof (cases "path_exists ?f ?p")
    case False
    let ?f' = "store_put drive ?p True ?f"
    have g: "store_get ?f' q = (if q = ?p then drive else store_get ?f q)" for q
      using f by (auto simp: store_get_put_pickled files_ok_def)
    moreover have "records_ok env ?f'"
      using ok f rep path_exists_put [OF f, of ?p] files_ok_put [OF f, of ?p]
      by (auto simp: records_ok_def g drive_report_def)
    ultimately show ?thesis
      using one False rec [of ?f'] by (intro exI [of _ ?f']) (simp add: py_exec set_dk_fs_def str_int_inj)
  next
    case True
    then obtain d where d: "store_get ?f ?p = PDict d" using ok by (auto simp: records_ok_def)
    obtain a b where ab: "get_default (PDict d) ''serial-number'' (PStr ''NA'') = Inr a"
        "get_default (PDict d) ''health'' (PStr ''NA'') = Inr b" by simp
    show ?thesis
    proof (cases "a = PStr sn \<and> b = PStr health")
      case same: True
      have "store_drive env k (PStr sn) (PStr health) drive ?s1 = (Inr (), ?s1)"
        using d ab same by (auto simp: store_drive_def py_exec Let_def simp del: get_default.simps)
      moreover have "recorded env ?f k sn health" using d ab same by (auto simp: recorded_def simp del: get_default.simps)
      ultimately show ?thesis
        using one True ok by (intro exI [of _ ?f]) (simp add: py_exec)
    next
      case False
      then have ch: "\<not> py_eq a (PStr sn) \<or> \<not> py_eq b (PStr health)" by (simp add: py_eq_PStr)
      have f1: "files_ok env (dk_fs ?s1)" and d1: "store_get (dk_fs ?s1) ?p = PDict d" using f d by simp_all
      obtain f' where f': "store_drive env k (PStr sn) (PStr health) drive ?s1 = (Inr (), ?s1\<lparr>dk_encl := (dk_encl s)\<lparr>encl_fs := f'\<rparr>\<rparr>)"
          "files_ok env f'" "\<forall>p. store_get f' p = (if p = ?p then drive else if p = prev_file env (str_int k) then PDict d else store_get ?f p)"
          "\<forall>p \<in> slot_files env. path_exists f' p = (p = ?p \<or> p = prev_file env (str_int k) \<or> path_exists ?f p)"
        using store_drive_changed [OF f1 d1 ab ch, of drive] by auto
      have "records_ok env f'" using ok f'(2-4) rep by (auto simp: records_ok_def drive_report_def)
      with one True f' rec [of f'] show ?thesis
        by (intro exI [of _ f']) (simp add: py_exec str_int_inj)
    qed
  qed
qed

section \<open>Walking through the faults\<close>

text \<open>The turns of both loops leave the enclosure client and the latest disks alone.\<close>

definition dk_is :: "encl \<Rightarrow> disks \<Rightarrow> disk_state \<Rightarrow> bool" where
  "dk_is e d s \<longleftrightarrow> dk_encl s = e \<and> latest_disks s = d"

lemma keeps_is_modp:
  "(\<And>s. dk_encl (g s) = dk_encl s \<and> latest_disks (g s) = latest_disks s) \<Longrightarrow> keeps (dk_is e d) (modp g)"
  by (simp add: keeps_def modp_def dk_is_def)

lemma keeps_is_q: "keeps (dk_is e d) (on_dk_q m)"
  by (auto simp: keeps_def on_dk_q_def dk_is_def split: prod.splits)

lemma keeps_is_wait: "keeps (dk_is e d) (dk_wait env)"
  by (simp add: keeps_def dk_wait_def dk_is_def)

lemma keeps_is_raise: "keeps (dk_is e d) (rss_raise_disk_alert env a v)"
  unfolding rss_raise_disk_alert_def disk_send_json_msg_def disk_gen_json_msg_def Let_def
  by (intro keeps_rules keeps_is_modp keeps_is_q) simp_all

lemma keeps_is_alert: "keeps (dk_is e d) (alert_and_wait env a slot)"
  unfolding alert_and_wait_def by (intro keeps_rules keeps_is_raise keeps_is_wait keeps_is_modp) simp

lemma keeps_is_fault: "keeps (dk_is e d) (fault_turn env fault)"
  unfolding fault_turn_def by (intro keeps_rules keeps_is_alert)

lemma keeps_is_resolved: "keeps (dk_is e d) (resolved_turn env cached)"
  unfolding resolved_turn_def by (intro keeps_rules keeps_is_alert)

lemma keeps_is_faults:
  "keeps (dk_is e d) (bindp (getp (\<lambda>s. latest_faults (dk_encl s))) (\<lambda>faults.
     if truthy faults then bindp (liftp (iter_list faults)) (\<lambda>fs. forp fs (fault_turn env)) else ret ()))"
  by (intro keeps_rules keeps_is_fault)

text \<open>A loop with a turn that always raises does not end normally.\<close>

lemma forp_stuck:
  assumes "\<And>x. keeps I (f x)" and "\<And>s. I s \<Longrightarrow> \<exists>e. fst (f c s) = Inl e" and "c \<in> set cs" and "I s"
  shows "\<exists>e. fst (forp cs f s) = Inl e"
  using assms(3,4)
proof (induction cs arbitrary: s)
  case (Cons x cs)
  obtain r s1 where fx: "f x s = (r, s1)" by force
  have "I s1" using keepsD [OF assms(1) Cons.prems(2), of x] fx by simp
  with Cons fx assms(2) [of s] show ?case
    by (cases r) (auto simp: seqp_def)
qed simp

text \<open>A resolved fault of a disk that is not among the latest disks.\<close>

definition gone_fault :: "encl \<Rightarrow> disks \<Rightarrow> pyv \<Rightarrow> bool" where
  "gone_fault e d c \<longleftrightarrow> (\<exists>ds t slot i. iter_list (latest_faults e) = Inr ds \<and> still_faulty c ds = Inr False \<and>
     getitem c ''component-id'' = Inr (PStr t) \<and> contains ''Disk 0.'' t \<and> slot_text (PStr t) = Inr slot \<and>
     py_int slot = Inr i \<and> map_of d i = None)"

lemma gone_fault_raises:
  assumes "gone_fault e d c" and "dk_is e d s"
  shows "resolved_turn env c s = (Inl KeyError, s)"
  using assms unfolding gone_fault_def dk_is_def
  by (auto simp: resolved_turn_def disk_health_def py_exec simp del: slot_text.simps)

section \<open>A concrete sensor\<close>

definition demo_drive :: "int \<Rightarrow> string \<Rightarrow> string \<Rightarrow> pyv" where
  "demo_drive k sn health = PDict [(''slot'', PInt k), (''serial-number'', PStr sn), (''health'', PStr health)]"

definition demo_dk :: "fs \<Rightarrow> disks \<Rightarrow> disk_state" where
  "demo_dk f latest = \<lparr>dk_encl = (demo_encl ''10.0.0.3'')\<lparr>encl_fs := f\<rparr>,
     dk_q = \<lparr>msgQlist = [(''RealStorEnclMsgHandler'', [])], msgq_dbg = init_debug\<rparr>,
     latest_disks = latest, memcache_disks = [], disks_shared = False, invalidate_latest_disks_info = False,
     memcache_frus_disks = None, dk_event = False, event_wait_results = [], dk_last_alert = PNone, dk_waits = 0,
     dk_built = 0, dk_suspended = False, dk_schedule = [], dk_raised = []\<rparr>"

abbreviation demo_fs :: fs where
  "demo_fs \<equiv> encl_fs (demo_encl ''10.0.0.3'')"

definition demo_fs1 :: fs where
  "demo_fs1 = store_put (demo_drive 1 ''A'' ''OK'') (disk_file demo_fru_env (str_int 1)) True demo_fs"

definition demo_fs2 :: fs where
  "demo_fs2 = store_put (demo_drive 2 ''B'' ''OK'') (disk_file demo_fru_env (str_int 2)) True demo_fs1"

lemma demo_files_ok: "files_ok demo_fru_env demo_fs"
proof -
  have "p \<notin> set (ancestors (dirname p))" if "p \<in> slot_files demo_fru_env" for p
    using slot_files_indep [OF that that] by (simp add: indep_def)
  then show ?thesis
    by (auto simp: files_ok_def writable_def demo_encl_def fs_wf_def isfile_def isdir_def)
qed

lemma demo_empty: "path_exists demo_fs p = False"
  by (simp add: demo_encl_def path_exists_def isfile_def isdir_def)

lemma demo_fs1: "files_ok demo_fru_env demo_fs1"
    "store_get demo_fs1 p = (if p = disk_file demo_fru_env (str_int 1) then demo_drive 1 ''A'' ''OK'' else PNone)"
    "p \<in> slot_files demo_fru_env \<Longrightarrow> path_exists demo_fs1 p = (p = disk_file demo_fru_env (str_int 1))"
proof -
  have g: "store_get demo_fs q = PNone" for q using get_exists [of demo_fs q] demo_empty by auto
  show "files_ok demo_fru_env demo_fs1" unfolding demo_fs1_def by (rule files_ok_put [OF demo_files_ok]) simp
  show "store_get demo_fs1 p = (if p = disk_file demo_fru_env (str_int 1) then demo_drive 1 ''A'' ''OK'' else PNone)"
    using demo_files_ok by (auto simp: demo_fs1_def store_get_put_pickled files_ok_def g)
  show "p \<in> slot_files demo_fru_env \<Longrightarrow> path_exists demo_fs1 p = (p = disk_file demo_fru_env (str_int 1))"
    using path_exists_put [OF demo_files_ok, of "disk_file demo_fru_env (str_int 1)" p] by (simp add: demo_fs1_def demo_empty)
qed

lemma demo_fs2: "files_ok demo_fru_env demo_fs2"
    "store_get demo_fs2 p = (if p = disk_file demo_fru_env (str_int 2) then demo_drive 2 ''B'' ''OK'' else store_get demo_fs1 p)"
    "p \<in> slot_files demo_fru_env \<Longrightarrow> path_exists demo_fs2 p = (p = disk_file demo_fru_env (str_int 2) \<or> path_exists demo_fs1 p)"
proof -
  show "files_ok demo_fru_env demo_fs2" unfolding demo_fs2_def by (rule files_ok_put [OF demo_fs1(1)]) simp
  show "store_get demo_fs2 p = (if p = disk_file demo_fru_env (str_int 2) then demo_drive 2 ''B'' ''OK'' else store_get demo_fs1 p)"
    using demo_fs1(1) by (auto simp: demo_fs2_def store_get_put_pickled files_ok_def)
  show "p \<in> slot_files demo_fru_env \<Longrightarrow> path_exists demo_fs2 p = (p = disk_file demo_fru_env (str_int 2) \<or> path_exists demo_fs1 p)"
    using path_exists_put [OF demo_fs1(1), of "disk_file demo_fru_env (str_int 2)" p] by (simp add: demo_fs2_def)
qed

lemma demo_dk_ready: "dk_ready demo_fru_env (demo_dk f latest)"
  by (simp add: dk_ready_def demo_dk_def demo_fru_env_def demo_encl_def)

lemma demo_records: "records_ok demo_fru_env demo_fs1"
  using demo_fs1 by (auto simp: records_ok_def demo_drive_def)

lemma demo_drive_report: "k \<noteq> - 1 \<Longrightarrow> drive_report (demo_drive k sn h) k sn h" "good_record (demo_drive k sn h)"
  by (simp_all add: drive_report_def good_record_def demo_drive_def)

section \<open>Properties\<close>

text \<open>
  C6. The comparison of the disks seen before with those polled last raises one missing alert for
  each disk that is lost and one insertion alert for each that is gained, each with the record
  stored for it, and no other; then the disks polled last are the ones seen before.\<close>

theorem presence_alerts_exact:
  assumes ready: "dk_ready env s" "files_ok env (dk_fs s)" "iterable_faults s" and latest: "latest_disks s = latest"
    and serials: "has_serials mem" "has_serials latest" and walk: "permutes_sets walk"
    and old: "\<forall>k \<in> lost mem latest. good_record (store_get (dk_fs s) (removed_file env (dk_fs s) k))"
    and new: "\<forall>k \<in> gained mem latest. good_record (store_get (dk_fs s) (disk_file env (str_int k)))"
    and kept: "\<forall>k. differs mem latest k \<longrightarrow> path_exists (dk_fs s) (prev_file env (str_int k))"
  shows "\<exists>s' out ins. compare_disks env walk mem latest s = (Inr (), s') \<and>
    set out = lost mem latest \<and> distinct out \<and> set ins = gained mem latest \<and> distinct ins \<and>
    dk_raised s' = dk_raised s @ map (\<lambda>k. (''missing'', store_get (dk_fs s) (removed_file env (dk_fs s) k))) out @
      map (\<lambda>k. (''insertion'', store_get (dk_fs s) (disk_file env (str_int k)))) ins \<and>
    (out @ ins \<noteq> [] \<longrightarrow> memcache_disks s' = latest)"
proof -
  obtain replaced where r: "replaced_slots mem latest (walk (populated_in mem latest)) = Inr replaced"
      "set (removed_from mem latest @ replaced) = lost mem latest" "distinct (removed_from mem latest @ replaced)"
      "set (removed_from latest mem @ replaced) = gained mem latest" "distinct (removed_from latest mem @ replaced)"
      "set replaced = {k. differs mem latest k}"
    using compare_slots [OF serials walk] by metis
  let ?out = "walk (removed_from mem latest @ replaced)" let ?ins = "walk (removed_from latest mem @ replaced)"
  have out: "set ?out = lost mem latest" "distinct ?out" and ins: "set ?ins = gained mem latest" "distinct ?ins"
    using walk r(2-5) unfolding permutes_sets_def by metis+
  show ?thesis
  proof (cases "removed_from mem latest @ replaced = [] \<and> removed_from latest mem @ replaced = []")
    case True
    with r show ?thesis
      by (intro exI [of _ s] exI [of _ "[]"]) (auto simp: compare_disks_def py_exec Let_def)
  next
    case False
    let ?s0 = "s\<lparr>dk_event := True\<rparr>"
    have s0: "dk_ready env ?s0" "iterable_faults ?s0" using ready by (simp_all add: dk_ready_def iterable_faults_def)
    obtain s1 where s1: "forp ?out (report_removed env) ?s0 = (Inr (), s1)" "dk_kept ?s0 s1" "iterable_faults s1"
        "dk_raised s1 = dk_raised s @ map (\<lambda>k. (''missing'', store_get (dk_fs s) (removed_file env (dk_fs s) k))) ?out"
        "\<forall>p. (\<forall>k \<in> set ?out. p \<noteq> removed_file env (dk_fs s) k) \<longrightarrow> store_get (dk_fs s1) p = store_get (dk_fs s) p"
      using removed_loop_run [OF s0(1), of ?out] ready(2) out old s0(2) by auto
    have "disk_file env (str_int k) \<noteq> removed_file env (dk_fs s) j" if "k \<in> gained mem latest" "j \<in> lost mem latest" for k j
      using that kept differs_keys [of mem latest k]
      by (auto simp: removed_file_def str_int_inj lost_def gained_def)
    then have g: "store_get (dk_fs s1) (disk_file env (str_int k)) = store_get (dk_fs s) (disk_file env (str_int k))"
      if "k \<in> set ?ins" for k using s1(5) that out(1) ins(1) by auto
    let ?s2 = "s1\<lparr>dk_event := False\<rparr>"
    have s2: "dk_ready env ?s2" "iterable_faults ?s2"
      using s0(1) s1(2,3) by (auto simp: dk_kept_def dk_ready_def iterable_faults_def)
    obtain s3 where s3: "forp ?ins (report_inserted env) ?s2 = (Inr (), s3)" "dk_kept ?s2 s3"
        "dk_raised s3 = dk_raised s1 @ map (\<lambda>k. (''insertion'', store_get (dk_fs s1) (disk_file env (str_int k)))) ?ins"
      using inserted_loop_run [OF s2, of ?ins] g new ins(1) by auto
    let ?s4 = "s3\<lparr>memcache_disks := latest_disks s3, disks_shared := True, memcache_frus_disks := Some (latest_disks s3)\<rparr>"
    have "compare_disks env walk mem latest s = (Inr (), ?s4)"
      using r(1) s1(1) s3(1) unfolding compare_disks_def bindp_def liftp_def Let_def if_not_P [OF False]
      by (simp add: py_exec set_dk_event_def Let_def if_not_P [OF False] del: append_is_Nil_conv)
    moreover have "memcache_disks ?s4 = latest" using s1(2) s3(2) latest by (simp add: dk_kept_def)
    moreover have "map (\<lambda>k. (''insertion'', store_get (dk_fs s1) (disk_file env (str_int k)))) ?ins =
        map (\<lambda>k. (''insertion'', store_get (dk_fs s) (disk_file env (str_int k)))) ?ins" using g by simp
    ultimately show ?thesis
      using out ins s1(4) s3(3) by (intro exI [of _ ?s4] exI [of _ ?out] exI [of _ ?ins]) simp
  qed
qed

theorem presence_alerts_exact_witness:
  "\<exists>s'. compare_disks demo_fru_env (\<lambda>xs. xs) [(1, PDict [(''serial-number'', PStr ''A'')])]
        [(2, PDict [(''serial-number'', PStr ''B'')])] (demo_dk demo_fs2 [(2, PDict [(''serial-number'', PStr ''B'')])]) = (Inr (), s') \<and>
     dk_raised s' = [(''missing'', demo_drive 1 ''A'' ''OK''), (''insertion'', demo_drive 2 ''B'' ''OK'')]"
proof -
  let ?mem = "[(1, PDict [(''serial-number'', PStr ''A'')])]" and ?new = "[(2, PDict [(''serial-number'', PStr ''B'')])]"
  let ?s = "demo_dk demo_fs2 ?new"
  have sets: "lost ?mem ?new = {1}" "gained ?mem ?new = {2}" "\<not> differs ?mem ?new k" for k
    by (auto simp: lost_def gained_def differs_def serial_of_def split: if_splits)
  have fs: "dk_fs ?s = demo_fs2" by (simp add: demo_dk_def)
  have rf: "removed_file demo_fru_env demo_fs2 1 = disk_file demo_fru_env (str_int 1)"
    using demo_fs2(3) [of "prev_file demo_fru_env (str_int 1)"] demo_fs1(3) [of "prev_file demo_fru_env (str_int 1)"]
    by (simp add: removed_file_def)
  have g: "store_get demo_fs2 (disk_file demo_fru_env (str_int 1)) = demo_drive 1 ''A'' ''OK''"
    "store_get demo_fs2 (disk_file demo_fru_env (str_int 2)) = demo_drive 2 ''B'' ''OK''"
    using demo_fs1(2) demo_fs2(2) by (auto simp: str_int_inj)
  have other: "files_ok demo_fru_env (dk_fs ?s)" "iterable_faults ?s" "latest_disks ?s = ?new" "has_serials ?mem" "has_serials ?new"
    "permutes_sets (\<lambda>xs. xs)" "dk_raised ?s = []"
    using demo_fs2(1)
    by (simp_all add: demo_dk_def iterable_faults_def demo_encl_def has_serials_def serial_of_def keys_of_def permutes_sets_def)
  from presence_alerts_exact [OF demo_dk_ready other(1-6), unfolded sets(1,2) fs] obtain s' out ins where
    "compare_disks demo_fru_env (\<lambda>xs. xs) ?mem ?new ?s = (Inr (), s')" "set out = {1}" "distinct out" "set ins = {2}" "distinct ins"
    "dk_raised s' = dk_raised ?s @ map (\<lambda>k. (''missing'', store_get demo_fs2 (removed_file demo_fru_env demo_fs2 k))) out @
      map (\<lambda>k. (''insertion'', store_get demo_fs2 (disk_file demo_fru_env (str_int k)))) ins"
    using g rf demo_drive_report(2) sets(3) by auto
  moreover have "xs = [a]" if "set xs = {a}" "distinct xs" for xs and a :: int
    using that by (cases xs; cases "tl xs") auto
  then have "out = [1]" "ins = [2]" using calculation(2-5) by blast+
  ultimately show ?thesis using rf g other(7) by auto
qed

text \<open>
  After the drives of an answer were processed, each of them is among the latest disks with its
  serial number and health, and the record stored for its slot names the same ones.\<close>

lemma poll_records_disks:
  assumes "records_ok env (dk_fs s)" and "list_all2 (\<lambda>d (k, sn, h). drive_report d k sn h) ds reps"
    and "distinct (map fst reps)"
  shows "\<exists>s'. poll_drives env ds s = (Inr (), s') \<and> records_ok env (dk_fs s') \<and>
    (\<forall>(k, sn, h) \<in> set reps. recorded env (dk_fs s') k sn h \<and>
       map_of (latest_disks s') k = Some (PDict [(''serial-number'', PStr sn), (''health'', PStr h)])) \<and>
    (\<forall>k. k \<notin> fst ` set reps \<longrightarrow> map_of (latest_disks s') k = map_of (latest_disks s) k \<and>
       store_get (dk_fs s') (disk_file env (str_int k)) = store_get (dk_fs s) (disk_file env (str_int k)))"
  using assms(2,1,3)
proof (induction ds reps arbitrary: s rule: list_all2_induct)
  case Nil
  then show ?case by (simp add: ret_def)
next
  case (Cons d ds rep reps)
  obtain k sn h where rep: "rep = (k, sn, h)" by (cases rep)
  with Cons.hyps have "drive_report d k sn h" by simp
  from poll_drive_run [OF Cons.prems(1) this] obtain s1 where
    s1: "poll_drive env d s = (Inr False, s1)" "records_ok env (dk_fs s1)" "recorded env (dk_fs s1) k sn h"
      "latest_disks s1 = AList.update k (PDict [(''serial-number'', PStr sn), (''health'', PStr h)]) (latest_disks s)"
      "\<forall>j. j \<noteq> k \<longrightarrow> store_get (dk_fs s1) (disk_file env (str_int j)) = store_get (dk_fs s) (disk_file env (str_int j))"
    by auto
  have k: "k \<notin> fst ` set reps" "distinct (map fst reps)" using Cons.prems(2) rep by auto
  from Cons.IH [OF s1(2) k(2)] obtain s' where
    s': "poll_drives env ds s1 = (Inr (), s')" "records_ok env (dk_fs s')"
      "\<forall>(k, sn, h) \<in> set reps. recorded env (dk_fs s') k sn h \<and>
       map_of (latest_disks s') k = Some (PDict [(''serial-number'', PStr sn), (''health'', PStr h)])"
      "\<And>k. k \<notin> fst ` set reps \<Longrightarrow> map_of (latest_disks s') k = map_of (latest_disks s1) k \<and>
       store_get (dk_fs s') (disk_file env (str_int k)) = store_get (dk_fs s1) (disk_file env (str_int k))" by blast
  have "recorded env (dk_fs s') k sn h" using s1(3) s'(4) [OF k(1)] by (simp add: recorded_def)
  with s1 s' k(1) rep show ?case by (intro exI [of _ s']) (auto simp: bindp_def)
qed

lemma poll_records_disks_witness:
  "\<exists>s'. poll_drives demo_fru_env [demo_drive 1 ''A'' ''Fault'', demo_drive 2 ''B'' ''OK''] (demo_dk demo_fs1 []) = (Inr (), s') \<and>
     recorded demo_fru_env (dk_fs s') 1 ''A'' ''Fault'' \<and> recorded demo_fru_env (dk_fs s') 2 ''B'' ''OK''"
proof -
  have r: "records_ok demo_fru_env (dk_fs (demo_dk demo_fs1 []))" using demo_records by (simp add: demo_dk_def)
  have l: "list_all2 (\<lambda>d (k, sn, h). drive_report d k sn h) [demo_drive 1 ''A'' ''Fault'', demo_drive 2 ''B'' ''OK'']
      [(1, ''A'', ''Fault''), (2, ''B'', ''OK'')]" by (simp add: demo_drive_report)
  from poll_records_disks [OF r l] show ?thesis by auto
qed

text \<open>
  A disk whose health changed is, when it is removed, reported with the record from before the
  change; and when the alert is acknowledged only that old record is deleted, the newer one of the
  removed disk stays in the cache.\<close>

lemma changed_disk_reported_stale:
  assumes "dk_ready env s" and "records_ok env (dk_fs s)" and "drive_report drive k sn health"
    and old: "store_get (dk_fs s) (disk_file env (str_int k)) = PDict d" "good_record (PDict d)"
      "map_of d ''serial-number'' = Some (PStr sn)" "map_of d ''health'' = Some (PStr h)" "h \<noteq> health"
    and "ev_wait env (dk_waits s)"
  shows "\<exists>s1 s2. poll_drive env drive s = (Inr False, s1) \<and> report_removed env k s1 = (Inr (), s2) \<and>
    dk_raised s2 = dk_raised s @ [(''missing'', PDict d)] \<and>
    store_get (dk_fs s2) (disk_file env (str_int k)) = drive"
proof -
  let ?p = "disk_file env (str_int k)" and ?q = "prev_file env (str_int k)"
  let ?s0 = "s\<lparr>latest_disks := AList.update k (PDict [(''serial-number'', PStr sn), (''health'', PStr health)]) (latest_disks s)\<rparr>"
  have f: "files_ok env (dk_fs ?s0)" using assms(2) by (simp add: records_ok_def)
  have "path_exists (dk_fs s) ?p" using old(1) get_exists by fastforce
  then have one: "poll_drive env drive s = seqp (store_drive env k (PStr sn) (PStr health) drive) (ret False) ?s0"
    using assms(3) by (auto simp: drive_report_def poll_drive_def store_exists_def py_exec Let_def)
  obtain f' where f': "store_drive env k (PStr sn) (PStr health) drive ?s0 = (Inr (), ?s0\<lparr>dk_encl := (dk_encl s)\<lparr>encl_fs := f'\<rparr>\<rparr>)"
      "files_ok env f'" "store_get f' ?p = drive" "store_get f' ?q = PDict d" "path_exists f' ?q"
    using store_drive_changed [OF f, of k d "PStr sn" "PStr h" "PStr sn" "PStr health" drive] old by auto
  define s1 where "s1 = ?s0\<lparr>dk_encl := (dk_encl s)\<lparr>encl_fs := f'\<rparr>\<rparr>"
  have p1: "poll_drive env drive s = (Inr False, s1)" using one f'(1) by (simp add: py_exec s1_def)
  have rf: "removed_file env f' k = ?q" using f'(5) by (simp add: removed_file_def)
  have s1: "dk_ready env s1" "dk_fs s1 = f'" "dk_raised s1 = dk_raised s" "dk_waits s1 = dk_waits s"
    using assms(1) by (simp_all add: dk_ready_def s1_def)
  then have "good_record (store_get (dk_fs s1) (removed_file env (dk_fs s1) k))" using rf f'(4) old(2) by simp
  from report_removed_run [OF s1(1) this] obtain s2 where
    "report_removed env k s1 = (Inr (), s2)" "dk_raised s2 = dk_raised s @ [(''missing'', PDict d)]"
    "dk_fs s2 = store_delete (removed_file env f' k) [] f'"
    using s1 rf f'(4) assms(9) by auto
  with p1 get_after_delete [OF f'(2), of f' k ?p] rf f'(3) show ?thesis by auto
qed

lemma changed_disk_reported_stale_witness:
  "\<exists>s1 s2. poll_drive demo_fru_env (demo_drive 1 ''A'' ''Fault'') (demo_dk demo_fs1 []) = (Inr False, s1) \<and>
     report_removed demo_fru_env 1 s1 = (Inr (), s2) \<and> dk_raised s2 = [(''missing'', demo_drive 1 ''A'' ''OK'')] \<and>
     store_get (dk_fs s2) (disk_file demo_fru_env (str_int 1)) = demo_drive 1 ''A'' ''Fault''"
proof -
  let ?s = "demo_dk demo_fs1 []"
  let ?d = "[(''slot'', PInt 1), (''serial-number'', PStr ''A''), (''health'', PStr ''OK'')]"
  have d: "demo_drive 1 ''A'' ''OK'' = PDict ?d" by (simp add: demo_drive_def)
  have s: "records_ok demo_fru_env (dk_fs ?s)" "store_get (dk_fs ?s) (disk_file demo_fru_env (str_int 1)) = PDict ?d"
    "ev_wait demo_fru_env (dk_waits ?s)" "dk_raised ?s = []"
    using demo_records demo_fs1(2) by (simp_all add: demo_dk_def demo_fru_env_def demo_drive_def)
  have rep: "drive_report (demo_drive 1 ''A'' ''Fault'') 1 ''A'' ''Fault''" by (rule demo_drive_report) simp
  have good: "good_record (PDict ?d)" by (simp add: good_record_def)
  show ?thesis
    using changed_disk_reported_stale [OF demo_dk_ready s(1) rep s(2) good _ _ _ s(3), of "''OK''"] s(4) d by auto
qed

text \<open>
  While the cache of faults holds a resolved fault of a disk that was removed from the
  enclosure, every check of the disk faults fails on it: the cache of faults is never updated, and
  its exception is only logged.\<close>

lemma removed_disk_blocks_fault_cache:
  assumes "check_system_faults_changed (dk_encl s)" and "iter_list (memcache_faults (dk_encl s)) = Inr cs"
    and "c \<in> set cs" and "gone_fault (dk_encl s) (latest_disks s) c"
  shows "\<exists>s'. rss_check_disk_faults env s = (Inr (), s') \<and> dk_encl s' = dk_encl s \<and> latest_disks s' = latest_disks s \<and>
    (\<exists>e. fst (walk_faults env s) = Inl e)"
proof -
  let ?I = "dk_is (dk_encl s) (latest_disks s)"
  let ?m = "bindp (getp (\<lambda>s. latest_faults (dk_encl s))) (\<lambda>faults.
     if truthy faults then bindp (liftp (iter_list faults)) (\<lambda>fs. forp fs (fault_turn env)) else ret ())"
  let ?s0 = "s\<lparr>dk_event := True\<rparr>"
  obtain r1 s1 where s1: "?m ?s0 = (r1, s1)" by force
  have i1: "?I s1" using keepsD [OF keeps_is_faults [of "dk_encl s" "latest_disks s" env], of ?s0] s1 by (simp add: dk_is_def)
  obtain r2 s2 where s2: "forp cs (resolved_turn env) s1 = (r2, s2)" by force
  have "keeps ?I (forp cs (resolved_turn env))" by (rule keeps_forp) (rule keeps_is_resolved)
  from keepsD [OF this i1] s2 have i2: "?I s2" by simp
  have "\<exists>e. fst (forp cs (resolved_turn env) s1) = Inl e"
    by (rule forp_stuck [OF keeps_is_resolved _ assms(3) i1]) (simp add: gone_fault_raises [OF assms(4)])
  then obtain e2 where e2: "r2 = Inl e2" using s2 by auto
  have "iter_list (memcache_faults (dk_encl s1)) = Inr cs" using i1 assms(2) by (simp add: dk_is_def)
  then have w: "walk_faults env s = (case r1 of Inl e \<Rightarrow> (Inl e, s1) | Inr _ \<Rightarrow> (Inl e2, s2))"
    using s1 s2 e2 unfolding walk_faults_def
    by (simp add: set_dk_event_def seqp_def modp_def) (simp add: seqp_def bindp_def getp_def liftp_def split: sum.splits)
  then have "?I (snd (walk_faults env s))" "\<exists>e. fst (walk_faults env s) = Inl e"
    using i1 i2 by (auto split: sum.splits)
  moreover have "rss_check_disk_faults env s = (Inr (), snd (walk_faults env s))"
    using assms(1) by (simp add: rss_check_disk_faults_def py_exec)
  ultimately show ?thesis by (simp add: dk_is_def)
qed

definition demo_fault :: "string \<Rightarrow> string \<Rightarrow> pyv" where
  "demo_fault c health = PDict [(''component-id'', PStr c), (''health'', PStr health), (''health-reason'', PStr ''r'')]"

lemma removed_disk_blocks_fault_cache_witness:
  "\<exists>s s'. memcache_faults (dk_encl s) = PList [demo_fault ''Disk 0.7'' ''Fault''] \<and> latest_faults (dk_encl s) = PList [] \<and>
     rss_check_disk_faults demo_fru_env s = (Inr (), s') \<and> dk_encl s' = dk_encl s"
proof -
  let ?c = "demo_fault ''Disk 0.7'' ''Fault''"
  let ?s = "(demo_dk demo_fs1 [])\<lparr>dk_encl := (demo_encl ''10.0.0.3'')\<lparr>memcache_faults := PList [?c], latest_faults := PList []\<rparr>\<rparr>"
  have p: "contains ''Disk 0.'' ''Disk 0.7''" "slot_text (PStr ''Disk 0.7'') = Inr ''7''" "py_int ''7'' = Inr 7" by code_simp+
  have "gone_fault (dk_encl ?s) (latest_disks ?s) ?c"
    unfolding gone_fault_def
    by (rule exI [of _ "[]"], rule exI [of _ "''Disk 0.7''"], rule exI [of _ "''7''"], rule exI [of _ 7])
      (simp add: p demo_fault_def demo_dk_def del: slot_text.simps contains.simps)
  moreover have "check_system_faults_changed (dk_encl ?s)" "iter_list (memcache_faults (dk_encl ?s)) = Inr [?c]"
    by (simp_all add: check_system_faults_changed_def demo_encl_def)
  ultimately obtain s' where "rss_check_disk_faults demo_fru_env ?s = (Inr (), s')" "dk_encl s' = dk_encl ?s"
    using removed_disk_blocks_fault_cache [of ?s "[?c]" ?c demo_fru_env] by auto
  then show ?thesis by (intro exI [of _ ?s] exI [of _ s']) (simp add: demo_dk_def)
qed

end
