(* ===== verification/Node_Cpu.thy ===== *)
theory Node_Cpu
  imports File_Store Internal_MsgQ Json_Msgs Alert_History
begin

text \<open>
  \<^verbatim>\<open>sensors/impl/generic/cpu_fault_sensor.py\<close> with the parser of the list of online CPUs from
  \<^verbatim>\<open>framework/utils/sysfs_interface.py\<close>: on each start the sensor compares the CPUs online with
  those stored and raises fault and fault_resolved alerts. The text of the file of online CPUs, the
  clock, the random salt, the host name and the order in which a set is walked through are
  parameters. The theory also holds what the sensors of the node share: \<open>node_env\<close> and the messages
  to the node data handler.
\<close>

section \<open>What the node sensors share\<close>

record node_env =
  nd_node_id :: string
  nd_data_path :: string
  nd_fqdn :: "string res"
  nd_epoch :: "nat \<Rightarrow> int"
  nd_salt :: "nat \<Rightarrow> string"
  nd_loads :: "string \<Rightarrow> pyv res"

definition node_data_msg :: "pydict \<Rightarrow> pyv" where
  "node_data_msg d = PDict [(''sensor_request_type'', PDict [(''node_data'', PDict d)])]"

definition server_cache :: "node_env \<Rightarrow> string" where
  "server_cache env = path_join (nd_data_path env) ''server''"

text \<open>\<^verbatim>\<open>raise Exception(...)\<close> in a handler for every exception.\<close>

definition reraise :: "('s, 'a) proc \<Rightarrow> ('s, 'a) proc" where
  "reraise m = tryp m (\<lambda>_. raise PyException)"

section \<open>The list of online CPUs\<close>

definition cpu_item :: "string \<Rightarrow> int list res" where
  "cpu_item item = (case split_on CHR ''-'' item of
     [a, b] \<Rightarrow> bindr (py_int a) (\<lambda>num1. bindr (py_int b) (\<lambda>num2. Inr [num1..num2]))
   | [a] \<Rightarrow> bindr (py_int a) (\<lambda>i. Inr [i])
   | _ \<Rightarrow> Inr [])"

primrec cpu_items :: "string list \<Rightarrow> int list res" where
  "cpu_items [] = Inr []"
| "cpu_items (item # items) = bindr (cpu_item item) (\<lambda>xs. bindr (cpu_items items) (\<lambda>ys. Inr (xs @ ys)))"

definition convert_cpu_info_list :: "string \<Rightarrow> int list res" where
  "convert_cpu_info_list cpu_info = cpu_items (split_on CHR '','' cpu_info)"

text \<open>\<open>online\<close> is what reading the file of online CPUs gives.\<close>

definition get_cpu_info :: "string res \<Rightarrow> int list res" where
  "get_cpu_info online = bindr online (\<lambda>t. convert_cpu_info_list (rstrip_char CHR 0x0A t))"

section \<open>The sensor\<close>

record cpu_state =
  cpu_fs :: fs
  cpu_q :: "nat msgq"
  stored_cpu_info :: pyv
  prev_cpu_info :: pyv
  current_cpu_info :: pyv
  alerts_for :: "(int \<times> string) list"
  cpu_specific :: "pyv list"
  cpu_built :: nat
  cpu_raised :: "(string \<times> string) list"

definition cpu_data_path :: "node_env \<Rightarrow> string" where
  "cpu_data_path env = path_join (server_cache env) (''CPU_FAULT_SENSOR_DATA_'' @ nd_node_id env)"

definition int_list :: "int list \<Rightarrow> pyv" where
  "int_list xs = PList (map PInt xs)"

text \<open>A list of CPU numbers; the stored lists are written by the sensor itself.\<close>

fun ints_of :: "pyv \<Rightarrow> int list res" where
  "ints_of (PList xs) = seq_res (map as_int xs)"
| "ints_of _ = Inl TypeError"

definition node_list :: "node_env \<Rightarrow> string \<Rightarrow> cpu_state \<Rightarrow> pyv res" where
  "node_list env key s = get_items (stored_cpu_info s) [nd_node_id env, key]"

definition set_node_list :: "node_env \<Rightarrow> string \<Rightarrow> pyv \<Rightarrow> (cpu_state, unit) proc" where
  "set_node_list env key v = bindp (getp stored_cpu_info) (\<lambda>d.
     bindp (liftp (set_path d [nd_node_id env, key] v)) (\<lambda>d'. modp (\<lambda>s. s\<lparr>stored_cpu_info := d'\<rparr>)))"

definition read_stored_cpu_info :: "node_env \<Rightarrow> (cpu_state, unit) proc" where
  "read_stored_cpu_info env = reraise (
     seqp (modp (\<lambda>s. if stored_cpu_info s = PNone then s\<lparr>stored_cpu_info := store_get (cpu_fs s) (cpu_data_path env)\<rparr> else s))
     (bindp (getp stored_cpu_info) (\<lambda>stored.
        if stored = PNone then ret ()
        else case stored of
          PDict d \<Rightarrow> if map_of d (nd_node_id env) = None then ret ()
            else bindp (liftp (get_items stored [nd_node_id env, ''CPU_LIST''])) (\<lambda>v. modp (\<lambda>s. s\<lparr>prev_cpu_info := v\<rparr>))
        | _ \<Rightarrow> raise AttributeError)))"

definition read_current_cpu_info :: "string res \<Rightarrow> (cpu_state, unit) proc" where
  "read_current_cpu_info online = reraise (bindp (liftp (get_cpu_info online)) (\<lambda>xs. modp (\<lambda>s. s\<lparr>current_cpu_info := int_list xs\<rparr>)))"

text \<open>\<^verbatim>\<open>set(self.prev_cpu_info + self.current_cpu_info)\<close>, walked through in the order \<open>walk\<close>.\<close>

definition all_cpus :: "(int list \<Rightarrow> int list) \<Rightarrow> cpu_state \<Rightarrow> int list res" where
  "all_cpus walk s = bindr (ints_of (prev_cpu_info s)) (\<lambda>p. bindr (ints_of (current_cpu_info s)) (\<lambda>c. Inr (walk (remdups (p @ c)))))"

definition in_list :: "int \<Rightarrow> pyv \<Rightarrow> bool res" where
  "in_list cpu v = py_in (PInt cpu) v"

definition add_alert :: "int \<Rightarrow> string \<Rightarrow> (cpu_state, unit) proc" where
  "add_alert cpu alert_type = modp (\<lambda>s. s\<lparr>alerts_for := AList.update cpu alert_type (alerts_for s)\<rparr>)"

definition append_item :: "pyv \<Rightarrow> pyv \<Rightarrow> pyv res" where
  "append_item v x = (case v of PList xs \<Rightarrow> Inr (PList (xs @ [x])) | _ \<Rightarrow> Inl AttributeError)"

definition cpu_turn :: "node_env \<Rightarrow> int \<Rightarrow> (cpu_state, unit) proc" where
  "cpu_turn env cpu =
     bindp (getp (\<lambda>s. in_list cpu (current_cpu_info s))) (\<lambda>r. bindp (liftp r) (\<lambda>online.
     bindp (if online then ret False
            else bindp (getp (\<lambda>s. bindr (node_list env ''FAULT_LIST'' s) (in_list cpu))) (\<lambda>r.
              bindp (liftp r) (\<lambda>known. ret (\<not> known)))) (\<lambda>failed.
       if failed then
         seqp (bindp (getp (\<lambda>s. bindr (node_list env ''FAULT_LIST'' s) (\<lambda>l. append_item l (PInt cpu)))) (\<lambda>r.
                bindp (liftp r) (set_node_list env ''FAULT_LIST'')))
              (add_alert cpu ''fault'')
       else
         bindp (getp (\<lambda>s. in_list cpu (prev_cpu_info s))) (\<lambda>r. bindp (liftp r) (\<lambda>before.
           if before then ret ()
           else bindp (getp (\<lambda>s. bindr (node_list env ''FAULT_LIST'' s) (in_list cpu))) (\<lambda>r.
             bindp (liftp r) (\<lambda>known. if known then add_alert cpu ''fault_resolved'' else ret ())))))))"

text \<open>The comparison; the value is \<^verbatim>\<open>to_update\<close>.\<close>

definition compare_cpus :: "node_env \<Rightarrow> (int list \<Rightarrow> int list) \<Rightarrow> (cpu_state, bool) proc" where
  "compare_cpus env walk = reraise (bindp (getp (\<lambda>s. (prev_cpu_info s, current_cpu_info s))) (\<lambda>(prev, cur).
     if truthy prev then
       if \<not> py_eq cur prev then
         bindp (getp (all_cpus walk)) (\<lambda>r. bindp (liftp r) (\<lambda>cpus.
         seqp (forp cpus (cpu_turn env))
         (seqp (set_node_list env ''CPU_LIST'' cur) (ret True))))
       else ret False
     else
       seqp (modp (\<lambda>s. if \<not> truthy (stored_cpu_info s) then s\<lparr>stored_cpu_info := PDict []\<rparr> else s))
       (bindp (getp stored_cpu_info) (\<lambda>d. bindp (liftp (setitem d (nd_node_id env) (PDict []))) (\<lambda>d'.
        seqp (modp (\<lambda>s. s\<lparr>stored_cpu_info := d'\<rparr>))
        (seqp (set_node_list env ''CPU_LIST'' cur)
        (seqp (set_node_list env ''FAULT_LIST'' (PList [])) (ret True))))))))"

definition resource_id :: "int \<Rightarrow> string" where
  "resource_id cpu = ''CPU-'' @ str_int cpu"

definition cpu_entry :: "cpu_state \<Rightarrow> int \<Rightarrow> string \<times> string" where
  "cpu_entry s cpu = (resource_id cpu, if map_of (alerts_for s) cpu = Some ''fault'' then ''offline'' else ''online'')"

definition fill_specific_info :: "(int list \<Rightarrow> int list) \<Rightarrow> (cpu_state, unit) proc" where
  "fill_specific_info walk = bindp (getp cpu_specific) (\<lambda>spec.
     if spec \<noteq> [] then ret ()
     else bindp (getp (all_cpus walk)) (\<lambda>r. bindp (liftp r) (\<lambda>cpus.
       modp (\<lambda>s. s\<lparr>cpu_specific := cpu_specific s @ map (\<lambda>cpu. case cpu_entry s cpu of (i, st) \<Rightarrow>
         PDict [(''resource_id'', PStr i), (''state'', PStr st)]) cpus\<rparr>))))"

text \<open>The description is assigned for the last item with the resource id of the CPU.\<close>

primrec description_of :: "string \<Rightarrow> string \<Rightarrow> pyv list \<Rightarrow> string option \<Rightarrow> string res" where
  "description_of res_id alert_type [] d = (case d of None \<Rightarrow> Inl UnboundLocalError | Some t \<Rightarrow> Inr t)"
| "description_of res_id alert_type (item # items) d =
     bindr (getitem item ''resource_id'') (\<lambda>i. bindr (getitem item ''state'') (\<lambda>st.
       description_of res_id alert_type items
         (if py_eq i (PStr res_id) then
            Some (if alert_type = ''fault'' then ''Faulty CPU detected, '' @ py_str i @ '' state is '' @ py_str st
                  else ''Fault resolved for CPU, '' @ py_str i @ '' state is  '' @ py_str st)
          else d)))"

definition cpu_create_json_message :: "node_env \<Rightarrow> (int list \<Rightarrow> int list) \<Rightarrow> int \<Rightarrow> string \<Rightarrow> (cpu_state, pyv) proc" where
  "cpu_create_json_message env walk cpu alert_type =
     bindp (liftp (map_severity alert_type)) (\<lambda>severity.
     bindp (getp cpu_built) (\<lambda>n.
     let epoch_time = str_int (nd_epoch env n); alert_id = get_alert_id (nd_salt env n) epoch_time in
     seqp (modp (\<lambda>s. s\<lparr>cpu_built := cpu_built s + 1\<rparr>))
     (bindp (liftp (nd_fqdn env)) (\<lambda>host_name.
      seqp (fill_specific_info walk)
      (bindp (getp cpu_specific) (\<lambda>spec.
       bindp (liftp (description_of (resource_id cpu) alert_type spec None)) (\<lambda>description.
       bindp (liftp (json_dumps (node_data_msg
         [(''status'', PStr ''update''), (''host_id'', PStr host_name), (''alert_type'', PStr alert_type),
          (''severity'', PStr severity), (''alert_id'', PStr alert_id),
          (''info'', PDict [(''resource_type'', PStr ''node:os:cpu:core''), (''resource_id'', PStr (resource_id cpu)),
             (''event_time'', PStr epoch_time), (''description'', PStr description)]),
          (''specific_info'', PList spec)]))) (\<lambda>t. ret (PStr t)))))))))"

text \<open>\<open>cpu_raised\<close> records each alert that was queued.\<close>

definition cpu_generate_alert :: "node_env \<Rightarrow> (int list \<Rightarrow> int list) \<Rightarrow> int \<Rightarrow> string \<Rightarrow> (cpu_state, bool) proc" where
  "cpu_generate_alert env walk cpu alert_type = tryp
     (bindp (cpu_create_json_message env walk cpu alert_type) (\<lambda>m.
      seqp (if truthy m then
              seqp (\<lambda>s. case write_internal_msgQ ''NodeDataMsgHandler'' m None (cpu_q s) of (r, q) \<Rightarrow> (r, s\<lparr>cpu_q := q\<rparr>))
                   (modp (\<lambda>s. s\<lparr>cpu_raised := cpu_raised s @ [(resource_id cpu, alert_type)]\<rparr>))
            else ret ())
           (ret True)))
     (\<lambda>_. ret False)"

text \<open>\<^verbatim>\<open>list.remove\<close>: the first occurrence goes.\<close>

fun remove_item :: "pyv \<Rightarrow> pyv \<Rightarrow> pyv res" where
  "remove_item x (PList []) = Inl ValueError"
| "remove_item x (PList (y # ys)) = (if py_eq y x then Inr (PList ys)
     else bindr (remove_item x (PList ys)) (\<lambda>v. case v of PList zs \<Rightarrow> Inr (PList (y # zs)) | _ \<Rightarrow> Inl TypeError))"
| "remove_item x _ = Inl AttributeError"

definition send_alert :: "node_env \<Rightarrow> (int list \<Rightarrow> int list) \<Rightarrow> int \<times> string \<Rightarrow> (cpu_state, unit) proc" where
  "send_alert env walk = (\<lambda>(cpu, alert_type).
     bindp (cpu_generate_alert env walk cpu alert_type) (\<lambda>sent.
       if sent \<and> alert_type = ''fault_resolved'' then
         bindp (getp (\<lambda>s. bindr (node_list env ''FAULT_LIST'' s) (remove_item (PInt cpu)))) (\<lambda>r.
           bindp (liftp r) (set_node_list env ''FAULT_LIST''))
       else ret ()))"

definition cpu_run :: "node_env \<Rightarrow> (int list \<Rightarrow> int list) \<Rightarrow> string res \<Rightarrow> (cpu_state, unit) proc" where
  "cpu_run env walk online =
     seqp (modp (\<lambda>s. s\<lparr>cpu_q := snd (read_my_msgQ_noWait (nd_loads env) ''CPUFaultSensor'' (cpu_q s))\<rparr>))
     (seqp (read_stored_cpu_info env)
     (seqp (modp (\<lambda>s. s\<lparr>alerts_for := [], cpu_specific := []\<rparr>))
     (seqp (read_current_cpu_info online)
     (bindp (compare_cpus env walk) (\<lambda>to_update.
      seqp (bindp (getp alerts_for) (\<lambda>as. forp as (send_alert env walk)))
           (if to_update then
              modp (\<lambda>s. s\<lparr>cpu_fs := store_put (stored_cpu_info s) (cpu_data_path env) True (cpu_fs s)\<rparr>)
            else ret ()))))))"

section \<open>Reading back what the kernel prints\<close>

text \<open>The format of the file of online CPUs: ranges and single numbers, separated by commas.\<close>

definition range_text :: "int \<times> int \<Rightarrow> string" where
  "range_text = (\<lambda>(a, b). if a = b then str_int a else str_int a @ ''-'' @ str_int b)"

definition cpu_text :: "(int \<times> int) list \<Rightarrow> string" where
  "cpu_text rs = join_with '','' (map range_text rs)"

lemma digits_only: "0 \<le> i \<Longrightarrow> c \<in> set (str_int i) \<Longrightarrow> is_digit c"
  using list_all_str_nat [of "nat i"] by (auto simp: str_int_def list_all_iff)

lemma str_int_no_minus: "0 \<le> i \<Longrightarrow> CHR ''-'' \<notin> set (str_int i)" "0 \<le> i \<Longrightarrow> CHR '','' \<notin> set (str_int i)"
  using digits_only [of i "CHR ''-''"] digits_only [of i "CHR '',''"] by (auto simp: is_digit_def)

lemma cpu_item_range: "0 \<le> a \<Longrightarrow> a \<le> b \<Longrightarrow> cpu_item (range_text (a, b)) = Inr [a..b]"
  by (simp add: cpu_item_def range_text_def split_on_plain split_on_append str_int_no_minus py_int_str_int)

lemma range_text_no_comma: "0 \<le> a \<Longrightarrow> a \<le> b \<Longrightarrow> CHR '','' \<notin> set (range_text (a, b))"
  using str_int_no_minus by (auto simp: range_text_def)

lemma split_join:
  "xs \<noteq> [] \<Longrightarrow> \<forall>x \<in> set xs. d \<notin> set x \<Longrightarrow> split_on d (join_with [d] xs) = xs"
proof (induction xs)
  case (Cons x xs)
  then show ?case by (cases xs) (simp_all add: split_on_plain split_on_append)
qed simp

lemma cpu_items_ranges:
  "\<forall>(a, b) \<in> set rs. 0 \<le> a \<and> a \<le> b \<Longrightarrow>
    cpu_items (map range_text rs) = Inr (concat (map (\<lambda>(a, b). [a..b]) rs))"
  by (induction rs) (auto simp: cpu_item_range)

text \<open>
  C38. The list of online CPUs is read back from the text the kernel prints for it: each range gives
  its numbers, in order.\<close>

theorem cpu_list_roundtrip:
  assumes "rs \<noteq> []" and "\<forall>(a, b) \<in> set rs. 0 \<le> a \<and> a \<le> b"
  shows "convert_cpu_info_list (cpu_text rs) = Inr (concat (map (\<lambda>(a, b). [a..b]) rs))"
proof -
  have "split_on CHR '','' (cpu_text rs) = map range_text rs"
    unfolding cpu_text_def by (rule split_join) (use assms range_text_no_comma in auto)
  with cpu_items_ranges [of rs] assms(2) show ?thesis by (simp add: convert_cpu_info_list_def)
qed

theorem cpu_list_roundtrip_witness:
  "convert_cpu_info_list ''0-2,4,6-8'' = Inr [0, 1, 2, 4, 6, 7, 8]"
proof -
  have "cpu_text [(0, 2), (4, 4), (6, 8)] = ''0-2,4,6-8''" by code_simp
  moreover have "concat (map (\<lambda>(a, b). [a..b]) [(0, 2), (4, 4), (6, 8)]) = [0, 1, 2, 4, 6, 7, 8 :: int]" by code_simp
  ultimately show ?thesis
    using cpu_list_roundtrip [of "[(0, 2), (4, 4), (6, 8)]"] by auto
qed

section \<open>The stored lists\<close>

definition cpu_lists :: "node_env \<Rightarrow> int list \<Rightarrow> int list \<Rightarrow> pyv \<Rightarrow> bool" where
  "cpu_lists env prev faults v \<longleftrightarrow> (\<exists>d n. v = PDict d \<and> map_of d (nd_node_id env) = Some (PDict n) \<and>
     map_of n ''CPU_LIST'' = Some (int_list prev) \<and> map_of n ''FAULT_LIST'' = Some (int_list faults))"

lemma node_list_run:
  "cpu_lists env prev faults (stored_cpu_info s) \<Longrightarrow> node_list env ''CPU_LIST'' s = Inr (int_list prev)"
  "cpu_lists env prev faults (stored_cpu_info s) \<Longrightarrow> node_list env ''FAULT_LIST'' s = Inr (int_list faults)"
  by (auto simp: cpu_lists_def node_list_def)

lemma set_node_list_run:
  "cpu_lists env prev faults (stored_cpu_info s) \<Longrightarrow>
    \<exists>v. set_node_list env ''FAULT_LIST'' (int_list fs) s = (Inr (), s\<lparr>stored_cpu_info := v\<rparr>) \<and> cpu_lists env prev fs v"
  "cpu_lists env prev faults (stored_cpu_info s) \<Longrightarrow>
    \<exists>v. set_node_list env ''CPU_LIST'' (int_list ps) s = (Inr (), s\<lparr>stored_cpu_info := v\<rparr>) \<and> cpu_lists env ps faults v"
  by (auto simp: cpu_lists_def set_node_list_def py_exec)

lemma in_list_int [simp]: "in_list c (int_list xs) = Inr (c \<in> set xs)"
  by (auto simp: in_list_def int_list_def list_ex_iff)

lemma append_int: "append_item (int_list xs) (PInt c) = Inr (int_list (xs @ [c]))"
  by (simp add: append_item_def int_list_def)

lemma remove_int: "c \<in> set xs \<Longrightarrow> remove_item (PInt c) (int_list xs) = Inr (int_list (remove1 c xs))"
  unfolding int_list_def by (induction xs) auto

lemma ints_of_int [simp]: "ints_of (int_list xs) = Inr xs"
  unfolding int_list_def by (induction xs) auto

lemma int_list_eq [simp]: "int_list xs = int_list ys \<longleftrightarrow> xs = ys"
  by (auto simp: int_list_def intro: injI map_injective)

lemma py_eq_int_list: "py_eq (int_list xs) (int_list ys) \<longleftrightarrow> xs = ys"
  by (auto simp: int_list_def list_all2_conv_all_nth list_eq_iff_nth_eq)

lemma truthy_int_list [simp]: "truthy (int_list xs) \<longleftrightarrow> xs \<noteq> []"
  by (simp add: int_list_def)

section \<open>The comparison\<close>

definition cpu_alert :: "int list \<Rightarrow> int list \<Rightarrow> int list \<Rightarrow> int \<Rightarrow> string option" where
  "cpu_alert prev cur faults c =
     (if c \<notin> set cur \<and> c \<notin> set faults then Some ''fault''
      else if c \<notin> set prev \<and> c \<in> set faults then Some ''fault_resolved'' else None)"

definition alert_list :: "int list \<Rightarrow> int list \<Rightarrow> int list \<Rightarrow> int list \<Rightarrow> (int \<times> string) list" where
  "alert_list prev cur faults cs = List.map_filter (\<lambda>c. map_option (Pair c) (cpu_alert prev cur faults c)) cs"

lemma alert_list_simps [simp]:
  "alert_list prev cur faults [] = []"
  "alert_list prev cur faults (c # cs) = (case cpu_alert prev cur faults c of None \<Rightarrow> alert_list prev cur faults cs
     | Some a \<Rightarrow> (c, a) # alert_list prev cur faults cs)"
  by (simp_all add: alert_list_def map_filter_simps split: option.splits)

lemma update_new_key: "map_of d k = None \<Longrightarrow> AList.update k v d = d @ [(k, v)]"
  by (induction d) (auto split: if_splits)

definition comparing :: "node_env \<Rightarrow> int list \<Rightarrow> int list \<Rightarrow> int list \<Rightarrow> (int \<times> string) list \<Rightarrow> cpu_state \<Rightarrow> bool" where
  "comparing env prev cur fl as s \<longleftrightarrow> cpu_lists env prev fl (stored_cpu_info s) \<and> prev_cpu_info s = int_list prev \<and>
     current_cpu_info s = int_list cur \<and> alerts_for s = as"

lemma cpu_turn_run:
  assumes inv: "comparing env prev cur fl as s" and fl: "c \<in> set fl \<longleftrightarrow> c \<in> set faults" and as: "map_of as c = None"
  shows "\<exists>v. cpu_turn env c s = (Inr (), s\<lparr>stored_cpu_info := v,
      alerts_for := as @ alert_list prev cur faults [c]\<rparr>) \<and>
    comparing env prev cur (fl @ filter (\<lambda>c. c \<notin> set cur \<and> c \<notin> set faults) [c]) (as @ alert_list prev cur faults [c])
      (s\<lparr>stored_cpu_info := v, alerts_for := as @ alert_list prev cur faults [c]\<rparr>)"
proof -
  have l: "node_list env ''FAULT_LIST'' s = Inr (int_list fl)" "cpu_lists env prev fl (stored_cpu_info s)"
    using inv node_list_run by (auto simp: comparing_def)
  obtain v where v: "set_node_list env ''FAULT_LIST'' (int_list (fl @ [c])) s = (Inr (), s\<lparr>stored_cpu_info := v\<rparr>)"
      "cpu_lists env prev (fl @ [c]) v"
    using set_node_list_run(1) [OF l(2)] by blast
  show ?thesis
  proof (cases "c \<notin> set cur \<and> c \<notin> set faults")
    case True
    then have "cpu_turn env c s = (Inr (), s\<lparr>stored_cpu_info := v, alerts_for := as @ [(c, ''fault'')]\<rparr>)"
      using inv l(1) v(1) fl as
      by (simp add: cpu_turn_def py_exec comparing_def append_int add_alert_def update_new_key)
    with True v(2) inv show ?thesis by (auto simp: cpu_alert_def comparing_def)
  next
    case False
    then have "cpu_turn env c s = (Inr (), s\<lparr>alerts_for := as @ alert_list prev cur faults [c]\<rparr>)"
      using inv l(1) fl as
      by (auto simp: cpu_turn_def py_exec comparing_def add_alert_def update_new_key cpu_alert_def)
    with False inv show ?thesis
      by (intro exI [of _ "stored_cpu_info s"]) (auto simp: comparing_def)
  qed
qed

lemma map_of_alert_list: "c \<notin> set cs \<Longrightarrow> map_of (alert_list prev cur faults cs) c = None"
  by (induction cs) (auto split: option.splits)

lemma alert_list_append: "alert_list p c f (xs @ ys) = alert_list p c f xs @ alert_list p c f ys"
  by (induction xs) (auto split: option.splits)

lemma cpu_loop_run:
  assumes "comparing env prev cur (faults @ filter (\<lambda>c. c \<notin> set cur \<and> c \<notin> set faults) ds) (alert_list prev cur faults ds) s"
    and "distinct (ds @ cs)"
  shows "\<exists>v. forp cs (cpu_turn env) s = (Inr (), s\<lparr>stored_cpu_info := v, alerts_for := alert_list prev cur faults (ds @ cs)\<rparr>) \<and>
    cpu_lists env prev (faults @ filter (\<lambda>c. c \<notin> set cur \<and> c \<notin> set faults) (ds @ cs)) v"
  using assms
proof (induction cs arbitrary: ds s)
  case Nil
  then show ?case by (intro exI [of _ "stored_cpu_info s"]) (auto simp: ret_def comparing_def)
next
  case (Cons c cs)
  let ?f = "filter (\<lambda>c. c \<notin> set cur \<and> c \<notin> set faults)"
  have mem: "c \<in> set (faults @ ?f ds) \<longleftrightarrow> c \<in> set faults" "map_of (alert_list prev cur faults ds) c = None"
    using Cons.prems(2) map_of_alert_list [of c ds] by auto
  obtain v where v: "cpu_turn env c s = (Inr (), s\<lparr>stored_cpu_info := v,
        alerts_for := alert_list prev cur faults ds @ alert_list prev cur faults [c]\<rparr>)"
      "comparing env prev cur ((faults @ ?f ds) @ ?f [c]) (alert_list prev cur faults ds @ alert_list prev cur faults [c])
        (s\<lparr>stored_cpu_info := v, alerts_for := alert_list prev cur faults ds @ alert_list prev cur faults [c]\<rparr>)"
    using cpu_turn_run [OF Cons.prems(1) mem] by blast
  let ?s1 = "s\<lparr>stored_cpu_info := v, alerts_for := alert_list prev cur faults ds @ alert_list prev cur faults [c]\<rparr>"
  have "comparing env prev cur (faults @ ?f (ds @ [c])) (alert_list prev cur faults (ds @ [c])) ?s1"
    using v(2) by (simp add: alert_list_append del: alert_list_simps)
  from Cons.IH [OF this] Cons.prems(2) v(1) show ?case
    by (auto simp: seqp_def simp del: alert_list_simps)
qed

section \<open>Sending the alerts\<close>

definition spec_items :: "(int \<times> string) list \<Rightarrow> int list \<Rightarrow> pyv list" where
  "spec_items as cpus = map (\<lambda>c. PDict [(''resource_id'', PStr (resource_id c)),
     (''state'', PStr (if map_of as c = Some ''fault'' then ''offline'' else ''online''))]) cpus"

definition sending :: "node_env \<Rightarrow> (int list \<Rightarrow> int list) \<Rightarrow> int list \<Rightarrow> int list \<Rightarrow> int list \<Rightarrow> (int \<times> string) list \<Rightarrow> cpu_state \<Rightarrow> bool" where
  "sending env walk prev cur fl as s \<longleftrightarrow> cpu_lists env cur fl (stored_cpu_info s) \<and> prev_cpu_info s = int_list prev \<and>
     current_cpu_info s = int_list cur \<and> alerts_for s = as \<and> cpu_specific s \<in> {[], spec_items as (walk (remdups (prev @ cur)))} \<and>
     map_of (msgQlist (cpu_q s)) ''NodeDataMsgHandler'' \<noteq> None \<and> (\<exists>host. nd_fqdn env = Inr host)"

lemma description_ok:
  "c \<in> set cpus \<or> d \<noteq> None \<Longrightarrow> \<exists>t. description_of (resource_id c) a (spec_items as cpus) d = Inr t"
proof (induction cpus arbitrary: d)
  case Nil
  then show ?case by (auto simp: spec_items_def)
next
  case (Cons x cpus)
  then show ?case by (auto simp: spec_items_def)
qed

lemma fill_run:
  assumes "sending env walk prev cur fl as s"
  shows "fill_specific_info walk s = (Inr (), s\<lparr>cpu_specific := spec_items as (walk (remdups (prev @ cur)))\<rparr>)"
  using assms
  by (auto simp: fill_specific_info_def sending_def all_cpus_def cpu_entry_def spec_items_def py_exec)

lemma create_run:
  assumes inv: "sending env walk prev cur fl as s" and c: "c \<in> set (walk (remdups (prev @ cur)))"
    and a: "a \<in> {''fault'', ''fault_resolved''}"
  shows "\<exists>t. cpu_create_json_message env walk c a s =
    (Inr (PStr t), s\<lparr>cpu_built := cpu_built s + 1, cpu_specific := spec_items as (walk (remdups (prev @ cur)))\<rparr>) \<and> t \<noteq> []"
proof -
  let ?items = "spec_items as (walk (remdups (prev @ cur)))"
  obtain host sev where h: "nd_fqdn env = Inr host" and sev: "map_severity a = Inr sev"
    using inv a by (auto simp: sending_def map_severity_def ALERT_TO_SEVERITY_MAPPING_def)
  obtain desc where desc: "description_of (resource_id c) a ?items None = Inr desc"
    using description_ok [of c _ None a as] c by blast
  let ?s1 = "s\<lparr>cpu_built := cpu_built s + 1\<rparr>"
  have "sending env walk prev cur fl as ?s1" using inv by (simp add: sending_def)
  note fill = fill_run [OF this]
  let ?e = "str_int (nd_epoch env (cpu_built s))"
  let ?m = "[(''sensor_request_type'', PDict [(''node_data'', PDict [(''status'', PStr ''update''), (''host_id'', PStr host),
      (''alert_type'', PStr a), (''severity'', PStr sev), (''alert_id'', PStr (get_alert_id (nd_salt env (cpu_built s)) ?e)),
      (''info'', PDict [(''resource_type'', PStr ''node:os:cpu:core''), (''resource_id'', PStr (resource_id c)),
         (''event_time'', PStr ?e), (''description'', PStr desc)]), (''specific_info'', PList ?items)])])]"
  have "json_able (PDict ?m)" by (auto simp: spec_items_def)
  then obtain t where t: "json_dumps (PDict ?m) = Inr t" "t \<noteq> []"
    using json_dumps_ok [of "PDict ?m"] by (auto simp: bindr_eq_Inr)
  with h sev desc fill show ?thesis
    by (simp add: cpu_create_json_message_def py_exec Let_def node_data_msg_def del: json_dumps.simps)
qed

lemma generate_run:
  assumes inv: "sending env walk prev cur fl as s" and c: "c \<in> set (walk (remdups (prev @ cur)))"
    and a: "a \<in> {''fault'', ''fault_resolved''}"
  shows "\<exists>s'. cpu_generate_alert env walk c a s = (Inr True, s') \<and> sending env walk prev cur fl as s' \<and>
    cpu_raised s' = cpu_raised s @ [(resource_id c, a)] \<and> cpu_fs s' = cpu_fs s \<and> stored_cpu_info s' = stored_cpu_info s"
proof -
  obtain t where t: "cpu_create_json_message env walk c a s =
      (Inr (PStr t), s\<lparr>cpu_built := cpu_built s + 1, cpu_specific := spec_items as (walk (remdups (prev @ cur)))\<rparr>)" "t \<noteq> []"
    using create_run [OF assms] by blast
  obtain ms where ms: "map_of (msgQlist (cpu_q s)) ''NodeDataMsgHandler'' = Some ms" using inv by (auto simp: sending_def)
  let ?s = "s\<lparr>cpu_built := cpu_built s + 1, cpu_specific := spec_items as (walk (remdups (prev @ cur))),
      cpu_q := (cpu_q s)\<lparr>msgQlist := AList.update ''NodeDataMsgHandler'' (ms @ [(PStr t, None)]) (msgQlist (cpu_q s))\<rparr>,
      cpu_raised := cpu_raised s @ [(resource_id c, a)]\<rparr>"
  have "cpu_generate_alert env walk c a s = (Inr True, ?s)"
    using t ms by (simp add: cpu_generate_alert_def py_exec write_internal_msgQ_def)
  moreover have "sending env walk prev cur fl as ?s" using inv by (simp add: sending_def)
  ultimately show ?thesis by (intro exI [of _ ?s]) simp
qed

lemma send_alert_run:
  assumes inv: "sending env walk prev cur fl as s" and c: "c \<in> set (walk (remdups (prev @ cur)))"
    and a: "a \<in> {''fault'', ''fault_resolved''}" "a = ''fault_resolved'' \<Longrightarrow> c \<in> set fl"
  shows "\<exists>s'. send_alert env walk (c, a) s = (Inr (), s') \<and>
    sending env walk prev cur (if a = ''fault_resolved'' then remove1 c fl else fl) as s' \<and>
    cpu_raised s' = cpu_raised s @ [(resource_id c, a)] \<and> cpu_fs s' = cpu_fs s"
proof -
  obtain s1 where s1: "cpu_generate_alert env walk c a s = (Inr True, s1)" "sending env walk prev cur fl as s1"
      "cpu_raised s1 = cpu_raised s @ [(resource_id c, a)]" "cpu_fs s1 = cpu_fs s"
    using generate_run [OF inv c a(1)] by blast
  have l: "cpu_lists env cur fl (stored_cpu_info s1)" "node_list env ''FAULT_LIST'' s1 = Inr (int_list fl)"
    using s1(2) node_list_run by (auto simp: sending_def)
  show ?thesis
  proof (cases "a = ''fault_resolved''")
    case True
    obtain v where "set_node_list env ''FAULT_LIST'' (int_list (remove1 c fl)) s1 = (Inr (), s1\<lparr>stored_cpu_info := v\<rparr>)"
        "cpu_lists env cur (remove1 c fl) v"
      using set_node_list_run(1) [OF l(1)] by blast
    with True s1 l(2) a(2) show ?thesis
      by (simp add: send_alert_def py_exec remove_int sending_def)
  next
    case False
    with s1 show ?thesis by (simp add: send_alert_def py_exec)
  qed
qed

lemma send_loop_run:
  assumes "sending env walk prev cur fl as s" and "fst ` set bs \<subseteq> set (walk (remdups (prev @ cur)))"
    and "\<forall>(c, a) \<in> set bs. a = ''fault'' \<or> a = ''fault_resolved'' \<and> c \<in> set fl" and "distinct (map fst bs)" and "distinct fl"
  shows "\<exists>s'. forp bs (send_alert env walk) s = (Inr (), s') \<and>
    sending env walk prev cur (filter (\<lambda>c. (c, ''fault_resolved'') \<notin> set bs) fl) as s' \<and>
    cpu_raised s' = cpu_raised s @ map (\<lambda>(c, a). (resource_id c, a)) bs \<and> cpu_fs s' = cpu_fs s"
  using assms
proof (induction bs arbitrary: s fl)
  case Nil
  then show ?case by (simp add: ret_def)
next
  case (Cons b bs)
  obtain c a where b: "b = (c, a)" by (cases b)
  let ?fl = "if a = ''fault_resolved'' then remove1 c fl else fl"
  obtain s1 where s1: "send_alert env walk (c, a) s = (Inr (), s1)" "sending env walk prev cur ?fl as s1"
      "cpu_raised s1 = cpu_raised s @ [(resource_id c, a)]" "cpu_fs s1 = cpu_fs s"
    using send_alert_run [OF Cons.prems(1), of c a] Cons.prems(2,3) b by auto
  have c: "c \<notin> fst ` set bs" using Cons.prems(4) b by simp
  have "x \<in> set ?fl \<longleftrightarrow> x \<in> set fl" if "(x, a') \<in> set bs" for x a'
  proof -
    have "x \<noteq> c" using that c by (metis fst_conv image_eqI)
    then show ?thesis by simp
  qed
  then have "\<forall>(x, a') \<in> set bs. a' = ''fault'' \<or> a' = ''fault_resolved'' \<and> x \<in> set ?fl"
    using Cons.prems(3) by auto
  moreover have "distinct ?fl" using Cons.prems(5) by (simp add: distinct_remove1)
  ultimately obtain s' where s': "forp bs (send_alert env walk) s1 = (Inr (), s')"
      "sending env walk prev cur (filter (\<lambda>c. (c, ''fault_resolved'') \<notin> set bs) ?fl) as s'"
      "cpu_raised s' = cpu_raised s1 @ map (\<lambda>(c, a). (resource_id c, a)) bs" "cpu_fs s' = cpu_fs s1"
    using Cons.IH [OF s1(2)] Cons.prems(2,4,5) by auto
  have "filter (\<lambda>c. (c, ''fault_resolved'') \<notin> set bs) ?fl = filter (\<lambda>x. (x, ''fault_resolved'') \<notin> set (b # bs)) fl"
    using b Cons.prems(5) by (auto simp: distinct_remove1_removeAll removeAll_filter_not_eq conj_commute intro!: filter_cong)
  with s1 s' b show ?case by (intro exI [of _ s']) (simp add: seqp_def)
qed

section \<open>One start of the sensor\<close>

text \<open>The sensor runs once in each process, which starts without any CPU information.\<close>

definition cpu_boot :: "node_env \<Rightarrow> (int list \<Rightarrow> int list) \<Rightarrow> string res \<Rightarrow> (cpu_state, unit) proc" where
  "cpu_boot env walk online s = cpu_run env walk online
     (s\<lparr>stored_cpu_info := PNone, prev_cpu_info := PNone, current_cpu_info := PNone\<rparr>)"

text \<open>What is stored between two starts: the CPUs seen last and those reported as faulty.\<close>

definition cpu_inv :: "node_env \<Rightarrow> int list \<Rightarrow> int list \<Rightarrow> cpu_state \<Rightarrow> bool" where
  "cpu_inv env prev faults s \<longleftrightarrow> fs_wf (cpu_fs s) \<and> writable (cpu_fs s) (cpu_data_path env) \<and>
     cpu_lists env prev faults (store_get (cpu_fs s) (cpu_data_path env)) \<and> distinct faults \<and> set faults \<inter> set prev = {} \<and>
     map_of (msgQlist (cpu_q s)) ''NodeDataMsgHandler'' \<noteq> None \<and> (\<exists>host. nd_fqdn env = Inr host)"

definition walks_sets :: "(int list \<Rightarrow> int list) \<Rightarrow> bool" where
  "walks_sets walk \<longleftrightarrow> (\<forall>xs. distinct xs \<longrightarrow> distinct (walk xs) \<and> set (walk xs) = set xs)"

lemma alert_list_set:
  "set (alert_list prev cur faults cs) = {(c, a). c \<in> set cs \<and> cpu_alert prev cur faults c = Some a}"
  by (induction cs) (auto split: option.splits)

lemma distinct_alert_list: "distinct cs \<Longrightarrow> distinct (map fst (alert_list prev cur faults cs))"
  by (induction cs) (auto simp: alert_list_set split: option.splits)

lemma compare_run:
  assumes lists: "cpu_lists env prev faults (stored_cpu_info s)" "prev_cpu_info s = int_list prev"
      "current_cpu_info s = int_list cur" "alerts_for s = []" and prev: "prev \<noteq> []" "cur \<noteq> prev" and walk: "walks_sets walk"
  shows "\<exists>v. compare_cpus env walk s = (Inr True, s\<lparr>stored_cpu_info := v,
      alerts_for := alert_list prev cur faults (walk (remdups (prev @ cur)))\<rparr>) \<and>
    cpu_lists env cur (faults @ filter (\<lambda>c. c \<notin> set cur \<and> c \<notin> set faults) (walk (remdups (prev @ cur)))) v"
proof -
  let ?cs = "walk (remdups (prev @ cur))"
  have "comparing env prev cur (faults @ filter (\<lambda>c. c \<notin> set cur \<and> c \<notin> set faults) []) (alert_list prev cur faults []) s"
    using lists by (simp add: comparing_def)
  moreover have "distinct ([] @ ?cs)" using walk by (simp add: walks_sets_def del: remdups_append2)
  ultimately obtain v where v: "forp ?cs (cpu_turn env) s = (Inr (), s\<lparr>stored_cpu_info := v, alerts_for := alert_list prev cur faults ?cs\<rparr>)"
      "cpu_lists env prev (faults @ filter (\<lambda>c. c \<notin> set cur \<and> c \<notin> set faults) ?cs) v"
    using cpu_loop_run [of env prev cur faults "[]" s ?cs] by auto
  let ?s1 = "s\<lparr>stored_cpu_info := v, alerts_for := alert_list prev cur faults ?cs\<rparr>"
  have "cpu_lists env prev (faults @ filter (\<lambda>c. c \<notin> set cur \<and> c \<notin> set faults) ?cs) (stored_cpu_info ?s1)" using v(2) by simp
  from set_node_list_run(2) [OF this, of cur] obtain w where
    w: "set_node_list env ''CPU_LIST'' (int_list cur) ?s1 = (Inr (), ?s1\<lparr>stored_cpu_info := w\<rparr>)"
      "cpu_lists env cur (faults @ filter (\<lambda>c. c \<notin> set cur \<and> c \<notin> set faults) ?cs) w" by blast
  have "compare_cpus env walk s = (Inr True, s\<lparr>stored_cpu_info := w, alerts_for := alert_list prev cur faults ?cs\<rparr>)"
    using lists prev v(1) w(1)
    by (simp add: compare_cpus_def reraise_def py_exec py_eq_int_list all_cpus_def)
  with w(2) show ?thesis by blast
qed

text \<open>The state after both lists have been read: \<open>prev\<close> from the store, \<open>cur\<close> from the kernel.\<close>

definition lists_read :: "node_env \<Rightarrow> int list \<Rightarrow> int list \<Rightarrow> int list \<Rightarrow> cpu_state \<Rightarrow> cpu_state \<Rightarrow> bool" where
  "lists_read env prev faults cur s s1 \<longleftrightarrow> cpu_lists env prev faults (stored_cpu_info s1) \<and>
     stored_cpu_info s1 = store_get (cpu_fs s) (cpu_data_path env) \<and> prev_cpu_info s1 = int_list prev \<and>
     current_cpu_info s1 = int_list cur \<and> alerts_for s1 = [] \<and> cpu_specific s1 = [] \<and> cpu_fs s1 = cpu_fs s \<and>
     cpu_raised s1 = cpu_raised s \<and> has_queue ''NodeDataMsgHandler'' (cpu_q s1)"

lemma cpu_boot_read:
  assumes "cpu_lists env prev faults (store_get (cpu_fs s) (cpu_data_path env))" and "has_queue ''NodeDataMsgHandler'' (cpu_q s)"
    and "get_cpu_info online = Inr cur"
  shows "\<exists>s1. lists_read env prev faults cur s s1 \<and> cpu_boot env walk online s = bindp (compare_cpus env walk) (\<lambda>to_update.
      seqp (bindp (getp alerts_for) (\<lambda>as. forp as (send_alert env walk)))
        (if to_update then modp (\<lambda>s. s\<lparr>cpu_fs := store_put (stored_cpu_info s) (cpu_data_path env) True (cpu_fs s)\<rparr>)
         else ret ())) s1"
proof -
  let ?stored = "store_get (cpu_fs s) (cpu_data_path env)"
  obtain q where q: "has_queue ''NodeDataMsgHandler'' q"
      "seqp (modp (\<lambda>s. s\<lparr>cpu_q := snd (read_my_msgQ_noWait (nd_loads env) ''CPUFaultSensor'' (cpu_q s))\<rparr>))
        (read_stored_cpu_info env) (s\<lparr>stored_cpu_info := PNone, prev_cpu_info := PNone, current_cpu_info := PNone\<rparr>) =
       (Inr (), s\<lparr>cpu_q := q, stored_cpu_info := ?stored, prev_cpu_info := int_list prev, current_cpu_info := PNone\<rparr>)"
    using assms(1) read_noWait_queue [OF assms(2), of "nd_loads env" "''CPUFaultSensor''"]
    by (cases s) (auto simp: read_stored_cpu_info_def reraise_def cpu_lists_def py_exec)
  let ?s1 = "s\<lparr>cpu_q := q, stored_cpu_info := ?stored, prev_cpu_info := int_list prev,
      current_cpu_info := int_list cur, alerts_for := [], cpu_specific := []\<rparr>"
  have "lists_read env prev faults cur s ?s1" using assms(1) q(1) by (simp add: lists_read_def)
  with q(2) assms(3) show ?thesis
    unfolding cpu_boot_def cpu_run_def read_current_cpu_info_def reraise_def
    by (intro exI [of _ ?s1]) (cases s, simp add: py_exec split: prod.splits sum.splits)
qed

text \<open>The alerts of a changed list are those of the CPUs that left and of the reported ones that are back.\<close>

lemma alert_list_exact:
  assumes "set cs = set prev \<union> set cur" and "set faults \<inter> set prev = {}"
  shows "set (alert_list prev cur faults cs) =
    (\<lambda>c. (c, ''fault'')) ` (set prev - set cur) \<union> (\<lambda>c. (c, ''fault_resolved'')) ` (set faults \<inter> set cur)"
  using assms by (auto simp: alert_list_set cpu_alert_def split: if_splits)

lemma changed_run:
  assumes read: "lists_read env prev faults cur s s1" and prev: "prev \<noteq> []" "cur \<noteq> prev" and walk: "walks_sets walk"
    and f: "distinct faults" "set faults \<inter> set prev = {}" "\<exists>host. nd_fqdn env = Inr host"
  shows "\<exists>s2 s3 out faults'. compare_cpus env walk s1 = (Inr True, s2) \<and> alerts_for s2 = out \<and>
    forp out (send_alert env walk) s2 = (Inr (), s3) \<and> cpu_fs s3 = cpu_fs s \<and> cpu_lists env cur faults' (stored_cpu_info s3) \<and>
    has_queue ''NodeDataMsgHandler'' (cpu_q s3) \<and> cpu_raised s3 = cpu_raised s @ map (\<lambda>(c, a). (resource_id c, a)) out \<and>
    set faults' = (set faults \<union> set prev) - set cur \<and> distinct faults' \<and> distinct (map fst out) \<and>
    set out = (\<lambda>c. (c, ''fault'')) ` (set prev - set cur) \<union> (\<lambda>c. (c, ''fault_resolved'')) ` (set faults \<inter> set cur)"
proof -
  let ?cs = "walk (remdups (prev @ cur))" and ?g = "\<lambda>c. c \<notin> set cur \<and> c \<notin> set faults"
  let ?bs = "alert_list prev cur faults ?cs" and ?fl = "faults @ filter ?g ?cs"
  have cs: "distinct ?cs" "set ?cs = set prev \<union> set cur" using walk by (simp_all add: walks_sets_def del: remdups_append2)
  obtain v where v: "compare_cpus env walk s1 = (Inr True, s1\<lparr>stored_cpu_info := v, alerts_for := ?bs\<rparr>)" "cpu_lists env cur ?fl v"
    using compare_run [of env prev faults s1 cur walk] read prev walk by (auto simp: lists_read_def)
  let ?s2 = "s1\<lparr>stored_cpu_info := v, alerts_for := ?bs\<rparr>"
  have sd: "sending env walk prev cur ?fl ?bs ?s2" using v(2) f(3) read by (simp add: sending_def lists_read_def has_queue_def)
  note bs = alert_list_exact [OF cs(2) f(2)]
  have "fst ` set ?bs \<subseteq> set ?cs" by (auto simp: alert_list_set)
  moreover have "\<forall>(c, a) \<in> set ?bs. a = ''fault'' \<or> a = ''fault_resolved'' \<and> c \<in> set ?fl" by (auto simp: bs)
  moreover have d: "distinct ?fl" using cs(1) f(1) by auto
  ultimately obtain s3 where s3: "forp ?bs (send_alert env walk) ?s2 = (Inr (), s3)"
      "sending env walk prev cur (filter (\<lambda>c. (c, ''fault_resolved'') \<notin> set ?bs) ?fl) ?bs s3"
      "cpu_raised s3 = cpu_raised s @ map (\<lambda>(c, a). (resource_id c, a)) ?bs" "cpu_fs s3 = cpu_fs s"
    using send_loop_run [OF sd, of ?bs] distinct_alert_list [OF cs(1)] read by (auto simp: lists_read_def)
  let ?fl' = "filter (\<lambda>c. (c, ''fault_resolved'') \<notin> set ?bs) ?fl"
  have "set ?fl' = (set faults \<union> set prev) - set cur" using cs(2) f(2) by (auto simp: bs)
  moreover have "distinct ?fl'" by (rule distinct_filter) (rule d)
  ultimately show ?thesis
    using v(1) s3 bs distinct_alert_list [OF cs(1)]
    by (intro exI [of _ ?s2] exI [of _ s3] exI [of _ ?bs] exI [of _ ?fl']) (auto simp: sending_def has_queue_def simp del: filter_append)
qed

text \<open>
  C9. Started with the stored CPUs \<open>prev\<close> and the reported ones \<open>faults\<close>, the sensor raises exactly
  one fault alert for each CPU that went offline and one fault_resolved alert for each reported CPU
  that is online again, and stores the CPUs online and those still reported.\<close>

theorem cpu_alerts_exact:
  assumes inv: "cpu_inv env prev faults s" and cur: "get_cpu_info online = Inr cur" and prev: "prev \<noteq> []"
    and walk: "walks_sets walk"
  shows "\<exists>s' out faults'. cpu_boot env walk online s = (Inr (), s') \<and> cpu_inv env cur faults' s' \<and>
    set faults' = (set faults \<union> set prev) - set cur \<and> cpu_raised s' = cpu_raised s @ map (\<lambda>(c, a). (resource_id c, a)) out \<and>
    distinct (map fst out) \<and>
    set out = (\<lambda>c. (c, ''fault'')) ` (set prev - set cur) \<union> (\<lambda>c. (c, ''fault_resolved'')) ` (set faults \<inter> set cur)"
proof -
  have f: "fs_wf (cpu_fs s)" "writable (cpu_fs s) (cpu_data_path env)" "distinct faults" "set faults \<inter> set prev = {}"
      "\<exists>host. nd_fqdn env = Inr host" using inv by (auto simp: cpu_inv_def)
  obtain s1 where read: "lists_read env prev faults cur s s1" and run: "cpu_boot env walk online s = bindp (compare_cpus env walk)
      (\<lambda>to_update. seqp (bindp (getp alerts_for) (\<lambda>as. forp as (send_alert env walk)))
        (if to_update then modp (\<lambda>s. s\<lparr>cpu_fs := store_put (stored_cpu_info s) (cpu_data_path env) True (cpu_fs s)\<rparr>)
         else ret ())) s1"
    using cpu_boot_read [of env prev faults s, OF _ _ cur] inv by (auto simp: cpu_inv_def has_queue_def)
  show ?thesis
  proof (cases "cur = prev")
    case True
    then have "cpu_boot env walk online s = (Inr (), s1)"
      using prev read by (simp add: run compare_cpus_def reraise_def lists_read_def py_exec py_eq_int_list)
    moreover have "cpu_inv env cur faults s1" using True inv read by (simp add: cpu_inv_def lists_read_def has_queue_def)
    ultimately show ?thesis
      using True f(4) read by (intro exI [of _ s1] exI [of _ "[]"] exI [of _ faults]) (auto simp: lists_read_def)
  next
    case False
    from changed_run [OF read prev False walk f(3-5)] obtain s2 s3 out faults' where run2: "compare_cpus env walk s1 = (Inr True, s2)" "alerts_for s2 = out"
        "forp out (send_alert env walk) s2 = (Inr (), s3)" "cpu_fs s3 = cpu_fs s" "cpu_lists env cur faults' (stored_cpu_info s3)"
        "has_queue ''NodeDataMsgHandler'' (cpu_q s3)" "cpu_raised s3 = cpu_raised s @ map (\<lambda>(c, a). (resource_id c, a)) out"
        "set faults' = (set faults \<union> set prev) - set cur" "distinct faults'" "distinct (map fst out)"
        "set out = (\<lambda>c. (c, ''fault'')) ` (set prev - set cur) \<union> (\<lambda>c. (c, ''fault_resolved'')) ` (set faults \<inter> set cur)"
      by (elim exE conjE) (rule that)
    let ?s4 = "s3\<lparr>cpu_fs := store_put (stored_cpu_info s3) (cpu_data_path env) True (cpu_fs s3)\<rparr>"
    have "cpu_inv env cur faults' ?s4"
      using run2(4-6,8,9) f(1,2,5) by (auto simp: cpu_inv_def store_put_wf store_get_put_pickled writable_put_same has_queue_def)
    with run2 show ?thesis by (intro exI [of _ ?s4] exI [of _ out] exI [of _ faults']) (simp add: run py_exec)
  qed
qed

section \<open>A concrete node\<close>

definition demo_node :: node_env where
  "demo_node = \<lparr>nd_node_id = ''SN01'', nd_data_path = ''/var/sspl'', nd_fqdn = Inr ''node1'', nd_epoch = (\<lambda>n. 7 + int n),
     nd_salt = (\<lambda>n. ''salt''), nd_loads = (\<lambda>t. Inl ValueError)\<rparr>"

lemma demo_node_simps: "nd_node_id demo_node = ''SN01''" "nd_fqdn demo_node = Inr ''node1''"
  by (simp_all add: demo_node_def)

definition demo_cpu_data :: "int list \<Rightarrow> int list \<Rightarrow> pyv" where
  "demo_cpu_data prev faults = PDict [(''SN01'', PDict [(''CPU_LIST'', int_list prev), (''FAULT_LIST'', int_list faults)])]"

definition demo_cpu :: "int list \<Rightarrow> int list \<Rightarrow> cpu_state" where
  "demo_cpu prev faults = \<lparr>cpu_fs = \<lparr>files = [(cpu_data_path demo_node, Pickled (demo_cpu_data prev faults))],
       dirs = [''/var/sspl/server''], denied = []\<rparr>,
     cpu_q = \<lparr>msgQlist = [(''NodeDataMsgHandler'', [])], msgq_dbg = init_debug\<rparr>, stored_cpu_info = PNone,
     prev_cpu_info = PNone, current_cpu_info = PNone, alerts_for = [], cpu_specific = [], cpu_built = 0, cpu_raised = []\<rparr>"

lemma demo_cpu_path: "cpu_data_path demo_node = ''/var/sspl/server/CPU_FAULT_SENSOR_DATA_SN01''"
    "dirname ''/var/sspl/server/CPU_FAULT_SENSOR_DATA_SN01'' = ''/var/sspl/server''"
    "''/var/sspl/server/CPU_FAULT_SENSOR_DATA_SN01'' \<notin> set (ancestors ''/var/sspl/server'')"
  by code_simp+

lemma demo_cpu_inv: "distinct faults \<Longrightarrow> set faults \<inter> set prev = {} \<Longrightarrow> cpu_inv demo_node prev faults (demo_cpu prev faults)"
  by (simp add: cpu_inv_def demo_cpu_def demo_cpu_path fs_wf_def isfile_def isdir_def writable_def store_get_def load_json_file_def
      cpu_lists_def demo_cpu_data_def demo_node_simps)

theorem cpu_alerts_exact_witness:
  "\<exists>s'. cpu_boot demo_node (\<lambda>xs. xs) (Inr ''0-1,3'') (demo_cpu [0, 1, 2] [3]) = (Inr (), s') \<and>
     set (cpu_raised s') = {(''CPU-2'', ''fault''), (''CPU-3'', ''fault_resolved'')}"
proof -
  have inv: "cpu_inv demo_node [0, 1, 2] [3] (demo_cpu [0, 1, 2] [3])" by (rule demo_cpu_inv) simp_all
  have cur: "get_cpu_info (Inr ''0-1,3'') = Inr [0, 1, 3]" by code_simp
  have w: "walks_sets (\<lambda>xs. xs)" by (simp add: walks_sets_def)
  obtain s' out where s': "cpu_boot demo_node (\<lambda>xs. xs) (Inr ''0-1,3'') (demo_cpu [0, 1, 2] [3]) = (Inr (), s')"
      "cpu_raised s' = cpu_raised (demo_cpu [0, 1, 2] [3]) @ map (\<lambda>(c, a). (resource_id c, a)) out"
      "set out = (\<lambda>c. (c, ''fault'')) ` (set [0, 1, 2] - set [0, 1, 3]) \<union>
        (\<lambda>c. (c, ''fault_resolved'')) ` (set [3] \<inter> set [0, 1, 3])"
    using cpu_alerts_exact [OF inv cur _ w] by auto
  have r: "resource_id 2 = ''CPU-2''" "resource_id 3 = ''CPU-3''" by code_simp+
  have "cpu_raised (demo_cpu [0, 1, 2] [3]) = []" by (simp add: demo_cpu_def)
  then have "set (cpu_raised s') = (\<lambda>(c, a). (resource_id c, a)) ` set out" using s'(2) by simp
  also have "\<dots> = {(''CPU-2'', ''fault''), (''CPU-3'', ''fault_resolved'')}" using s'(3) by (auto simp: r)
  finally show ?thesis using s'(1) by blast
qed

section \<open>The history of each CPU\<close>

definition cpu_rule :: alert_rule where
  "cpu_rule p a = (if a = ''fault'' \<and> p = None then Some (Some ''fault'')
     else if a = ''fault_resolved'' \<and> p = Some ''fault'' then Some None else None)"

definition stored_faults :: "node_env \<Rightarrow> cpu_state \<Rightarrow> int list" where
  "stored_faults env s = (case bindr (get_items (store_get (cpu_fs s) (cpu_data_path env)) [nd_node_id env, ''FAULT_LIST'']) ints_of of
     Inr xs \<Rightarrow> xs | Inl _ \<Rightarrow> [])"

definition cpu_outstanding :: "node_env \<Rightarrow> cpu_state \<Rightarrow> string \<rightharpoonup> string" where
  "cpu_outstanding env s k = (if k \<in> resource_id ` set (stored_faults env s) then Some ''fault'' else None)"

inductive cpu_step :: "node_env \<Rightarrow> (int list \<Rightarrow> int list) \<Rightarrow> cpu_state \<Rightarrow> cpu_state \<Rightarrow> bool" for env walk where
  booted: "get_cpu_info online = Inr cur \<Longrightarrow> cur \<noteq> [] \<Longrightarrow> cpu_boot env walk online s = (Inr (), s') \<Longrightarrow> cpu_step env walk s s'"

definition cpu_sound :: "node_env \<Rightarrow> (int list \<Rightarrow> int list) \<Rightarrow> cpu_state \<Rightarrow> bool" where
  "cpu_sound env walk s \<longleftrightarrow> walks_sets walk \<and> (\<exists>prev faults. prev \<noteq> [] \<and> cpu_inv env prev faults s)"

lemma stored_faults_inv: "cpu_inv env prev faults s \<Longrightarrow> stored_faults env s = faults"
  by (auto simp: cpu_inv_def stored_faults_def cpu_lists_def)

lemma resource_id_inj: "resource_id c = resource_id d \<longleftrightarrow> c = d"
  by (simp add: resource_id_def str_int_inj)

lemma cpu_word:
  "distinct (map fst out) \<Longrightarrow>
    map snd (filter (\<lambda>p. fst p = resource_id c) (map (\<lambda>(c, a). (resource_id c, a)) out)) =
    (case map_of out c of None \<Rightarrow> [] | Some a \<Rightarrow> [a])"
proof (induction out)
  case (Cons p out)
  have "filter (\<lambda>p. fst p = resource_id c) (map (\<lambda>(c, a). (resource_id c, a)) out) = []" if "c \<notin> fst ` set out"
    using that by (auto simp: filter_empty_conv resource_id_inj image_iff)
  moreover have "map_of out c = None" if "c \<notin> fst ` set out" using that by (simp add: map_of_eq_None_iff)
  ultimately show ?case using Cons by (cases p) (auto simp: resource_id_inj)
qed simp

lemma cpu_step_sound:
  assumes "cpu_step env walk s s'" and "cpu_sound env walk s"
  shows "cpu_sound env walk s' \<and>
    alert_word cpu_rule (cpu_outstanding env s) (cpu_raised s) (cpu_outstanding env s') (cpu_raised s')"
  using assms(1)
proof (cases rule: cpu_step.cases)
  case (booted online cur)
  obtain prev faults where pf: "prev \<noteq> []" "cpu_inv env prev faults s" "walks_sets walk" using assms(2) by (auto simp: cpu_sound_def)
  from cpu_alerts_exact [OF pf(2) booted(1) pf(1,3)] booted(3) obtain out faults' where
    n: "cpu_inv env cur faults' s'" "set faults' = (set faults \<union> set prev) - set cur"
      "cpu_raised s' = cpu_raised s @ map (\<lambda>(c, a). (resource_id c, a)) out" "distinct (map fst out)"
      "set out = (\<lambda>c. (c, ''fault'')) ` (set prev - set cur) \<union> (\<lambda>c. (c, ''fault_resolved'')) ` (set faults \<inter> set cur)" by auto
  have disj: "set faults \<inter> set prev = {}" using pf(2) by (simp add: cpu_inv_def)
  have "\<exists>as. fru_alerts k (cpu_raised s') = fru_alerts k (cpu_raised s) @ as \<and>
      replay_by cpu_rule (cpu_outstanding env s k) as = Some (cpu_outstanding env s' k)" for k
  proof (cases "\<exists>c. k = resource_id c")
    case False
    then have "fru_alerts k (cpu_raised s') = fru_alerts k (cpu_raised s)" by (auto simp: n(3) fru_alerts_def filter_empty_conv)
    with False show ?thesis by (auto simp: cpu_outstanding_def)
  next
    case True
    then obtain c where k: "k = resource_id c" by blast
    have m: "map_of out c = (if c \<in> set prev - set cur then Some ''fault''
        else if c \<in> set faults \<inter> set cur then Some ''fault_resolved'' else None)"
    proof -
      have "map_of out c = Some a \<longleftrightarrow> (c, a) \<in> set out" for a using n(4) by (simp add: map_of_eq_Some_iff)
      then show ?thesis using n(5) disj by (cases "map_of out c") (auto split: if_splits)
    qed
    show ?thesis
      using m disj n(2) cpu_word [OF n(4), of c]
      by (auto simp: k n(3) fru_alerts_def cpu_outstanding_def stored_faults_inv [OF pf(2)] stored_faults_inv [OF n(1)]
          resource_id_inj image_iff cpu_rule_def)
  qed
  then have "alert_word cpu_rule (cpu_outstanding env s) (cpu_raised s) (cpu_outstanding env s') (cpu_raised s')"
    by (simp add: alert_word_def)
  moreover have "cpu_sound env walk s'" using n(1) booted(2) pf(3) by (auto simp: cpu_sound_def)
  ultimately show ?thesis by blast
qed

interpretation cpu: alert_words cpu_rule "cpu_sound env walk" "cpu_step env walk" "cpu_outstanding env" cpu_raised for env walk
  by unfold_locales (auto dest: cpu_step_sound)

text \<open>
  Through any sequence of starts with CPUs online the alerts of each CPU alternate between fault
  and fault_resolved, and the CPU is stored as faulty exactly when its last alert is a fault.\<close>

lemma cpu_alert_history:
  assumes "cpu_sound env walk s" and "stored_faults env s = []" and "cpu_raised s = []" and "(cpu_step env walk)\<^sup>*\<^sup>* s s'"
  shows "replay_by cpu_rule None (fru_alerts (resource_id c) (cpu_raised s')) =
    Some (if c \<in> set (stored_faults env s') then Some ''fault'' else None)"
proof -
  have "cpu.faithful env s" using assms(2,3) by (simp add: cpu.faithful_def fru_alerts_def cpu_outstanding_def)
  with cpu.steps_faithful [OF assms(4,1)] have "cpu.faithful env s'" by blast
  then show ?thesis by (auto simp: cpu.faithful_def cpu_outstanding_def resource_id_inj image_iff)
qed

lemma cpu_alert_history_witness:
  "\<exists>s'. (cpu_step demo_node (\<lambda>xs. xs))\<^sup>*\<^sup>* (demo_cpu [0, 1] []) s' \<and> cpu_raised s' = [(''CPU-1'', ''fault'')] \<and>
     replay_by cpu_rule None (fru_alerts (resource_id 1) (cpu_raised s')) =
       Some (if 1 \<in> set (stored_faults demo_node s') then Some ''fault'' else None)"
proof -
  let ?s = "demo_cpu [0, 1] []"
  have inv: "cpu_inv demo_node [0, 1] [] ?s" by (rule demo_cpu_inv) simp_all
  have w: "walks_sets (\<lambda>xs. xs)" by (simp add: walks_sets_def)
  have cur: "get_cpu_info (Inr ''0'') = Inr [0]" by code_simp
  obtain s' out where s': "cpu_boot demo_node (\<lambda>xs. xs) (Inr ''0'') ?s = (Inr (), s')"
      "cpu_raised s' = cpu_raised ?s @ map (\<lambda>(c, a). (resource_id c, a)) out" "distinct (map fst out)"
      "set out = (\<lambda>c. (c, ''fault'')) ` (set [0, 1] - set [0]) \<union> (\<lambda>c. (c, ''fault_resolved'')) ` (set [] \<inter> set [0])"
    using cpu_alerts_exact [OF inv cur _ w] by auto
  have "set out = {(1, ''fault'')}" using s'(4) by auto
  then have "out = [(1, ''fault'')]" using s'(3) by (cases out; cases "tl out") auto
  moreover have "resource_id 1 = ''CPU-1''" by code_simp
  ultimately have r: "cpu_raised s' = [(''CPU-1'', ''fault'')]" using s'(2) by (simp add: demo_cpu_def)
  have step: "(cpu_step demo_node (\<lambda>xs. xs))\<^sup>*\<^sup>* ?s s'" using booted [OF cur _ s'(1)] by blast
  have "cpu_sound demo_node (\<lambda>xs. xs) ?s" using inv w by (auto simp: cpu_sound_def)
  from cpu_alert_history [OF this _ _ step, of 1] stored_faults_inv [OF inv] r step show ?thesis
    by (auto simp: demo_cpu_def)
qed

section \<open>A lost alert\<close>

lemma generate_fails:
  assumes "nd_fqdn env = Inl e" and "a \<in> {''fault'', ''fault_resolved''}"
  shows "cpu_generate_alert env walk c a s = (Inr False, s\<lparr>cpu_built := cpu_built s + 1\<rparr>)"
proof -
  obtain sev where "map_severity a = Inr sev" using assms(2) by (auto simp: map_severity_def ALERT_TO_SEVERITY_MAPPING_def)
  with assms(1) show ?thesis by (simp add: cpu_generate_alert_def cpu_create_json_message_def py_exec Let_def)
qed

lemma send_loop_fails:
  assumes "nd_fqdn env = Inl e" and "\<forall>(c, a) \<in> set bs. a \<in> {''fault'', ''fault_resolved''}"
  shows "forp bs (send_alert env walk) s = (Inr (), s\<lparr>cpu_built := cpu_built s + length bs\<rparr>)"
  using assms(2)
proof (induction bs arbitrary: s)
  case (Cons b bs)
  then show ?case
    using generate_fails [OF assms(1)] by (cases b) (simp add: send_alert_def py_exec)
qed (simp add: ret_def)

text \<open>
  When the host name cannot be read while a CPU goes offline, no alert is queued, but the CPU is
  stored as reported: no later start raises the fault alert.\<close>

lemma cpu_fault_lost:
  assumes inv: "cpu_inv env prev faults s" and cur: "get_cpu_info online = Inr cur" and prev: "prev \<noteq> []" "cur \<noteq> prev"
    and walk: "walks_sets walk"
  shows "\<exists>s'. cpu_boot (env\<lparr>nd_fqdn := Inl e\<rparr>) walk online s = (Inr (), s') \<and> cpu_raised s' = cpu_raised s \<and>
    set prev - set cur \<subseteq> set (stored_faults env s')"
proof -
  let ?env = "env\<lparr>nd_fqdn := Inl e\<rparr>"
  have p: "cpu_data_path ?env = cpu_data_path env" "cpu_lists ?env = cpu_lists env"
    by (simp_all add: cpu_data_path_def server_cache_def cpu_lists_def fun_eq_iff)
  have f: "fs_wf (cpu_fs s)" "writable (cpu_fs s) (cpu_data_path env)" using inv by (auto simp: cpu_inv_def)
  obtain s1 where read: "lists_read ?env prev faults cur s s1" and run: "cpu_boot ?env walk online s = bindp (compare_cpus ?env walk)
      (\<lambda>to_update. seqp (bindp (getp alerts_for) (\<lambda>as. forp as (send_alert ?env walk)))
        (if to_update then modp (\<lambda>s. s\<lparr>cpu_fs := store_put (stored_cpu_info s) (cpu_data_path ?env) True (cpu_fs s)\<rparr>)
         else ret ())) s1"
    using cpu_boot_read [of ?env prev faults s, OF _ _ cur] inv by (auto simp: cpu_inv_def has_queue_def p)
  let ?cs = "walk (remdups (prev @ cur))" and ?g = "\<lambda>c. c \<notin> set cur \<and> c \<notin> set faults"
  let ?bs = "alert_list prev cur faults ?cs" and ?fl = "faults @ filter ?g ?cs"
  have cs: "set ?cs = set prev \<union> set cur" using walk by (simp add: walks_sets_def del: remdups_append2)
  obtain v where v: "compare_cpus ?env walk s1 = (Inr True, s1\<lparr>stored_cpu_info := v, alerts_for := ?bs\<rparr>)" "cpu_lists ?env cur ?fl v"
    using compare_run [of ?env prev faults s1 cur walk] read prev walk by (auto simp: lists_read_def)
  have "\<forall>(c, a) \<in> set ?bs. a \<in> {''fault'', ''fault_resolved''}" by (auto simp: alert_list_set cpu_alert_def split: if_splits)
  from send_loop_fails [OF _ this, of ?env e] have loop: "forp ?bs (send_alert ?env walk) s2 =
      (Inr (), s2\<lparr>cpu_built := cpu_built s2 + length ?bs\<rparr>)" for s2 by simp
  let ?s' = "s1\<lparr>stored_cpu_info := v, alerts_for := ?bs,
      cpu_built := cpu_built s1 + length ?bs, cpu_fs := store_put v (cpu_data_path env) True (cpu_fs s1)\<rparr>"
  from loop v(1) have boot: "cpu_boot ?env walk online s = (Inr (), ?s')" by (simp add: run py_exec p)
  have "cpu_lists env cur ?fl (store_get (store_put v (cpu_data_path env) True (cpu_fs s)) (cpu_data_path env))"
    using v(2) f by (simp add: store_get_put_pickled p)
  then have "stored_faults env ?s' = ?fl" using read by (auto simp: stored_faults_def cpu_lists_def lists_read_def)
  with cs have "set prev - set cur \<subseteq> set (stored_faults env ?s')" by auto
  moreover have "cpu_raised ?s' = cpu_raised s" using read by (simp add: lists_read_def)
  ultimately show ?thesis using boot by blast
qed

lemma cpu_fault_lost_witness:
  "\<exists>s'. cpu_boot (demo_node\<lparr>nd_fqdn := Inl OSError\<rparr>) (\<lambda>xs. xs) (Inr ''0'') (demo_cpu [0, 1] []) = (Inr (), s') \<and>
     cpu_raised s' = [] \<and> 1 \<in> set (stored_faults demo_node s')"
proof -
  have inv: "cpu_inv demo_node [0, 1] [] (demo_cpu [0, 1] [])" by (rule demo_cpu_inv) simp_all
  have w: "walks_sets (\<lambda>xs. xs)" by (simp add: walks_sets_def)
  have cur: "get_cpu_info (Inr ''0'') = Inr [0]" by code_simp
  from cpu_fault_lost [OF inv cur _ _ w, of OSError] show ?thesis by (auto simp: demo_cpu_def)
qed

end
