(* ===== verification/Node_Memory.thy ===== *)
theory Node_Memory
  imports Node_Cpu
begin

text \<open>
  \<^verbatim>\<open>sensors/impl/generic/node_memory_fault.py\<close>: on each start the sensor compares the total memory
  that \<^verbatim>\<open>/proc/meminfo\<close> names with the stored one and raises a fault alert when it decreased and a
  fault_resolved alert when it is back. The content of \<^verbatim>\<open>/proc/meminfo\<close> is a parameter.
\<close>

section \<open>Text\<close>

text \<open>\<^verbatim>\<open>s.split(maxsplit=1)\<close>.\<close>

definition split_once :: "string \<Rightarrow> string list" where
  "split_once s = (let t = dropWhile is_space s; rest = dropWhile is_space (dropWhile (\<lambda>c. \<not> is_space c) t) in
     if t = [] then [] else takeWhile (\<lambda>c. \<not> is_space c) t # (if rest = [] then [] else [rest]))"

text \<open>\<^verbatim>\<open>dict(split_strs)\<close>: every element has to be a pair.\<close>

primrec dict_of_pairs :: "string list list \<Rightarrow> pydict \<Rightarrow> pydict res" where
  "dict_of_pairs [] d = Inr d"
| "dict_of_pairs (p # ps) d = (case p of [k, v] \<Rightarrow> dict_of_pairs ps (AList.update k (PStr v) d) | _ \<Rightarrow> Inl ValueError)"

section \<open>The sensor\<close>

record mem_state =
  mem_fs :: fs
  mem_q :: "nat msgq"
  total_mem :: "string option"
  mem_path_file :: string
  prev_mem :: "string option"
  fault_alert_state :: string
  mem_suspended :: bool
  mem_built :: nat
  mem_raised :: "string list"

definition mem_data_path :: "node_env \<Rightarrow> string" where
  "mem_data_path env = path_join (server_cache env) (''MEM_FAULT_SENSOR_DATA_'' @ nd_node_id env)"

definition parse_mem_info :: "pyv \<Rightarrow> (string \<times> string) res" where
  "parse_mem_info v = (case v of
     PStr t \<Rightarrow> (case split_on CHR '':'' t of a # b # _ \<Rightarrow> Inr (strip a, strip b) | _ \<Rightarrow> Inl IndexError)
   | PBytes t \<Rightarrow> Inl TypeError
   | _ \<Rightarrow> Inl AttributeError)"

text \<open>The previous memory is assigned before the second element is looked up.\<close>

definition get_stored_mem_info :: "node_env \<Rightarrow> (mem_state, unit) proc" where
  "get_stored_mem_info env = bindp (getp mem_fs) (\<lambda>f.
     if fst (store_exists f (mem_data_path env)) then
       seqp (modp (\<lambda>s. case store_get f (mem_data_path env) of
               PStr t \<Rightarrow> s\<lparr>prev_mem := Some (strip (hd (split_on CHR '':'' t)))\<rparr> | _ \<Rightarrow> s))
       (bindp (liftp (parse_mem_info (store_get f (mem_data_path env)))) (\<lambda>(m, st).
          modp (\<lambda>s. s\<lparr>fault_alert_state := st\<rparr>)))
     else ret ())"

definition put_mem_info :: "node_env \<Rightarrow> string \<Rightarrow> (mem_state, unit) proc" where
  "put_mem_info env total_memory_size = modp (\<lambda>s. s\<lparr>mem_fs :=
     store_put (PStr (total_memory_size @ '':'' @ fault_alert_state s)) (mem_data_path env) True (mem_fs s)\<rparr>)"

definition opt_str :: "string option \<Rightarrow> string" where
  "opt_str t = (case t of None \<Rightarrow> ''None'' | Some u \<Rightarrow> u)"

definition mem_description :: "string \<Rightarrow> mem_state \<Rightarrow> string res" where
  "mem_description alert_type s =
     (if alert_type = ''fault'' then Inr (''Total available main memory value decreased from '' @ opt_str (prev_mem s) @
        '' kB to '' @ opt_str (total_mem s) @ '' kB'')
      else if alert_type = ''fault_resolved'' then Inr (''Total main memory value available '' @ opt_str (total_mem s) @ '' kB'')
      else Inl UnboundLocalError)"

definition mem_create_json_message :: "node_env \<Rightarrow> string \<Rightarrow> (mem_state, pyv) proc" where
  "mem_create_json_message env alert_type =
     bindp (liftp (map_severity alert_type)) (\<lambda>severity.
     bindp (getp mem_built) (\<lambda>n.
     let epoch_time = str_int (nd_epoch env n); alert_id = get_alert_id (nd_salt env n) epoch_time in
     seqp (modp (\<lambda>s. s\<lparr>mem_built := mem_built s + 1\<rparr>))
     (bindp (liftp (nd_fqdn env)) (\<lambda>host_name.
      bindp (getp mem_path_file) (\<lambda>t.
      bindp (liftp (dict_of_pairs (map split_once (splitlines t)) [])) (\<lambda>meminfo.
      bindp (getp (mem_description alert_type)) (\<lambda>r. bindp (liftp r) (\<lambda>description.
      bindp (liftp (json_dumps (node_data_msg
        [(''status'', PStr ''update''), (''host_id'', PStr host_name), (''alert_type'', PStr alert_type),
         (''severity'', PStr severity), (''alert_id'', PStr alert_id),
         (''info'', PDict [(''resource_type'', PStr ''node:os:memory''), (''resource_id'', PStr ''0''),
            (''event_time'', PStr epoch_time), (''description'', PStr description)]),
         (''specific_info'', PList [PDict [(''meminfo'', PDict meminfo)]])]))) (\<lambda>t. ret (PStr t))))))))))"

definition mem_generate_alert :: "node_env \<Rightarrow> string \<Rightarrow> (mem_state, unit) proc" where
  "mem_generate_alert env alert_type =
     bindp (mem_create_json_message env alert_type) (\<lambda>m.
       if truthy m then
         seqp (\<lambda>s. case write_internal_msgQ ''NodeDataMsgHandler'' m None (mem_q s) of (r, q) \<Rightarrow> (r, s\<lparr>mem_q := q\<rparr>))
              (modp (\<lambda>s. s\<lparr>mem_raised := mem_raised s @ [alert_type]\<rparr>))
       else ret ())"

text \<open>The conditions are evaluated in the order of the code: both numbers are read before the state.\<close>

definition compare_mem :: "node_env \<Rightarrow> string \<Rightarrow> (mem_state, unit) proc" where
  "compare_mem env tm =
     bindp (getp (\<lambda>s. (prev_mem s, fault_alert_state s))) (\<lambda>(prev, st). case prev of
       None \<Rightarrow> put_mem_info env tm
     | Some p \<Rightarrow>
         bindp (liftp (py_int p)) (\<lambda>before. bindp (liftp (py_int tm)) (\<lambda>now.
           if before > now then
             if st = ''Neutral State'' then
               seqp (modp (\<lambda>s. s\<lparr>fault_alert_state := ''Fault Generated''\<rparr>))
               (seqp (mem_generate_alert env ''fault'') (put_mem_info env p))
             else ret ()
           else if st = ''Fault Generated'' then
             seqp (modp (\<lambda>s. s\<lparr>fault_alert_state := ''Neutral State''\<rparr>))
             (seqp (mem_generate_alert env ''fault_resolved'') (put_mem_info env tm))
           else ret ())))"

text \<open>\<open>meminfo\<close>: the content of the file, or none when there is no such file.\<close>

definition mem_run :: "node_env \<Rightarrow> string option \<Rightarrow> (mem_state, unit) proc" where
  "mem_run env meminfo = (case meminfo of
     None \<Rightarrow> raise PyException
   | Some t \<Rightarrow>
       seqp (modp (\<lambda>s. s\<lparr>mem_path_file := t\<rparr>))
       (seqp (case split_ws t of
           [] \<Rightarrow> raise IndexError
         | x # xs \<Rightarrow> if x \<noteq> ''MemTotal:'' then raise PyException
             else (case xs of [] \<Rightarrow> raise IndexError
               | tm # _ \<Rightarrow>
                   seqp (modp (\<lambda>s. s\<lparr>total_mem := Some tm\<rparr>))
                   (seqp (get_stored_mem_info env) (compare_mem env tm))))
       (modp (\<lambda>s. s\<lparr>mem_q := snd (read_my_msgQ_noWait (nd_loads env) ''MemFaultSensor'' (mem_q s))\<rparr>))))"

definition mem_suspend :: "mem_state \<Rightarrow> mem_state" where
  "mem_suspend s = s\<lparr>mem_suspended := True\<rparr>"

definition mem_resume :: "mem_state \<Rightarrow> mem_state" where
  "mem_resume s = s\<lparr>mem_suspended := False\<rparr>"

section \<open>One start of the sensor\<close>

definition mem_boot :: "node_env \<Rightarrow> string option \<Rightarrow> (mem_state, unit) proc" where
  "mem_boot env meminfo s = mem_run env meminfo (s\<lparr>total_mem := None, prev_mem := None, fault_alert_state := ''Neutral State''\<rparr>)"

text \<open>What is stored: the reference value and whether a fault is outstanding.\<close>

definition mem_text :: "int \<Rightarrow> bool \<Rightarrow> string" where
  "mem_text ref faulty = str_int ref @ '':'' @ (if faulty then ''Fault Generated'' else ''Neutral State'')"

text \<open>A content of \<^verbatim>\<open>/proc/meminfo\<close> that names the total memory \<open>tot\<close>, with a value on every line.\<close>

definition meminfo_ok :: "string \<Rightarrow> int \<Rightarrow> bool" where
  "meminfo_ok t tot \<longleftrightarrow> 0 \<le> tot \<and> (\<exists>rest. split_ws t = ''MemTotal:'' # str_int tot # rest) \<and>
     (\<exists>d. dict_of_pairs (map split_once (splitlines t)) [] = Inr d)"

definition mem_ok :: "node_env \<Rightarrow> mem_state \<Rightarrow> bool" where
  "mem_ok env s \<longleftrightarrow> fs_wf (mem_fs s) \<and> writable (mem_fs s) (mem_data_path env) \<and> has_queue ''NodeDataMsgHandler'' (mem_q s) \<and>
     (\<exists>host. nd_fqdn env = Inr host)"

definition mem_inv :: "node_env \<Rightarrow> int \<Rightarrow> bool \<Rightarrow> mem_state \<Rightarrow> bool" where
  "mem_inv env ref faulty s \<longleftrightarrow> mem_ok env s \<and> 0 \<le> ref \<and>
     store_get (mem_fs s) (mem_data_path env) = PStr (mem_text ref faulty)"

text \<open>The specification of one start.\<close>

definition mem_spec :: "int \<Rightarrow> bool \<Rightarrow> int \<Rightarrow> (int \<times> bool) \<times> string list" where
  "mem_spec ref faulty tot =
     (if tot < ref \<and> \<not> faulty then ((ref, True), [''fault''])
      else if ref \<le> tot \<and> faulty then ((tot, False), [''fault_resolved''])
      else ((ref, faulty), []))"

section \<open>The runs of the code\<close>

lemma strip_str_int: "strip (str_int i) = str_int i"
proof (rule strip_plain)
  have "\<not> is_space c" if "c \<in> set (str_nat n)" for c n
    using that list_all_str_nat [of n] digit_not_space by (auto simp: list_all_iff)
  then show "list_all (\<lambda>c. \<not> is_space c) (str_int i)"
    by (auto simp: str_int_def list_all_iff is_space_def Let_def)
qed

lemma colon_free: "0 \<le> i \<Longrightarrow> CHR '':'' \<notin> set (str_int i)"
  using digits_only [of i "CHR '':''"] by (auto simp: is_digit_def)

lemma parse_mem_text:
  "0 \<le> ref \<Longrightarrow> parse_mem_info (PStr (mem_text ref faulty)) = Inr (str_int ref, if faulty then ''Fault Generated'' else ''Neutral State'')"
  "0 \<le> ref \<Longrightarrow> strip (hd (split_on CHR '':'' (mem_text ref faulty))) = str_int ref"
proof -
  have t: "split_on CHR '':'' ''Fault Generated'' = [''Fault Generated'']" "split_on CHR '':'' ''Neutral State'' = [''Neutral State'']"
    "strip ''Fault Generated'' = ''Fault Generated''" "strip ''Neutral State'' = ''Neutral State''" by code_simp+
  assume "0 \<le> ref"
  then have "split_on CHR '':'' (mem_text ref faulty) = [str_int ref, if faulty then ''Fault Generated'' else ''Neutral State'']"
    by (simp add: mem_text_def split_on_append colon_free t)
  then show "parse_mem_info (PStr (mem_text ref faulty)) = Inr (str_int ref, if faulty then ''Fault Generated'' else ''Neutral State'')"
    "strip (hd (split_on CHR '':'' (mem_text ref faulty))) = str_int ref"
    by (simp_all add: parse_mem_info_def strip_str_int t)
qed

lemma json_able_dict_of_pairs:
  "dict_of_pairs ps e = Inr e' \<Longrightarrow> json_able (PDict e) \<Longrightarrow> json_able (PDict e')"
proof (induction ps arbitrary: e)
  case (Cons p ps)
  then obtain k v where "p = [k, v]" by (auto split: list.splits)
  with Cons.prems(1) have "dict_of_pairs ps (AList.update k (PStr v) e) = Inr e'" by simp
  from Cons.IH [OF this json_able_update [OF Cons.prems(2)]] show ?case by simp
qed simp

lemma mem_generate_run:
  assumes "mem_ok env s" and "dict_of_pairs (map split_once (splitlines (mem_path_file s))) [] = Inr d"
    and a: "a \<in> {''fault'', ''fault_resolved''}"
  shows "\<exists>q. mem_generate_alert env a s = (Inr (), s\<lparr>mem_built := mem_built s + 1, mem_q := q, mem_raised := mem_raised s @ [a]\<rparr>) \<and>
    has_queue ''NodeDataMsgHandler'' q"
proof -
  obtain host sev desc where h: "nd_fqdn env = Inr host" and sev: "map_severity a = Inr sev"
      and desc: "mem_description a (s\<lparr>mem_built := mem_built s + 1\<rparr>) = Inr desc"
    using assms by (auto simp: mem_ok_def map_severity_def ALERT_TO_SEVERITY_MAPPING_def mem_description_def)
  obtain ms where ms: "map_of (msgQlist (mem_q s)) ''NodeDataMsgHandler'' = Some ms"
    using assms(1) by (auto simp: mem_ok_def has_queue_def)
  have d: "json_able (PDict d)" by (rule json_able_dict_of_pairs [OF assms(2)]) simp
  let ?e = "str_int (nd_epoch env (mem_built s))"
  let ?m = "[(''sensor_request_type'', PDict [(''node_data'', PDict [(''status'', PStr ''update''), (''host_id'', PStr host),
      (''alert_type'', PStr a), (''severity'', PStr sev), (''alert_id'', PStr (get_alert_id (nd_salt env (mem_built s)) ?e)),
      (''info'', PDict [(''resource_type'', PStr ''node:os:memory''), (''resource_id'', PStr ''0''),
         (''event_time'', PStr ?e), (''description'', PStr desc)]), (''specific_info'', PList [PDict [(''meminfo'', PDict d)]])])])]"
  have "json_able (PDict ?m)" using d by simp
  then obtain t where t: "json_dumps (PDict ?m) = Inr t" "t \<noteq> []"
    using json_dumps_ok [of "PDict ?m"] by (auto simp: bindr_eq_Inr)
  have "mem_create_json_message env a s = (Inr (PStr t), s\<lparr>mem_built := mem_built s + 1\<rparr>)"
    using h sev desc assms(2) t(1)
    by (simp add: mem_create_json_message_def py_exec Let_def node_data_msg_def del: json_dumps.simps)
  with t(2) ms show ?thesis
    by (intro exI [of _ "(mem_q s)\<lparr>msgQlist := AList.update ''NodeDataMsgHandler'' (ms @ [(PStr t, None)]) (msgQlist (mem_q s))\<rparr>"])
      (simp add: mem_generate_alert_def py_exec write_internal_msgQ_def has_queue_def)
qed

lemma has_store_get: "fs_wf f \<Longrightarrow> store_get f k = PStr t \<Longrightarrow> fst (store_exists f k)"
  by (auto simp: fs_wf_get store_exists_def path_exists_def isfile_def split: option.splits content.splits)

lemma put_mem_info_run:
  assumes "mem_ok env s"
  shows "\<exists>f. put_mem_info env m s = (Inr (), s\<lparr>mem_fs := f\<rparr>) \<and> fs_wf f \<and> writable f (mem_data_path env) \<and>
    store_get f (mem_data_path env) = PStr (m @ '':'' @ fault_alert_state s)"
  using assms
  by (intro exI [of _ "store_put (PStr (m @ '':'' @ fault_alert_state s)) (mem_data_path env) True (mem_fs s)"])
    (simp add: put_mem_info_def py_exec mem_ok_def store_put_wf writable_put_same store_get_put_pickled)

text \<open>Whatever is compared, the state the sensor is left in stores what the specification says.\<close>

definition mem_word :: "bool \<Rightarrow> string" where
  "mem_word faulty = (if faulty then ''Fault Generated'' else ''Neutral State'')"

lemma mem_word_eq [simp]: "mem_word f = ''Neutral State'' \<longleftrightarrow> \<not> f" "mem_word f = ''Fault Generated'' \<longleftrightarrow> f"
  by (simp_all add: mem_word_def)

lemma mem_text_word: "mem_text ref faulty = str_int ref @ '':'' @ mem_word faulty"
  by (simp add: mem_text_def mem_word_def)

lemma alert_and_put:
  assumes "mem_ok env s" and "dict_of_pairs (map split_once (splitlines (mem_path_file s))) [] = Inr d"
    and "a \<in> {''fault'', ''fault_resolved''}" and "fault_alert_state s = mem_word faulty" and "0 \<le> ref"
  shows "\<exists>s'. seqp (mem_generate_alert env a) (put_mem_info env (str_int ref)) s = (Inr (), s') \<and> mem_inv env ref faulty s' \<and>
    mem_raised s' = mem_raised s @ [a]"
proof -
  obtain q where q: "mem_generate_alert env a s = (Inr (), s\<lparr>mem_built := mem_built s + 1, mem_q := q, mem_raised := mem_raised s @ [a]\<rparr>)"
      "has_queue ''NodeDataMsgHandler'' q"
    using mem_generate_run [OF assms(1-3)] by blast
  let ?s = "s\<lparr>mem_built := mem_built s + 1, mem_q := q, mem_raised := mem_raised s @ [a]\<rparr>"
  have "mem_ok env ?s" using assms(1) q(2) by (simp add: mem_ok_def)
  from put_mem_info_run [OF this, of "str_int ref"] obtain f where
    "put_mem_info env (str_int ref) ?s = (Inr (), ?s\<lparr>mem_fs := f\<rparr>)" "fs_wf f" "writable f (mem_data_path env)"
    "store_get f (mem_data_path env) = PStr (mem_text ref faulty)" using assms(4) by (auto simp: mem_text_word)
  with q assms(1,5) show ?thesis by (simp add: seqp_def bindp_def mem_inv_def mem_ok_def)
qed

lemma compare_mem_run:
  assumes "mem_inv env ref faulty s" and "dict_of_pairs (map split_once (splitlines (mem_path_file s))) [] = Inr d"
    and "prev_mem s = Some (str_int ref)" and "fault_alert_state s = mem_word faulty" and "0 \<le> tot"
    and spec: "mem_spec ref faulty tot = ((ref', faulty'), out)"
  shows "\<exists>s'. compare_mem env (str_int tot) s = (Inr (), s') \<and> mem_inv env ref' faulty' s' \<and> mem_raised s' = mem_raised s @ out"
proof -
  let ?s = "\<lambda>w. s\<lparr>fault_alert_state := w\<rparr>"
  have ok: "mem_ok env (?s w)" for w using assms(1) by (simp add: mem_inv_def mem_ok_def)
  have ref: "0 \<le> ref" using assms(1) by (simp add: mem_inv_def)
  consider "tot < ref" "\<not> faulty" | "ref \<le> tot" "faulty" | "tot < ref \<longleftrightarrow> faulty" by linarith
  then show ?thesis
  proof cases
    case 1
    from alert_and_put [OF ok [of "mem_word True"], of d "''fault''" True ref] 1 assms ref show ?thesis
      by (auto simp: compare_mem_def py_exec py_int_str_int mem_spec_def mem_word_def)
  next
    case 2
    from alert_and_put [OF ok [of "mem_word False"], of d "''fault_resolved''" False tot] 2 assms ref show ?thesis
      by (auto simp: compare_mem_def py_exec py_int_str_int mem_spec_def mem_word_def)
  next
    case 3
    then show ?thesis using assms by (auto simp: compare_mem_def py_exec py_int_str_int mem_spec_def mem_word_def)
  qed
qed

lemma get_stored_mem_run:
  assumes "mem_inv env ref faulty s"
  shows "get_stored_mem_info env s = (Inr (), s\<lparr>prev_mem := Some (str_int ref), fault_alert_state := mem_word faulty\<rparr>)"
  using assms parse_mem_text [of ref faulty]
  by (simp add: get_stored_mem_info_def py_exec mem_inv_def mem_ok_def has_store_get [of _ _ "mem_text ref faulty"] mem_word_def)

lemma polled_queue:
  "mem_inv env ref faulty s \<Longrightarrow> mem_inv env ref faulty (s\<lparr>mem_q := snd (read_my_msgQ_noWait l n (mem_q s))\<rparr>)"
  by (simp add: mem_inv_def mem_ok_def read_noWait_queue)

lemma mem_run_started:
  assumes "meminfo_ok t tot"
    and "\<exists>s1. seqp (get_stored_mem_info env) (compare_mem env (str_int tot)) (s\<lparr>mem_path_file := t, total_mem := Some (str_int tot)\<rparr>) =
      (Inr (), s1) \<and> mem_inv env ref faulty s1 \<and> mem_raised s1 = out"
  shows "\<exists>s'. mem_run env (Some t) s = (Inr (), s') \<and> mem_inv env ref faulty s' \<and> mem_raised s' = out"
proof -
  obtain rest where "split_ws t = ''MemTotal:'' # str_int tot # rest" using assms(1) by (auto simp: meminfo_ok_def)
  moreover obtain s1 where "seqp (get_stored_mem_info env) (compare_mem env (str_int tot))
      (s\<lparr>mem_path_file := t, total_mem := Some (str_int tot)\<rparr>) = (Inr (), s1)" "mem_inv env ref faulty s1" "mem_raised s1 = out"
    using assms(2) by blast
  ultimately show ?thesis
    by (intro exI [of _ "s1\<lparr>mem_q := snd (read_my_msgQ_noWait (nd_loads env) ''MemFaultSensor'' (mem_q s1))\<rparr>"])
      (simp add: mem_run_def seqp_def bindp_def modp_def polled_queue)
qed

section \<open>Each start follows the specification\<close>

lemma mem_boot_refines:
  assumes "mem_inv env ref faulty s" and "meminfo_ok t tot" and "mem_spec ref faulty tot = ((ref', faulty'), out)"
  shows "\<exists>s'. mem_boot env (Some t) s = (Inr (), s') \<and> mem_inv env ref' faulty' s' \<and> mem_raised s' = mem_raised s @ out"
proof -
  let ?s = "s\<lparr>prev_mem := None, fault_alert_state := ''Neutral State'', mem_path_file := t, total_mem := Some (str_int tot)\<rparr>"
  obtain d where d: "dict_of_pairs (map split_once (splitlines t)) [] = Inr d" "0 \<le> tot" using assms(2) by (auto simp: meminfo_ok_def)
  have inv: "mem_inv env ref faulty ?s" using assms(1) by (simp add: mem_inv_def mem_ok_def)
  let ?s1 = "?s\<lparr>prev_mem := Some (str_int ref), fault_alert_state := mem_word faulty\<rparr>"
  have "mem_inv env ref faulty ?s1" using inv by (simp add: mem_inv_def mem_ok_def)
  from compare_mem_run [OF this _ _ _ d(2) assms(3), of d] d(1)
  have "\<exists>s2. compare_mem env (str_int tot) ?s1 = (Inr (), s2) \<and> mem_inv env ref' faulty' s2 \<and> mem_raised s2 = mem_raised s @ out"
    by simp
  with get_stored_mem_run [OF inv] show ?thesis
    unfolding mem_boot_def by (intro mem_run_started [OF assms(2)]) (simp add: seqp_def bindp_def)
qed

text \<open>The first start: nothing is stored, and the total becomes the reference without an alert.\<close>

lemma mem_first_boot:
  assumes "mem_ok env s" and "\<not> fst (store_exists (mem_fs s) (mem_data_path env))" and "meminfo_ok t tot"
  shows "\<exists>s'. mem_boot env (Some t) s = (Inr (), s') \<and> mem_inv env tot False s' \<and> mem_raised s' = mem_raised s"
proof -
  let ?s = "s\<lparr>prev_mem := None, fault_alert_state := ''Neutral State'', mem_path_file := t, total_mem := Some (str_int tot)\<rparr>"
  have tot: "0 \<le> tot" using assms(3) by (simp add: meminfo_ok_def)
  have ok: "mem_ok env ?s" using assms(1) by (simp add: mem_ok_def)
  from put_mem_info_run [OF this, of "str_int tot"] obtain f where f: "put_mem_info env (str_int tot) ?s = (Inr (), ?s\<lparr>mem_fs := f\<rparr>)"
      "fs_wf f" "writable f (mem_data_path env)" "store_get f (mem_data_path env) = PStr (mem_text tot False)"
    by (auto simp: mem_text_def)
  then have "mem_inv env tot False (?s\<lparr>mem_fs := f\<rparr>)" using ok tot by (simp add: mem_inv_def mem_ok_def)
  with f(1) assms(2) show ?thesis
    unfolding mem_boot_def
    by (intro mem_run_started [OF assms(3)]) (simp add: get_stored_mem_info_def compare_mem_def py_exec)
qed

section \<open>Sequences of starts\<close>

primrec mem_boots :: "node_env \<Rightarrow> string list \<Rightarrow> (mem_state, unit) proc" where
  "mem_boots env [] s = (Inr (), s)"
| "mem_boots env (t # ts) s = seqp (mem_boot env (Some t)) (mem_boots env ts) s"

primrec mem_specs :: "int \<Rightarrow> bool \<Rightarrow> int list \<Rightarrow> (int \<times> bool) \<times> string list" where
  "mem_specs ref faulty [] = ((ref, faulty), [])"
| "mem_specs ref faulty (tot # tots) = (case mem_spec ref faulty tot of ((r, f), out) \<Rightarrow>
     (case mem_specs r f tots of (end_state, out') \<Rightarrow> (end_state, out @ out')))"

lemma mem_boots_run:
  assumes "mem_inv env ref faulty s" and "list_all2 meminfo_ok ts tots" and "mem_specs ref faulty tots = ((ref', faulty'), out)"
  shows "\<exists>s'. mem_boots env ts s = (Inr (), s') \<and> mem_inv env ref' faulty' s' \<and> mem_raised s' = mem_raised s @ out"
  using assms(2,1,3)
proof (induction arbitrary: s ref faulty out rule: list_all2_induct)
  case (Cons t ts tot tots)
  obtain r f o1 o2 where sp: "mem_spec ref faulty tot = ((r, f), o1)" "mem_specs r f tots = ((ref', faulty'), o2)" "out = o1 @ o2"
    using Cons.prems(2) by (auto split: prod.splits)
  obtain s1 where s1: "mem_boot env (Some t) s = (Inr (), s1)" "mem_inv env r f s1" "mem_raised s1 = mem_raised s @ o1"
    using mem_boot_refines [OF Cons.prems(1) Cons.hyps(1) sp(1)] by blast
  from Cons.IH [OF s1(2) sp(2)] s1(1,3) sp(3) show ?case by (auto simp: seqp_def bindp_def)
qed simp

lemma mem_specs_word:
  "mem_specs ref faulty tots = ((ref', faulty'), out) \<Longrightarrow>
    successively (\<noteq>) ((if faulty then ''fault'' else ''fault_resolved'') # out) \<and>
    last ((if faulty then ''fault'' else ''fault_resolved'') # out) = (if faulty' then ''fault'' else ''fault_resolved'')"
proof (induction tots arbitrary: ref faulty out)
  case (Cons tot tots)
  obtain r f o1 o2 where sp: "mem_spec ref faulty tot = ((r, f), o1)" "mem_specs r f tots = ((ref', faulty'), o2)" "out = o1 @ o2"
    using Cons.prems by (auto split: prod.splits)
  from Cons.IH [OF sp(2)] sp(1,3) show ?case by (auto simp: mem_spec_def split: if_splits)
qed simp

text \<open>
  C10. Through any sequence of starts with readable meminfos, the first of them on an empty store, the memory
  sensor ends without an exception, raises exactly the alerts of the specification run over the totals and stores its final
  reference and state; the alerts alternate, starting with fault, and a fault is stored as outstanding
  exactly when the last alert is a fault.\<close>

theorem mem_starts_refine:
  assumes "mem_ok env s" and "\<not> fst (store_exists (mem_fs s) (mem_data_path env))" and "mem_raised s = []"
    and "list_all2 meminfo_ok (t # ts) (tot # tots)"
  shows "\<exists>s' ref faulty out. mem_specs tot False tots = ((ref, faulty), out) \<and> mem_boots env (t # ts) s = (Inr (), s') \<and>
    mem_raised s' = out \<and> store_get (mem_fs s') (mem_data_path env) = PStr (mem_text ref faulty) \<and>
    successively (\<noteq>) (''fault_resolved'' # out) \<and> (faulty \<longleftrightarrow> out \<noteq> [] \<and> last out = ''fault'')"
proof -
  obtain ref faulty out where sp: "mem_specs tot False tots = ((ref, faulty), out)" by (metis surj_pair)
  obtain s1 where s1: "mem_boot env (Some t) s = (Inr (), s1)" "mem_inv env tot False s1" "mem_raised s1 = []"
    using mem_first_boot [OF assms(1,2)] assms(3,4) by auto
  obtain s' where "mem_boots env ts s1 = (Inr (), s')" "mem_inv env ref faulty s'" "mem_raised s' = out"
    using mem_boots_run [OF s1(2) _ sp] assms(4) s1(3) by auto
  with s1(1) sp mem_specs_word [OF sp] show ?thesis
    by (intro exI [of _ s'] exI [of _ ref] exI [of _ faulty] exI [of _ out])
      (auto simp: seqp_def bindp_def mem_inv_def split: if_splits)
qed

lemma mem_specs_above: "list_all (\<lambda>tot. ref \<le> tot) tots \<Longrightarrow> mem_specs ref False tots = ((ref, False), [])"
  by (induction tots) (auto simp: mem_spec_def)

text \<open>
  A total that grows is not remembered: through any sequence of starts whose totals stay at or above the stored
  reference no alert is raised and the store does not change, whatever the totals lose between two starts.\<close>

lemma mem_growth_forgotten:
  assumes "mem_inv env ref False s" and "list_all2 meminfo_ok ts tots" and "list_all (\<lambda>tot. ref \<le> tot) tots"
  shows "\<exists>s'. mem_boots env ts s = (Inr (), s') \<and> mem_raised s' = mem_raised s \<and>
    store_get (mem_fs s') (mem_data_path env) = PStr (mem_text ref False)"
  using mem_boots_run [OF assms(1,2) mem_specs_above [OF assms(3)]] by (auto simp: mem_inv_def)

text \<open>An alert that cannot be built is not lost: the state is stored only after it, so the next start raises it.\<close>

lemma mem_alert_retried:
  assumes "mem_inv env ref faulty s" and "meminfo_ok t tot" and "snd (mem_spec ref faulty tot) \<noteq> []"
    and "nd_fqdn env' = Inl e" and "mem_data_path env' = mem_data_path env"
  shows "fst (mem_boot env' (Some t) s) = Inl e \<and> mem_inv env ref faulty (snd (mem_boot env' (Some t) s))"
proof -
  let ?s = "s\<lparr>prev_mem := None, fault_alert_state := ''Neutral State'', mem_path_file := t, total_mem := Some (str_int tot)\<rparr>"
  obtain rest where sp: "split_ws t = ''MemTotal:'' # str_int tot # rest" using assms(2) by (auto simp: meminfo_ok_def)
  have "mem_inv env ref faulty ?s" using assms(1) by (simp add: mem_inv_def mem_ok_def)
  then have st: "get_stored_mem_info env' ?s = (Inr (), ?s\<lparr>prev_mem := Some (str_int ref), fault_alert_state := mem_word faulty\<rparr>)"
    using get_stored_mem_run [of env ref faulty ?s] unfolding get_stored_mem_info_def assms(5) by simp
  have fails: "mem_generate_alert env' a s1 = (Inl e, s1\<lparr>mem_built := mem_built s1 + 1\<rparr>)" if "a \<in> {''fault'', ''fault_resolved''}" for a s1
    using that assms(4)
    by (auto simp: mem_generate_alert_def mem_create_json_message_def map_severity_def ALERT_TO_SEVERITY_MAPPING_def py_exec Let_def)
  have "(tot < ref \<and> \<not> faulty) \<or> (ref \<le> tot \<and> faulty)" using assms(3) by (auto simp: mem_spec_def split: if_splits)
  then show ?thesis using assms(1)
    by (auto simp: mem_boot_def mem_run_def sp seqp_def bindp_def modp_def st compare_mem_def getp_def liftp_def py_int_str_int
        fails mem_inv_def mem_ok_def)
qed

section \<open>Concrete starts\<close>

definition demo_mem :: "(string \<times> content) list \<Rightarrow> mem_state" where
  "demo_mem fl = \<lparr>mem_fs = \<lparr>files = fl, dirs = [''/var/sspl/server''], denied = []\<rparr>,
     mem_q = \<lparr>msgQlist = [(''NodeDataMsgHandler'', [])], msgq_dbg = init_debug\<rparr>, total_mem = None, mem_path_file = [],
     prev_mem = None, fault_alert_state = ''Neutral State'', mem_suspended = False, mem_built = 0, mem_raised = []\<rparr>"

lemma demo_mem_path: "mem_data_path demo_node = ''/var/sspl/server/MEM_FAULT_SENSOR_DATA_SN01''"
    "dirname ''/var/sspl/server/MEM_FAULT_SENSOR_DATA_SN01'' = ''/var/sspl/server''"
    "''/var/sspl/server/MEM_FAULT_SENSOR_DATA_SN01'' \<notin> set (ancestors ''/var/sspl/server'')"
  by code_simp+

lemma demo_mem_ok: "list_all (\<lambda>p. fst p = mem_data_path demo_node) fl \<Longrightarrow> mem_ok demo_node (demo_mem fl)"
  by (auto simp: mem_ok_def demo_mem_def demo_mem_path demo_node_simps fs_wf_def isfile_def isdir_def writable_def has_queue_def
      list_all_iff dest!: map_of_SomeD bspec)

lemma demo_meminfo: "meminfo_ok ''MemTotal: 8 kB'' 8" "meminfo_ok ''MemTotal: 4 kB'' 4" "meminfo_ok ''MemTotal: 9 kB'' 9"
proof -
  have "split_ws ''MemTotal: 8 kB'' = [''MemTotal:'', str_int 8, ''kB'']" "split_ws ''MemTotal: 4 kB'' = [''MemTotal:'', str_int 4, ''kB'']"
    "split_ws ''MemTotal: 9 kB'' = [''MemTotal:'', str_int 9, ''kB'']"
    "dict_of_pairs (map split_once (splitlines ''MemTotal: 8 kB'')) [] = Inr [(''MemTotal:'', PStr ''8 kB'')]"
    "dict_of_pairs (map split_once (splitlines ''MemTotal: 4 kB'')) [] = Inr [(''MemTotal:'', PStr ''4 kB'')]"
    "dict_of_pairs (map split_once (splitlines ''MemTotal: 9 kB'')) [] = Inr [(''MemTotal:'', PStr ''9 kB'')]"
    by code_simp+
  then show "meminfo_ok ''MemTotal: 8 kB'' 8" "meminfo_ok ''MemTotal: 4 kB'' 4" "meminfo_ok ''MemTotal: 9 kB'' 9"
    by (simp_all add: meminfo_ok_def)
qed

theorem mem_starts_refine_witness:
  "\<exists>s'. mem_boots demo_node [''MemTotal: 8 kB'', ''MemTotal: 4 kB'', ''MemTotal: 9 kB''] (demo_mem []) = (Inr (), s') \<and>
     mem_raised s' = [''fault'', ''fault_resolved'']"
proof -
  have "list_all2 meminfo_ok [''MemTotal: 8 kB'', ''MemTotal: 4 kB'', ''MemTotal: 9 kB''] [8, 4, 9]"
    by (simp add: demo_meminfo)
  moreover have "\<not> fst (store_exists (mem_fs (demo_mem [])) (mem_data_path demo_node))" "mem_raised (demo_mem []) = []"
    by (simp_all add: store_exists_def path_exists_def isfile_def isdir_def demo_mem_def demo_mem_path)
  ultimately have "\<exists>s' ref faulty out. mem_specs 8 False [4, 9] = ((ref, faulty), out) \<and>
      mem_boots demo_node [''MemTotal: 8 kB'', ''MemTotal: 4 kB'', ''MemTotal: 9 kB''] (demo_mem []) = (Inr (), s') \<and> mem_raised s' = out"
    using mem_starts_refine [OF demo_mem_ok [of "[]"], where t = "''MemTotal: 8 kB''" and tot = 8 and
        ts = "[''MemTotal: 4 kB'', ''MemTotal: 9 kB'']" and tots = "[4, 9]"] by (simp del: mem_boots.simps mem_specs.simps) blast
  moreover have "mem_specs 8 False [4, 9] = ((9, False), [''fault'', ''fault_resolved''])" by (simp add: mem_spec_def)
  ultimately show ?thesis by (simp del: mem_boots.simps mem_specs.simps)
qed

lemma mem_growth_forgotten_witness:
  "\<exists>s'. mem_boots demo_node [''MemTotal: 9 kB'', ''MemTotal: 8 kB''] (demo_mem [(mem_data_path demo_node, Pickled (PStr ''4:Neutral State''))]) =
     (Inr (), s') \<and> mem_raised s' = [] \<and> store_get (mem_fs s') (mem_data_path demo_node) = PStr ''4:Neutral State''"
proof -
  let ?s = "demo_mem [(mem_data_path demo_node, Pickled (PStr ''4:Neutral State''))]"
  have tx: "mem_text 4 False = ''4:Neutral State''" by code_simp
  have "mem_ok demo_node ?s" by (rule demo_mem_ok) simp
  then have "mem_inv demo_node 4 False ?s"
    by (simp add: mem_inv_def tx mem_ok_def fs_wf_get) (simp add: demo_mem_def)
  moreover have "list_all2 meminfo_ok [''MemTotal: 9 kB'', ''MemTotal: 8 kB''] [9, 8]" by (simp add: demo_meminfo)
  moreover have "mem_raised ?s = []" by (simp add: demo_mem_def)
  ultimately show ?thesis using mem_growth_forgotten [of demo_node 4 ?s "[''MemTotal: 9 kB'', ''MemTotal: 8 kB'']" "[9, 8]"]
    by (simp add: tx del: mem_boots.simps)
qed

end
