(* ===== verification/Node_Handler.thy ===== *)
theory Node_Handler
  imports Node_Cpu "HOL-Library.Signed_Division"
begin

text \<open>
  \<^verbatim>\<open>message_handlers/node_data_msg_handler.py\<close>: the handler between the sensors of the node and the egress
  processor. It forwards what the sensors of CPUs, memory, RAID and FRUs send, and itself checks the usage of CPU,
  memory and disk and the state of the network interfaces. The node data sensor (\<^verbatim>\<open>psutil\<close> readings) is a parameter:
  \<open>nh_read\<close> gives for each call of \<^verbatim>\<open>read_data\<close> its result and the attributes after it. Clock readings and random
  salts are those of \<open>node_env\<close>, by the number of clock readings so far.
\<close>

section \<open>State\<close>

record nh_env =
  nh_node :: node_env
  nh_msgs :: msg_env
  nh_sensor :: "(string \<Rightarrow> pyv) res"
  nh_read :: "nat \<Rightarrow> string \<Rightarrow> bool res \<times> (string \<Rightarrow> pyv)"
  nh_float :: "string \<Rightarrow> pyv option"
  transmit_interval :: int
  high_cpu_usage_wait_threshold :: int
  high_memory_usage_wait_threshold :: int
  nh_units :: pyv
  cpu_threshold_conf :: pyv
  memory_threshold_conf :: pyv
  disk_threshold_conf :: pyv

record nh_state =
  nh_fs :: fs
  nh_q :: "nat msgq"
  nh_suspended :: bool
  nh_schedule :: "int list"
  node_sensor :: "(string \<Rightarrow> pyv) option"
  nh_reads :: nat
  nh_ticks :: nat
  high_usage :: "string \<Rightarrow> bool"
  usage_time_map :: "string \<Rightarrow> int"
  fault_resolved_iterations :: "string \<Rightarrow> int"
  prev_nw_if_status :: pyv
  prev_cable_status :: pyv
  persistent_data :: "string \<Rightarrow> pyv"
  cpu_usage_threshold :: pyv
  host_memory_usage_threshold :: pyv
  disk_usage_threshold :: pyv
  os_sensor_type :: pydict
  nh_sensor_type :: pyv
  nh_uuid :: pyv
  nh_epoch_time :: string
  raid_device :: pyv
  raid_drives :: "pyv list"
  drive_by_device_name :: "(pyv \<times> pyv) list"
  drive_byid_by_serial_number :: "(pyv \<times> pyv) list"
  nh_raised :: "(string \<times> string) list"

definition on_nh_q :: "(nat msgq, 'a) proc \<Rightarrow> (nh_state, 'a) proc" where
  "on_nh_q m s = (case m (nh_q s) of (r, q) \<Rightarrow> (r, s\<lparr>nh_q := q\<rparr>))"

text \<open>One reading of the clock, with the salt of the alert id that goes with it.\<close>

definition nh_clock :: "nh_env \<Rightarrow> (nh_state, int \<times> string) proc" where
  "nh_clock env s = (Inr (nd_epoch (nh_node env) (nh_ticks s), nd_salt (nh_node env) (nh_ticks s)), s\<lparr>nh_ticks := nh_ticks s + 1\<rparr>)"

definition read_data :: "nh_env \<Rightarrow> string \<Rightarrow> (nh_state, bool) proc" where
  "read_data env part s = (if node_sensor s = None then (Inl AttributeError, s)
     else case nh_read env (nh_reads s) part of (r, a) \<Rightarrow> (r, s\<lparr>nh_reads := nh_reads s + 1, node_sensor := Some a\<rparr>))"

definition sensor_attr :: "string \<Rightarrow> nh_state \<Rightarrow> pyv res" where
  "sensor_attr name s = (case node_sensor s of None \<Rightarrow> Inl AttributeError | Some a \<Rightarrow> Inr (a name))"

definition sensor_attrs :: "string list \<Rightarrow> nh_state \<Rightarrow> pyv list res" where
  "sensor_attrs names s = seq_res (map (\<lambda>n. sensor_attr n s) names)"

section \<open>The persistent cache\<close>

definition usage_path :: "nh_env \<Rightarrow> string \<Rightarrow> string" where
  "usage_path env data_path = path_join (server_cache (nh_node env)) (data_path @ ''_'' @ nd_node_id (nh_node env))"

definition bool_text :: "bool \<Rightarrow> string" where
  "bool_text b = (if b then ''True'' else ''False'')"

definition usage_record :: "string \<Rightarrow> bool \<Rightarrow> int \<Rightarrow> int \<Rightarrow> pyv" where
  "usage_record res high since iters = PDict [(''high_'' @ res @ ''_usage'', PStr (bool_text high)),
     (res @ ''_usage_time_map'', PStr (str_int since)), (res @ ''_fault_resolved_iterations'', PStr (str_int iters))]"

definition persist_state_data :: "nh_env \<Rightarrow> string \<Rightarrow> string \<Rightarrow> (nh_state, unit) proc" where
  "persist_state_data env res data_path = modp (\<lambda>s.
     let d = (if res = ''nw'' then PDict [(''prev_nw_if_status'', prev_nw_if_status s), (''prev_cable_status'', prev_cable_status s)]
              else usage_record res (high_usage s res) (usage_time_map s res) (fault_resolved_iterations s res))
     in s\<lparr>persistent_data := (persistent_data s)(res := d), nh_fs := store_put d (usage_path env data_path) True (nh_fs s)\<rparr>)"

definition read_persistent_data :: "nh_env \<Rightarrow> string \<Rightarrow> nh_state \<Rightarrow> pyv" where
  "read_persistent_data env data_path s = (if isfile (nh_fs s) (usage_path env data_path)
     then store_get (nh_fs s) (usage_path env data_path) else PDict [])"

definition init_from_persistent_cache :: "nh_env \<Rightarrow> string \<Rightarrow> string \<Rightarrow> (nh_state, unit) proc" where
  "init_from_persistent_cache env res data_path =
     seqp (modp (\<lambda>s. if isfile (nh_fs s) (usage_path env data_path)
        then s\<lparr>persistent_data := (persistent_data s)(res := store_get (nh_fs s) (usage_path env data_path))\<rparr> else s))
     (bindp (getp (\<lambda>s. persistent_data s res)) (\<lambda>d.
       if truthy d then
         if res = ''nw'' then
           bindp (liftp (get_default d ''prev_nw_if_status'' (PDict []))) (\<lambda>v.
           seqp (modp (\<lambda>s. s\<lparr>prev_nw_if_status := v\<rparr>))
           (bindp (liftp (get_default d ''prev_cable_status'' (PDict []))) (\<lambda>v.
            modp (\<lambda>s. s\<lparr>prev_cable_status := v\<rparr>))))
         else
           bindp (liftp (bindr (getitem d (''high_'' @ res @ ''_usage'')) lower_method)) (\<lambda>t.
           modp (\<lambda>s. s\<lparr>high_usage := (high_usage s)(res := (t = ''true''))\<rparr>))
       else persist_state_data env res data_path))"

definition nh_initialize :: "nh_env \<Rightarrow> (nh_state, unit) proc" where
  "nh_initialize env =
     bindp (nh_clock env) (\<lambda>(now, _).
     seqp (modp (\<lambda>s. s\<lparr>node_sensor := None, nh_sensor_type := PNone, nh_epoch_time := str_int now, raid_drives := [],
        raid_device := PStr ''N/A'', nh_uuid := PNone, drive_by_device_name := [], drive_byid_by_serial_number := [],
        os_sensor_type := map (\<lambda>k. (k, PNone)) [''disk_space'', ''memory_usage'', ''nw'', ''cpu_usage'', ''raid_data''],
        cpu_usage_threshold := cpu_threshold_conf env, host_memory_usage_threshold := memory_threshold_conf env,
        disk_usage_threshold := disk_threshold_conf env, persistent_data := (\<lambda>_. PDict [])\<rparr>))
     (seqp (init_from_persistent_cache env ''cpu'' ''CPU_USAGE_DATA'')
     (seqp (init_from_persistent_cache env ''disk'' ''DISK_USAGE_DATA'')
     (seqp (init_from_persistent_cache env ''memory'' ''MEMORY_USAGE_DATA'')
           (init_from_persistent_cache env ''nw'' ''NW_SENSOR_DATA'')))))"

section \<open>Sending\<close>

text \<open>The uuid is added, the message serialised, remembered under \<open>key\<close> and queued for the egress processor.\<close>

definition json_text :: "nh_env \<Rightarrow> pyv res \<Rightarrow> (nh_state, pyv) proc" where
  "json_text env msg = bindp (liftp msg) (\<lambda>m. bindp (getp nh_uuid) (\<lambda>u. bindp (liftp (with_uuid u m)) (\<lambda>m.
     bindp (liftp (sensor_getJson (nh_msgs env) m)) (\<lambda>t. ret (PStr t)))))"

definition send_and_remember :: "nh_env \<Rightarrow> string \<Rightarrow> string \<Rightarrow> string \<Rightarrow> pyv res \<Rightarrow> (nh_state, unit) proc" where
  "send_and_remember env key item alert_type msg =
     bindp (json_text env msg) (\<lambda>t.
     seqp (modp (\<lambda>s. s\<lparr>os_sensor_type := AList.update key t (os_sensor_type s)\<rparr>))
     (seqp (on_nh_q (write_internal_msgQ ''EgressProcessor'' t None))
           (modp (\<lambda>s. s\<lparr>nh_raised := nh_raised s @ [(item, alert_type)]\<rparr>))))"

section \<open>Usage of CPU and memory\<close>

text \<open>\<^verbatim>\<open>str(x)\<close>, then \<^verbatim>\<open>int\<close> or \<^verbatim>\<open>float\<close> of the text; the default when that fails.\<close>

definition read_threshold :: "nh_env \<Rightarrow> pyv \<Rightarrow> pyv" where
  "read_threshold env v = (let t = py_str v in
     if isdigit t then (case py_int t of Inr i \<Rightarrow> PInt i | Inl _ \<Rightarrow> PInt 80)
     else (case nh_float env t of Some f \<Rightarrow> f | None \<Rightarrow> PInt 80))"

text \<open>\<^verbatim>\<open>int(v)\<close>.\<close>

fun int_conv :: "pyv \<Rightarrow> int res" where
  "int_conv (PStr t) = py_int t"
| "int_conv (PBytes t) = py_int t"
| "int_conv (PInt i) = Inr i"
| "int_conv (PBool b) = Inr (if b then 1 else 0)"
| "int_conv (PFloat t) = (case float_num t of
     Fin (m, e) \<Rightarrow> Inr (if 0 \<le> e then m * 10 ^ nat e else m sdiv 10 ^ nat (- e))
   | Infinite _ \<Rightarrow> Inl OverflowError | NaN \<Rightarrow> Inl ValueError)"
| "int_conv _ = Inl TypeError"

definition stored_int :: "pyv \<Rightarrow> string \<Rightarrow> int \<Rightarrow> int res" where
  "stored_int d k otherwise = bindr (get_key d k) (\<lambda>v. if v = PNone then Inr otherwise else int_conv v)"

text \<open>\<^verbatim>\<open>int(wait / interval)\<close>: division truncates towards zero.\<close>

definition iteration_limit :: "nh_env \<Rightarrow> int \<Rightarrow> int" where
  "iteration_limit env wait = (if transmit_interval env = 0 then 0 else wait sdiv transmit_interval env)"

text \<open>
  \<^verbatim>\<open>_generate_host_update\<close> and \<^verbatim>\<open>_generate_cpu_data\<close> after the reading: \<open>pct\<close> is the usage read, \<open>thr\<close> the
  threshold, \<open>send\<close> builds and sends the alert of a type with its text, \<open>fault_text\<close> and \<open>resolved_text\<close> are the texts.
\<close>

definition check_usage :: "nh_env \<Rightarrow> string \<Rightarrow> string \<Rightarrow> int \<Rightarrow> int \<Rightarrow> (nh_state \<Rightarrow> pyv res) \<Rightarrow> pyv \<Rightarrow>
    (string \<Rightarrow> string \<Rightarrow> (nh_state, unit) proc) \<Rightarrow> (pyv \<Rightarrow> string) \<Rightarrow> (pyv \<Rightarrow> string) \<Rightarrow> (nh_state, unit) proc" where
  "check_usage env res data_path wait now pct thr send fault_text resolved_text =
     bindp (getp (read_persistent_data env data_path)) (\<lambda>d.
     bindp (liftp (stored_int d (res @ ''_usage_time_map'') (-1))) (\<lambda>previous.
     bindp (liftp (stored_int d (res @ ''_fault_resolved_iterations'') 0)) (\<lambda>iters.
     seqp (modp (\<lambda>s. s\<lparr>usage_time_map := (usage_time_map s)(res := now)\<rparr>))
     (bindp (getp pct) (\<lambda>r. bindp (liftp r) (\<lambda>p. bindp (liftp (py_ge p thr)) (\<lambda>above.
      bindp (getp (\<lambda>s. high_usage s res)) (\<lambda>high.
      seqp (if above \<and> \<not> high then
              seqp (if previous = -1 then persist_state_data env res data_path else ret ())
              (if now - (if previous = -1 then now else previous) \<ge> wait then
                 seqp (modp (\<lambda>s. s\<lparr>high_usage := (high_usage s)(res := True),
                    fault_resolved_iterations := (fault_resolved_iterations s)(res := 0)\<rparr>))
                 (seqp (send ''fault'' (fault_text p)) (persist_state_data env res data_path))
               else ret ())
            else ret ())
      (bindp (liftp (py_lt p thr)) (\<lambda>below. bindp (getp (\<lambda>s. high_usage s res)) (\<lambda>high.
        if \<not> below then ret ()
        else if \<not> high then persist_state_data env res data_path
        else if iters < iteration_limit env wait then
          seqp (modp (\<lambda>s. s\<lparr>fault_resolved_iterations := (fault_resolved_iterations s)(res := iters + 1)\<rparr>))
               (persist_state_data env res data_path)
        else
          seqp (send ''fault_resolved'' (resolved_text p))
          (seqp (modp (\<lambda>s. s\<lparr>high_usage := (high_usage s)(res := False), usage_time_map := (usage_time_map s)(res := -1),
                 fault_resolved_iterations := (fault_resolved_iterations s)(res := 0)\<rparr>))
                (persist_state_data env res data_path)))))))))))))"

definition host_update_send :: "nh_env \<Rightarrow> string \<Rightarrow> string \<Rightarrow> (nh_state, unit) proc" where
  "host_update_send env alert_type event =
     bindp (getp (sensor_attrs [''host_id'', ''boot_time'', ''up_time'', ''uname'', ''total_memory'', ''logged_in_users'',
        ''process_count'', ''running_process_count''])) (\<lambda>r. bindp (liftp r) (\<lambda>a.
     bindp (getp nh_epoch_time) (\<lambda>t. bindp (nh_clock env) (\<lambda>(now, salt).
       send_and_remember env ''memory_usage'' ''memory'' alert_type
         (HostUpdateMsg (nh_msgs env) (str_int now) salt (a ! 0) (PStr t) (a ! 1) (a ! 2) (a ! 3) (a ! 4) (a ! 5) (a ! 6) (a ! 7)
            alert_type event)))))"

definition generate_host_update :: "nh_env \<Rightarrow> (nh_state, unit) proc" where
  "generate_host_update env =
     bindp (nh_clock env) (\<lambda>(now, _).
     bindp (read_data env ''host_update'') (\<lambda>_.
     seqp (modp (\<lambda>s. s\<lparr>host_memory_usage_threshold := read_threshold env (host_memory_usage_threshold s)\<rparr>))
     (bindp (getp host_memory_usage_threshold) (\<lambda>thr.
       check_usage env ''memory'' ''MEMORY_USAGE_DATA'' (high_memory_usage_wait_threshold env) now
         (\<lambda>s. bindr (sensor_attr ''total_memory'' s) (\<lambda>v. getitem v ''percent'')) thr (host_update_send env)
         (\<lambda>p. ''Host memory usage has increased to '' @ py_str p @ ''%,beyond the configured threshold of '' @ py_str thr @
            ''% for more than '' @ str_int (high_memory_usage_wait_threshold env) @ '' seconds.'')
         (\<lambda>p. ''Host memory usage has decreased to '' @ py_str p @ ''%, lower than the configured threshold of '' @ py_str thr @ ''%.'')))))"

definition cpu_data_send :: "nh_env \<Rightarrow> string \<Rightarrow> string \<Rightarrow> (nh_state, unit) proc" where
  "cpu_data_send env alert_type event =
     bindp (getp (sensor_attrs [''host_id'', ''csps'', ''idle_time'', ''interrupt_time'', ''iowait_time'', ''nice_time'',
        ''softirq_time'', ''steal_time'', ''system_time'', ''user_time'', ''cpu_core_data'', ''cpu_usage''])) (\<lambda>r. bindp (liftp r) (\<lambda>a.
     bindp (getp nh_epoch_time) (\<lambda>t. bindp (nh_clock env) (\<lambda>(now, salt).
       send_and_remember env ''cpu_usage'' ''cpu'' alert_type
         (CPUdataMsg (nh_msgs env) (str_int now) salt (a ! 0) (PStr t) (tl a) alert_type event)))))"

definition generate_cpu_data :: "nh_env \<Rightarrow> (nh_state, unit) proc" where
  "generate_cpu_data env =
     bindp (nh_clock env) (\<lambda>(now, _).
     bindp (read_data env ''cpu_data'') (\<lambda>_.
     seqp (modp (\<lambda>s. s\<lparr>cpu_usage_threshold := read_threshold env (cpu_usage_threshold s)\<rparr>))
     (bindp (getp cpu_usage_threshold) (\<lambda>thr.
       check_usage env ''cpu'' ''CPU_USAGE_DATA'' (high_cpu_usage_wait_threshold env) now (sensor_attr ''cpu_usage'') thr
         (cpu_data_send env)
         (\<lambda>p. ''CPU usage has increased to '' @ py_str p @ ''%, beyond the configured threshold of '' @ py_str thr @
            ''% for more than '' @ str_int (high_cpu_usage_wait_threshold env) @ '' seconds.'')
         (\<lambda>p. ''CPU usage has decreased to '' @ py_str p @ ''%, lower than the configured threshold of '' @ py_str thr @ ''%.'')))))"

section \<open>Disk space\<close>

text \<open>The constructor of the message takes the free space first; the calls pass the total space first.\<close>

definition disk_space_send :: "nh_env \<Rightarrow> string \<Rightarrow> string \<Rightarrow> (nh_state, unit) proc" where
  "disk_space_send env alert_type event =
     bindp (getp (sensor_attrs [''host_id'', ''total_space'', ''free_space'', ''disk_used_percentage''])) (\<lambda>r. bindp (liftp r) (\<lambda>a.
     bindp (nh_clock env) (\<lambda>(now, salt).
       send_and_remember env ''disk_space'' ''disk'' alert_type
         (DiskSpaceAlertMsg (nh_msgs env) (str_int now) salt (a ! 0) (a ! 1) (a ! 2) (a ! 3) (nh_units env) alert_type event))))"

definition generate_disk_space_alert :: "nh_env \<Rightarrow> (nh_state, unit) proc" where
  "generate_disk_space_alert env =
     bindp (read_data env ''disk_space_alert'') (\<lambda>successful. if \<not> successful then ret ()
     else
       seqp (modp (\<lambda>s. s\<lparr>disk_usage_threshold := read_threshold env (disk_usage_threshold s)\<rparr>))
       (bindp (getp disk_usage_threshold) (\<lambda>thr.
        bindp (getp (sensor_attr ''disk_used_percentage'')) (\<lambda>r. bindp (liftp r) (\<lambda>p.
        bindp (liftp (py_ge p thr)) (\<lambda>above. bindp (getp (\<lambda>s. high_usage s ''disk'')) (\<lambda>high.
        seqp (if above \<and> \<not> high then
                seqp (modp (\<lambda>s. s\<lparr>high_usage := (high_usage s)(''disk'' := True)\<rparr>))
                (seqp (disk_space_send env ''fault'' (''Disk usage has increased to '' @ py_str p @
                    ''%, beyond the configured threshold of '' @ py_str thr @ ''%.''))
                      (persist_state_data env ''disk'' ''DISK_USAGE_DATA''))
              else ret ())
        (bindp (liftp (py_le p thr)) (\<lambda>below. bindp (getp (\<lambda>s. high_usage s ''disk'')) (\<lambda>high.
           if below \<and> high then
             seqp (disk_space_send env ''fault_resolved'' (''Disk usage has decreased to '' @ py_str p @
                 ''%, lower than the configured threshold of '' @ py_str thr @ ''%.''))
             (seqp (modp (\<lambda>s. s\<lparr>high_usage := (high_usage s)(''disk'' := False)\<rparr>))
                   (persist_state_data env ''disk'' ''DISK_USAGE_DATA''))
           else ret ()))))))))))"

definition generate_local_mount_data :: "nh_env \<Rightarrow> (nh_state, unit) proc" where
  "generate_local_mount_data env =
     bindp (read_data env ''local_mount_data'') (\<lambda>_.
     bindp (getp (sensor_attrs [''host_id'', ''free_space'', ''free_inodes'', ''free_swap'', ''total_space'', ''total_swap''])) (\<lambda>r.
     bindp (liftp r) (\<lambda>a. bindp (getp nh_epoch_time) (\<lambda>t.
     bindp (json_text env (LocalMountDataMsg (nh_msgs env) (a ! 0) (PStr t) (a ! 1) (a ! 2) (a ! 3) (a ! 4) (a ! 5) (nh_units env))) (\<lambda>j.
       on_nh_q (write_internal_msgQ ''EgressProcessor'' j None))))))"

section \<open>Network interfaces\<close>

definition NW_RESOURCE_TYPE :: string where "NW_RESOURCE_TYPE = ''node:interface:nw''"
definition NW_CABLE_RESOURCE_TYPE :: string where "NW_CABLE_RESOURCE_TYPE = ''node:interface:nw:cable''"

text \<open>\<open>nh_raised\<close> names the item of a network alert by resource type and interface.\<close>

definition send_ifdata_json_msg :: "nh_env \<Rightarrow> string \<Rightarrow> string \<Rightarrow> string \<Rightarrow> string \<Rightarrow> (nh_state, unit) proc" where
  "send_ifdata_json_msg env rid rtype state event =
     bindp (getp (sensor_attrs [''host_id'', ''local_time'', ''if_data''])) (\<lambda>r. bindp (liftp r) (\<lambda>a.
     bindp (liftp (map_severity state)) (\<lambda>severity. bindp (nh_clock env) (\<lambda>(now, salt).
     seqp (send_and_remember env ''nw'' (rtype @ ''/'' @ rid) state
            (IFdataMsg (nh_msgs env) (str_int now) salt (a ! 0) (a ! 1) (a ! 2) (PStr rid) rtype state severity event))
          (persist_state_data env ''nw'' ''NW_SENSOR_DATA'')))))"

fun upper_method :: "pyv \<Rightarrow> string res" where
  "upper_method (PStr s) = Inr (upper s)"
| "upper_method (PBytes s) = Inr (upper s)"
| "upper_method _ = Inl AttributeError"

definition set_nw_status :: "string \<Rightarrow> string \<Rightarrow> (nh_state, unit) proc" where
  "set_nw_status if_name v = bindp (getp (\<lambda>s. setitem (prev_nw_if_status s) if_name (PStr v))) (\<lambda>r.
     bindp (liftp r) (\<lambda>d. modp (\<lambda>s. s\<lparr>prev_nw_if_status := d\<rparr>)))"

definition set_cable_status :: "string \<Rightarrow> string \<Rightarrow> (nh_state, unit) proc" where
  "set_cable_status if_name v = bindp (getp (\<lambda>s. setitem (prev_cable_status s) if_name (PStr v))) (\<lambda>r.
     bindp (liftp r) (\<lambda>d. modp (\<lambda>s. s\<lparr>prev_cable_status := d\<rparr>)))"

definition nw_alert :: "nh_env \<Rightarrow> string \<Rightarrow> string \<Rightarrow> string \<Rightarrow> (nh_state, unit) proc" where
  "nw_alert env if_name state status = seqp (set_nw_status if_name status)
     (send_ifdata_json_msg env if_name NW_RESOURCE_TYPE state (''Network interface '' @ if_name @ '' is '' @ status @ ''.''))"

definition cable_alert :: "nh_env \<Rightarrow> string \<Rightarrow> string \<Rightarrow> string \<Rightarrow> (nh_state, unit) proc" where
  "cable_alert env if_name state status = seqp (set_cable_status if_name status)
     (send_ifdata_json_msg env if_name NW_CABLE_RESOURCE_TYPE state (''Newtork Cable for interface '' @ if_name @ '' is '' @ status @ ''.''))"

definition prev_status :: "(nh_state \<Rightarrow> pyv) \<Rightarrow> string \<Rightarrow> (nh_state, pyv) proc" where
  "prev_status d if_name = bindp (getp (\<lambda>s. get_key (d s) if_name)) liftp"

text \<open>One turn of the loop over the interfaces.\<close>

definition nw_down :: "nh_env \<Rightarrow> string \<Rightarrow> (nh_state, unit) proc" where
  "nw_down env if_name = bindp (prev_status prev_nw_if_status if_name) (\<lambda>prev.
     if prev \<noteq> PStr ''DOWN'' then nw_alert env if_name ''fault'' ''DOWN'' else ret ())"

definition check_interface :: "nh_env \<Rightarrow> pyv \<Rightarrow> (nh_state, unit) proc" where
  "check_interface env interface =
     bindp (liftp (bindr (getitem interface ''ifId'') (\<lambda>v. case v of PStr n \<Rightarrow> Inr n | _ \<Rightarrow> Inl TypeError))) (\<lambda>if_name.
     bindp (liftp (bindr (getitem interface ''nwStatus'') upper_method)) (\<lambda>nw_if_status.
       if nw_if_status \<in> {''DOWN'', ''UNKNOWN''} then
         bindp (liftp (bindr (getitem interface ''nwCableConnStatus'') upper_method)) (\<lambda>cable.
           if cable = ''DISCONNECTED'' then
             bindp (prev_status prev_cable_status if_name) (\<lambda>prev.
               if prev \<noteq> PStr cable then cable_alert env if_name ''fault'' cable else ret ())
           else if cable = ''CONNECTED'' then
             seqp (bindp (prev_status prev_cable_status if_name) (\<lambda>prev.
                 if prev = PStr ''DISCONNECTED'' then cable_alert env if_name ''fault_resolved'' cable else ret ()))
               (nw_down env if_name)
           else nw_down env if_name)
       else
         seqp (bindp (prev_status prev_nw_if_status if_name) (\<lambda>prev.
             if prev = PStr ''DOWN'' then nw_alert env if_name ''fault_resolved'' ''UP'' else ret ()))
           (bindp (prev_status prev_cable_status if_name) (\<lambda>prev.
             if prev = PStr ''DISCONNECTED'' then cable_alert env if_name ''fault_resolved'' ''CONNECTED'' else ret ()))))"

definition generate_if_data :: "nh_env \<Rightarrow> (nh_state, unit) proc" where
  "generate_if_data env =
     bindp (read_data env ''if_data'') (\<lambda>_.
     bindp (getp (\<lambda>s. bindr (sensor_attr ''if_data'' s) iter_list)) (\<lambda>r. bindp (liftp r) (\<lambda>interfaces.
       forp interfaces (check_interface env))))"

section \<open>RAID and FRU data\<close>

definition request_path :: "string list" where
  "request_path = [''sensor_request_type'', ''node_data'']"

text \<open>
  One turn of the loop that fills in serial numbers: \<^verbatim>\<open>str(d.get(path))\<close> is \<^verbatim>\<open>"None"\<close> for a missing entry. The
  drives are dictionaries of the request.
\<close>

definition look_text :: "(pyv \<times> pyv) list \<Rightarrow> pyv \<Rightarrow> string res" where
  "look_text d k = (if hashable k then Inr (case map_of d k of None \<Rightarrow> ''None'' | Some v \<Rightarrow> py_str v) else Inl TypeError)"

definition fill_drive :: "nh_state \<Rightarrow> pyv \<Rightarrow> pyv res" where
  "fill_drive s drive = bindr (get_key drive ''identity'') (\<lambda>identity.
     if identity = PNone then Inr drive
     else bindr (get_key identity ''path'') (\<lambda>path.
       bindr (look_text (drive_by_device_name s) path) (\<lambda>serial_number.
       bindr (if serial_number \<noteq> ''None'' then set_path drive [''identity'', ''serialNumber''] (PStr serial_number) else Inr drive) (\<lambda>drive.
       bindr (look_text (drive_byid_by_serial_number s) (PStr serial_number)) (\<lambda>byid.
         if byid \<noteq> ''None'' then set_path drive [''identity'', ''path''] (PStr byid) else Inr drive)))))"

definition fill_drives :: "nat \<Rightarrow> (nh_state, unit) proc" where
  "fill_drives i = bindp (getp (\<lambda>s. fill_drive s (raid_drives s ! i))) (\<lambda>r. bindp (liftp r) (\<lambda>drive.
     modp (\<lambda>s. s\<lparr>raid_drives := (raid_drives s)[i := drive]\<rparr>)))"

definition generate_raid_data :: "nh_env \<Rightarrow> pyv \<Rightarrow> (nh_state, unit) proc" where
  "generate_raid_data env jsonMsg =
     bindp (read_data env ''raid'') (\<lambda>successful. if \<not> successful then ret ()
     else bindp (liftp (get_path jsonMsg request_path)) (\<lambda>request.
       bindp (liftp (get_key request ''status'')) (\<lambda>status. if status = PNone then ret ()
       else
         bindp (liftp (get_keys request [''host_id'', ''alert_type'', ''alert_id'', ''severity'', ''info'', ''specific_info''])) (\<lambda>d.
         bindp (liftp (get_path request [''specific_info'', ''device''])) (\<lambda>device.
         seqp (modp (\<lambda>s. s\<lparr>raid_device := device\<rparr>))
         (bindp (liftp (bindr (get_path request [''specific_info'', ''drives'']) iter_list)) (\<lambda>drives.
          seqp (modp (\<lambda>s. s\<lparr>raid_drives := drives\<rparr>))
          (bindp (json_text env (RAIDdataMsg (nh_msgs env) (snd (d ! 0)) (snd (d ! 1)) (snd (d ! 2)) (snd (d ! 3)) (snd (d ! 4)) (snd (d ! 5)))) (\<lambda>t.
           seqp (modp (\<lambda>s. s\<lparr>os_sensor_type := AList.update ''raid_data'' t (os_sensor_type s)\<rparr>))
                (forp [0..<length drives] fill_drives))))))))))"

definition generate_raid_integrity_data :: "nh_env \<Rightarrow> pyv \<Rightarrow> (nh_state, unit) proc" where
  "generate_raid_integrity_data env jsonMsg =
     bindp (liftp (get_path jsonMsg request_path)) (\<lambda>request.
       bindp (liftp (get_key request ''status'')) (\<lambda>status. if status = PNone then ret ()
       else
         bindp (liftp (get_keys request [''host_id'', ''alert_type'', ''alert_id'', ''severity'', ''info'', ''specific_info''])) (\<lambda>d.
         bindp (liftp (get_path request [''specific_info'', ''error''])) (\<lambda>_.
         bindp (json_text env (RAIDIntegrityMsg (nh_msgs env) (snd (d ! 0)) (snd (d ! 1)) (snd (d ! 2)) (snd (d ! 3)) (snd (d ! 4)) (snd (d ! 5)))) (\<lambda>t.
           modp (\<lambda>s. s\<lparr>os_sensor_type := AList.update ''raid_integrity'' t (os_sensor_type s)\<rparr>))))))"

definition generate_node_fru_data :: "nh_env \<Rightarrow> pyv \<Rightarrow> (nh_state, unit) proc" where
  "generate_node_fru_data env jsonMsg =
     bindp (getp (sensor_attr ''host_id'')) (\<lambda>r. bindp (liftp r) (\<lambda>host_id.
     seqp (if host_id = PNone then bindp (read_data env ''None'') (\<lambda>_. ret ()) else ret ())
     (bindp (liftp (get_path jsonMsg request_path)) (\<lambda>fru_info.
        if fru_info = PNone then raise UnboundLocalError
        else bindp (json_text env (NodeIPMIDataMsg (nh_msgs env) fru_info)) (\<lambda>t.
          on_nh_q (write_internal_msgQ ''EgressProcessor'' t None))))))"

definition update_devicename_sn_dict :: "pyv \<Rightarrow> (nh_state, unit) proc" where
  "update_devicename_sn_dict jsonMsg =
     bindp (liftp (get_keys jsonMsg [''drive_byid'', ''device_name'', ''serial_number''])) (\<lambda>d.
       let byid = snd (d ! 0); device = snd (d ! 1); serial = snd (d ! 2) in
       if \<not> hashable device then raise TypeError
       else seqp (modp (\<lambda>s. s\<lparr>drive_by_device_name := AList.update device serial (drive_by_device_name s)\<rparr>))
         (if \<not> hashable serial then raise TypeError
          else modp (\<lambda>s. s\<lparr>drive_byid_by_serial_number := AList.update serial byid (drive_byid_by_serial_number s)\<rparr>)))"

section \<open>Dispatch\<close>

definition send_remembered :: "string \<Rightarrow> (nh_state, unit) proc" where
  "send_remembered key = bindp (getp (\<lambda>s. case map_of (os_sensor_type s) key of None \<Rightarrow> PStr [] | Some v \<Rightarrow> v)) (\<lambda>m.
     if truthy m then on_nh_q (write_internal_msgQ ''EgressProcessor'' m None) else ret ())"

fun third_part :: "pyv \<Rightarrow> string res" where
  "third_part (PStr t) = (let ws = split_on CHR '':'' t in if 2 < length ws then Inr (ws ! 2) else Inl IndexError)"
| "third_part (PBytes t) = Inl TypeError"
| "third_part _ = Inl AttributeError"

definition handle_sensor_type :: "nh_env \<Rightarrow> pyv \<Rightarrow> string \<Rightarrow> (nh_state, unit) proc" where
  "handle_sensor_type env jsonMsg t =
     (if t = ''memory_usage'' then seqp (generate_host_update env) (send_remembered t)
      else if t = ''cpu_usage'' then seqp (generate_cpu_data env) (send_remembered t)
      else if t = ''nw'' then seqp (generate_if_data env) (send_remembered t)
      else if t = ''disk_space'' then seqp (generate_disk_space_alert env) (send_remembered t)
      else if t = ''raid_data'' then seqp (generate_raid_data env jsonMsg) (send_remembered t)
      else if t = ''raid_integrity'' then seqp (generate_raid_integrity_data env jsonMsg) (send_remembered t)
      else ret ())"

definition process_dict :: "nh_env \<Rightarrow> pyv \<Rightarrow> (nh_state, unit) proc" where
  "process_dict env m =
     seqp (modp (\<lambda>s. s\<lparr>nh_uuid := PNone\<rparr>))
     (bindp (liftp (get_chain m [''sspl_ll_msg_header'', ''uuid''])) (\<lambda>uuid.
      seqp (modp (\<lambda>s. s\<lparr>nh_uuid := uuid\<rparr>))
      (bindp (liftp (get_chain m (request_path @ [''sensor_type'']))) (\<lambda>sensor_type.
       if sensor_type \<noteq> PNone then
         bindp (liftp (third_part sensor_type)) (\<lambda>t.
         seqp (modp (\<lambda>s. s\<lparr>nh_sensor_type := PStr t\<rparr>)) (handle_sensor_type env m t))
       else bindp (liftp (get_key m ''sensor_response_type'')) (\<lambda>response.
         if response \<noteq> PNone then
           if response = PStr ''devicename_serialnumber'' then update_devicename_sn_dict m else ret ()
         else bindp (liftp (get_chain m (request_path @ [''info'', ''resource_type'']))) (\<lambda>rt.
           if rt \<noteq> PNone then generate_node_fru_data env m else ret ()))))))"

definition nh_process_msg :: "nh_env \<Rightarrow> pyv \<Rightarrow> (nh_state, unit) proc" where
  "nh_process_msg env jsonMsg = (case jsonMsg of
     PDict _ \<Rightarrow> process_dict env jsonMsg
   | PStr t \<Rightarrow> bindp (liftp (nd_loads (nh_node env) t)) (process_dict env)
   | PBytes t \<Rightarrow> bindp (liftp (nd_loads (nh_node env) t)) (process_dict env)
   | _ \<Rightarrow> raise TypeError)"

section \<open>The loop of the thread\<close>

definition ensure_sensor :: "nh_env \<Rightarrow> (nh_state, unit) proc" where
  "ensure_sensor env = bindp (getp node_sensor) (\<lambda>n. if n = None
     then bindp (liftp (nh_sensor env)) (\<lambda>a. modp (\<lambda>s. s\<lparr>node_sensor := Some a\<rparr>)) else ret ())"

text \<open>A non-blocking read that fails returns \<^verbatim>\<open>None\<close>, which cannot be unpacked.\<close>

definition nh_poll :: "nh_env \<Rightarrow> (nh_state, unit) proc" where
  "nh_poll env s = (case read_my_msgQ_noWait (nd_loads (nh_node env)) ''NodeDataMsgHandler'' (nh_q s) of
     (None, q) \<Rightarrow> (Inl TypeError, s\<lparr>nh_q := q\<rparr>)
   | (Some (m, _), q) \<Rightarrow> (if m \<noteq> PNone then nh_process_msg env m else ret ()) (s\<lparr>nh_q := q\<rparr>))"

text \<open>What other threads put into the queue while the handler sleeps for a second.\<close>

definition nh_arrive :: "(pyv \<times> nat option) list \<Rightarrow> (nh_state, unit) proc" where
  "nh_arrive ms = modp (\<lambda>s. case map_of (msgQlist (nh_q s)) ''NodeDataMsgHandler'' of None \<Rightarrow> s
     | Some q \<Rightarrow> s\<lparr>nh_q := (nh_q s)\<lparr>msgQlist := AList.update ''NodeDataMsgHandler'' (q @ ms) (msgQlist (nh_q s))\<rparr>\<rparr>)"

definition nh_checks :: "nh_env \<Rightarrow> (nh_state, unit) proc" where
  "nh_checks env = seqp (generate_host_update env) (seqp (generate_cpu_data env) (seqp (generate_if_data env)
     (generate_disk_space_alert env)))"

definition nh_periodic :: "nh_env \<Rightarrow> (nat \<Rightarrow> (pyv \<times> nat option) list) \<Rightarrow> (nh_state, unit) proc" where
  "nh_periodic env arrivals =
     seqp (forp [0..<nat (transmit_interval env)] (\<lambda>i. seqp (nh_poll env) (nh_arrive (arrivals i)))) (nh_checks env)"

text \<open>With an interval of zero: blocking reads until the queue is empty.\<close>

primrec nh_block :: "nat \<Rightarrow> nh_env \<Rightarrow> nh_state \<Rightarrow> (unit res \<times> nh_state) option" where
  "nh_block 0 env s = None"
| "nh_block (Suc n) env s = (case read_my_msgQ (nd_loads (nh_node env)) ''NodeDataMsgHandler'' (nh_q s) of
     (Blocked, _) \<Rightarrow> None
   | (Got (m, _), q) \<Rightarrow>
       (case (if m \<noteq> PNone then nh_process_msg env m else ret ()) (s\<lparr>nh_q := q\<rparr>) of
          (Inl e, s') \<Rightarrow> Some (Inl e, s')
        | (Inr _, s') \<Rightarrow> (case is_my_msgQ_empty ''NodeDataMsgHandler'' (nh_q s') of
            (Inl e, _) \<Rightarrow> Some (Inl e, s')
          | (Inr True, _) \<Rightarrow> Some (Inr (), s')
          | (Inr False, _) \<Rightarrow> nh_block n env s')))"

definition nh_run :: "nat \<Rightarrow> nh_env \<Rightarrow> (nat \<Rightarrow> (pyv \<times> nat option) list) \<Rightarrow> nh_state \<Rightarrow> (unit res \<times> nh_state) option" where
  "nh_run fuel env arrivals s = (if nh_suspended s then Some (Inr (), s\<lparr>nh_schedule := nh_schedule s @ [1]\<rparr>)
     else map_option (\<lambda>(_, s'). (Inr (), s'\<lparr>nh_schedule := nh_schedule s' @ [1]\<rparr>))
       (case ensure_sensor env s of
          (Inl e, s') \<Rightarrow> Some (Inl e, s')
        | (Inr _, s') \<Rightarrow> if 0 < transmit_interval env then Some (nh_periodic env arrivals s') else nh_block fuel env s'))"

definition nh_suspend :: "nh_state \<Rightarrow> nh_state" where
  "nh_suspend s = s\<lparr>nh_suspended := True\<rparr>"

definition nh_resume :: "nh_state \<Rightarrow> nh_state" where
  "nh_resume s = s\<lparr>nh_suspended := False\<rparr>"

section \<open>Messages that can be sent\<close>

definition sendable :: "pyv \<Rightarrow> bool" where
  "sendable m \<longleftrightarrow> json_able m \<and> (\<exists>d e h r i. m = PDict d \<and> map_of d ''message'' = Some (PDict e) \<and>
     map_of e ''sspl_ll_msg_header'' = Some (PDict h) \<and> map_of e ''sensor_response_type'' = Some (PDict r) \<and>
     map_of r ''info'' = Some (PDict i))"

lemma with_uuid_sendable:
  assumes "sendable m" and "json_able u"
  shows "\<exists>m'. with_uuid u m = Inr m' \<and> sendable m'"
proof -
  obtain d e h r i where m: "m = PDict d" "map_of d ''message'' = Some (PDict e)" "map_of e ''sspl_ll_msg_header'' = Some (PDict h)"
      "map_of e ''sensor_response_type'' = Some (PDict r)" "map_of r ''info'' = Some (PDict i)" "json_able (PDict d)"
    using assms(1) by (auto simp: sendable_def)
  have je: "json_able (PDict e)" by (rule json_able_map_of [OF m(6,2)])
  then have "json_able (PDict h)" by (rule json_able_map_of [OF _ m(3)])
  then have "json_able (PDict (AList.update ''message''
      (PDict (AList.update ''sspl_ll_msg_header'' (PDict (AList.update ''uuid'' u h)) e)) d))"
    using m(6) je assms(2) by (intro json_able_update)
  with m assms(1) show ?thesis by (auto simp: with_uuid_def set_uuid_def sendable_def simp del: json_able.simps)
qed

lemma json_text_run:
  assumes "msg_env_ok (nh_msgs env)" and "sendable m" and "json_able (nh_uuid s)"
  shows "\<exists>t. json_text env (Inr m) s = (Inr (PStr t), s)"
proof -
  obtain m' where m': "with_uuid (nh_uuid s) m = Inr m'" "sendable m'" using with_uuid_sendable [OF assms(2,3)] by blast
  then obtain i where "get_items m' [''message'', ''sensor_response_type'', ''info''] = Inr (PDict i)" "json_able m'"
    by (auto simp: sendable_def)
  then obtain j where "sensor_getJson (nh_msgs env) m' = Inr j" using sensor_getJson_total [OF assms(1)] by blast
  with m'(1) show ?thesis by (simp add: json_text_def py_exec)
qed

lemma nh_send_run:
  assumes "msg_env_ok (nh_msgs env)" and "sendable m" and "json_able (nh_uuid s)" and "has_queue ''EgressProcessor'' (nh_q s)"
  shows "\<exists>t q. send_and_remember env key item a (Inr m) s = (Inr (),
      s\<lparr>os_sensor_type := AList.update key (PStr t) (os_sensor_type s), nh_q := q, nh_raised := nh_raised s @ [(item, a)]\<rparr>) \<and>
    has_queue ''EgressProcessor'' q"
proof -
  obtain t where t: "json_text env (Inr m) s = (Inr (PStr t), s)" using json_text_run [OF assms(1-3)] by blast
  obtain ms where "map_of (msgQlist (nh_q s)) ''EgressProcessor'' = Some ms" using assms(4) by (auto simp: has_queue_def)
  with t show ?thesis
    by (intro exI [of _ t] exI [of _ "(nh_q s)\<lparr>msgQlist := AList.update ''EgressProcessor'' (ms @ [(PStr t, None)]) (msgQlist (nh_q s))\<rparr>"])
      (simp add: send_and_remember_def py_exec on_nh_q_def write_internal_msgQ_def has_queue_def)
qed

section \<open>Readings\<close>

definition a_number :: "pyv \<Rightarrow> bool" where
  "a_number v \<longleftrightarrow> (\<exists>x. num_of v = Inr x \<and> x \<noteq> NaN)"

definition good_interface :: "pyv \<Rightarrow> bool" where
  "good_interface v \<longleftrightarrow> (\<exists>d n st cb. v = PDict d \<and> map_of d ''ifId'' = Some (PStr n) \<and> map_of d ''nwStatus'' = Some (PStr st) \<and>
     map_of d ''nwCableConnStatus'' = Some (PStr cb))"

text \<open>What a reading of a part of the node data gives.\<close>

definition good_reading :: "string \<Rightarrow> (string \<Rightarrow> pyv) \<Rightarrow> bool" where
  "good_reading part a \<longleftrightarrow> (\<forall>n. json_able (a n)) \<and> (part = ''cpu_data'' \<longrightarrow> a_number (a ''cpu_usage'')) \<and>
     (part = ''host_update'' \<longrightarrow> (\<exists>d v. a ''total_memory'' = PDict d \<and> map_of d ''percent'' = Some v \<and> a_number v)) \<and>
     (part = ''disk_space_alert'' \<longrightarrow> a_number (a ''disk_used_percentage'')) \<and>
     (part = ''if_data'' \<longrightarrow> (\<exists>xs. a ''if_data'' = PList xs \<and> (\<forall>x \<in> set xs. good_interface x)))"

definition readings_ok :: "nh_env \<Rightarrow> bool" where
  "readings_ok env \<longleftrightarrow> (\<forall>k part. \<exists>b a. nh_read env k part = (Inr b, a) \<and> good_reading part a)"

definition good_threshold :: "nh_env \<Rightarrow> pyv \<Rightarrow> bool" where
  "good_threshold env v \<longleftrightarrow> a_number (read_threshold env v) \<and> read_threshold env (read_threshold env v) = read_threshold env v"

lemma py_compare:
  assumes "a_number v" and "a_number w"
  shows "py_lt v w = Inr (\<not> (py_ge v w = Inr True))" "\<exists>b. py_ge v w = Inr b" "\<exists>b. py_le v w = Inr b"
  using assms py_lt_not_ge [of v _ w] by (auto simp: a_number_def py_le_def)

text \<open>The state in which the handler can send.\<close>

definition nh_ready :: "nh_env \<Rightarrow> nh_state \<Rightarrow> bool" where
  "nh_ready env s \<longleftrightarrow> msg_env_ok (nh_msgs env) \<and> readings_ok env \<and> has_queue ''EgressProcessor'' (nh_q s) \<and>
     json_able (nh_uuid s) \<and> (\<exists>a. node_sensor s = Some a \<and> (\<forall>n. json_able (a n)))"

lemma read_data_run:
  assumes "nh_ready env s"
  shows "\<exists>b a. nh_read env (nh_reads s) part = (Inr b, a) \<and> good_reading part a \<and>
    read_data env part s = (Inr b, s\<lparr>nh_reads := nh_reads s + 1, node_sensor := Some a\<rparr>) \<and>
    nh_ready env (s\<lparr>nh_reads := nh_reads s + 1, node_sensor := Some a\<rparr>)"
proof -
  obtain b a where "nh_read env (nh_reads s) part = (Inr b, a)" "good_reading part a"
    using assms unfolding nh_ready_def readings_ok_def by blast
  then show ?thesis using assms by (auto simp: nh_ready_def read_data_def good_reading_def)
qed

lemma json_able_zip: "list_all json_able vs \<Longrightarrow> json_able (PDict (zip ks vs))"
  by (auto simp: list_all_iff dest: set_zip_rightD)

lemma sendable_usage:
  assumes "json_able host" and "json_able (PDict sp)"
  shows "sendable (stamped_envelope now [sspl_ll_msg_header [], usage_response now' salt rt host a e sp])"
    "sendable (stamped_envelope now [header_version_first, usage_response now' salt rt host a e sp])"
  using assms
  by (auto simp: sendable_def stamped_envelope_def sspl_ll_msg_header_def header_version_first_def usage_response_def)

lemma sensor_attrs_run:
  assumes "node_sensor s = Some a"
  shows "sensor_attrs ns s = Inr (map a ns)"
  using assms by (induction ns) (auto simp: sensor_attrs_def sensor_attr_def)

text \<open>What sending changes.\<close>

definition sent :: "string \<Rightarrow> string \<Rightarrow> nh_state \<Rightarrow> nh_state \<Rightarrow> bool" where
  "sent item a s s' \<longleftrightarrow> (\<exists>tk os q. s' = s\<lparr>nh_ticks := tk, os_sensor_type := os, nh_q := q, nh_raised := nh_raised s @ [(item, a)]\<rparr> \<and>
     has_queue ''EgressProcessor'' q)"

lemma send_sent:
  assumes "nh_ready env s" and "sendable m"
  shows "\<exists>s'. send_and_remember env key item a (Inr m) (s\<lparr>nh_ticks := tk\<rparr>) = (Inr (), s') \<and> sent item a s s'"
proof -
  have "json_able (nh_uuid (s\<lparr>nh_ticks := tk\<rparr>))" "has_queue ''EgressProcessor'' (nh_q (s\<lparr>nh_ticks := tk\<rparr>))"
      "msg_env_ok (nh_msgs env)" using assms(1) by (simp_all add: nh_ready_def)
  from nh_send_run [OF this(3) assms(2) this(1,2), of key item a] show ?thesis by (force simp: sent_def)
qed

lemma cpu_data_sent:
  assumes "nh_ready env s"
  shows "\<exists>s'. cpu_data_send env a e s = (Inr (), s') \<and> sent ''cpu'' a s s'"
proof -
  obtain at where at: "node_sensor s = Some at" "\<And>n. json_able (at n)" using assms by (auto simp: nh_ready_def)
  have "sensor_schema (nh_msgs env) = Inr (\<lambda>_. None)" using assms by (simp add: nh_ready_def msg_env_ok_def)
  with at show ?thesis
    by (simp add: cpu_data_send_def py_exec sensor_attrs_run nh_clock_def CPUdataMsg_def with_schema_def)
      (rule send_sent [OF assms sendable_usage(1)], simp_all)
qed

lemma host_update_sent:
  assumes "nh_ready env s"
  shows "\<exists>s'. host_update_send env a e s = (Inr (), s') \<and> sent ''memory'' a s s'"
proof -
  obtain at where at: "node_sensor s = Some at" "\<And>n. json_able (at n)" using assms by (auto simp: nh_ready_def)
  have "sensor_schema (nh_msgs env) = Inr (\<lambda>_. None)" using assms by (simp add: nh_ready_def msg_env_ok_def)
  with at show ?thesis
    by (simp add: host_update_send_def py_exec sensor_attrs_run nh_clock_def HostUpdateMsg_def with_schema_def)
      (rule send_sent [OF assms sendable_usage(1)], simp_all)
qed

lemma disk_space_sent:
  assumes "nh_ready env s" and "json_able (nh_units env)"
  shows "\<exists>s'. disk_space_send env a e s = (Inr (), s') \<and> sent ''disk'' a s s'"
proof -
  obtain at where at: "node_sensor s = Some at" "\<And>n. json_able (at n)" using assms by (auto simp: nh_ready_def)
  have "sensor_schema (nh_msgs env) = Inr (\<lambda>_. None)" using assms by (simp add: nh_ready_def msg_env_ok_def)
  with at show ?thesis
    by (simp add: disk_space_send_def py_exec sensor_attrs_run nh_clock_def DiskSpaceAlertMsg_def with_schema_def)
      (rule send_sent [OF assms(1) sendable_usage(2)], simp_all add: assms(2))
qed

section \<open>The check of a usage refines its specification\<close>

text \<open>
  The abstract state of a monitor: whether a fault is outstanding, the time since which the usage counts as high
  (-1 when unknown) and the number of checks below the threshold since the fault.
\<close>

type_synonym usage = "bool \<times> int \<times> int"

definition usage_spec :: "int \<Rightarrow> int \<Rightarrow> usage \<Rightarrow> int \<Rightarrow> bool \<Rightarrow> usage \<times> string list" where
  "usage_spec wait limit u now over = (case u of (high, since, iters) \<Rightarrow>
     if over then
       if high then (u, [])
       else let start = (if since = -1 then now else since) in
         if now - start \<ge> wait then ((True, now, 0), [''fault'']) else ((False, start, iters), [])
     else if \<not> high then ((False, now, iters), [])
     else if iters < limit then ((True, now, iters + 1), [])
     else ((False, -1, 0), [''fault_resolved'']))"

definition usage_inv :: "nh_env \<Rightarrow> string \<Rightarrow> string \<Rightarrow> usage \<Rightarrow> nh_state \<Rightarrow> bool" where
  "usage_inv env res path u s \<longleftrightarrow> (case u of (high, since, iters) \<Rightarrow>
     high_usage s res = high \<and> fs_wf (nh_fs s) \<and> writable (nh_fs s) (usage_path env path) \<and>
     store_get (nh_fs s) (usage_path env path) = usage_record res high since iters \<and>
     (\<not> high \<longrightarrow> iters = 0 \<and> fault_resolved_iterations s res = 0))"

text \<open>What a check of one resource leaves as it was.\<close>

definition nh_frame :: "nh_env \<Rightarrow> string \<Rightarrow> string \<Rightarrow> nh_state \<Rightarrow> nh_state \<Rightarrow> bool" where
  "nh_frame env res path s s' \<longleftrightarrow>
     (\<forall>r. r \<noteq> res \<longrightarrow> high_usage s' r = high_usage s r \<and> fault_resolved_iterations s' r = fault_resolved_iterations s r) \<and>
     (fs_wf (nh_fs s) \<longrightarrow> writable (nh_fs s) (usage_path env path) \<longrightarrow> fs_wf (nh_fs s') \<and> writable (nh_fs s') (usage_path env path) \<and>
        (\<forall>k. k \<noteq> usage_path env path \<longrightarrow> store_get (nh_fs s') k = store_get (nh_fs s) k) \<and>
        (\<forall>k. writable (nh_fs s) k \<longrightarrow> indep (usage_path env path) k \<longrightarrow> writable (nh_fs s') k)) \<and>
     (res \<noteq> ''nw'' \<longrightarrow> prev_nw_if_status s' = prev_nw_if_status s \<and> prev_cable_status s' = prev_cable_status s) \<and>
     cpu_usage_threshold s' = cpu_usage_threshold s \<and> host_memory_usage_threshold s' = host_memory_usage_threshold s \<and>
     disk_usage_threshold s' = disk_usage_threshold s \<and> node_sensor s' = node_sensor s \<and> nh_uuid s' = nh_uuid s \<and>
     nh_reads s' = nh_reads s \<and> (has_queue ''EgressProcessor'' (nh_q s) \<longrightarrow> has_queue ''EgressProcessor'' (nh_q s'))"

lemma nh_frame_refl: "nh_frame env res path s s"
  by (simp add: nh_frame_def)

lemma nh_frame_trans: "nh_frame env res path s s' \<Longrightarrow> nh_frame env res path s' s'' \<Longrightarrow> nh_frame env res path s s''"
  unfolding nh_frame_def by auto

lemma nh_frame_ready: "nh_frame env res path s s' \<Longrightarrow> nh_ready env s \<Longrightarrow> nh_ready env s'"
  by (simp add: nh_frame_def nh_ready_def)

lemma sent_frame: "sent item a s s' \<Longrightarrow> nh_frame env res path s s'"
  by (auto simp: sent_def nh_frame_def)

lemma sent_raised: "sent item a s s' \<Longrightarrow> nh_raised s' = nh_raised s @ [(item, a)] \<and> nh_fs s' = nh_fs s \<and> high_usage s' = high_usage s \<and>
    usage_time_map s' = usage_time_map s \<and> fault_resolved_iterations s' = fault_resolved_iterations s"
  by (auto simp: sent_def)

lemma persist_run:
  assumes "fs_wf (nh_fs s)" and "writable (nh_fs s) (usage_path env path)" and "res \<noteq> ''nw''"
  shows "\<exists>s'. persist_state_data env res path s = (Inr (), s') \<and> nh_frame env res path s s' \<and> nh_raised s' = nh_raised s \<and> nh_ticks s' = nh_ticks s \<and>
    high_usage s' = high_usage s \<and> fault_resolved_iterations s' = fault_resolved_iterations s \<and> usage_time_map s' = usage_time_map s \<and>
    fs_wf (nh_fs s') \<and> writable (nh_fs s') (usage_path env path) \<and>
    store_get (nh_fs s') (usage_path env path) =
      usage_record res (high_usage s res) (usage_time_map s res) (fault_resolved_iterations s res)"
proof -
  let ?d = "usage_record res (high_usage s res) (usage_time_map s res) (fault_resolved_iterations s res)"
  let ?f = "store_put ?d (usage_path env path) True (nh_fs s)"
  let ?s = "s\<lparr>persistent_data := (persistent_data s)(res := ?d), nh_fs := ?f\<rparr>"
  have f: "fs_wf ?f" "writable ?f (usage_path env path)" "\<And>k. store_get ?f k = (if k = usage_path env path then ?d else store_get (nh_fs s) k)"
    using assms by (simp_all add: store_put_wf writable_put_same store_get_put_pickled)
  moreover have "nh_frame env res path s ?s"
    using f assms(2) by (auto simp: nh_frame_def intro: writable_put)
  ultimately show ?thesis
    using assms(3) by (intro exI [of _ ?s]) (simp add: persist_state_data_def py_exec Let_def)
qed

lemma stored_usage:
  "stored_int (usage_record res high since iters) (res @ ''_usage_time_map'') d = Inr since"
  "stored_int (usage_record res high since iters) (res @ ''_fault_resolved_iterations'') d = Inr iters"
  "getitem (usage_record res high since iters) (''high_'' @ res @ ''_usage'') = Inr (PStr (bool_text high))"
proof -
  have "res @ ''_usage_time_map'' \<noteq> ''high_'' @ res @ ''_usage''" (is "?a \<noteq> ?b")
  proof
    assume "?a = ?b"
    then have "last ?a = last ?b" by simp
    then show False by simp
  qed
  moreover have "res @ ''_fault_resolved_iterations'' \<noteq> ''high_'' @ res @ ''_usage''" (is "?a \<noteq> ?b")
  proof
    assume "?a = ?b"
    then have "last ?a = last ?b" by simp
    then show False by simp
  qed
  ultimately show "stored_int (usage_record res high since iters) (res @ ''_usage_time_map'') d = Inr since"
    "stored_int (usage_record res high since iters) (res @ ''_fault_resolved_iterations'') d = Inr iters"
    "getitem (usage_record res high since iters) (''high_'' @ res @ ''_usage'') = Inr (PStr (bool_text high))"
    by (auto simp: stored_int_def usage_record_def py_int_str_int)
qed

lemma usage_isfile:
  "usage_inv env res path u s \<Longrightarrow> isfile (nh_fs s) (usage_path env path) \<and>
    read_persistent_data env path s = usage_record res (fst u) (fst (snd u)) (snd (snd u))"
  by (auto simp: usage_inv_def read_persistent_data_def fs_wf_get isfile_def usage_record_def split: option.splits)

text \<open>
  What the check needs of a resource: its alerts can be sent. CPU and memory are two instances.
\<close>

locale usage_monitor =
  fixes env :: nh_env and res :: string and path :: string and send :: "string \<Rightarrow> string \<Rightarrow> (nh_state, unit) proc"
  assumes not_nw: "res \<noteq> ''nw''"
    and send_ok: "nh_ready env s \<Longrightarrow> \<exists>s'. send a e s = (Inr (), s') \<and> sent res a s s'"
begin

text \<open>Setting the flags of the resource and then storing them.\<close>

lemma set_and_persist:
  assumes "fs_wf (nh_fs s)" and "writable (nh_fs s) (usage_path env path)" and "\<not> h \<longrightarrow> it = 0"
  shows "\<exists>s'. persist_state_data env res path (s\<lparr>high_usage := (high_usage s)(res := h), usage_time_map := (usage_time_map s)(res := t),
      fault_resolved_iterations := (fault_resolved_iterations s)(res := it)\<rparr>) = (Inr (), s') \<and>
    usage_inv env res path (h, t, it) s' \<and> nh_frame env res path s s' \<and> nh_raised s' = nh_raised s \<and> usage_time_map s' res = t \<and>
    nh_ticks s' = nh_ticks s"
proof -
  let ?s = "s\<lparr>high_usage := (high_usage s)(res := h), usage_time_map := (usage_time_map s)(res := t),
      fault_resolved_iterations := (fault_resolved_iterations s)(res := it)\<rparr>"
  have fr: "nh_frame env res path s ?s" by (simp add: nh_frame_def)
  obtain s' where s': "persist_state_data env res path ?s = (Inr (), s')" "nh_frame env res path ?s s'" "nh_raised s' = nh_raised ?s \<and> nh_ticks s' = nh_ticks ?s"
      "high_usage s' = high_usage ?s" "fault_resolved_iterations s' = fault_resolved_iterations ?s" "usage_time_map s' = usage_time_map ?s"
      "fs_wf (nh_fs s')" "writable (nh_fs s') (usage_path env path)"
      "store_get (nh_fs s') (usage_path env path) = usage_record res (high_usage ?s res) (usage_time_map ?s res) (fault_resolved_iterations ?s res)"
    using persist_run [of ?s env path res] assms not_nw by auto
  have "usage_inv env res path (h, t, it) s'" using s'(4,5,7-9) assms(3) by (simp add: usage_inv_def)
  with s'(1,3,6) nh_frame_trans [OF fr s'(2)] show ?thesis by (intro exI [of _ s']) simp
qed

lemma same_flags:
  assumes "high_usage s res = h" and "usage_time_map s res = t" and "fault_resolved_iterations s res = it"
  shows "s\<lparr>high_usage := (high_usage s)(res := h), usage_time_map := (usage_time_map s)(res := t),
      fault_resolved_iterations := (fault_resolved_iterations s)(res := it)\<rparr> = s"
  using assms by (auto simp: fun_upd_idem)

lemma fault_run:
  assumes "nh_ready env s" and "fs_wf (nh_fs s)" and "writable (nh_fs s) (usage_path env path)" and "usage_time_map s res = now"
  shows "\<exists>s'. seqp (modp (\<lambda>s. s\<lparr>high_usage := (high_usage s)(res := True),
      fault_resolved_iterations := (fault_resolved_iterations s)(res := 0)\<rparr>)) (seqp (send ''fault'' e) (persist_state_data env res path)) s = (Inr (), s') \<and>
    usage_inv env res path (True, now, 0) s' \<and> nh_frame env res path s s' \<and> nh_raised s' = nh_raised s @ [(res, ''fault'')]"
proof -
  let ?s1 = "s\<lparr>high_usage := (high_usage s)(res := True), fault_resolved_iterations := (fault_resolved_iterations s)(res := 0)\<rparr>"
  have fr: "nh_frame env res path s ?s1" by (simp add: nh_frame_def)
  obtain s2 where s2: "send ''fault'' e ?s1 = (Inr (), s2)" "sent res ''fault'' ?s1 s2"
    using send_ok [OF nh_frame_ready [OF fr assms(1)]] by blast
  have eq: "s2\<lparr>high_usage := (high_usage s2)(res := True), usage_time_map := (usage_time_map s2)(res := now),
      fault_resolved_iterations := (fault_resolved_iterations s2)(res := 0)\<rparr> = s2"
    using sent_raised [OF s2(2)] assms(4) by (intro same_flags) simp_all
  obtain s3 where "persist_state_data env res path s2 = (Inr (), s3)" "usage_inv env res path (True, now, 0) s3" "nh_frame env res path s2 s3"
      "nh_raised s3 = nh_raised s2"
    using set_and_persist [of s2 True 0 now] sent_raised [OF s2(2)] assms(2,3) unfolding eq by auto
  with s2(1) fr sent_frame [OF s2(2), of env res path] sent_raised [OF s2(2)] show ?thesis
    by (intro exI [of _ s3]) (auto simp: seqp_def bindp_def modp_def intro: nh_frame_trans)
qed

lemma resolved_run:
  assumes "nh_ready env s" and "fs_wf (nh_fs s)" and "writable (nh_fs s) (usage_path env path)"
  shows "\<exists>s'. seqp (send ''fault_resolved'' e) (seqp (modp (\<lambda>s. s\<lparr>high_usage := (high_usage s)(res := False), usage_time_map := (usage_time_map s)(res := -1),
      fault_resolved_iterations := (fault_resolved_iterations s)(res := 0)\<rparr>)) (persist_state_data env res path)) s = (Inr (), s') \<and>
    usage_inv env res path (False, -1, 0) s' \<and> nh_frame env res path s s' \<and> nh_raised s' = nh_raised s @ [(res, ''fault_resolved'')]"
proof -
  obtain s2 where s2: "send ''fault_resolved'' e s = (Inr (), s2)" "sent res ''fault_resolved'' s s2"
    using send_ok [OF assms(1)] by blast
  obtain s3 where "persist_state_data env res path (s2\<lparr>high_usage := (high_usage s2)(res := False), usage_time_map := (usage_time_map s2)(res := -1),
      fault_resolved_iterations := (fault_resolved_iterations s2)(res := 0)\<rparr>) = (Inr (), s3)"
      "usage_inv env res path (False, -1, 0) s3" "nh_frame env res path s2 s3" "nh_raised s3 = nh_raised s2"
    using set_and_persist [of s2 False 0 "-1"] sent_raised [OF s2(2)] assms(2,3) by auto
  with s2(1) sent_frame [OF s2(2), of env res path] sent_raised [OF s2(2)] show ?thesis
    by (intro exI [of _ s3]) (auto simp: seqp_def bindp_def modp_def intro: nh_frame_trans)
qed

text \<open>The first half of the check, for a usage at or above the threshold while no fault is outstanding.\<close>

lemma rising_run:
  assumes "nh_ready env s" and "usage_inv env res path (False, since, iters) s" and "usage_time_map s res = now"
    and "usage_spec wait limit (False, since, iters) now True = (u', out)"
  shows "\<exists>s'. seqp (if since = -1 then persist_state_data env res path else ret ())
      (if now - (if since = -1 then now else since) \<ge> wait then
         seqp (modp (\<lambda>s. s\<lparr>high_usage := (high_usage s)(res := True), fault_resolved_iterations := (fault_resolved_iterations s)(res := 0)\<rparr>))
           (seqp (send ''fault'' e) (persist_state_data env res path)) else ret ()) s = (Inr (), s') \<and>
    usage_inv env res path u' s' \<and> nh_frame env res path s s' \<and> nh_raised s' = nh_raised s @ map (Pair res) out \<and> (out = [] \<longrightarrow> nh_ticks s' = nh_ticks s)"
proof -
  have f: "fs_wf (nh_fs s)" "writable (nh_fs s) (usage_path env path)" "high_usage s res = False" "fault_resolved_iterations s res = 0" "iters = 0"
    using assms(2) by (simp_all add: usage_inv_def)
  let ?start = "if since = -1 then now else since"
  obtain s1 where s1: "(if since = -1 then persist_state_data env res path else ret ()) s = (Inr (), s1)" "nh_frame env res path s s1"
      "usage_inv env res path (False, ?start, 0) s1" "usage_time_map s1 res = now" "nh_raised s1 = nh_raised s \<and> nh_ticks s1 = nh_ticks s"
  proof (cases "since = -1")
    case True
    have eq: "s\<lparr>high_usage := (high_usage s)(res := False), usage_time_map := (usage_time_map s)(res := now),
        fault_resolved_iterations := (fault_resolved_iterations s)(res := 0)\<rparr> = s"
      by (rule same_flags [OF f(3) assms(3) f(4)])
    from set_and_persist [of s False 0 now, unfolded eq] f(1,2) obtain s1 where "persist_state_data env res path s = (Inr (), s1)"
        "usage_inv env res path (False, now, 0) s1" "nh_frame env res path s s1" "nh_raised s1 = nh_raised s" "usage_time_map s1 res = now" "nh_ticks s1 = nh_ticks s" by blast
    with True show ?thesis by (intro that [of s1]) simp_all
  next
    case False
    then show ?thesis using that [of s] assms f by (simp add: ret_def nh_frame_refl)
  qed
  show ?thesis
  proof (cases "now - ?start \<ge> wait")
    case True
    have "fs_wf (nh_fs s1)" "writable (nh_fs s1) (usage_path env path)" using s1(3) by (simp_all add: usage_inv_def)
    from fault_run [OF nh_frame_ready [OF s1(2) assms(1)] this s1(4), of e] obtain s2 where
      "seqp (modp (\<lambda>s. s\<lparr>high_usage := (high_usage s)(res := True), fault_resolved_iterations := (fault_resolved_iterations s)(res := 0)\<rparr>))
         (seqp (send ''fault'' e) (persist_state_data env res path)) s1 = (Inr (), s2)"
      "usage_inv env res path (True, now, 0) s2" "nh_frame env res path s1 s2" "nh_raised s2 = nh_raised s1 @ [(res, ''fault'')]" by blast
    with True s1 assms(4) show ?thesis
      by (intro exI [of _ s2]) (auto simp: seqp_def [of "if _ then _ else _"] bindp_def usage_spec_def Let_def intro: nh_frame_trans)
  next
    case False
    with s1 assms(4) f(5) show ?thesis
      by (intro exI [of _ s1]) (auto simp: seqp_def bindp_def ret_def usage_spec_def Let_def)
  qed
qed

text \<open>The second half, for a usage below the threshold.\<close>

lemma falling_run:
  assumes ready: "nh_ready env s" and inv: "usage_inv env res path (high, since, iters) s" and now: "usage_time_map s res = now"
    and spec: "usage_spec wait limit (high, since, iters) now False = (u', out)"
  shows "\<exists>s'. (if \<not> high_usage s res then persist_state_data env res path
        else if iters < limit then
          seqp (modp (\<lambda>s. s\<lparr>fault_resolved_iterations := (fault_resolved_iterations s)(res := iters + 1)\<rparr>))
               (persist_state_data env res path)
        else
          seqp (send ''fault_resolved'' e)
          (seqp (modp (\<lambda>s. s\<lparr>high_usage := (high_usage s)(res := False), usage_time_map := (usage_time_map s)(res := -1),
                 fault_resolved_iterations := (fault_resolved_iterations s)(res := 0)\<rparr>))
                (persist_state_data env res path))) s = (Inr (), s') \<and>
    usage_inv env res path u' s' \<and> nh_frame env res path s s' \<and> nh_raised s' = nh_raised s @ map (Pair res) out \<and> (out = [] \<longrightarrow> nh_ticks s' = nh_ticks s)"
proof -
  have f: "fs_wf (nh_fs s)" "writable (nh_fs s) (usage_path env path)" "high_usage s res = high" using inv by (simp_all add: usage_inv_def)
  consider "\<not> high" | "high" "iters < limit" | "high" "\<not> iters < limit" by blast
  then show ?thesis
  proof cases
    case 1
    then have it: "iters = 0" "fault_resolved_iterations s res = 0" using inv by (simp_all add: usage_inv_def)
    have eq: "s\<lparr>high_usage := (high_usage s)(res := False), usage_time_map := (usage_time_map s)(res := now),
        fault_resolved_iterations := (fault_resolved_iterations s)(res := 0)\<rparr> = s"
      using f(3) 1 it now by (intro same_flags) simp_all
    from set_and_persist [OF f(1,2), of False 0 now, unfolded eq] 1 spec it f(3) show ?thesis by (auto simp: usage_spec_def)
  next
    case 2
    have eq: "s\<lparr>high_usage := (high_usage s)(res := True), usage_time_map := (usage_time_map s)(res := now),
        fault_resolved_iterations := (fault_resolved_iterations s)(res := iters + 1)\<rparr> =
        s\<lparr>fault_resolved_iterations := (fault_resolved_iterations s)(res := iters + 1)\<rparr>"
      using f(3) 2 now by (auto simp: fun_upd_idem)
    from set_and_persist [OF f(1,2), of True "iters + 1" now, unfolded eq] 2 spec f(3) show ?thesis
      by (auto simp: usage_spec_def seqp_def bindp_def modp_def)
  next
    case 3
    with resolved_run [OF ready f(1,2), of e] spec f(3) show ?thesis by (auto simp: usage_spec_def)
  qed
qed

lemma check_run:
  assumes ready: "nh_ready env s" and inv: "usage_inv env res path u s" and pct: "\<And>s'. node_sensor s' = node_sensor s \<Longrightarrow> pct s' = Inr p"
    and num: "a_number p" "a_number thr" "py_ge p thr = Inr over"
    and spec: "usage_spec wait (iteration_limit env wait) u now over = (u', out)"
  shows "\<exists>s'. check_usage env res path wait now pct thr send ft rt s = (Inr (), s') \<and> usage_inv env res path u' s' \<and>
    nh_frame env res path s s' \<and> nh_raised s' = nh_raised s @ map (Pair res) out \<and> (out = [] \<longrightarrow> nh_ticks s' = nh_ticks s)"
proof -
  obtain high since iters where u: "u = (high, since, iters)" by (cases u)
  let ?s = "s\<lparr>usage_time_map := (usage_time_map s)(res := now)\<rparr>"
  let ?rise = "seqp (if since = -1 then persist_state_data env res path else ret ())
      (if now - (if since = -1 then now else since) \<ge> wait then
         seqp (modp (\<lambda>s. s\<lparr>high_usage := (high_usage s)(res := True), fault_resolved_iterations := (fault_resolved_iterations s)(res := 0)\<rparr>))
           (seqp (send ''fault'' (ft p)) (persist_state_data env res path)) else ret ())"
  let ?fall = "\<lambda>s. (if \<not> high_usage s res then persist_state_data env res path
        else if iters < iteration_limit env wait then
          seqp (modp (\<lambda>s. s\<lparr>fault_resolved_iterations := (fault_resolved_iterations s)(res := iters + 1)\<rparr>))
               (persist_state_data env res path)
        else
          seqp (send ''fault_resolved'' (rt p))
          (seqp (modp (\<lambda>s. s\<lparr>high_usage := (high_usage s)(res := False), usage_time_map := (usage_time_map s)(res := -1),
                 fault_resolved_iterations := (fault_resolved_iterations s)(res := 0)\<rparr>))
                (persist_state_data env res path))) s"
  have fr: "nh_frame env res path s ?s" by (simp add: nh_frame_def)
  have inv': "usage_inv env res path (high, since, iters) ?s" using inv u by (simp add: usage_inv_def)
  have ready': "nh_ready env ?s" by (rule nh_frame_ready [OF fr ready])
  have high: "high_usage s res = high" using inv by (simp add: usage_inv_def u)
  have lt: "py_lt p thr = Inr (\<not> over)" using py_compare(1) [OF num(1,2)] num(3) by simp
  have p: "pct ?s = Inr p" by (rule pct) simp
  note start = usage_isfile [OF inv] stored_usage
  have run: "check_usage env res path wait now pct thr send ft rt s =
     seqp (if over \<and> \<not> high then ?rise else ret ()) (\<lambda>s1. (if over then ret () else ?fall) s1) ?s"
    using start u p num(3) lt high
    by (simp add: check_usage_def bindp_run seqp_run getp_def modp_def bindp_liftp if_distrib [of "\<lambda>m. m _"] split del: if_split)
  have frame: "nh_frame env res path s s'" if "nh_frame env res path ?s s'" for s' by (rule nh_frame_trans [OF fr that])
  show ?thesis
  proof (cases over)
    case True
    then show ?thesis
      using rising_run [OF ready', of since iters now wait "iteration_limit env wait" u' out "ft p"] inv' spec u frame fr
      unfolding run by (cases high) (auto simp: seqp_run ret_def usage_spec_def)
  next
    case False
    then show ?thesis
      using falling_run [OF ready' inv', of now wait "iteration_limit env wait" u' out "rt p"] spec u frame
      unfolding run by (auto simp: seqp_run ret_def)
  qed
qed

end

interpretation cpu_mon: usage_monitor env "''cpu''" "''CPU_USAGE_DATA''" "cpu_data_send env" for env
  by unfold_locales (simp_all add: cpu_data_sent)

interpretation mem_mon: usage_monitor env "''memory''" "''MEMORY_USAGE_DATA''" "host_update_send env" for env
  by unfold_locales (simp_all add: host_update_sent)

definition cpu_over :: "nh_env \<Rightarrow> nh_state \<Rightarrow> bool" where
  "cpu_over env s = (py_ge (snd (nh_read env (nh_reads s) ''cpu_data'') ''cpu_usage'') (read_threshold env (cpu_usage_threshold s)) = Inr True)"

definition memory_over :: "nh_env \<Rightarrow> nh_state \<Rightarrow> bool" where
  "memory_over env s = (bindr (getitem (snd (nh_read env (nh_reads s) ''host_update'') ''total_memory'') ''percent'')
     (\<lambda>p. py_ge p (read_threshold env (host_memory_usage_threshold s))) = Inr True)"

lemma good_threshold_number: "good_threshold env v \<Longrightarrow> a_number (read_threshold env v)"
  by (simp add: good_threshold_def)

lemma generate_cpu_run:
  assumes "nh_ready env s" and "usage_inv env ''cpu'' ''CPU_USAGE_DATA'' u s" and "good_threshold env (cpu_usage_threshold s)"
    and spec: "usage_spec (high_cpu_usage_wait_threshold env) (iteration_limit env (high_cpu_usage_wait_threshold env)) u
      (nd_epoch (nh_node env) (nh_ticks s)) (cpu_over env s) = (u', out)"
  shows "\<exists>a s'. (\<forall>n. json_able (a n)) \<and> generate_cpu_data env s = (Inr (), s') \<and> usage_inv env ''cpu'' ''CPU_USAGE_DATA'' u' s' \<and>
    nh_frame env ''cpu'' ''CPU_USAGE_DATA'' (s\<lparr>nh_ticks := nh_ticks s + 1, nh_reads := nh_reads s + 1, node_sensor := Some a,
      cpu_usage_threshold := read_threshold env (cpu_usage_threshold s)\<rparr>) s' \<and> nh_raised s' = nh_raised s @ map (Pair ''cpu'') out \<and>
    (out = [] \<longrightarrow> nh_ticks s' = nh_ticks s + 1)"
proof -
  let ?thr = "read_threshold env (cpu_usage_threshold s)"
  let ?s1 = "s\<lparr>nh_ticks := nh_ticks s + 1\<rparr>"
  have "nh_ready env ?s1" using assms(1) by (simp add: nh_ready_def)
  from read_data_run [OF this, of "''cpu_data''"] obtain b a where
    a: "nh_read env (nh_reads s) ''cpu_data'' = (Inr b, a)" "good_reading ''cpu_data'' a"
      "read_data env ''cpu_data'' ?s1 = (Inr b, ?s1\<lparr>nh_reads := nh_reads s + 1, node_sensor := Some a\<rparr>)" by auto
  let ?s2 = "?s1\<lparr>nh_reads := nh_reads s + 1, node_sensor := Some a, cpu_usage_threshold := ?thr\<rparr>"
  have num: "a_number (a ''cpu_usage'')" "a_number ?thr" "\<forall>n. json_able (a n)" using a(2) assms(3) by (auto simp: good_reading_def good_threshold_def)
  obtain o1 where "py_ge (a ''cpu_usage'') ?thr = Inr o1" using py_compare(2) [OF num(1,2)] by blast
  then have over: "py_ge (a ''cpu_usage'') ?thr = Inr (cpu_over env s)" by (simp add: cpu_over_def a(1))
  have s2: "nh_ready env ?s2" "usage_inv env ''cpu'' ''CPU_USAGE_DATA'' u ?s2"
    using assms(1,2) num(3) by (auto simp: nh_ready_def usage_inv_def)
  have "\<exists>s'. check_usage env ''cpu'' ''CPU_USAGE_DATA'' (high_cpu_usage_wait_threshold env) (nd_epoch (nh_node env) (nh_ticks s))
        (sensor_attr ''cpu_usage'') ?thr (cpu_data_send env) ft rt ?s2 = (Inr (), s') \<and> usage_inv env ''cpu'' ''CPU_USAGE_DATA'' u' s' \<and>
      nh_frame env ''cpu'' ''CPU_USAGE_DATA'' ?s2 s' \<and> nh_raised s' = nh_raised ?s2 @ map (Pair ''cpu'') out \<and>
      (out = [] \<longrightarrow> nh_ticks s' = nh_ticks ?s2)" for ft rt
    by (rule cpu_mon.check_run [OF s2 _ num(1,2) over spec]) (simp add: sensor_attr_def)
  with a(3) num(3) show ?thesis
    by (intro exI [of _ a]) (simp add: generate_cpu_data_def py_exec nh_clock_def)
qed

lemma generate_host_run:
  assumes "nh_ready env s" and "usage_inv env ''memory'' ''MEMORY_USAGE_DATA'' u s" and "good_threshold env (host_memory_usage_threshold s)"
    and spec: "usage_spec (high_memory_usage_wait_threshold env) (iteration_limit env (high_memory_usage_wait_threshold env)) u
      (nd_epoch (nh_node env) (nh_ticks s)) (memory_over env s) = (u', out)"
  shows "\<exists>a s'. (\<forall>n. json_able (a n)) \<and> generate_host_update env s = (Inr (), s') \<and> usage_inv env ''memory'' ''MEMORY_USAGE_DATA'' u' s' \<and>
    nh_frame env ''memory'' ''MEMORY_USAGE_DATA'' (s\<lparr>nh_ticks := nh_ticks s + 1, nh_reads := nh_reads s + 1, node_sensor := Some a,
      host_memory_usage_threshold := read_threshold env (host_memory_usage_threshold s)\<rparr>) s' \<and> nh_raised s' = nh_raised s @ map (Pair ''memory'') out \<and>
    (out = [] \<longrightarrow> nh_ticks s' = nh_ticks s + 1)"
proof -
  let ?thr = "read_threshold env (host_memory_usage_threshold s)"
  let ?s1 = "s\<lparr>nh_ticks := nh_ticks s + 1\<rparr>"
  have "nh_ready env ?s1" using assms(1) by (simp add: nh_ready_def)
  from read_data_run [OF this, of "''host_update''"] obtain b a where
    a: "nh_read env (nh_reads s) ''host_update'' = (Inr b, a)" "good_reading ''host_update'' a"
      "read_data env ''host_update'' ?s1 = (Inr b, ?s1\<lparr>nh_reads := nh_reads s + 1, node_sensor := Some a\<rparr>)" by auto
  let ?s2 = "?s1\<lparr>nh_reads := nh_reads s + 1, node_sensor := Some a, host_memory_usage_threshold := ?thr\<rparr>"
  obtain d p where d: "a ''total_memory'' = PDict d" "map_of d ''percent'' = Some p" "a_number p" and able: "\<forall>n. json_able (a n)"
    using a(2) by (auto simp: good_reading_def)
  have num: "a_number ?thr" using assms(3) by (simp add: good_threshold_def)
  obtain o1 where "py_ge p ?thr = Inr o1" using py_compare(2) [OF d(3) num] by blast
  then have over: "py_ge p ?thr = Inr (memory_over env s)" by (simp add: memory_over_def a(1) d)
  have s2: "nh_ready env ?s2" "usage_inv env ''memory'' ''MEMORY_USAGE_DATA'' u ?s2"
    using assms(1,2) able by (auto simp: nh_ready_def usage_inv_def)
  have "\<exists>s'. check_usage env ''memory'' ''MEMORY_USAGE_DATA'' (high_memory_usage_wait_threshold env) (nd_epoch (nh_node env) (nh_ticks s))
        (\<lambda>s. bindr (sensor_attr ''total_memory'' s) (\<lambda>v. getitem v ''percent'')) ?thr (host_update_send env) ft rt ?s2 = (Inr (), s') \<and>
      usage_inv env ''memory'' ''MEMORY_USAGE_DATA'' u' s' \<and>
      nh_frame env ''memory'' ''MEMORY_USAGE_DATA'' ?s2 s' \<and> nh_raised s' = nh_raised ?s2 @ map (Pair ''memory'') out \<and>
      (out = [] \<longrightarrow> nh_ticks s' = nh_ticks ?s2)" for ft rt
    by (rule mem_mon.check_run [OF s2 _ d(3) num over spec]) (simp add: sensor_attr_def d)
  with a(3) able show ?thesis
    by (intro exI [of _ a]) (simp add: generate_host_update_def py_exec nh_clock_def)
qed

section \<open>When a high CPU usage is reported\<close>

primrec cpu_checks :: "nat \<Rightarrow> nh_env \<Rightarrow> (nh_state, unit) proc" where
  "cpu_checks 0 env = ret ()"
| "cpu_checks (Suc n) env = seqp (cpu_checks n env) (generate_cpu_data env)"

text \<open>After \<open>j\<close> checks at or above the threshold that began at the time \<open>t0\<close>.\<close>

definition cpu_waiting :: "nh_env \<Rightarrow> nh_state \<Rightarrow> nat \<Rightarrow> nh_state \<Rightarrow> bool" where
  "cpu_waiting env s0 j s \<longleftrightarrow> nh_ready env s \<and> good_threshold env (cpu_usage_threshold s) \<and>
     usage_inv env ''cpu'' ''CPU_USAGE_DATA'' (False, if j = 0 then -1 else nd_epoch (nh_node env) (nh_ticks s0), 0) s \<and>
     read_threshold env (cpu_usage_threshold s) = read_threshold env (cpu_usage_threshold s0) \<and>
     nh_reads s = nh_reads s0 + j \<and> nh_ticks s = nh_ticks s0 + j \<and> nh_raised s = nh_raised s0"

definition cpu_reading_over :: "nh_env \<Rightarrow> nh_state \<Rightarrow> nat \<Rightarrow> bool" where
  "cpu_reading_over env s0 j \<longleftrightarrow>
     py_ge (snd (nh_read env (nh_reads s0 + j) ''cpu_data'') ''cpu_usage'') (read_threshold env (cpu_usage_threshold s0)) = Inr True"

lemma cpu_check_over:
  assumes w: "cpu_waiting env s0 j s" and "cpu_reading_over env s0 j" and "0 \<le> nd_epoch (nh_node env) (nh_ticks s0)"
  shows "if nd_epoch (nh_node env) (nh_ticks s0 + j) - nd_epoch (nh_node env) (nh_ticks s0) < high_cpu_usage_wait_threshold env
    then \<exists>s'. generate_cpu_data env s = (Inr (), s') \<and> cpu_waiting env s0 (Suc j) s'
    else \<exists>s'. generate_cpu_data env s = (Inr (), s') \<and> nh_raised s' = nh_raised s0 @ [(''cpu'', ''fault'')] \<and>
      usage_inv env ''cpu'' ''CPU_USAGE_DATA'' (True, nd_epoch (nh_node env) (nh_ticks s0 + j), 0) s'"
proof -
  let ?wait = "high_cpu_usage_wait_threshold env" and ?t = "nd_epoch (nh_node env)"
  let ?u = "(False, if j = 0 then -1 else ?t (nh_ticks s0), 0 :: int)"
  have over: "cpu_over env s" using assms(1,2) by (simp add: cpu_over_def cpu_waiting_def cpu_reading_over_def)
  obtain u' out where spec: "usage_spec ?wait (iteration_limit env ?wait) ?u (?t (nh_ticks s)) (cpu_over env s) = (u', out)" by (metis surj_pair)
  then have u': "(u', out) = (if ?t (nh_ticks s0 + j) - ?t (nh_ticks s0) < ?wait then ((False, ?t (nh_ticks s0), 0), [])
      else ((True, ?t (nh_ticks s0 + j), 0), [''fault'']))"
    using over assms(3) w by (auto simp: usage_spec_def cpu_waiting_def Let_def split: if_splits)
  have rd: "nh_ready env s" "usage_inv env ''cpu'' ''CPU_USAGE_DATA'' ?u s" "good_threshold env (cpu_usage_threshold s)"
    using w by (simp_all add: cpu_waiting_def)
  obtain a s' where s': "\<forall>n. json_able (a n)" "generate_cpu_data env s = (Inr (), s')" "usage_inv env ''cpu'' ''CPU_USAGE_DATA'' u' s'"
      "nh_frame env ''cpu'' ''CPU_USAGE_DATA'' (s\<lparr>nh_ticks := nh_ticks s + 1, nh_reads := nh_reads s + 1, node_sensor := Some a,
         cpu_usage_threshold := read_threshold env (cpu_usage_threshold s)\<rparr>) s'"
      "nh_raised s' = nh_raised s @ map (Pair ''cpu'') out" "out = [] \<longrightarrow> nh_ticks s' = nh_ticks s + 1"
    using generate_cpu_run [OF rd spec] by blast
  have "nh_ready env (s\<lparr>nh_ticks := nh_ticks s + 1, nh_reads := nh_reads s + 1, node_sensor := Some a,
         cpu_usage_threshold := read_threshold env (cpu_usage_threshold s)\<rparr>)"
    using rd(1) s'(1) by (simp add: nh_ready_def)
  from nh_frame_ready [OF s'(4) this] have "nh_ready env s'" .
  moreover have "cpu_usage_threshold s' = read_threshold env (cpu_usage_threshold s)" "nh_reads s' = nh_reads s + 1"
    using s'(4) by (simp_all add: nh_frame_def)
  ultimately show ?thesis
    using s' u' w by (auto simp: cpu_waiting_def good_threshold_def split: if_splits)
qed

lemma cpu_checks_waiting:
  assumes "cpu_waiting env s0 0 s0" and "0 \<le> nd_epoch (nh_node env) (nh_ticks s0)"
    and "\<forall>j < n. cpu_reading_over env s0 j \<and>
      nd_epoch (nh_node env) (nh_ticks s0 + j) - nd_epoch (nh_node env) (nh_ticks s0) < high_cpu_usage_wait_threshold env"
  shows "\<exists>s. cpu_checks n env s0 = (Inr (), s) \<and> cpu_waiting env s0 n s"
  using assms(3)
proof (induction n)
  case 0
  then show ?case using assms(1) by (simp add: ret_def)
next
  case (Suc n)
  then obtain s where s: "cpu_checks n env s0 = (Inr (), s)" "cpu_waiting env s0 n s" by auto
  with cpu_check_over [OF s(2) _ assms(2)] Suc.prems show ?case by (auto simp: seqp_run split: if_splits)
qed


section \<open>Disk space\<close>

text \<open>The two tests of the check, one after the other.\<close>

definition disk_spec :: "bool \<Rightarrow> bool \<Rightarrow> bool \<Rightarrow> bool \<times> string list" where
  "disk_spec high ge le = (let out = (if ge \<and> \<not> high then [''fault''] else []); high' = high \<or> ge in
     if le \<and> high' then (False, out @ [''fault_resolved'']) else (high', out))"

definition disk_inv :: "nh_env \<Rightarrow> nh_state \<Rightarrow> bool" where
  "disk_inv env s \<longleftrightarrow> fs_wf (nh_fs s) \<and> writable (nh_fs s) (usage_path env ''DISK_USAGE_DATA'') \<and>
     (\<exists>since. store_get (nh_fs s) (usage_path env ''DISK_USAGE_DATA'') = usage_record ''disk'' (high_usage s ''disk'') since 0) \<and>
     fault_resolved_iterations s ''disk'' = 0"

lemma disk_persist:
  assumes "fs_wf (nh_fs s)" and "writable (nh_fs s) (usage_path env ''DISK_USAGE_DATA'')" and "fault_resolved_iterations s ''disk'' = 0"
  shows "\<exists>s'. persist_state_data env ''disk'' ''DISK_USAGE_DATA'' s = (Inr (), s') \<and> disk_inv env s' \<and>
    nh_frame env ''disk'' ''DISK_USAGE_DATA'' s s' \<and> nh_raised s' = nh_raised s \<and> high_usage s' = high_usage s"
  using persist_run [OF assms(1,2), of "''disk''"] assms(3) by (auto simp: disk_inv_def)

lemma disk_fault_run:
  assumes "nh_ready env s" and "disk_inv env s" and "json_able (nh_units env)"
  shows "\<exists>s'. seqp (modp (\<lambda>s. s\<lparr>high_usage := (high_usage s)(''disk'' := True)\<rparr>)) (seqp (disk_space_send env ''fault'' e)
      (persist_state_data env ''disk'' ''DISK_USAGE_DATA'')) s = (Inr (), s') \<and> disk_inv env s' \<and> high_usage s' ''disk'' \<and>
    nh_frame env ''disk'' ''DISK_USAGE_DATA'' s s' \<and> nh_raised s' = nh_raised s @ [(''disk'', ''fault'')]"
proof -
  let ?s1 = "s\<lparr>high_usage := (high_usage s)(''disk'' := True)\<rparr>"
  have fr: "nh_frame env ''disk'' ''DISK_USAGE_DATA'' s ?s1" by (simp add: nh_frame_def)
  obtain s2 where s2: "disk_space_send env ''fault'' e ?s1 = (Inr (), s2)" "sent ''disk'' ''fault'' ?s1 s2"
    using disk_space_sent [OF nh_frame_ready [OF fr assms(1)] assms(3)] by blast
  note s2' = sent_raised [OF s2(2)]
  have "fs_wf (nh_fs s2)" "writable (nh_fs s2) (usage_path env ''DISK_USAGE_DATA'')" "fault_resolved_iterations s2 ''disk'' = 0"
    using s2' assms(2) by (simp_all add: disk_inv_def)
  from disk_persist [OF this] obtain s3 where s3: "persist_state_data env ''disk'' ''DISK_USAGE_DATA'' s2 = (Inr (), s3)"
      "disk_inv env s3" "nh_frame env ''disk'' ''DISK_USAGE_DATA'' s2 s3" "nh_raised s3 = nh_raised s2" "high_usage s3 = high_usage s2"
    by blast
  have "nh_frame env ''disk'' ''DISK_USAGE_DATA'' s s3"
    using nh_frame_trans [OF fr nh_frame_trans [OF sent_frame [OF s2(2)] s3(3)]] .
  with s2(1) s3 s2' show ?thesis by (intro exI [of _ s3]) (simp add: seqp_def bindp_def modp_def)
qed

lemma disk_resolved_run:
  assumes "nh_ready env s" and "disk_inv env s" and "json_able (nh_units env)"
  shows "\<exists>s'. seqp (disk_space_send env ''fault_resolved'' e) (seqp (modp (\<lambda>s. s\<lparr>high_usage := (high_usage s)(''disk'' := False)\<rparr>))
      (persist_state_data env ''disk'' ''DISK_USAGE_DATA'')) s = (Inr (), s') \<and> disk_inv env s' \<and> \<not> high_usage s' ''disk'' \<and>
    nh_frame env ''disk'' ''DISK_USAGE_DATA'' s s' \<and> nh_raised s' = nh_raised s @ [(''disk'', ''fault_resolved'')]"
proof -
  obtain s2 where s2: "disk_space_send env ''fault_resolved'' e s = (Inr (), s2)" "sent ''disk'' ''fault_resolved'' s s2"
    using disk_space_sent [OF assms(1,3)] by blast
  note s2' = sent_raised [OF s2(2)]
  let ?s2 = "s2\<lparr>high_usage := (high_usage s2)(''disk'' := False)\<rparr>"
  have fr: "nh_frame env ''disk'' ''DISK_USAGE_DATA'' s2 ?s2" by (simp add: nh_frame_def)
  have "fs_wf (nh_fs ?s2)" "writable (nh_fs ?s2) (usage_path env ''DISK_USAGE_DATA'')" "fault_resolved_iterations ?s2 ''disk'' = 0"
    using s2' assms(2) by (simp_all add: disk_inv_def)
  from disk_persist [OF this] obtain s3 where s3: "persist_state_data env ''disk'' ''DISK_USAGE_DATA'' ?s2 = (Inr (), s3)"
      "disk_inv env s3" "nh_frame env ''disk'' ''DISK_USAGE_DATA'' ?s2 s3" "nh_raised s3 = nh_raised ?s2" "high_usage s3 = high_usage ?s2"
    by blast
  have "nh_frame env ''disk'' ''DISK_USAGE_DATA'' s s3"
    using nh_frame_trans [OF sent_frame [OF s2(2)] nh_frame_trans [OF fr s3(3)]] .
  with s2(1) s3 s2' show ?thesis by (intro exI [of _ s3]) (simp add: seqp_def bindp_def modp_def)
qed

definition disk_reading :: "nh_env \<Rightarrow> nh_state \<Rightarrow> pyv" where
  "disk_reading env s = snd (nh_read env (nh_reads s) ''disk_space_alert'') ''disk_used_percentage''"

definition disk_test :: "(pyv \<Rightarrow> pyv \<Rightarrow> bool res) \<Rightarrow> nh_env \<Rightarrow> nh_state \<Rightarrow> bool" where
  "disk_test cmp env s \<longleftrightarrow> cmp (disk_reading env s) (read_threshold env (disk_usage_threshold s)) = Inr True"

lemma generate_disk_run:
  assumes "nh_ready env s" and "disk_inv env s" and "json_able (nh_units env)" and "good_threshold env (disk_usage_threshold s)"
    and ok: "fst (nh_read env (nh_reads s) ''disk_space_alert'') = Inr True"
    and spec: "disk_spec (high_usage s ''disk'') (disk_test py_ge env s) (disk_test py_le env s) = (high', out)"
  shows "\<exists>a s'. (\<forall>n. json_able (a n)) \<and> generate_disk_space_alert env s = (Inr (), s') \<and> disk_inv env s' \<and> high_usage s' ''disk'' = high' \<and>
    nh_frame env ''disk'' ''DISK_USAGE_DATA'' (s\<lparr>nh_reads := nh_reads s + 1, node_sensor := Some a,
      disk_usage_threshold := read_threshold env (disk_usage_threshold s)\<rparr>) s' \<and> nh_raised s' = nh_raised s @ map (Pair ''disk'') out"
proof -
  let ?thr = "read_threshold env (disk_usage_threshold s)"
  from read_data_run [OF assms(1), of "''disk_space_alert''"] ok obtain a where
    a: "nh_read env (nh_reads s) ''disk_space_alert'' = (Inr True, a)" "good_reading ''disk_space_alert'' a"
      "read_data env ''disk_space_alert'' s = (Inr True, s\<lparr>nh_reads := nh_reads s + 1, node_sensor := Some a\<rparr>)" by auto
  let ?p = "a ''disk_used_percentage''"
  let ?s2 = "s\<lparr>nh_reads := nh_reads s + 1, node_sensor := Some a, disk_usage_threshold := ?thr\<rparr>"
  have num: "a_number ?p" "a_number ?thr" "\<forall>n. json_able (a n)" using a(2) assms(4) by (auto simp: good_reading_def good_threshold_def)
  obtain o1 o2 where "py_ge ?p ?thr = Inr o1" "py_le ?p ?thr = Inr o2" using py_compare(2,3) [OF num(1,2)] by blast
  then have cmp: "py_ge ?p ?thr = Inr (disk_test py_ge env s)" "py_le ?p ?thr = Inr (disk_test py_le env s)"
    by (simp_all add: disk_test_def disk_reading_def a(1))
  have s2: "nh_ready env ?s2" "disk_inv env ?s2" using assms(1,2) num(3) by (auto simp: nh_ready_def disk_inv_def)
  let ?m1 = "\<lambda>e. if disk_test py_ge env s \<and> \<not> high_usage s ''disk'' then seqp (modp (\<lambda>s. s\<lparr>high_usage := (high_usage s)(''disk'' := True)\<rparr>))
      (seqp (disk_space_send env ''fault'' e) (persist_state_data env ''disk'' ''DISK_USAGE_DATA'')) else ret ()"
  have m1: "\<exists>s3. ?m1 e ?s2 = (Inr (), s3) \<and> disk_inv env s3 \<and> high_usage s3 ''disk'' = (high_usage s ''disk'' \<or> disk_test py_ge env s) \<and>
      nh_frame env ''disk'' ''DISK_USAGE_DATA'' ?s2 s3 \<and>
      nh_raised s3 = nh_raised s @ (if disk_test py_ge env s \<and> \<not> high_usage s ''disk'' then [(''disk'', ''fault'')] else [])" for e
    using disk_fault_run [OF s2 assms(3), of e] s2(2) by (auto simp: ret_def nh_frame_refl)
  let ?m2 = "\<lambda>e high. if disk_test py_le env s \<and> high then seqp (disk_space_send env ''fault_resolved'' e)
      (seqp (modp (\<lambda>s. s\<lparr>high_usage := (high_usage s)(''disk'' := False)\<rparr>)) (persist_state_data env ''disk'' ''DISK_USAGE_DATA'')) else ret ()"
  have m2: "\<exists>s4. ?m2 e (high_usage s3 ''disk'') s3 = (Inr (), s4) \<and> disk_inv env s4 \<and> high_usage s4 ''disk'' = (high_usage s3 ''disk'' \<and> \<not> disk_test py_le env s) \<and>
      nh_frame env ''disk'' ''DISK_USAGE_DATA'' ?s2 s4 \<and>
      nh_raised s4 = nh_raised s3 @ (if disk_test py_le env s \<and> high_usage s3 ''disk'' then [(''disk'', ''fault_resolved'')] else [])"
    if "disk_inv env s3" "nh_frame env ''disk'' ''DISK_USAGE_DATA'' ?s2 s3" for e s3
    using disk_resolved_run [OF nh_frame_ready [OF that(2) s2(1)] that(1) assms(3), of e] that
    by (auto simp: ret_def intro: nh_frame_trans)
  let ?e1 = "''Disk usage has increased to '' @ py_str ?p @ ''%, beyond the configured threshold of '' @ py_str ?thr @ ''%.''"
  let ?e2 = "''Disk usage has decreased to '' @ py_str ?p @ ''%, lower than the configured threshold of '' @ py_str ?thr @ ''%.''"
  obtain s3 where s3: "?m1 ?e1 ?s2 = (Inr (), s3)" "disk_inv env s3" "high_usage s3 ''disk'' = (high_usage s ''disk'' \<or> disk_test py_ge env s)"
      "nh_frame env ''disk'' ''DISK_USAGE_DATA'' ?s2 s3"
      "nh_raised s3 = nh_raised s @ (if disk_test py_ge env s \<and> \<not> high_usage s ''disk'' then [(''disk'', ''fault'')] else [])"
    using m1 [of ?e1] by blast
  obtain s4 where s4: "?m2 ?e2 (high_usage s3 ''disk'') s3 = (Inr (), s4)" "disk_inv env s4" "high_usage s4 ''disk'' = (high_usage s3 ''disk'' \<and> \<not> disk_test py_le env s)"
      "nh_frame env ''disk'' ''DISK_USAGE_DATA'' ?s2 s4"
      "nh_raised s4 = nh_raised s3 @ (if disk_test py_le env s \<and> high_usage s3 ''disk'' then [(''disk'', ''fault_resolved'')] else [])"
    using m2 [OF s3(2,4), of ?e2] by blast
  have "generate_disk_space_alert env s = seqp (?m1 ?e1) (\<lambda>s3. ?m2 ?e2 (high_usage s3 ''disk'') s3) ?s2"
    using a(3) cmp by (simp add: generate_disk_space_alert_def bindp_run seqp_run getp_def modp_def bindp_liftp sensor_attr_def split del: if_split)
  then have "generate_disk_space_alert env s = (Inr (), s4)" using s3(1) s4(1) by (simp add: seqp_def bindp_def del: append_Cons split del: if_split)
  moreover have "high' = high_usage s4 ''disk''" "nh_raised s4 = nh_raised s @ map (Pair ''disk'') out"
    using spec s3(3,5) s4(3,5) by (auto simp: disk_spec_def Let_def split: if_splits)
  ultimately show ?thesis using s4 num(3) by blast
qed

lemma at_threshold:
  assumes "a_number v" and "num_of v = num_of w"
  shows "py_ge v w = Inr True" "py_le v w = Inr True"
proof -
  have "num_le x x" if "x \<noteq> NaN" for x using num_le_total [OF that that] by blast
  then show "py_ge v w = Inr True" "py_le v w = Inr True" using assms by (auto simp: a_number_def py_ge_def py_le_def)
qed

primrec disk_checks :: "nat \<Rightarrow> nh_env \<Rightarrow> (nh_state, unit) proc" where
  "disk_checks 0 env = ret ()"
| "disk_checks (Suc n) env = seqp (generate_disk_space_alert env) (disk_checks n env)"

section \<open>A concrete handler\<close>

definition demo_attrs :: "string \<Rightarrow> pyv" where
  "demo_attrs n = (if n = ''cpu_usage'' \<or> n = ''disk_used_percentage'' then PInt 80
     else if n = ''total_memory'' then PDict [(''percent'', PInt 10)]
     else if n = ''if_data'' then PList [PDict [(''ifId'', PStr ''eth0''), (''nwStatus'', PStr ''DOWN''), (''nwCableConnStatus'', PStr ''CONNECTED'')]]
     else if n = ''free_space'' then PInt 2 else if n = ''total_space'' then PInt 10 else PStr ''node1'')"

definition demo_nh_env :: nh_env where
  "demo_nh_env = \<lparr>nh_node = demo_node, nh_msgs = demo_msg_env, nh_sensor = Inr demo_attrs, nh_read = (\<lambda>_ _. (Inr True, demo_attrs)),
     nh_float = (\<lambda>_. None), transmit_interval = 10, high_cpu_usage_wait_threshold = 2, high_memory_usage_wait_threshold = 2,
     nh_units = PStr ''GB'', cpu_threshold_conf = PInt 80, memory_threshold_conf = PInt 80, disk_threshold_conf = PInt 80\<rparr>"

definition demo_nh_files :: "(string \<times> content) list" where
  "demo_nh_files = map (\<lambda>(p, v). (usage_path demo_nh_env p, Pickled v)) [(''CPU_USAGE_DATA'', usage_record ''cpu'' False (- 1) 0),
     (''DISK_USAGE_DATA'', usage_record ''disk'' False (- 1) 0), (''MEMORY_USAGE_DATA'', usage_record ''memory'' False (- 1) 0),
     (''NW_SENSOR_DATA'', PDict [(''prev_nw_if_status'', PDict []), (''prev_cable_status'', PDict [])])]"

definition demo_nh :: nh_state where
  "demo_nh = \<lparr>nh_fs = \<lparr>files = demo_nh_files, dirs = [''/var/sspl/server''], denied = []\<rparr>,
     nh_q = \<lparr>msgQlist = [(''NodeDataMsgHandler'', []), (''EgressProcessor'', [])], msgq_dbg = init_debug\<rparr>, nh_suspended = False, nh_schedule = [],
     node_sensor = Some demo_attrs, nh_reads = 0, nh_ticks = 0, high_usage = (\<lambda>_. False), usage_time_map = (\<lambda>_. - 1),
     fault_resolved_iterations = (\<lambda>_. 0), prev_nw_if_status = PDict [], prev_cable_status = PDict [], persistent_data = (\<lambda>_. PDict []),
     cpu_usage_threshold = PInt 80, host_memory_usage_threshold = PInt 80, disk_usage_threshold = PInt 80, os_sensor_type = [],
     nh_sensor_type = PNone, nh_uuid = PNone, nh_epoch_time = ''0'', raid_device = PStr ''N/A'', raid_drives = [], drive_by_device_name = [],
     drive_byid_by_serial_number = [], nh_raised = []\<rparr>"

lemma demo_attrs_good: "good_reading part demo_attrs"
  by (auto simp: good_reading_def demo_attrs_def a_number_def good_interface_def)

lemma demo_threshold: "read_threshold demo_nh_env (PInt 80) = PInt 80"
  by code_simp

lemma demo_good_threshold: "good_threshold demo_nh_env (PInt 80)"
  by (simp add: good_threshold_def demo_threshold a_number_def)

lemma demo_nh_ready: "nh_ready demo_nh_env demo_nh"
proof -
  have "json_able (demo_attrs n)" for n using demo_attrs_good [of "''''"] by (simp add: good_reading_def)
  then show ?thesis
    using demo_attrs_good by (auto simp: nh_ready_def demo_nh_env_def demo_nh_def demo_msg_env_ok readings_ok_def has_queue_def)
qed

lemma demo_usage_path:
  "usage_path demo_nh_env ''CPU_USAGE_DATA'' = ''/var/sspl/server/CPU_USAGE_DATA_SN01''"
  "usage_path demo_nh_env ''DISK_USAGE_DATA'' = ''/var/sspl/server/DISK_USAGE_DATA_SN01''"
  "usage_path demo_nh_env ''MEMORY_USAGE_DATA'' = ''/var/sspl/server/MEMORY_USAGE_DATA_SN01''"
  "usage_path demo_nh_env ''NW_SENSOR_DATA'' = ''/var/sspl/server/NW_SENSOR_DATA_SN01''"
  by code_simp+

lemma demo_usage_dir:
  "dirname ''/var/sspl/server/CPU_USAGE_DATA_SN01'' = ''/var/sspl/server''" "dirname ''/var/sspl/server/DISK_USAGE_DATA_SN01'' = ''/var/sspl/server''"
  "dirname ''/var/sspl/server/MEMORY_USAGE_DATA_SN01'' = ''/var/sspl/server''" "dirname ''/var/sspl/server/NW_SENSOR_DATA_SN01'' = ''/var/sspl/server''"
  "ancestors ''/var/sspl/server'' = [''/var/sspl/server'', ''/var'', ''/var/sspl'']"
  by code_simp+

lemma demo_store:
  "fs_wf (nh_fs demo_nh)"
  "p \<in> {''CPU_USAGE_DATA'', ''DISK_USAGE_DATA'', ''MEMORY_USAGE_DATA'', ''NW_SENSOR_DATA''} \<Longrightarrow> writable (nh_fs demo_nh) (usage_path demo_nh_env p)"
  by (auto simp: demo_nh_def demo_nh_files_def demo_usage_path demo_usage_dir fs_wf_def isfile_def isdir_def writable_def)

lemma demo_usage_records:
  "store_get (nh_fs demo_nh) (usage_path demo_nh_env ''CPU_USAGE_DATA'') = usage_record ''cpu'' False (- 1) 0"
  "store_get (nh_fs demo_nh) (usage_path demo_nh_env ''DISK_USAGE_DATA'') = usage_record ''disk'' False (- 1) 0"
  "store_get (nh_fs demo_nh) (usage_path demo_nh_env ''MEMORY_USAGE_DATA'') = usage_record ''memory'' False (- 1) 0"
  "store_get (nh_fs demo_nh) (usage_path demo_nh_env ''NW_SENSOR_DATA'') = PDict [(''prev_nw_if_status'', PDict []), (''prev_cable_status'', PDict [])]"
  by (simp_all add: demo_nh_def demo_nh_files_def demo_usage_path demo_usage_dir isdir_def store_get_def load_json_file_def)

lemma demo_usage_inv:
  "usage_inv demo_nh_env ''cpu'' ''CPU_USAGE_DATA'' (False, - 1, 0) demo_nh" "usage_inv demo_nh_env ''memory'' ''MEMORY_USAGE_DATA'' (False, - 1, 0) demo_nh"
  "disk_inv demo_nh_env demo_nh"
proof -
  have h: "high_usage demo_nh r = False" "fault_resolved_iterations demo_nh r = 0" for r by (simp_all add: demo_nh_def)
  show "usage_inv demo_nh_env ''cpu'' ''CPU_USAGE_DATA'' (False, - 1, 0) demo_nh" "usage_inv demo_nh_env ''memory'' ''MEMORY_USAGE_DATA'' (False, - 1, 0) demo_nh"
    using demo_store demo_usage_records by (simp_all add: usage_inv_def h)
  have "\<exists>since. usage_record ''disk'' False (- 1) 0 = usage_record ''disk'' False since 0" by blast
  then show "disk_inv demo_nh_env demo_nh" using demo_store demo_usage_records(2) by (simp add: disk_inv_def h)
qed

lemma demo_nh_sel:
  "nh_reads demo_nh = 0" "nh_ticks demo_nh = 0" "nh_raised demo_nh = []" "node_sensor demo_nh = Some demo_attrs" "\<not> high_usage demo_nh r"
  "cpu_usage_threshold demo_nh = PInt 80" "disk_usage_threshold demo_nh = PInt 80" "host_memory_usage_threshold demo_nh = PInt 80"
  "nh_node demo_nh_env = demo_node" "nh_read demo_nh_env k part = (Inr True, demo_attrs)" "high_cpu_usage_wait_threshold demo_nh_env = 2"
  "nh_units demo_nh_env = PStr ''GB''" "nd_epoch demo_node n = 7 + int n" "demo_attrs ''cpu_usage'' = PInt 80" "demo_attrs ''disk_used_percentage'' = PInt 80"
  "sensor_schema (nh_msgs demo_nh_env) = Inr (\<lambda>_. None)" "demo_attrs ''free_space'' = PInt 2" "demo_attrs ''total_space'' = PInt 10"
  by (simp_all add: demo_nh_def demo_nh_env_def demo_node_def demo_attrs_def demo_msg_env_def)


text \<open>
  C40. While the used disk space equals the threshold every check raises a fault alert and at once a fault_resolved
  alert: \<open>n\<close> checks raise \<open>2 n\<close> alerts, and nothing is stored as outstanding in between.\<close>

theorem disk_flaps_at_threshold:
  assumes "nh_ready env s" and "disk_inv env s" and "json_able (nh_units env)" and "good_threshold env (disk_usage_threshold s)"
    and "\<not> high_usage s ''disk''" and "\<forall>k. fst (nh_read env k ''disk_space_alert'') = Inr True"
    and "\<forall>k. num_of (snd (nh_read env k ''disk_space_alert'') ''disk_used_percentage'') = num_of (read_threshold env (disk_usage_threshold s))"
  shows "\<exists>s'. disk_checks n env s = (Inr (), s') \<and> disk_inv env s' \<and> \<not> high_usage s' ''disk'' \<and>
    nh_raised s' = nh_raised s @ concat (replicate n [(''disk'', ''fault''), (''disk'', ''fault_resolved'')])"
  using assms(1,2,4,5,7)
proof (induction n arbitrary: s)
  case (Suc n)
  have "a_number (read_threshold env (disk_usage_threshold s))" using Suc.prems(3) by (rule good_threshold_number)
  then have num: "a_number (disk_reading env s)" using Suc.prems(5) by (simp add: a_number_def disk_reading_def)
  have eq: "num_of (disk_reading env s) = num_of (read_threshold env (disk_usage_threshold s))" using Suc.prems(5) by (simp add: disk_reading_def)
  have "disk_test py_ge env s" "disk_test py_le env s" using at_threshold [OF num eq] by (simp_all add: disk_test_def)
  then have spec: "disk_spec (high_usage s ''disk'') (disk_test py_ge env s) (disk_test py_le env s) = (False, [''fault'', ''fault_resolved''])"
    using Suc.prems(4) by (simp add: disk_spec_def)
  obtain a s1 where s1: "\<forall>n. json_able (a n)" "generate_disk_space_alert env s = (Inr (), s1)" "disk_inv env s1" "high_usage s1 ''disk'' = False"
      "nh_frame env ''disk'' ''DISK_USAGE_DATA'' (s\<lparr>nh_reads := nh_reads s + 1, node_sensor := Some a,
         disk_usage_threshold := read_threshold env (disk_usage_threshold s)\<rparr>) s1"
      "nh_raised s1 = nh_raised s @ map (Pair ''disk'') [''fault'', ''fault_resolved'']"
    using generate_disk_run [OF Suc.prems(1,2) assms(3) Suc.prems(3) _ spec] assms(6) by blast
  have "nh_ready env s1" by (rule nh_frame_ready [OF s1(5)]) (use Suc.prems(1) s1(1) in \<open>simp add: nh_ready_def\<close>)
  moreover have thr: "disk_usage_threshold s1 = read_threshold env (disk_usage_threshold s)" using s1(5) by (simp add: nh_frame_def)
  ultimately obtain s' where "disk_checks n env s1 = (Inr (), s')" "disk_inv env s'" "\<not> high_usage s' ''disk''"
      "nh_raised s' = nh_raised s1 @ concat (replicate n [(''disk'', ''fault''), (''disk'', ''fault_resolved'')])"
    using Suc.IH [of s1] s1(3,4) Suc.prems(3,5) by (auto simp: good_threshold_def)
  with s1(2,6) show ?case by (simp add: seqp_run)
qed (simp add: ret_def)

theorem disk_flaps_at_threshold_witness:
  "\<exists>s'. disk_checks 2 demo_nh_env demo_nh = (Inr (), s') \<and> disk_inv demo_nh_env s' \<and> \<not> high_usage s' ''disk'' \<and>
    nh_raised s' = [(''disk'', ''fault''), (''disk'', ''fault_resolved''), (''disk'', ''fault''), (''disk'', ''fault_resolved'')]"
  using disk_flaps_at_threshold [OF demo_nh_ready demo_usage_inv(3), of 2] demo_good_threshold
  by (simp add: demo_nh_sel demo_threshold numeral_2_eq_2)

text \<open>
  The alert about disk space shows the total space of the disk as the free space and the free space as the total.\<close>

lemma disk_alert_swaps_spaces:
  assumes "sensor_schema (nh_msgs env) = Inr check" and "node_sensor s = Some a"
  shows "\<exists>m. disk_space_send env alert_type event s =
      send_and_remember env ''disk_space'' ''disk'' alert_type (Inr m) (s\<lparr>nh_ticks := nh_ticks s + 1\<rparr>) \<and>
    get_items m [''message'', ''sensor_response_type'', ''specific_info'', ''freeSpace'', ''value''] = Inr (a ''total_space'') \<and>
    get_items m [''message'', ''sensor_response_type'', ''specific_info'', ''totalSpace'', ''value''] = Inr (a ''free_space'')"
proof -
  let ?m = "stamped_envelope (str_int (nd_epoch (nh_node env) (nh_ticks s))) [header_version_first,
     usage_response (str_int (nd_epoch (nh_node env) (nh_ticks s))) (nd_salt (nh_node env) (nh_ticks s)) ''node:os:disk_space'' (a ''host_id'')
       alert_type event [(''freeSpace'', PDict [(''value'', a ''total_space''), (''units'', nh_units env)]),
         (''totalSpace'', PDict [(''value'', a ''free_space''), (''units'', nh_units env)]),
         (''diskUsedPercentage'', a ''disk_used_percentage'')]]"
  have "disk_space_send env alert_type event s =
      send_and_remember env ''disk_space'' ''disk'' alert_type (Inr ?m) (s\<lparr>nh_ticks := nh_ticks s + 1\<rparr>)"
    using assms by (simp add: disk_space_send_def bindp_run getp_def bindp_liftp sensor_attrs_run nh_clock_def DiskSpaceAlertMsg_def with_schema_def)
  then show ?thesis
    by (intro exI [of _ ?m]) (simp add: stamped_envelope_def usage_response_def header_version_first_def)
qed

lemma disk_alert_swaps_spaces_witness:
  "\<exists>m. disk_space_send demo_nh_env ''fault'' ''full'' demo_nh =
      send_and_remember demo_nh_env ''disk_space'' ''disk'' ''fault'' (Inr m) (demo_nh\<lparr>nh_ticks := 1\<rparr>) \<and>
    get_items m [''message'', ''sensor_response_type'', ''specific_info'', ''freeSpace'', ''value''] = Inr (PInt 10) \<and>
    get_items m [''message'', ''sensor_response_type'', ''specific_info'', ''totalSpace'', ''value''] = Inr (PInt 2)"
  using disk_alert_swaps_spaces [of demo_nh_env "\<lambda>_. None" demo_nh demo_attrs "''fault''" "''full''"]
  by (simp add: demo_nh_sel del: get_items.simps)

end
