(* ===== verification/Node_Alerts.thy ===== *)
theory Node_Alerts
  imports Node_Handler Node_Memory
begin

text \<open>
  The alerts of the node data handler as histories: each item the handler watches (CPU, memory, disk, every network
  interface and its cable) alternates between fault and fault_resolved, through checks and restarts. And what the
  handler makes of the messages of other sensors.
\<close>

section \<open>Network interfaces\<close>

definition nw_inv :: "nh_env \<Rightarrow> nh_state \<Rightarrow> bool" where
  "nw_inv env s \<longleftrightarrow> fs_wf (nh_fs s) \<and> writable (nh_fs s) (usage_path env ''NW_SENSOR_DATA'') \<and>
     (\<exists>a b. prev_nw_if_status s = PDict a \<and> prev_cable_status s = PDict b \<and>
        store_get (nh_fs s) (usage_path env ''NW_SENSOR_DATA'') =
          PDict [(''prev_nw_if_status'', PDict a), (''prev_cable_status'', PDict b)])"

lemma persist_nw_run:
  assumes "fs_wf (nh_fs s)" and "writable (nh_fs s) (usage_path env ''NW_SENSOR_DATA'')" and "prev_nw_if_status s = PDict a" and "prev_cable_status s = PDict b"
  shows "\<exists>s'. persist_state_data env ''nw'' ''NW_SENSOR_DATA'' s = (Inr (), s') \<and> nw_inv env s' \<and> nh_frame env ''nw'' ''NW_SENSOR_DATA'' s s' \<and>
    nh_raised s' = nh_raised s \<and> prev_nw_if_status s' = prev_nw_if_status s \<and> prev_cable_status s' = prev_cable_status s \<and> high_usage s' = high_usage s"
proof -
  let ?k = "usage_path env ''NW_SENSOR_DATA''" and ?d = "PDict [(''prev_nw_if_status'', PDict a), (''prev_cable_status'', PDict b)]"
  let ?f = "store_put ?d ?k True (nh_fs s)"
  let ?s = "s\<lparr>persistent_data := (persistent_data s)(''nw'' := ?d), nh_fs := ?f\<rparr>"
  have f: "fs_wf ?f" "writable ?f ?k" "\<And>k. store_get ?f k = (if k = ?k then ?d else store_get (nh_fs s) k)"
    using assms(1,2) by (simp_all add: store_put_wf writable_put_same store_get_put_pickled)
  have "nh_frame env ''nw'' ''NW_SENSOR_DATA'' s ?s" using f assms(2) by (auto simp: nh_frame_def intro: writable_put)
  moreover have "nw_inv env ?s" using f assms(3,4) by (simp add: nw_inv_def)
  moreover have "persist_state_data env ''nw'' ''NW_SENSOR_DATA'' s = (Inr (), ?s)" using assms(3,4) by (simp add: persist_state_data_def py_exec Let_def)
  ultimately show ?thesis by (intro exI [of _ ?s]) simp
qed

lemma sendable_ifdata:
  assumes "json_able host" and "json_able lt" and "json_able ifs" and "json_able rid"
  shows "\<exists>m. IFdataMsg env now salt host lt ifs rid rt a sev e = with_schema (sensor_schema env) (Inr m) \<and> sendable m"
  using assms by (auto simp: IFdataMsg_def sendable_def header_version_first_def)

lemma ifdata_run:
  assumes "nh_ready env s" and "fs_wf (nh_fs s)" and "writable (nh_fs s) (usage_path env ''NW_SENSOR_DATA'')"
    and "prev_nw_if_status s = PDict a" and "prev_cable_status s = PDict b" and st: "st \<in> {''fault'', ''fault_resolved''}"
  shows "\<exists>s'. send_ifdata_json_msg env n rt st e s = (Inr (), s') \<and> nw_inv env s' \<and> nh_frame env ''nw'' ''NW_SENSOR_DATA'' s s' \<and>
    nh_raised s' = nh_raised s @ [(rt @ ''/'' @ n, st)] \<and> prev_nw_if_status s' = PDict a \<and> prev_cable_status s' = PDict b \<and> high_usage s' = high_usage s"
proof -
  obtain at where at: "node_sensor s = Some at" "\<And>n. json_able (at n)" using assms(1) by (auto simp: nh_ready_def)
  obtain sev where sev: "map_severity st = Inr sev" using st by (auto simp: map_severity_def ALERT_TO_SEVERITY_MAPPING_def)
  let ?now = "str_int (nd_epoch (nh_node env) (nh_ticks s))" and ?salt = "nd_salt (nh_node env) (nh_ticks s)"
  obtain m where m: "IFdataMsg (nh_msgs env) ?now ?salt (at ''host_id'') (at ''local_time'') (at ''if_data'') (PStr n) rt st sev e = Inr m" "sendable m"
  proof -
    have "sensor_schema (nh_msgs env) = Inr (\<lambda>_. None)" using assms(1) by (simp add: nh_ready_def msg_env_ok_def)
    moreover have "json_able (PStr n)" by simp
    ultimately show ?thesis
      using that sendable_ifdata [OF at(2) at(2) at(2), of "PStr n" "nh_msgs env" ?now ?salt "''host_id''" "''local_time''" "''if_data''" rt st sev e]
      by (auto simp: with_schema_def)
  qed
  obtain s1 where s1: "send_and_remember env ''nw'' (rt @ ''/'' @ n) st (Inr m) (s\<lparr>nh_ticks := nh_ticks s + 1\<rparr>) = (Inr (), s1)"
      "sent (rt @ ''/'' @ n) st s s1" using send_sent [OF assms(1) m(2)] by blast
  note s1' = sent_raised [OF s1(2)]
  have p1: "prev_nw_if_status s1 = PDict a" "prev_cable_status s1 = PDict b" using s1(2) assms(4,5) by (auto simp: sent_def)
  obtain s2 where s2: "persist_state_data env ''nw'' ''NW_SENSOR_DATA'' s1 = (Inr (), s2)" "nw_inv env s2" "nh_frame env ''nw'' ''NW_SENSOR_DATA'' s1 s2"
      "nh_raised s2 = nh_raised s1" "prev_nw_if_status s2 = prev_nw_if_status s1" "prev_cable_status s2 = prev_cable_status s1" "high_usage s2 = high_usage s1"
    using persist_nw_run [of s1 env a b] s1' p1 assms(2,3) by auto
  have "send_ifdata_json_msg env n rt st e s = (Inr (), s2)"
    using at(1) sev m(1) s1(1) s2(1)
    by (simp add: send_ifdata_json_msg_def bindp_run seqp_run getp_def bindp_liftp sensor_attrs_run nh_clock_def)
  with s2 s1' p1 nh_frame_trans [OF sent_frame [OF s1(2)] s2(3)] show ?thesis by (intro exI [of _ s2]) simp
qed

section \<open>What is outstanding\<close>

definition nw_item :: "string \<Rightarrow> string" where
  "nw_item n = NW_RESOURCE_TYPE @ ''/'' @ n"

definition cable_item :: "string \<Rightarrow> string" where
  "cable_item n = NW_CABLE_RESOURCE_TYPE @ ''/'' @ n"

definition status_is :: "pyv \<Rightarrow> string \<Rightarrow> string \<Rightarrow> bool" where
  "status_is d n v \<longleftrightarrow> get_key d n = Inr (PStr v)"

text \<open>The items with a fault outstanding: from the flags of the handler, and from the statuses of the interfaces.\<close>

definition nh_out :: "nh_state \<Rightarrow> string \<rightharpoonup> string" where
  "nh_out s k = (if k \<in> {''cpu'', ''memory'', ''disk''} \<and> high_usage s k \<or>
       k = nw_item (drop 18 k) \<and> status_is (prev_nw_if_status s) (drop 18 k) ''DOWN'' \<or>
       k = cable_item (drop 24 k) \<and> status_is (prev_cable_status s) (drop 24 k) ''DISCONNECTED''
     then Some ''fault'' else None)"

lemma item_simps [simp]:
  "drop 18 (nw_item n) = n" "drop 24 (cable_item n) = n" "nw_item n \<noteq> cable_item m" "cable_item m \<noteq> nw_item n"
  "nw_item n \<noteq> ''cpu''" "nw_item n \<noteq> ''memory''" "nw_item n \<noteq> ''disk''"
  "cable_item n \<noteq> ''cpu''" "cable_item n \<noteq> ''memory''" "cable_item n \<noteq> ''disk''"
  "nw_item n = nw_item m \<longleftrightarrow> n = m" "cable_item n = cable_item m \<longleftrightarrow> n = m"
  by (auto simp: nw_item_def cable_item_def NW_RESOURCE_TYPE_def NW_CABLE_RESOURCE_TYPE_def)

lemma nh_out_items:
  "nh_out s (nw_item n) = (if status_is (prev_nw_if_status s) n ''DOWN'' then Some ''fault'' else None)"
  "nh_out s (cable_item n) = (if status_is (prev_cable_status s) n ''DISCONNECTED'' then Some ''fault'' else None)"
  by (simp_all add: nh_out_def)

lemma status_is_update: "status_is (PDict (AList.update n (PStr v) d)) m w \<longleftrightarrow> (if m = n then v = w else status_is (PDict d) m w)"
  by (simp add: status_is_def)

lemma nh_out_nw:
  assumes "prev_nw_if_status s = PDict a" and "prev_nw_if_status s' = PDict (AList.update n (PStr v) a)"
    and "prev_cable_status s' = prev_cable_status s" and "high_usage s' = high_usage s"
  shows "nh_out s' = (nh_out s)(nw_item n := if v = ''DOWN'' then Some ''fault'' else None)"
proof
  fix k
  show "nh_out s' k = ((nh_out s)(nw_item n := if v = ''DOWN'' then Some ''fault'' else None)) k"
    using assms by (cases "k = nw_item n") (auto simp: nh_out_items nh_out_def status_is_update)
qed

lemma nh_out_cable:
  assumes "prev_cable_status s = PDict a" and "prev_cable_status s' = PDict (AList.update n (PStr v) a)"
    and "prev_nw_if_status s' = prev_nw_if_status s" and "high_usage s' = high_usage s"
  shows "nh_out s' = (nh_out s)(cable_item n := if v = ''DISCONNECTED'' then Some ''fault'' else None)"
proof
  fix k
  show "nh_out s' k = ((nh_out s)(cable_item n := if v = ''DISCONNECTED'' then Some ''fault'' else None)) k"
    using assms by (cases "k = cable_item n") (auto simp: nh_out_items nh_out_def status_is_update)
qed

section \<open>Programs that keep the histories\<close>

text \<open>
  A program on the statuses of the interfaces: it returns normally, keeps memory and store in agreement, changes
  nothing else, and its alerts lead for each item from what was outstanding to what is.
\<close>

definition tracks :: "nh_env \<Rightarrow> (nh_state, unit) proc \<Rightarrow> bool" where
  "tracks env m \<longleftrightarrow> (\<forall>s. nh_ready env s \<longrightarrow> nw_inv env s \<longrightarrow> (\<exists>s'. m s = (Inr (), s') \<and> nw_inv env s' \<and>
     nh_frame env ''nw'' ''NW_SENSOR_DATA'' s s' \<and> high_usage s' = high_usage s \<and>
     alert_word cpu_rule (nh_out s) (nh_raised s) (nh_out s') (nh_raised s')))"

lemma tracks_ret: "tracks env (ret ())"
  by (simp add: tracks_def ret_def nh_frame_refl alert_word_refl)

lemma tracks_seqp:
  assumes "tracks env m" and "tracks env n"
  shows "tracks env (seqp m n)"
  unfolding tracks_def
proof (intro allI impI)
  fix s
  assume s: "nh_ready env s" "nw_inv env s"
  then obtain s1 where s1: "m s = (Inr (), s1)" "nw_inv env s1" "nh_frame env ''nw'' ''NW_SENSOR_DATA'' s s1" "high_usage s1 = high_usage s"
      "alert_word cpu_rule (nh_out s) (nh_raised s) (nh_out s1) (nh_raised s1)"
    using assms(1) unfolding tracks_def by blast
  obtain s2 where s2: "n s1 = (Inr (), s2)" "nw_inv env s2" "nh_frame env ''nw'' ''NW_SENSOR_DATA'' s1 s2" "high_usage s2 = high_usage s1"
      "alert_word cpu_rule (nh_out s1) (nh_raised s1) (nh_out s2) (nh_raised s2)"
    using assms(2) nh_frame_ready [OF s1(3) s(1)] s1(2) unfolding tracks_def by blast
  show "\<exists>s'. seqp m n s = (Inr (), s') \<and> nw_inv env s' \<and> nh_frame env ''nw'' ''NW_SENSOR_DATA'' s s' \<and> high_usage s' = high_usage s \<and>
      alert_word cpu_rule (nh_out s) (nh_raised s) (nh_out s') (nh_raised s')"
    using s1 s2 nh_frame_trans [OF s1(3) s2(3)] alert_word_trans [OF s1(5) s2(5)]
    by (intro exI [of _ s2]) (simp add: seqp_run)
qed

lemma tracks_forp: "(\<And>x. x \<in> set xs \<Longrightarrow> tracks env (f x)) \<Longrightarrow> tracks env (forp xs f)"
  by (induction xs) (simp_all add: tracks_ret tracks_seqp)

lemma one_alert:
  assumes "nxt (m k) a = Some p"
  shows "alert_word nxt m l (m(k := p)) (l @ [(k, a)])"
  using assms by (intro track_step_word) (auto simp: track_step_def)

lemma tracks_nw:
  assumes "st \<in> {''fault'', ''fault_resolved''}" and "cpu_rule p st = Some (if v = ''DOWN'' then Some ''fault'' else None)"
    and c: "\<And>x. c x \<Longrightarrow> p = (if x = PStr ''DOWN'' then Some ''fault'' else None)"
  shows "tracks env (bindp (prev_status prev_nw_if_status n) (\<lambda>x. if c x then nw_alert env n st v else ret ()))"
  unfolding tracks_def
proof (intro allI impI)
  fix s
  assume s: "nh_ready env s" "nw_inv env s"
  then obtain a b where ab: "prev_nw_if_status s = PDict a" "prev_cable_status s = PDict b" "fs_wf (nh_fs s)"
      "writable (nh_fs s) (usage_path env ''NW_SENSOR_DATA'')" by (auto simp: nw_inv_def)
  obtain x where x: "get_key (PDict a) n = Inr x" by simp
  let ?goal = "\<lambda>m. \<exists>s'. m s = (Inr (), s') \<and> nw_inv env s' \<and> nh_frame env ''nw'' ''NW_SENSOR_DATA'' s s' \<and> high_usage s' = high_usage s \<and>
      alert_word cpu_rule (nh_out s) (nh_raised s) (nh_out s') (nh_raised s')"
  have "?goal (nw_alert env n st v)" if "c x"
  proof -
    let ?s = "s\<lparr>prev_nw_if_status := PDict (AList.update n (PStr v) a)\<rparr>"
    have fr: "nh_frame env ''nw'' ''NW_SENSOR_DATA'' s ?s" by (simp add: nh_frame_def)
    let ?e = "''Network interface '' @ n @ '' is '' @ v @ ''.''"
    obtain s' where s': "send_ifdata_json_msg env n NW_RESOURCE_TYPE st ?e ?s = (Inr (), s')" "nw_inv env s'"
        "nh_frame env ''nw'' ''NW_SENSOR_DATA'' ?s s'" "nh_raised s' = nh_raised ?s @ [(NW_RESOURCE_TYPE @ ''/'' @ n, st)]"
        "prev_nw_if_status s' = PDict (AList.update n (PStr v) a)" "prev_cable_status s' = PDict b" "high_usage s' = high_usage ?s"
      using ifdata_run [OF nh_frame_ready [OF fr s(1)], of "AList.update n (PStr v) a" b st n NW_RESOURCE_TYPE ?e] ab assms(1) by auto
    have "nh_out s' = (nh_out s)(nw_item n := if v = ''DOWN'' then Some ''fault'' else None)"
      using nh_out_nw [OF ab(1) s'(5)] s'(6,7) ab(2) by simp
    moreover have "nh_out s (nw_item n) = p" using c [OF that] x ab(1) by (simp add: nh_out_items status_is_def)
    ultimately have "alert_word cpu_rule (nh_out s) (nh_raised s) (nh_out s') (nh_raised s')"
      using one_alert [of cpu_rule "nh_out s" "nw_item n" st] assms(2) s'(4) by (simp add: nw_item_def)
    moreover have "nw_alert env n st v s = (Inr (), s')"
      using s'(1) ab(1) by (simp add: nw_alert_def set_nw_status_def seqp_def bindp_def getp_def liftp_def modp_def)
    ultimately show ?thesis using s'(2,7) nh_frame_trans [OF fr s'(3)] by auto
  qed
  moreover have "?goal (ret ())" using s(2) by (simp add: ret_def nh_frame_refl alert_word_refl)
  ultimately show "?goal (bindp (prev_status prev_nw_if_status n) (\<lambda>x. if c x then nw_alert env n st v else ret ()))"
    using x ab(1) by (simp add: prev_status_def bindp_def getp_def liftp_def)
qed

lemma tracks_cable:
  assumes "st \<in> {''fault'', ''fault_resolved''}" and "cpu_rule p st = Some (if v = ''DISCONNECTED'' then Some ''fault'' else None)"
    and c: "\<And>x. c x \<Longrightarrow> p = (if x = PStr ''DISCONNECTED'' then Some ''fault'' else None)"
  shows "tracks env (bindp (prev_status prev_cable_status n) (\<lambda>x. if c x then cable_alert env n st v else ret ()))"
  unfolding tracks_def
proof (intro allI impI)
  fix s
  assume s: "nh_ready env s" "nw_inv env s"
  then obtain a b where ab: "prev_nw_if_status s = PDict a" "prev_cable_status s = PDict b" "fs_wf (nh_fs s)"
      "writable (nh_fs s) (usage_path env ''NW_SENSOR_DATA'')" by (auto simp: nw_inv_def)
  obtain x where x: "get_key (PDict b) n = Inr x" by simp
  let ?goal = "\<lambda>m. \<exists>s'. m s = (Inr (), s') \<and> nw_inv env s' \<and> nh_frame env ''nw'' ''NW_SENSOR_DATA'' s s' \<and> high_usage s' = high_usage s \<and>
      alert_word cpu_rule (nh_out s) (nh_raised s) (nh_out s') (nh_raised s')"
  have "?goal (cable_alert env n st v)" if "c x"
  proof -
    let ?s = "s\<lparr>prev_cable_status := PDict (AList.update n (PStr v) b)\<rparr>"
    have fr: "nh_frame env ''nw'' ''NW_SENSOR_DATA'' s ?s" by (simp add: nh_frame_def)
    let ?e = "''Newtork Cable for interface '' @ n @ '' is '' @ v @ ''.''"
    obtain s' where s': "send_ifdata_json_msg env n NW_CABLE_RESOURCE_TYPE st ?e ?s = (Inr (), s')" "nw_inv env s'"
        "nh_frame env ''nw'' ''NW_SENSOR_DATA'' ?s s'" "nh_raised s' = nh_raised ?s @ [(NW_CABLE_RESOURCE_TYPE @ ''/'' @ n, st)]"
        "prev_nw_if_status s' = PDict a" "prev_cable_status s' = PDict (AList.update n (PStr v) b)" "high_usage s' = high_usage ?s"
      using ifdata_run [OF nh_frame_ready [OF fr s(1)], of a "AList.update n (PStr v) b" st n NW_CABLE_RESOURCE_TYPE ?e] ab assms(1) by auto
    have "nh_out s' = (nh_out s)(cable_item n := if v = ''DISCONNECTED'' then Some ''fault'' else None)"
      using nh_out_cable [OF ab(2) s'(6)] s'(5,7) ab(1) by simp
    moreover have "nh_out s (cable_item n) = p" using c [OF that] x ab(2) by (simp add: nh_out_items status_is_def)
    ultimately have "alert_word cpu_rule (nh_out s) (nh_raised s) (nh_out s') (nh_raised s')"
      using one_alert [of cpu_rule "nh_out s" "cable_item n" st] assms(2) s'(4) by (simp add: cable_item_def)
    moreover have "cable_alert env n st v s = (Inr (), s')"
      using s'(1) ab(2) by (simp add: cable_alert_def set_cable_status_def seqp_def bindp_def getp_def liftp_def modp_def)
    ultimately show ?thesis using s'(2,7) nh_frame_trans [OF fr s'(3)] by auto
  qed
  moreover have "?goal (ret ())" using s(2) by (simp add: ret_def nh_frame_refl alert_word_refl)
  ultimately show "?goal (bindp (prev_status prev_cable_status n) (\<lambda>x. if c x then cable_alert env n st v else ret ()))"
    using x ab(2) by (simp add: prev_status_def bindp_def getp_def liftp_def)
qed

lemma tracks_check_interface:
  assumes "good_interface x"
  shows "tracks env (check_interface env x)"
proof -
  obtain d n st cb where x: "x = PDict d" "map_of d ''ifId'' = Some (PStr n)" "map_of d ''nwStatus'' = Some (PStr st)"
      "map_of d ''nwCableConnStatus'' = Some (PStr cb)" using assms by (auto simp: good_interface_def)
  have down: "tracks env (nw_down env n)"
    unfolding nw_down_def by (rule tracks_nw [where p = None]) (simp_all add: cpu_rule_def)
  have up: "tracks env (bindp (prev_status prev_nw_if_status n) (\<lambda>x. if x = PStr ''DOWN'' then nw_alert env n ''fault_resolved'' ''UP'' else ret ()))"
    by (rule tracks_nw [where p = "Some ''fault''"]) (simp_all add: cpu_rule_def)
  have off: "tracks env (bindp (prev_status prev_cable_status n) (\<lambda>x. if x \<noteq> PStr ''DISCONNECTED'' then cable_alert env n ''fault'' ''DISCONNECTED'' else ret ()))"
    by (rule tracks_cable [where p = None]) (simp_all add: cpu_rule_def)
  have on: "tracks env (bindp (prev_status prev_cable_status n) (\<lambda>x. if x = PStr ''DISCONNECTED'' then cable_alert env n ''fault_resolved'' ''CONNECTED'' else ret ()))"
    by (rule tracks_cable [where p = "Some ''fault''"]) (simp_all add: cpu_rule_def)
  show ?thesis
    using x down up off on by (auto simp: check_interface_def bindp_liftp intro: tracks_seqp cong: if_cong)
qed

section \<open>The invariant of the handler\<close>

definition data_names :: "string set" where
  "data_names = {''CPU_USAGE_DATA'', ''DISK_USAGE_DATA'', ''MEMORY_USAGE_DATA'', ''NW_SENSOR_DATA''}"

definition nh_env_ok :: "nh_env \<Rightarrow> bool" where
  "nh_env_ok env \<longleftrightarrow> json_able (nh_units env) \<and> inj_on (usage_path env) data_names \<and> (\<forall>p \<in> data_names. \<forall>q \<in> data_names. indep (usage_path env p) (usage_path env q)) \<and>
     good_threshold env (cpu_threshold_conf env) \<and> good_threshold env (memory_threshold_conf env) \<and> good_threshold env (disk_threshold_conf env) \<and>
     (\<exists>a. nh_sensor env = Inr a \<and> (\<forall>n. json_able (a n)))"

definition nh_inv :: "nh_env \<Rightarrow> nh_state \<Rightarrow> bool" where
  "nh_inv env s \<longleftrightarrow> nh_ready env s \<and> good_threshold env (cpu_usage_threshold s) \<and> good_threshold env (host_memory_usage_threshold s) \<and>
     good_threshold env (disk_usage_threshold s) \<and>
     (\<exists>since it. usage_inv env ''cpu'' ''CPU_USAGE_DATA'' (high_usage s ''cpu'', since, it) s) \<and>
     (\<exists>since it. usage_inv env ''memory'' ''MEMORY_USAGE_DATA'' (high_usage s ''memory'', since, it) s) \<and> disk_inv env s \<and> nw_inv env s"

lemma usage_inv_frame:
  assumes "nh_frame env r p s s'" and "r \<noteq> res" and "usage_path env path \<noteq> usage_path env p" and "indep (usage_path env p) (usage_path env path)"
    and "writable (nh_fs s) (usage_path env p)" and "usage_inv env res path u s"
  shows "usage_inv env res path u s'"
  using assms by (auto simp: usage_inv_def nh_frame_def)

lemma disk_inv_frame:
  assumes "nh_frame env r p s s'" and "r \<noteq> ''disk''" and "usage_path env ''DISK_USAGE_DATA'' \<noteq> usage_path env p"
    and "indep (usage_path env p) (usage_path env ''DISK_USAGE_DATA'')" and "writable (nh_fs s) (usage_path env p)" and "disk_inv env s"
  shows "disk_inv env s'"
  using assms by (auto simp: disk_inv_def nh_frame_def)

lemma nw_inv_frame:
  assumes "nh_frame env r p s s'" and "r \<noteq> ''nw''" and "usage_path env ''NW_SENSOR_DATA'' \<noteq> usage_path env p"
    and "indep (usage_path env p) (usage_path env ''NW_SENSOR_DATA'')" and "writable (nh_fs s) (usage_path env p)" and "nw_inv env s"
  shows "nw_inv env s'"
  using assms by (auto simp: nw_inv_def nh_frame_def)

text \<open>The alerts of one flag.\<close>

lemma flag_word:
  assumes "k \<in> {''cpu'', ''memory'', ''disk''}" and "\<forall>r. r \<noteq> k \<longrightarrow> high_usage s' r = high_usage s r"
    and "prev_nw_if_status s' = prev_nw_if_status s" and "prev_cable_status s' = prev_cable_status s"
    and "nh_raised s' = nh_raised s @ map (Pair k) out"
    and "replay_by cpu_rule (if high_usage s k then Some ''fault'' else None) out = Some (if high_usage s' k then Some ''fault'' else None)"
  shows "alert_word cpu_rule (nh_out s) (nh_raised s) (nh_out s') (nh_raised s')"
proof -
  have same: "nh_out s' j = nh_out s j" if "j \<noteq> k" for j using that assms(2-4) by (simp add: nh_out_def)
  have "k \<noteq> nw_item n" "k \<noteq> cable_item n" for n using assms(1) by (auto dest: sym)
  then have "nh_out s k = (if high_usage s k then Some ''fault'' else None)" "nh_out s' k = (if high_usage s' k then Some ''fault'' else None)"
    using assms(1) by (simp_all add: nh_out_def)
  moreover have "fru_alerts j (map (Pair k) out) = (if j = k then out else [])" for j
    by (induction out) (auto simp: fru_alerts_def)
  ultimately show ?thesis
    using same assms(5,6) by (auto simp: alert_word_def fru_alerts_def)
qed

lemma usage_spec_word:
  "usage_spec wait limit (high, since, iters) now over = ((high', since', iters'), out) \<Longrightarrow>
    replay_by cpu_rule (if high then Some ''fault'' else None) out = Some (if high' then Some ''fault'' else None)"
  by (auto simp: usage_spec_def cpu_rule_def Let_def split: if_splits)

lemma disk_spec_word:
  "disk_spec high ge le = (high', out) \<Longrightarrow>
    replay_by cpu_rule (if high then Some ''fault'' else None) out = Some (if high' then Some ''fault'' else None)"
  by (auto simp: disk_spec_def cpu_rule_def Let_def split: if_splits)

text \<open>One check keeps the invariant and the histories.\<close>

definition keeps_history :: "nh_env \<Rightarrow> (nh_state, unit) proc \<Rightarrow> bool" where
  "keeps_history env m \<longleftrightarrow> (\<forall>s. nh_inv env s \<longrightarrow> (\<exists>s'. m s = (Inr (), s') \<and> nh_inv env s' \<and>
     alert_word cpu_rule (nh_out s) (nh_raised s) (nh_out s') (nh_raised s')))"

lemma frame_kept:
  assumes env: "nh_env_ok env" and fr: "nh_frame env r p s s'" and w: "writable (nh_fs s) (usage_path env p)" and p: "p \<in> data_names"
    and inv: "nh_inv env s"
  shows "nh_ready env s'" "good_threshold env (cpu_usage_threshold s')" "good_threshold env (host_memory_usage_threshold s')"
    "good_threshold env (disk_usage_threshold s')"
    "r \<noteq> ''cpu'' \<Longrightarrow> p \<noteq> ''CPU_USAGE_DATA'' \<Longrightarrow> \<exists>since it. usage_inv env ''cpu'' ''CPU_USAGE_DATA'' (high_usage s' ''cpu'', since, it) s'"
    "r \<noteq> ''memory'' \<Longrightarrow> p \<noteq> ''MEMORY_USAGE_DATA'' \<Longrightarrow> \<exists>since it. usage_inv env ''memory'' ''MEMORY_USAGE_DATA'' (high_usage s' ''memory'', since, it) s'"
    "r \<noteq> ''disk'' \<Longrightarrow> p \<noteq> ''DISK_USAGE_DATA'' \<Longrightarrow> disk_inv env s'" "r \<noteq> ''nw'' \<Longrightarrow> p \<noteq> ''NW_SENSOR_DATA'' \<Longrightarrow> nw_inv env s'"
proof -
  have q: "usage_path env q \<noteq> usage_path env p \<and> indep (usage_path env p) (usage_path env q)" if "q \<in> data_names" "p \<noteq> q" for q
    using env p that unfolding nh_env_ok_def by (auto dest: inj_onD)
  have n: "''CPU_USAGE_DATA'' \<in> data_names" "''MEMORY_USAGE_DATA'' \<in> data_names" "''DISK_USAGE_DATA'' \<in> data_names" "''NW_SENSOR_DATA'' \<in> data_names"
    by (simp_all add: data_names_def)
  have high: "high_usage s' k = high_usage s k" if "r \<noteq> k" for k using fr that by (simp add: nh_frame_def)
  show "nh_ready env s'" using nh_frame_ready [OF fr] inv by (simp add: nh_inv_def)
  show "good_threshold env (cpu_usage_threshold s')" "good_threshold env (host_memory_usage_threshold s')" "good_threshold env (disk_usage_threshold s')"
    using fr inv by (simp_all add: nh_inv_def nh_frame_def)
  show "\<exists>since it. usage_inv env ''cpu'' ''CPU_USAGE_DATA'' (high_usage s' ''cpu'', since, it) s'" if "r \<noteq> ''cpu''" "p \<noteq> ''CPU_USAGE_DATA''"
    using inv usage_inv_frame [OF fr that(1)] q [OF n(1) that(2)] w high [OF that(1)] unfolding nh_inv_def by metis
  show "\<exists>since it. usage_inv env ''memory'' ''MEMORY_USAGE_DATA'' (high_usage s' ''memory'', since, it) s'" if "r \<noteq> ''memory''" "p \<noteq> ''MEMORY_USAGE_DATA''"
    using inv usage_inv_frame [OF fr that(1)] q [OF n(2) that(2)] w high [OF that(1)] unfolding nh_inv_def by metis
  show "disk_inv env s'" if "r \<noteq> ''disk''" "p \<noteq> ''DISK_USAGE_DATA''"
    using inv disk_inv_frame [OF fr that(1)] q [OF n(3) that(2)] w unfolding nh_inv_def by metis
  show "nw_inv env s'" if "r \<noteq> ''nw''" "p \<noteq> ''NW_SENSOR_DATA''"
    using inv nw_inv_frame [OF fr that(1)] q [OF n(4) that(2)] w unfolding nh_inv_def by metis
qed

lemma cpu_history:
  assumes "nh_env_ok env"
  shows "keeps_history env (generate_cpu_data env)"
  unfolding keeps_history_def
proof (intro allI impI)
  fix s
  assume inv: "nh_inv env s"
  then obtain since it where u: "usage_inv env ''cpu'' ''CPU_USAGE_DATA'' (high_usage s ''cpu'', since, it) s" by (auto simp: nh_inv_def)
  let ?wait = "high_cpu_usage_wait_threshold env"
  obtain h' since' it' out where spec: "usage_spec ?wait (iteration_limit env ?wait) (high_usage s ''cpu'', since, it)
      (nd_epoch (nh_node env) (nh_ticks s)) (cpu_over env s) = ((h', since', it'), out)" by (metis surj_pair)
  have rd: "nh_ready env s" "good_threshold env (cpu_usage_threshold s)" using inv by (simp_all add: nh_inv_def)
  obtain a s' where s': "\<forall>n. json_able (a n)" "generate_cpu_data env s = (Inr (), s')" "usage_inv env ''cpu'' ''CPU_USAGE_DATA'' (h', since', it') s'"
      "nh_frame env ''cpu'' ''CPU_USAGE_DATA'' (s\<lparr>nh_ticks := nh_ticks s + 1, nh_reads := nh_reads s + 1, node_sensor := Some a,
         cpu_usage_threshold := read_threshold env (cpu_usage_threshold s)\<rparr>) s'" "nh_raised s' = nh_raised s @ map (Pair ''cpu'') out"
    using generate_cpu_run [OF rd(1) u rd(2) spec] by blast
  let ?s1 = "s\<lparr>nh_ticks := nh_ticks s + 1, nh_reads := nh_reads s + 1, node_sensor := Some a,
         cpu_usage_threshold := read_threshold env (cpu_usage_threshold s)\<rparr>"
  have i1: "nh_inv env ?s1" using inv s'(1) by (auto simp: nh_inv_def nh_ready_def usage_inv_def disk_inv_def nw_inv_def good_threshold_def)
  have w: "writable (nh_fs ?s1) (usage_path env ''CPU_USAGE_DATA'')" using u by (simp add: usage_inv_def)
  have h': "high_usage s' ''cpu'' = h'" using s'(3) by (simp add: usage_inv_def)
  have "nh_inv env s'"
    using frame_kept [OF assms s'(4) w _ i1] s'(3) h' unfolding nh_inv_def [of env s'] by (auto simp: data_names_def)
  moreover have "alert_word cpu_rule (nh_out s) (nh_raised s) (nh_out s') (nh_raised s')"
    using s'(4,5) usage_spec_word [OF spec] h' by (intro flag_word [of "''cpu''" _ _ out]) (simp_all add: nh_frame_def)
  ultimately show "\<exists>s'. generate_cpu_data env s = (Inr (), s') \<and> nh_inv env s' \<and> alert_word cpu_rule (nh_out s) (nh_raised s) (nh_out s') (nh_raised s')"
    using s'(2) by blast
qed

lemma memory_history:
  assumes "nh_env_ok env"
  shows "keeps_history env (generate_host_update env)"
  unfolding keeps_history_def
proof (intro allI impI)
  fix s
  assume inv: "nh_inv env s"
  then obtain since it where u: "usage_inv env ''memory'' ''MEMORY_USAGE_DATA'' (high_usage s ''memory'', since, it) s" by (auto simp: nh_inv_def)
  let ?wait = "high_memory_usage_wait_threshold env"
  obtain h' since' it' out where spec: "usage_spec ?wait (iteration_limit env ?wait) (high_usage s ''memory'', since, it)
      (nd_epoch (nh_node env) (nh_ticks s)) (memory_over env s) = ((h', since', it'), out)" by (metis surj_pair)
  have rd: "nh_ready env s" "good_threshold env (host_memory_usage_threshold s)" using inv by (simp_all add: nh_inv_def)
  obtain a s' where s': "\<forall>n. json_able (a n)" "generate_host_update env s = (Inr (), s')" "usage_inv env ''memory'' ''MEMORY_USAGE_DATA'' (h', since', it') s'"
      "nh_frame env ''memory'' ''MEMORY_USAGE_DATA'' (s\<lparr>nh_ticks := nh_ticks s + 1, nh_reads := nh_reads s + 1, node_sensor := Some a,
         host_memory_usage_threshold := read_threshold env (host_memory_usage_threshold s)\<rparr>) s'" "nh_raised s' = nh_raised s @ map (Pair ''memory'') out"
    using generate_host_run [OF rd(1) u rd(2) spec] by blast
  let ?s1 = "s\<lparr>nh_ticks := nh_ticks s + 1, nh_reads := nh_reads s + 1, node_sensor := Some a,
         host_memory_usage_threshold := read_threshold env (host_memory_usage_threshold s)\<rparr>"
  have i1: "nh_inv env ?s1" using inv s'(1) by (auto simp: nh_inv_def nh_ready_def usage_inv_def disk_inv_def nw_inv_def good_threshold_def)
  have w: "writable (nh_fs ?s1) (usage_path env ''MEMORY_USAGE_DATA'')" using u by (simp add: usage_inv_def)
  have h': "high_usage s' ''memory'' = h'" using s'(3) by (simp add: usage_inv_def)
  have "nh_inv env s'"
    using frame_kept [OF assms s'(4) w _ i1] s'(3) h' unfolding nh_inv_def [of env s'] by (auto simp: data_names_def)
  moreover have "alert_word cpu_rule (nh_out s) (nh_raised s) (nh_out s') (nh_raised s')"
    using s'(4,5) usage_spec_word [OF spec] h' by (intro flag_word [of "''memory''" _ _ out]) (simp_all add: nh_frame_def)
  ultimately show "\<exists>s'. generate_host_update env s = (Inr (), s') \<and> nh_inv env s' \<and> alert_word cpu_rule (nh_out s) (nh_raised s) (nh_out s') (nh_raised s')"
    using s'(2) by blast
qed

lemma disk_history:
  assumes "nh_env_ok env"
  shows "keeps_history env (generate_disk_space_alert env)"
  unfolding keeps_history_def
proof (intro allI impI)
  fix s
  assume inv: "nh_inv env s"
  have rd: "nh_ready env s" "disk_inv env s" "json_able (nh_units env)" "good_threshold env (disk_usage_threshold s)"
    using inv assms by (simp_all add: nh_inv_def nh_env_ok_def)
  obtain b a where ba: "nh_read env (nh_reads s) ''disk_space_alert'' = (Inr b, a)" "good_reading ''disk_space_alert'' a"
      "read_data env ''disk_space_alert'' s = (Inr b, s\<lparr>nh_reads := nh_reads s + 1, node_sensor := Some a\<rparr>)"
    using read_data_run [OF rd(1)] by blast
  show "\<exists>s'. generate_disk_space_alert env s = (Inr (), s') \<and> nh_inv env s' \<and> alert_word cpu_rule (nh_out s) (nh_raised s) (nh_out s') (nh_raised s')"
  proof (cases b)
    case False
    let ?s' = "s\<lparr>nh_reads := nh_reads s + 1, node_sensor := Some a\<rparr>"
    have "nh_inv env ?s'" using inv ba(2) by (auto simp: nh_inv_def nh_ready_def usage_inv_def disk_inv_def nw_inv_def good_reading_def)
    moreover have "nh_out ?s' = nh_out s" by (simp add: nh_out_def fun_eq_iff)
    ultimately show ?thesis using ba(3) False by (simp add: generate_disk_space_alert_def bindp_run ret_def alert_word_refl)
  next
    case True
    obtain h' out where spec: "disk_spec (high_usage s ''disk'') (disk_test py_ge env s) (disk_test py_le env s) = (h', out)" by force
    obtain a s' where s': "\<forall>n. json_able (a n)" "generate_disk_space_alert env s = (Inr (), s')" "disk_inv env s'" "high_usage s' ''disk'' = h'"
        "nh_frame env ''disk'' ''DISK_USAGE_DATA'' (s\<lparr>nh_reads := nh_reads s + 1, node_sensor := Some a,
           disk_usage_threshold := read_threshold env (disk_usage_threshold s)\<rparr>) s'" "nh_raised s' = nh_raised s @ map (Pair ''disk'') out"
      using generate_disk_run [OF rd _ spec] ba(1) True by auto
    let ?s1 = "s\<lparr>nh_reads := nh_reads s + 1, node_sensor := Some a, disk_usage_threshold := read_threshold env (disk_usage_threshold s)\<rparr>"
    have i1: "nh_inv env ?s1" using inv s'(1) by (auto simp: nh_inv_def nh_ready_def usage_inv_def disk_inv_def nw_inv_def good_threshold_def)
    have w: "writable (nh_fs ?s1) (usage_path env ''DISK_USAGE_DATA'')" using rd(2) by (simp add: disk_inv_def)
    have "nh_inv env s'"
      using frame_kept [OF assms s'(5) w _ i1] s'(3) unfolding nh_inv_def [of env s'] by (auto simp: data_names_def)
    moreover have "alert_word cpu_rule (nh_out s) (nh_raised s) (nh_out s') (nh_raised s')"
      using s'(4,5,6) disk_spec_word [OF spec] by (intro flag_word [of "''disk''" _ _ out]) (simp_all add: nh_frame_def)
    ultimately show ?thesis using s'(2) by blast
  qed
qed

lemma nw_history:
  assumes "nh_env_ok env"
  shows "keeps_history env (generate_if_data env)"
  unfolding keeps_history_def
proof (intro allI impI)
  fix s
  assume inv: "nh_inv env s"
  then have "nh_ready env s" by (simp add: nh_inv_def)
  from read_data_run [OF this, of "''if_data''"] obtain b a where a: "good_reading ''if_data'' a"
      "read_data env ''if_data'' s = (Inr b, s\<lparr>nh_reads := nh_reads s + 1, node_sensor := Some a\<rparr>)" by blast
  let ?s1 = "s\<lparr>nh_reads := nh_reads s + 1, node_sensor := Some a\<rparr>"
  have i1: "nh_inv env ?s1" using inv a(1) by (auto simp: nh_inv_def nh_ready_def usage_inv_def disk_inv_def nw_inv_def good_reading_def)
  obtain xs where xs: "a ''if_data'' = PList xs" "\<forall>x \<in> set xs. good_interface x" using a(1) by (auto simp: good_reading_def)
  have "tracks env (forp xs (check_interface env))" using xs(2) by (intro tracks_forp tracks_check_interface) blast
  moreover have "nh_ready env ?s1" "nw_inv env ?s1" using i1 by (simp_all add: nh_inv_def)
  ultimately obtain s' where s': "forp xs (check_interface env) ?s1 = (Inr (), s')" "nw_inv env s'" "nh_frame env ''nw'' ''NW_SENSOR_DATA'' ?s1 s'"
      "high_usage s' = high_usage ?s1" "alert_word cpu_rule (nh_out ?s1) (nh_raised ?s1) (nh_out s') (nh_raised s')"
    unfolding tracks_def by blast
  have w: "writable (nh_fs ?s1) (usage_path env ''NW_SENSOR_DATA'')" using i1 by (simp add: nh_inv_def nw_inv_def)
  have "nh_inv env s'"
    using frame_kept [OF assms s'(3) w _ i1] s'(2) unfolding nh_inv_def [of env s'] by (auto simp: data_names_def)
  moreover have "nh_out ?s1 = nh_out s" by (simp add: nh_out_def fun_eq_iff)
  moreover have "generate_if_data env s = (Inr (), s')"
    using a(2) s'(1) xs(1) by (simp add: generate_if_data_def bindp_run getp_def sensor_attr_def bindp_liftp)
  ultimately show "\<exists>s'. generate_if_data env s = (Inr (), s') \<and> nh_inv env s' \<and> alert_word cpu_rule (nh_out s) (nh_raised s) (nh_out s') (nh_raised s')"
    using s'(5) by auto
qed

lemma keeps_history_seqp:
  assumes "keeps_history env m" and "keeps_history env n"
  shows "keeps_history env (seqp m n)"
  unfolding keeps_history_def
proof (intro allI impI)
  fix s
  assume "nh_inv env s"
  then obtain s1 where s1: "m s = (Inr (), s1)" "nh_inv env s1" "alert_word cpu_rule (nh_out s) (nh_raised s) (nh_out s1) (nh_raised s1)"
    using assms(1) unfolding keeps_history_def by blast
  then obtain s2 where s2: "n s1 = (Inr (), s2)" "nh_inv env s2" "alert_word cpu_rule (nh_out s1) (nh_raised s1) (nh_out s2) (nh_raised s2)"
    using assms(2) unfolding keeps_history_def by blast
  with s1(1) alert_word_trans [OF s1(3) s2(3)]
  show "\<exists>s'. seqp m n s = (Inr (), s') \<and> nh_inv env s' \<and> alert_word cpu_rule (nh_out s) (nh_raised s) (nh_out s') (nh_raised s')"
    by (auto simp: seqp_run)
qed

lemma checks_history: "nh_env_ok env \<Longrightarrow> keeps_history env (nh_checks env)"
  unfolding nh_checks_def by (intro keeps_history_seqp cpu_history memory_history nw_history disk_history)

section \<open>Restarts\<close>

text \<open>A new process: the class attributes have their initial values, then \<^verbatim>\<open>initialize\<close> and the first look-up of the sensor.\<close>

definition nh_restart :: "nh_env \<Rightarrow> (nh_state, unit) proc" where
  "nh_restart env = seqp (modp (\<lambda>s. s\<lparr>high_usage := (\<lambda>_. False), usage_time_map := (\<lambda>_. -1), fault_resolved_iterations := (\<lambda>_. 0),
     prev_nw_if_status := PDict [], prev_cable_status := PDict []\<rparr>)) (seqp (nh_initialize env) (ensure_sensor env))"

lemma init_usage_run:
  assumes "fs_wf (nh_fs s)" and "store_get (nh_fs s) (usage_path env path) = usage_record res h since it" and "res \<noteq> ''nw''"
  shows "init_from_persistent_cache env res path s =
    (Inr (), s\<lparr>persistent_data := (persistent_data s)(res := usage_record res h since it), high_usage := (high_usage s)(res := h)\<rparr>)"
proof -
  have "isfile (nh_fs s) (usage_path env path)"
    using assms(1,2) by (auto simp: fs_wf_get isfile_def usage_record_def split: option.splits)
  moreover have "truthy (usage_record res h since it)" by (simp add: usage_record_def)
  moreover have "(lower (bool_text h) = ''true'') = h"
  proof -
    have "lower ''True'' = ''true''" "lower ''False'' \<noteq> ''true''" by code_simp+
    then show ?thesis by (simp add: bool_text_def)
  qed
  ultimately show ?thesis
    using assms(2,3) stored_usage(3) [of res h since it]
    by (simp add: init_from_persistent_cache_def seqp_def bindp_def getp_def modp_def liftp_def)
qed

lemma init_nw_run:
  assumes "nw_inv env s0" and "nh_fs s = nh_fs s0"
  shows "\<exists>d. init_from_persistent_cache env ''nw'' ''NW_SENSOR_DATA'' s =
    (Inr (), s\<lparr>persistent_data := (persistent_data s)(''nw'' := d), prev_nw_if_status := prev_nw_if_status s0, prev_cable_status := prev_cable_status s0\<rparr>)"
proof -
  obtain a b where ab: "prev_nw_if_status s0 = PDict a" "prev_cable_status s0 = PDict b" "fs_wf (nh_fs s)"
      "store_get (nh_fs s) (usage_path env ''NW_SENSOR_DATA'') = PDict [(''prev_nw_if_status'', PDict a), (''prev_cable_status'', PDict b)]"
    using assms by (auto simp: nw_inv_def)
  then have "isfile (nh_fs s) (usage_path env ''NW_SENSOR_DATA'')" by (auto simp: fs_wf_get isfile_def split: option.splits)
  with ab show ?thesis
    by (simp add: init_from_persistent_cache_def seqp_def bindp_def getp_def modp_def liftp_def) blast
qed

lemma restart_history:
  assumes env: "nh_env_ok env"
  shows "keeps_history env (nh_restart env)"
  unfolding keeps_history_def
proof (intro allI impI)
  fix s
  assume inv: "nh_inv env s"
  obtain c1 c2 m1 m2 d1 where u: "usage_inv env ''cpu'' ''CPU_USAGE_DATA'' (high_usage s ''cpu'', c1, c2) s"
      "usage_inv env ''memory'' ''MEMORY_USAGE_DATA'' (high_usage s ''memory'', m1, m2) s"
      "store_get (nh_fs s) (usage_path env ''DISK_USAGE_DATA'') = usage_record ''disk'' (high_usage s ''disk'') d1 0"
    using inv by (auto simp: nh_inv_def disk_inv_def)
  have st: "store_get (nh_fs s) (usage_path env ''CPU_USAGE_DATA'') = usage_record ''cpu'' (high_usage s ''cpu'') c1 c2"
      "store_get (nh_fs s) (usage_path env ''MEMORY_USAGE_DATA'') = usage_record ''memory'' (high_usage s ''memory'') m1 m2"
      "fs_wf (nh_fs s)" "nw_inv env s" using u(1,2) inv by (simp_all add: usage_inv_def nh_inv_def)
  obtain a where a: "nh_sensor env = Inr a" "\<forall>n. json_able (a n)" using env by (auto simp: nh_env_ok_def)
  obtain s' where s': "nh_restart env s = (Inr (), s')" "nh_fs s' = nh_fs s" "nh_q s' = nh_q s" "nh_raised s' = nh_raised s"
      "prev_nw_if_status s' = prev_nw_if_status s" "prev_cable_status s' = prev_cable_status s" "nh_uuid s' = PNone" "node_sensor s' = Some a"
      "fault_resolved_iterations s' = (\<lambda>_. 0)"
      "high_usage s' = (\<lambda>_. False)(''cpu'' := high_usage s ''cpu'', ''disk'' := high_usage s ''disk'', ''memory'' := high_usage s ''memory'')"
      "cpu_usage_threshold s' = cpu_threshold_conf env" "host_memory_usage_threshold s' = memory_threshold_conf env"
      "disk_usage_threshold s' = disk_threshold_conf env"
  proof -
    let ?s0 = "s\<lparr>high_usage := (\<lambda>_. False), usage_time_map := (\<lambda>_. -1), fault_resolved_iterations := (\<lambda>_. 0),
       prev_nw_if_status := PDict [], prev_cable_status := PDict [], nh_ticks := nh_ticks s + 1, node_sensor := None, nh_sensor_type := PNone,
       nh_epoch_time := str_int (nd_epoch (nh_node env) (nh_ticks s)), raid_drives := [], raid_device := PStr ''N/A'', nh_uuid := PNone, drive_by_device_name := [],
       drive_byid_by_serial_number := [],
       os_sensor_type := map (\<lambda>k. (k, PNone)) [''disk_space'', ''memory_usage'', ''nw'', ''cpu_usage'', ''raid_data''],
       cpu_usage_threshold := cpu_threshold_conf env, host_memory_usage_threshold := memory_threshold_conf env,
       disk_usage_threshold := disk_threshold_conf env, persistent_data := (\<lambda>_. PDict [])\<rparr>"
    define s3 where "s3 = ?s0\<lparr>persistent_data := (persistent_data ?s0)(''cpu'' := usage_record ''cpu'' (high_usage s ''cpu'') c1 c2,
       ''disk'' := usage_record ''disk'' (high_usage s ''disk'') d1 0, ''memory'' := usage_record ''memory'' (high_usage s ''memory'') m1 m2),
       high_usage := (\<lambda>_. False)(''cpu'' := high_usage s ''cpu'', ''disk'' := high_usage s ''disk'', ''memory'' := high_usage s ''memory'')\<rparr>"
    have run: "nh_restart env s = seqp (init_from_persistent_cache env ''nw'' ''NW_SENSOR_DATA'') (ensure_sensor env) s3"
      using st(1-3) u(3)
      by (simp add: nh_restart_def nh_initialize_def nh_clock_def seqp_def bindp_def modp_def init_usage_run s3_def fun_upd_twist)
    obtain d where "init_from_persistent_cache env ''nw'' ''NW_SENSOR_DATA'' s3 = (Inr (), s3\<lparr>persistent_data := (persistent_data s3)(''nw'' := d),
        prev_nw_if_status := prev_nw_if_status s, prev_cable_status := prev_cable_status s\<rparr>)"
      using init_nw_run [OF st(4), of s3] by (auto simp: s3_def)
    with run a(1) show ?thesis
      by (intro that [of "s3\<lparr>persistent_data := (persistent_data s3)(''nw'' := d),
        prev_nw_if_status := prev_nw_if_status s, prev_cable_status := prev_cable_status s, node_sensor := Some a\<rparr>"])
        (simp_all add: seqp_run ensure_sensor_def bindp_def getp_def liftp_def modp_def, simp_all add: s3_def)
  qed
  have "nh_inv env s'"
    using inv env a(2) s'(2-13) st u by (auto simp: nh_inv_def nh_env_ok_def nh_ready_def usage_inv_def disk_inv_def nw_inv_def)
  moreover have "nh_out s' = nh_out s" using s'(5,6,10) by (auto simp: nh_out_def fun_eq_iff)
  ultimately show "\<exists>s'. nh_restart env s = (Inr (), s') \<and> nh_inv env s' \<and> alert_word cpu_rule (nh_out s) (nh_raised s) (nh_out s') (nh_raised s')"
    using s'(1,4) by (auto simp: alert_word_refl)
qed

section \<open>Histories\<close>

inductive nh_step :: "nh_env \<Rightarrow> nh_state \<Rightarrow> nh_state \<Rightarrow> bool" for env where
  cpu: "generate_cpu_data env s = (Inr (), s') \<Longrightarrow> nh_step env s s'"
| memory: "generate_host_update env s = (Inr (), s') \<Longrightarrow> nh_step env s s'"
| disk: "generate_disk_space_alert env s = (Inr (), s') \<Longrightarrow> nh_step env s s'"
| network: "generate_if_data env s = (Inr (), s') \<Longrightarrow> nh_step env s s'"
| restart: "nh_restart env s = (Inr (), s') \<Longrightarrow> nh_step env s s'"

lemma keeps_historyD:
  assumes "keeps_history env m" and "m s = (Inr (), s')" and "nh_inv env s"
  shows "nh_inv env s' \<and> alert_word cpu_rule (nh_out s) (nh_raised s) (nh_out s') (nh_raised s')"
  using assms by (force simp: keeps_history_def)

lemma nh_step_history:
  assumes "nh_step env s s'" and "nh_env_ok env" and "nh_inv env s"
  shows "nh_inv env s' \<and> alert_word cpu_rule (nh_out s) (nh_raised s) (nh_out s') (nh_raised s')"
  using assms(1,3)
  by cases (auto dest: keeps_historyD [OF cpu_history [OF assms(2)]] keeps_historyD [OF memory_history [OF assms(2)]]
      keeps_historyD [OF disk_history [OF assms(2)]] keeps_historyD [OF nw_history [OF assms(2)]] keeps_historyD [OF restart_history [OF assms(2)]])

interpretation node: alert_words cpu_rule "\<lambda>s. nh_env_ok env \<and> nh_inv env s" "nh_step env" nh_out nh_raised for env
  by unfold_locales (auto dest: nh_step_history)

text \<open>
  C11. Through any sequence of checks of CPU, memory, disk and network and of restarts, the alerts of each item the handler
  watches alternate between fault and fault_resolved, starting with fault, and a fault is outstanding in the state of the
  handler exactly when the last alert of the item is a fault.\<close>

theorem node_alert_history:
  assumes "nh_env_ok env" and "nh_inv env s" and "nh_raised s = []" and "\<forall>k. nh_out s k = None" and "(nh_step env)\<^sup>*\<^sup>* s s'"
  shows "replay_by cpu_rule None (fru_alerts k (nh_raised s')) = Some (nh_out s' k)"
proof -
  have "node.faithful s" using assms(3,4) by (simp add: node.faithful_def fru_alerts_def)
  with node.steps_faithful [OF assms(5)] assms(1,2) have "node.faithful s'" by blast
  then show ?thesis by (simp add: node.faithful_def)
qed

section \<open>The messages of other sensors\<close>

definition egress_q :: "nh_state \<Rightarrow> (pyv \<times> nat option) list" where
  "egress_q s = (case map_of (msgQlist (nh_q s)) ''EgressProcessor'' of None \<Rightarrow> [] | Some ms \<Rightarrow> ms)"

lemma write_egress_run:
  assumes "has_queue ''EgressProcessor'' (nh_q s)"
  shows "\<exists>s'. on_nh_q (write_internal_msgQ ''EgressProcessor'' t None) s = (Inr (), s') \<and> egress_q s' = egress_q s @ [(t, None)]"
proof -
  obtain ms where "map_of (msgQlist (nh_q s)) ''EgressProcessor'' = Some ms" using assms by (auto simp: has_queue_def)
  then show ?thesis
    by (intro exI [of _ "s\<lparr>nh_q := (nh_q s)\<lparr>msgQlist := AList.update ''EgressProcessor'' (ms @ [(t, None)]) (msgQlist (nh_q s))\<rparr>\<rparr>"])
      (simp add: on_nh_q_def write_internal_msgQ_def egress_q_def)
qed

lemma ipmi_msg_sendable:
  assumes "msg_env_ok env" and "json_able (PDict d)" and "look d ''info'' = PDict i"
  shows "\<exists>m. NodeIPMIDataMsg env (PDict d) = Inr m \<and> sendable m"
proof -
  have "\<forall>p \<in> set i. json_able (snd p)" using json_able_look [OF assms(2), of "''info''"] assms(3) by simp
  then show ?thesis
  using assms(1,3) json_able_look [OF assms(2)]
  by (auto simp: NodeIPMIDataMsg_def NodeHWDataMsg_def with_schema_def msg_env_ok_def sensor_envelope_def envelope_def sspl_ll_msg_header_def
      get_keys_PDict sendable_def)
qed

lemma fru_data_run:
  assumes "nh_ready env s" and "nh_uuid s = PNone" and "json_able (PDict d)" and "look d ''info'' = PDict i"
  shows "\<exists>t s'. bindr (NodeIPMIDataMsg (nh_msgs env) (PDict d)) (sensor_getJson (nh_msgs env)) = Inr t \<and>
    generate_node_fru_data env (node_data_msg d) s = (Inr (), s') \<and> egress_q s' = egress_q s @ [(PStr t, None)]"
proof -
  have ok: "msg_env_ok (nh_msgs env)" using assms(1) by (simp add: nh_ready_def)
  obtain m where m: "NodeIPMIDataMsg (nh_msgs env) (PDict d) = Inr m" "sendable m" using ipmi_msg_sendable [OF ok assms(3,4)] by blast
  obtain a where a: "node_sensor s = Some a" using assms(1) by (auto simp: nh_ready_def)
  obtain s1 where s1: "(if a ''host_id'' = PNone then bindp (read_data env ''None'') (\<lambda>_. ret ()) else ret ()) s = (Inr (), s1)" "nh_q s1 = nh_q s"
      "nh_uuid s1 = PNone"
    using read_data_run [OF assms(1), of "''None''"] assms(2) by (cases "a ''host_id'' = PNone") (auto simp: bindp_run ret_def)
  obtain t where t: "sensor_getJson (nh_msgs env) m = Inr t"
    using json_text_run [OF ok m(2), of s1] s1(3) by (auto simp: json_text_def py_exec with_uuid_def split: sum.splits)
  have "has_queue ''EgressProcessor'' (nh_q s1)" using assms(1) s1(2) by (simp add: nh_ready_def)
  then obtain s' where s': "on_nh_q (write_internal_msgQ ''EgressProcessor'' (PStr t) None) s1 = (Inr (), s')" "egress_q s' = egress_q s1 @ [(PStr t, None)]"
    using write_egress_run by blast
  have "get_path (node_data_msg d) request_path = Inr (PDict d)" by (simp add: node_data_msg_def request_path_def)
  then have "generate_node_fru_data env (node_data_msg d) s = (Inr (), s')"
    using a s1 m(1) t s'(1)
    by (simp add: generate_node_fru_data_def bindp_run seqp_run getp_def bindp_liftp sensor_attr_def json_text_def with_uuid_def ret_def split del: if_split)
  with m(1) t s'(2) s1(2) show ?thesis by (simp add: egress_q_def)
qed

lemma forward_run:
  assumes "nh_ready env s" and "json_able (PDict d)" and "look d ''sensor_type'' = PNone" and "look d ''info'' = PDict i" and "look i ''resource_type'' \<noteq> PNone"
    and "nd_loads (nh_node env) raw = Inr (node_data_msg d)"
  shows "\<exists>t s'. bindr (NodeIPMIDataMsg (nh_msgs env) (PDict d)) (sensor_getJson (nh_msgs env)) = Inr t \<and>
    nh_process_msg env (PStr raw) s = (Inr (), s') \<and> egress_q s' = egress_q s @ [(PStr t, None)]"
proof -
  let ?s = "s\<lparr>nh_uuid := PNone\<rparr>"
  have "nh_ready env ?s" using assms(1) by (simp add: nh_ready_def)
  from fru_data_run [OF this _ assms(2,4)] obtain t s' where t: "bindr (NodeIPMIDataMsg (nh_msgs env) (PDict d)) (sensor_getJson (nh_msgs env)) = Inr t"
      "generate_node_fru_data env (node_data_msg d) ?s = (Inr (), s')" "egress_q s' = egress_q s @ [(PStr t, None)]"
    by (auto simp: egress_q_def)
  have k: "get_key (PDict e) k = Inr (look e k)" for e k by (simp add: look_def)
  have "look [(''sensor_request_type'', x)] ''sensor_request_type'' = x" "look [(''node_data'', x)] ''node_data'' = x"
      "look [(''sensor_request_type'', x)] ''sspl_ll_msg_header'' = PNone" "look [(''sensor_request_type'', x)] ''sensor_response_type'' = PNone" for x
    by (simp_all add: look_def)
  then have "get_chain (node_data_msg d) [''sspl_ll_msg_header'', ''uuid''] = Inr PNone"
      "get_chain (node_data_msg d) (request_path @ [''sensor_type'']) = Inr PNone" "get_key (node_data_msg d) ''sensor_response_type'' = Inr PNone"
      "get_chain (node_data_msg d) (request_path @ [''info'', ''resource_type'']) = Inr (look i ''resource_type'')"
    using assms(3-5) by (simp_all add: node_data_msg_def request_path_def k del: get_key_PDict)
  then have "nh_process_msg env (PStr raw) s = (Inr (), s')"
    using assms(5,6) t(2) by (simp add: nh_process_msg_def process_dict_def bindp_run seqp_run bindp_liftp modp_def)
  with t(1,3) show ?thesis by blast
qed

text \<open>What the sensors of CPUs and memory send.\<close>

definition os_alert :: "string \<Rightarrow> string \<Rightarrow> string \<Rightarrow> pydict \<Rightarrow> bool" where
  "os_alert raw a rid d \<longleftrightarrow> json_dumps (node_data_msg d) = Inr raw \<and> look d ''alert_type'' = PStr a \<and> look d ''sensor_type'' = PNone \<and>
     (\<exists>i rt. look d ''info'' = PDict i \<and> look i ''resource_id'' = PStr rid \<and> look i ''resource_type'' = PStr rt)"

lemma bindp_Inr: "bindp m f s = (Inr y, s') \<longleftrightarrow> (\<exists>x s1. m s = (Inr x, s1) \<and> f x s1 = (Inr y, s'))"
  by (auto simp: bindp_def split: prod.splits sum.splits)

lemma seqp_Inr: "seqp m n s = (Inr y, s') \<longleftrightarrow> (\<exists>x s1. m s = (Inr x, s1) \<and> n s1 = (Inr y, s'))"
  by (auto simp: seqp_def split: prod.splits sum.splits)

lemma cpu_message_alert:
  assumes "cpu_create_json_message env walk c a s = (Inr (PStr raw), s')"
  shows "\<exists>d. os_alert raw a (resource_id c) d"
  using assms
  by (auto simp: cpu_create_json_message_def Let_def bindp_Inr seqp_Inr os_alert_def liftp_def ret_def look_def simp del: json_dumps.simps)

lemma mem_message_alert:
  assumes "mem_create_json_message env a s = (Inr (PStr raw), s')"
  shows "\<exists>d. os_alert raw a ''0'' d"
  using assms
  by (auto simp: mem_create_json_message_def Let_def bindp_Inr seqp_Inr os_alert_def liftp_def ret_def look_def simp del: json_dumps.simps)


section \<open>RAID data\<close>

definition good_drive :: "pyv \<Rightarrow> bool" where
  "good_drive v \<longleftrightarrow> (\<exists>d. v = PDict d \<and> (map_of d ''identity'' = None \<or>
     (\<exists>i p. map_of d ''identity'' = Some (PDict i) \<and> map_of i ''path'' = Some (PStr p))))"

definition filled :: "nh_state \<Rightarrow> pyv \<Rightarrow> pyv" where
  "filled s drive = (case fill_drive s drive of Inr v \<Rightarrow> v | Inl _ \<Rightarrow> drive)"

lemma fill_drive_ok:
  assumes "good_drive v"
  shows "fill_drive s v = Inr (filled s v)"
proof -
  have "\<exists>w. fill_drive s v = Inr w" using assms by (auto simp: good_drive_def fill_drive_def look_text_def)
  then show ?thesis by (auto simp: filled_def)
qed

lemma filled_cong:
  assumes "drive_by_device_name s' = drive_by_device_name s" and "drive_byid_by_serial_number s' = drive_byid_by_serial_number s"
  shows "filled s' = filled s"
  using assms by (simp add: filled_def fill_drive_def fun_eq_iff cong: if_cong)

lemma fill_drives_run:
  assumes "raid_drives s = pre @ ds" and "\<forall>d \<in> set ds. good_drive d"
  shows "forp [length pre..<length pre + length ds] fill_drives s = (Inr (), s\<lparr>raid_drives := pre @ map (filled s) ds\<rparr>)"
  using assms
proof (induction ds arbitrary: pre s)
  case (Cons d ds)
  let ?s = "s\<lparr>raid_drives := (pre @ [filled s d]) @ ds\<rparr>"
  have same: "filled (s\<lparr>raid_drives := x\<rparr>) = filled s" for x by (rule filled_cong) simp_all
  have "fill_drives (length pre) s = (Inr (), ?s)"
    using Cons.prems fill_drive_ok [of d s] by (simp add: fill_drives_def bindp_run getp_def bindp_liftp modp_def nth_append list_update_append)
  moreover have "forp [length (pre @ [filled s d])..<length (pre @ [filled s d]) + length ds] fill_drives ?s =
      (Inr (), ?s\<lparr>raid_drives := (pre @ [filled s d]) @ map (filled ?s) ds\<rparr>)"
    using Cons.prems by (intro Cons.IH) auto
  moreover have "[length pre..<length pre + length (d # ds)] = length pre # [Suc (length pre)..<Suc (length pre) + length ds]"
    by (simp add: upt_conv_Cons del: upt_Suc)
  ultimately show ?case by (simp add: seqp_run same del: upt_Suc)
qed (simp add: ret_def)

definition raid_request :: "pydict \<Rightarrow> pydict \<Rightarrow> pyv list \<Rightarrow> bool" where
  "raid_request d sp drives \<longleftrightarrow> json_able (PDict d) \<and> look d ''status'' \<noteq> PNone \<and> (\<exists>i. look d ''info'' = PDict i) \<and>
     look d ''specific_info'' = PDict sp \<and> look sp ''drives'' = PList drives \<and> (\<forall>v \<in> set drives. good_drive v)"

definition raid_msg :: "nh_env \<Rightarrow> pydict \<Rightarrow> pyv res" where
  "raid_msg env d = RAIDdataMsg (nh_msgs env) (look d ''host_id'') (look d ''alert_type'') (look d ''alert_id'') (look d ''severity'')
     (look d ''info'') (look d ''specific_info'')"

lemma raid_msg_sendable:
  assumes "msg_env_ok (nh_msgs env)" and "raid_request d sp drives"
  shows "\<exists>m. raid_msg env d = Inr m \<and> sendable m"
proof -
  obtain i where i: "look d ''info'' = PDict i" "look d ''specific_info'' = PDict sp" "json_able (PDict d)" using assms(2) by (auto simp: raid_request_def)
  then have "json_able (PDict i)" "json_able (PDict sp)" using json_able_look [of d] by metis+
  then have "json_able (look i k)" "json_able (look sp k)" "json_able (look d k)" for k using json_able_look i(3) by blast+
  with i(1,2) assms(1) show ?thesis
    by (auto simp: raid_msg_def RAIDdataMsg_def with_schema_def msg_env_ok_def sensor_envelope_def envelope_def sspl_ll_msg_header_def get_keys_PDict sendable_def)
qed

text \<open>
  The message that answers a RAID request is the text made from the drives as the request gives them: the serial
  numbers and by-id paths the handler knows are filled in afterwards, so they reach its own list of drives and no message.\<close>

lemma raid_serials_never_sent:
  assumes "nh_ready env s" and "fst (nh_read env (nh_reads s) ''raid'') = Inr True" and "raid_request d sp drives"
  shows "\<exists>m t s'. raid_msg env d = Inr m \<and> bindr (with_uuid (nh_uuid s) m) (sensor_getJson (nh_msgs env)) = Inr t \<and>
    handle_sensor_type env (node_data_msg d) ''raid_data'' s = (Inr (), s') \<and> egress_q s' = egress_q s @ [(PStr t, None)] \<and>
    raid_drives s' = map (filled s) drives"
proof -
  have ok: "msg_env_ok (nh_msgs env)" "json_able (nh_uuid s)" using assms(1) by (simp_all add: nh_ready_def)
  obtain m where m: "raid_msg env d = Inr m" "sendable m" using raid_msg_sendable [OF ok(1) assms(3)] by blast
  obtain a where a: "read_data env ''raid'' s = (Inr True, s\<lparr>nh_reads := nh_reads s + 1, node_sensor := Some a\<rparr>)"
    using read_data_run [OF assms(1), of "''raid''"] assms(2) by auto
  let ?s1 = "s\<lparr>nh_reads := nh_reads s + 1, node_sensor := Some a, raid_device := look sp ''device'', raid_drives := drives\<rparr>"
  obtain t where t: "json_text env (Inr m) ?s1 = (Inr (PStr t), ?s1)" using json_text_run [OF ok(1) m(2), of ?s1] ok(2) by auto
  have gj: "bindr (with_uuid (nh_uuid s) m) (sensor_getJson (nh_msgs env)) = Inr t"
    using t by (auto simp: json_text_def bindp_def liftp_def getp_def ret_def split: sum.splits)
  obtain m' where m': "with_uuid (nh_uuid s) m = Inr m'" "sendable m'" using with_uuid_sendable [OF m(2) ok(2)] by blast
  then have nonempty: "t \<noteq> []" using gj sensor_getJson_text [of "nh_msgs env" m' t] by (auto simp: sendable_def a_dict_def)
  let ?s2 = "?s1\<lparr>os_sensor_type := AList.update ''raid_data'' (PStr t) (os_sensor_type s)\<rparr>"
  have fill: "forp [0..<length drives] fill_drives ?s2 = (Inr (), ?s2\<lparr>raid_drives := map (filled ?s2) drives\<rparr>)"
    using fill_drives_run [of ?s2 "[]" drives] assms(3) by (simp add: raid_request_def)
  have same: "filled ?s2 = filled s" by (rule filled_cong) simp_all
  let ?s3 = "?s2\<lparr>raid_drives := map (filled ?s2) drives\<rparr>"
  have k: "get_key (PDict e) k = Inr (look e k)" for e k by (simp add: look_def)
  have rq: "get_path (node_data_msg d) request_path = Inr (PDict d)" by (simp add: node_data_msg_def request_path_def)
  have "generate_raid_data env (node_data_msg d) s = (Inr (), ?s2\<lparr>raid_drives := map (filled ?s2) drives\<rparr>)"
    using a m(1) t fill rq assms(3)
    by (simp add: generate_raid_data_def bindp_run seqp_run bindp_liftp modp_def raid_request_def raid_msg_def k get_keys_PDict
        del: get_key_PDict forp.simps)
  then have run: "handle_sensor_type env (node_data_msg d) ''raid_data'' s = on_nh_q (write_internal_msgQ ''EgressProcessor'' (PStr t) None) ?s3"
    using nonempty by (simp add: handle_sensor_type_def seqp_run send_remembered_def bindp_run getp_def)
  obtain s' where s': "on_nh_q (write_internal_msgQ ''EgressProcessor'' (PStr t) None) ?s3 = (Inr (), s')" "egress_q s' = egress_q s @ [(PStr t, None)]"
      "raid_drives s' = map (filled s) drives"
    using write_egress_run [of ?s3 "PStr t"] assms(1) same by (auto simp: nh_ready_def egress_q_def on_nh_q_def split: prod.splits)
  with m(1) gj run show ?thesis by auto
qed

section \<open>Concrete runs\<close>

lemma demo_nh_env_ok: "nh_env_ok demo_nh_env"
proof -
  have "json_able (demo_attrs n)" for n using demo_attrs_good [of "''''"] by (simp add: good_reading_def)
  moreover have "inj_on (usage_path demo_nh_env) data_names" by (auto simp: inj_on_def data_names_def demo_usage_path)
  moreover have "indep (usage_path demo_nh_env p) (usage_path demo_nh_env q)" if "p \<in> data_names" "q \<in> data_names" for p q
    using that by (auto simp: data_names_def demo_usage_path demo_usage_dir indep_def)
  moreover have "nh_sensor demo_nh_env = Inr demo_attrs" "cpu_threshold_conf demo_nh_env = PInt 80" "memory_threshold_conf demo_nh_env = PInt 80"
      "disk_threshold_conf demo_nh_env = PInt 80" by (simp_all add: demo_nh_env_def)
  ultimately show ?thesis by (simp add: nh_env_ok_def demo_nh_sel demo_good_threshold)
qed

lemma demo_nh_inv: "nh_inv demo_nh_env demo_nh"
proof -
  have "prev_nw_if_status demo_nh = PDict []" "prev_cable_status demo_nh = PDict []" by (simp_all add: demo_nh_def)
  then have "nw_inv demo_nh_env demo_nh" using demo_store demo_usage_records(4) by (simp add: nw_inv_def)
  then show ?thesis using demo_nh_ready demo_usage_inv demo_good_threshold by (auto simp: nh_inv_def demo_nh_sel)
qed

theorem node_alert_history_witness:
  "\<exists>s'. (nh_step demo_nh_env)\<^sup>*\<^sup>* demo_nh s' \<and> generate_if_data demo_nh_env demo_nh = (Inr (), s') \<and>
    replay_by cpu_rule None (fru_alerts (nw_item ''eth0'') (nh_raised s')) = Some (nh_out s' (nw_item ''eth0''))"
proof -
  obtain s' where s': "generate_if_data demo_nh_env demo_nh = (Inr (), s')"
    using nw_history [OF demo_nh_env_ok] demo_nh_inv unfolding keeps_history_def by blast
  then have step: "(nh_step demo_nh_env)\<^sup>*\<^sup>* demo_nh s'" by (blast intro: nh_step.network)
  have "\<forall>k. nh_out demo_nh k = None" by (simp add: nh_out_def demo_nh_sel) (simp add: demo_nh_def status_is_def)
  with node_alert_history [OF demo_nh_env_ok demo_nh_inv _ _ step] s' step show ?thesis by (simp add: demo_nh_sel)
qed


definition demo_drive :: pyv where
  "demo_drive = PDict [(''identity'', PDict [(''path'', PStr ''/dev/sda'')])]"

definition demo_raid :: pydict where
  "demo_raid = [(''status'', PStr ''update''), (''info'', PDict []), (''specific_info'', PDict [(''drives'', PList [demo_drive])])]"

lemma raid_serials_never_sent_witness:
  "\<exists>m t s'. raid_msg demo_nh_env demo_raid = Inr m \<and>
    handle_sensor_type demo_nh_env (node_data_msg demo_raid) ''raid_data'' (demo_nh\<lparr>drive_by_device_name := [(PStr ''/dev/sda'', PStr ''S1'')]\<rparr>) = (Inr (), s') \<and>
    sensor_getJson (nh_msgs demo_nh_env) m = Inr t \<and> egress_q s' = [(PStr t, None)] \<and>
    raid_drives s' = [PDict [(''identity'', PDict [(''path'', PStr ''/dev/sda''), (''serialNumber'', PStr ''S1'')])]]"
proof -
  let ?s = "demo_nh\<lparr>drive_by_device_name := [(PStr ''/dev/sda'', PStr ''S1'')]\<rparr>"
  have "raid_request demo_raid [(''drives'', PList [demo_drive])] [demo_drive]"
    by (simp add: raid_request_def demo_raid_def demo_drive_def look_def good_drive_def)
  moreover have "nh_ready demo_nh_env ?s" using demo_nh_ready by (simp add: nh_ready_def)
  moreover have "egress_q ?s = []" "nh_uuid ?s = PNone" "drive_byid_by_serial_number ?s = []" by (simp_all add: egress_q_def demo_nh_def)
  moreover have "py_str (PStr ''S1'') = ''S1''" by code_simp
  ultimately show ?thesis
    using raid_serials_never_sent [of demo_nh_env ?s demo_raid "[(''drives'', PList [demo_drive])]" "[demo_drive]"]
    by (auto simp: demo_nh_sel with_uuid_def filled_def fill_drive_def look_text_def demo_drive_def)
qed

end
