(* ===== verification/Node_Raid.thy ===== *)
theory Node_Raid
  imports Node_Cpu
begin

text \<open>
  \<^verbatim>\<open>sensors/impl/generic/raid.py\<close>: the sensor of the software RAID arrays of the node. It parses the status file of the
  kernel and the configuration of \<^verbatim>\<open>mdadm\<close>, compares them with what it remembers and reports arrays and drives that are
  missing, faulty or back. The contents of the two files, the answers of \<^verbatim>\<open>mdadm --examine\<close> and the element a set yields
  first are parameters. A Python set is kept as the list of its elements; \<open>rd_raised\<close> records every alert sent.
\<close>

section \<open>State\<close>

text \<open>A drive of an array: its status and, when \<^verbatim>\<open>mdadm\<close> knows it, the path of its identity (the serial number is always "None").\<close>

record raid_drive =
  dv_status :: string
  dv_path :: "string option"

record rd_state =
  rd_fs :: fs
  rd_q :: "nat msgq"
  rd_contents :: string
  rd_status :: "(string \<times> string) list"
  rd_faulty_drives :: "(string \<times> (string \<times> string) list) list"
  rd_faulty_devices :: "string list"
  rd_drives :: "(string \<times> raid_drive list) list"
  rd_total :: "(string \<times> int) list"
  rd_devices :: "string list"
  rd_missing :: "string option"
  rd_prev_drives :: "(string \<times> string list) list"
  rd_prev_alert :: "(string \<times> string option) list"
  rd_alert_type :: "string option"
  rd_changed :: bool
  rd_identity :: "(string \<times> (int \<times> string) list) list"
  rd_suspended :: bool
  rd_schedule :: "int list"
  rd_built :: nat
  rd_raised :: "(string \<times> string option \<times> string) list"

text \<open>What the sensor finds in one run: the status file, the configuration of \<^verbatim>\<open>mdadm\<close> and the role of each drive.\<close>

record rd_obs =
  ob_mdstat :: "string option"
  ob_conf :: "string option"
  ob_role :: "string \<Rightarrow> string"

record rd_env =
  rd_node :: node_env
  rd_first :: "string list \<Rightarrow> string"

definition raid_data_path :: "rd_env \<Rightarrow> string" where
  "raid_data_path env = path_join (server_cache (rd_node env)) (''RAID_SENSOR_DATA_'' @ nd_node_id (rd_node env))"

text \<open>\<^verbatim>\<open>d[k]\<close> of a dictionary in the state.\<close>

definition dict_item :: "(string \<times> 'v) list \<Rightarrow> string \<Rightarrow> 'v res" where
  "dict_item d k = (case map_of d k of None \<Rightarrow> Inl KeyError | Some v \<Rightarrow> Inr v)"

section \<open>The persistent record\<close>

definition opt_val :: "string option \<Rightarrow> pyv" where
  "opt_val x = (case x of None \<Rightarrow> PNone | Some t \<Rightarrow> PStr t)"

definition identity_val :: "string \<Rightarrow> pyv" where
  "identity_val path = PDict [(''path'', PStr path), (''serialNumber'', PStr ''None'')]"

definition drive_val :: "raid_drive \<Rightarrow> pyv" where
  "drive_val d = PDict ((''status'', PStr (dv_status d)) # (case dv_path d of None \<Rightarrow> [] | Some p \<Rightarrow> [(''identity'', identity_val p)]))"

definition missing_val :: "string option \<Rightarrow> pyv" where
  "missing_val x = (case x of None \<Rightarrow> PDict [] | Some p \<Rightarrow> identity_val p)"

definition table_val :: "('a \<Rightarrow> pyv) \<Rightarrow> (string \<times> 'a) list \<Rightarrow> pyv" where
  "table_val f d = PDict (map (\<lambda>(k, x). (k, f x)) d)"

definition items_val :: "('a \<Rightarrow> pyv) \<Rightarrow> 'a list \<Rightarrow> pyv" where
  "items_val f xs = PList (map f xs)"

definition raid_record :: "rd_state \<Rightarrow> pyv" where
  "raid_record s = PDict [(''_RAID_status_contents'', PStr (rd_contents s)), (''_RAID_status'', table_val PStr (rd_status s)),
     (''_faulty_drive_list'', table_val (table_val PStr) (rd_faulty_drives s)), (''_faulty_device_list'', items_val PStr (rd_faulty_devices s)),
     (''_drives'', table_val (items_val drive_val) (rd_drives s)), (''_total_drives'', table_val PInt (rd_total s)),
     (''_devices'', items_val PStr (rd_devices s)), (''_missing_drv'', missing_val (rd_missing s)),
     (''_prev_drive_dict'', table_val (items_val PStr) (rd_prev_drives s)), (''prev_alert_type'', table_val opt_val (rd_prev_alert s))]"

definition raid_persist :: "rd_env \<Rightarrow> (rd_state, unit) proc" where
  "raid_persist env = modp (\<lambda>s. s\<lparr>rd_fs := store_put (raid_record s) (raid_data_path env) True (rd_fs s)\<rparr>)"

text \<open>
  Reading the parts back. A part of another shape, which the sensor does not write, is refused at once, where the code
  would fail at its first use.
\<close>

fun to_text :: "pyv \<Rightarrow> string res" where
  "to_text (PStr t) = Inr t"
| "to_text _ = Inl TypeError"

fun to_opt :: "pyv \<Rightarrow> string option res" where
  "to_opt PNone = Inr None"
| "to_opt (PStr t) = Inr (Some t)"
| "to_opt _ = Inl TypeError"

fun to_items :: "(pyv \<Rightarrow> 'a res) \<Rightarrow> pyv \<Rightarrow> 'a list res" where
  "to_items f (PList xs) = seq_res (map f xs)"
| "to_items f _ = Inl TypeError"

fun to_table :: "(pyv \<Rightarrow> 'a res) \<Rightarrow> pyv \<Rightarrow> (string \<times> 'a) list res" where
  "to_table f (PDict d) = seq_res (map (\<lambda>(k, v). bindr (f v) (\<lambda>x. Inr (k, x))) d)"
| "to_table f _ = Inl TypeError"

definition to_drive :: "pyv \<Rightarrow> raid_drive res" where
  "to_drive v = bindr (bindr (getitem v ''status'') to_text) (\<lambda>st. bindr (get_key v ''identity'') (\<lambda>i.
     if i = PNone then Inr \<lparr>dv_status = st, dv_path = None\<rparr>
     else bindr (bindr (getitem i ''path'') to_text) (\<lambda>p. Inr \<lparr>dv_status = st, dv_path = Some p\<rparr>)))"

definition to_missing :: "pyv \<Rightarrow> string option res" where
  "to_missing v = bindr (get_key v ''path'') to_opt"

definition raid_part :: "pyv \<Rightarrow> string \<Rightarrow> (pyv \<Rightarrow> 'a res) \<Rightarrow> ('a \<Rightarrow> rd_state \<Rightarrow> rd_state) \<Rightarrow> (rd_state, unit) proc" where
  "raid_part d k f upd = bindp (liftp (bindr (getitem d k) f)) (\<lambda>x. modp (upd x))"

definition raid_clear :: "rd_state \<Rightarrow> rd_state" where
  "raid_clear s = s\<lparr>rd_contents := ''N/A'', rd_status := [], rd_faulty_drives := [], rd_faulty_devices := [], rd_drives := [], rd_total := [],
     rd_devices := [], rd_missing := None, rd_prev_drives := [], rd_prev_alert := [], rd_alert_type := None, rd_changed := False, rd_identity := [],
     rd_suspended := False\<rparr>"

definition raid_load :: "pyv \<Rightarrow> (rd_state, unit) proc" where
  "raid_load d =
     seqp (raid_part d ''_RAID_status_contents'' to_text (\<lambda>x s. s\<lparr>rd_contents := x\<rparr>))
     (seqp (raid_part d ''_RAID_status'' (to_table to_text) (\<lambda>x s. s\<lparr>rd_status := x\<rparr>))
     (seqp (raid_part d ''_faulty_drive_list'' (to_table (to_table to_text)) (\<lambda>x s. s\<lparr>rd_faulty_drives := x\<rparr>))
     (seqp (raid_part d ''_faulty_device_list'' (to_items to_text) (\<lambda>x s. s\<lparr>rd_faulty_devices := x\<rparr>))
     (seqp (raid_part d ''_drives'' (to_table (to_items to_drive)) (\<lambda>x s. s\<lparr>rd_drives := x\<rparr>))
     (seqp (raid_part d ''_total_drives'' (to_table as_int) (\<lambda>x s. s\<lparr>rd_total := x\<rparr>))
     (seqp (raid_part d ''_devices'' (to_items to_text) (\<lambda>x s. s\<lparr>rd_devices := x\<rparr>))
     (seqp (raid_part d ''_missing_drv'' to_missing (\<lambda>x s. s\<lparr>rd_missing := x\<rparr>))
     (seqp (raid_part d ''_prev_drive_dict'' (to_table (to_items to_text)) (\<lambda>x s. s\<lparr>rd_prev_drives := x\<rparr>))
           (raid_part d ''prev_alert_type'' (to_table to_opt) (\<lambda>x s. s\<lparr>rd_prev_alert := x\<rparr>))))))))))"

text \<open>The start of the sensor, a new object included.\<close>

definition raid_initialize :: "rd_env \<Rightarrow> (rd_state, unit) proc" where
  "raid_initialize env = seqp (modp raid_clear)
     (bindp (getp (\<lambda>s. if isfile (rd_fs s) (raid_data_path env) then store_get (rd_fs s) (raid_data_path env) else PDict [])) (\<lambda>d.
      if truthy d then raid_load d else raid_persist env))"

section \<open>Sending\<close>

definition raid_description :: "string \<Rightarrow> string" where
  "raid_description alert_type' =
     (if alert_type' = ''missing'' then ''RAID array or drive from RAID array is missing.''
      else if alert_type' = ''fault'' then ''RAID array or drive from RAID array is faulty.''
      else if alert_type' = ''insertion'' then ''Inserted drive in RAID array.''
      else if alert_type' = ''fault_resolved'' then ''Fault for RAID array or RAID drive is resolved''
      else ''Raid array alert'')"

definition raid_msg :: "string \<Rightarrow> string \<Rightarrow> string \<Rightarrow> string \<Rightarrow> string \<Rightarrow> string option \<Rightarrow> string \<Rightarrow> raid_drive list \<Rightarrow> pyv" where
  "raid_msg host_name alert_type' alert_id severity epoch_time res_id device drives = node_data_msg
     [(''status'', PStr ''update''), (''sensor_type'', PStr ''node:os:raid_data''), (''host_id'', PStr host_name), (''alert_type'', PStr alert_type'),
      (''alert_id'', PStr alert_id), (''severity'', PStr severity),
      (''info'', PDict [(''resource_type'', PStr ''node:os:raid_data''), (''resource_id'', opt_val res_id), (''event_time'', PStr epoch_time),
         (''description'', PStr (raid_description alert_type'))]),
      (''specific_info'', PDict [(''device'', PStr device), (''drives'', items_val drive_val drives)])]"

definition raid_send :: "rd_env \<Rightarrow> string \<Rightarrow> string option \<Rightarrow> string \<Rightarrow> raid_drive list \<Rightarrow> (rd_state, unit) proc" where
  "raid_send env alert_type' res_id device drives =
     bindp (getp rd_built) (\<lambda>n.
     let epoch_time = str_int (nd_epoch (rd_node env) n); alert_id = epoch_time @ nd_salt (rd_node env) n in
     seqp (modp (\<lambda>s. s\<lparr>rd_built := rd_built s + 1\<rparr>))
     (bindp (liftp (map_severity alert_type')) (\<lambda>severity.
      bindp (liftp (nd_fqdn (rd_node env))) (\<lambda>host_name.
      bindp (liftp (json_dumps (raid_msg host_name alert_type' alert_id severity epoch_time res_id device drives))) (\<lambda>t.
      seqp (modp (\<lambda>s. s\<lparr>rd_prev_alert := AList.update device (Some alert_type') (rd_prev_alert s), rd_alert_type := None\<rparr>))
      (seqp (\<lambda>s. case write_internal_msgQ ''NodeDataMsgHandler'' (PStr t) None (rd_q s) of (r, q) \<Rightarrow> (r, s\<lparr>rd_q := q\<rparr>))
      (seqp (modp (\<lambda>s. s\<lparr>rd_raised := rd_raised s @ [(device, res_id, alert_type')]\<rparr>))
            (raid_persist env))))))))"

section \<open>The status file\<close>

text \<open>\<^verbatim>\<open>field[:field.find("[")]\<close> of a field with a bracket.\<close>

definition drive_name :: "string \<Rightarrow> string" where
  "drive_name field = takeWhile (\<lambda>c. c \<noteq> CHR ''['') field"

definition add_drive :: "(string \<Rightarrow> string) \<Rightarrow> string \<Rightarrow> string \<Rightarrow> (rd_state, unit) proc" where
  "add_drive role field device =
     (let drive_path = ''/dev/'' @ drive_name field in
      case py_int (last (split_on CHR '' '' (rstrip_char CHR 0x0A (role drive_path)))) of
        Inl _ \<Rightarrow> ret ()
      | Inr drive_index \<Rightarrow> bindp (getp (\<lambda>s. dict_item (rd_identity s) device)) (\<lambda>r. bindp (liftp r) (\<lambda>d.
          modp (\<lambda>s. s\<lparr>rd_identity := AList.update device (AList.update drive_index drive_path d) (rd_identity s)\<rparr>))))"

definition drive_entry :: "(int \<times> string) list \<Rightarrow> string \<Rightarrow> nat \<Rightarrow> raid_drive res" where
  "drive_entry ids status i = (if length status \<le> i + 1 then Inl IndexError
     else Inr \<lparr>dv_status = [status ! (i + 1)], dv_path = map_of ids (int i)\<rparr>)"

definition append_drive :: "string \<Rightarrow> (int \<times> string) list \<Rightarrow> string \<Rightarrow> nat \<Rightarrow> (rd_state, unit) proc" where
  "append_drive device ids status i = bindp (liftp (drive_entry ids status i)) (\<lambda>e.
     bindp (getp (\<lambda>s. dict_item (rd_drives s) device)) (\<lambda>r. bindp (liftp r) (\<lambda>xs.
     modp (\<lambda>s. s\<lparr>rd_drives := AList.update device (xs @ [e]) (rd_drives s)\<rparr>))))"

text \<open>\<^verbatim>\<open>int(status_line[first_bracket_index + 1])\<close>: one character.\<close>

definition drive_count :: "string \<Rightarrow> int res" where
  "drive_count status_line = (case drop 1 (dropWhile (\<lambda>c. c \<noteq> CHR ''['') status_line) of [] \<Rightarrow> Inl IndexError | c # _ \<Rightarrow> py_int [c])"

definition parse_raid_status :: "string \<Rightarrow> string \<Rightarrow> (rd_state, bool) proc" where
  "parse_raid_status status_line device =
     (if CHR ''['' \<notin> set status_line then ret False
      else bindp (liftp (drive_count status_line)) (\<lambda>n.
        let status = last (split_on CHR '' '' status_line) in
        seqp (modp (\<lambda>s. s\<lparr>rd_total := AList.update device n (rd_total s), rd_drives := AList.update device [] (rd_drives s)\<rparr>))
        (bindp (getp (\<lambda>s. case map_of (rd_identity s) device of None \<Rightarrow> Inl AttributeError | Some d \<Rightarrow> Inr d)) (\<lambda>r. bindp (liftp r) (\<lambda>ids.
         seqp (forp [0..<nat n] (append_drive device ids status))
         (bindp (getp rd_status) (\<lambda>st.
          if map_of st device = Some status then ret False
          else seqp (modp (\<lambda>s. s\<lparr>rd_status := AList.update device status (rd_status s)\<rparr>)) (ret True))))))))"

text \<open>What the loop over the lines has collected: whether a line of status is due, the device, the devices, their drives and the changes of status.\<close>

record md_scan =
  md_open :: bool
  md_device :: string
  md_list :: "string list"
  md_drives :: "(string \<times> string list) list"
  md_changed :: "(string \<times> bool) list"

definition scan_field :: "(string \<Rightarrow> string) \<Rightarrow> string \<Rightarrow> string \<Rightarrow> string list \<Rightarrow> (rd_state, string list) proc" where
  "scan_field role device field names = (if CHR ''['' \<notin> set field then ret names
     else seqp (add_drive role field device) (ret (if field \<notin> set names then names @ [drive_name field] else names)))"

primrec scan_fields :: "(string \<Rightarrow> string) \<Rightarrow> string \<Rightarrow> string list \<Rightarrow> string list \<Rightarrow> (rd_state, string list) proc" where
  "scan_fields role device [] names = ret names"
| "scan_fields role device (f # fs) names = bindp (scan_field role device f names) (scan_fields role device fs)"

definition scan_device :: "(string \<Rightarrow> string) \<Rightarrow> string list \<Rightarrow> md_scan \<Rightarrow> (rd_state, md_scan) proc" where
  "scan_device role fs m =
     (let device = ''/dev/'' @ hd fs in
      seqp (modp (\<lambda>s. s\<lparr>rd_devices := rd_devices s @ [device],
          rd_prev_alert := (if map_of (rd_prev_alert s) device = None then AList.update device None (rd_prev_alert s) else rd_prev_alert s),
          rd_faulty_drives := (if map_of (rd_faulty_drives s) device = None then AList.update device [] (rd_faulty_drives s) else rd_faulty_drives s),
          rd_identity := AList.update device [] (rd_identity s)\<rparr>))
      (bindp (scan_fields role device fs []) (\<lambda>names.
       ret (m\<lparr>md_open := True, md_device := device, md_list := md_list m @ [device], md_drives := AList.update device names (md_drives m)\<rparr>))))"

definition scan_line :: "(string \<Rightarrow> string) \<Rightarrow> string \<Rightarrow> md_scan \<Rightarrow> (rd_state, md_scan) proc" where
  "scan_line role line m =
     bindp (if md_open m then bindp (parse_raid_status line (md_device m)) (\<lambda>b.
              ret (m\<lparr>md_changed := AList.update (md_device m) b (md_changed m), md_open := False\<rparr>)) else ret m) (\<lambda>m.
     let fs = split_on CHR '' '' line in
     if contains ''md'' (hd fs) then scan_device role fs m else ret m)"

primrec scan_lines :: "(string \<Rightarrow> string) \<Rightarrow> string list \<Rightarrow> md_scan \<Rightarrow> (rd_state, md_scan) proc" where
  "scan_lines role [] m = ret m"
| "scan_lines role (l # ls) m = bindp (scan_line role l m) (scan_lines role ls)"

definition process_mdstat :: "rd_obs \<Rightarrow> (rd_state, md_scan) proc" where
  "process_mdstat ob =
     seqp (modp (\<lambda>s. s\<lparr>rd_devices := [], rd_identity := []\<rparr>))
     (bindp (getp rd_contents) (\<lambda>t. scan_lines (ob_role ob) (split_on (CHR 0x0A) (strip t))
        \<lparr>md_open = False, md_device = [], md_list = [], md_drives = [], md_changed = []\<rparr>))"

section \<open>The status of the drives\<close>

definition drives_of :: "string \<Rightarrow> (rd_state, raid_drive list) proc" where
  "drives_of device = bindp (getp (\<lambda>s. dict_item (rd_drives s) device)) liftp"

definition put_drive :: "string \<Rightarrow> nat \<Rightarrow> raid_drive \<Rightarrow> rd_state \<Rightarrow> rd_state" where
  "put_drive device i d s = (case map_of (rd_drives s) device of None \<Rightarrow> s
     | Some xs \<Rightarrow> s\<lparr>rd_drives := AList.update device (xs[i := d]) (rd_drives s)\<rparr>)"

text \<open>The i-th drive of the loop over the drives of a device, as it is at its turn.\<close>

definition nth_drive :: "string \<Rightarrow> nat \<Rightarrow> (rd_state, raid_drive) proc" where
  "nth_drive device i = bindp (drives_of device) (\<lambda>xs. if i < length xs then ret (xs ! i) else raise IndexError)"

definition drive_up :: "raid_drive \<Rightarrow> bool" where
  "drive_up d \<longleftrightarrow> dv_status d \<in> {''U'', ''UP''}"

definition mark_one :: "string \<Rightarrow> string \<Rightarrow> raid_drive \<Rightarrow> raid_drive res" where
  "mark_one st name d = (if drive_up d then Inr d else case dv_path d of None \<Rightarrow> Inl KeyError
     | Some p \<Rightarrow> Inr (if p = ''/dev/'' @ name then d\<lparr>dv_status := st\<rparr> else d))"

primrec mark_names :: "string \<Rightarrow> string option \<Rightarrow> string list \<Rightarrow> raid_drive \<Rightarrow> raid_drive res" where
  "mark_names st missing [] d = Inr d"
| "mark_names st missing (n # ns) d =
     bindr (if st = ''Missing'' \<and> dv_status d = ''_'' then Inr (d\<lparr>dv_status := st, dv_path := missing\<rparr>) else mark_one st n d)
       (mark_names st missing ns)"

definition mark_drive :: "string \<Rightarrow> string + (string \<times> string list) list \<Rightarrow> string \<Rightarrow> string option \<Rightarrow> raid_drive \<Rightarrow> raid_drive res" where
  "mark_drive device drives st missing d =
     bindr (case drives of Inl name \<Rightarrow> mark_one st name d | Inr dict \<Rightarrow> bindr (dict_item dict device) (\<lambda>names. mark_names st missing names d))
       (\<lambda>d. Inr (if dv_status d = ''U'' then d\<lparr>dv_status := ''UP''\<rparr> else d))"

text \<open>
  The drives before one that raises keep their new status; the one that raises keeps its old one, since only the first
  name of a list can raise.
\<close>

definition map_drive_status :: "string \<Rightarrow> string + (string \<times> string list) list \<Rightarrow> string \<Rightarrow> (rd_state, unit) proc" where
  "map_drive_status device drives st = bindp (drives_of device) (\<lambda>xs.
     forp [0..<length xs] (\<lambda>i. bindp (nth_drive device i) (\<lambda>d. bindp (getp rd_missing) (\<lambda>missing.
       bindp (liftp (mark_drive device drives st missing d)) (\<lambda>d'. modp (put_drive device i d'))))))"

section \<open>Missing arrays\<close>

text \<open>\<^verbatim>\<open>s.split(pat)\<close> for a pattern that is not empty.\<close>

fun split_str :: "string \<Rightarrow> string \<Rightarrow> string list" where
  "split_str pat [] = [[]]"
| "split_str pat (c # s) = (if take (length pat) (c # s) = pat then [] # split_str pat (drop (length pat - 1) s)
     else case split_str pat s of t # ts \<Rightarrow> (c # t) # ts | [] \<Rightarrow> [[c]])"

definition conf_device :: "string \<Rightarrow> string list res" where
  "conf_device line = (let fs = split_on CHR '' '' line in
     if contains ''#'' (hd fs) \<or> \<not> contains ''ARRAY'' (hd fs) then Inr []
     else case tl fs of [] \<Rightarrow> Inl IndexError
       | f # _ \<Rightarrow> if \<not> contains ''/md'' f then Inr []
           else Inr [case split_str ''md/'' f of a # b # _ \<Rightarrow> a @ ''md'' @ b | _ \<Rightarrow> f])"

definition conf_devices :: "string \<Rightarrow> string list res" where
  "conf_devices t = bindr (seq_res (map conf_device (split_on (CHR 0x0A) (strip t)))) (\<lambda>xs. Inr (concat xs))"

definition RAID_DOWN_DRIVE_STATUS :: "raid_drive list" where
  "RAID_DOWN_DRIVE_STATUS = replicate 2 \<lparr>dv_status = ''Down/Missing'', dv_path = None\<rparr>"

definition array_down :: "rd_env \<Rightarrow> string \<Rightarrow> (rd_state, unit) proc" where
  "array_down env device = seqp (modp (\<lambda>s. s\<lparr>rd_alert_type := Some ''fault'', rd_faulty_devices := rd_faulty_devices s @ [device]\<rparr>))
     (raid_send env ''fault'' (Some device) device RAID_DOWN_DRIVE_STATUS)"

definition array_back :: "rd_env \<Rightarrow> (string \<times> string list) list \<Rightarrow> string \<Rightarrow> (rd_state, unit) proc" where
  "array_back env drive_dict device = seqp (modp (\<lambda>s. s\<lparr>rd_alert_type := Some ''fault_resolved''\<rparr>))
     (seqp (map_drive_status device (Inr drive_dict) ''Down/Recovery'')
     (seqp (modp (\<lambda>s. s\<lparr>rd_faulty_devices := removeAll device (rd_faulty_devices s)\<rparr>))
     (bindp (drives_of device) (raid_send env ''fault_resolved'' (Some device) device))))"

definition check_array :: "rd_env \<Rightarrow> string list \<Rightarrow> (string \<times> string list) list \<Rightarrow> string \<Rightarrow> (rd_state, unit) proc" where
  "check_array env md_device_list drive_dict device = bindp (getp rd_faulty_devices) (\<lambda>faulty.
     if device \<notin> set md_device_list \<and> device \<notin> set faulty then array_down env device
     else if device \<in> set md_device_list \<and> device \<in> set faulty then array_back env drive_dict device
     else ret ())"

definition process_missing_md_devices :: "rd_env \<Rightarrow> rd_obs \<Rightarrow> md_scan \<Rightarrow> (rd_state, unit) proc" where
  "process_missing_md_devices env ob m = (case ob_conf ob of None \<Rightarrow> ret ()
     | Some t \<Rightarrow> (case conf_devices t of Inl _ \<Rightarrow> ret () | Inr ds \<Rightarrow> forp ds (check_array env (md_list m) (md_drives m))))"

section \<open>Missing and faulty drives\<close>

definition lost_drive :: "rd_env \<Rightarrow> string \<Rightarrow> string list \<Rightarrow> rd_state \<Rightarrow> string" where
  "lost_drive env device names s = (case map_of (rd_prev_drives s) device of None \<Rightarrow> ''NA''
     | Some old \<Rightarrow> (let lost = filter (\<lambda>x. x \<notin> set names) old in if lost = [] then ''NA'' else ''/dev/'' @ rd_first env lost))"

text \<open>The value of the local variable \<^verbatim>\<open>resource_id\<close> is passed on; the device has an entry of \<open>rd_prev_alert\<close> since the status file was read.\<close>

definition drive_missing :: "rd_env \<Rightarrow> md_scan \<Rightarrow> string \<Rightarrow> string list \<Rightarrow> (rd_state, string option) proc" where
  "drive_missing env m device names = bindp (getp (lost_drive env device names)) (\<lambda>d.
     seqp (modp (\<lambda>s. s\<lparr>rd_alert_type := Some ''missing'', rd_missing := Some d\<rparr>))
     (seqp (map_drive_status device (Inr (md_drives m)) ''Missing'')
     (seqp (modp (\<lambda>s. s\<lparr>rd_changed := True\<rparr>)) (ret (Some (device @ '':'' @ d))))))"

definition drive_inserted :: "string \<Rightarrow> string list \<Rightarrow> (rd_state, string option) proc" where
  "drive_inserted device names = seqp (modp (\<lambda>s. s\<lparr>rd_alert_type := Some ''insertion''\<rparr>))
     (case names of [] \<Rightarrow> raise IndexError
      | d # _ \<Rightarrow> seqp (map_drive_status device (Inl d) ''Down/Recovery'')
          (seqp (modp (\<lambda>s. s\<lparr>rd_changed := True\<rparr>)) (ret (Some (device @ '':/dev/'' @ d)))))"

definition check_count :: "rd_env \<Rightarrow> md_scan \<Rightarrow> string \<Rightarrow> string list \<Rightarrow> string option \<Rightarrow> (rd_state, string option) proc" where
  "check_count env m device names res_id =
     bindp (getp (\<lambda>s. dict_item (rd_total s) device)) (\<lambda>r. bindp (liftp r) (\<lambda>total_drives.
     bindp (getp (\<lambda>s. map_of (rd_prev_alert s) device)) (\<lambda>prev.
     if int (length names) < total_drives \<and> prev \<noteq> None \<and> prev \<noteq> Some (Some ''missing'') then drive_missing env m device names
     else if total_drives \<le> int (length names) \<and> prev = Some (Some ''missing'') then drive_inserted device names
     else ret res_id)))"

definition send_changed :: "rd_env \<Rightarrow> string \<Rightarrow> string list \<Rightarrow> string option \<Rightarrow> (rd_state, unit) proc" where
  "send_changed env device names res_id = bindp (getp (\<lambda>s. (rd_alert_type s, rd_changed s))) (\<lambda>(a, changed).
     case a of None \<Rightarrow> ret ()
     | Some a \<Rightarrow> if changed then
         seqp (modp (\<lambda>s. s\<lparr>rd_prev_drives := AList.update device names (rd_prev_drives s)\<rparr>))
              (bindp (drives_of device) (raid_send env a res_id device))
       else ret ())"

definition drive_fault :: "string \<Rightarrow> string \<Rightarrow> string \<Rightarrow> (rd_state, unit) proc" where
  "drive_fault device name alert_type' =
     seqp (modp (\<lambda>s. s\<lparr>rd_alert_type := Some alert_type'\<rparr>))
     (seqp (map_drive_status device (Inl name) (if alert_type' = ''fault'' then ''Down'' else ''UP''))
           (modp (\<lambda>s. s\<lparr>rd_changed := True, rd_faulty_drives := (case map_of (rd_faulty_drives s) device of None \<Rightarrow> rd_faulty_drives s
              | Some d \<Rightarrow> AList.update device (if alert_type' = ''fault'' then AList.update name alert_type' d else AList.delete name d)
                  (rd_faulty_drives s))\<rparr>)))"

definition check_drive :: "rd_env \<Rightarrow> string \<Rightarrow> string list \<Rightarrow> nat \<Rightarrow> string option \<Rightarrow> (rd_state, string option) proc" where
  "check_drive env device names i res_id = bindp (nth_drive device i) (\<lambda>d. case dv_path d of None \<Rightarrow> ret res_id
     | Some path \<Rightarrow> let name = drop 5 path; res_id = Some (device @ '':/dev/'' @ name) in
         bindp (getp (\<lambda>s. (map_of (rd_faulty_drives s) device, map_of (rd_prev_alert s) device))) (\<lambda>(faulty, prev).
         seqp (case faulty of None \<Rightarrow> ret ()
               | Some f \<Rightarrow> if \<not> drive_up d \<and> map_of f name = None \<and> prev \<noteq> Some (Some ''missing'') then drive_fault device name ''fault''
                   else if (drive_up d \<or> dv_status d = ''Down/Recovery'') \<and> map_of f name \<noteq> None then drive_fault device name ''fault_resolved''
                   else ret ())
         (seqp (send_changed env device names res_id) (ret res_id))))"

primrec check_drives :: "rd_env \<Rightarrow> string \<Rightarrow> string list \<Rightarrow> nat list \<Rightarrow> string option \<Rightarrow> (rd_state, string option) proc" where
  "check_drives env device names [] res_id = ret res_id"
| "check_drives env device names (i # is) res_id = bindp (check_drive env device names i res_id) (check_drives env device names is)"

definition check_device :: "rd_env \<Rightarrow> md_scan \<Rightarrow> string \<Rightarrow> string option \<Rightarrow> (rd_state, string option) proc" where
  "check_device env m device res_id = (if md_drives m = [] then ret res_id
     else bindp (liftp (dict_item (md_drives m) device)) (\<lambda>names.
       bindp (check_count env m device names res_id) (\<lambda>res_id.
       seqp (send_changed env device names res_id)
       (bindp (liftp (dict_item (md_changed m) device)) (\<lambda>changed.
        if changed then bindp (drives_of device) (\<lambda>xs. check_drives env device names [0..<length xs] res_id) else ret res_id)))))"

primrec check_devices :: "rd_env \<Rightarrow> md_scan \<Rightarrow> string list \<Rightarrow> string option \<Rightarrow> (rd_state, unit) proc" where
  "check_devices env m [] res_id = ret ()"
| "check_devices env m (d # ds) res_id = bindp (check_device env m d res_id) (check_devices env m ds)"

definition raid_notify :: "rd_env \<Rightarrow> rd_obs \<Rightarrow> (rd_state, unit) proc" where
  "raid_notify env ob = seqp (modp (\<lambda>s. s\<lparr>rd_changed := False\<rparr>))
     (case ob_mdstat ob of None \<Rightarrow> ret ()
      | Some status \<Rightarrow> bindp (getp rd_contents) (\<lambda>old. if old = status then ret ()
          else seqp (modp (\<lambda>s. s\<lparr>rd_contents := status\<rparr>))
            (bindp (process_mdstat ob) (\<lambda>m.
             seqp (process_missing_md_devices env ob m) (check_devices env m (md_list m) None)))))"

definition raid_run :: "rd_env \<Rightarrow> rd_obs \<Rightarrow> (rd_state, unit) proc" where
  "raid_run env ob = bindp (getp rd_suspended) (\<lambda>suspended.
     if suspended then modp (\<lambda>s. s\<lparr>rd_schedule := rd_schedule s @ [30]\<rparr>)
     else seqp (modp (\<lambda>s. s\<lparr>rd_q := snd (read_my_msgQ_noWait (nd_loads (rd_node env)) ''RAIDsensor'' (rd_q s))\<rparr>))
       (seqp (raid_notify env ob)
       (modp (\<lambda>s. s\<lparr>rd_q := (rd_q s)\<lparr>msgq_dbg := disable_debug_if_persist_false (msgq_dbg (rd_q s))\<rparr>, rd_schedule := rd_schedule s @ [30]\<rparr>))))"

definition raid_suspend :: "rd_state \<Rightarrow> rd_state" where
  "raid_suspend s = s\<lparr>rd_suspended := True\<rparr>"

definition raid_resume :: "rd_state \<Rightarrow> rd_state" where
  "raid_resume s = s\<lparr>rd_suspended := False\<rparr>"

section \<open>The record is read back\<close>

lemma seq_res_map: "(\<And>x. x \<in> set xs \<Longrightarrow> f x = Inr (g x)) \<Longrightarrow> seq_res (map f xs) = Inr (map g xs)"
  by (induction xs) auto

lemma to_items_val: "(\<And>x. f (g x) = Inr x) \<Longrightarrow> to_items f (items_val g xs) = Inr xs"
  using seq_res_map [of xs "f \<circ> g" id] by (simp add: items_val_def comp_def)

lemma to_table_val: "(\<And>x. f (g x) = Inr x) \<Longrightarrow> to_table f (table_val g d) = Inr d"
  using seq_res_map [of d "\<lambda>(k, x). bindr (f (g x)) (\<lambda>y. Inr (k, y))" id]
  by (simp add: table_val_def comp_def split_beta)

lemma to_opt_val: "to_opt (opt_val x) = Inr x"
  by (cases x) (simp_all add: opt_val_def)

lemma to_drive_val: "to_drive (drive_val d) = Inr d"
  by (cases "dv_path d") (simp_all add: to_drive_def drive_val_def identity_val_def)

lemma to_missing_val: "to_missing (missing_val x) = Inr x"
  by (cases x) (simp_all add: to_missing_def missing_val_def identity_val_def)

lemmas read_back = to_items_val to_table_val to_opt_val to_drive_val to_missing_val

lemma record_parts:
  "getitem (raid_record s) ''_RAID_status_contents'' = Inr (PStr (rd_contents s))"
  "getitem (raid_record s) ''_RAID_status'' = Inr (table_val PStr (rd_status s))"
  "getitem (raid_record s) ''_faulty_drive_list'' = Inr (table_val (table_val PStr) (rd_faulty_drives s))"
  "getitem (raid_record s) ''_faulty_device_list'' = Inr (items_val PStr (rd_faulty_devices s))"
  "getitem (raid_record s) ''_drives'' = Inr (table_val (items_val drive_val) (rd_drives s))"
  "getitem (raid_record s) ''_total_drives'' = Inr (table_val PInt (rd_total s))"
  "getitem (raid_record s) ''_devices'' = Inr (items_val PStr (rd_devices s))"
  "getitem (raid_record s) ''_missing_drv'' = Inr (missing_val (rd_missing s))"
  "getitem (raid_record s) ''_prev_drive_dict'' = Inr (table_val (items_val PStr) (rd_prev_drives s))"
  "getitem (raid_record s) ''prev_alert_type'' = Inr (table_val opt_val (rd_prev_alert s))"
  by (simp_all add: raid_record_def)

definition raid_restore :: "rd_state \<Rightarrow> rd_state \<Rightarrow> rd_state" where
  "raid_restore s t = t\<lparr>rd_contents := rd_contents s, rd_status := rd_status s, rd_faulty_drives := rd_faulty_drives s,
     rd_faulty_devices := rd_faulty_devices s, rd_drives := rd_drives s, rd_total := rd_total s, rd_devices := rd_devices s,
     rd_missing := rd_missing s, rd_prev_drives := rd_prev_drives s, rd_prev_alert := rd_prev_alert s\<rparr>"

lemma raid_load_record: "raid_load (raid_record s) t = (Inr (), raid_restore s t)"
  by (simp add: raid_load_def raid_part_def record_parts read_back bindp_liftp seqp_def modp_def raid_restore_def)

lemma raid_put_isfile: "writable f k \<Longrightarrow> isfile (store_put v k True f) k"
  by (simp add: store_put_writable isfile_def)

lemma truthy_record: "truthy (raid_record s)"
  by (simp add: raid_record_def)

lemma raid_initialize_stored:
  assumes "isfile (rd_fs t) (raid_data_path env)" and "store_get (rd_fs t) (raid_data_path env) = raid_record s"
  shows "raid_initialize env t = (Inr (), raid_restore s (raid_clear t))"
  using assms by (simp add: raid_initialize_def seqp_def modp_def bindp_def getp_def raid_clear_def raid_load_record truthy_record)

text \<open>
  C18. A restart of the RAID sensor loses nothing that its last alert has stored: after the record was written,
  initialisation succeeds and finds the status file as it was seen, the status, faults, drives and alerts of every array
  again; only the pending alert, the identities read from the drives and a suspension are reset.\<close>

theorem raid_restart_roundtrip:
  assumes "fs_wf (rd_fs s)" and "writable (rd_fs s) (raid_data_path env)"
  shows "raid_initialize env (snd (raid_persist env s)) =
    (Inr (), (snd (raid_persist env s))\<lparr>rd_alert_type := None, rd_changed := False, rd_identity := [], rd_suspended := False\<rparr>)"
  using raid_initialize_stored [of "snd (raid_persist env s)" env s] assms
  by (simp add: raid_persist_def modp_def raid_put_isfile store_get_put_pickled raid_restore_def raid_clear_def)

section \<open>The number of drives\<close>

lemma py_int_digit: "k < 10 \<Longrightarrow> py_int [digit k] = Inr (int k)"
  using py_int_str_int [of "int k"] by (simp add: str_int_def str_nat.simps [of k])

lemma drive_count_digit:
  assumes "CHR ''['' \<notin> set pre"
  shows "\<exists>k < 10. drive_count (pre @ CHR ''['' # str_nat n @ post) = Inr (int k) \<and> (n < 10 \<longrightarrow> k = n)"
proof -
  obtain c cs where c: "str_nat n = c # cs" using str_nat_nonempty [of n] by (cases "str_nat n") auto
  then obtain k where k: "k < 10" "c = digit k" using str_nat_digits [of c n] by auto
  have "\<forall>x \<in> set pre. x \<noteq> CHR ''[''" using assms by blast
  then have "drive_count (pre @ CHR ''['' # str_nat n @ post) = Inr (int k)"
    using c k by (simp add: drive_count_def dropWhile_append3 py_int_digit)
  moreover have "k = n" if "n < 10"
  proof -
    from that c have "[digit n] = c # cs" by (simp add: str_nat.simps [of n])
    with k that have "str_nat n = str_nat k" by (simp add: str_nat.simps [of n] str_nat.simps [of k])
    then show ?thesis by (simp add: str_nat_inj)
  qed
  ultimately show ?thesis using k by blast
qed

lemma parse_total:
  assumes "CHR ''['' \<in> set line" and "drive_count line = Inr n"
  shows "map_of (rd_total (snd (parse_raid_status line device s))) device = Some n"
proof -
  let ?I = "\<lambda>s. map_of (rd_total s) device = Some n"
  have *: "keeps ?I (append_drive device ids status i)" for ids status i
    unfolding append_drive_def by (intro keeps_rules keeps_modp) simp
  let ?s = "s\<lparr>rd_total := AList.update device n (rd_total s), rd_drives := AList.update device [] (rd_drives s)\<rparr>"
  have "keeps ?I (bindp (getp (\<lambda>s. case map_of (rd_identity s) device of None \<Rightarrow> Inl AttributeError | Some d \<Rightarrow> Inr d)) (\<lambda>r. bindp (liftp r) (\<lambda>ids.
         seqp (forp [0..<nat n] (append_drive device ids (last (split_on CHR '' '' line))))
         (bindp (getp rd_status) (\<lambda>st.
          if map_of st device = Some (last (split_on CHR '' '' line)) then ret False
          else seqp (modp (\<lambda>s. s\<lparr>rd_status := AList.update device (last (split_on CHR '' '' line)) (rd_status s)\<rparr>)) (ret True))))))"
    by (intro keeps_rules keeps_modp *) simp
  from keepsD [OF this, of ?s] show ?thesis using assms by (simp add: parse_raid_status_def bindp_liftp Let_def seqp_def [of "modp _"] modp_def)
qed

text \<open>
  C19. The status line of an array gives its number of drives in the form [n/m], but the sensor reads one character of it:
  the number it records is that of the array exactly for arrays of fewer than ten drives.\<close>

theorem raid_count_one_digit:
  assumes "CHR ''['' \<notin> set pre"
  shows "map_of (rd_total (snd (parse_raid_status (pre @ CHR ''['' # str_nat n @ post) device s))) device = Some (int n) \<longleftrightarrow> n < 10"
proof -
  obtain k where k: "k < 10" "drive_count (pre @ CHR ''['' # str_nat n @ post) = Inr (int k)" "n < 10 \<longrightarrow> k = n"
    using drive_count_digit [OF assms] by blast
  then show ?thesis using parse_total [OF _ k(2), of device s] by auto
qed

section \<open>What the sensor leaves alone\<close>

text \<open>The part of the state the history of the arrays depends on, and programs that leave it alone.\<close>

definition rd_flags :: "rd_state \<Rightarrow> fs \<times> nat msgq \<times> string list \<times> (string \<times> string option \<times> string) list \<times> string option \<times> bool" where
  "rd_flags s = (rd_fs s, rd_q s, rd_faulty_devices s, rd_raised s, rd_alert_type s, rd_changed s)"

definition quiet :: "(rd_state, 'a) proc \<Rightarrow> bool" where
  "quiet m \<longleftrightarrow> (\<forall>c. keeps (\<lambda>s. rd_flags s = c) m)"

lemma quietI: "(\<And>c. keeps (\<lambda>s. rd_flags s = c) m) \<Longrightarrow> quiet m"
  by (simp add: quiet_def)

lemma quiet_flags: "quiet m \<Longrightarrow> rd_flags (snd (m s)) = rd_flags s"
  unfolding quiet_def keeps_def by blast

lemma quiet_modp: "(\<And>s. rd_flags (f s) = rd_flags s) \<Longrightarrow> keeps (\<lambda>s. rd_flags s = c) (modp f)"
  by (rule keeps_modp) simp

lemma quiet_drives_of: "keeps (\<lambda>s. rd_flags s = c) (drives_of device)"
  unfolding drives_of_def by (intro keeps_rules)

lemma quiet_nth_drive: "keeps (\<lambda>s. rd_flags s = c) (nth_drive device i)"
  unfolding nth_drive_def by (intro keeps_rules quiet_drives_of)

lemma flags_put_drive: "rd_flags (put_drive device i d s) = rd_flags s"
  by (simp add: put_drive_def rd_flags_def split: option.splits)

lemma quiet_map_drive_status: "quiet (map_drive_status device drives st)"
  unfolding map_drive_status_def by (intro quietI keeps_rules quiet_drives_of quiet_nth_drive quiet_modp flags_put_drive)

lemma keeps_case_sum: "(\<And>e. keeps I (f e)) \<Longrightarrow> (\<And>x. keeps I (g x)) \<Longrightarrow> keeps I (case r of Inl e \<Rightarrow> f e | Inr x \<Rightarrow> g x)"
  by (cases r) simp_all

lemma quiet_add_drive: "keeps (\<lambda>s. rd_flags s = c) (add_drive role field device)"
  unfolding add_drive_def Let_def by (intro keeps_rules keeps_case_sum quiet_modp) (simp add: rd_flags_def)

lemma quiet_append_drive: "keeps (\<lambda>s. rd_flags s = c) (append_drive device ids status i)"
  unfolding append_drive_def by (intro keeps_rules quiet_modp) (simp add: rd_flags_def)

lemma quiet_parse: "keeps (\<lambda>s. rd_flags s = c) (parse_raid_status line device)"
  unfolding parse_raid_status_def Let_def by (intro keeps_rules quiet_modp quiet_append_drive) (simp_all add: rd_flags_def)

lemma quiet_scan_fields: "keeps (\<lambda>s. rd_flags s = c) (scan_fields role device fs names)"
  by (induction fs arbitrary: names) (auto simp: scan_field_def intro!: keeps_rules quiet_add_drive)

lemma quiet_scan_line: "keeps (\<lambda>s. rd_flags s = c) (scan_line role line m)"
  unfolding scan_line_def scan_device_def Let_def
  by (intro keeps_rules quiet_modp quiet_parse quiet_scan_fields) (simp_all add: rd_flags_def)

lemma quiet_scan_lines: "keeps (\<lambda>s. rd_flags s = c) (scan_lines role ls m)"
  by (induction ls arbitrary: m) (auto intro!: keeps_rules quiet_scan_line)

lemma quiet_process_mdstat: "quiet (process_mdstat ob)"
  unfolding process_mdstat_def by (intro quietI keeps_rules quiet_modp quiet_scan_lines) (simp add: rd_flags_def)

section \<open>The history of the arrays\<close>

text \<open>Arrays are reported as faulty and as back in turn.\<close>

definition array_rule :: alert_rule where
  "array_rule p a = (if a = ''fault'' \<and> p = None then Some (Some ''fault'')
     else if a = ''fault_resolved'' \<and> p = Some ''fault'' then Some None else None)"

text \<open>The alerts of the arrays themselves: those whose resource is the device.\<close>

definition array_alerts :: "rd_state \<Rightarrow> (string \<times> string) list" where
  "array_alerts s = map (\<lambda>(d, r, a). (d, a)) (filter (\<lambda>(d, r, a). r = Some d) (rd_raised s))"

definition array_outstanding :: "rd_state \<Rightarrow> string \<rightharpoonup> string" where
  "array_outstanding s = (\<lambda>d. if d \<in> set (rd_faulty_devices s) then Some ''fault'' else None)"

definition RAID_ALERTS :: "string list" where
  "RAID_ALERTS = [''fault'', ''fault_resolved'', ''missing'', ''insertion'']"

text \<open>What every operation needs: a store and a queue that take what is written, and a pending alert of a known type.\<close>

definition raid_base :: "rd_env \<Rightarrow> rd_state \<Rightarrow> bool" where
  "raid_base env s \<longleftrightarrow> fs_wf (rd_fs s) \<and> writable (rd_fs s) (raid_data_path env) \<and> has_queue ''NodeDataMsgHandler'' (rd_q s) \<and>
     (\<forall>a. rd_alert_type s = Some a \<longrightarrow> a \<in> set RAID_ALERTS)"

text \<open>The stored record knows the faulty arrays.\<close>

definition raid_stored :: "rd_env \<Rightarrow> rd_state \<Rightarrow> bool" where
  "raid_stored env s \<longleftrightarrow> isfile (rd_fs s) (raid_data_path env) \<and>
     (\<exists>t. store_get (rd_fs s) (raid_data_path env) = raid_record t \<and> rd_faulty_devices t = rd_faulty_devices s)"

definition raid_ok :: "rd_env \<Rightarrow> rd_state \<Rightarrow> bool" where
  "raid_ok env s \<longleftrightarrow> raid_base env s \<and> raid_stored env s"

definition hist :: "rd_env \<Rightarrow> rd_state \<Rightarrow> rd_state \<Rightarrow> bool" where
  "hist env s0 s \<longleftrightarrow> raid_ok env s \<and>
     alert_word array_rule (array_outstanding s0) (array_alerts s0) (array_outstanding s) (array_alerts s)"

lemmas hist_defs = hist_def raid_ok_def raid_base_def raid_stored_def array_outstanding_def array_alerts_def

lemma hist_flags: "rd_flags s = rd_flags t \<Longrightarrow> hist env s0 s = hist env s0 t"
  by (simp add: rd_flags_def hist_defs)

lemma keeps_hist_quiet: "quiet m \<Longrightarrow> keeps (hist env s0) m"
  by (rule keepsI) (use quiet_flags hist_flags in blast)

lemma json_able_raid: "json_able (raid_msg host a i sev e r d drives)"
  by (auto simp: raid_msg_def node_data_msg_def items_val_def drive_val_def identity_val_def opt_val_def split: option.splits)

lemma known_severity: "a \<in> set RAID_ALERTS \<Longrightarrow> \<exists>sev. map_severity a = Inr sev"
  by (auto simp: RAID_ALERTS_def map_severity_def ALERT_TO_SEVERITY_MAPPING_def)

lemma raid_send_run:
  assumes "nd_fqdn (rd_node env) = Inr h" and "raid_base env s" and "a \<in> set RAID_ALERTS"
  shows "\<exists>s'. raid_send env a r d drives s = (Inr (), s') \<and> raid_ok env s' \<and> rd_faulty_devices s' = rd_faulty_devices s \<and>
    rd_raised s' = rd_raised s @ [(d, r, a)] \<and> rd_alert_type s' = None \<and> rd_changed s' = rd_changed s"
proof -
  obtain sev where sev: "map_severity a = Inr sev" using known_severity [OF assms(3)] by blast
  let ?e = "str_int (nd_epoch (rd_node env) (rd_built s))"
  obtain t where t: "json_dumps (raid_msg h a (?e @ nd_salt (rd_node env) (rd_built s)) sev ?e r d drives) = Inr t"
    using json_dumps_ok [OF json_able_raid] by blast
  obtain ms where ms: "map_of (msgQlist (rd_q s)) ''NodeDataMsgHandler'' = Some ms"
    using assms(2) by (auto simp: raid_base_def has_queue_def)
  define s1 where "s1 = s\<lparr>rd_built := rd_built s + 1, rd_prev_alert := AList.update d (Some a) (rd_prev_alert s), rd_alert_type := None,
     rd_q := (rd_q s)\<lparr>msgQlist := AList.update ''NodeDataMsgHandler'' (ms @ [(PStr t, None)]) (msgQlist (rd_q s))\<rparr>,
     rd_raised := rd_raised s @ [(d, r, a)]\<rparr>"
  let ?s = "s1\<lparr>rd_fs := store_put (raid_record s1) (raid_data_path env) True (rd_fs s1)\<rparr>"
  have "raid_send env a r d drives s = (Inr (), ?s)"
    using sev t ms assms(1) unfolding s1_def
    by (simp add: raid_send_def bindp_def getp_def seqp_def modp_def liftp_def write_run raid_persist_def Let_def)
  moreover have "fs_wf (rd_fs s1)" "writable (rd_fs s1) (raid_data_path env)" using assms(2) by (simp_all add: s1_def raid_base_def)
  then have "raid_ok env ?s"
    by (auto simp: raid_ok_def raid_base_def raid_stored_def store_put_wf writable_put_same raid_put_isfile store_get_put_pickled)
      (simp_all add: s1_def has_queue_def)
  ultimately show ?thesis by (intro exI [of _ ?s]) (simp add: s1_def)
qed

lemma word_snoc:
  assumes "alert_word nxt m l m' l'" and "nxt (m' k) a = Some p"
  shows "alert_word nxt m l (m'(k := p)) (l' @ [(k, a)])"
  by (rule alert_word_trans [OF assms(1)], rule track_step_word) (use assms(2) in \<open>auto simp: track_step_def\<close>)

lemma hist_down:
  assumes "nd_fqdn (rd_node env) = Inr h" and "hist env s0 s" and "d \<notin> set (rd_faulty_devices s)"
  shows "hist env s0 (snd (array_down env d s))"
proof -
  let ?s = "s\<lparr>rd_alert_type := Some ''fault'', rd_faulty_devices := rd_faulty_devices s @ [d]\<rparr>"
  have base: "raid_base env ?s" using assms(2) by (simp add: hist_def raid_ok_def raid_base_def RAID_ALERTS_def)
  obtain s' where s': "raid_send env ''fault'' (Some d) d RAID_DOWN_DRIVE_STATUS ?s = (Inr (), s')" "raid_ok env s'"
      "rd_faulty_devices s' = rd_faulty_devices s @ [d]" "rd_raised s' = rd_raised s @ [(d, Some d, ''fault'')]"
    using raid_send_run [OF assms(1) base, of "''fault''" "Some d" d RAID_DOWN_DRIVE_STATUS] by (auto simp: RAID_ALERTS_def)
  have "alert_word array_rule (array_outstanding s0) (array_alerts s0) ((array_outstanding s)(d := Some ''fault'')) (array_alerts s @ [(d, ''fault'')])"
    by (rule word_snoc) (use assms(2,3) in \<open>auto simp: hist_def array_outstanding_def array_rule_def\<close>)
  moreover have "(array_outstanding s)(d := Some ''fault'') = array_outstanding s'" using s' by (auto simp: array_outstanding_def)
  moreover have "array_alerts s @ [(d, ''fault'')] = array_alerts s'" using s' by (simp add: array_alerts_def)
  ultimately show ?thesis using s' by (simp add: hist_def array_down_def seqp_def modp_def)
qed

lemma hist_up:
  assumes "nd_fqdn (rd_node env) = Inr h" and "hist env s0 s" and "d \<in> set (rd_faulty_devices s)"
  shows "hist env s0 (snd (raid_send env ''fault_resolved'' (Some d) d drives (s\<lparr>rd_faulty_devices := removeAll d (rd_faulty_devices s)\<rparr>)))"
proof -
  let ?s = "s\<lparr>rd_faulty_devices := removeAll d (rd_faulty_devices s)\<rparr>"
  have base: "raid_base env ?s" using assms(2) by (simp add: hist_def raid_ok_def raid_base_def)
  obtain s' where s': "raid_send env ''fault_resolved'' (Some d) d drives ?s = (Inr (), s')" "raid_ok env s'"
      "rd_faulty_devices s' = removeAll d (rd_faulty_devices s)" "rd_raised s' = rd_raised s @ [(d, Some d, ''fault_resolved'')]"
    using raid_send_run [OF assms(1) base, of "''fault_resolved''" "Some d" d drives] by (auto simp: RAID_ALERTS_def)
  have "alert_word array_rule (array_outstanding s0) (array_alerts s0) ((array_outstanding s)(d := None)) (array_alerts s @ [(d, ''fault_resolved'')])"
    by (rule word_snoc) (use assms(2,3) in \<open>auto simp: hist_def array_outstanding_def array_rule_def\<close>)
  moreover have "(array_outstanding s)(d := None) = array_outstanding s'" using s' by (auto simp: array_outstanding_def)
  moreover have "array_alerts s @ [(d, ''fault_resolved'')] = array_alerts s'" using s' by (simp add: array_alerts_def)
  ultimately show ?thesis using s' by (simp add: hist_def)
qed

text \<open>The alerts of drives do not count: their resource is longer than the device.\<close>

lemma hist_drive:
  assumes "nd_fqdn (rd_node env) = Inr h" and "hist env s0 s" and "a \<in> set RAID_ALERTS" and "r \<noteq> Some d"
  shows "hist env s0 (snd (raid_send env a r d drives s)) \<and> rd_alert_type (snd (raid_send env a r d drives s)) = None"
proof -
  obtain s' where "raid_send env a r d drives s = (Inr (), s')" "raid_ok env s'" "rd_faulty_devices s' = rd_faulty_devices s"
      "rd_raised s' = rd_raised s @ [(d, r, a)]" "rd_alert_type s' = None"
    using raid_send_run [OF assms(1) _ assms(3), of s r d drives] assms(2) by (auto simp: hist_def raid_ok_def)
  with assms(2,4) show ?thesis by (simp add: hist_def array_alerts_def array_outstanding_def)
qed

lemma keeps_has_drives: "keeps (\<lambda>s. map_of (rd_drives s) device \<noteq> None) (map_drive_status device drives st)"
  unfolding map_drive_status_def nth_drive_def drives_of_def
  by (intro keeps_rules keeps_modp) (auto simp: put_drive_def split: option.splits)

lemma hist_alert_type: "hist env s0 s \<Longrightarrow> a \<in> set RAID_ALERTS \<Longrightarrow> hist env s0 (s\<lparr>rd_alert_type := Some a\<rparr>)"
  by (simp add: hist_defs)

lemma hist_back:
  assumes "nd_fqdn (rd_node env) = Inr h" and "hist env s0 s" and "d \<in> set (rd_faulty_devices s)"
  shows "hist env s0 (snd (array_back env dict d s))"
proof -
  let ?s = "s\<lparr>rd_alert_type := Some ''fault_resolved''\<rparr>" and ?map = "map_drive_status d (Inr dict) ''Down/Recovery''"
  obtain r s1 where r: "?map ?s = (r, s1)" by force
  have flags: "rd_flags s1 = rd_flags ?s" using quiet_flags [OF quiet_map_drive_status, of d "Inr dict" "''Down/Recovery''" ?s] r by simp
  have "hist env s0 ?s" using hist_alert_type [OF assms(2)] by (simp add: RAID_ALERTS_def)
  then have h1: "hist env s0 s1" using hist_flags [OF flags] by simp
  have faulty: "d \<in> set (rd_faulty_devices s1)" using flags assms(3) by (simp add: rd_flags_def)
  show ?thesis
  proof (cases r)
    case (Inl e)
    with r h1 show ?thesis by (simp add: array_back_def seqp_def modp_def)
  next
    case (Inr u)
    have "map_of (rd_drives ?s) d \<noteq> None"
    proof
      assume "map_of (rd_drives ?s) d = None"
      with r Inr show False by (simp add: map_drive_status_def drives_of_def dict_item_def bindp_def getp_def liftp_def)
    qed
    then obtain xs where "map_of (rd_drives s1) d = Some xs"
      using keepsD [OF keeps_has_drives [of d "Inr dict" "''Down/Recovery''"], of ?s] r by auto
    with r Inr hist_up [OF assms(1) h1 faulty] show ?thesis
      by (simp add: array_back_def seqp_def modp_def bindp_def drives_of_def dict_item_def getp_def liftp_def)
  qed
qed

lemma keeps_check_array: "nd_fqdn (rd_node env) = Inr h \<Longrightarrow> keeps (hist env s0) (check_array env md dict d)"
  by (rule keepsI) (auto simp: check_array_def bindp_def getp_def ret_def intro: hist_down hist_back)

lemma keeps_process_missing: "nd_fqdn (rd_node env) = Inr h \<Longrightarrow> keeps (hist env s0) (process_missing_md_devices env ob m)"
  unfolding process_missing_md_devices_def
  by (intro keeps_case_option keeps_case_sum keeps_rules keeps_check_array)

section \<open>The alerts of the drives\<close>

text \<open>Between two turns no alert is pending; before one is sent its resource is another than the device.\<close>

definition pending :: "rd_state \<Rightarrow> bool" where
  "pending s \<longleftrightarrow> rd_alert_type s \<noteq> None \<and> rd_changed s"

definition idle :: "rd_env \<Rightarrow> rd_state \<Rightarrow> rd_state \<Rightarrow> bool" where
  "idle env s0 s \<longleftrightarrow> hist env s0 s \<and> \<not> pending s"

definition due :: "rd_env \<Rightarrow> rd_state \<Rightarrow> string \<Rightarrow> string option \<Rightarrow> rd_state \<Rightarrow> bool" where
  "due env s0 device r s \<longleftrightarrow> hist env s0 s \<and> (pending s \<longrightarrow> r \<noteq> Some device)"

lemma idle_hist: "idle env s0 s \<Longrightarrow> hist env s0 s"
  by (simp add: idle_def)

lemma idle_due: "idle env s0 s \<Longrightarrow> due env s0 device r s"
  by (simp add: idle_def due_def)

lemma hist_other: "hist env s0 s \<Longrightarrow> rd_fs t = rd_fs s \<Longrightarrow> rd_q t = rd_q s \<Longrightarrow> rd_faulty_devices t = rd_faulty_devices s \<Longrightarrow>
    rd_raised t = rd_raised s \<Longrightarrow> rd_alert_type t = rd_alert_type s \<Longrightarrow> hist env s0 t"
  by (simp add: hist_defs)

lemma runs_mark: "runs (hist env s0) (map_drive_status device drives st) (\<lambda>_. hist env s0) (hist env s0)"
  by (rule runs_keeps) (auto intro: keeps_hist_quiet quiet_map_drive_status)

lemma runs_set_alert: "a \<in> set RAID_ALERTS \<Longrightarrow> (\<And>s. rd_alert_type (f s) = Some a) \<Longrightarrow>
    (\<And>s. rd_flags (f s) = rd_flags (s\<lparr>rd_alert_type := Some a\<rparr>)) \<Longrightarrow>
    runs (hist env s0) (modp f) (\<lambda>_. hist env s0) (hist env s0)"
  by (rule runs_modp) (use hist_alert_type hist_flags in blast)

lemma runs_set_other: "(\<And>s. rd_flags (f s) = rd_flags (s\<lparr>rd_changed := rd_changed (f s)\<rparr>)) \<Longrightarrow> runs (hist env s0) (modp f) (\<lambda>_. hist env s0) E"
  by (rule runs_modp) (rule hist_other, assumption, (simp add: rd_flags_def)+)

lemma due_new: "hist env s0 s \<Longrightarrow> x \<noteq> [] \<Longrightarrow> due env s0 device (Some (device @ x)) s"
  by (simp add: due_def)

lemma runs_drive_missing: "runs (hist env s0) (drive_missing env m device names) (\<lambda>r. due env s0 device r) (hist env s0)"
  unfolding drive_missing_def
  apply (rule runs_bindp [OF runs_getp])
  apply (rule runs_pre [where P' = "hist env s0"])
   apply (rule runs_seqp [OF runs_set_alert [where a = "''missing''"]])
      apply (simp_all add: RAID_ALERTS_def rd_flags_def)
  apply (rule runs_seqp [OF runs_mark])
  apply (rule runs_seqp [OF runs_set_other])
   apply (simp add: rd_flags_def)
  apply (rule runs_ret)
  apply (rule due_new, simp_all)
  done

lemma runs_drive_inserted: "runs (hist env s0) (drive_inserted device names) (\<lambda>r. due env s0 device r) (hist env s0)"
  unfolding drive_inserted_def
  apply (rule runs_seqp [OF runs_set_alert [where a = "''insertion''"]])
     apply (simp_all add: RAID_ALERTS_def rd_flags_def)
  apply (cases names; simp)
   apply (rule runs_raise, assumption)
  apply (rule runs_seqp [OF runs_mark])
  apply (rule runs_seqp [OF runs_set_other])
   apply (simp add: rd_flags_def)
  apply (rule runs_ret, simp add: due_def)
  done

lemma runs_drive_fault:
  assumes "a \<in> {''fault'', ''fault_resolved''}"
  shows "runs (hist env s0) (drive_fault device name a) (\<lambda>_. hist env s0) (hist env s0)"
  unfolding drive_fault_def
  apply (rule runs_seqp [OF runs_set_alert [where a = a]])
     apply (use assms in \<open>auto simp: RAID_ALERTS_def rd_flags_def\<close>) [3]
  apply (rule runs_seqp [OF runs_mark runs_set_other])
  apply (simp add: rd_flags_def)
  done

lemma runs_check_count: "runs (idle env s0) (check_count env m device names r) (\<lambda>r. due env s0 device r) (hist env s0)"
proof -
  have hist: "runs (idle env s0) n (\<lambda>r. due env s0 device r) (hist env s0)"
    if "runs (hist env s0) n (\<lambda>r. due env s0 device r) (hist env s0)" for n
    using that by (rule runs_pre) (rule idle_hist)
  show ?thesis
    unfolding check_count_def
    apply (rule runs_bindp [where R = "\<lambda>_. idle env s0"], rule runs_post [OF runs_getp], simp)
    apply (rule runs_bindp [where R = "\<lambda>_. idle env s0"], rule runs_post [OF runs_liftp], erule idle_hist, simp)
    apply (rule runs_bindp [where R = "\<lambda>_. idle env s0"], rule runs_post [OF runs_getp], simp)
    apply (rule runs_if, rule hist, rule runs_drive_missing, rule runs_if, rule hist, rule runs_drive_inserted)
    apply (rule runs_ret, rule idle_due, assumption)
    done
qed

lemma runs_send_changed:
  assumes "nd_fqdn (rd_node env) = Inr h"
  shows "runs (due env s0 device r) (send_changed env device names r) (\<lambda>_. idle env s0) (hist env s0)"
proof (rule runsI)
  fix s x s'
  assume due: "due env s0 device r s" and run: "send_changed env device names r s = (x, s')"
  show "case x of Inr _ \<Rightarrow> idle env s0 s' | Inl _ \<Rightarrow> hist env s0 s'"
  proof (cases "pending s")
    case True
    then obtain a where a: "rd_alert_type s = Some a" "rd_changed s" "r \<noteq> Some device" using due by (auto simp: pending_def due_def)
    let ?s = "s\<lparr>rd_prev_drives := AList.update device names (rd_prev_drives s)\<rparr>"
    have h: "hist env s0 ?s" by (rule hist_other [of env s0 s]) (use due in \<open>simp_all add: due_def\<close>)
    have "a \<in> set RAID_ALERTS" using due a(1) by (simp add: due_def hist_def raid_ok_def raid_base_def)
    note sent = hist_drive [OF assms h this a(3)]
    have "send_changed env device names r s = (case map_of (rd_drives s) device of None \<Rightarrow> (Inl KeyError, ?s) | Some xs \<Rightarrow> raid_send env a r device xs ?s)"
      using a by (simp add: send_changed_def bindp_def getp_def seqp_def modp_def drives_of_def dict_item_def liftp_def split: option.split)
    note res = this [unfolded run]
    show ?thesis
    proof (cases "map_of (rd_drives s) device")
      case None
      with res h show ?thesis by simp
    next
      case (Some xs)
      with res have "s' = snd (raid_send env a r device xs ?s)" by (metis option.simps(5) snd_conv)
      with sent [of xs] show ?thesis by (simp add: idle_def pending_def split: sum.split)
    qed
  next
    case False
    with due run show ?thesis
      by (auto simp: send_changed_def bindp_def getp_def ret_def pending_def due_def idle_def split: option.splits if_splits)
  qed
qed

lemma idle_flags: "rd_flags s = rd_flags t \<Longrightarrow> idle env s0 s = idle env s0 t"
  using hist_flags [of s t] by (simp add: idle_def pending_def rd_flags_def)

lemma runs_quiet: "quiet m \<Longrightarrow> runs (idle env s0) m (\<lambda>_. idle env s0) (hist env s0)"
  by (rule runs_keeps, rule keepsI) (use quiet_flags idle_flags idle_hist in blast)+

lemma runs_check_drive:
  assumes "nd_fqdn (rd_node env) = Inr h"
  shows "runs (idle env s0) (check_drive env device names i r) (\<lambda>_. idle env s0) (hist env s0)"
  unfolding check_drive_def
proof (rule runs_bindp [OF runs_quiet [OF quietI [OF quiet_nth_drive]]], split option.split, intro conjI allI impI)
  fix d :: raid_drive and p
  let ?r = "Some (device @ '':/dev/'' @ drop 5 p)"
  have due: "hist env s0 s \<Longrightarrow> due env s0 device ?r s" for s by (simp add: due_def)
  have fault: "runs (idle env s0) (drive_fault device (drop 5 p) a) (\<lambda>_. due env s0 device ?r) (hist env s0)"
    if "a \<in> {''fault'', ''fault_resolved''}" for a
    by (rule runs_pre [OF runs_post [OF runs_drive_fault [OF that]]]) (rule due, assumption, rule idle_hist)
  have none: "runs (idle env s0) (ret ()) (\<lambda>_. due env s0 device ?r) (hist env s0)" by (rule runs_ret, rule idle_due)
  have send: "runs (due env s0 device ?r) (seqp (send_changed env device names ?r) (ret ?r)) (\<lambda>_. idle env s0) (hist env s0)"
    by (rule runs_seqp [OF runs_send_changed [OF assms] runs_ret])
  show "runs (idle env s0) (let name = drop 5 p; res_id = Some (device @ '':/dev/'' @ name) in
         bindp (getp (\<lambda>s. (map_of (rd_faulty_drives s) device, map_of (rd_prev_alert s) device))) (\<lambda>(faulty, prev).
         seqp (case faulty of None \<Rightarrow> ret ()
               | Some f \<Rightarrow> if \<not> drive_up d \<and> map_of f name = None \<and> prev \<noteq> Some (Some ''missing'') then drive_fault device name ''fault''
                   else if (drive_up d \<or> dv_status d = ''Down/Recovery'') \<and> map_of f name \<noteq> None then drive_fault device name ''fault_resolved''
                   else ret ())
         (seqp (send_changed env device names res_id) (ret res_id)))) (\<lambda>_. idle env s0) (hist env s0)"
    unfolding Let_def
    by (rule runs_bindp [OF runs_post [OF runs_getp, where Q = "\<lambda>_. idle env s0"]], simp, clarify, rule runs_seqp [OF _ send])
      (split option.split, intro conjI impI allI runs_if none fault, simp_all)
qed (rule runs_ret)

lemma runs_check_drives:
  assumes "nd_fqdn (rd_node env) = Inr h"
  shows "runs (idle env s0) (check_drives env device names is r) (\<lambda>_. idle env s0) (hist env s0)"
  by (induction "is" arbitrary: r) (auto intro: runs_ret runs_bindp runs_check_drive [OF assms])

lemma runs_liftp_idle: "runs (idle env s0) (liftp x) (\<lambda>_. idle env s0) (hist env s0)"
  by (rule runs_post [OF runs_liftp]) (auto intro: idle_hist)

lemma runs_check_device:
  assumes "nd_fqdn (rd_node env) = Inr h"
  shows "runs (idle env s0) (check_device env m device r) (\<lambda>_. idle env s0) (hist env s0)"
  unfolding check_device_def
  apply (rule runs_if, rule runs_ret, assumption)
  apply (rule runs_bindp [OF runs_liftp_idle])
  apply (rule runs_bindp [OF runs_check_count])
  apply (rule runs_seqp [OF runs_send_changed [OF assms]])
  apply (rule runs_bindp [OF runs_liftp_idle])
  apply (rule runs_if)
   apply (rule runs_bindp [OF runs_quiet [OF quietI [OF quiet_drives_of]] runs_check_drives [OF assms]])
  apply (rule runs_ret, assumption)
  done

lemma runs_check_devices:
  assumes "nd_fqdn (rd_node env) = Inr h"
  shows "runs (idle env s0) (check_devices env m ds r) (\<lambda>_. hist env s0) (hist env s0)"
  by (induction ds arbitrary: r) (auto intro: runs_ret runs_bindp runs_check_device [OF assms] idle_hist)

lemma changed_write: "keeps (\<lambda>s. \<not> rd_changed s)
    (\<lambda>s. case write_internal_msgQ n m e (rd_q s) of (r, q) \<Rightarrow> (r, s\<lparr>rd_q := q\<rparr>))"
  by (auto simp: keeps_def split: prod.splits)

lemma changed_send: "keeps (\<lambda>s. \<not> rd_changed s) (raid_send env a r d drives)"
  unfolding raid_send_def raid_persist_def Let_def by (intro keeps_rules keeps_modp changed_write) simp_all

lemma changed_quiet: "quiet m \<Longrightarrow> keeps (\<lambda>s. \<not> rd_changed s) m"
  by (rule keepsI) (use quiet_flags [of m] in \<open>simp add: rd_flags_def\<close>)

lemma changed_process_missing: "keeps (\<lambda>s. \<not> rd_changed s) (process_missing_md_devices env ob m)"
  unfolding process_missing_md_devices_def check_array_def array_down_def array_back_def
  by (intro keeps_case_option keeps_case_sum keeps_rules keeps_modp changed_send changed_quiet quiet_map_drive_status quietI quiet_drives_of) simp_all

lemma keeps_and: "keeps I m \<Longrightarrow> keeps J m \<Longrightarrow> keeps (\<lambda>s. I s \<and> J s) m"
  by (simp add: keeps_def)

lemma keeps_notify:
  assumes "nd_fqdn (rd_node env) = Inr h"
  shows "keeps (hist env s0) (raid_notify env ob)"
proof (rule keeps_runs)
  let ?P = "\<lambda>s. hist env s0 s \<and> \<not> rd_changed s"
  have scan: "runs ?P (process_mdstat ob) (\<lambda>_. ?P) (hist env s0)"
    by (rule runs_keeps [OF keeps_and]) (auto intro: keeps_hist_quiet changed_quiet quiet_process_mdstat)
  have arrays: "runs ?P (process_missing_md_devices env ob m) (\<lambda>_. ?P) (hist env s0)" for m
    by (rule runs_keeps [OF keeps_and [OF keeps_process_missing [OF assms] changed_process_missing]]) simp
  have drives: "runs ?P (check_devices env m ds None) (\<lambda>_. hist env s0) (hist env s0)" for m ds
    by (rule runs_pre [OF runs_check_devices [OF assms]]) (simp add: idle_def pending_def)
  have start: "runs ?P (modp (\<lambda>s. s\<lparr>rd_contents := t\<rparr>)) (\<lambda>_. ?P) (hist env s0)" for t
    by (rule runs_modp) (auto intro: hist_other)
  have none: "runs ?P (ret ()) (\<lambda>_. hist env s0) (hist env s0)" by (rule runs_ret) simp
  have reset: "runs (hist env s0) (modp (\<lambda>s. s\<lparr>rd_changed := False\<rparr>)) (\<lambda>_. ?P) (hist env s0)"
    by (rule runs_modp) (auto intro: hist_other)
  have get: "runs ?P (getp rd_contents) (\<lambda>_. ?P) (hist env s0)" by (rule runs_post [OF runs_getp]) simp
  show "runs (hist env s0) (raid_notify env ob) (\<lambda>_. hist env s0) (hist env s0)"
    unfolding raid_notify_def
    by (rule runs_seqp [OF reset], split option.split, intro conjI allI impI, rule none,
        rule runs_bindp [OF get], rule runs_if, rule none, rule runs_seqp [OF start], rule runs_bindp [OF scan], rule runs_seqp [OF arrays drives])
qed

lemma hist_queue: "hist env s0 s \<Longrightarrow> has_queue ''NodeDataMsgHandler'' q \<Longrightarrow> hist env s0 (s\<lparr>rd_q := q\<rparr>)"
  by (simp add: hist_defs)

lemma keeps_run:
  assumes "nd_fqdn (rd_node env) = Inr h"
  shows "keeps (hist env s0) (raid_run env ob)"
proof -
  have debug: "hist env s0 (s\<lparr>rd_q := (rd_q s)\<lparr>msgq_dbg := b\<rparr>, rd_schedule := l\<rparr>)" if "hist env s0 s" for s b l
    using that by (simp add: hist_defs has_queue_def)
  have wait: "hist env s0 (s\<lparr>rd_schedule := l\<rparr>)" if "hist env s0 s" for s l using that by (simp add: hist_defs)
  have read: "hist env s0 (s\<lparr>rd_q := snd (read_my_msgQ_noWait (nd_loads (rd_node env)) ''RAIDsensor'' (rd_q s))\<rparr>)" if "hist env s0 s" for s
    using that by (intro hist_queue read_noWait_queue) (simp_all add: hist_defs)
  show ?thesis
    unfolding raid_run_def by (intro keeps_rules keeps_modp keeps_notify [OF assms] debug wait read)
qed

lemma hist_initialize:
  assumes "hist env s0 s"
  shows "hist env s0 (snd (raid_initialize env s))"
proof -
  obtain t where t: "store_get (rd_fs s) (raid_data_path env) = raid_record t" "rd_faulty_devices t = rd_faulty_devices s"
      "isfile (rd_fs s) (raid_data_path env)"
    using assms by (auto simp: hist_def raid_ok_def raid_stored_def)
  with assms show ?thesis
    by (simp add: raid_initialize_stored hist_defs raid_restore_def raid_clear_def)
qed

lemma hist_refl: "raid_ok env s \<Longrightarrow> hist env s s"
  by (simp add: hist_def alert_word_refl)

section \<open>The alerts of the arrays alternate\<close>

text \<open>A run with whatever the files hold, a restart, a suspension or its end; a run that raises counts too.\<close>

inductive raid_step :: "rd_env \<Rightarrow> rd_state \<Rightarrow> rd_state \<Rightarrow> bool" for env where
  raid_step_run: "raid_step env s (snd (raid_run env ob s))"
| raid_step_restart: "raid_step env s (snd (raid_initialize env s))"
| raid_step_suspend: "raid_step env s (raid_suspend s)"
| raid_step_resume: "raid_step env s (raid_resume s)"

definition raid_inv :: "rd_env \<Rightarrow> rd_state \<Rightarrow> bool" where
  "raid_inv env s \<longleftrightarrow> (\<exists>h. nd_fqdn (rd_node env) = Inr h) \<and> raid_ok env s"

lemma raid_step_hist:
  assumes "raid_step env s s'" and "raid_inv env s"
  shows "hist env s s'"
proof -
  have h: "hist env s s" using assms(2) hist_refl by (simp add: raid_inv_def)
  obtain host where host: "nd_fqdn (rd_node env) = Inr host" using assms(2) by (auto simp: raid_inv_def)
  from assms(1) show ?thesis
  proof cases
    case (raid_step_run ob)
    with keepsD [OF keeps_run [OF host] h] show ?thesis by simp
  next
    case raid_step_restart
    with hist_initialize [OF h] show ?thesis by simp
  qed (use h in \<open>simp_all add: raid_suspend_def raid_resume_def hist_defs\<close>)
qed

interpretation rd_words: alert_words array_rule "raid_inv env" "raid_step env" array_outstanding array_alerts for env
  using raid_step_hist by unfold_locales (fastforce simp: hist_def raid_inv_def)+

lemma raid_first_start:
  assumes "fs_wf (rd_fs s)" and "writable (rd_fs s) (raid_data_path env)" and "has_queue ''NodeDataMsgHandler'' (rd_q s)"
    and "\<not> isfile (rd_fs s) (raid_data_path env)"
  shows "raid_ok env (snd (raid_initialize env s)) \<and> rd_raised (snd (raid_initialize env s)) = rd_raised s \<and>
    rd_faulty_devices (snd (raid_initialize env s)) = []"
  using assms
  by (auto simp: raid_initialize_def seqp_def modp_def bindp_def getp_def raid_persist_def raid_ok_def raid_base_def raid_stored_def
      store_put_wf writable_put_same raid_put_isfile store_get_put_pickled raid_clear_def)

text \<open>
  C17. From the first start of the RAID sensor on, whatever the status file, the configuration and the tools of mdadm
  say in its runs, over restarts and suspensions and runs that raise, the alerts of every array are fault and
  fault_resolved in turn, beginning with fault, and the array is remembered as faulty exactly after a fault.\<close>

theorem raid_array_alternates:
  assumes "nd_fqdn (rd_node env) = Inr h" and "fs_wf (rd_fs s0)" and "writable (rd_fs s0) (raid_data_path env)"
    and "has_queue ''NodeDataMsgHandler'' (rd_q s0)" and "\<not> isfile (rd_fs s0) (raid_data_path env)" and "rd_raised s0 = []"
    and "(raid_step env)\<^sup>*\<^sup>* (snd (raid_initialize env s0)) s"
  shows "replay_by array_rule None (fru_alerts d (array_alerts s)) = Some (if d \<in> set (rd_faulty_devices s) then Some ''fault'' else None)"
proof -
  let ?s = "snd (raid_initialize env s0)"
  note first = raid_first_start [OF assms(2-5)]
  have "rd_words.faithful ?s" using first assms(6) by (simp add: rd_words.faithful_def array_alerts_def array_outstanding_def fru_alerts_def)
  moreover have "raid_inv env ?s" using first assms(1) by (simp add: raid_inv_def)
  ultimately have "rd_words.faithful s" using rd_words.steps_faithful [OF assms(7)] by blast
  then show ?thesis by (simp add: rd_words.faithful_def array_outstanding_def)
qed

section \<open>A concrete sensor\<close>

definition demo_rd_env :: rd_env where
  "demo_rd_env = \<lparr>rd_node = demo_node, rd_first = hd\<rparr>"

definition demo_rd :: rd_state where
  "demo_rd = \<lparr>rd_fs = \<lparr>files = [], dirs = [], denied = []\<rparr>, rd_q = \<lparr>msgQlist = [(''NodeDataMsgHandler'', []), (''RAIDsensor'', [])], msgq_dbg = init_debug\<rparr>,
     rd_contents = [], rd_status = [], rd_faulty_drives = [], rd_faulty_devices = [], rd_drives = [], rd_total = [], rd_devices = [], rd_missing = None,
     rd_prev_drives = [], rd_prev_alert = [], rd_alert_type = None, rd_changed = False, rd_identity = [], rd_suspended = False, rd_schedule = [],
     rd_built = 0, rd_raised = []\<rparr>"

definition demo_obs :: rd_obs where
  "demo_obs = \<lparr>ob_mdstat = Some ''unused devices: <none>'', ob_conf = Some ''ARRAY /dev/md/1 metadata=1.2'', ob_role = (\<lambda>_. [])\<rparr>"

lemma demo_rd_path: "raid_data_path demo_rd_env = ''/var/sspl/server/RAID_SENSOR_DATA_SN01''"
  by code_simp

lemma demo_rd_store: "fs_wf (rd_fs demo_rd)" "writable (rd_fs demo_rd) (raid_data_path demo_rd_env)" "\<not> isfile (rd_fs demo_rd) (raid_data_path demo_rd_env)"
  by (simp add: demo_rd_def fs_wf_def isfile_def, code_simp, code_simp)

theorem raid_restart_roundtrip_witness:
  "fst (raid_initialize demo_rd_env (snd (raid_persist demo_rd_env demo_rd))) = Inr ()"
  using raid_restart_roundtrip [OF demo_rd_store(1,2)] by simp

lemma demo_count: "str_nat 12 = ''12''"
  by code_simp

theorem raid_count_one_digit_witness:
  "map_of (rd_total (snd (parse_raid_status ''1 blocks [12/12] [UUUUUUUUUUUU]'' ''/dev/md1'' demo_rd))) ''/dev/md1'' \<noteq> Some 12"
  using raid_count_one_digit [of "''1 blocks ''" 12 "''/12] [UUUUUUUUUUUU]''" "''/dev/md1''" demo_rd]
  by (simp add: demo_count)

theorem raid_array_alternates_witness:
  "rd_faulty_devices (snd (raid_run demo_rd_env demo_obs (snd (raid_initialize demo_rd_env demo_rd)))) = [''/dev/md1''] \<and>
   replay_by array_rule None (fru_alerts ''/dev/md1'' (array_alerts (snd (raid_run demo_rd_env demo_obs (snd (raid_initialize demo_rd_env demo_rd)))))) =
     Some (Some ''fault'')"
proof -
  let ?s = "snd (raid_run demo_rd_env demo_obs (snd (raid_initialize demo_rd_env demo_rd)))"
  have "rd_faulty_devices ?s = [''/dev/md1'']" by code_simp
  moreover have "(raid_step demo_rd_env)\<^sup>*\<^sup>* (snd (raid_initialize demo_rd_env demo_rd)) ?s" by (blast intro: raid_step_run)
  moreover have "nd_fqdn (rd_node demo_rd_env) = Inr ''node1''" by (simp add: demo_rd_env_def demo_node_simps)
  moreover have "has_queue ''NodeDataMsgHandler'' (rd_q demo_rd)" "rd_raised demo_rd = []" by (simp_all add: demo_rd_def has_queue_def)
  ultimately show ?thesis using raid_array_alternates [of demo_rd_env "''node1''" demo_rd ?s "''/dev/md1''"] demo_rd_store by simp
qed

end
