(* ===== verification/Service_Actuator.thy ===== *)
theory Service_Actuator
  imports Internal_MsgQ
begin

text \<open>
  \<^verbatim>\<open>actuators/impl/centos_7/systemd_service.py\<close> and \<^verbatim>\<open>framework/actuator_state_manager.py\<close>: the actuator that starts,
  stops, enables and queries services, and the table of the states of the actuators. Systemd (over D-Bus and
  \<^verbatim>\<open>systemctl\<close>) is a parameter: each of its functions gets the number of calls made so far, so that its answers may change
  over time. \<open>sd_log\<close> records what was asked of systemd, \<open>sd_slept\<close> the seconds spent in \<^verbatim>\<open>time.sleep\<close>.
\<close>

section \<open>States of the actuators\<close>

datatype act_state = IMPORTED | INITIALIZING | INITIALIZED

type_synonym act_table = "(string \<times> act_state) list"

definition asm_set_state :: "string \<Rightarrow> act_state \<Rightarrow> act_table \<Rightarrow> act_table res" where
  "asm_set_state actuator_name state t = (if actuator_name = [] \<or> strip actuator_name = [] then Inl TypeError
     else Inr (AList.update actuator_name state t))"

definition asm_get_state :: "act_table \<Rightarrow> string \<Rightarrow> act_state option" where
  "asm_get_state t actuator_name = map_of t actuator_name"

definition asm_is_initialized :: "act_table \<Rightarrow> string \<Rightarrow> bool" where
  "asm_is_initialized t n = (asm_get_state t n = Some INITIALIZED)"

definition asm_is_initializing :: "act_table \<Rightarrow> string \<Rightarrow> bool" where
  "asm_is_initializing t n = (asm_get_state t n = Some INITIALIZING)"

definition asm_is_imported :: "act_table \<Rightarrow> string \<Rightarrow> bool" where
  "asm_is_imported t n = (asm_get_state t n = Some IMPORTED)"

section \<open>Systemd\<close>

record svc_status =
  st_state :: string
  st_substate :: string
  st_pid :: int
  st_command :: "(string \<times> string list) list"

record sd_env =
  sd_load :: "nat \<Rightarrow> string \<Rightarrow> unit res"
  sd_query :: "nat \<Rightarrow> string \<Rightarrow> svc_status res"
  sd_action :: "nat \<Rightarrow> string \<Rightarrow> string \<Rightarrow> unit res"
  sd_unit_files :: "nat \<Rightarrow> string \<Rightarrow> string \<Rightarrow> string list list res"
  sd_enabled :: "nat \<Rightarrow> string \<Rightarrow> string res"
  sd_systemctl :: "nat \<Rightarrow> string \<Rightarrow> string \<times> int"
  sd_exn_text :: "py_exn \<Rightarrow> string"

record sd_state =
  sd_calls :: nat
  sd_log :: "(string \<times> string) list"
  sd_slept :: nat
  sd_dbg :: dbg

definition sd_call :: "(nat \<Rightarrow> 'a res) \<Rightarrow> (sd_state, 'a) proc" where
  "sd_call f s = (f (sd_calls s), s\<lparr>sd_calls := sd_calls s + 1\<rparr>)"

definition sd_sleep :: "nat \<Rightarrow> (sd_state, unit) proc" where
  "sd_sleep n = modp (\<lambda>s. s\<lparr>sd_slept := sd_slept s + n\<rparr>)"

definition get_state :: "sd_env \<Rightarrow> string \<Rightarrow> (sd_state, svc_status) proc" where
  "get_state env name = sd_call (\<lambda>k. sd_query env k name)"

text \<open>\<^verbatim>\<open>restart\<close>, \<^verbatim>\<open>start\<close> and \<^verbatim>\<open>stop\<close> of the service handler.\<close>

definition service_action :: "sd_env \<Rightarrow> string \<Rightarrow> string \<Rightarrow> (sd_state, unit) proc" where
  "service_action env act name = seqp (modp (\<lambda>s. s\<lparr>sd_log := sd_log s @ [(act, name)]\<rparr>)) (sd_call (\<lambda>k. sd_action env k act name))"

section \<open>Results of systemd\<close>

text \<open>
  The fields of the first change only: a field \<^verbatim>\<open>symlink\<close> or \<^verbatim>\<open>unlink\<close> opens a key, the others are collected under it.
\<close>

fun change_fields :: "string list \<Rightarrow> string option \<Rightarrow> pydict \<Rightarrow> pydict res" where
  "change_fields [] key r = Inr r"
| "change_fields (f # fs) key r =
     (if f = ''symlink'' \<or> f = ''unlink'' then change_fields fs (Some f) (AList.update f (PList []) r)
      else if f \<noteq> [] then (case key of None \<Rightarrow> Inl KeyError
        | Some k \<Rightarrow> (case map_of r k of Some (PList xs) \<Rightarrow> change_fields fs key (AList.update k (PList (xs @ [PStr f])) r)
            | _ \<Rightarrow> Inl KeyError))
      else change_fields fs key r)"

definition parse_enable_disable_dbus_result :: "string list list \<Rightarrow> pydict res" where
  "parse_enable_disable_dbus_result dbus_result = (case dbus_result of [] \<Rightarrow> Inr [] | c # _ \<Rightarrow> change_fields c None [])"

text \<open>
  \<^verbatim>\<open>re.search("Active:(.*) since (.*)", line).group(2)\<close>: the first group is greedy, so the second starts after the last
  \<^verbatim>\<open>" since "\<close>.
\<close>

fun after_first :: "string \<Rightarrow> string \<Rightarrow> string option" where
  "after_first pat [] = (if pat = [] then Some [] else None)"
| "after_first pat (c # s) = (if take (length pat) (c # s) = pat then Some (drop (length pat) (c # s)) else after_first pat s)"

fun after_last :: "string \<Rightarrow> string \<Rightarrow> string option" where
  "after_last pat [] = (if pat = [] then Some [] else None)"
| "after_last pat (c # s) = (case after_last pat s of Some t \<Rightarrow> Some t
     | None \<Rightarrow> if take (length pat) (c # s) = pat then Some (drop (length pat) (c # s)) else None)"

definition since_of :: "string \<Rightarrow> string option" where
  "since_of line = (case after_first ''Active:'' line of None \<Rightarrow> None | Some rest \<Rightarrow> after_last '' since '' rest)"

definition get_service_uptime :: "sd_env \<Rightarrow> string \<Rightarrow> (sd_state, string) proc" where
  "get_service_uptime env name = bindp (sd_call (\<lambda>k. Inr (sd_systemctl env k name))) (\<lambda>(output, returncode).
     ret (if returncode \<noteq> 0 then ''NA''
       else fold (\<lambda>line uptime. case since_of line of None \<Rightarrow> uptime | Some t \<Rightarrow> strip t) (splitlines output) ''NA''))"

section \<open>Requests\<close>

text \<open>
  The wait for \<^verbatim>\<open>active\<close>: at most twenty further queries, a second of sleep before each and one after the last.
\<close>

primrec wait_active :: "nat \<Rightarrow> sd_env \<Rightarrow> string \<Rightarrow> string \<Rightarrow> (sd_state, unit) proc" where
  "wait_active 0 env name state = (if state = ''active'' then ret () else sd_sleep 1)"
| "wait_active (Suc n) env name state = (if state = ''active'' then ret ()
     else seqp (sd_sleep 1) (bindp (get_state env name) (\<lambda>st. wait_active n env name (st_state st))))"

definition start_service :: "sd_env \<Rightarrow> string \<Rightarrow> string \<Rightarrow> (sd_state, string option) proc" where
  "start_service env request name =
     bindp (get_state env name) (\<lambda>st.
     if st_state st \<notin> {''active'', ''activating''} then
       seqp (service_action env request name)
       (bindp (get_state env name) (\<lambda>st. seqp (wait_active 20 env name (st_state st)) (ret None)))
     else ret (Some (''Can not process '' @ request @ '' request, for '' @ name @ '', as service is already in '' @ st_state st @ '' state.'')))"

definition change_unit_files :: "sd_env \<Rightarrow> string \<Rightarrow> string \<Rightarrow> (sd_state, pydict) proc" where
  "change_unit_files env request name =
     seqp (modp (\<lambda>s. s\<lparr>sd_log := sd_log s @ [(request, name)]\<rparr>))
     (bindp (sd_call (\<lambda>k. sd_unit_files env k request name)) (\<lambda>r. liftp (parse_enable_disable_dbus_result r)))"

text \<open>The \<^verbatim>\<open>try\<close> block: \<open>Inl\<close> is an early return with the text of an error.\<close>

definition do_request :: "sd_env \<Rightarrow> pyv \<Rightarrow> pyv \<Rightarrow> (sd_state, string + pydict) proc" where
  "do_request env service_request service_name = (case service_name of
     PStr name \<Rightarrow>
       seqp (sd_call (\<lambda>k. sd_load env k name))
       (if service_request = PStr ''restart'' \<or> service_request = PStr ''start'' then
          bindp (start_service env (if service_request = PStr ''restart'' then ''restart'' else ''start'') name) (\<lambda>e.
            ret (case e of Some t \<Rightarrow> Inl t | None \<Rightarrow> Inr []))
        else if service_request = PStr ''stop'' then seqp (service_action env ''stop'' name) (ret (Inr []))
        else if service_request = PStr ''status'' then bindp (get_state env name) (\<lambda>_. ret (Inr []))
        else if service_request = PStr ''enable'' then bindp (change_unit_files env ''enable'' name) (\<lambda>r. ret (Inr r))
        else if service_request = PStr ''disable'' then bindp (change_unit_files env ''disable'' name) (\<lambda>r. ret (Inr r))
        else ret (Inl ''Unknown service request''))
   | _ \<Rightarrow> raise TypeError)"

definition final_status :: "sd_env \<Rightarrow> string \<Rightarrow> pydict \<Rightarrow> (sd_state, pydict) proc" where
  "final_status env name result =
     seqp (sd_sleep 5)
     (bindp (get_state env name) (\<lambda>st.
      bindp (sd_call (\<lambda>k. sd_enabled env k name)) (\<lambda>status.
      bindp (get_service_uptime env name) (\<lambda>uptime.
      bindp (liftp (case st_command st of [] \<Rightarrow> Inl IndexError | c # _ \<Rightarrow> Inr (snd c))) (\<lambda>args.
        ret (fold (\<lambda>(k, v). AList.update k v) [(''pid'', PInt (st_pid st)), (''state'', PStr (st_state st)), (''substate'', PStr (st_substate st)),
          (''status'', PStr status), (''uptime'', PStr uptime), (''command_line_path'', PList (map PStr args))] result))))))"

definition request_section :: "pyv \<Rightarrow> pyv res" where
  "request_section jsonMsg = bindr (get_path jsonMsg [''actuator_request_type'', ''service_controller'']) (\<lambda>c.
     if c \<noteq> PNone then Inr c else get_path jsonMsg [''actuator_request_type'', ''service_watchdog_controller''])"

definition perform_request :: "sd_env \<Rightarrow> (string \<Rightarrow> pyv res) \<Rightarrow> pyv \<Rightarrow> (sd_state, pyv \<times> pyv \<times> bool) proc" where
  "perform_request env loads jsonMsg =
     seqp (\<lambda>s. case check_debug loads jsonMsg (sd_dbg s) of (r, d) \<Rightarrow> (r, s\<lparr>sd_dbg := d\<rparr>))
     (bindp (liftp (request_section jsonMsg)) (\<lambda>section.
      bindp (liftp (get_key section ''service_name'')) (\<lambda>service_name.
      bindp (liftp (get_key section ''service_request'')) (\<lambda>service_request.
      bindp (tryp (do_request env service_request service_name) (\<lambda>e. ret (Inl (sd_exn_text env e)))) (\<lambda>r.
        case r of Inl t \<Rightarrow> ret (service_name, PStr t, True)
        | Inr result \<Rightarrow> (case service_name of
            PStr name \<Rightarrow> bindp (final_status env name result) (\<lambda>result. ret (service_name, PDict result, False))
          | _ \<Rightarrow> raise TypeError))))))"

section \<open>Cost of a request\<close>

text \<open>At most \<open>c\<close> calls of systemd and at most \<open>t\<close> seconds of sleep, whichever way the program ends.\<close>

definition spends :: "nat \<Rightarrow> nat \<Rightarrow> (sd_state, 'a) proc \<Rightarrow> bool" where
  "spends c t m \<longleftrightarrow> (\<forall>s. sd_calls (snd (m s)) \<le> sd_calls s + c \<and> sd_slept (snd (m s)) \<le> sd_slept s + t)"

lemma spends_basic [simp, intro]:
  "spends c t (ret x)" "spends c t (raise e)" "spends c t (liftp r)" "n \<le> t \<Longrightarrow> spends c t (sd_sleep n)" "0 < c \<Longrightarrow> spends c t (sd_call f)"
  "0 < c \<Longrightarrow> spends c t (get_state env name)" "0 < c \<Longrightarrow> spends c t (service_action env act name)"
  "0 < c \<Longrightarrow> spends c t (get_service_uptime env name)" "0 < c \<Longrightarrow> spends c t (change_unit_files env act name)"
  by (auto simp: spends_def ret_def raise_def liftp_def sd_sleep_def modp_def sd_call_def get_state_def service_action_def seqp_def
      get_service_uptime_def change_unit_files_def bindp_def split: sum.splits prod.splits)

lemma spends_bindp:
  assumes "spends c t m" and "\<And>x. spends c' t' (f x)" and "c + c' \<le> C" and "t + t' \<le> T"
  shows "spends C T (bindp m f)"
  unfolding spends_def
proof
  fix s
  obtain r s1 where r: "m s = (r, s1)" by force
  then have 1: "sd_calls s1 \<le> sd_calls s + c" "sd_slept s1 \<le> sd_slept s + t" using assms(1) unfolding spends_def by (metis snd_conv)+
  have 2: "sd_calls (snd (f x s1)) \<le> sd_calls s1 + c'" "sd_slept (snd (f x s1)) \<le> sd_slept s1 + t'" for x
    using assms(2) [of x] by (simp_all add: spends_def)
  show "sd_calls (snd (bindp m f s)) \<le> sd_calls s + C \<and> sd_slept (snd (bindp m f s)) \<le> sd_slept s + T"
  proof (cases r)
    case (Inr x)
    with 1 2 [of x] assms(3,4) show ?thesis by (simp add: bindp_def r)
  qed (use 1 assms(3,4) in \<open>simp add: bindp_def r\<close>)
qed

lemma spends_tryp:
  assumes "spends c t m" and "\<And>e. spends 0 0 (h e)"
  shows "spends c t (tryp m h)"
  unfolding spends_def
proof
  fix s
  obtain r s1 where r: "m s = (r, s1)" by force
  then have 1: "sd_calls s1 \<le> sd_calls s + c" "sd_slept s1 \<le> sd_slept s + t" using assms(1) unfolding spends_def by (metis snd_conv)+
  have 2: "sd_calls (snd (h e s1)) \<le> sd_calls s1" "sd_slept (snd (h e s1)) \<le> sd_slept s1" for e
    using assms(2) [of e] by (simp_all add: spends_def)
  show "sd_calls (snd (tryp m h s)) \<le> sd_calls s + c \<and> sd_slept (snd (tryp m h s)) \<le> sd_slept s + t"
  proof (cases r)
    case (Inl e)
    with 1 2 [of e] show ?thesis by (simp add: tryp_def r)
  qed (use 1 in \<open>simp add: tryp_def r\<close>)
qed

lemma spends_wait: "spends n (Suc n) (wait_active n env name st)"
proof (induction n arbitrary: st)
  case (Suc n)
  have w: "spends (Suc n) (Suc n) (bindp (get_state env name) (\<lambda>st. wait_active n env name (st_state st)))"
    by (rule spends_bindp [of 1 0 _ n "Suc n"]) (simp_all add: Suc.IH)
  have "spends (Suc n) (Suc (Suc n)) (bindp (sd_sleep 1) (\<lambda>_. bindp (get_state env name) (\<lambda>st. wait_active n env name (st_state st))))"
    by (rule spends_bindp [of 0 1 _ "Suc n" "Suc n"]) (simp_all add: w)
  then show ?case by (simp add: seqp_bindp)
qed simp

lemma spends_start: "spends 23 21 (start_service env request name)"
proof -
  have w1: "spends 20 21 (bindp (wait_active 20 env name st) (\<lambda>_. ret (None :: string option)))" for st
    by (rule spends_bindp [of 20 21 _ 0 0]) (use spends_wait [of 20] in simp_all)
  have w2: "spends 21 21 (bindp (get_state env name) (\<lambda>st. bindp (wait_active 20 env name (st_state st)) (\<lambda>_. ret (None :: string option))))"
    by (rule spends_bindp [of 1 0 _ 20 21]) (simp_all add: w1)
  have w3: "spends 22 21 (bindp (service_action env request name) (\<lambda>_.
      bindp (get_state env name) (\<lambda>st. bindp (wait_active 20 env name (st_state st)) (\<lambda>_. ret (None :: string option)))))"
    by (rule spends_bindp [of 1 0 _ 21 21]) (simp_all add: w2)
  show ?thesis unfolding start_service_def seqp_bindp by (rule spends_bindp [of 1 0 _ 22 21]) (simp_all add: w3)
qed

lemma spends_if: "spends c t m \<Longrightarrow> spends c t n \<Longrightarrow> spends c t (if b then m else n)"
  by simp

lemma spends_one: "spends 1 0 m \<Longrightarrow> spends 23 21 (bindp m (\<lambda>x. ret (h x)))"
  by (rule spends_bindp [of 1 0 _ 0 0]) simp_all

lemma spends_do_request: "spends 24 21 (do_request env r name)"
proof (cases name)
  case (PStr n)
  have start: "spends 23 21 (bindp (start_service env req n) (\<lambda>e. ret (g e)))" for req and g :: "string option \<Rightarrow> string + pydict"
    by (rule spends_bindp [OF spends_start]) auto
  show ?thesis
    unfolding do_request_def PStr pyv.case seqp_bindp
  proof (rule spends_bindp [of 1 0 _ 23 21])
    fix x
    show "spends 23 21 (if r = PStr ''restart'' \<or> r = PStr ''start'' then
          bindp (start_service env (if r = PStr ''restart'' then ''restart'' else ''start'') n) (\<lambda>e. ret (case e of Some t \<Rightarrow> Inl t | None \<Rightarrow> Inr []))
        else if r = PStr ''stop'' then bindp (service_action env ''stop'' n) (\<lambda>_. ret (Inr []))
        else if r = PStr ''status'' then bindp (get_state env n) (\<lambda>_. ret (Inr []))
        else if r = PStr ''enable'' then bindp (change_unit_files env ''enable'' n) (\<lambda>r. ret (Inr r))
        else if r = PStr ''disable'' then bindp (change_unit_files env ''disable'' n) (\<lambda>r. ret (Inr r))
        else ret (Inl ''Unknown service request''))"
      by (intro spends_if start spends_one spends_basic) simp_all
  qed simp_all
qed (simp_all add: do_request_def)

lemma spends_final: "spends 3 5 (final_status env name result)"
proof -
  have w0: "spends 0 0 (bindp (liftp r) (\<lambda>args. ret (g args)))" for r and g :: "string list \<Rightarrow> pydict"
    by (rule spends_bindp [of 0 0 _ 0 0]) simp_all
  have w1: "spends 1 0 (bindp (get_service_uptime env name) (\<lambda>uptime. bindp (liftp r) (\<lambda>args. ret (g uptime args))))" for r and g :: "string \<Rightarrow> string list \<Rightarrow> pydict"
    by (rule spends_bindp [of 1 0 _ 0 0]) (simp_all add: w0)
  have w2: "spends 2 0 (bindp (sd_call f) (\<lambda>status. bindp (get_service_uptime env name) (\<lambda>uptime. bindp (liftp r) (\<lambda>args. ret (g status uptime args)))))"
      for f r and g :: "string \<Rightarrow> string \<Rightarrow> string list \<Rightarrow> pydict"
    by (rule spends_bindp [of 1 0 _ 1 0]) (simp_all add: w1 [simplified])
  have w3: "spends 3 0 (bindp (get_state env name) (\<lambda>st. bindp (sd_call f) (\<lambda>status. bindp (get_service_uptime env name) (\<lambda>uptime.
      bindp (liftp (r st)) (\<lambda>args. ret (g st status uptime args))))))" for f r and g :: "svc_status \<Rightarrow> string \<Rightarrow> string \<Rightarrow> string list \<Rightarrow> pydict"
    by (rule spends_bindp [of 1 0 _ 2 0]) (simp_all add: w2)
  show ?thesis unfolding final_status_def seqp_bindp by (rule spends_bindp [of 0 5 _ 3 0]) (simp_all add: w3)
qed

text \<open>
  C16. However systemd answers, a request to the actuator ends after at most 27 calls of systemd and 26 seconds of
  waiting, the wait for a started service to become active included.\<close>

theorem service_request_bounded:
  "sd_calls (snd (perform_request env loads m s)) \<le> sd_calls s + 27 \<and> sd_slept (snd (perform_request env loads m s)) \<le> sd_slept s + 26"
proof -
  have dbg: "spends 0 0 (\<lambda>s. case check_debug loads m (sd_dbg s) of (r, d) \<Rightarrow> (r, s\<lparr>sd_dbg := d\<rparr>))"
    by (simp add: spends_def split: prod.splits)
  have fin: "spends 3 5 (bindp (final_status env n result) (\<lambda>result. ret (name, PDict result, False)))" for n result and name :: pyv
    by (rule spends_bindp [OF spends_final, of 0 0]) simp_all
  have tail: "spends 3 5 (case r of Inl t \<Rightarrow> ret (name, PStr t, True)
      | Inr result \<Rightarrow> (case name of PStr n \<Rightarrow> bindp (final_status env n result) (\<lambda>result. ret (name, PDict result, False)) | _ \<Rightarrow> raise TypeError))"
    for r :: "string + pydict" and name :: pyv
    using fin by (auto split: sum.splits pyv.splits)
  have "spends 27 26 (perform_request env loads m)"
    unfolding perform_request_def seqp_bindp
    by (rule spends_bindp [OF dbg, of 27 26], rule spends_bindp [of 0 0 _ 27 26], simp, rule spends_bindp [of 0 0 _ 27 26], simp,
        rule spends_bindp [of 0 0 _ 27 26], simp, rule spends_bindp [OF spends_tryp [OF spends_do_request], of _ 3 5])
      (simp_all add: tail)
  then show ?thesis by (simp add: spends_def)
qed

section \<open>Actions on services\<close>

text \<open>Systemd is asked for at most one action, and that is one of \<open>A\<close>.\<close>

abbreviation acts :: "(string \<times> string) set \<Rightarrow> (sd_state, 'a) proc \<Rightarrow> bool" where
  "acts \<equiv> acts_by sd_log"

lemma acts_quiet [simp, intro]:
  "acts A (sd_sleep n)" "acts A (sd_call f)" "acts A (get_state env name)" "acts A (get_service_uptime env name)"
  by (auto simp: acts_by_def ret_def sd_sleep_def modp_def sd_call_def get_state_def get_service_uptime_def bindp_def split: sum.splits prod.splits)

lemma acts_action [simp, intro]: "acts {(a, n)} (service_action env a n)" "acts {(a, n)} (change_unit_files env a n)"
  by (auto simp: acts_by_def service_action_def change_unit_files_def seqp_def modp_def sd_call_def bindp_def liftp_def split: sum.splits prod.splits)

lemma acts_wait: "acts {} (wait_active n env name st)"
  by (induction n arbitrary: st) (auto simp: seqp_bindp intro!: acts_bindp)

lemma acts_start: "acts {(r, n)} (start_service env r n)"
proof -
  have "acts {(r, n)} (bindp (service_action env r n) (\<lambda>_. bindp (get_state env n) (\<lambda>st.
      bindp (wait_active 20 env n (st_state st)) (\<lambda>_. ret (None :: string option)))))"
    by (rule acts_bindp_quiet) (auto intro!: acts_bindp acts_wait)
  then show ?thesis unfolding start_service_def seqp_bindp by (auto intro!: acts_bindp [OF acts_quiet(3)])
qed

lemma acts_then:
  assumes "acts {(a, n)} m" and "r = PStr a" and "name = PStr n"
  shows "acts {(a, n). r = PStr a \<and> name = PStr n} (bindp m (\<lambda>x. ret (h x)))"
  by (rule acts_bindp_quiet [OF acts_mono [OF assms(1)]]) (simp_all add: assms)

lemma acts_do_request: "acts {(a, n). r = PStr a \<and> name = PStr n} (do_request env r name)"
proof (cases name)
  case (PStr n)
  have start: "acts {(a, n). r = PStr a \<and> name = PStr n} (bindp (start_service env (if r = PStr ''restart'' then ''restart'' else ''start'') n) (\<lambda>x. ret (h x)))"
    if "r = PStr ''restart'' \<or> r = PStr ''start''" for h :: "string option \<Rightarrow> string + pydict"
    by (rule acts_then [OF acts_start _ PStr]) (use that in auto)
  have "acts {(a, n). r = PStr a \<and> name = PStr n} (if r = PStr ''restart'' \<or> r = PStr ''start'' then
          bindp (start_service env (if r = PStr ''restart'' then ''restart'' else ''start'') n) (\<lambda>e. ret (case e of Some t \<Rightarrow> Inl t | None \<Rightarrow> Inr []))
        else if r = PStr ''stop'' then bindp (service_action env ''stop'' n) (\<lambda>_. ret (Inr []))
        else if r = PStr ''status'' then bindp (get_state env n) (\<lambda>_. ret (Inr []))
        else if r = PStr ''enable'' then bindp (change_unit_files env ''enable'' n) (\<lambda>r. ret (Inr r))
        else if r = PStr ''disable'' then bindp (change_unit_files env ''disable'' n) (\<lambda>r. ret (Inr r))
        else ret (Inl ''Unknown service request''))"
    by (intro acts_if start acts_then [OF _ _ PStr] acts_bindp acts_action acts_quiet acts_basic) simp_all
  then have "acts {(a, n). r = PStr a \<and> name = PStr n} (do_request env r (PStr n))"
    unfolding do_request_def pyv.case seqp_bindp by (intro acts_bindp [OF acts_quiet(2)])
  then show ?thesis by (simp add: PStr)
qed (simp_all add: do_request_def)

lemma acts_final: "acts {} (final_status env name result)"
  unfolding final_status_def seqp_bindp by (intro acts_bindp acts_quiet acts_basic)

lemma perform_request_acts:
  assumes "request_section m = Inr c" and "get_key c ''service_name'' = Inr name" and "get_key c ''service_request'' = Inr r"
  shows "acts {(a, n). r = PStr a \<and> name = PStr n} (perform_request env loads m)"
proof -
  have dbg: "acts {} (\<lambda>s. case check_debug loads m (sd_dbg s) of (r, d) \<Rightarrow> (r, s\<lparr>sd_dbg := d\<rparr>))"
    by (simp add: acts_by_def split: prod.splits)
  have tail: "acts {} (case r of Inl t \<Rightarrow> ret (name, PStr t, True)
      | Inr result \<Rightarrow> (case name of PStr n \<Rightarrow> bindp (final_status env n result) (\<lambda>result. ret (name, PDict result, False)) | _ \<Rightarrow> raise TypeError))"
    for r :: "string + pydict" and name :: pyv
    by (auto split: sum.splits pyv.splits intro!: acts_bindp acts_final)
  have "acts {(a, n). r = PStr a \<and> name = PStr n} (bindp (tryp (do_request env r name) (\<lambda>e. ret (Inl (sd_exn_text env e)))) (\<lambda>x.
      case x of Inl t \<Rightarrow> ret (name, PStr t, True)
      | Inr result \<Rightarrow> (case name of PStr n \<Rightarrow> bindp (final_status env n result) (\<lambda>result. ret (name, PDict result, False)) | _ \<Rightarrow> raise TypeError)))"
    by (rule acts_bindp_quiet [OF acts_tryp [OF acts_do_request]]) (simp_all add: tail)
  then have "acts {(a, n). r = PStr a \<and> name = PStr n} (bindp (liftp (request_section m)) (\<lambda>section.
      bindp (liftp (get_key section ''service_name'')) (\<lambda>service_name.
      bindp (liftp (get_key section ''service_request'')) (\<lambda>service_request.
      bindp (tryp (do_request env service_request service_name) (\<lambda>e. ret (Inl (sd_exn_text env e)))) (\<lambda>r.
        case r of Inl t \<Rightarrow> ret (service_name, PStr t, True)
        | Inr result \<Rightarrow> (case service_name of
            PStr name \<Rightarrow> bindp (final_status env name result) (\<lambda>result. ret (service_name, PDict result, False))
          | _ \<Rightarrow> raise TypeError))))))"
    by (simp add: assms bindp_liftp)
  then show ?thesis unfolding perform_request_def seqp_bindp by (intro acts_bindp [OF dbg])
qed

end
