(* ===== verification/Service_Handler.thy ===== *)
theory Service_Handler
  imports Service_Actuator Json_Msgs
begin

text \<open>
  \<^verbatim>\<open>message_handlers/service_msg_handler.py\<close>: service requests are checked, handed to the systemd actuator and
  answered; alerts of the service monitor are turned into messages. The actuator class looked up through the component
  registry is the systemd actuator when it is registered (\<open>sv_class\<close>); \<open>sv_new\<close> is the outcome of its constructor.
\<close>

section \<open>State\<close>

record sv_env =
  sv_msgs :: msg_env
  sv_loads :: "string \<Rightarrow> pyv res"
  sv_systemd :: sd_env
  sv_class :: bool
  sv_new :: "unit res"
  sv_monitored :: "string list"
  sv_ids :: "string \<Rightarrow> pyv"
  sv_host_id :: pyv
  sv_epoch :: "nat \<Rightarrow> int"

record sv_state =
  sv_q :: "nat msgq"
  sv_suspended :: bool
  sv_schedule :: "int list"
  sv_table :: act_table
  sv_actuator :: bool
  sv_sd :: sd_state
  sv_ticks :: nat

definition on_sv_q :: "(nat msgq, 'a) proc \<Rightarrow> (sv_state, 'a) proc" where
  "on_sv_q m s = (case m (sv_q s) of (r, q) \<Rightarrow> (r, s\<lparr>sv_q := q\<rparr>))"

definition on_sd :: "(sd_state, 'a) proc \<Rightarrow> (sv_state, 'a) proc" where
  "on_sd m s = (case m (sv_sd s) of (r, d) \<Rightarrow> (r, s\<lparr>sv_sd := d\<rparr>))"

definition set_actuator_state :: "act_state \<Rightarrow> (sv_state, unit) proc" where
  "set_actuator_state st = bindp (getp (\<lambda>s. asm_set_state ''Service'' st (sv_table s))) (\<lambda>r. bindp (liftp r) (\<lambda>t.
     modp (\<lambda>s. s\<lparr>sv_table := t\<rparr>)))"

section \<open>Responses\<close>

definition actuator_response :: "sv_env \<Rightarrow> string \<Rightarrow> pydict \<Rightarrow> bool \<Rightarrow> pyv" where
  "actuator_response env epoch_time service_info is_error = (let resource_id = (case map_of service_info ''service_name'' of None \<Rightarrow> PNone | Some v \<Rightarrow> v) in
     PDict [(''alert_type'', PStr ''UPDATE''), (''severity'', PStr (if is_error then ''warning'' else ''informational'')),
       (''host_id'', sv_host_id env), (''instance_id'', resource_id),
       (''info'', PDict (map (\<lambda>k. (k, sv_ids env k)) [''cluster_id'', ''site_id'', ''rack_id'', ''storage_set_id'', ''node_id''] @
          [(''resource_id'', resource_id), (''resource_type'', PStr ''node:sw:os:service''), (''event_time'', PStr epoch_time)])),
       (''specific_info'', PList [PDict service_info])])"

definition create_actuator_response :: "sv_env \<Rightarrow> pydict \<Rightarrow> bool \<Rightarrow> (sv_state, pyv) proc" where
  "create_actuator_response env service_info is_error =
     bindp (getp sv_ticks) (\<lambda>n. seqp (modp (\<lambda>s. s\<lparr>sv_ticks := n + 1\<rparr>))
       (ret (actuator_response env (str_int (sv_epoch env n)) service_info is_error)))"

text \<open>\<^verbatim>\<open>os.strerror\<close> of the three numbers the handler uses.\<close>

definition EPERM :: int where "EPERM = 1"
definition EBUSY :: int where "EBUSY = 16"
definition EINVAL :: int where "EINVAL = 22"

definition errno_to_str_mapping :: "int \<Rightarrow> string" where
  "errno_to_str_mapping err_no = (if err_no = EPERM then ''Operation not permitted'' else if err_no = EBUSY then ''Device or resource busy''
     else if err_no = EINVAL then ''Invalid argument'' else ''Unknown error '' @ str_int err_no)"

definition error_info :: "pyv \<Rightarrow> pyv \<Rightarrow> pyv \<Rightarrow> int option \<Rightarrow> pydict" where
  "error_info request service_name err_msg err_no = [(''service_name'', service_name), (''request'', request), (''error_msg'', err_msg)] @
     (case err_no of None \<Rightarrow> [] | Some n \<Rightarrow> [(''error_no'', PStr (str_int n @ '' - '' @ errno_to_str_mapping n))])"

definition send_response :: "sv_env \<Rightarrow> pyv \<Rightarrow> pyv \<Rightarrow> (sv_state, unit) proc" where
  "send_response env uuid response =
     bindp (liftp (ServiceControllerMsg (sv_msgs env) response)) (\<lambda>m.
     bindp (liftp (with_uuid uuid m)) (\<lambda>m.
     bindp (liftp (actuator_getJson (sv_msgs env) m)) (\<lambda>t.
       on_sv_q (write_internal_msgQ ''EgressProcessor'' (PStr t) None))))"

definition send_error_response :: "sv_env \<Rightarrow> pyv \<Rightarrow> pyv \<Rightarrow> pyv \<Rightarrow> int option \<Rightarrow> (sv_state, unit) proc" where
  "send_error_response env request service_name err_msg err_no =
     bindp (create_actuator_response env (error_info request service_name err_msg err_no) True) (send_response env PNone)"

section \<open>Requests\<close>

definition section_path :: "string list" where
  "section_path = [''actuator_request_type'', ''service_controller'']"

definition execute_request :: "sv_env \<Rightarrow> pyv \<Rightarrow> pyv \<Rightarrow> (sv_state, unit) proc" where
  "execute_request env json_msg uuid =
     bindp (liftp (get_path json_msg (section_path @ [''service_request'']))) (\<lambda>service_request.
     bindp (on_sd (perform_request (sv_systemd env) (sv_loads env) json_msg)) (\<lambda>(service_name, result, error).
       if error then send_error_response env service_request service_name result None
       else bindp (liftp (case result of PDict d \<Rightarrow> Inr d | _ \<Rightarrow> Inl TypeError)) (\<lambda>d.
         bindp (create_actuator_response env (fold (\<lambda>(k, v). AList.update k v) d [(''service_name'', service_name)]) False)
           (send_response env uuid))))"

definition new_actuator :: "sv_env \<Rightarrow> (sv_state, unit) proc" where
  "new_actuator env = seqp (liftp (sv_new env)) (modp (\<lambda>s. s\<lparr>sv_actuator := True, sv_sd := (sv_sd s)\<lparr>sd_dbg := init_debug\<rparr>\<rparr>))"

text \<open>What is done with a request that passed the checks, by the state of the actuator.\<close>

definition dispatch_request :: "sv_env \<Rightarrow> pyv \<Rightarrow> pyv \<Rightarrow> pyv \<Rightarrow> pyv \<Rightarrow> (sv_state, unit) proc" where
  "dispatch_request env jsonMsg uuid service_request service_name =
     bindp (getp sv_table) (\<lambda>t.
       if asm_is_initialized t ''Service'' then
         bindp (getp sv_actuator) (\<lambda>a. if a then execute_request env jsonMsg uuid else raise AttributeError)
       else if asm_is_initializing t ''Service'' then
         send_error_response env service_request service_name (PStr ''BUSY - Service actuator is initializing.'') (Some EBUSY)
       else if asm_is_imported t ''Service'' then
         seqp (set_actuator_state INITIALIZING)
         (if sv_class env then
            seqp (new_actuator env) (seqp (execute_request env jsonMsg uuid) (set_actuator_state INITIALIZED))
          else ret ())
       else ret ())"

definition service_disabled :: "sv_env \<Rightarrow> pyv \<Rightarrow> pyv \<Rightarrow> (sv_state, bool) proc" where
  "service_disabled env service_request service_name =
     (if service_request = PStr ''disable'' \<or> service_request = PStr ''enable'' then ret False
      else case service_name of
        PStr name \<Rightarrow> bindp (on_sd (sd_call (\<lambda>k. sd_enabled (sv_systemd env) k name))) (\<lambda>st. ret (st = ''disabled''))
      | _ \<Rightarrow> raise TypeError)"

definition handle_request :: "sv_env \<Rightarrow> pyv \<Rightarrow> pyv \<Rightarrow> (sv_state, unit) proc" where
  "handle_request env jsonMsg uuid =
     bindp (liftp (get_path jsonMsg (section_path @ [''service_name'']))) (\<lambda>service_name.
     bindp (liftp (get_path jsonMsg (section_path @ [''service_request'']))) (\<lambda>service_request.
     bindp (liftp (py_in service_name (PList (map PStr (sv_monitored env))))) (\<lambda>monitored.
       if \<not> monitored then
         send_error_response env service_request service_name
           (PStr (''Check if supplied service name is valid, '' @ py_str service_name @ '' is not monitored or managed.'')) (Some EINVAL)
       else bindp (service_disabled env service_request service_name) (\<lambda>disabled.
         if disabled then
           send_error_response env service_request service_name
             (PStr (py_str service_name @ '' is disabled, enable request needed before current - '' @ py_str service_request @
                '' request can be processed.'')) (Some EPERM)
         else dispatch_request env jsonMsg uuid service_request service_name))))"

definition has_section :: "pyv \<Rightarrow> string \<Rightarrow> string \<Rightarrow> bool res" where
  "has_section m k1 k2 = bindr (py_in (PStr k1) m) (\<lambda>b. if \<not> b then Inr False
     else bindr (getitem m k1) (\<lambda>v. py_in (PStr k2) v))"

definition sv_process_dict :: "sv_env \<Rightarrow> pyv \<Rightarrow> (sv_state, unit) proc" where
  "sv_process_dict env jsonMsg =
     bindp (liftp (get_chain jsonMsg [''sspl_ll_msg_header'', ''uuid''])) (\<lambda>uuid.
     bindp (liftp (has_section jsonMsg ''actuator_request_type'' ''service_controller'')) (\<lambda>request.
       if request then handle_request env jsonMsg uuid
       else bindp (liftp (has_section jsonMsg ''sensor_request_type'' ''service_status_alert'')) (\<lambda>alert.
         if alert then
           bindp (liftp (getitem jsonMsg ''sensor_request_type'')) (\<lambda>r.
           bindp (liftp (ServiceMonitorMsg (sv_msgs env) r)) (\<lambda>m.
           bindp (liftp (sensor_getJson (sv_msgs env) m)) (\<lambda>t.
             on_sv_q (write_internal_msgQ ''EgressProcessor'' (PStr t) None))))
         else ret ())))"

definition sv_process_msg :: "sv_env \<Rightarrow> pyv \<Rightarrow> (sv_state, unit) proc" where
  "sv_process_msg env jsonMsg = bindp (liftp (as_message (sv_loads env) jsonMsg)) (sv_process_dict env)"

section \<open>The loop of the thread\<close>

definition sv_run :: "nat \<Rightarrow> sv_env \<Rightarrow> sv_state \<Rightarrow> (unit res \<times> sv_state) option" where
  "sv_run fuel env s = (if sv_suspended s then Some (Inr (), s\<lparr>sv_schedule := sv_schedule s @ [1]\<rparr>)
     else map_option (\<lambda>(_, s'). (Inr (), s'\<lparr>sv_schedule := sv_schedule s' @ [1]\<rparr>))
       (drain_loop fuel (sv_loads env) ''ServiceMsgHandler'' sv_q (\<lambda>q s. s\<lparr>sv_q := q\<rparr>) (sv_process_msg env) s))"

definition sv_suspend :: "sv_state \<Rightarrow> sv_state" where
  "sv_suspend s = s\<lparr>sv_suspended := True\<rparr>"

definition sv_resume :: "sv_state \<Rightarrow> sv_state" where
  "sv_resume s = s\<lparr>sv_suspended := False\<rparr>"

section \<open>What reaches systemd\<close>

abbreviation svacts :: "(string \<times> string) set \<Rightarrow> (sv_state, 'a) proc \<Rightarrow> bool" where
  "svacts \<equiv> acts_by (\<lambda>s. sd_log (sv_sd s))"

lemma svacts_on_sd: "acts_by sd_log A m \<Longrightarrow> svacts A (on_sd m)"
  unfolding acts_by_def on_sd_def by (auto split: prod.splits) (metis snd_conv)+

lemma svacts_quiet [simp, intro]: "svacts A (on_sv_q m)" "svacts A (create_actuator_response env i e)" "svacts A (set_actuator_state st)"
    "svacts A (new_actuator env)"
  by (auto simp: acts_by_def on_sv_q_def create_actuator_response_def set_actuator_state_def new_actuator_def seqp_def bindp_def getp_def modp_def
      ret_def liftp_def split: prod.splits sum.splits)

lemma svacts_send_response [simp, intro]: "svacts A (send_response env u r)"
  unfolding send_response_def by (intro acts_bindp svacts_quiet acts_basic)

lemma svacts_error [simp, intro]: "svacts A (send_error_response env r n m e)"
  unfolding send_error_response_def by (intro acts_bindp svacts_quiet svacts_send_response)

text \<open>The name and the request of a message, as the handler reads them, are those the actuator reads.\<close>

definition asks :: "pyv \<Rightarrow> (string \<times> string) set" where
  "asks m = {(r, n). get_path m (section_path @ [''service_name'']) = Inr (PStr n) \<and> get_path m (section_path @ [''service_request'']) = Inr (PStr r)}"

lemma actuator_reads_same:
  assumes "get_path m (section_path @ [''service_name'']) = Inr name" and "get_path m (section_path @ [''service_request'']) = Inr r"
  shows "\<exists>c. request_section m = Inr c \<and> get_key c ''service_name'' = Inr name \<and> get_key c ''service_request'' = Inr r"
proof -
  obtain a where a: "get_key m ''actuator_request_type'' = Inr a" using assms(1) by (auto simp: section_path_def bindr_eq_Inr)
  then obtain c where c: "get_key a ''service_controller'' = Inr c" "get_key c ''service_name'' = Inr name" "get_key c ''service_request'' = Inr r"
    using assms by (auto simp: section_path_def bindr_eq_Inr)
  then have "c \<noteq> PNone" by (auto simp: get_key_def)
  with a c show ?thesis by (auto simp: request_section_def)
qed

lemma svacts_execute:
  assumes "get_path m (section_path @ [''service_name'']) = Inr (PStr n)" and "get_path m (section_path @ [''service_request'']) = Inr r"
  shows "svacts {(a, x). r = PStr a \<and> x = n} (execute_request env m uuid)"
proof -
  obtain c where c: "request_section m = Inr c" "get_key c ''service_name'' = Inr (PStr n)" "get_key c ''service_request'' = Inr r"
    using actuator_reads_same [OF assms] by blast
  have "svacts {(a, x). r = PStr a \<and> x = n} (on_sd (perform_request (sv_systemd env) (sv_loads env) m))"
    by (rule svacts_on_sd [OF acts_mono [OF perform_request_acts [OF c]]]) auto
  moreover have "svacts {} (case x of (service_name, result, error) \<Rightarrow>
       if error then send_error_response env q service_name result None
       else bindp (liftp (case result of PDict d \<Rightarrow> Inr d | _ \<Rightarrow> Inl TypeError)) (\<lambda>d.
         bindp (create_actuator_response env (fold (\<lambda>(k, v). AList.update k v) d [(''service_name'', service_name)]) False)
           (send_response env uuid)))" for x q
    by (cases x) (auto intro!: acts_bindp)
  ultimately show ?thesis
    unfolding execute_request_def by (intro acts_bindp [OF acts_basic(3)] acts_bindp_quiet)
qed

lemma svacts_dispatch:
  assumes "get_path m (section_path @ [''service_name'']) = Inr (PStr n)" and "get_path m (section_path @ [''service_request'']) = Inr r"
  shows "svacts {(a, x). r = PStr a \<and> x = n} (dispatch_request env m uuid q v)"
proof -
  note ex = svacts_execute [OF assms, of env uuid]
  have "svacts {(a, x). r = PStr a \<and> x = n} (bindp (execute_request env m uuid) (\<lambda>_. set_actuator_state INITIALIZED))"
    by (rule acts_bindp_quiet [OF ex]) simp
  then have new: "svacts {(a, x). r = PStr a \<and> x = n} (bindp (new_actuator env) (\<lambda>_. bindp (execute_request env m uuid) (\<lambda>_. set_actuator_state INITIALIZED)))"
    by (rule acts_bindp [OF svacts_quiet(4)])
  have imp: "svacts {(a, x). r = PStr a \<and> x = n} (bindp (set_actuator_state INITIALIZING) (\<lambda>_. if sv_class env then
      bindp (new_actuator env) (\<lambda>_. bindp (execute_request env m uuid) (\<lambda>_. set_actuator_state INITIALIZED)) else ret ()))"
    by (intro acts_bindp [OF svacts_quiet(3)] acts_if new acts_basic)
  have ini: "svacts {(a, x). r = PStr a \<and> x = n} (bindp (getp sv_actuator) (\<lambda>a. if a then execute_request env m uuid else raise AttributeError))"
    by (intro acts_bindp [OF acts_basic(4)] acts_if ex acts_basic)
  show ?thesis
    unfolding dispatch_request_def seqp_bindp by (intro acts_bindp [OF acts_basic(4)] acts_if imp ini svacts_error acts_basic)
qed

lemma in_monitored: "py_in v (PList (map PStr xs)) = Inr True \<longleftrightarrow> (\<exists>n \<in> set xs. v = PStr n)"
  by (cases v) (auto simp: list_ex_iff)

lemma actsD: "acts_by log A m \<Longrightarrow> log (snd (m s)) = log s \<or> (\<exists>x \<in> A. log (snd (m s)) = log s @ [x])"
  by (simp add: acts_by_def)

lemma handle_request_guard:
  "sd_log (sv_sd (snd (handle_request env m uuid s))) = sd_log (sv_sd s) \<or>
   (\<exists>r n. (r, n) \<in> asks m \<and> sd_log (sv_sd (snd (handle_request env m uuid s))) = sd_log (sv_sd s) @ [(r, n)] \<and> n \<in> set (sv_monitored env) \<and>
    (r \<in> {''enable'', ''disable''} \<or> sd_enabled (sv_systemd env) (sd_calls (sv_sd s)) n \<noteq> Inr ''disabled''))"
proof -
  let ?log = "\<lambda>p. sd_log (sv_sd (snd (p s)))"
  have quiet: "?log (p :: (sv_state, unit) proc) = sd_log (sv_sd s)" if "svacts {} p" for p using actsD [OF that, of s] by simp
  consider (bad) e where "get_path m (section_path @ [''service_name'']) = Inl e \<or> get_path m (section_path @ [''service_request'']) = Inl e"
    | (ok) name r where "get_path m (section_path @ [''service_name'']) = Inr name" "get_path m (section_path @ [''service_request'']) = Inr r"
    by (metis sumE)
  then show ?thesis
  proof cases
    case bad
    then have "?log (handle_request env m uuid) = sd_log (sv_sd s)"
      by (cases "get_path m (section_path @ [''service_name''])") (auto simp: handle_request_def bindp_def liftp_def)
    then show ?thesis by blast
  next
    case ok
    consider (unknown) "py_in name (PList (map PStr (sv_monitored env))) = Inr False" | (known) n where "name = PStr n" "n \<in> set (sv_monitored env)"
      using in_monitored [of name "sv_monitored env"] by (cases "list_ex (py_eq name) (map PStr (sv_monitored env))") auto
    then show ?thesis
    proof cases
      case unknown
      then have "?log (handle_request env m uuid) = sd_log (sv_sd s)" using ok
        by (simp add: handle_request_def bindp_liftp quiet [OF svacts_error] del: py_in.simps)
      then show ?thesis by blast
    next
      case known
      then have mon: "py_in name (PList (map PStr (sv_monitored env))) = Inr True" using in_monitored [of name "sv_monitored env"] by blast
      define s1 where "s1 = (if r \<in> {PStr ''enable'', PStr ''disable''} then s else s\<lparr>sv_sd := (sv_sd s)\<lparr>sd_calls := sd_calls (sv_sd s) + 1\<rparr>\<rparr>)"
      have log1: "sd_log (sv_sd s1) = sd_log (sv_sd s)" by (simp add: s1_def)
      have disp: "sd_log (sv_sd (snd (dispatch_request env m uuid r name s1))) = sd_log (sv_sd s) \<or>
          (\<exists>a. r = PStr a \<and> sd_log (sv_sd (snd (dispatch_request env m uuid r name s1))) = sd_log (sv_sd s) @ [(a, n)])"
        using actsD [OF svacts_dispatch [of m n r env uuid r name], of s1] ok known(1) log1 by auto
      have run: "handle_request env m uuid s = bindp (service_disabled env r name) (\<lambda>disabled. if disabled then
           send_error_response env r name (PStr (py_str name @ '' is disabled, enable request needed before current - '' @ py_str r @
                '' request can be processed.'')) (Some EPERM) else dispatch_request env m uuid r name) s"
        using ok mon by (simp add: handle_request_def bindp_liftp del: py_in.simps)
      note steps = run known(1) service_disabled_def bindp_def ret_def on_sd_def sd_call_def s1_def
      let ?en = "sd_enabled (sv_systemd env) (sd_calls (sv_sd s)) n"
      consider (free) "r \<in> {PStr ''enable'', PStr ''disable''} \<or> (\<exists>st. ?en = Inr st \<and> st \<noteq> ''disabled'')"
        | (stop) "r \<notin> {PStr ''enable'', PStr ''disable''}" "?en = Inr ''disabled''" | (fails) e where "r \<notin> {PStr ''enable'', PStr ''disable''}" "?en = Inl e"
        by (cases ?en) auto
      then show ?thesis
      proof cases
        case free
        then have "handle_request env m uuid s = dispatch_request env m uuid r name s1"
          by (auto simp: steps)
        with disp known free ok show ?thesis by (auto simp: asks_def)
      next
        case stop
        then have "\<exists>t. handle_request env m uuid s = send_error_response env r name (PStr t) (Some EPERM) s1"
          by (auto simp: steps)
        then show ?thesis using actsD [OF svacts_error [where A = "{}"]] log1 by auto
      next
        case fails
        then show ?thesis by (auto simp: steps)
      qed
    qed
  qed
qed

lemma process_dict_guard:
  "sd_log (sv_sd (snd (sv_process_dict env j s))) = sd_log (sv_sd s) \<or>
   (\<exists>r n. (r, n) \<in> asks j \<and> sd_log (sv_sd (snd (sv_process_dict env j s))) = sd_log (sv_sd s) @ [(r, n)] \<and> n \<in> set (sv_monitored env) \<and>
    (r \<in> {''enable'', ''disable''} \<or> sd_enabled (sv_systemd env) (sd_calls (sv_sd s)) n \<noteq> Inr ''disabled''))"
proof -
  have alert: "svacts {} (bindp (liftp r) (\<lambda>alert. if alert then bindp (liftp (f alert)) (\<lambda>r. bindp (liftp (g r)) (\<lambda>m.
      bindp (liftp (h m)) (\<lambda>t. on_sv_q (k t)))) else ret ()))" for r f g h k
    by (intro acts_bindp acts_if svacts_quiet acts_basic)
  show ?thesis
  proof (cases "get_chain j [''sspl_ll_msg_header'', ''uuid'']")
    case (Inr uuid)
    note uuid = this
    show ?thesis
    proof (cases "has_section j ''actuator_request_type'' ''service_controller''")
      case (Inr b)
      with uuid have run: "sv_process_dict env j s = (if b then handle_request env j uuid
          else bindp (liftp (has_section j ''sensor_request_type'' ''service_status_alert'')) (\<lambda>alert.
            if alert then bindp (liftp (getitem j ''sensor_request_type'')) (\<lambda>r. bindp (liftp (ServiceMonitorMsg (sv_msgs env) r)) (\<lambda>m.
              bindp (liftp (sensor_getJson (sv_msgs env) m)) (\<lambda>t. on_sv_q (write_internal_msgQ ''EgressProcessor'' (PStr t) None)))) else ret ())) s"
        by (simp add: sv_process_dict_def bindp_liftp del: get_chain.simps)
      show ?thesis
      proof (cases b)
        case True
        then show ?thesis using handle_request_guard [of env j uuid s] run by simp
      next
        case False
        have "svacts {} (bindp (liftp (has_section j ''sensor_request_type'' ''service_status_alert'')) (\<lambda>alert.
            if alert then bindp (liftp (getitem j ''sensor_request_type'')) (\<lambda>r. bindp (liftp (ServiceMonitorMsg (sv_msgs env) r)) (\<lambda>m.
              bindp (liftp (sensor_getJson (sv_msgs env) m)) (\<lambda>t. on_sv_q (write_internal_msgQ ''EgressProcessor'' (PStr t) None)))) else ret ()))"
          by (intro acts_bindp acts_if svacts_quiet acts_basic)
        from actsD [OF this, of s] show ?thesis using run False by simp
      qed
    qed (use uuid in \<open>simp add: sv_process_dict_def bindp_liftp bindp_def liftp_def del: get_chain.simps\<close>)
  qed (simp add: sv_process_dict_def bindp_def liftp_def del: get_chain.simps)
qed

text \<open>
  C14. Whatever message the service handler is given and however systemd answers, systemd is asked for at most one action,
  and only for the request and the service named in the message, only when the service is monitored, and, other than to
  enable or disable it, only when it is not disabled.\<close>

theorem service_action_guarded:
  "sd_log (sv_sd (snd (sv_process_msg env m s))) = sd_log (sv_sd s) \<or>
   (\<exists>j r n. as_message (sv_loads env) m = Inr j \<and> (r, n) \<in> asks j \<and>
     sd_log (sv_sd (snd (sv_process_msg env m s))) = sd_log (sv_sd s) @ [(r, n)] \<and> n \<in> set (sv_monitored env) \<and>
     (r \<in> {''enable'', ''disable''} \<or> sd_enabled (sv_systemd env) (sd_calls (sv_sd s)) n \<noteq> Inr ''disabled''))"
proof (cases "as_message (sv_loads env) m")
  case (Inr j)
  then show ?thesis using process_dict_guard [of env j s] by (simp add: sv_process_msg_def bindp_liftp)
qed (simp add: sv_process_msg_def bindp_def liftp_def)

section \<open>An actuator that is never ready\<close>

definition stuck :: "(string \<times> string) list \<Rightarrow> sv_state \<Rightarrow> bool" where
  "stuck l s \<longleftrightarrow> asm_is_initializing (sv_table s) ''Service'' \<and> sd_log (sv_sd s) = l"

lemma keeps_stuck_basic [keeps_rules]: "keeps (stuck l) (on_sv_q m)" "keeps (stuck l) (create_actuator_response env i e)"
    "keeps (stuck l) (service_disabled env r n)"
  by (auto simp: keeps_def stuck_def on_sv_q_def create_actuator_response_def seqp_def bindp_def getp_def modp_def ret_def raise_def service_disabled_def
      on_sd_def sd_call_def split: prod.splits sum.splits pyv.splits)

lemma keeps_stuck_error [keeps_rules]: "keeps (stuck l) (send_error_response env r n m e)"
  unfolding send_error_response_def send_response_def by (intro keeps_rules)

lemma keeps_stuck_dispatch [keeps_rules]: "keeps (stuck l) (dispatch_request env m u r n)"
proof (rule keepsI)
  fix s
  assume "stuck l s"
  then have "dispatch_request env m u r n s = send_error_response env r n (PStr ''BUSY - Service actuator is initializing.'') (Some EBUSY) s"
    by (auto simp: dispatch_request_def stuck_def bindp_def getp_def asm_is_initialized_def asm_is_initializing_def)
  with keepsD [OF keeps_stuck_error \<open>stuck l s\<close>] show "stuck l (snd (dispatch_request env m u r n s))" by simp
qed

lemma keeps_stuck_process: "keeps (stuck l) (sv_process_msg env m)"
  unfolding sv_process_msg_def sv_process_dict_def handle_request_def by (auto intro!: keeps_rules)

text \<open>The messages of later runs of the handler; an exception ends a run and is logged.\<close>

definition later :: "sv_env \<Rightarrow> pyv list \<Rightarrow> sv_state \<Rightarrow> sv_state" where
  "later env ms s = fold (\<lambda>m s. snd (sv_process_msg env m s)) ms s"

text \<open>The table changes only when the actuator is looked up for the first time.\<close>

abbreviation keeps_table :: "(sv_state, 'a) proc \<Rightarrow> bool" where
  "keeps_table m \<equiv> \<forall>t. keeps (\<lambda>s. sv_table s = t) m"

lemma keeps_table_basic: "keeps (\<lambda>s. sv_table s = t) (on_sv_q m)" "keeps (\<lambda>s. sv_table s = t) (on_sd p)"
    "keeps (\<lambda>s. sv_table s = t) (create_actuator_response env i e)" "keeps (\<lambda>s. sv_table s = t) (new_actuator env)"
    "keeps (\<lambda>s. sv_table s = t) (service_disabled env r n)"
  by (auto simp: keeps_def on_sv_q_def create_actuator_response_def new_actuator_def seqp_def bindp_def getp_def modp_def ret_def raise_def liftp_def
      service_disabled_def on_sd_def split: prod.splits sum.splits pyv.splits)

lemma keeps_table_send: "keeps (\<lambda>s. sv_table s = t) (send_response env u r)" "keeps (\<lambda>s. sv_table s = t) (send_error_response env r n m e)"
  unfolding send_error_response_def send_response_def by (intro keeps_rules keeps_table_basic)+

lemma keeps_table_execute: "keeps (\<lambda>s. sv_table s = t) (execute_request env m u)"
  unfolding execute_request_def by (auto intro!: keeps_rules keeps_table_basic keeps_table_send split: prod.splits)

definition first_use :: "(sv_state, unit) proc \<Rightarrow> bool" where
  "first_use p \<longleftrightarrow> (\<forall>s e s1. asm_is_imported (sv_table s) ''Service'' \<longrightarrow> p s = (Inl e, s1) \<longrightarrow>
     sv_table s1 = sv_table s \<or> asm_is_initializing (sv_table s1) ''Service'')"

lemma first_use_same:
  assumes "keeps_table p"
  shows "first_use p"
  unfolding first_use_def
proof (intro allI impI)
  fix s e s1
  assume "p s = (Inl e, s1)"
  moreover have "sv_table (snd (p s)) = sv_table s" using assms by (simp add: keeps_def)
  ultimately show "sv_table s1 = sv_table s \<or> asm_is_initializing (sv_table s1) ''Service''" by simp
qed

lemma first_use_leaf: "first_use (ret ())" "first_use (raise e)" "first_use (on_sv_q m)" "first_use (send_error_response env r n x y)"
  by (rule first_use_same, intro allI keeps_rules keeps_table_basic keeps_table_send)+

lemma first_use_bindp:
  assumes "keeps_table m" and "\<And>x. first_use (f x)"
  shows "first_use (bindp m f)"
  unfolding first_use_def
proof (intro allI impI)
  fix s e s1
  assume s: "asm_is_imported (sv_table s) ''Service''" "bindp m f s = (Inl e, s1)"
  obtain r s0 where r: "m s = (r, s0)" by force
  have "sv_table (snd (m s)) = sv_table s" using assms(1) by (simp add: keeps_def)
  with r have t: "sv_table s0 = sv_table s" by simp
  show "sv_table s1 = sv_table s \<or> asm_is_initializing (sv_table s1) ''Service''"
  proof (cases r)
    case (Inr x)
    then show ?thesis using assms(2) [of x] s r t by (simp add: first_use_def bindp_def) metis
  qed (use s r t in \<open>simp add: bindp_def\<close>)
qed

lemma set_state_run: "set_actuator_state st s = (Inr (), s\<lparr>sv_table := AList.update ''Service'' st (sv_table s)\<rparr>)"
proof -
  have "strip ''Service'' \<noteq> []" by code_simp
  then show ?thesis by (simp add: set_actuator_state_def asm_set_state_def bindp_def getp_def liftp_def modp_def)
qed

lemma first_use_dispatch: "first_use (dispatch_request env m u r n)"
  unfolding first_use_def
proof (intro allI impI)
  fix s e s1
  assume s: "asm_is_imported (sv_table s) ''Service''" "dispatch_request env m u r n s = (Inl e, s1)"
  let ?s = "s\<lparr>sv_table := AList.update ''Service'' INITIALIZING (sv_table s)\<rparr>"
  have run: "seqp (new_actuator env) (seqp (execute_request env m u) (set_actuator_state INITIALIZED)) ?s = (Inl e, s1)"
    using s by (auto simp: dispatch_request_def asm_is_imported_def asm_is_initialized_def asm_is_initializing_def bindp_def getp_def seqp_def set_state_run
        ret_def split: if_splits prod.splits sum.splits)
  let ?T = "AList.update ''Service'' INITIALIZING (sv_table s)"
  obtain a s2 where a: "new_actuator env ?s = (a, s2)" by force
  have "sv_table (snd (new_actuator env ?s)) = ?T" using keeps_table_basic(4) [of ?T env] by (simp add: keeps_def)
  with a have t2: "sv_table s2 = ?T" by simp
  obtain b s3 where b: "execute_request env m u s2 = (b, s3)" by force
  have "sv_table (snd (execute_request env m u s2)) = ?T" using keeps_table_execute [of ?T env m u] t2 by (simp add: keeps_def)
  with b have t3: "sv_table s3 = ?T" by simp
  have "sv_table s1 = ?T" using run a b t2 t3 by (auto simp: seqp_def set_state_run split: sum.splits)
  then show "sv_table s1 = sv_table s \<or> asm_is_initializing (sv_table s1) ''Service''" by (simp add: asm_is_initializing_def asm_get_state_def)
qed

lemma first_request_fails:
  assumes "asm_is_imported (sv_table s) ''Service''" and "sv_process_msg env m s = (Inl e, s1)" and "sv_table s1 \<noteq> sv_table s"
  shows "asm_is_initializing (sv_table s1) ''Service''"
proof -
  have "first_use (sv_process_msg env m)"
    unfolding sv_process_msg_def sv_process_dict_def handle_request_def
    by (auto intro!: first_use_bindp first_use_dispatch first_use_leaf keeps_rules keeps_table_basic)
  with assms show ?thesis by (auto simp: first_use_def)
qed

text \<open>
  C39. When the first request raises an exception after the actuator has been looked up (its constructor fails, or the
  final query of the service does), the actuator stays in the state "initializing" for good: whatever messages follow, it
  is never used and systemd is never asked for anything again.\<close>

theorem service_actuator_stuck:
  assumes "asm_is_imported (sv_table s) ''Service''" and "sv_process_msg env m s = (Inl e, s1)" and "sv_table s1 \<noteq> sv_table s"
  shows "asm_is_initializing (sv_table (later env ms s1)) ''Service'' \<and> sd_log (sv_sd (later env ms s1)) = sd_log (sv_sd s1)"
proof -
  let ?l = "sd_log (sv_sd s1)"
  have "stuck ?l s1" using first_request_fails [OF assms] by (simp add: stuck_def)
  then have "stuck ?l (later env ms s1)"
  proof (induction ms arbitrary: s1 rule: rev_induct)
    case (snoc m ms)
    then show ?case using keepsD [OF keeps_stuck_process] by (simp add: later_def)
  qed (simp add: later_def)
  then show ?thesis by (simp add: stuck_def)
qed

section \<open>Every request is answered\<close>

definition sv_egress :: "sv_state \<Rightarrow> (pyv \<times> nat option) list" where
  "sv_egress s = (case map_of (msgQlist (sv_q s)) ''EgressProcessor'' of None \<Rightarrow> [] | Some ms \<Rightarrow> ms)"

definition sv_ready :: "sv_env \<Rightarrow> sv_state \<Rightarrow> bool" where
  "sv_ready env s \<longleftrightarrow> msg_env_ok (sv_msgs env) \<and> (\<forall>k. json_able (sv_ids env k)) \<and> json_able (sv_host_id env) \<and> has_queue ''EgressProcessor'' (sv_q s)"

definition response_text :: "sv_env \<Rightarrow> string \<Rightarrow> pydict \<Rightarrow> bool \<Rightarrow> pyv \<Rightarrow> string res" where
  "response_text env now service_info is_error uuid =
     bindr (ServiceControllerMsg (sv_msgs env) (actuator_response env now service_info is_error)) (\<lambda>m.
     bindr (with_uuid uuid m) (actuator_getJson (sv_msgs env)))"

lemma response_text_ok:
  assumes "sv_ready env s" and "json_able (PDict info)" and "json_able uuid"
  shows "\<exists>t. response_text env now info err uuid = Inr t"
proof -
  have ok: "msg_env_ok (sv_msgs env)" "actuator_schema (sv_msgs env) = Inr (\<lambda>_. None)" using assms(1) by (simp_all add: sv_ready_def msg_env_ok_def)
  have name: "json_able (case map_of info ''service_name'' of None \<Rightarrow> PNone | Some v \<Rightarrow> v)"
    using json_able_look [OF assms(2), of "''service_name''"] by (simp add: look_def)
  obtain m where m: "ServiceControllerMsg (sv_msgs env) (actuator_response env now info err) = Inr m"
      "\<exists>d e h r i. m = PDict d \<and> map_of d ''message'' = Some (PDict e) \<and> map_of e ''sspl_ll_msg_header'' = Some (PDict h) \<and>
         map_of e ''actuator_response_type'' = Some (PDict r) \<and> map_of r ''info'' = Some (PDict i)" "json_able m"
    using ok(2) assms(1,2) name
    by (auto simp: ServiceControllerMsg_def with_schema_def actuator_response_def Let_def get_keys_PDict actuator_envelope_def envelope_def
        sspl_ll_msg_header_def sv_ready_def look_def)
  obtain d e h r i where p: "m = PDict d" "map_of d ''message'' = Some (PDict e)" "map_of e ''sspl_ll_msg_header'' = Some (PDict h)"
      "map_of e ''actuator_response_type'' = Some (PDict r)" "map_of r ''info'' = Some (PDict i)" using m(2) by blast
  have "\<exists>m' i'. with_uuid uuid m = Inr m' \<and> json_able m' \<and> get_items m' [''message'', ''actuator_response_type'', ''info''] = Inr (PDict i')"
  proof (cases "uuid = PNone")
    case False
    have "json_able (PDict e)" using m(3) p json_able_map_of by blast
    moreover have "json_able (PDict h)" using \<open>json_able (PDict e)\<close> p(3) json_able_map_of by blast
    ultimately have "json_able (PDict (AList.update ''message'' (PDict (AList.update ''sspl_ll_msg_header'' (PDict (AList.update ''uuid'' uuid h)) e)) d))"
      using m(3) p(1) assms(3) by (intro json_able_update) simp_all
    with False p show ?thesis by (auto simp: with_uuid_def set_uuid_def simp del: json_able.simps)
  qed (use m(3) p in \<open>auto simp: with_uuid_def\<close>)
  then show ?thesis using m(1) actuator_getJson_total [OF ok(1)] by (fastforce simp: response_text_def)
qed

lemma send_response_run:
  assumes "sv_ready env s" and "json_able (PDict info)" and "json_able uuid"
  shows "\<exists>t q. response_text env now info err uuid = Inr t \<and> send_response env uuid (actuator_response env now info err) s = (Inr (), s\<lparr>sv_q := q\<rparr>) \<and>
    sv_egress (s\<lparr>sv_q := q\<rparr>) = sv_egress s @ [(PStr t, None)]"
proof -
  obtain t where t: "response_text env now info err uuid = Inr t" using response_text_ok [OF assms] by blast
  obtain ms where ms: "map_of (msgQlist (sv_q s)) ''EgressProcessor'' = Some ms" using assms(1) by (auto simp: sv_ready_def has_queue_def)
  let ?q = "(sv_q s)\<lparr>msgQlist := AList.update ''EgressProcessor'' (ms @ [(PStr t, None)]) (msgQlist (sv_q s))\<rparr>"
  have "send_response env uuid (actuator_response env now info err) s = (Inr (), s\<lparr>sv_q := ?q\<rparr>)"
    using t ms by (auto simp: send_response_def response_text_def bindr_eq_Inr bindp_liftp on_sv_q_def write_internal_msgQ_def)
  then show ?thesis using t ms by (intro exI [of _ t] exI [of _ ?q]) (simp add: sv_egress_def)
qed

definition answered :: "sv_env \<Rightarrow> sv_state \<Rightarrow> pydict \<Rightarrow> bool \<Rightarrow> pyv \<Rightarrow> unit res \<times> sv_state \<Rightarrow> bool" where
  "answered env s info err uuid out \<longleftrightarrow> (\<exists>t s'. response_text env (str_int (sv_epoch env (sv_ticks s))) info err uuid = Inr t \<and>
     out = (Inr (), s') \<and> sv_egress s' = sv_egress s @ [(PStr t, None)])"

lemma respond_run:
  assumes "sv_ready env s" and "json_able (PDict info)" and "json_able uuid"
  shows "answered env s info err uuid (bindp (create_actuator_response env info err) (send_response env uuid) s)"
proof -
  let ?s = "s\<lparr>sv_ticks := sv_ticks s + 1\<rparr>"
  have "sv_ready env ?s" using assms(1) by (simp add: sv_ready_def)
  from send_response_run [OF this assms(2,3), of "str_int (sv_epoch env (sv_ticks s))" err] obtain t q where
    "response_text env (str_int (sv_epoch env (sv_ticks s))) info err uuid = Inr t"
    "send_response env uuid (actuator_response env (str_int (sv_epoch env (sv_ticks s))) info err) ?s = (Inr (), ?s\<lparr>sv_q := q\<rparr>)"
    "sv_egress (?s\<lparr>sv_q := q\<rparr>) = sv_egress ?s @ [(PStr t, None)]" by blast
  then show ?thesis
    by (auto simp: answered_def create_actuator_response_def bindp_def getp_def seqp_def modp_def ret_def sv_egress_def)
qed

text \<open>A systemd that answers every query.\<close>

definition systemd_answers :: "sd_env \<Rightarrow> bool" where
  "systemd_answers env \<longleftrightarrow> (\<forall>k n. \<exists>st. sd_query env k n = Inr st \<and> st_command st \<noteq> []) \<and> (\<forall>k n. \<exists>t. sd_enabled env k n = Inr t)"

text \<open>The actuator turns the request down, or systemd raises while carrying it out.\<close>

definition refused :: "sd_env \<Rightarrow> pyv \<Rightarrow> pyv \<Rightarrow> sd_state \<Rightarrow> bool" where
  "refused env r name d \<longleftrightarrow> (\<forall>x. fst (do_request env r name d) \<noteq> Inr (Inr x))"

lemma json_able_change_fields:
  "change_fields fs key r = Inr r' \<Longrightarrow> json_able (PDict r) \<Longrightarrow> json_able (PDict r')"
proof (induction fs key r arbitrary: r' rule: change_fields.induct)
  case (2 f fs key r)
  consider (opens) "f = ''symlink'' \<or> f = ''unlink''" | (blank) "f = []" | (item) "f \<noteq> ''symlink''" "f \<noteq> ''unlink''" "f \<noteq> []" by blast
  then show ?case
  proof cases
    case opens
    then show ?thesis using 2(1) [OF opens] 2(4,5) json_able_update [OF 2(5), of "PList []" f] by (auto simp del: json_able.simps) (simp_all add: json_able.simps)
  next
    case item
    then obtain k xs where k: "key = Some k" "map_of r k = Some (PList xs)" "change_fields fs key (AList.update k (PList (xs @ [PStr f])) r) = Inr r'"
      using 2(4) by (auto split: option.splits pyv.splits)
    have "json_able (PList xs)" by (rule json_able_map_of [OF 2(5) k(2)])
    then have "json_able (PList (xs @ [PStr f]))" by auto
    from json_able_update [OF 2(5) this] show ?thesis using 2(2) [OF _ _ k(1,2) refl k(3)] item by simp
  next
    case blank
    then show ?thesis using 2(3-5) by simp
  qed
qed simp

lemma json_able_do_request:
  assumes "do_request env r name d = (Inr (Inr x), d')"
  shows "json_able (PDict x)"
proof -
  have "json_able (PDict y)" if "change_unit_files env a n d1 = (Inr y, d2)" for a n d1 y d2
  proof -
    have "\<exists>c. change_fields c None [] = Inr y \<or> y = []"
      using that by (auto simp: change_unit_files_def seqp_def modp_def bindp_def liftp_def parse_enable_disable_dbus_result_def
          split: prod.splits sum.splits list.splits)
    then show ?thesis using json_able_change_fields [of _ None "[]" y] by auto
  qed
  with assms show ?thesis
    by (auto simp: do_request_def seqp_def bindp_def ret_def raise_def split: pyv.splits if_splits prod.splits sum.splits option.splits)
qed

lemma json_able_updates: "json_able (PDict r) \<Longrightarrow> json_able (PDict xs) \<Longrightarrow> json_able (PDict (fold (\<lambda>(k, v). AList.update k v) xs r))"
proof (induction xs arbitrary: r)
  case (Cons x xs)
  have "json_able (PDict (AList.update (fst x) (snd x) r))" using Cons.prems by (intro json_able_update) simp_all
  moreover have "json_able (PDict xs)" using Cons.prems(2) by simp
  ultimately show ?case using Cons.IH by (cases x) simp
qed simp

lemma final_status_run:
  assumes "systemd_answers env" and "json_able (PDict r)"
  shows "\<exists>res d'. final_status env n r d = (Inr res, d') \<and> json_able (PDict res) \<and> map_of res ''service_name'' = map_of r ''service_name''"
proof -
  let ?d = "d\<lparr>sd_slept := sd_slept d + 5\<rparr>"
  obtain st where st: "sd_query env (sd_calls d) n = Inr st" "st_command st \<noteq> []" using assms(1) unfolding systemd_answers_def by blast
  obtain e where e: "sd_enabled env (sd_calls d + 1) n = Inr e" using assms(1) unfolding systemd_answers_def by blast
  obtain up d2 where up: "get_service_uptime env n (?d\<lparr>sd_calls := sd_calls d + 2\<rparr>) = (Inr up, d2)"
    by (cases "sd_systemctl env (Suc (Suc (sd_calls d))) n") (auto simp: get_service_uptime_def bindp_def sd_call_def ret_def)
  let ?xs = "[(''pid'', PInt (st_pid st)), (''state'', PStr (st_state st)), (''substate'', PStr (st_substate st)),
          (''status'', PStr e), (''uptime'', PStr up), (''command_line_path'', PList (map PStr (snd (hd (st_command st)))))]"
  have "json_able (PDict (fold (\<lambda>(k, v). AList.update k v) ?xs r))" using assms(2) by (intro json_able_updates) auto
  moreover have "final_status env n r d = (Inr (fold (\<lambda>(k, v). AList.update k v) ?xs r), d2)"
    using st e up by (cases "st_command st")
      (simp_all add: final_status_def seqp_def sd_sleep_def modp_def bindp_def get_state_def sd_call_def liftp_def ret_def)
  ultimately show ?thesis by (intro exI) (auto simp: map_of_update)
qed

lemma change_fields_keys:
  "change_fields fs key r = Inr r' \<Longrightarrow> k \<noteq> ''symlink'' \<Longrightarrow> k \<noteq> ''unlink'' \<Longrightarrow> key \<noteq> Some k \<Longrightarrow> map_of r' k = map_of r k"
  by (induction fs key r arbitrary: r' rule: change_fields.induct) (auto simp: map_of_update split: if_splits option.splits pyv.splits)

lemma do_request_keys:
  assumes "do_request env r name d = (Inr (Inr x), d')"
  shows "map_of x ''service_name'' = None"
proof -
  have "map_of y ''service_name'' = None" if "change_unit_files env a n d1 = (Inr y, d2)" for a n d1 y d2
  proof -
    have "\<exists>c. change_fields c None [] = Inr y \<or> y = []"
      using that by (auto simp: change_unit_files_def seqp_def modp_def bindp_def liftp_def parse_enable_disable_dbus_result_def
          split: prod.splits sum.splits list.splits)
    then show ?thesis using change_fields_keys [of _ None "[]" y "''service_name''"] by auto
  qed
  with assms show ?thesis
    by (auto simp: do_request_def seqp_def bindp_def ret_def raise_def split: pyv.splits if_splits prod.splits sum.splits option.splits)
qed

lemma fold_update_other: "map_of xs k = None \<Longrightarrow> map_of (fold (\<lambda>(k, v). AList.update k v) xs r) k = map_of r k"
  by (induction xs arbitrary: r) (auto simp: map_of_update split: if_splits)

lemma perform_run:
  assumes "systemd_answers env" and "request_section j = Inr c" and "get_key c ''service_name'' = Inr (PStr n)" and "get_key c ''service_request'' = Inr r"
    and "check_debug loads j (sd_dbg d) = (Inr x, g)"
  shows "\<exists>res d'. perform_request env loads j d = (Inr (PStr n, res, refused env r (PStr n) (d\<lparr>sd_dbg := g\<rparr>)), d') \<and>
    (if refused env r (PStr n) (d\<lparr>sd_dbg := g\<rparr>) then \<exists>t. res = PStr t
     else \<exists>y. res = PDict y \<and> json_able res \<and> map_of y ''service_name'' = None)"
proof -
  let ?d = "d\<lparr>sd_dbg := g\<rparr>"
  obtain o1 d1 where o1: "do_request env r (PStr n) ?d = (o1, d1)" by force
  have run: "perform_request env loads j d = bindp (tryp (do_request env r (PStr n)) (\<lambda>e. ret (Inl (sd_exn_text env e)))) (\<lambda>r.
        case r of Inl t \<Rightarrow> ret (PStr n, PStr t, True)
        | Inr result \<Rightarrow> bindp (final_status env n result) (\<lambda>result. ret (PStr n, PDict result, False))) ?d"
    using assms(2-5) by (simp add: perform_request_def seqp_def bindp_liftp)
  show ?thesis
  proof (cases "refused env r (PStr n) ?d")
    case True
    then show ?thesis
      using run o1 by (cases o1) (auto simp: refused_def bindp_def tryp_def ret_def split: sum.splits)
  next
    case False
    then obtain y where y: "o1 = Inr (Inr y)" using o1 by (auto simp: refused_def)
    have "json_able (PDict y)" "map_of y ''service_name'' = None" using json_able_do_request do_request_keys o1 y by blast+
    with final_status_run [OF assms(1), of y n d1] obtain res d' where
      "final_status env n y d1 = (Inr res, d')" "json_able (PDict res)" "map_of res ''service_name'' = None" by auto
    then show ?thesis using run o1 y False by (simp add: bindp_def tryp_def ret_def del: json_able.simps)
  qed
qed

text \<open>A well-formed request.\<close>

definition service_request :: "pydict \<Rightarrow> pyv \<Rightarrow> pyv \<Rightarrow> pyv \<Rightarrow> bool" where
  "service_request d name r uuid \<longleftrightarrow> map_of d ''sspl_ll_debug'' = None \<and> get_chain (PDict d) [''sspl_ll_msg_header'', ''uuid''] = Inr uuid \<and>
     json_able name \<and> json_able r \<and> json_able uuid \<and>
     (\<exists>a c. map_of d ''actuator_request_type'' = Some (PDict a) \<and> map_of a ''service_controller'' = Some (PDict c) \<and>
        map_of c ''service_name'' = Some name \<and> map_of c ''service_request'' = Some r)"

text \<open>The state of the actuator when the request reaches it.\<close>

definition asked :: "pyv \<Rightarrow> sv_state \<Rightarrow> sd_state" where
  "asked r s = (let d = (if r \<in> {PStr ''enable'', PStr ''disable''} then sv_sd s else (sv_sd s)\<lparr>sd_calls := sd_calls (sv_sd s) + 1\<rparr>)
     in d\<lparr>sd_dbg := (if debug_persist (sd_dbg d) then sd_dbg d else set_debug False (sd_dbg d))\<rparr>)"

definition carried_out :: "sv_env \<Rightarrow> pyv \<Rightarrow> pyv \<Rightarrow> sv_state \<Rightarrow> bool" where
  "carried_out env name r s \<longleftrightarrow> (\<exists>n \<in> set (sv_monitored env). name = PStr n \<and>
     (r \<in> {PStr ''enable'', PStr ''disable''} \<or> sd_enabled (sv_systemd env) (sd_calls (sv_sd s)) n \<noteq> Inr ''disabled'') \<and>
     \<not> refused (sv_systemd env) r name (asked r s))"

lemma service_request_reads:
  assumes "service_request d name r uuid"
  shows "get_path (PDict d) (section_path @ [''service_name'']) = Inr name" "get_path (PDict d) (section_path @ [''service_request'']) = Inr r"
    "has_section (PDict d) ''actuator_request_type'' ''service_controller'' = Inr True"
proof -
  obtain a c where ac: "map_of d ''actuator_request_type'' = Some (PDict a)" "map_of a ''service_controller'' = Some (PDict c)"
      "map_of c ''service_name'' = Some name" "map_of c ''service_request'' = Some r" using assms by (auto simp: service_request_def)
  then show "get_path (PDict d) (section_path @ [''service_name'']) = Inr name" "get_path (PDict d) (section_path @ [''service_request'']) = Inr r"
    by (simp_all add: section_path_def)
  have "list_ex (\<lambda>(k, _). PStr ''actuator_request_type'' = PStr k) d" "list_ex (\<lambda>(k, _). PStr ''service_controller'' = PStr k) a"
    using ac(1,2) by (auto simp: list_ex_iff dest: map_of_SomeD)
  with ac(1,2) show "has_section (PDict d) ''actuator_request_type'' ''service_controller'' = Inr True" by (simp add: has_section_def)
qed

lemma answered_same:
  assumes "sv_ticks s' = sv_ticks s" and "sv_q s' = sv_q s"
  shows "answered env s' info err uuid out \<longleftrightarrow> answered env s info err uuid out"
  using assms by (simp add: answered_def sv_egress_def)

lemma plain_debug: "map_of d ''sspl_ll_debug'' = None \<Longrightarrow>
    check_debug loads (PDict d) g = (Inr (False, PDict d), if debug_persist g then g else set_debug False g)"
  by (simp add: check_debug_def bindp_def liftp_def ret_def seqp_def modp_def)

lemma execute_run:
  assumes "sv_ready env s" and "systemd_answers (sv_systemd env)" and rq: "service_request d (PStr n) r uuid"
  shows "\<exists>info. answered env s info (refused (sv_systemd env) r (PStr n) ((sv_sd s)\<lparr>sd_dbg := (if debug_persist (sd_dbg (sv_sd s)) then sd_dbg (sv_sd s) else set_debug False (sd_dbg (sv_sd s)))\<rparr>))
      (if refused (sv_systemd env) r (PStr n) ((sv_sd s)\<lparr>sd_dbg := (if debug_persist (sd_dbg (sv_sd s)) then sd_dbg (sv_sd s) else set_debug False (sd_dbg (sv_sd s)))\<rparr>) then PNone else uuid)
      (execute_request env (PDict d) uuid s) \<and> map_of info ''service_name'' = Some (PStr n)"
proof -
  let ?g = "if debug_persist (sd_dbg (sv_sd s)) then sd_dbg (sv_sd s) else set_debug False (sd_dbg (sv_sd s))"
  let ?ref = "refused (sv_systemd env) r (PStr n) ((sv_sd s)\<lparr>sd_dbg := ?g\<rparr>)"
  have dbg: "map_of d ''sspl_ll_debug'' = None" "json_able r" "json_able uuid" using rq by (simp_all add: service_request_def)
  obtain c where c: "request_section (PDict d) = Inr c" "get_key c ''service_name'' = Inr (PStr n)" "get_key c ''service_request'' = Inr r"
    using actuator_reads_same service_request_reads [OF rq] by blast
  obtain res d' where p: "perform_request (sv_systemd env) (sv_loads env) (PDict d) (sv_sd s) = (Inr (PStr n, res, ?ref), d')"
      "if ?ref then \<exists>t. res = PStr t else \<exists>y. res = PDict y \<and> json_able res \<and> map_of y ''service_name'' = None"
    using perform_run [OF assms(2) c plain_debug [OF dbg(1)], of "sv_loads env"] by blast
  let ?s = "s\<lparr>sv_sd := d'\<rparr>"
  have ready: "sv_ready env ?s" using assms(1) by (simp add: sv_ready_def)
  have run: "execute_request env (PDict d) uuid s = (if ?ref then send_error_response env r (PStr n) res None
       else bindp (liftp (case res of PDict d \<Rightarrow> Inr d | _ \<Rightarrow> Inl TypeError)) (\<lambda>d.
         bindp (create_actuator_response env (fold (\<lambda>(k, v). AList.update k v) d [(''service_name'', PStr n)]) False) (send_response env uuid))) ?s"
    using p(1) service_request_reads(2) [OF rq] by (simp add: execute_request_def bindp_liftp bindp_def on_sd_def)
  show ?thesis
  proof (cases ?ref)
    case True
    let ?info = "error_info r (PStr n) res None"
    have "json_able (PDict ?info)" using p(2) True dbg(2) by (auto simp: error_info_def)
    from respond_run [OF ready this, of PNone True] run True show ?thesis
      by (intro exI [of _ ?info]) (simp add: send_error_response_def answered_same [of ?s s] error_info_def)
  next
    case False
    then obtain y where y: "res = PDict y" "json_able (PDict y)" "map_of y ''service_name'' = None" using p(2) by auto
    let ?info = "fold (\<lambda>(k, v). AList.update k v) y [(''service_name'', PStr n)]"
    have "json_able (PDict ?info)" using y(2) by (intro json_able_updates) simp_all
    from respond_run [OF ready this dbg(3), of False] run False y(1,3) show ?thesis
      by (intro exI [of _ ?info]) (simp add: bindp_liftp answered_same [of ?s s] fold_update_other)
  qed
qed

lemma error_run:
  assumes "sv_ready env s" and "json_able r" and "json_able name"
  shows "\<exists>info. answered env s info True PNone (send_error_response env r name (PStr t) e s) \<and> map_of info ''service_name'' = Some name"
proof -
  let ?info = "error_info r name (PStr t) e"
  have "json_able (PDict ?info)" using assms(2,3) by (auto simp: error_info_def split: option.splits)
  from respond_run [OF assms(1) this, of PNone True] show ?thesis
    by (intro exI [of _ ?info]) (simp add: send_error_response_def error_info_def)
qed

lemma service_request_answered_run:
  assumes "sv_ready env s" and "systemd_answers (sv_systemd env)" and "service_request d name r uuid"
    and "asm_is_initialized (sv_table s) ''Service''" and "sv_actuator s"
  shows "\<exists>info. answered env s info (\<not> carried_out env name r s) (if carried_out env name r s then uuid else PNone) (sv_process_msg env (PDict d) s) \<and>
    map_of info ''service_name'' = Some name"
proof -
  have j: "json_able name" "json_able r" using assms(3) by (simp_all add: service_request_def)
  note reads = service_request_reads [OF assms(3)]
  have "get_chain (PDict d) [''sspl_ll_msg_header'', ''uuid''] = Inr uuid" using assms(3) by (simp add: service_request_def)
  then have run: "sv_process_msg env (PDict d) s = handle_request env (PDict d) uuid s"
    using reads(3) by (simp add: sv_process_msg_def sv_process_dict_def bindp_liftp del: get_chain.simps)
  show ?thesis
  proof (cases "\<exists>n \<in> set (sv_monitored env). name = PStr n")
    case False
    then have "py_in name (PList (map PStr (sv_monitored env))) = Inr False" using in_monitored [of name "sv_monitored env"] by auto
    then have "sv_process_msg env (PDict d) s = send_error_response env r name
        (PStr (''Check if supplied service name is valid, '' @ py_str name @ '' is not monitored or managed.'')) (Some EINVAL) s"
      using run reads(1,2) by (simp add: handle_request_def bindp_liftp del: py_in.simps)
    moreover have "\<not> carried_out env name r s" using False by (auto simp: carried_out_def)
    ultimately show ?thesis using error_run [OF assms(1) j(2,1)] by auto
  next
    case True
    then obtain n where n: "name = PStr n" "n \<in> set (sv_monitored env)" by blast
    have mon: "py_in name (PList (map PStr (sv_monitored env))) = Inr True" using True in_monitored by blast
    obtain en where en: "sd_enabled (sv_systemd env) (sd_calls (sv_sd s)) n = Inr en" using assms(2) unfolding systemd_answers_def by blast
    let ?free = "r \<in> {PStr ''enable'', PStr ''disable''}"
    define s1 where "s1 = (if ?free then s else s\<lparr>sv_sd := (sv_sd s)\<lparr>sd_calls := sd_calls (sv_sd s) + 1\<rparr>\<rparr>)"
    have s1: "sv_ready env s1" "sv_ticks s1 = sv_ticks s" "sv_q s1 = sv_q s" "sv_table s1 = sv_table s" "sv_actuator s1"
      using assms(1,5) by (simp_all add: s1_def sv_ready_def)
    have sd1: "asked r s = (sv_sd s1)\<lparr>sd_dbg := (if debug_persist (sd_dbg (sv_sd s1)) then sd_dbg (sv_sd s1) else set_debug False (sd_dbg (sv_sd s1)))\<rparr>"
      by (simp add: asked_def s1_def Let_def)
    have handle: "handle_request env (PDict d) uuid s = (if \<not> ?free \<and> en = ''disabled'' then
         send_error_response env r name (PStr (py_str name @ '' is disabled, enable request needed before current - '' @ py_str r @
                '' request can be processed.'')) (Some EPERM) s1 else dispatch_request env (PDict d) uuid r name s1)"
    proof -
      have "handle_request env (PDict d) uuid s = bindp (service_disabled env r name) (\<lambda>disabled. if disabled then
           send_error_response env r name (PStr (py_str name @ '' is disabled, enable request needed before current - '' @ py_str r @
                '' request can be processed.'')) (Some EPERM) else dispatch_request env (PDict d) uuid r name) s"
        using reads(1,2) mon by (simp add: handle_request_def bindp_liftp del: py_in.simps)
      then show ?thesis using en n(1) by (auto simp: service_disabled_def bindp_def ret_def on_sd_def sd_call_def s1_def)
    qed
    have disp: "dispatch_request env (PDict d) uuid r name s1 = execute_request env (PDict d) uuid s1"
      using assms(4) s1(4,5) by (simp add: dispatch_request_def bindp_def getp_def)
    show ?thesis
    proof (cases "\<not> ?free \<and> en = ''disabled''")
      case True
      then have "\<not> carried_out env name r s" using n en by (auto simp: carried_out_def)
      moreover have "\<exists>info t. answered env s1 info True PNone (sv_process_msg env (PDict d) s) \<and> map_of info ''service_name'' = Some name"
        using run handle True error_run [OF s1(1) j(2,1)] by simp
      ultimately show ?thesis using answered_same [OF s1(2,3)] by auto
    next
      case False
      have iff: "carried_out env name r s \<longleftrightarrow> \<not> refused (sv_systemd env) r (PStr n) (asked r s)" using n en False by (auto simp: carried_out_def)
      have pm: "sv_process_msg env (PDict d) s = execute_request env (PDict d) uuid s1" unfolding run handle if_not_P [OF False] by (rule disp)
      have "\<exists>info. answered env s1 info (refused (sv_systemd env) r (PStr n) (asked r s)) (if refused (sv_systemd env) r (PStr n) (asked r s) then PNone else uuid)
          (execute_request env (PDict d) uuid s1) \<and> map_of info ''service_name'' = Some (PStr n)"
        unfolding sd1 by (rule execute_run [OF s1(1) assms(2)]) (use assms(3) n(1) in simp)
      then show ?thesis unfolding pm n(1) [symmetric] iff answered_same [OF s1(2,3)] by (cases "refused (sv_systemd env) r (PStr n) (asked r s)") (simp_all add: n(1))
    qed
  qed
qed

text \<open>
  With the actuator ready and a systemd that answers, every well-formed service request is answered by exactly one
  message to the egress processor that names the service: an error unless the service is monitored, not disabled and the
  actuator carries the request out. The uuid of the request is in the answer only when it was carried out.\<close>

lemma service_request_answered:
  assumes "sv_ready env s" and "systemd_answers (sv_systemd env)" and "service_request d name r uuid"
    and "asm_is_initialized (sv_table s) ''Service''" and "sv_actuator s"
  shows "\<exists>info. answered env s info (\<not> carried_out env name r s) (if carried_out env name r s then uuid else PNone) (sv_process_msg env (PDict d) s) \<and>
    map_of info ''service_name'' = Some name"
  by (rule service_request_answered_run [OF assms])

section \<open>The loop\<close>

lemma keeps_own_basic: "keeps (\<lambda>s. map_of (msgQlist (sv_q s)) ''ServiceMsgHandler'' = x) (on_sd p)"
    "keeps (\<lambda>s. map_of (msgQlist (sv_q s)) ''ServiceMsgHandler'' = x) (create_actuator_response env i e)"
    "keeps (\<lambda>s. map_of (msgQlist (sv_q s)) ''ServiceMsgHandler'' = x) (new_actuator env)"
    "keeps (\<lambda>s. map_of (msgQlist (sv_q s)) ''ServiceMsgHandler'' = x) (set_actuator_state st)"
    "keeps (\<lambda>s. map_of (msgQlist (sv_q s)) ''ServiceMsgHandler'' = x) (service_disabled env r n)"
    "keeps (\<lambda>s. map_of (msgQlist (sv_q s)) ''ServiceMsgHandler'' = x) (on_sv_q (write_internal_msgQ ''EgressProcessor'' t None))"
  by (auto simp: keeps_def on_sv_q_def create_actuator_response_def new_actuator_def set_state_run seqp_def bindp_def getp_def modp_def ret_def raise_def
      liftp_def service_disabled_def on_sd_def write_internal_msgQ_def split: prod.splits sum.splits pyv.splits option.splits)

lemma keeps_own_send: "keeps (\<lambda>s. map_of (msgQlist (sv_q s)) ''ServiceMsgHandler'' = x) (send_response env u r)"
    "keeps (\<lambda>s. map_of (msgQlist (sv_q s)) ''ServiceMsgHandler'' = x) (send_error_response env q n m e)"
  unfolding send_error_response_def send_response_def by (intro keeps_rules keeps_own_basic)+

lemma keeps_own_dispatch: "keeps (\<lambda>s. map_of (msgQlist (sv_q s)) ''ServiceMsgHandler'' = x) (dispatch_request env m u r n)"
  unfolding dispatch_request_def execute_request_def
  by (auto intro!: keeps_rules keeps_own_basic keeps_own_send split: prod.splits)

lemma keeps_own_process: "keeps (\<lambda>s. map_of (msgQlist (sv_q s)) ''ServiceMsgHandler'' = x) (sv_process_msg env m)"
  unfolding sv_process_msg_def sv_process_dict_def handle_request_def
  by (auto intro!: keeps_rules keeps_own_basic keeps_own_send keeps_own_dispatch)

interpretation sv_loop: queue_handler "sv_loads env" "''ServiceMsgHandler''" sv_q "\<lambda>q s. s\<lparr>sv_q := q\<rparr>" "sv_process_msg env" for env
  by unfold_locales (use keepsD [OF keeps_own_process] in auto)

text \<open>A run of the handler ends after at most as many turns as messages wait, and is scheduled again.\<close>

lemma service_run_ends:
  assumes "map_of (msgQlist (sv_q s)) ''ServiceMsgHandler'' = Some ms" and "ms \<noteq> []" and "\<forall>m \<in> set ms. plain_entry (sv_loads env) (fst m)"
  shows "\<exists>s'. sv_run (length ms) env s = Some (Inr (), s') \<and> last (sv_schedule s') = 1"
  using sv_loop.loop_ends [OF assms] by (auto simp: sv_run_def)

section \<open>A concrete handler\<close>

definition demo_sd :: sd_env where
  "demo_sd = \<lparr>sd_load = (\<lambda>_ _. Inr ()), sd_query = (\<lambda>_ _. Inr \<lparr>st_state = ''active'', st_substate = ''running'', st_pid = 7, st_command = [(''a'', [''a'', ''-d''])]\<rparr>),
     sd_action = (\<lambda>_ _ _. Inr ()), sd_unit_files = (\<lambda>_ _ _. Inr []), sd_enabled = (\<lambda>_ _. Inr ''enabled''), sd_systemctl = (\<lambda>_ _. ([], 1)),
     sd_exn_text = (\<lambda>_. ''error'')\<rparr>"

definition demo_sv_env :: sv_env where
  "demo_sv_env = \<lparr>sv_msgs = demo_msg_env, sv_loads = (\<lambda>_. Inl ValueError), sv_systemd = demo_sd, sv_class = True, sv_new = Inr (), sv_monitored = [''a.service''],
     sv_ids = (\<lambda>k. PStr k), sv_host_id = PStr ''node1'', sv_epoch = (\<lambda>n. 7 + int n)\<rparr>"

definition demo_sv :: "act_state \<Rightarrow> sv_state" where
  "demo_sv st = \<lparr>sv_q = \<lparr>msgQlist = [(''ServiceMsgHandler'', []), (''EgressProcessor'', [])], msgq_dbg = init_debug\<rparr>, sv_suspended = False, sv_schedule = [],
     sv_table = [(''Service'', st)], sv_actuator = (st = INITIALIZED), sv_sd = \<lparr>sd_calls = 0, sd_log = [], sd_slept = 0, sd_dbg = init_debug\<rparr>, sv_ticks = 0\<rparr>"

definition demo_service_request :: "string \<Rightarrow> pydict" where
  "demo_service_request r = [(''actuator_request_type'', PDict [(''service_controller'', PDict [(''service_name'', PStr ''a.service''), (''service_request'', PStr r)])])]"

lemma demo_service_request_ok: "service_request (demo_service_request r) (PStr ''a.service'') (PStr r) PNone"
  by (simp add: service_request_def demo_service_request_def)

lemma demo_sv_ready: "sv_ready demo_sv_env (demo_sv st)" "systemd_answers (sv_systemd demo_sv_env)"
  by (simp_all add: sv_ready_def demo_sv_env_def demo_sv_def demo_msg_env_ok has_queue_def systemd_answers_def demo_sd_def)

text \<open>A disabled service is not stopped: systemd is asked for nothing, although the actuator is ready and the service monitored.\<close>

theorem service_action_guarded_witness:
  "sd_log (sv_sd (snd (sv_process_msg (demo_sv_env\<lparr>sv_systemd := demo_sd\<lparr>sd_enabled := (\<lambda>_ _. Inr ''disabled'')\<rparr>\<rparr>)
     (PDict (demo_service_request ''stop'')) (demo_sv INITIALIZED)))) = []"
  using service_action_guarded [of "demo_sv_env\<lparr>sv_systemd := demo_sd\<lparr>sd_enabled := (\<lambda>_ _. Inr ''disabled'')\<rparr>\<rparr>"
      "PDict (demo_service_request ''stop'')" "demo_sv INITIALIZED"]
  by (auto simp: asks_def demo_service_request_def demo_sv_def section_path_def)

lemma service_request_answered_witness:
  "\<exists>info. answered demo_sv_env (demo_sv INITIALIZED) info False PNone (sv_process_msg demo_sv_env (PDict (demo_service_request ''stop'')) (demo_sv INITIALIZED)) \<and>
     map_of info ''service_name'' = Some (PStr ''a.service'')"
proof -
  have "carried_out demo_sv_env (PStr ''a.service'') (PStr ''stop'') (demo_sv INITIALIZED)"
    by (simp add: carried_out_def demo_sv_env_def demo_sd_def demo_sv_def asked_def refused_def do_request_def seqp_def sd_call_def service_action_def modp_def ret_def)
  moreover have "asm_is_initialized (sv_table (demo_sv INITIALIZED)) ''Service''" "sv_actuator (demo_sv INITIALIZED)"
    by (simp_all add: demo_sv_def asm_is_initialized_def asm_get_state_def)
  ultimately show ?thesis using service_request_answered [OF demo_sv_ready demo_service_request_ok, of INITIALIZED "''stop''"] by simp
qed

theorem service_actuator_stuck_witness:
  "\<exists>s1. sv_process_msg (demo_sv_env\<lparr>sv_new := Inl DBusException\<rparr>) (PDict (demo_service_request ''stop'')) (demo_sv IMPORTED) = (Inl DBusException, s1) \<and>
     asm_is_initializing (sv_table (later (demo_sv_env\<lparr>sv_new := Inl DBusException\<rparr>) [PDict (demo_service_request ''stop'')] s1)) ''Service''"
proof -
  let ?env = "demo_sv_env\<lparr>sv_new := Inl DBusException\<rparr>" and ?m = "PDict (demo_service_request ''stop'')" and ?s = "demo_sv IMPORTED"
  note reads = service_request_reads [OF demo_service_request_ok, of "''stop''"]
  have imp: "asm_is_imported (sv_table ?s) ''Service''" by (simp add: demo_sv_def asm_is_imported_def asm_get_state_def)
  have chain: "get_chain ?m [''sspl_ll_msg_header'', ''uuid''] = Inr PNone" by (simp add: demo_service_request_def)
  have mon: "py_in (PStr ''a.service'') (PList (map PStr (sv_monitored ?env))) = Inr True" by (simp add: demo_sv_env_def)
  have "\<exists>s1. sv_process_msg ?env ?m ?s = (Inl DBusException, s1) \<and> sv_table s1 = [(''Service'', INITIALIZING)]"
    using reads chain mon
    by (simp add: sv_process_msg_def sv_process_dict_def bindp_liftp handle_request_def del: get_chain.simps py_in.simps)
      (simp add: demo_sv_env_def demo_sd_def demo_sv_def service_disabled_def bindp_def on_sd_def sd_call_def ret_def dispatch_request_def getp_def
        asm_is_initialized_def asm_is_initializing_def asm_is_imported_def asm_get_state_def seqp_def set_state_run new_actuator_def liftp_def)
  then obtain s1 where s1: "sv_process_msg ?env ?m ?s = (Inl DBusException, s1)" "sv_table s1 = [(''Service'', INITIALIZING)]" by blast
  have "sv_table s1 \<noteq> sv_table ?s" using s1(2) by (simp add: demo_sv_def)
  from service_actuator_stuck [OF imp s1(1) this, of "[?m]"] s1(1) show ?thesis by auto
qed

end
