(* ===== verification/Ingress.thy ===== *)
theory Ingress
  imports Service_Handler
begin

text \<open>
  \<^verbatim>\<open>framework/messaging/ingress_processor.py\<close>: the thread that takes requests from the message bus, checks them and puts
  them into the queue of the handler they are for. The consumer of the bus, the two JSON schemas and the signature library
  are parameters. \<open>ig_acked\<close> records the messages acknowledged to the bus.
\<close>

section \<open>State\<close>

record ig_env =
  ig_msgs :: msg_env
  ig_loads :: "string \<Rightarrow> pyv res"
  ig_receive :: "nat \<Rightarrow> pyv res"
  ig_create :: "nat \<Rightarrow> bool"
  ig_ack :: "nat \<Rightarrow> unit res"
  ig_actuator_schema :: "pyv \<Rightarrow> py_exn option"
  ig_sensor_schema :: "pyv \<Rightarrow> py_exn option"
  ig_secure :: bool
  ig_verify :: "int \<Rightarrow> string \<Rightarrow> pyv \<Rightarrow> pyv \<Rightarrow> int res"
  ig_node_id :: pyv
  ig_running :: bool

record ig_state =
  ig_q :: "nat msgq"
  ig_consumer :: bool
  ig_calls :: nat
  ig_uuid :: pyv
  ig_schedule :: "int list"
  ig_acked :: "pyv list"

definition ig_write :: "string \<Rightarrow> pyv \<Rightarrow> (ig_state, unit) proc" where
  "ig_write n m s = (case write_internal_msgQ n m None (ig_q s) of (r, q) \<Rightarrow> (r, s\<lparr>ig_q := q\<rparr>))"

definition send_ack :: "ig_env \<Rightarrow> string \<Rightarrow> string \<Rightarrow> pyv \<Rightarrow> (ig_state, unit) proc" where
  "send_ack env ack_type ack_msg uuid =
     bindp (liftp (bindr (AckResponseMsg (ig_msgs env) (PStr ack_type) (PStr ack_msg) uuid 0) (actuator_getJson (ig_msgs env)))) (\<lambda>t.
       ig_write ''EgressProcessor'' (PStr t))"

section \<open>Routing\<close>

text \<open>The keys in the order in which the code tests them.\<close>

definition ROUTES :: "(string \<times> string) list" where
  "ROUTES = [(''thread_controller'', ''ThreadController''), (''service_controller'', ''ServiceMsgHandler''),
     (''node_controller'', ''NodeControllerMsgHandler''), (''storage_enclosure'', ''RealStorActuatorMsgHandler''),
     (''node_data'', ''NodeDataMsgHandler''), (''enclosure_alert'', ''RealStorEnclMsgHandler''),
     (''storage_enclosure'', ''RealStorActuatorMsgHandler'')]"

primrec first_route :: "pyv \<Rightarrow> (string \<times> string) list \<Rightarrow> string option res" where
  "first_route msgType [] = Inr None"
| "first_route msgType (r # rs) = bindr (get_key msgType (fst r)) (\<lambda>v. if v \<noteq> PNone then Inr (Some (snd r)) else first_route msgType rs)"

definition send_to_msg_handler :: "ig_env \<Rightarrow> pyv \<Rightarrow> pyv \<Rightarrow> pyv \<Rightarrow> (ig_state, unit) proc" where
  "send_to_msg_handler env msgType message uuid =
     bindp (liftp (first_route msgType ROUTES)) (\<lambda>r. case r of
       Some q \<Rightarrow> ig_write q message
     | None \<Rightarrow> send_ack env ''Error Processing Message'' ''Message Handler Not Found'' uuid)"

text \<open>\<^verbatim>\<open>len(v)\<close>.\<close>

fun py_len :: "pyv \<Rightarrow> int res" where
  "py_len (PStr t) = Inr (int (length t))"
| "py_len (PBytes t) = Inr (int (length t))"
| "py_len (PList xs) = Inr (int (length xs))"
| "py_len (PDict d) = Inr (int (length d))"
| "py_len _ = Inl TypeError"

definition check_schema :: "(pyv \<Rightarrow> py_exn option) \<Rightarrow> pyv \<Rightarrow> unit res" where
  "check_schema schema m = (case schema m of None \<Rightarrow> Inr () | Some e \<Rightarrow> Inl e)"

definition authentic :: "ig_env \<Rightarrow> pyv \<Rightarrow> pyv \<Rightarrow> bool res" where
  "authentic env ingressMsg message = bindr (get_key ingressMsg ''username'') (\<lambda>username. bindr (get_key ingressMsg ''signature'') (\<lambda>signature.
     bindr (py_len message) (\<lambda>n. if ig_secure env then bindr (ig_verify env (n + 1) (py_str message) username signature) (\<lambda>r. Inr (r = 0)) else Inr True)))"

text \<open>
  The body of the \<^verbatim>\<open>try\<close>. The local variable \<^verbatim>\<open>uuid\<close> is kept in the state, because the handler of exceptions reads
  it: \<^verbatim>\<open>None\<close> at first, then what the message says, then \<^verbatim>\<open>"N/A"\<close> in place of \<^verbatim>\<open>None\<close>.
\<close>

definition ig_dispatch :: "ig_env \<Rightarrow> pyv \<Rightarrow> pyv \<Rightarrow> pyv \<Rightarrow> (ig_state, unit) proc" where
  "ig_dispatch env ingressMsg message uuid =
     bindp (liftp (get_key message ''actuator_request_type'')) (\<lambda>msgType.
     if msgType \<noteq> PNone then
       bindp (liftp (check_schema (ig_actuator_schema env) ingressMsg)) (\<lambda>_.
       bindp (liftp (get_key message ''target_node_id'')) (\<lambda>target_node_id.
       if target_node_id = PNone then ret ()
       else if py_eq target_node_id (ig_node_id env) then send_to_msg_handler env msgType message uuid
       else ret ()))
     else bindp (liftp (get_key message ''sensor_request_type'')) (\<lambda>msgType.
       if msgType \<noteq> PNone then
         bindp (liftp (check_schema (ig_sensor_schema env) ingressMsg)) (\<lambda>_. send_to_msg_handler env msgType message uuid)
       else ret ()))"

definition ig_try :: "ig_env \<Rightarrow> pyv \<Rightarrow> (ig_state, unit) proc" where
  "ig_try env body =
     bindp (liftp (as_message (ig_loads env) body)) (\<lambda>ingressMsg.
     bindp (liftp (get_keys ingressMsg [''username'', ''signature'', ''message'', ''uuid''])) (\<lambda>d.
     let message = snd (d ! 2); uuid = (if snd (d ! 3) = PNone then PStr ''N/A'' else snd (d ! 3)) in
     seqp (modp (\<lambda>s. s\<lparr>ig_uuid := snd (d ! 3)\<rparr>))
     (bindp (liftp (py_len message)) (\<lambda>_.
      seqp (modp (\<lambda>s. s\<lparr>ig_uuid := uuid\<rparr>))
      (bindp (liftp (authentic env ingressMsg message)) (\<lambda>ok.
        if \<not> ok then ret () else ig_dispatch env ingressMsg message uuid))))))"

definition ig_process_msg :: "ig_env \<Rightarrow> pyv \<Rightarrow> (ig_state, unit) proc" where
  "ig_process_msg env body = seqp (modp (\<lambda>s. s\<lparr>ig_uuid := PNone\<rparr>))
     (tryp (ig_try env body) (\<lambda>_. bindp (getp ig_uuid) (send_ack env ''Error Processing Msg'' ''Msg Handler Not Found'')))"

section \<open>The loop of the thread\<close>

definition create_MsgConsumer_obj :: "ig_env \<Rightarrow> (ig_state, unit) proc" where
  "create_MsgConsumer_obj env = modp (\<lambda>s. s\<lparr>ig_consumer := ig_create env (ig_calls s), ig_calls := ig_calls s + 1\<rparr>)"

definition consumer_call :: "(nat \<Rightarrow> 'a res) \<Rightarrow> (ig_state, 'a) proc" where
  "consumer_call f s = (f (ig_calls s), s\<lparr>ig_calls := ig_calls s + 1\<rparr>)"

text \<open>One turn of \<^verbatim>\<open>while True\<close>.\<close>

definition ig_turn :: "ig_env \<Rightarrow> (ig_state, unit) proc" where
  "ig_turn env =
     bindp (getp ig_consumer) (\<lambda>c.
     bindp (if c then consumer_call (ig_receive env) else seqp (create_MsgConsumer_obj env) (ret PNone)) (\<lambda>message.
       if truthy message then
         seqp (ig_process_msg env message)
         (bindp (getp ig_consumer) (\<lambda>c. if c
            then seqp (consumer_call (ig_ack env)) (modp (\<lambda>s. s\<lparr>ig_acked := ig_acked s @ [message]\<rparr>))
            else create_MsgConsumer_obj env))
       else ret ()))"

primrec ig_turns :: "nat \<Rightarrow> ig_env \<Rightarrow> (ig_state, unit) proc" where
  "ig_turns 0 env = ret ()"
| "ig_turns (Suc n) env = seqp (ig_turn env) (ig_turns n env)"

text \<open>The loop ends by an exception only: \<open>None\<close> while it still runs after \<open>n\<close> turns.\<close>

definition ig_run :: "nat \<Rightarrow> ig_env \<Rightarrow> ig_state \<Rightarrow> ig_state option" where
  "ig_run n env s = (case ig_turns n env s of
     (Inr _, s') \<Rightarrow> None
   | (Inl _, s') \<Rightarrow> Some (if ig_running env then s'\<lparr>ig_schedule := ig_schedule s' @ [10]\<rparr> else s'))"

section \<open>What is put into which queue\<close>

text \<open>A program that writes at most once, to a place of \<open>A\<close>, and nothing when it raises.\<close>

definition put_into :: "string \<times> pyv \<Rightarrow> nat msgq \<Rightarrow> nat msgq \<Rightarrow> bool" where
  "put_into x q q' \<longleftrightarrow> (\<exists>ms. map_of (msgQlist q) (fst x) = Some ms \<and> q' = q\<lparr>msgQlist := AList.update (fst x) (ms @ [(snd x, None)]) (msgQlist q)\<rparr>)"

definition writes :: "(string \<times> pyv) set \<Rightarrow> (ig_state, 'a) proc \<Rightarrow> bool" where
  "writes A p \<longleftrightarrow> (\<forall>s. ig_q (snd (p s)) = ig_q s \<or> (\<exists>y. fst (p s) = Inr y) \<and> (\<exists>x \<in> A. put_into x (ig_q s) (ig_q (snd (p s)))))"

lemma writes_ret: "writes A (ret x)"
  by (simp add: writes_def ret_def)

lemma writes_write: "x \<in> A \<Longrightarrow> writes A (ig_write (fst x) (snd x))"
  by (auto simp: writes_def ig_write_def write_internal_msgQ_def put_into_def split: option.splits)

lemma writes_liftp:
  assumes "\<And>x. r = Inr x \<Longrightarrow> writes A (f x)"
  shows "writes A (bindp (liftp r) f)"
  using assms by (cases r) (simp_all add: bindp_liftp writes_def, simp add: bindp_def liftp_def)

lemma writes_seqp:
  assumes "\<And>s. ig_q (g s) = ig_q s" and "writes A p"
  shows "writes A (seqp (modp g) p)"
  using assms unfolding writes_def seqp_def modp_def by simp metis

lemma writes_if: "(b \<Longrightarrow> writes A p) \<Longrightarrow> (\<not> b \<Longrightarrow> writes A q) \<Longrightarrow> writes A (if b then p else q)"
  by simp

text \<open>Acknowledgements of errors, and requests the code lets through.\<close>

definition acks :: "ig_env \<Rightarrow> (string \<times> pyv) set" where
  "acks env = {(''EgressProcessor'', PStr t) |t. \<exists>a m u. bindr (AckResponseMsg (ig_msgs env) (PStr a) (PStr m) u 0) (actuator_getJson (ig_msgs env)) = Inr t}"

definition accepted :: "ig_env \<Rightarrow> pyv \<Rightarrow> (string \<times> pyv) set" where
  "accepted env body = {(q, message). \<exists>m msgType. as_message (ig_loads env) body = Inr m \<and> get_key m ''message'' = Inr message \<and>
     authentic env m message = Inr True \<and> first_route msgType ROUTES = Inr (Some q) \<and>
     (get_key message ''actuator_request_type'' = Inr msgType \<and> msgType \<noteq> PNone \<and> ig_actuator_schema env m = None \<and>
        (\<exists>t. get_key message ''target_node_id'' = Inr t \<and> t \<noteq> PNone \<and> py_eq t (ig_node_id env)) \<or>
      get_key message ''actuator_request_type'' = Inr PNone \<and> get_key message ''sensor_request_type'' = Inr msgType \<and> msgType \<noteq> PNone \<and>
        ig_sensor_schema env m = None)}"

lemma writes_mono: "writes A p \<Longrightarrow> A \<subseteq> B \<Longrightarrow> writes B p"
  unfolding writes_def by blast

lemma writes_send_ack: "writes (acks env) (send_ack env a m u)"
  unfolding send_ack_def
proof (rule writes_liftp)
  fix t
  assume "bindr (AckResponseMsg (ig_msgs env) (PStr a) (PStr m) u 0) (actuator_getJson (ig_msgs env)) = Inr t"
  then have "(''EgressProcessor'', PStr t) \<in> acks env" unfolding acks_def by blast
  from writes_write [OF this] show "writes (acks env) (ig_write ''EgressProcessor'' (PStr t))" by simp
qed

lemma writes_send:
  assumes "\<And>q. first_route msgType ROUTES = Inr (Some q) \<Longrightarrow> (q, message) \<in> A" and "acks env \<subseteq> A"
  shows "writes A (send_to_msg_handler env msgType message uuid)"
  unfolding send_to_msg_handler_def
proof (rule writes_liftp)
  fix r
  assume r: "first_route msgType ROUTES = Inr r"
  show "writes A (case r of Some q \<Rightarrow> ig_write q message | None \<Rightarrow> send_ack env ''Error Processing Message'' ''Message Handler Not Found'' uuid)"
  proof (cases r)
    case (Some q)
    with assms(1) r have "(q, message) \<in> A" by simp
    from writes_write [OF this] Some show ?thesis by simp
  qed (use writes_mono [OF writes_send_ack assms(2)] in simp)
qed

lemma schema_passed: "check_schema f m = Inr x \<longleftrightarrow> f m = None"
  by (simp add: check_schema_def split: option.splits)

lemma writes_dispatch:
  assumes "as_message (ig_loads env) body = Inr m" and "get_key m ''message'' = Inr message" and "authentic env m message = Inr True"
  shows "writes (acks env \<union> accepted env body) (ig_dispatch env m message uuid)"
  unfolding ig_dispatch_def
  by (intro writes_liftp writes_if writes_send writes_ret) (use assms in \<open>auto simp: accepted_def schema_passed\<close>)

lemma writes_try: "writes (acks env \<union> accepted env body) (ig_try env body)"
  unfolding ig_try_def
proof (rule writes_liftp)
  fix m
  assume m: "as_message (ig_loads env) body = Inr m"
  show "writes (acks env \<union> accepted env body) (bindp (liftp (get_keys m [''username'', ''signature'', ''message'', ''uuid''])) (\<lambda>d.
     let message = snd (d ! 2); uuid = (if snd (d ! 3) = PNone then PStr ''N/A'' else snd (d ! 3)) in
     seqp (modp (\<lambda>s. s\<lparr>ig_uuid := snd (d ! 3)\<rparr>)) (bindp (liftp (py_len message)) (\<lambda>_. seqp (modp (\<lambda>s. s\<lparr>ig_uuid := uuid\<rparr>))
      (bindp (liftp (authentic env m message)) (\<lambda>ok. if \<not> ok then ret () else ig_dispatch env m message uuid))))))"
  proof (rule writes_liftp)
    fix d
    assume d: "get_keys m [''username'', ''signature'', ''message'', ''uuid''] = Inr d"
    then have "get_key m ''message'' = Inr (snd (d ! 2))" by (auto simp: get_keys_def bindr_eq_Inr)
    then show "writes (acks env \<union> accepted env body) (let message = snd (d ! 2); uuid = (if snd (d ! 3) = PNone then PStr ''N/A'' else snd (d ! 3)) in
        seqp (modp (\<lambda>s. s\<lparr>ig_uuid := snd (d ! 3)\<rparr>)) (bindp (liftp (py_len message)) (\<lambda>_. seqp (modp (\<lambda>s. s\<lparr>ig_uuid := uuid\<rparr>))
        (bindp (liftp (authentic env m message)) (\<lambda>ok. if \<not> ok then ret () else ig_dispatch env m message uuid)))))"
      unfolding Let_def by (intro writes_seqp writes_liftp writes_if writes_ret writes_dispatch [OF m]) simp_all
  qed
qed

text \<open>The handler of exceptions can always send its acknowledgement.\<close>

definition ig_ready :: "ig_env \<Rightarrow> ig_state \<Rightarrow> bool" where
  "ig_ready env s \<longleftrightarrow> msg_env_ok (ig_msgs env) \<and> has_queue ''EgressProcessor'' (ig_q s)"

lemma ack_run:
  assumes "ig_ready env s" and "json_able u"
  shows "\<exists>x \<in> acks env. \<exists>s'. send_ack env a m u s = (Inr (), s') \<and> put_into x (ig_q s) (ig_q s') \<and> s' = s\<lparr>ig_q := ig_q s'\<rparr>"
proof -
  have env: "actuator_schema (ig_msgs env) = Inr (\<lambda>_. None)" using assms(1) by (simp add: ig_ready_def msg_env_ok_def)
  obtain k where k: "AckResponseMsg (ig_msgs env) (PStr a) (PStr m) u 0 = Inr k" "json_able k"
      "get_path k [''message'', ''actuator_response_type'', ''info''] = Inr PNone"
    using env assms(2) by (auto simp: AckResponseMsg_def with_schema_def actuator_envelope_def envelope_def sspl_ll_msg_header_def)
  have "prepare_message (ig_msgs env) ''actuator_response_type'' k = (Inr (), k)"
    using k(3) by (simp add: prepare_message_def tryp_def bindp_def getp_def liftp_def ret_def del: get_path.simps)
  then obtain t where t: "actuator_getJson (ig_msgs env) k = Inr t"
    using json_dumps_ok [OF json_able_normalize [OF k(2)]] env by (auto simp: actuator_getJson_def actuator_validateMsg_def validateMsg_def)
  obtain ms where ms: "map_of (msgQlist (ig_q s)) ''EgressProcessor'' = Some ms" using assms(1) by (auto simp: ig_ready_def has_queue_def)
  let ?q = "(ig_q s)\<lparr>msgQlist := AList.update ''EgressProcessor'' (ms @ [(PStr t, None)]) (msgQlist (ig_q s))\<rparr>"
  have "send_ack env a m u s = (Inr (), s\<lparr>ig_q := ?q\<rparr>)"
    using k(1) t ms by (simp add: send_ack_def bindp_liftp ig_write_def write_internal_msgQ_def)
  moreover have "put_into (''EgressProcessor'', PStr t) (ig_q s) ?q" using ms by (simp add: put_into_def)
  moreover have "(''EgressProcessor'', PStr t) \<in> acks env"
  proof -
    have "bindr (AckResponseMsg (ig_msgs env) (PStr a) (PStr m) u 0) (actuator_getJson (ig_msgs env)) = Inr t" using k(1) t by simp
    then show ?thesis unfolding acks_def by blast
  qed
  ultimately show ?thesis by (intro bexI [of _ "(''EgressProcessor'', PStr t)"] exI [of _ "s\<lparr>ig_q := ?q\<rparr>"]) simp_all
qed

definition ig_safe :: "ig_state \<Rightarrow> bool" where
  "ig_safe s \<longleftrightarrow> json_able (ig_uuid s) \<and> has_queue ''EgressProcessor'' (ig_q s)"

lemma keeps_liftp_value:
  assumes "\<And>x. r = Inr x \<Longrightarrow> keeps I (f x)"
  shows "keeps I (bindp (liftp r) f)"
  using assms by (cases r) (simp_all add: bindp_liftp keeps_def, simp add: bindp_def liftp_def)

lemma keeps_safe_write: "keeps ig_safe (ig_write n m)"
  by (auto simp: keeps_def ig_safe_def ig_write_def write_internal_msgQ_def has_queue_def split: option.splits)

lemma keeps_safe_dispatch: "keeps ig_safe (ig_dispatch env m message uuid)"
  unfolding ig_dispatch_def send_to_msg_handler_def send_ack_def by (auto intro!: keeps_rules keeps_safe_write split: option.splits)

lemma keeps_safe_try:
  assumes "\<And>m. as_message (ig_loads env) body = Inr m \<Longrightarrow> json_able m"
  shows "keeps ig_safe (ig_try env body)"
  unfolding ig_try_def
proof (intro keeps_liftp_value)
  fix m d
  assume m: "as_message (ig_loads env) body = Inr m" "get_keys m [''username'', ''signature'', ''message'', ''uuid''] = Inr d"
  then obtain e where e: "m = PDict e" "d ! 3 = (''uuid'', look e ''uuid'')"
    by (cases m) (auto simp: get_keys_def bindr_eq_Inr get_key_def look_def)
  have "json_able (PDict e)" using assms m(1) e(1) by simp
  then have u: "json_able (snd (d ! 3))" using e(2) json_able_look by simp
  have set_uuid: "keeps ig_safe (modp (\<lambda>s. s\<lparr>ig_uuid := v\<rparr>))" if "json_able v" for v using that by (simp add: keeps_def modp_def ig_safe_def)
  have "json_able (if snd (d ! 3) = PNone then PStr ''N/A'' else snd (d ! 3))" using u by simp
  with u show "keeps ig_safe (let message = snd (d ! 2); uuid = (if snd (d ! 3) = PNone then PStr ''N/A'' else snd (d ! 3)) in
        seqp (modp (\<lambda>s. s\<lparr>ig_uuid := snd (d ! 3)\<rparr>)) (bindp (liftp (py_len message)) (\<lambda>_. seqp (modp (\<lambda>s. s\<lparr>ig_uuid := uuid\<rparr>))
        (bindp (liftp (authentic env m message)) (\<lambda>ok. if \<not> ok then ret () else ig_dispatch env m message uuid)))))"
    unfolding Let_def by (intro keeps_seqp keeps_liftp_value set_uuid keeps_if keeps_safe_dispatch keeps_ret)
qed

lemma process_routes:
  assumes "ig_ready env s" and "\<forall>m. as_message (ig_loads env) body = Inr m \<longrightarrow> json_able m"
  shows "\<exists>s'. ig_process_msg env body s = (Inr (), s') \<and>
    (ig_q s' = ig_q s \<or> (\<exists>x \<in> acks env \<union> accepted env body. put_into x (ig_q s) (ig_q s')))"
proof -
  let ?s = "s\<lparr>ig_uuid := PNone\<rparr>"
  obtain r s1 where r: "ig_try env body ?s = (r, s1)" by force
  have "ig_safe ?s" using assms(1) by (simp add: ig_safe_def ig_ready_def)
  with keepsD [OF keeps_safe_try] assms(2) have safe: "ig_safe s1" using r by (metis snd_conv)
  have w: "ig_q s1 = ig_q s \<or> (\<exists>y. r = Inr y) \<and> (\<exists>x \<in> acks env \<union> accepted env body. put_into x (ig_q s) (ig_q s1))"
    using writes_try [of env body, unfolded writes_def, rule_format, of ?s] r by simp
  show ?thesis
  proof (cases r)
    case (Inr y)
    then show ?thesis using r w by (simp add: ig_process_msg_def seqp_def modp_def tryp_def)
  next
    case (Inl e)
    then have q: "ig_q s1 = ig_q s" using w by simp
    have "ig_ready env s1" using safe assms(1) by (simp add: ig_ready_def ig_safe_def)
    from ack_run [OF this, of "ig_uuid s1" "''Error Processing Msg''" "''Msg Handler Not Found''"] safe obtain x s' where
      "x \<in> acks env" "send_ack env ''Error Processing Msg'' ''Msg Handler Not Found'' (ig_uuid s1) s1 = (Inr (), s')" "put_into x (ig_q s1) (ig_q s')"
      unfolding ig_safe_def by blast
    then show ?thesis using r Inl q by (auto simp: ig_process_msg_def seqp_def modp_def tryp_def bindp_def getp_def)
  qed
qed

text \<open>
  C15. Handling a message from the bus never fails and puts at most one message into one queue: a request into the queue of
  the first handler it names, and only when it is authentic, passes its schema and, for an actuator, is meant for this node;
  or an acknowledgement of an error into the queue of the egress processor.\<close>

theorem ingress_routes:
  assumes "ig_ready env s" and "\<forall>m. as_message (ig_loads env) body = Inr m \<longrightarrow> json_able m"
  shows "\<exists>s'. ig_process_msg env body s = (Inr (), s') \<and>
    (ig_q s' = ig_q s \<or> (\<exists>x \<in> acks env \<union> accepted env body. put_into x (ig_q s) (ig_q s')))"
  by (rule process_routes [OF assms])

section \<open>Acknowledgements\<close>

text \<open>The messages of \<open>n\<close> turns, from call \<open>k\<close> of the consumer on.\<close>

primrec received :: "nat \<Rightarrow> ig_env \<Rightarrow> nat \<Rightarrow> pyv list" where
  "received 0 env k = []"
| "received (Suc n) env k = (case ig_receive env k of
     Inr m \<Rightarrow> if truthy m then m # received n env (k + 2) else received n env (k + 1) | Inl _ \<Rightarrow> [])"

definition consumer_ok :: "ig_env \<Rightarrow> bool" where
  "consumer_ok env \<longleftrightarrow> (\<forall>k. ig_ack env k = Inr ()) \<and> (\<forall>k. \<exists>b. ig_receive env k = Inr b \<and> (\<forall>m. as_message (ig_loads env) b = Inr m \<longrightarrow> json_able m))"

lemma keeps_consumer: "keeps (\<lambda>s. ig_consumer s = c \<and> ig_calls s = k \<and> ig_acked s = a) (ig_process_msg env body)"
proof -
  have w: "keeps (\<lambda>s. ig_consumer s = c \<and> ig_calls s = k \<and> ig_acked s = a) (ig_write n m)" for n m
    by (simp add: keeps_def ig_write_def split: prod.splits)
  have u: "keeps (\<lambda>s. ig_consumer s = c \<and> ig_calls s = k \<and> ig_acked s = a) (modp (\<lambda>s. s\<lparr>ig_uuid := v\<rparr>))" for v
    by (simp add: keeps_def modp_def)
  show ?thesis
    unfolding ig_process_msg_def ig_try_def ig_dispatch_def send_to_msg_handler_def send_ack_def Let_def
    by (auto intro!: keeps_rules w u split: option.splits)
qed

text \<open>
  As long as the consumer works, the loop goes on whatever the messages hold, and each message is handled and then acknowledged
  exactly once, in the order of arrival.
\<close>

lemma ingress_acknowledges_all:
  assumes "consumer_ok env" and "ig_ready env s" and "ig_consumer s"
  shows "\<exists>s'. ig_turns n env s = (Inr (), s') \<and> ig_acked s' = ig_acked s @ received n env (ig_calls s)"
  using assms(2,3)
proof (induction n arbitrary: s)
  case (Suc n)
  obtain b where b: "ig_receive env (ig_calls s) = Inr b" "\<forall>m. as_message (ig_loads env) b = Inr m \<longrightarrow> json_able m"
    using assms(1) unfolding consumer_ok_def by blast
  let ?s = "s\<lparr>ig_calls := ig_calls s + 1\<rparr>"
  have rd: "ig_ready env ?s" using Suc.prems(1) by (simp add: ig_ready_def)
  show ?case
  proof (cases "truthy b")
    case False
    then have "ig_turn env s = (Inr (), ?s)" using b(1) Suc.prems(2) by (simp add: ig_turn_def bindp_def getp_def consumer_call_def ret_def)
    with Suc.IH [OF rd] Suc.prems(2) b(1) False show ?thesis by (simp add: seqp_run)
  next
    case True
    obtain s1 where s1: "ig_process_msg env b ?s = (Inr (), s1)" "ig_q s1 = ig_q ?s \<or> (\<exists>x. put_into x (ig_q ?s) (ig_q s1))"
      using process_routes [OF rd b(2)] by blast
    have c: "ig_consumer s1" "ig_calls s1 = ig_calls s + 1" "ig_acked s1 = ig_acked s"
      using keepsD [OF keeps_consumer [of True "ig_calls s + 1" "ig_acked s" env b], of ?s] Suc.prems(2) s1(1) by auto
    let ?s2 = "s1\<lparr>ig_calls := ig_calls s1 + 1, ig_acked := ig_acked s1 @ [b]\<rparr>"
    have "ig_ready env ?s2" using Suc.prems(1) s1(2) by (auto simp: ig_ready_def has_queue_def put_into_def)
    moreover have "ig_turn env s = (Inr (), ?s2)"
      using b(1) Suc.prems(2) s1(1) c(1) True assms(1)
      by (simp add: ig_turn_def bindp_def getp_def consumer_call_def seqp_def modp_def consumer_ok_def)
    ultimately show ?thesis using Suc.IH [of ?s2] c b(1) True by (simp add: seqp_run)
  qed
qed (simp add: ret_def)

section \<open>From the bus to the answer\<close>

text \<open>A request to the service handler, as it comes from the bus.\<close>

definition bus_request :: "ig_env \<Rightarrow> pyv \<Rightarrow> pydict \<Rightarrow> bool" where
  "bus_request env body d \<longleftrightarrow> (\<exists>e a t. as_message (ig_loads env) body = Inr (PDict e) \<and> json_able (PDict e) \<and> map_of e ''message'' = Some (PDict d) \<and>
     authentic env (PDict e) (PDict d) = Inr True \<and> ig_actuator_schema env (PDict e) = None \<and>
     map_of d ''actuator_request_type'' = Some a \<and> a \<noteq> PNone \<and> first_route a ROUTES = Inr (Some ''ServiceMsgHandler'') \<and>
     map_of d ''target_node_id'' = Some t \<and> t \<noteq> PNone \<and> py_eq t (ig_node_id env))"

lemma bus_request_routed:
  assumes "bus_request env body d" and "map_of (msgQlist (ig_q s)) ''ServiceMsgHandler'' = Some ms"
  shows "\<exists>s'. ig_process_msg env body s = (Inr (), s') \<and>
    ig_q s' = (ig_q s)\<lparr>msgQlist := AList.update ''ServiceMsgHandler'' (ms @ [(PDict d, None)]) (msgQlist (ig_q s))\<rparr>"
proof -
  obtain e a t where e: "as_message (ig_loads env) body = Inr (PDict e)" "map_of e ''message'' = Some (PDict d)"
      "authentic env (PDict e) (PDict d) = Inr True" "ig_actuator_schema env (PDict e) = None" "map_of d ''actuator_request_type'' = Some a" "a \<noteq> PNone"
      "first_route a ROUTES = Inr (Some ''ServiceMsgHandler'')" "map_of d ''target_node_id'' = Some t" "t \<noteq> PNone" "py_eq t (ig_node_id env)"
    using assms(1) by (auto simp: bus_request_def)
  have chk: "check_schema (ig_actuator_schema env) (PDict e) = Inr ()" using e(4) by (simp add: check_schema_def)
  have "ig_dispatch env (PDict e) (PDict d) u s1 = ig_write ''ServiceMsgHandler'' (PDict d) s1" for u s1
    using e(5-10) chk by (simp add: ig_dispatch_def bindp_liftp send_to_msg_handler_def)
  then have body: "ig_try env body s1 = ig_write ''ServiceMsgHandler'' (PDict d)
      (s1\<lparr>ig_uuid := (if look e ''uuid'' = PNone then PStr ''N/A'' else look e ''uuid'')\<rparr>)" for s1
    using e(1-3) by (simp add: ig_try_def bindp_liftp get_keys_PDict seqp_def modp_def look_def)
  show ?thesis
    using assms(2) by (simp add: ig_process_msg_def seqp_def modp_def tryp_def body ig_write_def write_internal_msgQ_def)
qed

lemma sv_run_one:
  assumes "\<not> sv_suspended v" and "map_of (msgQlist (sv_q v)) ''ServiceMsgHandler'' = Some [(PDict d, None)]" and "map_of d ''sspl_ll_debug'' = None"
    and "\<And>v1. sv_ticks v1 = sv_ticks v \<Longrightarrow> sv_egress v1 = sv_egress v \<Longrightarrow> sv_table v1 = sv_table v \<Longrightarrow> sv_actuator v1 = sv_actuator v \<Longrightarrow> sv_sd v1 = sv_sd v \<Longrightarrow>
      has_queue ''EgressProcessor'' (sv_q v1) = has_queue ''EgressProcessor'' (sv_q v) \<Longrightarrow> \<exists>v2. sv_process_msg env (PDict d) v1 = (Inr (), v2) \<and> P v2"
    and "\<And>v2 l. P v2 \<Longrightarrow> P (v2\<lparr>sv_schedule := l\<rparr>)"
  shows "\<exists>v2. sv_run 1 env v = Some (Inr (), v2) \<and> P v2"
proof -
  obtain q where q: "read_my_msgQ (sv_loads env) ''ServiceMsgHandler'' (sv_q v) = (Got (PDict d, None), q)"
      "msgQlist q = AList.update ''ServiceMsgHandler'' [] (msgQlist (sv_q v))"
    using assms(2,3) by (auto simp: read_my_msgQ_def handle_entry_def bindp_def on_dbg_def plain_debug seqp_def ret_def)
  let ?v = "v\<lparr>sv_q := q\<rparr>"
  obtain v2 where v2: "sv_process_msg env (PDict d) ?v = (Inr (), v2)" "P v2"
    using assms(4) [of ?v] q(2) by (auto simp: sv_egress_def has_queue_def)
  have "map_of (msgQlist (sv_q (snd (sv_process_msg env (PDict d) ?v)))) ''ServiceMsgHandler'' = Some []"
    using keeps_own_process [of "Some []" env "PDict d"] q(2) by (simp add: keeps_def)
  with v2(1) have "map_of (msgQlist (sv_q v2)) ''ServiceMsgHandler'' = Some []" by simp
  then have "sv_run 1 env v = Some (Inr (), v2\<lparr>sv_schedule := sv_schedule v2 @ [1]\<rparr>)"
    using assms(1) q(1) v2(1) by (simp add: sv_run_def is_my_msgQ_empty_def)
  then show ?thesis using v2(2) assms(5) by blast
qed


section \<open>A concrete request\<close>

definition demo_bus_body :: pydict where
  "demo_bus_body = [(''message'', PDict ((''target_node_id'', PStr ''SN01'') # demo_service_request ''stop''))]"

definition demo_ig_env :: ig_env where
  "demo_ig_env = \<lparr>ig_msgs = demo_msg_env, ig_loads = (\<lambda>_. Inl ValueError), ig_receive = (\<lambda>_. Inr (PDict demo_bus_body)), ig_create = (\<lambda>_. True),
     ig_ack = (\<lambda>_. Inr ()), ig_actuator_schema = (\<lambda>_. None), ig_sensor_schema = (\<lambda>_. None), ig_secure = False, ig_verify = (\<lambda>_ _ _ _. Inr 0),
     ig_node_id = PStr ''SN01'', ig_running = True\<rparr>"

definition demo_ig :: ig_state where
  "demo_ig = \<lparr>ig_q = sv_q (demo_sv INITIALIZED), ig_consumer = True, ig_calls = 0, ig_uuid = PNone, ig_schedule = [], ig_acked = []\<rparr>"

lemma demo_bus_request: "bus_request demo_ig_env (PDict demo_bus_body) ((''target_node_id'', PStr ''SN01'') # demo_service_request ''stop'')"
  by (simp add: bus_request_def demo_bus_body_def demo_ig_env_def demo_service_request_def authentic_def ROUTES_def)


theorem ingress_routes_witness:
  "\<exists>s'. ig_process_msg demo_ig_env (PDict demo_bus_body) demo_ig = (Inr (), s') \<and>
    (ig_q s' = ig_q demo_ig \<or> (\<exists>x \<in> acks demo_ig_env \<union> accepted demo_ig_env (PDict demo_bus_body). put_into x (ig_q demo_ig) (ig_q s')))"
proof (rule ingress_routes)
  show "ig_ready demo_ig_env demo_ig" by (simp add: ig_ready_def demo_ig_env_def demo_ig_def demo_sv_def demo_msg_env_ok has_queue_def)
  show "\<forall>m. as_message (ig_loads demo_ig_env) (PDict demo_bus_body) = Inr m \<longrightarrow> json_able m"
    by (simp add: demo_bus_body_def demo_service_request_def)
qed

end
